(* ===== verification/Py_Prelude.thy ===== *)
theory Py_Prelude
  imports
    Complex_Main
    "HOL-Library.AList"
    "HOL-Library.Char_ord"
    "HOL-Library.List_Lexorder"
    "HOL-Library.Sublist"
    "HOL-Library.Multiset"
begin

text \<open>
  What the components share: the values of the Python standard library the sources use
  (results and exceptions, dictionaries, strings, decimal integers, JSON and TOML values) and
  the generic lemmas about them.

  \<^item> A Python \<open>str\<close> is a \<open>string\<close>: a list of code points below 256 (Latin-1). The case
    mappings, the white space and the digit predicates are those of that range.
  \<^item> A \<open>dict\<close> is an association list in insertion order: \<open>AList.update\<close> overwrites in place or
    appends at the end, as assignment to a key does.
  \<^item> A raised exception is \<open>Inl\<close>, a returned value \<open>Inr\<close>; an operation on state returns the state
    also when it raises, because what it changed before the raise stays changed.
  \<^item> The message of a built-in exception is not modelled (no component forwards one to a client).
\<close>

named_theorems result_simps \<open>equations and inversions for the result and operation combinators\<close>
named_theorems pystr_simps \<open>equations for the string operations\<close>

section \<open>Results and operations\<close>

datatype py_exn =
  ValueError | TypeError | AttributeError | IndexError | KeyError | AssertionError
| OverflowError | OSError | RuntimeError

definition rbind :: "'e + 'a \<Rightarrow> ('a \<Rightarrow> 'e + 'b) \<Rightarrow> 'e + 'b" where
  "rbind m f = (case m of Inl e \<Rightarrow> Inl e | Inr x \<Rightarrow> f x)"

fun rmap :: "('a \<Rightarrow> 'e + 'b) \<Rightarrow> 'a list \<Rightarrow> 'e + 'b list" where
  "rmap f [] = Inr []"
| "rmap f (x # xs) = rbind (f x) (\<lambda>y. rbind (rmap f xs) (\<lambda>ys. Inr (y # ys)))"

text \<open>A comprehension whose condition may raise: the first raise ends it.\<close>

fun rfilter :: "('a \<Rightarrow> 'e + bool) \<Rightarrow> 'a list \<Rightarrow> 'e + 'a list" where
  "rfilter f [] = Inr []"
| "rfilter f (x # xs) =
     rbind (f x) (\<lambda>b. rbind (rfilter f xs) (\<lambda>ys. Inr (if b then x # ys else ys)))"

type_synonym ('s, 'e, 'a) opn = "'s \<Rightarrow> ('e + 'a) \<times> 's"

definition sret :: "'a \<Rightarrow> ('s, 'e, 'a) opn" where
  "sret x s = (Inr x, s)"

definition sraise :: "'e \<Rightarrow> ('s, 'e, 'a) opn" where
  "sraise e s = (Inl e, s)"

definition slift :: "'e + 'a \<Rightarrow> ('s, 'e, 'a) opn" where
  "slift r s = (r, s)"

definition sbind :: "('s, 'e, 'a) opn \<Rightarrow> ('a \<Rightarrow> ('s, 'e, 'b) opn) \<Rightarrow> ('s, 'e, 'b) opn" where
  "sbind m f s = (case m s of (Inl e, s') \<Rightarrow> (Inl e, s') | (Inr x, s') \<Rightarrow> f x s')"

definition sget :: "('s \<Rightarrow> 'a) \<Rightarrow> ('s, 'e, 'a) opn" where
  "sget f s = (Inr (f s), s)"

definition smod :: "('s \<Rightarrow> 's) \<Rightarrow> ('s, 'e, unit) opn" where
  "smod f s = (Inr (), f s)"

lemma rbind_simps [simp]:
  "rbind (Inl e) f = Inl e"
  "rbind (Inr x) f = f x"
  by (simp_all add: rbind_def)

lemma rbind_Inr_iff [result_simps]: "rbind m f = Inr y \<longleftrightarrow> (\<exists>x. m = Inr x \<and> f x = Inr y)"
  by (cases m) simp_all

lemma rbind_Inl_iff [result_simps]:
  "rbind m f = Inl e \<longleftrightarrow> m = Inl e \<or> (\<exists>x. m = Inr x \<and> f x = Inl e)"
  by (cases m) simp_all

lemma rbind_cong [fundef_cong]:
  "m = m' \<Longrightarrow> (\<And>x. m' = Inr x \<Longrightarrow> f x = g x) \<Longrightarrow> rbind m f = rbind m' g"
  by (cases m') simp_all

lemma rbind_assoc: "rbind (rbind m f) g = rbind m (\<lambda>x. rbind (f x) g)"
  by (cases m) simp_all

lemma rmap_Inr_iff [result_simps]:
  "rmap f xs = Inr ys \<longleftrightarrow> list_all2 (\<lambda>x y. f x = Inr y) xs ys"
proof (induction xs arbitrary: ys)
  case Nil
  then show ?case by auto
next
  case (Cons x xs)
  then show ?case by (cases ys) (auto simp: result_simps)
qed

lemma rmap_Inr_set: "rmap f xs = Inr ys \<Longrightarrow> y \<in> set ys \<Longrightarrow> \<exists>x \<in> set xs. f x = Inr y"
  by (auto simp: rmap_Inr_iff list_all2_conv_all_nth in_set_conv_nth) (metis nth_mem)

lemma rmap_Inl: "rmap f xs = Inl e \<Longrightarrow> \<exists>x \<in> set xs. f x = Inl e"
  by (induction xs) (auto simp: result_simps)

lemma rfilter_Inr: "rfilter f xs = Inr ys \<Longrightarrow> ys = filter (\<lambda>x. f x = Inr True) xs"
  by (induction xs arbitrary: ys) (auto simp: result_simps split: if_splits)

lemma rfilter_total: "(\<And>x. x \<in> set xs \<Longrightarrow> f x = Inr (g x)) \<Longrightarrow> rfilter f xs = Inr (filter g xs)"
  by (induction xs) simp_all

lemma op_simps [simp]:
  "sret x s = (Inr x, s)"
  "sraise e s = (Inl e, s)"
  "slift r s = (r, s)"
  "sget f s = (Inr (f s), s)"
  "smod g s = (Inr (), g s)"
  by (simp_all add: sret_def sraise_def slift_def sget_def smod_def)

lemma sbind_simps [simp]:
  "m s = (Inl e, s') \<Longrightarrow> sbind m f s = (Inl e, s')"
  "m s = (Inr x, s') \<Longrightarrow> sbind m f s = f x s'"
  by (simp_all add: sbind_def)

lemma sbind_unfold: "sbind m f s = (case m s of (Inl e, s') \<Rightarrow> (Inl e, s') | (Inr x, s') \<Rightarrow> f x s')"
  by (simp add: sbind_def)

lemma sbind_Inr_iff [result_simps]:
  "sbind m f s = (Inr y, t) \<longleftrightarrow> (\<exists>x s'. m s = (Inr x, s') \<and> f x s' = (Inr y, t))"
  by (auto simp: sbind_def split: prod.splits sum.splits)

text \<open>The final state of a composite operation satisfies what each of its parts keeps.\<close>

definition keeps :: "('s \<Rightarrow> bool) \<Rightarrow> ('s, 'e, 'a) opn \<Rightarrow> bool" where
  "keeps P m \<longleftrightarrow> (\<forall>s. P s \<longrightarrow> P (snd (m s)))"

lemma keepsI: "(\<And>s. P s \<Longrightarrow> P (snd (m s))) \<Longrightarrow> keeps P m"
  by (simp add: keeps_def)

lemma keepsD: "keeps P m \<Longrightarrow> P s \<Longrightarrow> m s = (r, t) \<Longrightarrow> P t"
  by (force simp: keeps_def)

lemma keeps_basic [intro, simp]:
  "keeps P (sret x)" "keeps P (sraise e)" "keeps P (slift r)" "keeps P (sget f)"
  by (simp_all add: keeps_def)

lemma keeps_smod: "(\<And>s. P s \<Longrightarrow> P (f s)) \<Longrightarrow> keeps P (smod f)"
  by (simp add: keeps_def)

lemma keeps_sbind [intro]:
  assumes "keeps P m" and "\<And>x. keeps P (f x)"
  shows "keeps P (sbind m f)"
proof (rule keepsI)
  fix s assume "P s"
  with assms(1) have "P (snd (m s))" by (simp add: keeps_def)
  with assms(2) show "P (snd (sbind m f s))"
    by (auto simp: sbind_def keeps_def split: prod.splits sum.splits)
qed

section \<open>Dictionaries\<close>

type_synonym ('k, 'v) dict = "('k \<times> 'v) list"

abbreviation dict_get :: "('k, 'v) dict \<Rightarrow> 'k \<Rightarrow> 'v option" where
  "dict_get d k \<equiv> map_of d k"

abbreviation dict_set :: "'k \<Rightarrow> 'v \<Rightarrow> ('k, 'v) dict \<Rightarrow> ('k, 'v) dict" where
  "dict_set k v d \<equiv> AList.update k v d"

abbreviation dict_del :: "'k \<Rightarrow> ('k, 'v) dict \<Rightarrow> ('k, 'v) dict" where
  "dict_del k d \<equiv> AList.delete k d"

definition dict_in :: "'k \<Rightarrow> ('k, 'v) dict \<Rightarrow> bool" where
  "dict_in k d \<longleftrightarrow> map_of d k \<noteq> None"

abbreviation dict_keys :: "('k, 'v) dict \<Rightarrow> 'k list" where
  "dict_keys d \<equiv> map fst d"

abbreviation dict_values :: "('k, 'v) dict \<Rightarrow> 'v list" where
  "dict_values d \<equiv> map snd d"

definition dict_get_or :: "('k, 'v) dict \<Rightarrow> 'k \<Rightarrow> 'v \<Rightarrow> 'v" where
  "dict_get_or d k v = (case map_of d k of None \<Rightarrow> v | Some w \<Rightarrow> w)"

lemma dict_get_set [simp]:
  "map_of (AList.update k v d) k' = (if k' = k then Some v else map_of d k')"
  by (simp add: update_conv')

lemma dict_get_del [simp]:
  "map_of (AList.delete k d) k' = (if k' = k then None else map_of d k')"
  by (simp add: delete_conv')

lemma dict_in_iff: "dict_in k d \<longleftrightarrow> k \<in> set (dict_keys d)"
  by (auto simp: dict_in_def map_of_eq_None_iff image_iff)

lemma dict_get_or_set [simp]:
  "dict_get_or (AList.update k v d) k' w = (if k' = k then v else dict_get_or d k' w)"
  by (simp add: dict_get_or_def)

lemma dict_keys_set: "set (dict_keys (dict_set k v d)) = insert k (set (dict_keys d))"
  by (simp add: dom_update)

lemma dict_set_fresh: "k \<notin> set (dict_keys d) \<Longrightarrow> dict_set k v d = d @ [(k, v)]"
  by (induction d) auto

lemma dict_set_same: "map_of d k = Some v \<Longrightarrow> dict_set k v d = d"
  by (induction d) (auto split: if_splits)

lemma dict_keys_set_same: "k \<in> set (dict_keys d) \<Longrightarrow> dict_keys (dict_set k v d) = dict_keys d"
  by (induction d) auto

lemma distinct_dict_set: "distinct (dict_keys d) \<Longrightarrow> distinct (dict_keys (dict_set k v d))"
  by (rule distinct_update)

lemma distinct_dict_del: "distinct (dict_keys d) \<Longrightarrow> distinct (dict_keys (dict_del k d))"
  by (rule distinct_delete)

lemma in_set_dict_set:
  assumes "(a, b) \<in> set (dict_set k v d)"
  shows "(a = k \<and> b = v) \<or> (a, b) \<in> set d"
  using assms by (induction d) (auto split: if_splits)

section \<open>Strings\<close>

abbreviation ch_newline :: char where "ch_newline \<equiv> CHR 0x0A"
abbreviation ch_return :: char where "ch_return \<equiv> CHR 0x0D"

text \<open>\<open>str.isspace\<close> on Latin-1.\<close>

definition is_space :: "char \<Rightarrow> bool" where
  "is_space c \<longleftrightarrow>
     (let n = (of_char c :: nat)
      in (9 \<le> n \<and> n \<le> 13) \<or> (28 \<le> n \<and> n \<le> 32) \<or> n = 133 \<or> n = 160)"

definition is_ascii_digit :: "char \<Rightarrow> bool" where
  "is_ascii_digit c \<longleftrightarrow> (let n = (of_char c :: nat) in 48 \<le> n \<and> n \<le> 57)"

text \<open>
  \<open>str.isdigit\<close>: besides the decimal digits Latin-1 has the superscripts two, three and one,
  which are digits and not decimals.
\<close>

definition is_digit_ch :: "char \<Rightarrow> bool" where
  "is_digit_ch c \<longleftrightarrow> is_ascii_digit c \<or> (of_char c :: nat) \<in> {178, 179, 185}"

definition py_isdigit :: "string \<Rightarrow> bool" where
  "py_isdigit s \<longleftrightarrow> s \<noteq> [] \<and> list_all is_digit_ch s"

definition is_lower_az :: "char \<Rightarrow> bool" where
  "is_lower_az c \<longleftrightarrow> (let n = (of_char c :: nat) in 97 \<le> n \<and> n \<le> 122)"

definition is_upper_az :: "char \<Rightarrow> bool" where
  "is_upper_az c \<longleftrightarrow> (let n = (of_char c :: nat) in 65 \<le> n \<and> n \<le> 90)"

definition lower_ch :: "char \<Rightarrow> char" where
  "lower_ch c =
     (let n = (of_char c :: nat)
      in if (65 \<le> n \<and> n \<le> 90) \<or> (192 \<le> n \<and> n \<le> 222 \<and> n \<noteq> 215) then char_of (n + 32) else c)"

definition py_lower :: "string \<Rightarrow> string" where
  "py_lower s = map lower_ch s"

text \<open>
  \<open>str.upper\<close>: the sharp s becomes two letters; the two Latin-1 letters whose capital lies
  outside Latin-1 (micro sign, y with diaeresis) are left as they are.
\<close>

definition upper_ch :: "char \<Rightarrow> string" where
  "upper_ch c =
     (let n = (of_char c :: nat)
      in if n = 223 then ''SS''
         else if (97 \<le> n \<and> n \<le> 122) \<or> (224 \<le> n \<and> n \<le> 254 \<and> n \<noteq> 247) then [char_of (n - 32)]
         else [c])"

definition py_upper :: "string \<Rightarrow> string" where
  "py_upper s = concat (map upper_ch s)"

definition py_lstrip :: "string \<Rightarrow> string" where
  "py_lstrip s = dropWhile is_space s"

definition py_rstrip :: "string \<Rightarrow> string" where
  "py_rstrip s = rev (dropWhile is_space (rev s))"

definition py_strip :: "string \<Rightarrow> string" where
  "py_strip s = py_rstrip (py_lstrip s)"

text \<open>\<open>s.split()\<close>: the maximal runs of characters that are not white space.\<close>

function py_split :: "string \<Rightarrow> string list" where
  "py_split s =
     (let t = dropWhile is_space s
      in if t = [] then []
         else takeWhile (\<lambda>c. \<not> is_space c) t # py_split (dropWhile (\<lambda>c. \<not> is_space c) t))"
  by pat_completeness auto
termination
proof (relation "measure length")
  fix s t :: string
  assume t: "t = dropWhile is_space s" "t \<noteq> []"
  then have "\<not> is_space (hd t)"
    by (metis hd_dropWhile)
  then have "length (dropWhile (\<lambda>c. \<not> is_space c) t) < length t"
    using t(2) by (cases t) (auto intro: le_less_trans[OF length_dropWhile_le])
  also have "length t \<le> length s"
    using t(1) by (simp add: length_dropWhile_le)
  finally show "(dropWhile (\<lambda>c. \<not> is_space c) t, s) \<in> measure length" by simp
qed simp

declare py_split.simps [simp del]

text \<open>\<open>s.split(c)\<close> for a one-character separator: always at least one piece.\<close>

fun split_ch :: "char \<Rightarrow> string \<Rightarrow> string list" where
  "split_ch c [] = [[]]"
| "split_ch c (x # xs) =
     (if x = c then [] # split_ch c xs
      else (case split_ch c xs of [] \<Rightarrow> [[x]] | p # ps \<Rightarrow> (x # p) # ps))"

text \<open>\<open>sep.join(parts)\<close>.\<close>

fun py_join :: "string \<Rightarrow> string list \<Rightarrow> string" where
  "py_join sep [] = []"
| "py_join sep [p] = p"
| "py_join sep (p # ps) = p @ sep @ py_join sep ps"

text \<open>\<open>s.partition(c)\<close>: head, whether the separator occurs, tail.\<close>

definition partition_ch :: "char \<Rightarrow> string \<Rightarrow> string \<times> bool \<times> string" where
  "partition_ch c s =
     (takeWhile (\<lambda>x. x \<noteq> c) s, c \<in> set s, tl (dropWhile (\<lambda>x. x \<noteq> c) s))"

text \<open>\<open>s.rpartition(c)\<close>: without the separator the whole string is the last component.\<close>

definition rpartition_ch :: "char \<Rightarrow> string \<Rightarrow> string \<times> bool \<times> string" where
  "rpartition_ch c s =
     (if c \<in> set s
      then (rev (tl (dropWhile (\<lambda>x. x \<noteq> c) (rev s))), True, rev (takeWhile (\<lambda>x. x \<noteq> c) (rev s)))
      else ([], False, s))"

text \<open>\<open>needle in hay\<close>.\<close>

fun py_in :: "string \<Rightarrow> string \<Rightarrow> bool" where
  "py_in needle [] = (needle = [])"
| "py_in needle (x # xs) = (prefix needle (x # xs) \<or> py_in needle xs)"

text \<open>\<open>s.rsplit(sep, 1)[0]\<close>: what stands before the last occurrence, or all of \<open>s\<close>.\<close>

fun before_last :: "string \<Rightarrow> string \<Rightarrow> string option" where
  "before_last sep [] = (if sep = [] then Some [] else None)"
| "before_last sep (x # xs) =
     (case before_last sep xs of
        Some p \<Rightarrow> Some (x # p)
      | None \<Rightarrow> (if prefix sep (x # xs) then Some [] else None))"

definition rsplit1_head :: "string \<Rightarrow> string \<Rightarrow> string" where
  "rsplit1_head sep s = (case before_last sep s of None \<Rightarrow> s | Some p \<Rightarrow> p)"

text \<open>
  A regular expression that ends in \<open>$\<close> (without MULTILINE) matches at the end of the string and
  also just before a newline that ends the string.
\<close>

definition re_dollar :: "(string \<Rightarrow> bool) \<Rightarrow> string \<Rightarrow> bool" where
  "re_dollar p s \<longleftrightarrow> p s \<or> (s \<noteq> [] \<and> last s = ch_newline \<and> p (butlast s))"

text \<open>\<open>len(s.encode("utf-8"))\<close>: two bytes from code point 128 on.\<close>

definition utf8_len :: "string \<Rightarrow> nat" where
  "utf8_len s = sum_list (map (\<lambda>c. if (of_char c :: nat) < 128 then 1 else 2) s)"

text \<open>\<open>repr(s)\<close>.\<close>

definition hex_digit :: "nat \<Rightarrow> char" where
  "hex_digit n = (if n < 10 then char_of (48 + n) else char_of (87 + n))"

definition repr_ch :: "char \<Rightarrow> char \<Rightarrow> string" where
  "repr_ch q c =
     (let n = (of_char c :: nat)
      in if c = q \<or> n = 92 then [CHR 0x5C, c]
         else if n = 9 then [CHR 0x5C, CHR ''t'']
         else if n = 10 then [CHR 0x5C, CHR ''n'']
         else if n = 13 then [CHR 0x5C, CHR ''r'']
         else if n < 32 \<or> (127 \<le> n \<and> n \<le> 160) \<or> n = 173
              then [CHR 0x5C, CHR ''x'', hex_digit (n div 16), hex_digit (n mod 16)]
         else [c])"

definition py_repr :: "string \<Rightarrow> string" where
  "py_repr s =
     (let q = (if CHR 0x27 \<in> set s \<and> CHR 0x22 \<notin> set s then CHR 0x22 else CHR 0x27)
      in q # concat (map (repr_ch q) s) @ [q])"

section \<open>Decimal integers\<close>

function str_pos :: "int \<Rightarrow> string" where
  "str_pos n =
     (if n < 10 then [char_of (48 + n)] else str_pos (n div 10) @ [char_of (48 + n mod 10)])"
  by pat_completeness auto
termination
  by (relation "measure nat") auto

declare str_pos.simps [simp del]

definition str_int :: "int \<Rightarrow> string" where
  "str_int i = (if i < 0 then CHR ''-'' # str_pos (- i) else str_pos i)"

definition str_nat :: "nat \<Rightarrow> string" where
  "str_nat n = str_pos (int n)"

definition digit_val :: "char \<Rightarrow> int" where
  "digit_val c = of_char c - 48"

definition int_of_digits :: "string \<Rightarrow> int" where
  "int_of_digits s = foldl (\<lambda>a c. 10 * a + digit_val c) 0 s"

text \<open>
  The literal of \<open>int(s)\<close> after sign: decimal digits, single underscores between digits; more than
  4300 digits (\<open>sys.int_info.default_max_str_digits\<close>) is a \<open>ValueError\<close>.
\<close>

fun underscores_ok :: "string \<Rightarrow> bool" where
  "underscores_ok [] = True"
| "underscores_ok [c] = is_ascii_digit c"
| "underscores_ok (c # d # cs) =
     (is_ascii_digit c \<and> (if d = CHR ''_'' then cs \<noteq> [] \<and> underscores_ok cs else underscores_ok (d # cs)))"

definition int_max_str_digits :: int where
  "int_max_str_digits = 4300"

definition int_literal :: "string \<Rightarrow> int option" where
  "int_literal s =
     (let ds = filter is_ascii_digit s
      in if s \<noteq> [] \<and> underscores_ok s \<and> int (length ds) \<le> int_max_str_digits
         then Some (int_of_digits ds) else None)"

definition py_int :: "string \<Rightarrow> int option" where
  "py_int s =
     (case py_strip s of
        [] \<Rightarrow> None
      | c # cs \<Rightarrow>
          (if c = CHR ''-'' then map_option uminus (int_literal cs)
           else if c = CHR ''+'' then int_literal cs
           else int_literal (c # cs)))"

text \<open>Printing a natural number and reading it back.\<close>

lemma is_ascii_digit_char_of: "(d :: nat) < 10 \<Longrightarrow> is_ascii_digit (char_of (48 + d))"
  by (simp add: is_ascii_digit_def)

lemma char_of_digit: "char_of (48 + int n) = char_of (48 + n)"
  using char_of_nat [of "48 + n", where 'a = int] by simp

lemma digit_val_char_of: "(d :: nat) < 10 \<Longrightarrow> digit_val (char_of (48 + d)) = int d"
  by (simp add: digit_val_def flip: char_of_digit)

lemma str_nat_small: "n < 10 \<Longrightarrow> str_nat n = [char_of (48 + n)]"
  by (simp add: str_nat_def str_pos.simps [of "int n"] char_of_digit)

lemma str_nat_step: "10 \<le> n \<Longrightarrow> str_nat n = str_nat (n div 10) @ [char_of (48 + n mod 10)]"
  using char_of_digit [of "n mod 10"]
  by (simp add: str_nat_def str_pos.simps [of "int n"] of_nat_div of_nat_mod)

lemma str_nat_not_Nil [simp]: "str_nat n \<noteq> []"
  by (cases "n < 10") (simp_all add: str_nat_small str_nat_step)

lemma str_nat_induct [case_names step]:
  assumes "\<And>n. (10 \<le> n \<Longrightarrow> P (n div 10)) \<Longrightarrow> P n"
  shows "P (n :: nat)"
proof (induction n rule: less_induct)
  case (less n)
  show ?case by (rule assms) (simp add: less)
qed

lemma str_nat_digits: "list_all is_ascii_digit (str_nat n)"
proof (induction n rule: str_nat_induct)
  case (step n)
  show ?case
  proof (cases "n < 10")
    case True
    then show ?thesis using is_ascii_digit_char_of [of n] by (simp add: str_nat_small)
  next
    case False
    with step show ?thesis
      using is_ascii_digit_char_of [of "n mod 10"] by (simp add: str_nat_step)
  qed
qed

lemma int_of_digits_snoc: "int_of_digits (s @ [c]) = 10 * int_of_digits s + digit_val c"
  by (simp add: int_of_digits_def)

lemma int_of_digits_str_nat [simp]: "int_of_digits (str_nat n) = int n"
proof (induction n rule: str_nat_induct)
  case (step n)
  show ?case
  proof (cases "n < 10")
    case True
    then show ?thesis
      using digit_val_char_of [of n] by (simp add: str_nat_small int_of_digits_def)
  next
    case False
    with step show ?thesis
      using digit_val_char_of [of "n mod 10"] by (simp add: str_nat_step int_of_digits_snoc of_nat_div of_nat_mod)
  qed
qed

lemma str_nat_inject [simp]: "str_nat m = str_nat n \<longleftrightarrow> m = n"
  by (metis int_of_digits_str_nat of_nat_eq_iff)

lemma length_str_nat: "n < 10 ^ k \<Longrightarrow> 0 < k \<Longrightarrow> length (str_nat n) \<le> k"
proof (induction k arbitrary: n)
  case 0
  then show ?case by simp
next
  case (Suc k)
  show ?case
  proof (cases "n < 10")
    case True
    then show ?thesis by (simp add: str_nat_small)
  next
    case False
    with Suc.prems have "0 < k" by (cases k) auto
    moreover have "n div 10 < 10 ^ k" using Suc.prems by (simp add: less_mult_imp_div_less mult.commute)
    ultimately have "length (str_nat (n div 10)) \<le> k" by (rule Suc.IH [rotated])
    with False show ?thesis by (simp add: str_nat_step)
  qed
qed

lemma digit_not_space: "is_ascii_digit c \<Longrightarrow> \<not> is_space c"
  by (auto simp: is_ascii_digit_def is_space_def Let_def)

lemma digit_neq:
  "is_ascii_digit c \<Longrightarrow> c \<noteq> CHR ''-''" "is_ascii_digit c \<Longrightarrow> c \<noteq> CHR ''+''"
  "is_ascii_digit c \<Longrightarrow> c \<noteq> CHR ''_''" "is_ascii_digit c \<Longrightarrow> c \<noteq> CHR ''/''"
  by (auto simp: is_ascii_digit_def Let_def)

lemma strip_no_space: "list_all (\<lambda>c. \<not> is_space c) s \<Longrightarrow> py_strip s = s"
proof -
  assume a: "list_all (\<lambda>c. \<not> is_space c) s"
  have id: "dropWhile is_space t = t" if "list_all (\<lambda>c. \<not> is_space c) t" for t
    using that by (cases t) auto
  from a have "list_all (\<lambda>c. \<not> is_space c) (rev s)" by (simp add: list_all_iff)
  with a show ?thesis by (simp add: py_strip_def py_lstrip_def py_rstrip_def id)
qed

lemma underscores_ok_digits: "list_all is_ascii_digit s \<Longrightarrow> underscores_ok s"
proof (induction s rule: underscores_ok.induct)
  case (3 c d cs)
  then show ?case by (auto dest: digit_neq)
qed auto

text \<open>The bound below which every number has a literal that \<open>int\<close> accepts.\<close>

definition int_str_bound :: nat where
  "int_str_bound = 10 ^ nat int_max_str_digits"

lemma int_literal_digits:
  assumes "list_all is_ascii_digit s" and "s \<noteq> []" and "int (length s) \<le> int_max_str_digits"
  shows "int_literal s = Some (int_of_digits s)"
proof -
  from assms(1) have "filter is_ascii_digit s = s" by (simp add: list_all_iff filter_id_conv)
  with assms show ?thesis by (simp add: int_literal_def Let_def underscores_ok_digits)
qed

lemma py_int_digits:
  assumes d: "list_all is_ascii_digit s" and ne: "s \<noteq> []" and len: "int (length s) \<le> int_max_str_digits"
  shows "py_int s = Some (int_of_digits s)"
proof -
  from d have "list_all (\<lambda>c. \<not> is_space c) s" by (auto simp: list_all_iff digit_not_space)
  then have strip: "py_strip s = s" by (rule strip_no_space)
  obtain c cs where s: "s = c # cs" using ne by (cases s) auto
  with d have "c \<noteq> CHR ''-''" "c \<noteq> CHR ''+''" by (auto dest: digit_neq)
  with strip s int_literal_digits [OF d ne len] show ?thesis by (simp add: py_int_def)
qed

lemma py_int_str_nat [simp]: "n < int_str_bound \<Longrightarrow> py_int (str_nat n) = Some (int n)"
proof -
  assume "n < int_str_bound"
  then have "length (str_nat n) \<le> nat int_max_str_digits"
    unfolding int_str_bound_def by (rule length_str_nat) (simp add: int_max_str_digits_def)
  then have "int (length (str_nat n)) \<le> int_max_str_digits"
    by (simp add: int_max_str_digits_def)
  with str_nat_digits show ?thesis by (simp add: py_int_digits)
qed

lemma int_str_bound_ge: "int k \<le> int_max_str_digits \<Longrightarrow> 10 ^ k \<le> int_str_bound"
  unfolding int_str_bound_def by (rule power_increasing) (simp_all add: int_max_str_digits_def)

lemma small_lt_int_str_bound: "n < 1000000 \<Longrightarrow> n < int_str_bound"
  using int_str_bound_ge [of 6] by (simp add: int_max_str_digits_def)

text \<open>Splitting and joining at one character are inverse to each other.\<close>

lemma split_ch_not_Nil [simp]: "split_ch c s \<noteq> []"
  by (induction s) (auto split: list.splits)

lemma py_join_Cons: "ps \<noteq> [] \<Longrightarrow> py_join sep (p # ps) = p @ sep @ py_join sep ps"
  by (cases ps) simp_all

lemma join_split [simp]: "py_join [c] (split_ch c s) = s"
proof (induction s)
  case Nil
  then show ?case by simp
next
  case (Cons x xs)
  obtain p ps where sp: "split_ch c xs = p # ps" by (cases "split_ch c xs") auto
  with Cons.IH show ?case by (cases ps) auto
qed

lemma split_ch_append: "c \<notin> set p \<Longrightarrow> split_ch c (p @ c # s) = p # split_ch c s"
  by (induction p) auto

lemma split_ch_none: "c \<notin> set p \<Longrightarrow> split_ch c p = [p]"
  by (induction p) auto

lemma split_ch_parts: "p \<in> set (split_ch c s) \<Longrightarrow> c \<notin> set p"
proof (induction s arbitrary: p)
  case Nil
  then show ?case by simp
next
  case (Cons x xs)
  then show ?case by (auto split: if_splits list.splits)
qed

lemma split_join:
  "ps \<noteq> [] \<Longrightarrow> \<forall>p \<in> set ps. c \<notin> set p \<Longrightarrow> split_ch c (py_join [c] ps) = ps"
proof (induction ps)
  case Nil
  then show ?case by simp
next
  case (Cons p ps)
  then show ?case
    by (cases ps) (simp_all add: split_ch_none split_ch_append)
qed

section \<open>JSON and TOML values\<close>

text \<open>
  A Python float, with the values that JSON and TOML can carry. Finite floats are their rational
  value; rounding of a literal is the reader's.
\<close>

datatype pyfloat = Fin rat | PosInf | NegInf | NaN

datatype pyval =
  PNone | PBool bool | PInt int | PFloat pyfloat | PStr string | PList "pyval list"
| PDict "(string \<times> pyval) list"

definition is_str :: "pyval \<Rightarrow> bool" where
  "is_str v = (case v of PStr _ \<Rightarrow> True | _ \<Rightarrow> False)"

definition is_bool :: "pyval \<Rightarrow> bool" where
  "is_bool v = (case v of PBool _ \<Rightarrow> True | _ \<Rightarrow> False)"

definition is_dict :: "pyval \<Rightarrow> bool" where
  "is_dict v = (case v of PDict _ \<Rightarrow> True | _ \<Rightarrow> False)"

text \<open>\<open>bool(v)\<close>.\<close>

definition truthy :: "pyval \<Rightarrow> bool" where
  "truthy v =
     (case v of PNone \<Rightarrow> False | PBool b \<Rightarrow> b | PInt i \<Rightarrow> i \<noteq> 0 | PFloat f \<Rightarrow> f \<noteq> Fin 0
      | PStr s \<Rightarrow> s \<noteq> [] | PList xs \<Rightarrow> xs \<noteq> [] | PDict d \<Rightarrow> d \<noteq> [])"

text \<open>\<open>v.get(key)\<close> for a JSON object.\<close>

definition pget :: "(string \<times> pyval) list \<Rightarrow> string \<Rightarrow> pyval" where
  "pget d k = dict_get_or d k PNone"

definition str_of :: "pyval \<Rightarrow> string" where
  "str_of v = (case v of PStr s \<Rightarrow> s | _ \<Rightarrow> [])"

text \<open>
  \<open>sorted(set(body) - allowed)\<close>.
\<close>

definition unknown_keys :: "string list \<Rightarrow> (string \<times> 'v) list \<Rightarrow> string list" where
  "unknown_keys allowed d = sort (remdups (filter (\<lambda>k. k \<notin> set allowed) (dict_keys d)))"

lemma unknown_keys_empty: "unknown_keys allowed d = [] \<longleftrightarrow> set (dict_keys d) \<subseteq> set allowed"
proof -
  have "unknown_keys allowed d = [] \<longleftrightarrow> set (unknown_keys allowed d) = {}" by simp
  also have "set (unknown_keys allowed d) = {k \<in> set (dict_keys d). k \<notin> set allowed}"
    by (simp add: unknown_keys_def)
  finally show ?thesis by auto
qed

section \<open>Sorting\<close>

text \<open>\<open>rows.sort(key=key, reverse=desc)\<close>: stable in both directions.\<close>

definition py_sort :: "('a \<Rightarrow> 'k :: linorder) \<Rightarrow> bool \<Rightarrow> 'a list \<Rightarrow> 'a list" where
  "py_sort key desc xs = (if desc then rev (sort_key key (rev xs)) else sort_key key xs)"

lemma set_py_sort [simp]: "set (py_sort key desc xs) = set xs"
  by (simp add: py_sort_def)

lemma length_py_sort [simp]: "length (py_sort key desc xs) = length xs"
  by (simp add: py_sort_def)

lemma mset_py_sort [simp]: "mset (py_sort key desc xs) = mset xs"
  by (simp add: py_sort_def)

lemma distinct_py_sort [simp]: "distinct (py_sort key desc xs) = distinct xs"
  by (simp add: py_sort_def)

text \<open>Rows with the same key keep their order, whichever way the sort goes.\<close>

lemma py_sort_stable: "filter (\<lambda>x. key x = k) (py_sort key desc xs) = filter (\<lambda>x. key x = k) xs"
proof (cases desc)
  case True
  have "filter (\<lambda>x. key x = k) (py_sort key desc xs)
      = rev (filter (\<lambda>x. key x = k) (sort_key key (rev xs)))"
    using True by (simp add: py_sort_def rev_filter)
  also have "\<dots> = rev (filter (\<lambda>x. key x = k) (rev xs))"
    by (simp add: sort_key_stable)
  finally show ?thesis by (simp add: rev_filter)
next
  case False
  then show ?thesis by (simp add: py_sort_def sort_key_stable)
qed

lemma py_sort_asc: "sorted (map key (py_sort key False xs))"
  by (simp add: py_sort_def)

lemma py_sort_desc: "sorted (rev (map key (py_sort key True xs)))"
  by (simp add: py_sort_def rev_map)

end
