(* ===== verification/Headers.thy ===== *)
theory Headers
  imports Py_Prelude
begin

text \<open>
  \<^verbatim>\<open>src/jetty/headers.py\<close>: the ordered, duplicate-preserving, case-insensitive collection of
  forwarded request headers. \<open>Headers\<close> is the list \<open>_pairs\<close>; \<open>sole\<close> is the lookup that refuses to
  pick a winner among duplicates.
\<close>

type_synonym headers = "(string \<times> string) list"

datatype duplicate_header = DuplicateHeaderError string nat

definition Headers :: "(string \<times> string) list \<Rightarrow> headers" where
  "Headers pairs = map (\<lambda>(n, v). (py_lower n, v)) pairs"

definition headers_len :: "headers \<Rightarrow> nat" where
  "headers_len h = length h"

definition header_names :: "headers \<Rightarrow> string set" where
  "header_names h = fst ` set h"

definition get_all :: "headers \<Rightarrow> string \<Rightarrow> string list" where
  "get_all h name = (let wanted = py_lower name in map snd (filter (\<lambda>(n, v). n = wanted) h))"

definition header_count :: "headers \<Rightarrow> string \<Rightarrow> nat" where
  "header_count h name = length (get_all h name)"

definition sole :: "headers \<Rightarrow> string \<Rightarrow> duplicate_header + string option" where
  "sole h name =
     (case get_all h name of
        [] \<Rightarrow> Inr None
      | [v] \<Rightarrow> Inr (Some v)
      | vs \<Rightarrow> Inl (DuplicateHeaderError (py_lower name) (length vs)))"

definition to_wire :: "headers \<Rightarrow> pyval" where
  "to_wire h = PList (map (\<lambda>(n, v). PList [PStr n, PStr v]) h)"

text \<open>One entry of the wire form; the messages name no header value.\<close>

definition from_wire_entry :: "pyval \<Rightarrow> string + string \<times> string" where
  "from_wire_entry entry =
     (case entry of
        PList [PStr name, PStr value] \<Rightarrow>
          (if name = [] then Inl ''header name must not be empty''
           else Inr (py_lower name, value))
      | _ \<Rightarrow> Inl ''each header entry must be a [name, value] string pair'')"

definition from_wire :: "pyval \<Rightarrow> string + headers" where
  "from_wire raw =
     (case raw of
        PList entries \<Rightarrow> rbind (rmap from_wire_entry entries) (\<lambda>pairs. Inr (Headers pairs))
      | _ \<Rightarrow> Inl ''headers must be an array of [name, value] pairs'')"

definition headers_repr :: "headers \<Rightarrow> string" where
  "headers_repr h =
     ''Headers('' @ str_nat (length h) @ '' headers: ['' @
     py_join '', '' (map py_repr (sort (remdups (map fst h)))) @ ''])''"

lemma lower_ch_idem [simp]: "lower_ch (lower_ch c) = lower_ch c"
proof -
  let ?n = "of_char c :: nat"
  show ?thesis
  proof (cases "(65 \<le> ?n \<and> ?n \<le> 90) \<or> (192 \<le> ?n \<and> ?n \<le> 222 \<and> ?n \<noteq> 215)")
    case True
    then have "lower_ch c = char_of (?n + 32)" and "?n + 32 < 256" and
      "\<not> (65 \<le> ?n + 32 \<and> ?n + 32 \<le> 90)" "\<not> (192 \<le> ?n + 32 \<and> ?n + 32 \<le> 222)"
      by (auto simp: lower_ch_def Let_def)
    then show ?thesis by (auto simp: lower_ch_def [of "char_of (?n + 32)"] Let_def)
  next
    case False
    then have "lower_ch c = c" unfolding lower_ch_def Let_def by (rule if_not_P)
    then show ?thesis by simp
  qed
qed

lemma py_lower_idem [simp]: "py_lower (py_lower s) = py_lower s"
  by (simp add: py_lower_def)

lemma py_lower_Nil_iff [simp]: "py_lower s = [] \<longleftrightarrow> s = []"
  by (simp add: py_lower_def)

text \<open>The names a collection holds are lower case: what every constructor of the class guarantees.\<close>

definition headers_ok :: "headers \<Rightarrow> bool" where
  "headers_ok h \<longleftrightarrow> list_all (\<lambda>(n, v). py_lower n = n \<and> n \<noteq> []) h"

lemma Headers_id: "headers_ok h \<Longrightarrow> Headers h = h"
  by (induction h) (auto simp: Headers_def headers_ok_def)

lemma from_wire_ok: "from_wire raw = Inr h \<Longrightarrow> headers_ok h"
proof -
  assume a: "from_wire raw = Inr h"
  then obtain entries pairs where raw: "raw = PList entries"
    and p: "list_all2 (\<lambda>x y. from_wire_entry x = Inr y) entries pairs" and h: "h = Headers pairs"
    by (auto simp: from_wire_def result_simps split: pyval.splits)
  have "list_all (\<lambda>(n, v). py_lower n = n \<and> n \<noteq> []) pairs"
    using p by (induction rule: list_all2_induct)
      (auto simp: from_wire_entry_def split: pyval.splits list.splits if_splits)
  then have "headers_ok pairs" by (simp add: headers_ok_def)
  with h show ?thesis by (simp add: Headers_id)
qed

lemma rmap_to_wire: "headers_ok h \<Longrightarrow>
    rmap from_wire_entry (map (\<lambda>(n, v). PList [PStr n, PStr v]) h) = Inr h"
  by (induction h) (auto simp: headers_ok_def from_wire_entry_def)

text \<open>
  Parsing the wire form and printing it again is the identity on the collections the parser
  yields: order, duplicates and values all survive the trip through the \<open>headers\<close> field.
\<close>

theorem headers_wire_roundtrip:
  assumes "from_wire raw = Inr h"
  shows "from_wire (to_wire h) = Inr h \<and> headers_len h = length (case raw of PList es \<Rightarrow> es | _ \<Rightarrow> [])"
proof
  from assms have ok: "headers_ok h" by (rule from_wire_ok)
  then show "from_wire (to_wire h) = Inr h"
    by (simp add: from_wire_def to_wire_def rmap_to_wire Headers_id)
  from assms show "headers_len h = length (case raw of PList es \<Rightarrow> es | _ \<Rightarrow> [])"
    by (auto simp: from_wire_def headers_len_def Headers_def result_simps
        dest: list_all2_lengthD split: pyval.splits)
qed

definition wire_sample :: pyval where
  "wire_sample = PList [PList [PStr ''X-User'', PStr ''ann''], PList [PStr ''x-user'', PStr ''bob'']]"

lemma wire_sample_eval [simp]:
  "from_wire wire_sample = Inr [(''x-user'', ''ann''), (''x-user'', ''bob'')]"
  by code_simp

theorem headers_wire_roundtrip_witness:
  "from_wire (to_wire [(''x-user'', ''ann''), (''x-user'', ''bob'')])
     = Inr [(''x-user'', ''ann''), (''x-user'', ''bob'')]"
  using headers_wire_roundtrip [OF wire_sample_eval] by simp

text \<open>
  \<open>sole\<close> never picks a winner. It returns a value exactly when one header of that name (in any
  letter case) is present, \<open>None\<close> exactly when there is none, and raises with the count otherwise.
\<close>

theorem sole_never_picks:
  "sole h name =
     (if header_count h name = 0 then Inr None
      else if header_count h name = 1 then Inr (Some (hd (get_all h name)))
      else Inl (DuplicateHeaderError (py_lower name) (header_count h name)))"
  by (auto simp: sole_def header_count_def split: list.splits)

text \<open>The representation used in logs depends on the names only, never on a value.\<close>

lemma headers_repr_no_values:
  "map fst h = map fst h' \<Longrightarrow> headers_repr h = headers_repr h'"
  unfolding headers_repr_def by (metis length_map)

end
