(* ===== verification/Listener_Config.thy ===== *)
theory Listener_Config
  imports Py_Prelude
begin

text \<open>
  \<^verbatim>\<open>src/jetty/config.py\<close>: where the control listener binds, and the checks made on it at boot
  (\<open>ListenerConfig._check\<close>). The pydantic base class is not under \<open>src/\<close>: the model starts at the
  validator, with the fields already typed.
\<close>

unbundle bit_operations_syntax

record listener_config =
  lc_uds :: "string option"
  lc_tcp :: "string option"
  lc_uds_mode :: int
  lc_allow_remote :: bool

text \<open>The defaults of the class: \<open>0o660\<close> is 432.\<close>

definition default_uds_mode :: int where
  "default_uds_mode = 432"

definition default_listener :: listener_config where
  "default_listener =
     \<lparr>lc_uds = Some ''/tmp/jetty/jetty.sock'', lc_tcp = None, lc_uds_mode = default_uds_mode,
      lc_allow_remote = False\<rparr>"

text \<open>\<open>bool(value)\<close> of an optional string.\<close>

definition set_str :: "string option \<Rightarrow> bool" where
  "set_str v = (case v of None \<Rightarrow> False | Some s \<Rightarrow> s \<noteq> [])"

text \<open>\<open>tcp.rsplit(":", 1)[0].strip("[]")\<close>.\<close>

definition strip_brackets :: "string \<Rightarrow> string" where
  "strip_brackets s =
     (let br = (\<lambda>c. c = CHR ''['' \<or> c = CHR '']'')
      in rev (dropWhile br (rev (dropWhile br s))))"

definition tcp_host :: "string \<Rightarrow> string" where
  "tcp_host tcp = strip_brackets (rsplit1_head '':'' tcp)"

definition LOOPBACK_HOSTS :: "string list" where
  "LOOPBACK_HOSTS = [''127.0.0.1'', ''::1'', ''localhost'']"

datatype config_error =
  NotExactlyOne | NonLoopback string | ModeMeaningless | ModeGrantsOthers int

definition listener_check :: "listener_config \<Rightarrow> config_error + listener_config" where
  "listener_check cfg =
     (if set_str (lc_uds cfg) = set_str (lc_tcp cfg) then Inl NotExactlyOne
      else rbind
        (case lc_tcp cfg of
           None \<Rightarrow> Inr ()
         | Some tcp \<Rightarrow>
             (if tcp = [] then Inr ()
              else let host = tcp_host tcp; loopback = (host \<in> set LOOPBACK_HOSTS)
                in if \<not> loopback \<and> \<not> lc_allow_remote cfg then Inl (NonLoopback host)
                   else if lc_uds_mode cfg \<noteq> default_uds_mode then Inl ModeMeaningless
                   else Inr ()))
        (\<lambda>_. if set_str (lc_uds cfg) \<and> lc_uds_mode cfg AND 7 \<noteq> 0
              then Inl (ModeGrantsOthers (lc_uds_mode cfg))
              else Inr cfg))"

text \<open>
  A listener configuration that boots has exactly one of the two addresses; a TCP address is a
  loopback host or remote binding was confirmed explicitly; a socket mode grants nothing to other
  users. Conversely a configuration with these properties (and no stray mode beside TCP) boots
  unchanged.
\<close>

theorem listener_check_sound_complete:
  "listener_check cfg = Inr cfg' \<longleftrightarrow>
     cfg' = cfg \<and>
     ((set_str (lc_uds cfg) \<and> \<not> set_str (lc_tcp cfg) \<and> lc_uds_mode cfg AND 7 = 0) \<or>
      (\<not> set_str (lc_uds cfg) \<and> set_str (lc_tcp cfg) \<and> lc_uds_mode cfg = default_uds_mode \<and>
       (tcp_host (the (lc_tcp cfg)) \<in> set LOOPBACK_HOSTS \<or> lc_allow_remote cfg)))"
  by (auto simp: listener_check_def set_str_def Let_def result_simps split: option.splits if_splits)

lemma default_listener_boots: "listener_check default_listener = Inr default_listener"
  by (simp add: listener_check_sound_complete default_listener_def set_str_def default_uds_mode_def)

end
