(* ===== verification/Errors.thy ===== *)
theory Errors
  imports Py_Prelude
begin

text \<open>
  \<^verbatim>\<open>src/jetty/errors.py\<close>: the closed set of error codes, the table that pairs a code with its HTTP
  status and retryability, the envelope, and the two exception handlers of the control listener.
  The locale \<open>error_table\<close> is the contract every module with codes of its own repeats: a code
  fixes status and retryability, and the envelope shows exactly these.
\<close>

record http_response =
  resp_status :: int
  resp_json :: pyval

datatype error_code =
  UNAUTHENTICATED | INVALID_REQUEST | NOT_FOUND | MODULE_DISABLED | UNSUPPORTED_MEDIA_TYPE
| RATE_LIMITED | INTERNAL_ERROR | UPSTREAM_UNAVAILABLE | UPSTREAM_ERROR

primrec error_code_str :: "error_code \<Rightarrow> string" where
  "error_code_str UNAUTHENTICATED = ''unauthenticated''"
| "error_code_str INVALID_REQUEST = ''invalid_request''"
| "error_code_str NOT_FOUND = ''not_found''"
| "error_code_str MODULE_DISABLED = ''module_disabled''"
| "error_code_str UNSUPPORTED_MEDIA_TYPE = ''unsupported_media_type''"
| "error_code_str RATE_LIMITED = ''rate_limited''"
| "error_code_str INTERNAL_ERROR = ''internal_error''"
| "error_code_str UPSTREAM_UNAVAILABLE = ''upstream_unavailable''"
| "error_code_str UPSTREAM_ERROR = ''upstream_error''"

primrec SEMANTICS :: "error_code \<Rightarrow> int \<times> bool" where
  "SEMANTICS UNAUTHENTICATED = (401, False)"
| "SEMANTICS INVALID_REQUEST = (400, False)"
| "SEMANTICS NOT_FOUND = (404, False)"
| "SEMANTICS MODULE_DISABLED = (404, False)"
| "SEMANTICS UNSUPPORTED_MEDIA_TYPE = (415, False)"
| "SEMANTICS RATE_LIMITED = (429, True)"
| "SEMANTICS INTERNAL_ERROR = (500, True)"
| "SEMANTICS UPSTREAM_UNAVAILABLE = (503, True)"
| "SEMANTICS UPSTREAM_ERROR = (502, True)"

record jetty_error =
  err_code :: error_code
  err_message :: string
  err_status :: int
  err_retryable :: bool

definition JettyError :: "error_code \<Rightarrow> string \<Rightarrow> jetty_error" where
  "JettyError code message =
     \<lparr>err_code = code, err_message = message,
      err_status = fst (SEMANTICS code), err_retryable = snd (SEMANTICS code)\<rparr>"

definition error_body :: "jetty_error \<Rightarrow> pyval" where
  "error_body e =
     PDict [(''error'',
       PDict [(''code'', PStr (error_code_str (err_code e))),
              (''message'', PStr (err_message e)),
              (''retryable'', PBool (err_retryable e))])]"

definition jetty_error_handler :: "jetty_error \<Rightarrow> http_response" where
  "jetty_error_handler e = \<lparr>resp_status = err_status e, resp_json = error_body e\<rparr>"

definition unhandled_error_handler :: "py_exn \<Rightarrow> http_response" where
  "unhandled_error_handler exc =
     (let err = JettyError INTERNAL_ERROR ''internal error; see sidecar logs''
      in \<lparr>resp_status = err_status err, resp_json = error_body err\<rparr>)"

text \<open>Reading an envelope back, as a client does.\<close>

definition envelope_code :: "pyval \<Rightarrow> string option" where
  "envelope_code v =
     (case v of
        PDict [(k, PDict ((c, PStr code) # _))] \<Rightarrow>
          (if k = ''error'' \<and> c = ''code'' then Some code else None)
      | _ \<Rightarrow> None)"

definition envelope_retryable :: "pyval \<Rightarrow> bool option" where
  "envelope_retryable v =
     (case v of
        PDict [(k, PDict d)] \<Rightarrow>
          (case map_of d ''retryable'' of Some (PBool b) \<Rightarrow> Some b | _ \<Rightarrow> None)
      | _ \<Rightarrow> None)"

text \<open>
  The contract of a module's error table: the code's text is injective on the codes, every status
  is an error status, and a response rendered for a code shows the code and its row of the table.
\<close>

locale error_table =
  fixes code_str :: "'c \<Rightarrow> string"
    and semantics :: "'c \<Rightarrow> int \<times> bool"
    and render :: "'c \<Rightarrow> string \<Rightarrow> http_response"
  assumes code_inj: "code_str c = code_str c' \<Longrightarrow> c = c'"
    and status_error: "400 \<le> fst (semantics c) \<and> fst (semantics c) < 600"
    and render_status: "resp_status (render c m) = fst (semantics c)"
    and render_code: "envelope_code (resp_json (render c m)) = Some (code_str c)"
    and render_retryable: "envelope_retryable (resp_json (render c m)) = Some (snd (semantics c))"
begin

text \<open>A response determines the code it was rendered for, and never reads as a success.\<close>

lemma render_determines_code:
  assumes "envelope_code (resp_json (render c m)) = envelope_code (resp_json (render c' m'))"
  shows "c = c'"
  using assms by (simp add: render_code) (rule code_inj)

lemma render_not_2xx: "\<not> (200 \<le> resp_status (render c m) \<and> resp_status (render c m) < 300)"
  using status_error [of c] by (simp add: render_status)

lemma same_code_same_semantics:
  assumes "envelope_code (resp_json (render c m)) = envelope_code (resp_json (render c' m'))"
  shows "resp_status (render c m) = resp_status (render c' m') \<and>
    envelope_retryable (resp_json (render c m)) = envelope_retryable (resp_json (render c' m'))"
  using render_determines_code [OF assms] by (simp add: render_status render_retryable)

end

definition render_jetty :: "error_code \<Rightarrow> string \<Rightarrow> http_response" where
  "render_jetty c m = jetty_error_handler (JettyError c m)"

lemma render_jetty_simps [simp]:
  "resp_status (render_jetty c m) = fst (SEMANTICS c)"
  "envelope_code (resp_json (render_jetty c m)) = Some (error_code_str c)"
  "envelope_retryable (resp_json (render_jetty c m)) = Some (snd (SEMANTICS c))"
  by (simp_all add: render_jetty_def jetty_error_handler_def JettyError_def error_body_def
      envelope_code_def envelope_retryable_def)

interpretation core_errors: error_table error_code_str SEMANTICS render_jetty
proof
  fix c c' :: error_code
  show "error_code_str c = error_code_str c' \<Longrightarrow> c = c'"
    by (cases c; cases c') simp_all
  show "400 \<le> fst (SEMANTICS c) \<and> fst (SEMANTICS c) < 600"
    by (cases c) simp_all
qed simp_all

end
