(* ===== verification/Module_Registry.thy ===== *)
theory Module_Registry
  imports Py_Prelude
begin

text \<open>
  \<^verbatim>\<open>src/jetty/modules/base.py\<close> and \<^verbatim>\<open>src/jetty/modules/registry.py\<close>: the module contract and
  the registry of factories. A factory is the constructor of a module class; what it builds is a
  \<open>jmodule\<close> or the exception its settings validation raised. \<open>build_enabled\<close> runs over the log of
  the factories called, so that "a disabled module is never constructed" is a statement about it.
\<close>

record jmodule =
  mod_name :: string
  mod_api_version :: string
  mod_foreign :: bool \<comment> \<open>the class overrides \<open>router_prefix\<close> with \<open>mount\<close>\<close>

definition mount :: "jmodule \<Rightarrow> string" where
  "mount m = CHR ''/'' # mod_name m"

definition router_prefix :: "jmodule \<Rightarrow> string" where
  "router_prefix m = (if mod_foreign m then mount m else mount m @ ''/'' @ mod_api_version m)"

definition module_meta :: "jmodule \<Rightarrow> pyval" where
  "module_meta m =
     PDict [(''name'', PStr (mod_name m)), (''api_version'', PStr (mod_api_version m)),
            (''mount'', PStr (mount m))]"

type_synonym settings = "(string \<times> pyval) list"
type_synonym factory = "settings \<Rightarrow> py_exn + jmodule"
type_synonym registry = "(string, factory) dict"

datatype build_error =
  AlreadyRegistered string
| UnknownModuleError "string list" "string list" \<comment> \<open>the unknown names, the known ones\<close>
| FactoryRaised py_exn
| NameMismatch string string

definition register :: "string \<Rightarrow> factory \<Rightarrow> registry \<Rightarrow> build_error + registry" where
  "register name factory reg =
     (if dict_in name reg then Inl (AlreadyRegistered name) else Inr (dict_set name factory reg))"

definition known_modules :: "registry \<Rightarrow> string list" where
  "known_modules reg = sort (dict_keys reg)"

definition enabled :: "settings \<Rightarrow> bool" where
  "enabled st = truthy (dict_get_or st ''enabled'' (PBool False))"

fun build_loop :: "registry \<Rightarrow> (string, settings) dict \<Rightarrow> string list \<Rightarrow>
    (string list, build_error, jmodule list) opn" where
  "build_loop reg tbl [] = sret []"
| "build_loop reg tbl (name # names) =
     (let st = dict_get_or tbl name []
      in if \<not> enabled st then build_loop reg tbl names
         else sbind (smod (\<lambda>lg. lg @ [name])) (\<lambda>_.
           case dict_get reg name of
             None \<Rightarrow> sraise (FactoryRaised KeyError)
           | Some factory \<Rightarrow>
               (case factory st of
                  Inl exc \<Rightarrow> sraise (FactoryRaised exc)
                | Inr m \<Rightarrow>
                    (if mod_name m \<noteq> name then sraise (NameMismatch name (mod_name m))
                     else sbind (build_loop reg tbl names) (\<lambda>built. sret (m # built))))))"

definition build_enabled :: "registry \<Rightarrow> (string, settings) dict \<Rightarrow>
    (string list, build_error, jmodule list) opn" where
  "build_enabled reg tbl =
     (let unknown = sort (remdups (filter (\<lambda>k. \<not> dict_in k reg) (dict_keys tbl)))
      in if unknown \<noteq> [] then sraise (UnknownModuleError unknown (known_modules reg))
         else build_loop reg tbl (sort (dict_keys tbl)))"

definition BUILTIN_NAMES :: "string list" where
  "BUILTIN_NAMES =
     [''reference'', ''chat'', ''hg'', ''mail'', ''issuetracker'', ''sql'', ''filesystem'',
      ''llmproxy'', ''functions'']"

fun register_all :: "(string \<Rightarrow> factory) \<Rightarrow> string list \<Rightarrow> registry \<Rightarrow> build_error + registry" where
  "register_all ctor [] reg = Inr reg"
| "register_all ctor (n # ns) reg =
     rbind (register n (ctor n) reg) (register_all ctor ns)"

definition register_builtins :: "(string \<Rightarrow> factory) \<Rightarrow> build_error + registry" where
  "register_builtins ctor = register_all ctor BUILTIN_NAMES []"

text \<open>The names the configuration turned on, in the order the modules are built.\<close>

definition enabled_names :: "(string, settings) dict \<Rightarrow> string list" where
  "enabled_names tbl = filter (\<lambda>n. enabled (dict_get_or tbl n [])) (sort (dict_keys tbl))"

lemma build_loop_Inr:
  "build_loop reg tbl names lg = (Inr ms, lg') \<Longrightarrow>
     map mod_name ms = filter (\<lambda>n. enabled (dict_get_or tbl n [])) names \<and> lg' = lg @ map mod_name ms"
proof (induction names arbitrary: lg ms)
  case Nil
  then show ?case by simp
next
  case (Cons n names)
  show ?case
  proof (cases "enabled (dict_get_or tbl n [])")
    case False
    with Cons.prems have "build_loop reg tbl names lg = (Inr ms, lg')" by (simp add: Let_def)
    from Cons.IH [OF this] False show ?thesis by simp
  next
    case True
    with Cons.prems obtain f m ms' where
      m: "dict_get reg n = Some f" "f (dict_get_or tbl n []) = Inr m" "mod_name m = n"
      and rest: "build_loop reg tbl names (lg @ [n]) = (Inr ms', lg')" and ms: "ms = m # ms'"
      by (auto simp: Let_def result_simps split: option.splits sum.splits if_splits)
    from Cons.IH [OF rest] True m ms show ?thesis by simp
  qed
qed

lemma build_loop_log:
  "build_loop reg tbl names lg = (r, lg') \<Longrightarrow>
     \<exists>k. lg' = lg @ take k (filter (\<lambda>n. enabled (dict_get_or tbl n [])) names)"
proof (induction names arbitrary: lg r lg')
  case Nil
  then show ?case by simp
next
  case (Cons n names)
  let ?en = "\<lambda>n. enabled (dict_get_or tbl n [])"
  show ?case
  proof (cases "?en n")
    case False
    with Cons show ?thesis by (simp add: Let_def)
  next
    case True
    show ?thesis
    proof (cases "\<exists>r'. build_loop reg tbl names (lg @ [n]) = (r', lg')")
      case True': True
      with Cons.IH obtain k where "lg' = (lg @ [n]) @ take k (filter ?en names)" by blast
      with True show ?thesis by (intro exI [of _ "Suc k"]) simp
    next
      case False
      with True Cons.prems have "lg' = lg @ [n]"
        by (auto simp: Let_def sbind_def split: option.splits sum.splits if_splits prod.splits)
      with True show ?thesis by (intro exI [of _ 1]) simp
    qed
  qed
qed

lemma build_enabled_Inr:
  assumes "build_enabled reg tbl [] = (Inr ms, lg)"
  shows "\<forall>n \<in> set (dict_keys tbl). dict_in n reg"
    and "build_loop reg tbl (sort (dict_keys tbl)) [] = (Inr ms, lg)"
proof -
  from assms have "sort (remdups (filter (\<lambda>k. \<not> dict_in k reg) (dict_keys tbl))) = []"
    by (auto simp: build_enabled_def Let_def split: if_splits)
  then have "set (sort (remdups (filter (\<lambda>k. \<not> dict_in k reg) (dict_keys tbl)))) = {}" by simp
  then show known: "\<forall>n \<in> set (dict_keys tbl). dict_in n reg" by auto
  with assms show "build_loop reg tbl (sort (dict_keys tbl)) [] = (Inr ms, lg)"
    by (auto simp: build_enabled_def Let_def split: if_splits)
qed

text \<open>
  Whatever the configuration and however the build ends, only factories of enabled modules run,
  each at most once and in sorted order; a name the registry does not know stops the boot before
  any factory runs.
\<close>

theorem build_enabled_constructs_only_enabled:
  assumes "build_enabled reg tbl [] = (r, lg)"
  shows "(\<exists>k. lg = take k (enabled_names tbl)) \<and>
    ((\<exists>n \<in> set (dict_keys tbl). \<not> dict_in n reg) \<longrightarrow>
       lg = [] \<and> (\<exists>unk. r = Inl (UnknownModuleError unk (known_modules reg)) \<and>
         set unk = {n \<in> set (dict_keys tbl). \<not> dict_in n reg}))"
proof (cases "\<exists>n \<in> set (dict_keys tbl). \<not> dict_in n reg")
  case True
  let ?unk = "sort (remdups (filter (\<lambda>k. \<not> dict_in k reg) (dict_keys tbl)))"
  have unk: "set ?unk = {n \<in> set (dict_keys tbl). \<not> dict_in n reg}" by simp
  from True have "set ?unk \<noteq> {}" by (subst unk) blast
  then have "?unk \<noteq> []" by fastforce
  with assms have "r = Inl (UnknownModuleError ?unk (known_modules reg))" "lg = []"
    by (auto simp: build_enabled_def Let_def)
  with unk show ?thesis by (auto intro: exI [of _ 0])
next
  case False
  then have "filter (\<lambda>k. \<not> dict_in k reg) (dict_keys tbl) = []"
    by (simp add: filter_empty_conv)
  with assms have "build_loop reg tbl (sort (dict_keys tbl)) [] = (r, lg)"
    by (simp add: build_enabled_def)
  from build_loop_log [OF this] False show ?thesis by (simp add: enabled_names_def)
qed

definition sample_ctor :: "string \<Rightarrow> factory" where
  "sample_ctor n st = Inr \<lparr>mod_name = n, mod_api_version = ''v1'', mod_foreign = False\<rparr>"

definition sample_tbl :: "(string, settings) dict" where
  "sample_tbl = [(''mail'', [(''enabled'', PBool True)]), (''chat'', []), (''hg'', [(''enabled'', PBool True)])]"

definition sample_registry :: registry where
  "sample_registry = map (\<lambda>n. (n, sample_ctor n)) [''chat'', ''hg'', ''mail'']"

lemma sample_build:
  "build_enabled sample_registry sample_tbl [] =
     (Inr [\<lparr>mod_name = ''hg'', mod_api_version = ''v1'', mod_foreign = False\<rparr>,
           \<lparr>mod_name = ''mail'', mod_api_version = ''v1'', mod_foreign = False\<rparr>], [''hg'', ''mail''])"
  by code_simp

theorem build_enabled_constructs_only_enabled_witness:
  "\<exists>k. [''hg'', ''mail''] = take k (enabled_names sample_tbl)"
  using build_enabled_constructs_only_enabled [OF sample_build] by blast

text \<open>
  A successful build yields exactly the enabled modules, once each, under the names the
  configuration gives them: so mount segments are pairwise distinct and agree with the config keys.
\<close>

theorem build_enabled_exact:
  assumes "build_enabled reg tbl [] = (Inr ms, lg)" and "distinct (dict_keys tbl)"
  shows "map mod_name ms = enabled_names tbl \<and> distinct (map mount ms) \<and>
    set (map mod_name ms) \<subseteq> set (known_modules reg)"
proof -
  note known = build_enabled_Inr(1) [OF assms(1)] and loop = build_enabled_Inr(2) [OF assms(1)]
  from build_loop_Inr [OF loop] have names: "map mod_name ms = enabled_names tbl"
    by (simp add: enabled_names_def)
  have "distinct (enabled_names tbl)" using assms(2) by (simp add: enabled_names_def)
  with names have "distinct (map mod_name ms)" by simp
  then have "distinct (map mount ms)"
    by (auto simp: distinct_map mount_def inj_on_def)
  moreover have "set (map mod_name ms) \<subseteq> set (known_modules reg)"
    using names known by (auto simp: enabled_names_def known_modules_def dict_in_iff)
  ultimately show ?thesis using names by blast
qed

theorem build_enabled_exact_witness: "enabled_names sample_tbl = [''hg'', ''mail'']"
  using build_enabled_exact [OF sample_build] by (simp add: sample_tbl_def)

text \<open>The shipped registry: nine distinct names, and \<open>auth\<close> is not one of them.\<close>

lemma register_all_keys:
  "register_all ctor ns reg = Inr reg' \<Longrightarrow> dict_keys reg' = dict_keys reg @ ns"
proof (induction ns arbitrary: reg)
  case Nil
  then show ?case by simp
next
  case (Cons n ns)
  then obtain reg1 where r: "register n (ctor n) reg = Inr reg1" "register_all ctor ns reg1 = Inr reg'"
    by (auto simp: result_simps)
  from r(1) have "dict_keys reg1 = dict_keys reg @ [n]"
    by (auto simp: register_def dict_in_iff dict_set_fresh image_iff split: if_splits)
  with Cons.IH [OF r(2)] show ?case by simp
qed

lemma register_all_ok:
  "distinct ns \<Longrightarrow> set ns \<inter> set (dict_keys reg) = {} \<Longrightarrow> \<exists>reg'. register_all ctor ns reg = Inr reg'"
proof (induction ns arbitrary: reg)
  case Nil
  then show ?case by simp
next
  case (Cons n ns)
  then have "register n (ctor n) reg = Inr (dict_set n (ctor n) reg)"
    by (auto simp: register_def dict_in_iff)
  moreover have "\<exists>reg'. register_all ctor ns (dict_set n (ctor n) reg) = Inr reg'"
    using Cons.prems by (intro Cons.IH) (auto simp: dom_update)
  ultimately show ?case by simp
qed

lemma register_builtins_ok:
  "\<exists>reg. register_builtins ctor = Inr reg \<and> dict_keys reg = BUILTIN_NAMES \<and>
     \<not> dict_in ''auth'' reg"
proof -
  have "distinct BUILTIN_NAMES" by (simp add: BUILTIN_NAMES_def)
  then obtain reg where r: "register_builtins ctor = Inr reg"
    using register_all_ok [of BUILTIN_NAMES "[]"] by (auto simp: register_builtins_def)
  then have "dict_keys reg = BUILTIN_NAMES"
    by (auto simp: register_builtins_def dest: register_all_keys)
  then show ?thesis using r by (auto simp: dict_in_iff BUILTIN_NAMES_def)
qed

end
