(* ===== verification/Server.thy ===== *)
theory Server
  imports Errors Module_Registry
begin

text \<open>
  \<^verbatim>\<open>src/jetty/server.py\<close>: the app factory. The core endpoints, the translation of framework
  exceptions into the error envelope, and the lifespan that starts the modules and shuts down the
  ones that started. FastAPI is not under \<open>src/\<close>: the model takes what it hands to the handlers
  (a status code, a path) and gives the response they return. What a module's \<open>startup\<close> and the
  serving phase do is a parameter: whether they raise.
\<close>

definition SPEC_VERSION :: string where "SPEC_VERSION = ''1.0.0-draft''"
definition IMPLEMENTATION_NAME :: string where "IMPLEMENTATION_NAME = ''jetty-oss''"
definition jetty_version :: string where "jetty_version = ''0.1.0''"

record app_state =
  app_modules :: "jmodule list"
  app_started_at :: rat

text \<open>\<open>int(x)\<close> of a float: truncation towards zero.\<close>

definition py_trunc :: "rat \<Rightarrow> int" where
  "py_trunc x = (if x < 0 then \<lceil>x\<rceil> else \<lfloor>x\<rfloor>)"

definition healthz :: "app_state \<Rightarrow> rat \<Rightarrow> pyval" where
  "healthz st now =
     PDict [(''ok'', PBool True), (''spec_version'', PStr SPEC_VERSION),
            (''uptime_s'', PInt (py_trunc (now - app_started_at st)))]"

definition meta :: "app_state \<Rightarrow> pyval" where
  "meta st =
     PDict [(''spec_version'', PStr SPEC_VERSION),
            (''implementation'',
              PDict [(''name'', PStr IMPLEMENTATION_NAME), (''version'', PStr jetty_version)]),
            (''modules'', PList (map module_meta (app_modules st)))]"

text \<open>\<open>request.url.path.lstrip("/").split("/", 1)[0]\<close>.\<close>

definition first_segment :: "string \<Rightarrow> string" where
  "first_segment path =
     fst (partition_ch (CHR ''/'') (dropWhile (\<lambda>c. c = CHR ''/'') path))"

definition http_exc :: "registry \<Rightarrow> app_state \<Rightarrow> int \<Rightarrow> string \<Rightarrow> jetty_error" where
  "http_exc reg st status_code path =
     (if status_code = 404 then
        (let segment = first_segment path; enabled = map mod_name (app_modules st)
         in if segment \<in> set (known_modules reg) - set enabled
            then JettyError MODULE_DISABLED (''module '' @ py_repr segment @ '' is not enabled'')
            else JettyError NOT_FOUND ''no such route'')
      else if status_code = 405 then JettyError NOT_FOUND ''no such route for this method''
      else if status_code = 415 then JettyError UNSUPPORTED_MEDIA_TYPE ''body must be application/json''
      else JettyError INTERNAL_ERROR ''unexpected framework error'')"

definition http_exc_response :: "registry \<Rightarrow> app_state \<Rightarrow> int \<Rightarrow> string \<Rightarrow> http_response" where
  "http_exc_response reg st status_code path = jetty_error_handler (http_exc reg st status_code path)"

definition validation_response :: http_response where
  "validation_response = jetty_error_handler (JettyError INVALID_REQUEST ''request body failed validation'')"

text \<open>
  The lifespan context manager as the sequence of calls it makes. \<open>starts\<close> and \<open>serves\<close> say which
  startup, and whether the serving phase, returns normally; an exception of \<open>shutdown\<close> is swallowed,
  so it does not change the sequence.
\<close>

datatype life_event = Startup string | Serve | Shutdown string

fun start_loop :: "(string \<Rightarrow> bool) \<Rightarrow> jmodule list \<Rightarrow> life_event list \<times> jmodule list \<times> bool" where
  "start_loop starts [] = ([], [], True)"
| "start_loop starts (m # ms) =
     (if starts (mod_name m)
      then (let (evs, started, ok) = start_loop starts ms
            in (Startup (mod_name m) # evs, m # started, ok))
      else ([Startup (mod_name m)], [], False))"

definition lifespan :: "(string \<Rightarrow> bool) \<Rightarrow> bool \<Rightarrow> jmodule list \<Rightarrow> life_event list \<times> bool" where
  "lifespan starts serves ms =
     (let (evs, started, ok) = start_loop starts ms
      in (evs @ (if ok then [Serve] else []) @ map (\<lambda>m. Shutdown (mod_name m)) (rev started),
          ok \<and> serves))"

definition create_app :: "registry \<Rightarrow> (string, settings) dict \<Rightarrow> rat \<Rightarrow>
    (string list, build_error, app_state \<times> string list) opn" where
  "create_app reg tbl now =
     sbind (build_enabled reg tbl) (\<lambda>modules.
       sret (\<lparr>app_modules = modules, app_started_at = now\<rparr>, map router_prefix modules))"

text \<open>What a client reads off \<open>/v1/meta\<close>.\<close>

definition meta_names :: "pyval \<Rightarrow> string list" where
  "meta_names v =
     (case v of
        PDict d \<Rightarrow>
          (case map_of d ''modules'' of
             Some (PList ms) \<Rightarrow> map (\<lambda>m. case m of PDict e \<Rightarrow> str_of (pget e ''name'') | _ \<Rightarrow> []) ms
           | _ \<Rightarrow> [])
      | _ \<Rightarrow> [])"

lemma meta_names_meta [simp]: "meta_names (meta st) = map mod_name (app_modules st)"
  by (simp add: meta_names_def meta_def module_meta_def pget_def dict_get_or_def str_of_def comp_def)

text \<open>
  For a path that names a module the build knows, a framework 404 is \<open>module_disabled\<close> exactly
  when the module is absent from \<open>/v1/meta\<close>, so the two answers a client can get about a missing
  module always agree; any other 404 is \<open>not_found\<close>, and both keep status 404.
\<close>

theorem disabled_iff_not_in_meta:
  "err_code (http_exc reg st 404 path) =
     (if first_segment path \<in> set (known_modules reg) \<and> first_segment path \<notin> set (meta_names (meta st))
      then MODULE_DISABLED else NOT_FOUND) \<and>
   resp_status (http_exc_response reg st 404 path) = 404"
  by (simp add: http_exc_def http_exc_response_def JettyError_def jetty_error_handler_def Let_def)

text \<open>Every framework exception leaves as an envelope of the closed set with an error status.\<close>

lemma http_exc_response_render:
  "\<exists>c m. http_exc_response reg st code path = render_jetty c m"
  by (auto simp: http_exc_response_def http_exc_def render_jetty_def Let_def)

lemma http_exc_not_2xx:
  "\<not> (200 \<le> resp_status (http_exc_response reg st code path) \<and>
      resp_status (http_exc_response reg st code path) < 300)"
proof -
  obtain c m where "http_exc_response reg st code path = render_jetty c m"
    using http_exc_response_render by blast
  then show ?thesis using core_errors.render_not_2xx [of c m] by simp
qed

lemma start_loop_prefix:
  assumes "start_loop starts ms = (evs, started, ok)"
  shows "\<exists>rest. ms = started @ rest \<and> (\<forall>m \<in> set started. starts (mod_name m)) \<and>
    (if ok then rest = [] \<and> evs = map (\<lambda>m. Startup (mod_name m)) started
     else \<exists>m ms'. rest = m # ms' \<and> \<not> starts (mod_name m) \<and>
            evs = map (\<lambda>m. Startup (mod_name m)) (started @ [m]))"
  using assms
proof (induction ms arbitrary: evs started ok)
  case Nil
  then show ?case by simp
next
  case (Cons m ms)
  show ?case
  proof (cases "starts (mod_name m)")
    case False
    with Cons.prems show ?thesis by auto
  next
    case True
    with Cons.prems obtain evs' started' where
      r: "start_loop starts ms = (evs', started', ok)" and e: "evs = Startup (mod_name m) # evs'"
        "started = m # started'"
      by (auto split: prod.splits)
    from Cons.IH [OF r] True e show ?thesis by (cases ok) auto
  qed
qed

text \<open>
  Whatever fails, the modules that started are exactly the ones shut down, once each and in
  reverse order, after everything else; a startup that raises stops the boot before the later
  modules are touched and before anything is served.
\<close>

theorem lifespan_shuts_down_what_started:
  "\<exists>started rest. ms = started @ rest \<and>
     fst (lifespan starts serves ms) =
       map (\<lambda>m. Startup (mod_name m)) (started @ take 1 rest) @
       (if rest = [] then [Serve] else []) @
       map (\<lambda>m. Shutdown (mod_name m)) (rev started) \<and>
     list_all (\<lambda>m. starts (mod_name m)) started \<and>
     list_all (\<lambda>m. \<not> starts (mod_name m)) (take 1 rest) \<and>
     snd (lifespan starts serves ms) = (rest = [] \<and> serves)"
proof -
  obtain evs started ok where r: "start_loop starts ms = (evs, started, ok)"
    by (metis prod_cases3)
  have life: "lifespan starts serves ms =
      (evs @ (if ok then [Serve] else []) @ map (\<lambda>m. Shutdown (mod_name m)) (rev started), ok \<and> serves)"
    by (simp add: lifespan_def r)
  from start_loop_prefix [OF r] obtain rest where
    "ms = started @ rest" "\<forall>m \<in> set started. starts (mod_name m)"
    "if ok then rest = [] \<and> evs = map (\<lambda>m. Startup (mod_name m)) started
     else \<exists>m ms'. rest = m # ms' \<and> \<not> starts (mod_name m) \<and>
            evs = map (\<lambda>m. Startup (mod_name m)) (started @ [m])" by blast
  then show ?thesis unfolding life
    by - (rule exI [of _ started], rule exI [of _ rest], auto simp: list_all_iff split: if_splits)
qed

end
