(* ===== verification/Py_Time.thy ===== *)
theory Py_Time
  imports Py_Prelude
begin

text \<open>
  \<open>datetime\<close> as the emulated surfaces use it. \<open>rfc3339\<close> is
  \<open>datetime.fromtimestamp(t, tz=utc).isoformat(timespec="microseconds").replace("+00:00", "Z")\<close> on
  integer microseconds, with the year range of \<open>datetime\<close>; the proleptic Gregorian date comes from
  the day number.

  A time stamp held as a Python float is a number of \<^emph>\<open>ticks\<close> of \<open>2\<^sup>-\<^sup>2\<^sup>2\<close> seconds: that is the spacing of
  the doubles between \<open>2\<^sup>3\<^sup>0\<close> and \<open>2\<^sup>3\<^sup>1\<close> seconds since the epoch (January 2004 to January 2038), so
  every time stamp of that range is a whole number of ticks. \<open>1e-6\<close> is 4.194304 ticks, and adding it
  to such a time stamp rounds to the nearest double, 4 ticks further (\<open>plus_microsecond\<close>).
  \<open>fromtimestamp\<close> rounds the fraction of a second half to even (\<open>ticks_us\<close>); its product with \<open>1e6\<close>
  needs at most 42 bits and is exact.
\<close>

definition plus_microsecond :: "int \<Rightarrow> int" where
  "plus_microsecond t = t + 4"

definition round_half_even :: "int \<Rightarrow> int \<Rightarrow> int" where
  "round_half_even a b =
     (if 2 * (a mod b) < b \<or> (2 * (a mod b) = b \<and> even (a div b)) then a div b else a div b + 1)"

text \<open>Microseconds of a time stamp: one tick is \<open>15625 / 65536\<close> of a microsecond.\<close>

definition ticks_us :: "int \<Rightarrow> int" where
  "ticks_us t = round_half_even (t * 15625) 65536"

definition civil_of_month :: "int \<Rightarrow> int \<Rightarrow> int \<Rightarrow> int \<times> int \<times> int" where
  "civil_of_month y doy mp =
     (if mp < 10 then (y, mp + 3, doy - (153 * mp + 2) div 5 + 1)
      else (y + 1, mp - 9, doy - (153 * mp + 2) div 5 + 1))"

definition civil_of_doy :: "int \<Rightarrow> int \<Rightarrow> int \<times> int \<times> int" where
  "civil_of_doy y doy = civil_of_month y doy ((5 * doy + 2) div 153)"

text \<open>
  The year counts from March, so the leap day is the last of its year; \<open>s\<close>, \<open>r\<close> and \<open>doe\<close> are days
  within four years, a century and four centuries.
\<close>

definition civil_of_4y :: "int \<Rightarrow> int \<Rightarrow> int \<times> int \<times> int" where
  "civil_of_4y y s = civil_of_doy (y + min 3 (s div 365)) (s - 365 * min 3 (s div 365))"

definition civil_of_100y :: "int \<Rightarrow> int \<Rightarrow> int \<times> int \<times> int" where
  "civil_of_100y y r = civil_of_4y (y + 4 * (r div 1461)) (r mod 1461)"

definition civil_of_doe :: "int \<Rightarrow> int \<Rightarrow> int \<times> int \<times> int" where
  "civil_of_doe era doe =
     civil_of_100y (400 * era + 100 * min 3 (doe div 36524)) (doe - 36524 * min 3 (doe div 36524))"

definition civil_from_days :: "int \<Rightarrow> int \<times> int \<times> int" where
  "civil_from_days z = civil_of_doe ((z + 719468) div 146097) ((z + 719468) mod 146097)"

definition pad :: "nat \<Rightarrow> int \<Rightarrow> string" where
  "pad w n = (let s = str_pos n in replicate (w - length s) (CHR ''0'') @ s)"

text \<open>The printed form of a date, a second of the day and a microsecond.\<close>

definition stamp :: "int \<times> int \<times> int \<Rightarrow> int \<Rightarrow> int \<Rightarrow> py_exn + string" where
  "stamp ymd sod us =
     (case ymd of (y, m, d) \<Rightarrow>
        (if 1 \<le> y \<and> y \<le> 9999
         then Inr (pad 4 y @ ''-'' @ pad 2 m @ ''-'' @ pad 2 d @ ''T'' @
                   pad 2 (sod div 3600) @ '':'' @ pad 2 (sod mod 3600 div 60) @ '':'' @
                   pad 2 (sod mod 60) @ ''.'' @ pad 6 us @ ''Z'')
         else Inl ValueError))"

definition rfc3339 :: "int \<Rightarrow> py_exn + string" where
  "rfc3339 t =
     stamp (civil_from_days (t div 86400000000)) (t div 1000000 mod 86400) (t mod 1000000)"

definition rfc3339_ticks :: "int \<Rightarrow> py_exn + string" where
  "rfc3339_ticks t = rfc3339 (ticks_us t)"

lemma rfc3339_epoch: "rfc3339 0 = Inr ''1970-01-01T00:00:00.000000Z''"
  by code_simp

lemma rfc3339_leap_day: "rfc3339 1709210096123456 = Inr ''2024-02-29T12:34:56.123456Z''"
  by code_simp

end
