(* ===== verification/Pagination.thy ===== *)
theory Pagination
  imports Py_Prelude
begin

text \<open>
  Offset tokens. Both mock drivers page a list with a token that is the decimal offset of the next
  row; the contract they share is the locale \<open>offset_paginator\<close>, and the client's side of it, the
  loop that follows \<open>nextPageToken\<close> until it is empty, is \<open>walk_pages\<close>: out of fuel and a raised
  exception are both \<open>None\<close>, and \<open>walk_complete\<close> proves that one unit of fuel per row (and one more)
  is enough.
\<close>

definition page_len :: "int \<Rightarrow> nat" where
  "page_len sz = (if 0 < sz then nat sz else 25)"

definition offset_token :: "nat \<Rightarrow> string" where
  "offset_token k = (if k = 0 then [] else str_nat k)"

fun walk_pages :: "(string \<Rightarrow> 'e + 'a list \<times> string) \<Rightarrow> nat \<Rightarrow> string \<Rightarrow> 'a list list option" where
  "walk_pages get 0 tok = None"
| "walk_pages get (Suc fuel) tok =
     (case get tok of
        Inl e \<Rightarrow> None
      | Inr (w, tok') \<Rightarrow>
          (if tok' = [] then Some [w] else map_option (Cons w) (walk_pages get fuel tok')))"

lemma page_len_pos [simp]: "0 < page_len sz"
  by (simp add: page_len_def)

locale offset_paginator =
  fixes paginate :: "'a list \<Rightarrow> int \<Rightarrow> string \<Rightarrow> 'e + 'a list \<times> string"
  assumes page_at: "k < int_str_bound \<Longrightarrow> paginate rows sz (offset_token k) =
      Inr (take (page_len sz) (drop k rows),
           if k + page_len sz < length rows then str_nat (k + page_len sz) else [])"
begin

lemma walk_from:
  assumes "length rows < int_str_bound" and "k < length rows \<or> k = 0" and "length rows - k < fuel"
  shows "\<exists>pages. walk_pages (paginate rows sz) fuel (offset_token k) = Some pages \<and>
    concat pages = drop k rows \<and> list_all (\<lambda>p. length p \<le> page_len sz) pages \<and>
    list_all (\<lambda>p. length p = page_len sz) (butlast pages)"
  using assms(2,3)
proof (induction fuel arbitrary: k)
  case 0
  then show ?case by simp
next
  case (Suc fuel)
  let ?n = "page_len sz"
  from Suc.prems(1) assms(1) have k: "k < int_str_bound"
    by (metis gr_implies_not_zero less_trans neq0_conv)
  show ?case
  proof (cases "k + ?n < length rows")
    case False
    then have "take ?n (drop k rows) = drop k rows" by simp
    with False show ?thesis by (simp add: page_at [OF k])
  next
    case True
    have tok: "str_nat (k + ?n) = offset_token (k + ?n)"
      by (simp add: offset_token_def)
    have "length rows - (k + ?n) < fuel"
      using True Suc.prems(2) page_len_pos [of sz] by linarith
    with True Suc.IH [of "k + ?n"] obtain pages where
      p: "walk_pages (paginate rows sz) fuel (str_nat (k + ?n)) = Some pages"
        "concat pages = drop (k + ?n) rows" "list_all (\<lambda>p. length p \<le> ?n) pages"
        "list_all (\<lambda>p. length p = ?n) (butlast pages)"
      by (auto simp: tok)
    have "pages \<noteq> []" using p(2) True by auto
    moreover have "take ?n (drop k rows) @ drop (k + ?n) rows = drop k rows"
      by (metis append_take_drop_id drop_drop add.commute)
    ultimately show ?thesis using True p by (simp add: page_at [OF k] del: drop_drop)
  qed
qed

lemma walk_complete:
  assumes "length rows < int_str_bound"
  shows "\<exists>pages. walk_pages (paginate rows sz) (Suc (length rows)) [] = Some pages \<and>
    concat pages = rows \<and> list_all (\<lambda>p. length p \<le> page_len sz) pages \<and>
    list_all (\<lambda>p. length p = page_len sz) (butlast pages)"
  using walk_from [OF assms, of 0 "Suc (length rows)" sz]
  by (simp add: offset_token_def del: walk_pages.simps)

end

end
