(* ===== verification/Tracker_Driver.thy ===== *)
theory Tracker_Driver
  imports Py_Time Pagination
begin

text \<open>
  \<^verbatim>\<open>src/jetty/modules/issuetracker/driver.py\<close>: the vocabulary and the internal representation shared
  by the emulated surface and its drivers. Times are ticks (theory
  \<open>Py_Time\<close>). An element of a collection field
  is \<open>fval\<close>, a Python string or integer, because the collections are edited by one piece of code
  whatever their element type.
\<close>

datatype tracker_status =
  T_INVALID_ARGUMENT | T_NOT_FOUND | T_UNIMPLEMENTED | T_UNAVAILABLE | T_INTERNAL

datatype tracker_exn =
  DriverRejects string
| TrackerApiError tracker_status string
| RequestValidationError string \<comment> \<open>the location FastAPI names\<close>
| PyExn py_exn

definition STATUSES :: "string list" where
  "STATUSES =
     [''NEW'', ''ASSIGNED'', ''ACCEPTED'', ''FIXED'', ''VERIFIED'', ''NOT_REPRODUCIBLE'',
      ''INTENDED_BEHAVIOR'', ''OBSOLETE'', ''INFEASIBLE'', ''DUPLICATE'', ''INACTIVE'']"

definition OPEN_STATUSES :: "string list" where
  "OPEN_STATUSES = [''NEW'', ''ASSIGNED'', ''ACCEPTED'']"

definition TYPES :: "string list" where
  "TYPES =
     [''BUG'', ''FEATURE_REQUEST'', ''CUSTOMER_ISSUE'', ''INTERNAL_CLEANUP'', ''PROCESS'',
      ''VULNERABILITY'', ''PRIVACY_ISSUE'', ''PORTFOLIO'', ''PROGRAM'', ''PROJECT'',
      ''FEATURE'', ''MILESTONE'', ''EPIC'', ''STORY'', ''TASK'']"

definition PRIORITIES :: "string list" where
  "PRIORITIES = [''P0'', ''P1'', ''P2'', ''P3'', ''P4'']"

definition SEVERITIES :: "string list" where
  "SEVERITIES = [''S0'', ''S1'', ''S2'', ''S3'', ''S4'']"

definition RELATIONSHIP_TYPES :: "string list" where
  "RELATIONSHIP_TYPES = [''CHILD'', ''DEPENDENCY'', ''LINKED'']"

datatype issue_view = VIEW_BASIC | VIEW_FULL

datatype fval = FStr string | FInt int

record page =
  page_size :: int
  page_token :: string

record component =
  comp_id :: int
  comp_archived :: bool

record issue =
  iss_id :: int
  iss_component :: int
  iss_title :: string
  iss_type :: string
  iss_status :: string
  iss_priority :: string
  iss_severity :: string
  iss_reporter :: string
  iss_assignee :: string
  iss_verifier :: string
  iss_ccs :: "fval list"
  iss_hotlists :: "fval list"
  iss_blocked_by :: "fval list"
  iss_blocking :: "fval list"
  iss_created :: int
  iss_modified :: int
  iss_description :: string

record issue_page =
  ip_issues :: "issue list"
  ip_next :: string
  ip_total :: nat

record issue_query =
  q_query :: string
  q_order_by :: "(string \<times> bool) list"
  q_page :: page

record issue_create =
  ic_component :: int
  ic_title :: string
  ic_status :: string
  ic_type :: string
  ic_priority :: string
  ic_severity :: string
  ic_description :: string
  ic_assignee :: string

record issue_modify =
  im_sets :: "(string, string) dict"
  im_add :: "(string, fval list) dict"
  im_remove :: "(string, fval list) dict"
  im_comment :: "string option"

record tcomment =
  cm_issue :: int
  cm_number :: nat
  cm_text :: string
  cm_author :: string

record comment_page =
  cp_comments :: "tcomment list"
  cp_next :: string
  cp_total :: nat

record field_change =
  fc_field :: string
  fc_old :: "fval option"
  fc_new :: "fval option"

record issue_update =
  up_author :: string
  up_timestamp :: int
  up_changes :: "field_change list"
  up_comment_number :: nat

record update_page =
  upg_updates :: "issue_update list"
  upg_next :: string
  upg_total :: nat

record relationship =
  rel_target :: int
  rel_type :: string

record tattachment =
  att_id :: int
  att_filename :: string
  att_content_type :: string
  att_length :: int

record hotlist_entry =
  he_hotlist :: int
  he_issue :: int
  he_position :: int

end
