(* ===== verification/Tracker_Mock.thy ===== *)
theory Tracker_Mock
  imports Tracker_Driver
begin

text \<open>
  \<^verbatim>\<open>src/jetty/modules/issuetracker/mock.py\<close>: the in-memory issue tracker. The object's attributes are
  the record \<open>tracker\<close>; every dictionary is an association list in insertion order. The wall clock
  is a parameter of the state: \<open>tr_clock k\<close> is the \<open>k\<close>-th reading of \<open>round(time.time(), 6)\<close> in ticks
  (theory \<open>Py_Time\<close>), and nothing is assumed of it, so the theorems hold for a clock that stands still or goes back.

  An issue object is shared between the dictionary and the variables of an operation, so an operation
  that changes an issue writes it back at once (\<open>put_issue\<close>): what it changed before an exception
  stays changed.
\<close>

section \<open>State\<close>

record tracker =
  tr_identity :: string
  tr_counter :: int
  tr_components :: "(int, component) dict"
  tr_issues :: "(int, issue) dict"
  tr_comments :: "(int, tcomment list) dict"
  tr_updates :: "(int, issue_update list) dict"
  tr_relationships :: "(int, relationship list) dict"
  tr_attachments :: "(int, tattachment list) dict"
  tr_clock :: "nat \<Rightarrow> int"
  tr_reads :: nat

type_synonym 'a tracker_op = "(tracker, tracker_exn, 'a) opn"

definition ID_BASE :: int where
  "ID_BASE = 1000"

text \<open>\<open>round(time.time(), 6)\<close>: the next reading of the clock.\<close>

definition read_clock :: "int tracker_op" where
  "read_clock s = (Inr (tr_clock s (tr_reads s)), s\<lparr>tr_reads := Suc (tr_reads s)\<rparr>)"

text \<open>\<open>next(self._counter)\<close>.\<close>

definition next_id :: "int tracker_op" where
  "next_id s = (Inr (tr_counter s), s\<lparr>tr_counter := tr_counter s + 1\<rparr>)"

definition put_issue :: "int \<Rightarrow> issue \<Rightarrow> tracker \<Rightarrow> tracker" where
  "put_issue iid iss s = s\<lparr>tr_issues := dict_set iid iss (tr_issues s)\<rparr>"

section \<open>Paging\<close>

definition tracker_paginate :: "'a list \<Rightarrow> page \<Rightarrow> tracker_exn + 'a list \<times> string" where
  "tracker_paginate rows pg =
     rbind (if page_token pg = [] then Inr 0
            else case py_int (page_token pg) of
                   None \<Rightarrow> Inl (DriverRejects (''invalid pageToken '' @ py_repr (page_token pg)))
                 | Some i \<Rightarrow> Inr i)
       (\<lambda>offset.
          if offset < 0 then Inl (DriverRejects (''invalid pageToken '' @ py_repr (page_token pg)))
          else let n = (if page_size pg > 0 then page_size pg else 25);
                   window = take (nat n) (drop (nat offset) rows);
                   next_token = (if offset + n < int (length rows) then str_int (offset + n) else [])
               in Inr (window, next_token))"

section \<open>Fields of an issue by name\<close>

datatype scalar_field = SF_status | SF_priority | SF_severity | SF_title | SF_type | SF_assignee | SF_verifier

definition SCALAR_FIELDS :: "(string \<times> scalar_field) list" where
  "SCALAR_FIELDS =
     [(''status'', SF_status), (''priority'', SF_priority), (''severity'', SF_severity),
      (''title'', SF_title), (''type'', SF_type), (''assignee'', SF_assignee),
      (''verifier'', SF_verifier)]"

primrec get_scalar :: "scalar_field \<Rightarrow> issue \<Rightarrow> string" where
  "get_scalar SF_status i = iss_status i"
| "get_scalar SF_priority i = iss_priority i"
| "get_scalar SF_severity i = iss_severity i"
| "get_scalar SF_title i = iss_title i"
| "get_scalar SF_type i = iss_type i"
| "get_scalar SF_assignee i = iss_assignee i"
| "get_scalar SF_verifier i = iss_verifier i"

primrec set_scalar :: "scalar_field \<Rightarrow> string \<Rightarrow> issue \<Rightarrow> issue" where
  "set_scalar SF_status v i = i\<lparr>iss_status := v\<rparr>"
| "set_scalar SF_priority v i = i\<lparr>iss_priority := v\<rparr>"
| "set_scalar SF_severity v i = i\<lparr>iss_severity := v\<rparr>"
| "set_scalar SF_title v i = i\<lparr>iss_title := v\<rparr>"
| "set_scalar SF_type v i = i\<lparr>iss_type := v\<rparr>"
| "set_scalar SF_assignee v i = i\<lparr>iss_assignee := v\<rparr>"
| "set_scalar SF_verifier v i = i\<lparr>iss_verifier := v\<rparr>"

datatype coll_field = CF_ccs | CF_hotlists | CF_blocked_by

definition COLLECTION_FIELDS :: "(string \<times> coll_field) list" where
  "COLLECTION_FIELDS =
     [(''ccs'', CF_ccs), (''hotlistIds'', CF_hotlists), (''blockedByIssueIds'', CF_blocked_by)]"

primrec get_coll :: "coll_field \<Rightarrow> issue \<Rightarrow> fval list" where
  "get_coll CF_ccs i = iss_ccs i"
| "get_coll CF_hotlists i = iss_hotlists i"
| "get_coll CF_blocked_by i = iss_blocked_by i"

primrec set_coll :: "coll_field \<Rightarrow> fval list \<Rightarrow> issue \<Rightarrow> issue" where
  "set_coll CF_ccs v i = i\<lparr>iss_ccs := v\<rparr>"
| "set_coll CF_hotlists v i = i\<lparr>iss_hotlists := v\<rparr>"
| "set_coll CF_blocked_by v i = i\<lparr>iss_blocked_by := v\<rparr>"

text \<open>The sort key of a row: a string attribute or a time.\<close>

datatype sort_val = SVStr string | SVTime int

instantiation sort_val :: linorder
begin

fun less_eq_sort_val :: "sort_val \<Rightarrow> sort_val \<Rightarrow> bool" where
  "less_eq_sort_val (SVStr a) (SVStr b) = (a \<le> b)"
| "less_eq_sort_val (SVStr a) (SVTime b) = True"
| "less_eq_sort_val (SVTime a) (SVStr b) = False"
| "less_eq_sort_val (SVTime a) (SVTime b) = (a \<le> b)"

definition less_sort_val :: "sort_val \<Rightarrow> sort_val \<Rightarrow> bool" where
  "less_sort_val a b \<longleftrightarrow> a \<le> b \<and> \<not> b \<le> a"

instance
proof
  fix x y z :: sort_val
  show "(x < y) = (x \<le> y \<and> \<not> y \<le> x)" by (simp add: less_sort_val_def)
  show "x \<le> x" by (cases x) simp_all
  show "x \<le> y \<Longrightarrow> y \<le> z \<Longrightarrow> x \<le> z" by (cases x; cases y; cases z) auto
  show "x \<le> y \<Longrightarrow> y \<le> x \<Longrightarrow> x = y" by (cases x; cases y) auto
  show "x \<le> y \<or> y \<le> x" by (cases x; cases y) auto
qed

end

definition SORT_FIELDS :: "(string \<times> (issue \<Rightarrow> sort_val)) list" where
  "SORT_FIELDS =
     [(''priority'', \<lambda>i. SVStr (iss_priority i)), (''severity'', \<lambda>i. SVStr (iss_severity i)),
      (''created'', \<lambda>i. SVTime (iss_created i)), (''modified'', \<lambda>i. SVTime (iss_modified i)),
      (''assignee'', \<lambda>i. SVStr (iss_assignee i))]"

section \<open>Internals\<close>

definition insert_issue :: "issue_create \<Rightarrow> string \<Rightarrow> issue tracker_op" where
  "insert_issue req reporter =
     sbind next_id (\<lambda>iid.
     sbind read_clock (\<lambda>now.
       let iss = \<lparr>iss_id = iid, iss_component = ic_component req, iss_title = ic_title req,
                  iss_type = ic_type req, iss_status = ic_status req, iss_priority = ic_priority req,
                  iss_severity = ic_severity req, iss_reporter = reporter,
                  iss_assignee = ic_assignee req, iss_verifier = [], iss_ccs = [], iss_hotlists = [],
                  iss_blocked_by = [], iss_blocking = [], iss_created = now, iss_modified = now,
                  iss_description = ic_description req\<rparr>;
           first = \<lparr>cm_issue = iid, cm_number = 1, cm_text = ic_description req, cm_author = reporter\<rparr>
       in sbind (smod (\<lambda>s. (put_issue iid iss s)
              \<lparr>tr_comments := dict_set iid [first] (tr_comments s),
               tr_updates := dict_set iid [] (tr_updates s)\<rparr>)) (\<lambda>_. sret iss)))"

definition touch :: "int \<Rightarrow> issue \<Rightarrow> issue tracker_op" where
  "touch iid iss =
     sbind read_clock (\<lambda>now.
       let iss' = iss\<lparr>iss_modified := max now (plus_microsecond (iss_modified iss))\<rparr>
       in sbind (smod (put_issue iid iss')) (\<lambda>_. sret iss'))"

section \<open>Components and listing\<close>

definition get_component :: "int \<Rightarrow> component option tracker_op" where
  "get_component cid = sget (\<lambda>s. dict_get (tr_components s) cid)"

definition match_status :: "issue \<Rightarrow> string \<Rightarrow> tracker_exn + bool" where
  "match_status iss value =
     (if value = ''open'' then Inr (iss_status iss \<in> set OPEN_STATUSES)
      else if value = ''closed'' then Inr (iss_status iss \<notin> set OPEN_STATUSES)
      else if py_upper value \<in> set STATUSES then Inr (iss_status iss = py_upper value)
      else Inl (DriverRejects (''query: unknown status '' @ py_repr value)))"

definition match_term :: "issue \<Rightarrow> string \<Rightarrow> tracker_exn + bool" where
  "match_term iss trm =
     (case partition_ch (CHR '':'') trm of (field_name, sep, value0) \<Rightarrow>
        let value = py_lower value0; fld = py_lower field_name
        in if \<not> sep then Inr (py_in (py_lower trm) (py_lower (iss_title iss)))
           else if fld = ''componentid'' then Inr (str_int (iss_component iss) = value)
           else if fld = ''status'' then match_status iss value
           else if fld = ''assignee'' then
             (let assignee = py_lower (iss_assignee iss)
              in Inr (value = assignee \<or> value = fst (partition_ch (CHR ''@'') assignee)))
           else if fld = ''p'' then
             (if py_upper value \<notin> set PRIORITIES
              then Inl (DriverRejects (''query: unknown priority '' @ py_repr value))
              else Inr (iss_priority iss = py_upper value))
           else Inl (DriverRejects (''query: unsupported term '' @ py_repr field_name @
             '' (this driver supports componentid:, status:, assignee:, p:, and bare-word title match)'')))"

fun match_terms :: "issue \<Rightarrow> string list \<Rightarrow> tracker_exn + bool" where
  "match_terms iss [] = Inr True"
| "match_terms iss (t # ts) =
     rbind (match_term iss t) (\<lambda>b. if b then match_terms iss ts else Inr False)"

definition match_issue :: "issue \<Rightarrow> string \<Rightarrow> tracker_exn + bool" where
  "match_issue iss query = match_terms iss (py_split query)"

fun sort_rows :: "(string \<times> bool) list \<Rightarrow> issue list \<Rightarrow> tracker_exn + issue list" where
  "sort_rows [] rows = Inr rows"
| "sort_rows ((field_name, descending) # order) rows =
     rbind (sort_rows order rows) (\<lambda>rows'.
       case map_of SORT_FIELDS field_name of
         None \<Rightarrow> Inl (PyExn KeyError)
       | Some key \<Rightarrow> Inr (py_sort key descending rows'))"

definition list_issues :: "issue_query \<Rightarrow> issue_page tracker_op" where
  "list_issues q s =
     (rbind (rfilter (\<lambda>i. match_issue i (q_query q)) (dict_values (tr_issues s))) (\<lambda>rows0.
      rbind (sort_rows (q_order_by q) (py_sort iss_id False rows0)) (\<lambda>rows.
      rbind (tracker_paginate rows (q_page q)) (\<lambda>(window, token).
        Inr \<lparr>ip_issues = window, ip_next = token, ip_total = length rows\<rparr>))), s)"

definition batch_get_issues :: "int list \<Rightarrow> issue list tracker_op" where
  "batch_get_issues ids =
     sget (\<lambda>s. List.map_filter (\<lambda>i. dict_get (tr_issues s) i) ids)"

definition get_issue :: "int \<Rightarrow> issue option tracker_op" where
  "get_issue iid = sget (\<lambda>s. dict_get (tr_issues s) iid)"

section \<open>Mutation\<close>

definition create_issue :: "issue_create \<Rightarrow> issue tracker_op" where
  "create_issue req s =
     (if \<not> dict_in (ic_component req) (tr_components s)
      then (Inl (DriverRejects (''issueState.componentId: no such component '' @
              str_int (ic_component req))), s)
      else insert_issue req (tr_identity s) s)"

definition create_comment :: "int \<Rightarrow> string \<Rightarrow> tcomment option tracker_op" where
  "create_comment iid txt s =
     (case dict_get (tr_issues s) iid of
        None \<Rightarrow> (Inr None, s)
      | Some iss \<Rightarrow>
          (case dict_get (tr_comments s) iid of
             None \<Rightarrow> (Inl (PyExn KeyError), s)
           | Some rows \<Rightarrow>
               (let c = \<lparr>cm_issue = iid, cm_number = length rows + 1, cm_text = txt,
                         cm_author = tr_identity s\<rparr>
                in sbind (smod (\<lambda>s. s\<lparr>tr_comments := dict_set iid (rows @ [c]) (tr_comments s)\<rparr>)) (\<lambda>_.
                   sbind (touch iid iss) (\<lambda>_. sret (Some c))) s)))"

fun apply_sets :: "int \<Rightarrow> issue \<Rightarrow> (string \<times> string) list \<Rightarrow> field_change list \<Rightarrow>
    (issue \<times> field_change list) tracker_op" where
  "apply_sets iid iss [] changes = sret (iss, changes)"
| "apply_sets iid iss ((field_name, value) # rest) changes =
     (case map_of SCALAR_FIELDS field_name of
        None \<Rightarrow> sraise (DriverRejects (''addMask: cannot set field '' @ py_repr field_name))
      | Some attr \<Rightarrow>
          (let old = get_scalar attr iss
           in if old \<noteq> value then
                (let iss' = set_scalar attr value iss;
                     ch = \<lparr>fc_field = field_name, fc_old = Some (FStr old), fc_new = Some (FStr value)\<rparr>
                 in sbind (smod (put_issue iid iss')) (\<lambda>_. apply_sets iid iss' rest (changes @ [ch])))
              else apply_sets iid iss rest changes))"

fun apply_values :: "int \<Rightarrow> issue \<Rightarrow> coll_field \<Rightarrow> string \<Rightarrow> bool \<Rightarrow> fval list \<Rightarrow> field_change list \<Rightarrow>
    (issue \<times> field_change list) tracker_op" where
  "apply_values iid iss attr field_name removing [] changes = sret (iss, changes)"
| "apply_values iid iss attr field_name removing (value # vs) changes =
     (let current = get_coll attr iss
      in if removing \<and> value \<in> set current then
           (let iss' = set_coll attr (remove1 value current) iss;
                ch = \<lparr>fc_field = field_name, fc_old = Some value, fc_new = None\<rparr>
            in sbind (smod (put_issue iid iss'))
                 (\<lambda>_. apply_values iid iss' attr field_name removing vs (changes @ [ch])))
         else if \<not> removing \<and> value \<notin> set current then
           (let iss' = set_coll attr (current @ [value]) iss;
                ch = \<lparr>fc_field = field_name, fc_old = None, fc_new = Some value\<rparr>
            in sbind (smod (put_issue iid iss'))
                 (\<lambda>_. apply_values iid iss' attr field_name removing vs (changes @ [ch])))
         else apply_values iid iss attr field_name removing vs changes)"

fun apply_deltas :: "int \<Rightarrow> issue \<Rightarrow> bool \<Rightarrow> (string \<times> fval list) list \<Rightarrow> field_change list \<Rightarrow>
    (issue \<times> field_change list) tracker_op" where
  "apply_deltas iid iss removing [] changes = sret (iss, changes)"
| "apply_deltas iid iss removing ((field_name, vs) # rest) changes =
     (case map_of COLLECTION_FIELDS field_name of
        None \<Rightarrow> sraise (DriverRejects ((if removing then ''removeMask'' else ''addMask'') @
                  '': cannot edit collection '' @ py_repr field_name))
      | Some attr \<Rightarrow>
          sbind (apply_values iid iss attr field_name removing vs changes)
            (\<lambda>(iss', changes'). apply_deltas iid iss' removing rest changes'))"

definition record_update :: "int \<Rightarrow> issue \<Rightarrow> field_change list \<Rightarrow> nat \<Rightarrow> issue tracker_op" where
  "record_update iid iss changes comment_number =
     sbind (touch iid iss) (\<lambda>iss'.
     sbind (sget id) (\<lambda>s.
       case dict_get (tr_updates s) iid of
         None \<Rightarrow> sraise (PyExn KeyError)
       | Some us \<Rightarrow>
           (let u = \<lparr>up_author = tr_identity s, up_timestamp = iss_modified iss',
                     up_changes = changes, up_comment_number = comment_number\<rparr>
            in sbind (smod (\<lambda>s. s\<lparr>tr_updates := dict_set iid (us @ [u]) (tr_updates s)\<rparr>))
                 (\<lambda>_. sret iss'))))"

text \<open>The comment a modify carries: its number, and the issue as \<open>create_comment\<close> left it.\<close>

definition modify_comment :: "int \<Rightarrow> issue \<Rightarrow> string option \<Rightarrow> (issue \<times> nat) tracker_op" where
  "modify_comment iid iss comment =
     (case comment of
        None \<Rightarrow> sret (iss, 0)
      | Some txt \<Rightarrow>
          sbind (create_comment iid txt) (\<lambda>r.
          sbind (sget (\<lambda>s. dict_get (tr_issues s) iid)) (\<lambda>cur.
            case (r, cur) of
              (Some c, Some iss') \<Rightarrow> sret (iss', cm_number c)
            | _ \<Rightarrow> sraise (PyExn AssertionError))))"

definition modify_issue :: "int \<Rightarrow> issue_modify \<Rightarrow> issue option tracker_op" where
  "modify_issue iid req s =
     (case dict_get (tr_issues s) iid of
        None \<Rightarrow> (Inr None, s)
      | Some iss \<Rightarrow>
          sbind (apply_sets iid iss (im_sets req) []) (\<lambda>(iss1, ch1).
          sbind (apply_deltas iid iss1 False (im_add req) ch1) (\<lambda>(iss2, ch2).
          sbind (apply_deltas iid iss2 True (im_remove req) ch2) (\<lambda>(iss3, ch3).
          sbind (modify_comment iid iss3 (im_comment req)) (\<lambda>(iss4, comment_number).
            if ch3 \<noteq> [] \<or> comment_number \<noteq> 0
            then sbind (record_update iid iss4 ch3 comment_number) (\<lambda>iss5. sret (Some iss5))
            else sret (Some iss4))))) s)"

section \<open>Relationships and history\<close>

definition create_relationship :: "int \<Rightarrow> relationship \<Rightarrow> relationship option tracker_op" where
  "create_relationship iid rel s =
     (case dict_get (tr_issues s) iid of
        None \<Rightarrow> (Inr None, s)
      | Some iss \<Rightarrow>
          if \<not> dict_in (rel_target rel) (tr_issues s)
          then (Inl (DriverRejects (''issueRelationship.targetIssueId: no such issue '' @
                  str_int (rel_target rel))), s)
          else
            (let rows = dict_get_or (tr_relationships s) iid [];
                 s1 = s\<lparr>tr_relationships := dict_set iid rows (tr_relationships s)\<rparr>
             in if list_ex (\<lambda>r. rel_target r = rel_target rel \<and> rel_type r = rel_type rel) rows
                then (Inl (DriverRejects ''issueRelationship already exists''), s1)
                else sbind (smod (\<lambda>s. s\<lparr>tr_relationships :=
                         dict_set iid (rows @ [rel]) (tr_relationships s)\<rparr>)) (\<lambda>_.
                     sbind (touch iid iss) (\<lambda>_. sret (Some rel))) s1))"

definition list_relationships :: "int \<Rightarrow> string \<Rightarrow> relationship list option tracker_op" where
  "list_relationships iid ty s =
     (if \<not> dict_in iid (tr_issues s) then (Inr None, s)
      else if ty \<notin> set RELATIONSHIP_TYPES then (Inl (PyExn AssertionError), s)
      else (Inr (Some (filter (\<lambda>r. rel_type r = ty) (dict_get_or (tr_relationships s) iid []))), s))"

definition list_issue_updates :: "int \<Rightarrow> page \<Rightarrow> update_page option tracker_op" where
  "list_issue_updates iid pg s =
     (if \<not> dict_in iid (tr_issues s) then (Inr None, s)
      else let rows = rev (dict_get_or (tr_updates s) iid [])
           in (rbind (tracker_paginate rows pg) (\<lambda>(window, token).
                 Inr (Some \<lparr>upg_updates = window, upg_next = token, upg_total = length rows\<rparr>)), s))"

section \<open>Comments\<close>

definition list_comments :: "int \<Rightarrow> page \<Rightarrow> comment_page option tracker_op" where
  "list_comments iid pg s =
     (if \<not> dict_in iid (tr_issues s) then (Inr None, s)
      else let rows = dict_get_or (tr_comments s) iid []
           in (rbind (tracker_paginate rows pg) (\<lambda>(window, token).
                 Inr (Some \<lparr>cp_comments = window, cp_next = token, cp_total = length rows\<rparr>)), s))"

definition update_comment :: "int \<Rightarrow> int \<Rightarrow> string \<Rightarrow> tcomment option tracker_op" where
  "update_comment iid number txt s =
     (case dict_get (tr_issues s) iid of
        None \<Rightarrow> (Inr None, s)
      | Some iss \<Rightarrow>
          (let rows = dict_get_or (tr_comments s) iid []
           in if \<not> (1 \<le> number \<and> number \<le> int (length rows)) then (Inr None, s)
              else
                (let k = nat (number - 1);
                     c = (rows ! k)\<lparr>cm_text := txt\<rparr>;
                     iss1 = (if number = 1 then iss\<lparr>iss_description := txt\<rparr> else iss)
                 in sbind (smod (\<lambda>s. (put_issue iid iss1 s)
                        \<lparr>tr_comments := dict_set iid (rows[k := c]) (tr_comments s)\<rparr>)) (\<lambda>_.
                    sbind (touch iid iss1) (\<lambda>_. sret (Some c))) s)))"

section \<open>Attachments and hotlists\<close>

definition list_attachments :: "int \<Rightarrow> tattachment list option tracker_op" where
  "list_attachments iid s =
     (if \<not> dict_in iid (tr_issues s) then (Inr None, s)
      else (Inr (Some (dict_get_or (tr_attachments s) iid [])), s))"

definition create_hotlist_entry :: "hotlist_entry \<Rightarrow> hotlist_entry tracker_op" where
  "create_hotlist_entry entry s =
     (case dict_get (tr_issues s) (he_issue entry) of
        None \<Rightarrow> (Inl (DriverRejects (''hotlistEntry.issueId: no such issue '' @
                   str_int (he_issue entry))), s)
      | Some iss \<Rightarrow>
          if FInt (he_hotlist entry) \<in> set (iss_hotlists iss) then (Inr entry, s)
          else
            (let iss1 = iss\<lparr>iss_hotlists := iss_hotlists iss @ [FInt (he_hotlist entry)]\<rparr>
             in sbind (smod (put_issue (he_issue entry) iss1)) (\<lambda>_.
                sbind (touch (he_issue entry) iss1) (\<lambda>_. sret entry)) s))"

definition delete_hotlist_entry :: "int \<Rightarrow> int \<Rightarrow> bool tracker_op" where
  "delete_hotlist_entry hid iid s =
     (case dict_get (tr_issues s) iid of
        None \<Rightarrow> (Inr False, s)
      | Some iss \<Rightarrow>
          if FInt hid \<notin> set (iss_hotlists iss) then (Inr False, s)
          else
            (let iss1 = iss\<lparr>iss_hotlists := remove1 (FInt hid) (iss_hotlists iss)\<rparr>
             in sbind (smod (put_issue iid iss1)) (\<lambda>_.
                sbind (touch iid iss1) (\<lambda>_. sret True)) s))"

section \<open>Construction from the seed\<close>

record seed_issue =
  si_component :: int
  si_title :: string
  si_status :: string
  si_type :: string
  si_priority :: string
  si_severity :: string
  si_reporter :: string
  si_assignee :: string
  si_description :: string

definition empty_tracker :: "string \<Rightarrow> (nat \<Rightarrow> int) \<Rightarrow> tracker" where
  "empty_tracker identity clock =
     \<lparr>tr_identity = identity, tr_counter = ID_BASE + 1, tr_components = [], tr_issues = [],
      tr_comments = [], tr_updates = [], tr_relationships = [], tr_attachments = [],
      tr_clock = clock, tr_reads = 0\<rparr>"

fun seed_components :: "int list \<Rightarrow> tracker \<Rightarrow> tracker" where
  "seed_components [] s = s"
| "seed_components (cid # cids) s =
     seed_components cids
       (s\<lparr>tr_components := dict_set cid \<lparr>comp_id = cid, comp_archived = False\<rparr> (tr_components s)\<rparr>)"

definition seed_request :: "seed_issue \<Rightarrow> issue_create" where
  "seed_request row =
     \<lparr>ic_component = si_component row, ic_title = si_title row, ic_status = si_status row,
      ic_type = si_type row, ic_priority = si_priority row, ic_severity = si_severity row,
      ic_description = si_description row, ic_assignee = si_assignee row\<rparr>"

text \<open>A seed row naming an unknown component aborts construction with \<open>ValueError\<close>.\<close>

fun seed_issues :: "seed_issue list \<Rightarrow> unit tracker_op" where
  "seed_issues [] = sret ()"
| "seed_issues (row # rows) =
     sbind (sget (\<lambda>s. dict_in (si_component row) (tr_components s))) (\<lambda>known.
       if \<not> known then sraise (PyExn ValueError)
       else sbind (insert_issue (seed_request row) (si_reporter row)) (\<lambda>_. seed_issues rows))"

definition MockIssueTrackerDriver ::
    "string \<Rightarrow> (nat \<Rightarrow> int) \<Rightarrow> int list \<Rightarrow> seed_issue list \<Rightarrow> tracker_exn + tracker" where
  "MockIssueTrackerDriver identity clock comps rows =
     (case seed_issues rows (seed_components comps (empty_tracker identity clock)) of
        (Inl e, s) \<Rightarrow> Inl e
      | (Inr _, s) \<Rightarrow> Inr s)"

end
