(* ===== verification/Foreign_Surface.thy ===== *)
theory Foreign_Surface
  imports Errors
begin

text \<open>
  What the emulated surfaces (the modules \<open>issuetracker\<close>, \<open>mail\<close> and \<open>chat\<close>) have in common: a handler
  works on the module's state and returns a reply or raises, and a route class renders what came out
  (\<open>serve_with\<close>); requests are served
  one after the other (\<open>run_with\<close>: each driver call runs to its end without awaiting anything, so the
  event loop cannot interleave two of them).

  The contract of such a surface is the locale \<open>foreign_surface\<close>: \<open>good\<close> is the state invariant,
  \<open>same\<close> says that two states look alike to clients, \<open>loud\<close> marks the exceptions after which the
  state may have changed (internal errors, and failures of a backend in the middle of its work),
  \<open>shaped\<close> is the shape of an error response, and \<open>later\<close> is how the state may evolve.
\<close>

definition serve_with ::
    "('req \<Rightarrow> ('s, 'e, 'r) opn) \<Rightarrow> ('e + 'r \<Rightarrow> http_response) \<Rightarrow> 'req \<Rightarrow> 's \<Rightarrow> http_response \<times> 's" where
  "serve_with handle route req s = (case handle req s of (r, s') \<Rightarrow> (route r, s'))"

fun run_with ::
    "('req \<Rightarrow> ('s, 'e, 'r) opn) \<Rightarrow> ('e + 'r \<Rightarrow> http_response) \<Rightarrow> 'req list \<Rightarrow> 's \<Rightarrow>
     http_response list \<times> 's" where
  "run_with handle route [] s = ([], s)"
| "run_with handle route (req # reqs) s =
     (case serve_with handle route req s of (resp, s1) \<Rightarrow>
        (case run_with handle route reqs s1 of (resps, s2) \<Rightarrow> (resp # resps, s2)))"

text \<open>An error response carries its own status code in its body.\<close>

definition error_envelope :: "http_response \<Rightarrow> bool" where
  "error_envelope r \<longleftrightarrow>
     400 \<le> resp_status r \<and> resp_status r < 600 \<and>
     (case resp_json r of
        PDict d \<Rightarrow>
          (case pget d ''error'' of PDict e \<Rightarrow> pget e ''code'' = PInt (resp_status r) | _ \<Rightarrow> False)
      | _ \<Rightarrow> False)"

locale foreign_surface =
  fixes handle :: "'req \<Rightarrow> ('s, 'e, 'r) opn"
    and route :: "'e + 'r \<Rightarrow> http_response"
    and good :: "'s \<Rightarrow> bool"
    and later :: "'s \<Rightarrow> 's \<Rightarrow> bool"
    and same :: "'s \<Rightarrow> 's \<Rightarrow> bool"
    and loud :: "'e \<Rightarrow> bool"
    and shaped :: "http_response \<Rightarrow> bool"
  assumes route_ok: "200 \<le> resp_status (route (Inr v)) \<and> resp_status (route (Inr v)) < 300"
    and route_error: "shaped (route (Inl e)) \<and> 400 \<le> resp_status (route (Inl e))"
    and route_loud: "loud e \<Longrightarrow> 500 \<le> resp_status (route (Inl e))"
    and good_step: "good s \<Longrightarrow> handle req s = (r, s') \<Longrightarrow> good s'"
    and later_refl: "later s s"
    and later_trans: "later s1 s2 \<Longrightarrow> later s2 s3 \<Longrightarrow> later s1 s3"
    and later_step: "good s \<Longrightarrow> handle req s = (r, s') \<Longrightarrow> later s s'"
    and error_quiet: "good s \<Longrightarrow> handle req s = (Inl e, s') \<Longrightarrow> \<not> loud e \<Longrightarrow> same s s'"
begin

lemma serve_good: "good s \<Longrightarrow> serve_with handle route req s = (resp, s') \<Longrightarrow> good s' \<and> later s s'"
  by (auto simp: serve_with_def split: prod.splits intro: good_step later_step)

lemma run_good: "good s \<Longrightarrow> good (snd (run_with handle route reqs s)) \<and> later s (snd (run_with handle route reqs s))"
proof (induction reqs arbitrary: s)
  case Nil
  then show ?case by (simp add: later_refl)
next
  case (Cons req reqs)
  obtain resp s1 where s1: "serve_with handle route req s = (resp, s1)"
    by (cases "serve_with handle route req s")
  from serve_good [OF Cons.prems this] Cons.IH [of s1] show ?case
    by (auto simp: s1 split: prod.splits intro: later_trans)
qed

text \<open>A response is a success exactly when the handler returned; otherwise it has the error shape.\<close>

lemma served:
  "(\<exists>v s'. handle req s = (Inr v, s')) \<longleftrightarrow> resp_status (fst (serve_with handle route req s)) < 300"
  "(\<exists>e s'. handle req s = (Inl e, s')) \<Longrightarrow> shaped (fst (serve_with handle route req s))"
proof -
  obtain r s' where h: "handle req s = (r, s')" by (cases "handle req s")
  show "(\<exists>v s'. handle req s = (Inr v, s')) \<longleftrightarrow> resp_status (fst (serve_with handle route req s)) < 300"
  proof (cases r)
    case (Inl e)
    have "\<not> resp_status (route (Inl e)) < 300" using route_error [of e] by linarith
    with h Inl show ?thesis by (simp add: serve_with_def)
  next
    case (Inr v)
    with h show ?thesis using route_ok [of v] by (simp add: serve_with_def)
  qed
  show "(\<exists>e s'. handle req s = (Inl e, s')) \<Longrightarrow> shaped (fst (serve_with handle route req s))"
    using route_error by (auto simp: serve_with_def)
qed

lemma refused_is_quiet:
  assumes "good s" and "300 \<le> resp_status (fst (serve_with handle route req s))"
    and "resp_status (fst (serve_with handle route req s)) < 500"
  shows "same s (snd (serve_with handle route req s))"
proof (cases "handle req s")
  case (Pair r s')
  show ?thesis
  proof (cases r)
    case (Inl e)
    with Pair assms have "\<not> loud e" using route_loud [of e] by (auto simp: serve_with_def)
    with Pair Inl assms(1) show ?thesis by (simp add: serve_with_def error_quiet)
  next
    case (Inr v)
    with Pair assms route_ok [of v] show ?thesis by (simp add: serve_with_def)
  qed
qed

lemma quiet_unless_loud:
  assumes "good s" and "\<And>e s'. handle req s = (Inl e, s') \<Longrightarrow> \<not> loud e"
    and "300 \<le> resp_status (fst (serve_with handle route req s))"
  shows "same s (snd (serve_with handle route req s))"
proof (cases "handle req s")
  case (Pair r s')
  show ?thesis
  proof (cases r)
    case (Inl e)
    with Pair assms(1,2) show ?thesis by (simp add: serve_with_def error_quiet)
  next
    case (Inr v)
    with Pair assms(3) route_ok [of v] show ?thesis by (simp add: serve_with_def)
  qed
qed

end

end
