(* ===== verification/Tracker_Surface.thy ===== *)
theory Tracker_Surface
  imports Tracker_Mock Foreign_Surface
begin

text \<open>
  \<^verbatim>\<open>src/jetty/modules/issuetracker/module.py\<close>: the emulated surface. Request parsing, the wire
  rendering, the mapping of driver failures (\<open>drive\<close>), one handler per route, and the route class
  that renders every exception in the emulated shape. A handler takes what FastAPI hands it: path
  and query parameters as strings (or a parsed integer), and the JSON body, \<open>Inl\<close> when
  \<open>request.json()\<close> raised. Its result is the JSON it returns.
\<close>

section \<open>Errors\<close>

primrec tracker_status_str :: "tracker_status \<Rightarrow> string" where
  "tracker_status_str T_INVALID_ARGUMENT = ''INVALID_ARGUMENT''"
| "tracker_status_str T_NOT_FOUND = ''NOT_FOUND''"
| "tracker_status_str T_UNIMPLEMENTED = ''UNIMPLEMENTED''"
| "tracker_status_str T_UNAVAILABLE = ''UNAVAILABLE''"
| "tracker_status_str T_INTERNAL = ''INTERNAL''"

primrec STATUS_HTTP :: "tracker_status \<Rightarrow> int" where
  "STATUS_HTTP T_INVALID_ARGUMENT = 400"
| "STATUS_HTTP T_NOT_FOUND = 404"
| "STATUS_HTTP T_UNIMPLEMENTED = 501"
| "STATUS_HTTP T_UNAVAILABLE = 503"
| "STATUS_HTTP T_INTERNAL = 500"

definition tracker_error_response :: "tracker_status \<Rightarrow> string \<Rightarrow> http_response" where
  "tracker_error_response st message =
     \<lparr>resp_status = STATUS_HTTP st,
      resp_json = PDict [(''error'',
        PDict [(''code'', PInt (STATUS_HTTP st)), (''message'', PStr message),
               (''status'', PStr (tracker_status_str st))])]\<rparr>"

text \<open>\<open>_TrackerRoute\<close>: the response for what the handler returned or raised.\<close>

definition tracker_route :: "tracker_exn + pyval \<Rightarrow> http_response" where
  "tracker_route r =
     (case r of
        Inr v \<Rightarrow> \<lparr>resp_status = 200, resp_json = v\<rparr>
      | Inl (TrackerApiError st message) \<Rightarrow> tracker_error_response st message
      | Inl (RequestValidationError loc) \<Rightarrow>
          tracker_error_response T_INVALID_ARGUMENT (''invalid request: '' @ loc)
      | Inl _ \<Rightarrow> tracker_error_response T_INTERNAL ''internal error'')"

definition invalid :: "string \<Rightarrow> tracker_exn" where
  "invalid message = TrackerApiError T_INVALID_ARGUMENT message"

section \<open>Wire helpers\<close>

definition tracker_rfc3339 :: "int \<Rightarrow> tracker_exn + string" where
  "tracker_rfc3339 t = (case rfc3339_ticks t of Inl e \<Rightarrow> Inl (PyExn e) | Inr s \<Rightarrow> Inr s)"

definition parse_id64 :: "pyval \<Rightarrow> string \<Rightarrow> tracker_exn + int" where
  "parse_id64 value field_name =
     rbind (case value of
              PInt i \<Rightarrow> Inr i
            | PStr s \<Rightarrow> (case py_int s of
                           None \<Rightarrow> Inl (invalid (field_name @ '' must be an integer''))
                         | Some i \<Rightarrow> Inr i)
            | _ \<Rightarrow> Inl (invalid (field_name @ '' must be an integer'')))
       (\<lambda>parsed. if parsed \<le> 0 then Inl (invalid (field_name @ '' must be positive'')) else Inr parsed)"

definition fval_json :: "fval \<Rightarrow> pyval" where
  "fval_json v = (case v of FStr s \<Rightarrow> PStr s | FInt i \<Rightarrow> PInt i)"

definition fval_str :: "fval \<Rightarrow> string" where
  "fval_str v = (case v of FStr s \<Rightarrow> s | FInt i \<Rightarrow> str_int i)"

definition user_json :: "string \<Rightarrow> pyval" where
  "user_json email = PDict [(''emailAddress'', PStr email)]"

definition parse_user :: "pyval \<Rightarrow> string \<Rightarrow> tracker_exn + string" where
  "parse_user value field_name =
     (case value of
        PDict d \<Rightarrow> (case pget d ''emailAddress'' of
                      PStr s \<Rightarrow> Inr s
                    | _ \<Rightarrow> Inl (invalid (field_name @ '' must be a User with emailAddress'')))
      | _ \<Rightarrow> Inl (invalid (field_name @ '' must be a User with emailAddress'')))"

definition comment_json :: "tcomment \<Rightarrow> pyval" where
  "comment_json c =
     PDict ([(''issueId'', PStr (str_int (cm_issue c))), (''commentNumber'', PInt (int (cm_number c))),
             (''comment'', PStr (cm_text c))] @
            (if cm_author c \<noteq> [] then [(''author'', user_json (cm_author c))] else []))"

definition issue_state_json :: "issue \<Rightarrow> pyval" where
  "issue_state_json i =
     PDict ([(''componentId'', PStr (str_int (iss_component i))), (''type'', PStr (iss_type i)),
             (''status'', PStr (iss_status i)), (''priority'', PStr (iss_priority i)),
             (''severity'', PStr (iss_severity i)), (''title'', PStr (iss_title i)),
             (''reporter'', user_json (iss_reporter i))] @
            (if iss_assignee i \<noteq> [] then [(''assignee'', user_json (iss_assignee i))] else []) @
            (if iss_verifier i \<noteq> [] then [(''verifier'', user_json (iss_verifier i))] else []) @
            (if iss_ccs i \<noteq> [] then [(''ccs'', PList (map (\<lambda>u. PDict [(''emailAddress'', fval_json u)]) (iss_ccs i)))] else []) @
            (if iss_hotlists i \<noteq> [] then [(''hotlistIds'', PList (map (\<lambda>h. PStr (fval_str h)) (iss_hotlists i)))] else []) @
            (if iss_blocked_by i \<noteq> [] then [(''blockedByIssueIds'', PList (map (\<lambda>b. PStr (fval_str b)) (iss_blocked_by i)))] else []) @
            (if iss_blocking i \<noteq> [] then [(''blockingIssueIds'', PList (map (\<lambda>b. PStr (fval_str b)) (iss_blocking i)))] else []))"

definition issue_json :: "issue \<Rightarrow> issue_view \<Rightarrow> tracker_exn + pyval" where
  "issue_json i view =
     rbind (tracker_rfc3339 (iss_created i)) (\<lambda>created.
     rbind (tracker_rfc3339 (iss_modified i)) (\<lambda>modified.
       Inr (PDict ([(''issueId'', PStr (str_int (iss_id i))), (''issueState'', issue_state_json i),
                    (''createdTime'', PStr created), (''modifiedTime'', PStr modified)] @
                   (if view = VIEW_FULL
                    then [(''description'', comment_json
                            \<lparr>cm_issue = iss_id i, cm_number = 1, cm_text = iss_description i, cm_author = []\<rparr>)]
                    else [])))))"

definition field_value_json :: "fval option \<Rightarrow> pyval" where
  "field_value_json v =
     (case v of None \<Rightarrow> PNone | Some (FInt i) \<Rightarrow> PStr (str_int i) | Some (FStr s) \<Rightarrow> PStr s)"

definition update_json :: "issue_update \<Rightarrow> tracker_exn + pyval" where
  "update_json u =
     rbind (tracker_rfc3339 (up_timestamp u)) (\<lambda>ts.
       Inr (PDict ([(''author'', user_json (up_author u)), (''timestamp'', PStr ts),
                    (''fieldUpdates'', PList (map (\<lambda>c.
                       PDict [(''field'', PStr (fc_field c)),
                              (''singleValueUpdate'',
                                PDict [(''oldValue'', field_value_json (fc_old c)),
                                       (''newValue'', field_value_json (fc_new c))])]) (up_changes u)))] @
                   (if up_comment_number u \<noteq> 0
                    then [(''commentNumber'', PInt (int (up_comment_number u)))] else []))))"

definition relationship_json :: "relationship \<Rightarrow> pyval" where
  "relationship_json r = PDict [(''targetIssueId'', PStr (str_int (rel_target r)))]"

definition attachment_json :: "tattachment \<Rightarrow> pyval" where
  "attachment_json a =
     PDict [(''attachmentId'', PStr (str_int (att_id a))), (''filename'', PStr (att_filename a)),
            (''contentType'', PStr (att_content_type a)), (''length'', PStr (str_int (att_length a))),
            (''attachmentDataRef'', PDict [(''resourceName'', PStr (''attachment:'' @ str_int (att_id a)))])]"

definition hotlist_entry_json :: "hotlist_entry \<Rightarrow> pyval" where
  "hotlist_entry_json e =
     PDict ([(''issueId'', PStr (str_int (he_issue e)))] @
            (if he_position e \<noteq> 0 then [(''position'', PInt (he_position e))] else []))"

section \<open>Request parsing\<close>

definition json_body :: "py_exn + pyval \<Rightarrow> string list \<Rightarrow> tracker_exn + (string \<times> pyval) list" where
  "json_body raw allowed =
     (case raw of
        Inl _ \<Rightarrow> Inl (invalid ''request body is not JSON'')
      | Inr (PDict body) \<Rightarrow>
          (case unknown_keys allowed body of
             [] \<Rightarrow> Inr body
           | k # _ \<Rightarrow> Inl (invalid (''unknown field '' @ py_repr k @ '' in request body'')))
      | Inr _ \<Rightarrow> Inl (invalid ''request body must be an object''))"

definition mk_page :: "int option \<Rightarrow> string option \<Rightarrow> tracker_exn + page" where
  "mk_page psize ptoken =
     (let n = (case psize of None \<Rightarrow> 25 | Some k \<Rightarrow> k)
      in if n < 0 then Inl (invalid ''pageSize must not be negative'')
         else Inr \<lparr>page_size = (if min n 500 = 0 then 25 else min n 500),
                   page_token = (case ptoken of None \<Rightarrow> [] | Some t \<Rightarrow> t)\<rparr>)"

definition parse_view :: "string option \<Rightarrow> tracker_exn + issue_view" where
  "parse_view view =
     (case view of
        None \<Rightarrow> Inr VIEW_BASIC
      | Some v \<Rightarrow>
          if v = [] \<or> v = ''ISSUE_VIEW_UNSPECIFIED'' \<or> v = ''BASIC'' then Inr VIEW_BASIC
          else if v = ''FULL'' then Inr VIEW_FULL
          else Inl (invalid (''view: unsupported '' @ py_repr v)))"

definition ORDER_FIELDS :: "(string \<times> string) list" where
  "ORDER_FIELDS =
     [(''priority'', ''priority''), (''severity'', ''severity''), (''created'', ''created''),
      (''modified_time'', ''modified''), (''assignee'', ''assignee'')]"

definition parse_order_part :: "string \<Rightarrow> tracker_exn + string \<times> bool" where
  "parse_order_part part =
     (let bad = Inl (invalid (''orderBy: unsupported '' @ py_repr (py_strip part)))
      in case py_split part of
           [w] \<Rightarrow> (case map_of ORDER_FIELDS w of None \<Rightarrow> bad | Some f \<Rightarrow> Inr (f, False))
         | [w, d] \<Rightarrow>
             (case map_of ORDER_FIELDS w of
                None \<Rightarrow> bad
              | Some f \<Rightarrow>
                  if py_lower d = ''asc'' then Inr (f, False)
                  else if py_lower d = ''desc'' then Inr (f, True) else bad)
         | _ \<Rightarrow> bad)"

definition parse_order_by :: "string option \<Rightarrow> tracker_exn + (string \<times> bool) list" where
  "parse_order_by order_by =
     (case order_by of
        None \<Rightarrow> Inr []
      | Some s \<Rightarrow> if s = [] then Inr [] else rmap parse_order_part (split_ch (CHR '','') s))"

definition parse_enum :: "pyval \<Rightarrow> string list \<Rightarrow> string \<Rightarrow> tracker_exn + string" where
  "parse_enum value allowed field_name =
     (let bad = Inl (invalid (field_name @ '': must be one of '' @ py_join '', '' (sort allowed)))
      in case value of PStr s \<Rightarrow> (if s \<in> set allowed then Inr s else bad) | _ \<Rightarrow> bad)"

text \<open>\<open>_MODIFY_SCALARS\<close>: the parser of each scalar mask field.\<close>

definition MODIFY_SCALARS :: "(string \<times> (pyval \<Rightarrow> tracker_exn + string)) list" where
  "MODIFY_SCALARS =
     [(''status'', \<lambda>v. parse_enum v STATUSES ''add.status''),
      (''priority'', \<lambda>v. parse_enum v PRIORITIES ''add.priority''),
      (''severity'', \<lambda>v. parse_enum v SEVERITIES ''add.severity''),
      (''type'', \<lambda>v. parse_enum v TYPES ''add.type''),
      (''title'', \<lambda>v. case v of PStr (c # cs) \<Rightarrow> Inr (c # cs)
                        | _ \<Rightarrow> Inl (invalid ''add.title must be a non-empty string'')),
      (''assignee'', \<lambda>v. parse_user v ''add.assignee''),
      (''verifier'', \<lambda>v. parse_user v ''add.verifier'')]"

text \<open>\<open>_MODIFY_COLLECTIONS\<close>: the parser of each collection's elements.\<close>

definition MODIFY_COLLECTIONS :: "(string \<times> (pyval \<Rightarrow> string \<Rightarrow> tracker_exn + fval)) list" where
  "MODIFY_COLLECTIONS =
     [(''ccs'', \<lambda>v ctx. rbind (parse_user v ctx) (\<lambda>u. Inr (FStr u))),
      (''hotlistIds'', \<lambda>v ctx. rbind (parse_id64 v ctx) (\<lambda>i. Inr (FInt i))),
      (''blockedByIssueIds'', \<lambda>v ctx. rbind (parse_id64 v ctx) (\<lambda>i. Inr (FInt i)))]"

definition parse_mask :: "pyval \<Rightarrow> string \<Rightarrow> tracker_exn + string list" where
  "parse_mask msk field_name =
     (case msk of
        PNone \<Rightarrow> Inr []
      | PStr s \<Rightarrow> Inr (filter (\<lambda>p. p \<noteq> []) (map py_strip (split_ch (CHR '','') s)))
      | _ \<Rightarrow> Inl (invalid (field_name @ '' must be a string'')))"

fun masked_loop :: "(string \<times> pyval) list \<Rightarrow> string list \<Rightarrow> string \<Rightarrow> string \<Rightarrow> bool \<Rightarrow>
    (string, string) dict \<Rightarrow> (string, fval list) dict \<Rightarrow>
    tracker_exn + (string, string) dict \<times> (string, fval list) dict" where
  "masked_loop state [] mask_name state_name scalars_allowed sets colls = Inr (sets, colls)"
| "masked_loop state (f # fs) mask_name state_name scalars_allowed sets colls =
     (case map_of MODIFY_SCALARS f of
        Some parse \<Rightarrow>
          if \<not> scalars_allowed
          then Inl (invalid (mask_name @ '': '' @ py_repr f @ '' is not a collection field''))
          else if \<not> dict_in f state
          then Inl (invalid (mask_name @ '' names '' @ py_repr f @ '' but '' @ state_name @ '' does not carry it''))
          else rbind (parse (pget state f)) (\<lambda>v.
                 masked_loop state fs mask_name state_name scalars_allowed (dict_set f v sets) colls)
      | None \<Rightarrow>
          (case map_of MODIFY_COLLECTIONS f of
             Some parse \<Rightarrow>
               (case pget state f of
                  PList vs \<Rightarrow>
                    rbind (rmap (\<lambda>v. parse v (state_name @ ''.'' @ f)) vs) (\<lambda>xs.
                      masked_loop state fs mask_name state_name scalars_allowed sets (dict_set f xs colls))
                | _ \<Rightarrow> Inl (invalid (mask_name @ '' names '' @ py_repr f @ '' but '' @ state_name @
                            ''.'' @ f @ '' is not a list'')))
           | None \<Rightarrow> Inl (invalid (mask_name @ '': unsupported field '' @ py_repr f))))"

definition masked_deltas :: "pyval \<Rightarrow> string list \<Rightarrow> string \<Rightarrow> string \<Rightarrow> bool \<Rightarrow>
    tracker_exn + (string, string) dict \<times> (string, fval list) dict" where
  "masked_deltas state mask_fields mask_name state_name scalars_allowed =
     (case state of
        PNone \<Rightarrow> masked_loop [] mask_fields mask_name state_name scalars_allowed [] []
      | PDict d \<Rightarrow> masked_loop d mask_fields mask_name state_name scalars_allowed [] []
      | _ \<Rightarrow> Inl (invalid (state_name @ '' must be an IssueState'')))"

text \<open>A member that must be an object with a \<open>comment\<close> string.\<close>

definition comment_member :: "pyval \<Rightarrow> string \<Rightarrow> tracker_exn + string" where
  "comment_member raw message =
     (case raw of
        PDict d \<Rightarrow> (case pget d ''comment'' of PStr s \<Rightarrow> Inr s | _ \<Rightarrow> Inl (invalid message))
      | _ \<Rightarrow> Inl (invalid message))"

definition parse_modify :: "(string \<times> pyval) list \<Rightarrow> tracker_exn + issue_modify" where
  "parse_modify body =
     rbind (parse_mask (pget body ''addMask'') ''addMask'') (\<lambda>add_mask.
     rbind (parse_mask (pget body ''removeMask'') ''removeMask'') (\<lambda>remove_mask.
     rbind (masked_deltas (pget body ''add'') add_mask ''addMask'' ''add'' True) (\<lambda>(sets, add).
     rbind (masked_deltas (pget body ''remove'') remove_mask ''removeMask'' ''remove'' False)
       (\<lambda>(removed_sets, remove).
       if removed_sets \<noteq> [] then Inl (PyExn AssertionError)
       else rbind (if dict_in ''issueComment'' body
                   then rbind (comment_member (pget body ''issueComment'')
                          ''issueComment must carry a comment string'') (\<lambda>c. Inr (Some c))
                   else Inr None) (\<lambda>comment.
         if sets = [] \<and> add = [] \<and> remove = [] \<and> comment = None
         then Inl (invalid ''modify names no masked field and carries no comment'')
         else Inr \<lparr>im_sets = sets, im_add = add, im_remove = remove, im_comment = comment\<rparr>)))))"

fun require_keys :: "string list \<Rightarrow> (string \<times> pyval) list \<Rightarrow> tracker_exn + unit" where
  "require_keys [] state = Inr ()"
| "require_keys (k # ks) state =
     (if \<not> dict_in k state then Inl (invalid (''issue.issueState.'' @ k @ '' is required''))
      else require_keys ks state)"

definition tracker_parse_create :: "(string \<times> pyval) list \<Rightarrow> tracker_exn + issue_create" where
  "tracker_parse_create body =
     (if dict_in ''templateOptions'' body then Inl (invalid ''templateOptions is not supported'')
      else case pget body ''issue'' of
        PDict iss \<Rightarrow>
          (case pget iss ''issueState'' of
             PDict state \<Rightarrow>
               rbind (require_keys [''componentId'', ''title'', ''status'', ''type'', ''priority'', ''severity''] state) (\<lambda>_.
               rbind (case pget state ''title'' of
                        PStr (c # cs) \<Rightarrow> Inr (c # cs)
                      | _ \<Rightarrow> Inl (invalid ''issue.issueState.title must be a non-empty string'')) (\<lambda>title.
               rbind (if dict_in ''description'' iss
                      then comment_member (pget iss ''description'') ''issue.description must carry a comment string''
                      else Inr []) (\<lambda>description.
               rbind (if dict_in ''assignee'' state
                      then parse_user (pget state ''assignee'') ''issue.issueState.assignee''
                      else Inr []) (\<lambda>assignee.
               rbind (parse_id64 (pget state ''componentId'') ''issue.issueState.componentId'') (\<lambda>cid.
               rbind (parse_enum (pget state ''status'') STATUSES ''issue.issueState.status'') (\<lambda>st.
               rbind (parse_enum (pget state ''type'') TYPES ''issue.issueState.type'') (\<lambda>ty.
               rbind (parse_enum (pget state ''priority'') PRIORITIES ''issue.issueState.priority'') (\<lambda>pr.
               rbind (parse_enum (pget state ''severity'') SEVERITIES ''issue.issueState.severity'') (\<lambda>sv.
                 Inr \<lparr>ic_component = cid, ic_title = title, ic_status = st, ic_type = ty,
                      ic_priority = pr, ic_severity = sv, ic_description = description,
                      ic_assignee = assignee\<rparr>)))))))))
           | _ \<Rightarrow> Inl (invalid ''issue.issueState is required''))
      | _ \<Rightarrow> Inl (invalid ''issue is required''))"

section \<open>The module\<close>

text \<open>\<open>_drive\<close>: one driver call with its failures mapped to the emulated statuses.\<close>

definition drive_exn :: "tracker_exn \<Rightarrow> tracker_exn" where
  "drive_exn e =
     (case e of
        DriverRejects m \<Rightarrow> TrackerApiError T_INVALID_ARGUMENT m
      | TrackerApiError st m \<Rightarrow> TrackerApiError st m
      | _ \<Rightarrow> TrackerApiError T_UNAVAILABLE ''issue tracker upstream unavailable'')"

definition drive :: "'a tracker_op \<Rightarrow> 'a tracker_op" where
  "drive m s = (case m s of (Inl e, s') \<Rightarrow> (Inl (drive_exn e), s') | (Inr x, s') \<Rightarrow> (Inr x, s'))"

definition issue_path_id :: "string \<Rightarrow> tracker_exn + int" where
  "issue_path_id iid = parse_id64 (PStr iid) ''issueId''"

definition require :: "'a option \<Rightarrow> string \<Rightarrow> 'a tracker_op" where
  "require r what =
     (case r of None \<Rightarrow> sraise (TrackerApiError T_NOT_FOUND (what @ '' not found'')) | Some x \<Rightarrow> sret x)"

definition with_token :: "(string \<times> pyval) list \<Rightarrow> string \<Rightarrow> pyval" where
  "with_token body token = PDict (body @ (if token \<noteq> [] then [(''nextPageToken'', PStr token)] else []))"

definition h_get_component :: "string \<Rightarrow> pyval tracker_op" where
  "h_get_component component_id =
     sbind (slift (parse_id64 (PStr component_id) ''componentId'')) (\<lambda>cid.
     sbind (drive (get_component cid)) (\<lambda>r.
     sbind (require r (''component '' @ str_int cid)) (\<lambda>c.
       sret (PDict [(''componentId'', PStr (str_int (comp_id c))), (''isArchived'', PBool (comp_archived c))]))))"

definition h_list_issues ::
    "string option \<Rightarrow> string option \<Rightarrow> int option \<Rightarrow> string option \<Rightarrow> string option \<Rightarrow> pyval tracker_op" where
  "h_list_issues query orderBy pageSize pageToken view =
     (case query of
        None \<Rightarrow> sraise (invalid ''query is required'')
      | Some qs \<Rightarrow>
          if qs = [] then sraise (invalid ''query is required'')
          else
            sbind (slift (parse_view view)) (\<lambda>resolved_view.
            sbind (slift (parse_order_by orderBy)) (\<lambda>order.
            sbind (slift (mk_page pageSize pageToken)) (\<lambda>pg.
            sbind (drive (list_issues \<lparr>q_query = qs, q_order_by = order, q_page = pg\<rparr>)) (\<lambda>result.
            sbind (slift (rmap (\<lambda>i. issue_json i resolved_view) (ip_issues result))) (\<lambda>rows.
              sret (with_token [(''issues'', PList rows), (''totalSize'', PInt (int (ip_total result)))]
                      (ip_next result))))))))"

definition h_batch_get_issues :: "string list \<Rightarrow> string option \<Rightarrow> pyval tracker_op" where
  "h_batch_get_issues issueIds view =
     sbind (slift (parse_view view)) (\<lambda>resolved_view.
     sbind (slift (rmap (\<lambda>i. parse_id64 (PStr i) ''issueIds'') issueIds)) (\<lambda>ids.
     sbind (drive (batch_get_issues ids)) (\<lambda>issues.
     sbind (slift (rmap (\<lambda>i. issue_json i resolved_view) issues)) (\<lambda>rows.
       sret (PDict [(''issues'', PList rows)])))))"

definition h_get_issue :: "string \<Rightarrow> string option \<Rightarrow> pyval tracker_op" where
  "h_get_issue issue_id view =
     sbind (slift (parse_view view)) (\<lambda>resolved_view.
     sbind (slift (issue_path_id issue_id)) (\<lambda>iid.
     sbind (drive (get_issue iid)) (\<lambda>r.
     sbind (require r (''issue '' @ str_int iid)) (\<lambda>i.
       slift (issue_json i resolved_view)))))"

definition h_create_issue :: "py_exn + pyval \<Rightarrow> pyval tracker_op" where
  "h_create_issue raw =
     sbind (slift (json_body raw [''issue'', ''templateOptions''])) (\<lambda>body.
     sbind (slift (tracker_parse_create body)) (\<lambda>req.
     sbind (drive (create_issue req)) (\<lambda>i.
       slift (issue_json i VIEW_FULL))))"

definition h_modify_issue :: "string \<Rightarrow> py_exn + pyval \<Rightarrow> pyval tracker_op" where
  "h_modify_issue issue_id raw =
     sbind (slift (issue_path_id issue_id)) (\<lambda>iid.
     sbind (slift (json_body raw [''add'', ''addMask'', ''remove'', ''removeMask'', ''issueComment''])) (\<lambda>body.
     sbind (slift (parse_modify body)) (\<lambda>req.
     sbind (drive (modify_issue iid req)) (\<lambda>r.
     sbind (require r (''issue '' @ str_int iid)) (\<lambda>i.
       slift (issue_json i VIEW_FULL))))))"

definition opt_str :: "string option \<Rightarrow> pyval" where
  "opt_str v = (case v of None \<Rightarrow> PNone | Some s \<Rightarrow> PStr s)"

definition h_create_relationship :: "string \<Rightarrow> py_exn + pyval \<Rightarrow> string option \<Rightarrow> pyval tracker_op" where
  "h_create_relationship issue_id raw relationshipType =
     sbind (slift (issue_path_id issue_id)) (\<lambda>iid.
     sbind (slift (parse_enum (opt_str relationshipType) RELATIONSHIP_TYPES ''relationshipType'')) (\<lambda>ty.
     sbind (slift (json_body raw [''targetIssueId''])) (\<lambda>body.
     sbind (slift (parse_id64 (pget body ''targetIssueId'') ''targetIssueId'')) (\<lambda>target.
     sbind (drive (create_relationship iid \<lparr>rel_target = target, rel_type = ty\<rparr>)) (\<lambda>r.
     sbind (require r (''issue '' @ str_int iid)) (\<lambda>rel. sret (relationship_json rel)))))))"

definition h_list_relationships :: "string \<Rightarrow> string option \<Rightarrow> pyval tracker_op" where
  "h_list_relationships issue_id relationshipType =
     sbind (slift (issue_path_id issue_id)) (\<lambda>iid.
     sbind (slift (parse_enum (opt_str relationshipType) RELATIONSHIP_TYPES ''relationshipType'')) (\<lambda>ty.
     sbind (drive (list_relationships iid ty)) (\<lambda>r.
     sbind (require r (''issue '' @ str_int iid)) (\<lambda>rows.
       sret (PDict [(''issueRelationships'', PList (map relationship_json rows))])))))"

definition h_list_issue_updates :: "string \<Rightarrow> int option \<Rightarrow> string option \<Rightarrow> pyval tracker_op" where
  "h_list_issue_updates issue_id pageSize pageToken =
     sbind (slift (issue_path_id issue_id)) (\<lambda>iid.
     sbind (slift (mk_page pageSize pageToken)) (\<lambda>pg.
     sbind (drive (list_issue_updates iid pg)) (\<lambda>r.
     sbind (require r (''issue '' @ str_int iid)) (\<lambda>result.
     sbind (slift (rmap update_json (upg_updates result))) (\<lambda>rows.
       sret (with_token [(''issueUpdates'', PList rows), (''totalSize'', PInt (int (upg_total result)))]
               (upg_next result)))))))"

definition comment_body :: "py_exn + pyval \<Rightarrow> tracker_exn + string" where
  "comment_body raw =
     rbind (json_body raw [''comment'']) (\<lambda>body.
       case pget body ''comment'' of
         PStr (c # cs) \<Rightarrow> Inr (c # cs)
       | _ \<Rightarrow> Inl (invalid ''comment must be a non-empty string''))"

definition h_create_comment :: "string \<Rightarrow> py_exn + pyval \<Rightarrow> pyval tracker_op" where
  "h_create_comment issue_id raw =
     sbind (slift (issue_path_id issue_id)) (\<lambda>iid.
     sbind (slift (comment_body raw)) (\<lambda>txt.
     sbind (drive (create_comment iid txt)) (\<lambda>r.
     sbind (require r (''issue '' @ str_int iid)) (\<lambda>c. sret (comment_json c)))))"

definition h_list_comments :: "string \<Rightarrow> int option \<Rightarrow> string option \<Rightarrow> pyval tracker_op" where
  "h_list_comments issue_id pageSize pageToken =
     sbind (slift (issue_path_id issue_id)) (\<lambda>iid.
     sbind (slift (mk_page pageSize pageToken)) (\<lambda>pg.
     sbind (drive (list_comments iid pg)) (\<lambda>r.
     sbind (require r (''issue '' @ str_int iid)) (\<lambda>result.
       sret (with_token [(''issueComments'', PList (map comment_json (cp_comments result))),
                         (''totalSize'', PInt (int (cp_total result)))] (cp_next result))))))"

definition h_update_comment :: "string \<Rightarrow> int \<Rightarrow> py_exn + pyval \<Rightarrow> pyval tracker_op" where
  "h_update_comment issue_id comment_number raw =
     sbind (slift (issue_path_id issue_id)) (\<lambda>iid.
     sbind (slift (comment_body raw)) (\<lambda>txt.
     sbind (drive (update_comment iid comment_number txt)) (\<lambda>r.
     sbind (require r (''comment '' @ str_int comment_number @ '' on issue '' @ str_int iid)) (\<lambda>c.
       sret (comment_json c)))))"

definition h_list_attachments :: "string \<Rightarrow> pyval tracker_op" where
  "h_list_attachments issue_id =
     sbind (slift (issue_path_id issue_id)) (\<lambda>iid.
     sbind (drive (list_attachments iid)) (\<lambda>r.
     sbind (require r (''issue '' @ str_int iid)) (\<lambda>rows.
       sret (PDict [(''attachments'', PList (map attachment_json rows))]))))"

definition h_create_hotlist_entry :: "string \<Rightarrow> py_exn + pyval \<Rightarrow> pyval tracker_op" where
  "h_create_hotlist_entry hotlist_id raw =
     sbind (slift (parse_id64 (PStr hotlist_id) ''hotlistId'')) (\<lambda>hid.
     sbind (slift (json_body raw [''issueId'', ''position''])) (\<lambda>body.
     sbind (slift (parse_id64 (pget body ''issueId'') ''hotlistEntry.issueId'')) (\<lambda>iid.
     sbind (slift (case dict_get_or body ''position'' (PInt 0) of
                     PInt p \<Rightarrow> if p < 0 then Inl (invalid ''hotlistEntry.position must be a non-negative integer'')
                              else Inr p
                   | _ \<Rightarrow> Inl (invalid ''hotlistEntry.position must be a non-negative integer''))) (\<lambda>position.
     sbind (drive (create_hotlist_entry \<lparr>he_hotlist = hid, he_issue = iid, he_position = position\<rparr>)) (\<lambda>entry.
       sret (hotlist_entry_json entry))))))"

definition h_delete_hotlist_entry :: "string \<Rightarrow> string \<Rightarrow> pyval tracker_op" where
  "h_delete_hotlist_entry hotlist_id issue_id =
     sbind (slift (parse_id64 (PStr hotlist_id) ''hotlistId'')) (\<lambda>hid.
     sbind (slift (issue_path_id issue_id)) (\<lambda>iid.
     sbind (drive (delete_hotlist_entry hid iid)) (\<lambda>deleted.
       if \<not> deleted
       then sraise (TrackerApiError T_NOT_FOUND (''issue '' @ str_int iid @ '' is not on hotlist '' @ str_int hid))
       else sret (PDict []))))"

text \<open>\<open>re.match(r"v1/(issues|components|hotlists)(/|$|:)", path)\<close>.\<close>

definition in_layout :: "string \<Rightarrow> bool" where
  "in_layout path \<longleftrightarrow>
     list_ex (\<lambda>p. prefix p path \<and>
         (case drop (length p) path of
            [] \<Rightarrow> True
          | c # cs \<Rightarrow> c = CHR ''/'' \<or> c = CHR '':'' \<or> (c = ch_newline \<and> cs = [])))
       [''v1/issues'', ''v1/components'', ''v1/hotlists'']"

definition h_unmatched :: "string \<Rightarrow> pyval tracker_op" where
  "h_unmatched path =
     (if in_layout path
      then sraise (TrackerApiError T_UNIMPLEMENTED (''not implemented by this subset: /'' @ path))
      else sraise (TrackerApiError T_NOT_FOUND (''no such route: /'' @ path)))"

section \<open>Requests and the service as a whole\<close>

text \<open>One constructor per route, with what FastAPI extracts for it.\<close>

datatype tracker_request =
  GetComponent string
| ListIssues "string option" "string option" "int option" "string option" "string option"
| BatchGetIssues "string list" "string option"
| GetIssue string "string option"
| CreateIssue "py_exn + pyval"
| ModifyIssue string "py_exn + pyval"
| CreateRelationship string "py_exn + pyval" "string option"
| ListRelationships string "string option"
| ListIssueUpdates string "int option" "string option"
| CreateComment string "py_exn + pyval"
| ListComments string "int option" "string option"
| UpdateComment string int "py_exn + pyval"
| ListAttachments string
| CreateHotlistEntry string "py_exn + pyval"
| DeleteHotlistEntry string string
| Unmatched string
| Malformed string \<comment> \<open>FastAPI's own parameter validation refused the request\<close>

primrec tracker_handle :: "tracker_request \<Rightarrow> pyval tracker_op" where
  "tracker_handle (GetComponent c) = h_get_component c"
| "tracker_handle (ListIssues q ob ps pt v) = h_list_issues q ob ps pt v"
| "tracker_handle (BatchGetIssues ids v) = h_batch_get_issues ids v"
| "tracker_handle (GetIssue i v) = h_get_issue i v"
| "tracker_handle (CreateIssue b) = h_create_issue b"
| "tracker_handle (ModifyIssue i b) = h_modify_issue i b"
| "tracker_handle (CreateRelationship i b t) = h_create_relationship i b t"
| "tracker_handle (ListRelationships i t) = h_list_relationships i t"
| "tracker_handle (ListIssueUpdates i ps pt) = h_list_issue_updates i ps pt"
| "tracker_handle (CreateComment i b) = h_create_comment i b"
| "tracker_handle (ListComments i ps pt) = h_list_comments i ps pt"
| "tracker_handle (UpdateComment i n b) = h_update_comment i n b"
| "tracker_handle (ListAttachments i) = h_list_attachments i"
| "tracker_handle (CreateHotlistEntry h b) = h_create_hotlist_entry h b"
| "tracker_handle (DeleteHotlistEntry h i) = h_delete_hotlist_entry h i"
| "tracker_handle (Unmatched p) = h_unmatched p"
| "tracker_handle (Malformed loc) = sraise (RequestValidationError loc)"

definition tracker_serve :: "tracker_request \<Rightarrow> tracker \<Rightarrow> http_response \<times> tracker" where
  "tracker_serve = serve_with tracker_handle tracker_route"

definition tracker_run :: "tracker_request list \<Rightarrow> tracker \<Rightarrow> http_response list \<times> tracker" where
  "tracker_run = run_with tracker_handle tracker_route"

section \<open>Construction\<close>

record tracker_settings =
  ts_driver :: string
  ts_identity :: string
  ts_forward_headers :: "string list"
  ts_components :: "int list"
  ts_issues :: "seed_issue list"

definition seed_valid :: "seed_issue \<Rightarrow> bool" where
  "seed_valid row \<longleftrightarrow>
     si_status row \<in> set STATUSES \<and> si_type row \<in> set TYPES \<and>
     si_priority row \<in> set PRIORITIES \<and> si_severity row \<in> set SEVERITIES"

definition IssueTrackerModule :: "tracker_settings \<Rightarrow> (nat \<Rightarrow> int) \<Rightarrow> tracker_exn + tracker" where
  "IssueTrackerModule cfg clock =
     (if ts_driver cfg \<noteq> ''mock'' then Inl (PyExn ValueError)
      else if \<not> list_all seed_valid (ts_issues cfg) then Inl (PyExn ValueError)
      else MockIssueTrackerDriver (ts_identity cfg) clock (ts_components cfg) (ts_issues cfg))"

text \<open>
  \<open>_ForwardingRoute\<close>: the context variable holds exactly the configured headers the request
  carries while the handler runs, and its old value afterwards.
\<close>

fun select_headers :: "string list \<Rightarrow> (string \<Rightarrow> string option) \<Rightarrow> (string, string) dict" where
  "select_headers [] hdr = []"
| "select_headers (n # ns) hdr =
     (case hdr n of
        None \<Rightarrow> select_headers ns hdr
      | Some v \<Rightarrow> (if dict_in n (select_headers ns hdr) then select_headers ns hdr
                   else (n, v) # select_headers ns hdr))"

definition forwarding_route ::
    "string list \<Rightarrow> (string \<Rightarrow> string option) \<Rightarrow> ((string, string) dict \<Rightarrow> 'r) \<Rightarrow>
     (string, string) dict \<Rightarrow> 'r \<times> (string, string) dict" where
  "forwarding_route forward_headers hdr handler ctx =
     (let names = map py_lower forward_headers; selected = select_headers names hdr
      in (handler selected, ctx))"

end
