(* ===== verification/Tracker_Invariant.thy ===== *)
theory Tracker_Invariant
  imports Tracker_Surface
begin

text \<open>
  The well-formedness of the issue tracker's state (\<open>tracker_inv\<close>) and that every driver operation
  keeps it, whatever the wall clock does and also when the operation raises half way.
\<close>

section \<open>The invariant\<close>

definition is_FStr :: "fval \<Rightarrow> bool" where
  "is_FStr v = (case v of FStr _ \<Rightarrow> True | _ \<Rightarrow> False)"

definition is_FInt :: "fval \<Rightarrow> bool" where
  "is_FInt v = (case v of FInt _ \<Rightarrow> True | _ \<Rightarrow> False)"

text \<open>The values each scalar field and each element of a collection may take.\<close>

primrec scalar_ok :: "scalar_field \<Rightarrow> string \<Rightarrow> bool" where
  "scalar_ok SF_status v = (v \<in> set STATUSES)"
| "scalar_ok SF_priority v = (v \<in> set PRIORITIES)"
| "scalar_ok SF_severity v = (v \<in> set SEVERITIES)"
| "scalar_ok SF_title v = True"
| "scalar_ok SF_type v = (v \<in> set TYPES)"
| "scalar_ok SF_assignee v = True"
| "scalar_ok SF_verifier v = True"

primrec elem_ok :: "coll_field \<Rightarrow> fval \<Rightarrow> bool" where
  "elem_ok CF_ccs v = is_FStr v"
| "elem_ok CF_hotlists v = is_FInt v"
| "elem_ok CF_blocked_by v = is_FInt v"

definition coll_ok :: "coll_field \<Rightarrow> fval list \<Rightarrow> bool" where
  "coll_ok f vs \<longleftrightarrow> distinct vs \<and> list_all (elem_ok f) vs"

definition issue_typed :: "issue \<Rightarrow> bool" where
  "issue_typed i \<longleftrightarrow> (\<forall>f. scalar_ok f (get_scalar f i)) \<and> (\<forall>f. coll_ok f (get_coll f i))"

text \<open>Comments are numbered from one without gaps, and comment one is the description.\<close>

definition comments_ok :: "int \<Rightarrow> string \<Rightarrow> tcomment list \<Rightarrow> bool" where
  "comments_ok iid descr cs \<longleftrightarrow>
     cs \<noteq> [] \<and> map cm_number cs = [1..<Suc (length cs)] \<and>
     list_all (\<lambda>c. cm_issue c = iid) cs \<and> cm_text (hd cs) = descr"

text \<open>The history is strictly ordered in time, lies within the issue's life, and has no empty entry.\<close>

definition updates_ok :: "int \<Rightarrow> int \<Rightarrow> nat \<Rightarrow> issue_update list \<Rightarrow> bool" where
  "updates_ok created modified ncomments us \<longleftrightarrow>
     sorted_wrt (<) (map up_timestamp us) \<and>
     list_all (\<lambda>u. created < up_timestamp u \<and> up_timestamp u \<le> modified \<and>
       (up_changes u \<noteq> [] \<or> up_comment_number u \<noteq> 0) \<and> up_comment_number u \<le> ncomments) us"

definition rels_ok :: "tracker \<Rightarrow> relationship list \<Rightarrow> bool" where
  "rels_ok s rows \<longleftrightarrow>
     distinct (map (\<lambda>r. (rel_target r, rel_type r)) rows) \<and>
     list_all (\<lambda>r. dict_in (rel_target r) (tr_issues s) \<and> rel_type r \<in> set RELATIONSHIP_TYPES) rows"

definition cell_ok :: "tracker \<Rightarrow> int \<Rightarrow> issue \<Rightarrow> bool" where
  "cell_ok s iid iss \<longleftrightarrow>
     iss_id iss = iid \<and> ID_BASE < iid \<and> iid < tr_counter s \<and>
     dict_in (iss_component iss) (tr_components s) \<and> issue_typed iss \<and>
     iss_created iss \<le> iss_modified iss \<and>
     (\<exists>cs us. dict_get (tr_comments s) iid = Some cs \<and> dict_get (tr_updates s) iid = Some us \<and>
        comments_ok iid (iss_description iss) cs \<and>
        updates_ok (iss_created iss) (iss_modified iss) (length cs) us)"

definition tracker_inv :: "tracker \<Rightarrow> bool" where
  "tracker_inv s \<longleftrightarrow>
     distinct (dict_keys (tr_issues s)) \<and> ID_BASE < tr_counter s \<and>
     (\<forall>iid iss. dict_get (tr_issues s) iid = Some iss \<longrightarrow> cell_ok s iid iss) \<and>
     (\<forall>iid rows. dict_get (tr_relationships s) iid = Some rows \<longrightarrow> rels_ok s rows)"

section \<open>Local changes\<close>

lemma get_set_scalar [simp]:
  "get_scalar f (set_scalar g v i) = (if f = g then v else get_scalar f i)"
  by (cases f; cases g) simp_all

lemma get_set_coll [simp]:
  "get_coll f (set_coll g v i) = (if f = g then v else get_coll f i)"
  by (cases f; cases g) simp_all

lemma get_scalar_set_coll [simp]: "get_scalar f (set_coll g v i) = get_scalar f i"
  by (cases f; cases g) simp_all

lemma get_coll_set_scalar [simp]: "get_coll f (set_scalar g v i) = get_coll f i"
  by (cases f; cases g) simp_all

lemma get_upd [simp]:
  "get_scalar f (i\<lparr>iss_modified := t\<rparr>) = get_scalar f i"
  "get_coll g (i\<lparr>iss_modified := t\<rparr>) = get_coll g i"
  "get_scalar f (i\<lparr>iss_description := d\<rparr>) = get_scalar f i"
  "get_coll g (i\<lparr>iss_description := d\<rparr>) = get_coll g i"
  by (cases f; simp; fail | cases g; simp; fail)+

text \<open>What no edit of a field touches.\<close>

definition frame :: "issue \<Rightarrow> int \<times> int \<times> string \<times> int \<times> int \<times> string" where
  "frame i = (iss_id i, iss_component i, iss_reporter i, iss_created i, iss_modified i, iss_description i)"

lemma frame_set [simp]: "frame (set_scalar f v i) = frame i" "frame (set_coll g w i) = frame i"
  by (cases f; simp add: frame_def) (cases g; simp add: frame_def)

lemma cell_ok_frame:
  "cell_ok s iid iss \<Longrightarrow> frame iss' = frame iss \<Longrightarrow> issue_typed iss' \<Longrightarrow> cell_ok s iid iss'"
  by (simp add: cell_ok_def frame_def)

lemma issue_typed_set_scalar: "issue_typed i \<Longrightarrow> scalar_ok f v \<Longrightarrow> issue_typed (set_scalar f v i)"
  by (simp add: issue_typed_def)

lemma issue_typed_set_coll: "issue_typed i \<Longrightarrow> coll_ok f vs \<Longrightarrow> issue_typed (set_coll f vs i)"
  by (simp add: issue_typed_def)

lemma issue_typed_upd [simp]:
  "issue_typed (i\<lparr>iss_modified := t\<rparr>) = issue_typed i"
  "issue_typed (i\<lparr>iss_description := d\<rparr>) = issue_typed i"
  by (simp_all add: issue_typed_def)

lemma coll_ok_append: "coll_ok f vs \<Longrightarrow> v \<notin> set vs \<Longrightarrow> elem_ok f v \<Longrightarrow> coll_ok f (vs @ [v])"
  by (simp add: coll_ok_def)

lemma coll_ok_remove1: "coll_ok f vs \<Longrightarrow> coll_ok f (remove1 v vs)"
  by (auto simp: coll_ok_def list_all_iff dest: notin_set_remove1)

lemma updates_ok_later:
  "updates_ok c m n us \<Longrightarrow> m \<le> m' \<Longrightarrow> n \<le> n' \<Longrightarrow> updates_ok c m' n' us"
  by (auto simp: updates_ok_def list_all_iff)

lemma updates_ok_append:
  assumes "updates_ok c m n us" and "m < m'" and "c \<le> m"
    and "up_timestamp u = m'" and "up_changes u \<noteq> [] \<or> up_comment_number u \<noteq> 0"
    and "up_comment_number u \<le> n"
  shows "updates_ok c m' n (us @ [u])"
  using assms by (force simp: updates_ok_def list_all_iff sorted_wrt_append)

lemma comments_ok_append:
  "comments_ok iid d cs \<Longrightarrow> cm_issue c = iid \<Longrightarrow> cm_number c = Suc (length cs) \<Longrightarrow>
   comments_ok iid d (cs @ [c])"
  by (auto simp: comments_ok_def)

lemma comments_ok_nth:
  assumes "comments_ok iid d cs" and "k < length cs"
  shows "cm_number (cs ! k) = Suc k" and "cm_issue (cs ! k) = iid"
proof -
  from assms have "map cm_number cs ! k = [1..<Suc (length cs)] ! k" by (simp add: comments_ok_def)
  with assms(2) show "cm_number (cs ! k) = Suc k" by (simp del: upt_Suc)
  from assms show "cm_issue (cs ! k) = iid" by (simp add: comments_ok_def list_all_iff)
qed

lemma comments_ok_update:
  assumes "comments_ok iid d cs" and "k < length cs"
  shows "comments_ok iid (if k = 0 then txt else d) (cs[k := (cs ! k)\<lparr>cm_text := txt\<rparr>])"
proof -
  have "map cm_number (cs[k := (cs ! k)\<lparr>cm_text := txt\<rparr>]) = map cm_number cs"
    by (simp add: map_update) (metis assms(2) list_update_id nth_map)
  moreover have "list_all (\<lambda>c. cm_issue c = iid) (cs[k := (cs ! k)\<lparr>cm_text := txt\<rparr>])"
    using assms by (auto simp: comments_ok_def list_all_iff dest!: set_update_subset_insert [THEN subsetD])
  moreover have "cm_text (hd (cs[k := (cs ! k)\<lparr>cm_text := txt\<rparr>])) = (if k = 0 then txt else d)"
    using assms by (cases cs; cases k) (auto simp: comments_ok_def)
  ultimately show ?thesis using assms by (simp add: comments_ok_def)
qed

section \<open>The frame rule\<close>

lemma cell_ok_cong:
  assumes "cell_ok s j iss" and "tr_counter s \<le> tr_counter s'"
    and "\<And>c. dict_in c (tr_components s) \<Longrightarrow> dict_in c (tr_components s')"
    and "dict_get (tr_comments s') j = dict_get (tr_comments s) j"
    and "dict_get (tr_updates s') j = dict_get (tr_updates s) j"
  shows "cell_ok s' j iss"
  using assms by (auto simp: cell_ok_def)

text \<open>A state that differs at one issue keeps the invariant when that issue's cell is well formed.\<close>

lemma tracker_inv_at:
  assumes inv: "tracker_inv s"
    and iss: "tr_issues s' = dict_set iid iss' (tr_issues s)"
    and cnt: "tr_counter s \<le> tr_counter s'" and comps: "tr_components s' = tr_components s"
    and other: "\<And>j. j \<noteq> iid \<Longrightarrow> dict_get (tr_comments s') j = dict_get (tr_comments s) j"
      "\<And>j. j \<noteq> iid \<Longrightarrow> dict_get (tr_updates s') j = dict_get (tr_updates s) j"
    and cell: "cell_ok s' iid iss'"
    and rels: "\<And>j rows. dict_get (tr_relationships s') j = Some rows \<Longrightarrow> rels_ok s rows"
  shows "tracker_inv s'"
proof -
  have "cell_ok s' j i" if "dict_get (tr_issues s') j = Some i" for j i
  proof (cases "j = iid")
    case True
    with that cell show ?thesis by (simp add: iss)
  next
    case False
    with that have "cell_ok s j i" using inv by (simp add: iss tracker_inv_def)
    then show ?thesis by (rule cell_ok_cong) (simp_all add: cnt comps other False)
  qed
  moreover have "rels_ok s' rows" if "dict_get (tr_relationships s') j = Some rows" for j rows
    using rels [OF that] by (auto simp: rels_ok_def iss dict_in_def list_all_iff)
  ultimately show ?thesis
    using inv cnt by (simp add: tracker_inv_def iss distinct_update)
qed

lemma inv_cell: "tracker_inv s \<Longrightarrow> dict_get (tr_issues s) iid = Some iss \<Longrightarrow> cell_ok s iid iss"
  by (simp add: tracker_inv_def)

lemma inv_rels: "tracker_inv s \<Longrightarrow> dict_get (tr_relationships s) j = Some rows \<Longrightarrow> rels_ok s rows"
  by (simp add: tracker_inv_def)

lemma put_issue_inv:
  assumes "tracker_inv s" and "cell_ok s iid iss'"
  shows "tracker_inv (put_issue iid iss' s)"
proof (rule tracker_inv_at [OF assms(1)])
  show "cell_ok (put_issue iid iss' s) iid iss'"
    using assms(2) by (simp add: cell_ok_def put_issue_def)
qed (auto simp: put_issue_def intro: inv_rels [OF assms(1)])

lemma reads_inv [simp]: "tracker_inv (s\<lparr>tr_reads := n\<rparr>) = tracker_inv s"
  by (simp add: tracker_inv_def cell_ok_def rels_ok_def)

lemma reads_cell [simp]: "cell_ok (s\<lparr>tr_reads := n\<rparr>) = cell_ok s"
  by (simp add: cell_ok_def fun_eq_iff)


section \<open>Touching\<close>

definition touched :: "int \<Rightarrow> issue \<Rightarrow> issue" where
  "touched now iss = iss\<lparr>iss_modified := max now (plus_microsecond (iss_modified iss))\<rparr>"

lemma touch_eq:
  "touch iid iss s =
     (let iss' = touched (tr_clock s (tr_reads s)) iss
      in (Inr iss', put_issue iid iss' (s\<lparr>tr_reads := Suc (tr_reads s)\<rparr>)))"
  by (simp add: touch_def read_clock_def touched_def Let_def sbind_def)

lemma touched_simps [simp]:
  "iss_id (touched now iss) = iss_id iss" "iss_component (touched now iss) = iss_component iss"
  "iss_created (touched now iss) = iss_created iss" "iss_reporter (touched now iss) = iss_reporter iss"
  "iss_description (touched now iss) = iss_description iss"
  "get_scalar f (touched now iss) = get_scalar f iss" "get_coll g (touched now iss) = get_coll g iss"
  by (simp_all add: touched_def)

lemma touched_later: "iss_modified iss < iss_modified (touched now iss)"
  by (simp add: touched_def plus_microsecond_def)

lemma issue_typed_touched [simp]: "issue_typed (touched now iss) = issue_typed iss"
  by (simp add: issue_typed_def)

lemma cell_ok_touched: "cell_ok s iid iss \<Longrightarrow> cell_ok s iid (touched now iss)"
  using touched_later [of iss now] updates_ok_later [of "iss_created iss" "iss_modified iss"]
  by (simp add: cell_ok_def) (meson less_imp_le order_refl order_trans)

section \<open>Every operation keeps the invariant\<close>

text \<open>
  While an operation works on an issue, the state holds the issue at hand: \<open>holds iid iss s\<close>.
\<close>

definition holds :: "int \<Rightarrow> issue \<Rightarrow> tracker \<Rightarrow> bool" where
  "holds iid iss s \<longleftrightarrow> tracker_inv s \<and> dict_get (tr_issues s) iid = Some iss"

lemma holds_put: "holds iid iss s \<Longrightarrow> cell_ok s iid iss' \<Longrightarrow> holds iid iss' (put_issue iid iss' s)"
  by (simp add: holds_def put_issue_inv) (simp add: put_issue_def)

lemma holds_cell: "holds iid iss s \<Longrightarrow> cell_ok s iid iss"
  by (simp add: holds_def inv_cell)

lemma holds_touch:
  assumes "holds iid iss s"
  shows "\<exists>now s'. touch iid iss s = (Inr (touched now iss), s') \<and> holds iid (touched now iss) s' \<and>
    s' = (put_issue iid (touched now iss) s)\<lparr>tr_reads := Suc (tr_reads s)\<rparr>"
proof -
  let ?s = "s\<lparr>tr_reads := Suc (tr_reads s)\<rparr>" and ?now = "tr_clock s (tr_reads s)"
  have "holds iid iss ?s" using assms by (simp add: holds_def)
  then have "holds iid (touched ?now iss) (put_issue iid (touched ?now iss) ?s)"
    by (rule holds_put) (simp add: cell_ok_touched holds_cell assms)
  moreover have "put_issue iid (touched ?now iss) ?s =
      (put_issue iid (touched ?now iss) s)\<lparr>tr_reads := Suc (tr_reads s)\<rparr>"
    by (simp add: put_issue_def)
  ultimately show ?thesis by (auto simp: touch_eq Let_def)
qed

text \<open>A request is typed: what the parsers guarantee of a modify.\<close>

definition sets_typed :: "(string \<times> string) list \<Rightarrow> bool" where
  "sets_typed sets \<longleftrightarrow>
     list_all (\<lambda>(f, v). \<exists>a. map_of SCALAR_FIELDS f = Some a \<and> scalar_ok a v) sets"

definition deltas_typed :: "(string \<times> fval list) list \<Rightarrow> bool" where
  "deltas_typed ds \<longleftrightarrow>
     list_all (\<lambda>(f, vs). \<exists>a. map_of COLLECTION_FIELDS f = Some a \<and> list_all (elem_ok a) vs) ds"

lemma holds_frame:
  "holds iid iss s \<Longrightarrow> frame iss' = frame iss \<Longrightarrow> issue_typed iss' \<Longrightarrow> holds iid iss' (put_issue iid iss' s)"
  by (blast intro: holds_put cell_ok_frame holds_cell)

lemma holds_typed: "holds iid iss s \<Longrightarrow> issue_typed iss"
  by (auto dest!: holds_cell simp: cell_ok_def)

lemma holds_coll_ok: "holds iid iss s \<Longrightarrow> coll_ok f (get_coll f iss)"
  by (auto dest!: holds_typed simp: issue_typed_def)

section \<open>Specification of a modify\<close>

text \<open>
  What the masked edits of a request mean for an issue, without the change log and the state:
  each scalar takes its value, each collection is edited as a set that keeps insertion order.
\<close>

fun spec_sets :: "(string \<times> string) list \<Rightarrow> issue \<Rightarrow> issue" where
  "spec_sets [] i = i"
| "spec_sets ((f, v) # rest) i =
     spec_sets rest (case map_of SCALAR_FIELDS f of None \<Rightarrow> i | Some a \<Rightarrow> set_scalar a v i)"

definition edit_coll :: "bool \<Rightarrow> fval \<Rightarrow> fval list \<Rightarrow> fval list" where
  "edit_coll removing v xs =
     (if removing then remove1 v xs else if v \<in> set xs then xs else xs @ [v])"

definition spec_values :: "coll_field \<Rightarrow> bool \<Rightarrow> fval list \<Rightarrow> issue \<Rightarrow> issue" where
  "spec_values a removing vs i = set_coll a (fold (edit_coll removing) vs (get_coll a i)) i"

fun spec_deltas :: "bool \<Rightarrow> (string \<times> fval list) list \<Rightarrow> issue \<Rightarrow> issue" where
  "spec_deltas removing [] i = i"
| "spec_deltas removing ((f, vs) # rest) i =
     spec_deltas removing rest
       (case map_of COLLECTION_FIELDS f of None \<Rightarrow> i | Some a \<Rightarrow> spec_values a removing vs i)"

definition spec_modify :: "issue_modify \<Rightarrow> issue \<Rightarrow> issue" where
  "spec_modify req i =
     spec_deltas True (im_remove req) (spec_deltas False (im_add req) (spec_sets (im_sets req) i))"

text \<open>What a change log says happened to an issue.\<close>

definition replay1 :: "field_change \<Rightarrow> issue \<Rightarrow> issue" where
  "replay1 ch i =
     (case (map_of SCALAR_FIELDS (fc_field ch), map_of COLLECTION_FIELDS (fc_field ch), fc_old ch, fc_new ch) of
        (Some a, _, _, Some (FStr v)) \<Rightarrow> set_scalar a v i
      | (None, Some a, Some v, None) \<Rightarrow> set_coll a (remove1 v (get_coll a i)) i
      | (None, Some a, None, Some v) \<Rightarrow> set_coll a (get_coll a i @ [v]) i
      | _ \<Rightarrow> i)"

definition replay :: "field_change list \<Rightarrow> issue \<Rightarrow> issue" where
  "replay chs i = fold replay1 chs i"

lemma set_scalar_same [simp]: "set_scalar f (get_scalar f i) i = i"
  by (cases f) simp_all

lemma set_coll_same [simp]: "set_coll f (get_coll f i) i = i"
  by (cases f) simp_all

lemma set_coll_twice [simp]: "set_coll f v (set_coll f w i) = set_coll f v i"
  by (cases f) simp_all

lemma put_issue_same: "dict_get (tr_issues s) iid = Some iss \<Longrightarrow> put_issue iid iss s = s"
  by (simp add: put_issue_def dict_set_same)

lemma put_issue_twice [simp]: "put_issue iid i2 (put_issue iid i1 s) = put_issue iid i2 s"
  by (simp add: put_issue_def update_last)

lemma put_issue_get [simp]:
  "dict_get (tr_issues (put_issue iid i s)) j = (if j = iid then Some i else dict_get (tr_issues s) j)"
  by (simp add: put_issue_def)

lemma scalar_not_coll: "map_of SCALAR_FIELDS f = Some a \<Longrightarrow> map_of COLLECTION_FIELDS f = None"
  by (auto simp: SCALAR_FIELDS_def COLLECTION_FIELDS_def split: if_splits)

lemma coll_not_scalar: "map_of COLLECTION_FIELDS f = Some a \<Longrightarrow> map_of SCALAR_FIELDS f = None"
  by (auto simp: SCALAR_FIELDS_def COLLECTION_FIELDS_def split: if_splits)


lemma replay_append [simp]: "replay (xs @ ys) i = replay ys (replay xs i)"
  by (simp add: replay_def)

lemma replay_Nil [simp]: "replay [] i = i"
  by (simp add: replay_def)

lemma replay_Cons [simp]: "replay (ch # chs) i = replay chs (replay1 ch i)"
  by (simp add: replay_def)

text \<open>
  On a typed request each loop of \<open>modify_issue\<close> does what the specification says, writes the issue
  back, and extends the change log by changes that replay to the same result.
\<close>

lemma apply_sets_spec:
  assumes "sets_typed sets" and "dict_get (tr_issues s) iid = Some iss"
  shows "\<exists>chs. apply_sets iid iss sets ch s =
      (Inr (spec_sets sets iss, ch @ chs), put_issue iid (spec_sets sets iss) s) \<and>
      replay chs iss = spec_sets sets iss"
  using assms
proof (induction sets arbitrary: iss ch s)
  case Nil
  then show ?case by (simp add: put_issue_same)
next
  case (Cons p rest)
  obtain f v where p: "p = (f, v)" by (cases p)
  with Cons.prems obtain a where a: "map_of SCALAR_FIELDS f = Some a" and r: "sets_typed rest"
    by (auto simp: sets_typed_def)
  let ?i = "set_scalar a v iss"
  show ?case
  proof (cases "get_scalar a iss = v")
    case True
    then have "?i = iss" by auto
    with Cons.IH [OF r Cons.prems(2)] True show ?thesis by (simp add: p a)
  next
    case False
    let ?ch = "\<lparr>fc_field = f, fc_old = Some (FStr (get_scalar a iss)), fc_new = Some (FStr v)\<rparr>"
    have "replay1 ?ch iss = ?i" by (simp add: replay1_def a scalar_not_coll [OF a])
    moreover obtain chs where "apply_sets iid ?i rest (ch @ [?ch]) (put_issue iid ?i s) =
      (Inr (spec_sets rest ?i, (ch @ [?ch]) @ chs), put_issue iid (spec_sets rest ?i) (put_issue iid ?i s))"
      "replay chs ?i = spec_sets rest ?i"
      using Cons.IH [OF r, of "put_issue iid ?i s" ?i "ch @ [?ch]"] by auto
    ultimately show ?thesis using False
      by (intro exI [of _ "?ch # chs"]) (simp add: p a sbind_def Let_def)
  qed
qed

lemma spec_values_Cons:
  "spec_values a removing (v # vs) i =
     spec_values a removing vs (set_coll a (edit_coll removing v (get_coll a i)) i)"
  by (simp add: spec_values_def)

lemma apply_values_spec:
  assumes "map_of COLLECTION_FIELDS f = Some a" and "dict_get (tr_issues s) iid = Some iss"
  shows "\<exists>chs. apply_values iid iss a f removing vs ch s =
      (Inr (spec_values a removing vs iss, ch @ chs), put_issue iid (spec_values a removing vs iss) s) \<and>
      replay chs iss = spec_values a removing vs iss"
  using assms(2)
proof (induction vs arbitrary: iss ch s)
  case Nil
  then show ?case by (simp add: put_issue_same spec_values_def)
next
  case (Cons v vs)
  let ?cur = "get_coll a iss"
  let ?i = "set_coll a (edit_coll removing v ?cur) iss"
  show ?case
  proof (cases "removing = (v \<in> set ?cur)")
    case False
    then have "edit_coll removing v ?cur = ?cur" by (auto simp: edit_coll_def remove1_idem)
    then have "?i = iss" by simp
    with Cons False show ?thesis by (auto simp: spec_values_Cons)
  next
    case True
    let ?ch = "\<lparr>fc_field = f, fc_old = (if removing then Some v else None),
                fc_new = (if removing then None else Some v)\<rparr>"
    have "replay1 ?ch iss = ?i"
      using True by (simp add: replay1_def assms(1) coll_not_scalar [OF assms(1)] edit_coll_def)
    moreover obtain chs where "apply_values iid ?i a f removing vs (ch @ [?ch]) (put_issue iid ?i s) =
      (Inr (spec_values a removing vs ?i, (ch @ [?ch]) @ chs), put_issue iid (spec_values a removing vs ?i) s)"
      "replay chs ?i = spec_values a removing vs ?i"
      using Cons.IH [of "put_issue iid ?i s" ?i "ch @ [?ch]"] by auto
    ultimately show ?thesis using True
      by (intro exI [of _ "?ch # chs"]) (auto simp: spec_values_Cons sbind_def edit_coll_def Let_def)
  qed
qed

lemma apply_deltas_spec:
  assumes "deltas_typed ds" and "dict_get (tr_issues s) iid = Some iss"
  shows "\<exists>chs. apply_deltas iid iss removing ds ch s =
      (Inr (spec_deltas removing ds iss, ch @ chs), put_issue iid (spec_deltas removing ds iss) s) \<and>
      replay chs iss = spec_deltas removing ds iss"
  using assms
proof (induction ds arbitrary: iss ch s)
  case Nil
  then show ?case by (simp add: put_issue_same)
next
  case (Cons p rest)
  obtain f vs where p: "p = (f, vs)" by (cases p)
  with Cons.prems obtain a where a: "map_of COLLECTION_FIELDS f = Some a" and r: "deltas_typed rest"
    by (auto simp: deltas_typed_def)
  let ?i = "spec_values a removing vs iss"
  obtain c1 where 1: "apply_values iid iss a f removing vs ch s = (Inr (?i, ch @ c1), put_issue iid ?i s)"
    "replay c1 iss = ?i" using apply_values_spec [OF a Cons.prems(2)] by blast
  obtain c2 where 2: "apply_deltas iid ?i removing rest (ch @ c1) (put_issue iid ?i s) =
      (Inr (spec_deltas removing rest ?i, (ch @ c1) @ c2), put_issue iid (spec_deltas removing rest ?i) s)"
    "replay c2 ?i = spec_deltas removing rest ?i"
    using Cons.IH [OF r, of "put_issue iid ?i s" ?i "ch @ c1"] by auto
  from 1 2 show ?case by (intro exI [of _ "c1 @ c2"]) (simp add: p a)
qed


lemma fold_edit_coll_ok:
  "coll_ok a xs \<Longrightarrow> removing \<or> list_all (elem_ok a) vs \<Longrightarrow> coll_ok a (fold (edit_coll removing) vs xs)"
  by (induction vs arbitrary: xs) (auto simp: edit_coll_def coll_ok_append coll_ok_remove1)

lemma spec_values_typed:
  "issue_typed i \<Longrightarrow> list_all (elem_ok a) vs \<Longrightarrow> issue_typed (spec_values a removing vs i)"
  by (simp add: spec_values_def issue_typed_def fold_edit_coll_ok)

lemma frame_spec_values [simp]: "frame (spec_values a removing vs i) = frame i"
  by (simp add: spec_values_def)

lemma spec_sets_typed:
  "sets_typed sets \<Longrightarrow> issue_typed i \<Longrightarrow> issue_typed (spec_sets sets i) \<and> frame (spec_sets sets i) = frame i"
  by (induction sets i rule: spec_sets.induct)
    (auto simp: sets_typed_def issue_typed_set_scalar split: option.splits)

lemma spec_deltas_typed:
  "deltas_typed ds \<Longrightarrow> issue_typed i \<Longrightarrow>
   issue_typed (spec_deltas removing ds i) \<and> frame (spec_deltas removing ds i) = frame i"
  by (induction removing ds i rule: spec_deltas.induct)
    (auto simp: deltas_typed_def spec_values_typed split: option.splits)

definition modify_typed :: "issue_modify \<Rightarrow> bool" where
  "modify_typed req \<longleftrightarrow>
     sets_typed (im_sets req) \<and> deltas_typed (im_add req) \<and> deltas_typed (im_remove req)"

lemma spec_modify_typed:
  "modify_typed req \<Longrightarrow> issue_typed i \<Longrightarrow>
   issue_typed (spec_modify req i) \<and> frame (spec_modify req i) = frame i"
  by (simp add: modify_typed_def spec_modify_def spec_sets_typed spec_deltas_typed)

section \<open>What an operation may do to the state\<close>

definition put_cell :: "int \<Rightarrow> issue \<Rightarrow> tcomment list \<Rightarrow> issue_update list \<Rightarrow> tracker \<Rightarrow> tracker" where
  "put_cell iid iss cs us s =
     s\<lparr>tr_issues := dict_set iid iss (tr_issues s), tr_comments := dict_set iid cs (tr_comments s),
       tr_updates := dict_set iid us (tr_updates s)\<rparr>"

text \<open>What a client can see of one issue, and of the whole state (the clock apart).\<close>

definition cell :: "tracker \<Rightarrow> int \<Rightarrow>
    issue option \<times> tcomment list option \<times> issue_update list option \<times> relationship list \<times> tattachment list" where
  "cell s iid =
     (dict_get (tr_issues s) iid, dict_get (tr_comments s) iid, dict_get (tr_updates s) iid,
      dict_get_or (tr_relationships s) iid [], dict_get_or (tr_attachments s) iid [])"

definition same_view :: "tracker \<Rightarrow> tracker \<Rightarrow> bool" where
  "same_view s s' \<longleftrightarrow>
     tr_components s' = tr_components s \<and> tr_counter s' = tr_counter s \<and>
     dict_keys (tr_issues s') = dict_keys (tr_issues s) \<and> (\<forall>iid. cell s' iid = cell s iid)"

text \<open>
  An issue never disappears, keeps its identity, component, reporter and creation time, and
  whatever else of it changes, its modification time moves forward.
\<close>

definition evolves :: "tracker \<Rightarrow> tracker \<Rightarrow> bool" where
  "evolves s s' \<longleftrightarrow>
     tr_components s' = tr_components s \<and> tr_identity s' = tr_identity s \<and>
     tr_counter s \<le> tr_counter s' \<and>
     (\<forall>iid iss. dict_get (tr_issues s) iid = Some iss \<longrightarrow>
        (\<exists>iss'. dict_get (tr_issues s') iid = Some iss' \<and> iss_id iss' = iss_id iss \<and>
           iss_component iss' = iss_component iss \<and> iss_reporter iss' = iss_reporter iss \<and>
           iss_created iss' = iss_created iss \<and>
           (cell s' iid = cell s iid \<or> iss_modified iss < iss_modified iss')))"

lemma evolves_refl [simp]: "evolves s s"
  by (simp add: evolves_def)

lemma same_view_refl [simp]: "same_view s s"
  by (simp add: same_view_def)

lemma cell_get: "cell s' iid = cell s iid \<Longrightarrow> dict_get (tr_issues s') iid = dict_get (tr_issues s) iid"
  by (simp add: cell_def)

lemma evolves_trans:
  assumes "evolves s1 s2" and "evolves s2 s3"
  shows "evolves s1 s3"
proof -
  have "\<exists>i3. dict_get (tr_issues s3) iid = Some i3 \<and> iss_id i3 = iss_id i1 \<and>
           iss_component i3 = iss_component i1 \<and> iss_reporter i3 = iss_reporter i1 \<and>
           iss_created i3 = iss_created i1 \<and> (cell s3 iid = cell s1 iid \<or> iss_modified i1 < iss_modified i3)"
    if i1: "dict_get (tr_issues s1) iid = Some i1" for iid i1
  proof -
    obtain i2 where 2: "dict_get (tr_issues s2) iid = Some i2" "iss_id i2 = iss_id i1"
        "iss_component i2 = iss_component i1" "iss_reporter i2 = iss_reporter i1"
        "iss_created i2 = iss_created i1" "cell s2 iid = cell s1 iid \<or> iss_modified i1 < iss_modified i2"
      using assms(1) i1 by (auto simp: evolves_def)
    moreover obtain i3 where 3: "dict_get (tr_issues s3) iid = Some i3" "iss_id i3 = iss_id i2"
        "iss_component i3 = iss_component i2" "iss_reporter i3 = iss_reporter i2"
        "iss_created i3 = iss_created i2" "cell s3 iid = cell s2 iid \<or> iss_modified i2 < iss_modified i3"
      using assms(2) 2(1) by (auto simp: evolves_def)
    moreover have "cell s3 iid = cell s2 iid \<Longrightarrow> i3 = i2" "cell s2 iid = cell s1 iid \<Longrightarrow> i2 = i1"
      using i1 2(1) 3(1) by (simp_all add: cell_def)
    ultimately show ?thesis by (metis less_trans)
  qed
  with assms show ?thesis by (auto simp: evolves_def)
qed

text \<open>A change at one issue.\<close>

definition local_step :: "int \<Rightarrow> issue \<Rightarrow> issue \<Rightarrow> tcomment list \<Rightarrow> issue_update list \<Rightarrow> bool" where
  "local_step iid iss iss' cs' us' \<longleftrightarrow>
     iss_id iss' = iss_id iss \<and> iss_component iss' = iss_component iss \<and>
     iss_reporter iss' = iss_reporter iss \<and> iss_created iss' = iss_created iss \<and>
     iss_modified iss < iss_modified iss' \<and> issue_typed iss' \<and>
     comments_ok iid (iss_description iss') cs' \<and>
     updates_ok (iss_created iss) (iss_modified iss') (length cs') us'"

lemma local_step_inv:
  assumes "holds iid iss s" and "local_step iid iss iss' cs' us'"
    and "\<And>j rows. dict_get rels j = Some rows \<Longrightarrow> rels_ok s rows"
  shows "tracker_inv ((put_cell iid iss' cs' us' s)\<lparr>tr_relationships := rels, tr_reads := n\<rparr>)"
proof (rule tracker_inv_at)
  show "tracker_inv s" using assms(1) by (simp add: holds_def)
  show "cell_ok ((put_cell iid iss' cs' us' s)\<lparr>tr_relationships := rels, tr_reads := n\<rparr>) iid iss'"
    using holds_cell [OF assms(1)] assms(2) by (simp add: cell_ok_def put_cell_def local_step_def)
qed (auto simp: put_cell_def assms(3))

lemma local_step_evolves:
  assumes "holds iid iss s" and "local_step iid iss iss' cs' us'"
    and "\<And>j. j \<noteq> iid \<Longrightarrow> dict_get rels j = dict_get (tr_relationships s) j"
  shows "evolves s ((put_cell iid iss' cs' us' s)\<lparr>tr_relationships := rels, tr_reads := n\<rparr>)"
  using assms by (auto simp: evolves_def put_cell_def cell_def holds_def local_step_def dict_get_or_def)


section \<open>Effects of the operations\<close>

text \<open>
  \<open>op_good quiet m\<close>: from a well-formed state \<open>m\<close> ends in a well-formed state that evolved from it,
  and changed nothing a client can see when it raised or returned a \<open>quiet\<close> value.
\<close>

definition step_good :: "('a \<Rightarrow> bool) \<Rightarrow> tracker \<Rightarrow> (tracker_exn + 'a) \<times> tracker \<Rightarrow> bool" where
  "step_good quiet s p \<longleftrightarrow>
     tracker_inv (snd p) \<and> evolves s (snd p) \<and>
     (case fst p of Inl e \<Rightarrow> same_view s (snd p) | Inr x \<Rightarrow> quiet x \<longrightarrow> same_view s (snd p))"

definition op_good :: "('a \<Rightarrow> bool) \<Rightarrow> 'a tracker_op \<Rightarrow> bool" where
  "op_good quiet m \<longleftrightarrow> (\<forall>s. tracker_inv s \<longrightarrow> step_good quiet s (m s))"

lemma step_good_same: "tracker_inv s \<Longrightarrow> step_good quiet s (r, s)"
  by (simp add: step_good_def split: sum.splits)

lemma op_goodI: "(\<And>s. tracker_inv s \<Longrightarrow> step_good quiet s (m s)) \<Longrightarrow> op_good quiet m"
  by (simp add: op_good_def)

lemma op_good_read: "(\<And>s. snd (m s) = s) \<Longrightarrow> op_good quiet m"
  by (rule op_goodI) (metis prod.collapse step_good_same)

lemma step_good_local:
  assumes "holds iid iss s" and "local_step iid iss iss' cs' us'" and "\<not> quiet x"
  shows "step_good quiet s (Inr x, (put_cell iid iss' cs' us' s)\<lparr>tr_reads := n\<rparr>)"
proof -
  have eq: "(put_cell iid iss' cs' us' s)\<lparr>tr_reads := n\<rparr> =
      (put_cell iid iss' cs' us' s)\<lparr>tr_relationships := tr_relationships s, tr_reads := n\<rparr>"
    by (simp add: put_cell_def)
  have "tracker_inv s" using assms(1) by (simp add: holds_def)
  then show ?thesis
    unfolding step_good_def eq
    using local_step_inv [OF assms(1,2) inv_rels, of "tr_relationships s"]
      local_step_evolves [OF assms(1,2), of "tr_relationships s"] assms(3) by simp
qed

lemma holdsE:
  assumes "tracker_inv s" and "dict_get (tr_issues s) iid = Some iss"
  obtains cs us where "holds iid iss s" "dict_get (tr_comments s) iid = Some cs"
    "dict_get (tr_updates s) iid = Some us" "comments_ok iid (iss_description iss) cs"
    "updates_ok (iss_created iss) (iss_modified iss) (length cs) us" "issue_typed iss"
    "iss_created iss \<le> iss_modified iss"
  using assms inv_cell [OF assms] by (auto simp: holds_def cell_ok_def)

lemma create_comment_effect:
  assumes "dict_get (tr_issues s) iid = Some iss" and "dict_get (tr_comments s) iid = Some cs"
    and "dict_get (tr_updates s) iid = Some us"
  shows "create_comment iid txt s =
    (Inr (Some \<lparr>cm_issue = iid, cm_number = length cs + 1, cm_text = txt, cm_author = tr_identity s\<rparr>),
     (put_cell iid (touched (tr_clock s (tr_reads s)) iss)
        (cs @ [\<lparr>cm_issue = iid, cm_number = length cs + 1, cm_text = txt, cm_author = tr_identity s\<rparr>]) us s)
       \<lparr>tr_reads := Suc (tr_reads s)\<rparr>)"
  using assms by (simp add: create_comment_def sbind_def touch_eq Let_def put_cell_def put_issue_def dict_set_same)

text \<open>An edited issue that is then touched.\<close>

lemma local_step_touched:
  assumes "iss_id i1 = iss_id iss" "iss_component i1 = iss_component iss"
    "iss_reporter i1 = iss_reporter iss" "iss_created i1 = iss_created iss"
    "iss_modified i1 = iss_modified iss" "issue_typed i1"
    and "comments_ok iid (iss_description i1) cs'"
    and "updates_ok (iss_created iss) (iss_modified iss) n us" "n \<le> length cs'"
  shows "local_step iid iss (touched now i1) cs' us"
  using assms touched_later [of i1 now]
  by (auto simp: local_step_def intro: updates_ok_later less_imp_le)

lemma create_comment_good: "op_good (\<lambda>r. r = None) (create_comment iid txt)"
proof (rule op_goodI)
  fix s assume inv: "tracker_inv s"
  show "step_good (\<lambda>r. r = None) s (create_comment iid txt s)"
  proof (cases "dict_get (tr_issues s) iid")
    case None
    then show ?thesis using inv by (simp add: create_comment_def step_good_same)
  next
    case (Some iss)
    with inv obtain cs us where h: "holds iid iss s"
      "dict_get (tr_comments s) iid = Some cs" "dict_get (tr_updates s) iid = Some us"
      "comments_ok iid (iss_description iss) cs"
      "updates_ok (iss_created iss) (iss_modified iss) (length cs) us" "issue_typed iss" by (rule holdsE)
    show ?thesis unfolding create_comment_effect [OF Some h(2,3)]
      by (rule step_good_local [OF h(1) local_step_touched [OF _ _ _ _ _ h(6) comments_ok_append [OF h(4)] h(5)]])
        simp_all
  qed
qed

lemma update_comment_good: "op_good (\<lambda>r. r = None) (update_comment iid number txt)"
proof (rule op_goodI)
  fix s assume inv: "tracker_inv s"
  show "step_good (\<lambda>r. r = None) s (update_comment iid number txt s)"
  proof (cases "dict_get (tr_issues s) iid")
    case None
    then show ?thesis using inv by (simp add: update_comment_def step_good_same)
  next
    case (Some iss)
    with inv obtain cs us where h: "holds iid iss s"
      "dict_get (tr_comments s) iid = Some cs" "dict_get (tr_updates s) iid = Some us"
      "comments_ok iid (iss_description iss) cs"
      "updates_ok (iss_created iss) (iss_modified iss) (length cs) us" "issue_typed iss" by (rule holdsE)
    show ?thesis
    proof (cases "1 \<le> number \<and> number \<le> int (length cs)")
      case False
      then show ?thesis
        using inv Some h(2) by (auto simp: update_comment_def dict_get_or_def Let_def step_good_same)
    next
      case True
      let ?k = "nat (number - 1)" and ?now = "tr_clock s (tr_reads s)"
      let ?c = "(cs ! ?k)\<lparr>cm_text := txt\<rparr>"
      let ?i = "if number = 1 then iss\<lparr>iss_description := txt\<rparr> else iss"
      have eff: "update_comment iid number txt s = (Inr (Some ?c),
          (put_cell iid (touched ?now ?i) (cs[?k := ?c]) us s)\<lparr>tr_reads := Suc (tr_reads s)\<rparr>)"
        using Some h(2,3) True
        by (simp add: update_comment_def dict_get_or_def sbind_def touch_eq Let_def put_cell_def
            put_issue_def dict_set_same update_last)
      have k: "?k < length cs" "?k = 0 \<longleftrightarrow> number = 1" using True by auto
      have "comments_ok iid (iss_description ?i) (cs[?k := ?c])"
        using comments_ok_update [OF h(4) k(1), of "txt"] k(2) by (simp split: if_splits)
      then show ?thesis unfolding eff
        by (intro step_good_local [OF h(1) local_step_touched [OF _ _ _ _ _ _ _ h(5)]]) (simp_all add: h(6))
    qed
  qed
qed

text \<open>An edit of one collection, written back and touched, as the two hotlist operations do it.\<close>

lemma step_good_coll:
  assumes "tracker_inv s" and "dict_get (tr_issues s) iid = Some iss" and "coll_ok f vs" and "\<not> quiet x"
  shows "step_good quiet s (sbind (smod (put_issue iid (set_coll f vs iss)))
    (\<lambda>_. sbind (touch iid (set_coll f vs iss)) (\<lambda>_. sret x)) s)"
proof -
  from assms(1,2) obtain cs us where h: "holds iid iss s"
      "dict_get (tr_comments s) iid = Some cs" "dict_get (tr_updates s) iid = Some us"
      "comments_ok iid (iss_description iss) cs"
      "updates_ok (iss_created iss) (iss_modified iss) (length cs) us" "issue_typed iss" by (rule holdsE)
  let ?i = "set_coll f vs iss"
  have fr: "frame ?i = frame iss" by simp
  have eff: "sbind (smod (put_issue iid ?i)) (\<lambda>_. sbind (touch iid ?i) (\<lambda>_. sret x)) s =
      (Inr x, (put_cell iid (touched (tr_clock s (tr_reads s)) ?i) cs us s)\<lparr>tr_reads := Suc (tr_reads s)\<rparr>)"
    using h(2,3) by (simp add: sbind_def touch_eq Let_def put_cell_def put_issue_def dict_set_same update_last)
  show ?thesis unfolding eff
    using fr h(4) by (intro step_good_local [OF h(1) local_step_touched [OF _ _ _ _ _ _ _ h(5)]])
      (simp_all add: assms h(6) frame_def issue_typed_set_coll)
qed

lemma inv_coll_ok:
  "tracker_inv s \<Longrightarrow> dict_get (tr_issues s) iid = Some iss \<Longrightarrow> coll_ok f (get_coll f iss)"
  by (rule holds_coll_ok) (simp add: holds_def)

lemma create_hotlist_entry_good: "op_good (\<lambda>_. False) (create_hotlist_entry entry)"
proof (rule op_goodI)
  fix s assume inv: "tracker_inv s"
  show "step_good (\<lambda>_. False) s (create_hotlist_entry entry s)"
  proof (cases "dict_get (tr_issues s) (he_issue entry)")
    case None
    then show ?thesis using inv by (simp add: create_hotlist_entry_def step_good_same)
  next
    case (Some iss)
    with inv have ok: "coll_ok CF_hotlists (get_coll CF_hotlists iss)"
      by (rule inv_coll_ok)
    show ?thesis
      using inv Some step_good_coll [OF inv Some coll_ok_append [OF ok], of "FInt (he_hotlist entry)" "\<lambda>_. False" entry]
      by (simp add: create_hotlist_entry_def step_good_same Let_def is_FInt_def)
  qed
qed

lemma delete_hotlist_entry_good: "op_good Not (delete_hotlist_entry hid iid)"
proof (rule op_goodI)
  fix s assume inv: "tracker_inv s"
  show "step_good Not s (delete_hotlist_entry hid iid s)"
  proof (cases "dict_get (tr_issues s) iid")
    case None
    then show ?thesis using inv by (simp add: delete_hotlist_entry_def step_good_same)
  next
    case (Some iss)
    with inv have ok: "coll_ok CF_hotlists (get_coll CF_hotlists iss)"
      by (rule inv_coll_ok)
    show ?thesis
      using inv Some step_good_coll [OF inv Some coll_ok_remove1 [OF ok], of Not True "FInt hid"]
      by (simp add: delete_hotlist_entry_def step_good_same Let_def)
  qed
qed


lemma create_relationship_good:
  assumes "rel_type rel \<in> set RELATIONSHIP_TYPES"
  shows "op_good (\<lambda>r. r = None) (create_relationship iid rel)"
proof (rule op_goodI)
  fix s assume inv: "tracker_inv s"
  let ?rows = "dict_get_or (tr_relationships s) iid []"
  let ?s1 = "s\<lparr>tr_relationships := dict_set iid ?rows (tr_relationships s)\<rparr>"
  have rows: "rels_ok s ?rows"
    using inv_rels [OF inv, of iid]
    by (auto simp: dict_get_or_def rels_ok_def split: option.splits)
  show "step_good (\<lambda>r. r = None) s (create_relationship iid rel s)"
  proof (cases "dict_get (tr_issues s) iid")
    case None
    then show ?thesis using inv by (simp add: create_relationship_def step_good_same)
  next
    case (Some iss)
    with inv obtain cs us where h: "holds iid iss s"
      "dict_get (tr_comments s) iid = Some cs" "dict_get (tr_updates s) iid = Some us"
      "comments_ok iid (iss_description iss) cs"
      "updates_ok (iss_created iss) (iss_modified iss) (length cs) us" "issue_typed iss" by (rule holdsE)
    let ?dup = "list_ex (\<lambda>r. rel_target r = rel_target rel \<and> rel_type r = rel_type rel) ?rows"
    consider (unknown) "\<not> dict_in (rel_target rel) (tr_issues s)"
      | (dup) "dict_in (rel_target rel) (tr_issues s)" "?dup"
      | (new) "dict_in (rel_target rel) (tr_issues s)" "\<not> ?dup" by blast
    then show ?thesis
    proof cases
      case unknown
      then show ?thesis using inv Some by (simp add: create_relationship_def step_good_same)
    next
      case dup
      have "tracker_inv ?s1"
        using inv rows inv_rels [OF inv] by (auto simp: tracker_inv_def cell_ok_def rels_ok_def)
      moreover have "same_view s ?s1" "evolves s ?s1"
        by (auto simp: same_view_def evolves_def cell_def)
      ultimately show ?thesis using dup Some by (simp add: create_relationship_def step_good_def Let_def)
    next
      case new
      let ?rels = "dict_set iid (?rows @ [rel]) (tr_relationships s)"
      have eff: "create_relationship iid rel s = (Inr (Some rel),
          (put_cell iid (touched (tr_clock s (tr_reads s)) iss) cs us s)
            \<lparr>tr_relationships := ?rels, tr_reads := Suc (tr_reads s)\<rparr>)"
        using new Some h(2,3)
        by (simp add: create_relationship_def sbind_def touch_eq Let_def put_cell_def put_issue_def
            dict_set_same update_last)
      have ls: "local_step iid iss (touched (tr_clock s (tr_reads s)) iss) cs us"
        by (rule local_step_touched [OF _ _ _ _ _ h(6,4,5)]) simp_all
      have "rels_ok s (?rows @ [rel])"
        using rows new assms by (auto simp: rels_ok_def list_all_iff list_ex_iff)
      then have "tracker_inv (snd (create_relationship iid rel s))"
        unfolding eff snd_conv
        by (intro local_step_inv [OF h(1) ls]) (auto intro: inv_rels [OF inv] split: if_splits)
      moreover have "evolves s (snd (create_relationship iid rel s))"
        unfolding eff snd_conv by (intro local_step_evolves [OF h(1) ls]) simp
      ultimately show ?thesis unfolding step_good_def by (simp add: eff)
    qed
  qed
qed

text \<open>
  The outcome of a modify that edits \<open>iss\<close> to \<open>i3\<close> with the change log \<open>chs\<close>: nothing happens when
  nothing changed; otherwise the issue is touched (once more by a comment) and one update recorded.
\<close>

definition modify_outcome :: "int \<Rightarrow> string option \<Rightarrow> field_change list \<Rightarrow> issue \<Rightarrow> tcomment list \<Rightarrow>
    issue_update list \<Rightarrow> tracker \<Rightarrow> issue \<times> tracker" where
  "modify_outcome iid comment chs i3 cs us s =
     (case comment of
        None \<Rightarrow>
          if chs = [] then (i3, s)
          else let i4 = touched (tr_clock s (tr_reads s)) i3
               in (i4, (put_cell iid i4 cs (us @ [\<lparr>up_author = tr_identity s,
                     up_timestamp = iss_modified i4, up_changes = chs, up_comment_number = 0\<rparr>]) s)
                     \<lparr>tr_reads := Suc (tr_reads s)\<rparr>)
      | Some t \<Rightarrow>
          let i4 = touched (tr_clock s (Suc (tr_reads s))) (touched (tr_clock s (tr_reads s)) i3)
          in (i4, (put_cell iid i4
                (cs @ [\<lparr>cm_issue = iid, cm_number = length cs + 1, cm_text = t, cm_author = tr_identity s\<rparr>])
                (us @ [\<lparr>up_author = tr_identity s, up_timestamp = iss_modified i4, up_changes = chs,
                  up_comment_number = length cs + 1\<rparr>]) s)\<lparr>tr_reads := Suc (Suc (tr_reads s))\<rparr>))"

lemma modify_loops:
  assumes "modify_typed req" and "dict_get (tr_issues s) iid = Some iss"
  shows "\<exists>chs. replay chs iss = spec_modify req iss \<and> modify_issue iid req s =
    sbind (modify_comment iid (spec_modify req iss) (im_comment req)) (\<lambda>(iss4, comment_number).
      if chs \<noteq> [] \<or> comment_number \<noteq> 0
      then sbind (record_update iid iss4 chs comment_number) (\<lambda>iss5. sret (Some iss5))
      else sret (Some iss4)) (put_issue iid (spec_modify req iss) s)"
proof -
  let ?i1 = "spec_sets (im_sets req) iss"
  let ?i2 = "spec_deltas False (im_add req) ?i1" and ?i3 = "spec_modify req iss"
  have t: "sets_typed (im_sets req)" "deltas_typed (im_add req)" "deltas_typed (im_remove req)"
    using assms(1) by (simp_all add: modify_typed_def)
  obtain c1 where 1: "apply_sets iid iss (im_sets req) [] s = (Inr (?i1, c1), put_issue iid ?i1 s)"
    "replay c1 iss = ?i1" using apply_sets_spec [OF t(1) assms(2), of "[]"] by auto
  obtain c2 where 2: "apply_deltas iid ?i1 False (im_add req) c1 (put_issue iid ?i1 s) =
      (Inr (?i2, c1 @ c2), put_issue iid ?i2 s)" "replay c2 ?i1 = ?i2"
    using apply_deltas_spec [OF t(2), of "put_issue iid ?i1 s" iid ?i1 False c1] by auto
  obtain c3 where 3: "apply_deltas iid ?i2 True (im_remove req) (c1 @ c2) (put_issue iid ?i2 s) =
      (Inr (?i3, c1 @ c2 @ c3), put_issue iid ?i3 s)" "replay c3 ?i2 = ?i3"
    using apply_deltas_spec [OF t(3), of "put_issue iid ?i2 s" iid ?i2 True "c1 @ c2"]
    by (auto simp: spec_modify_def)
  show ?thesis
    using 1(2) 2(2) 3(2) by (intro exI [of _ "c1 @ c2 @ c3"]) (simp add: modify_issue_def assms(2) 1(1) 2(1) 3(1) del: append_is_Nil_conv)
qed

lemma modify_issue_effect:
  assumes "modify_typed req" and "dict_get (tr_issues s) iid = Some iss"
    and "dict_get (tr_comments s) iid = Some cs" and "dict_get (tr_updates s) iid = Some us"
  shows "\<exists>chs. replay chs iss = spec_modify req iss \<and> modify_issue iid req s =
    (let (i, s') = modify_outcome iid (im_comment req) chs (spec_modify req iss) cs us s in (Inr (Some i), s'))"
proof -
  let ?i3 = "spec_modify req iss"
  obtain chs where c: "replay chs iss = ?i3" and m: "modify_issue iid req s =
    sbind (modify_comment iid ?i3 (im_comment req)) (\<lambda>(iss4, comment_number).
      if chs \<noteq> [] \<or> comment_number \<noteq> 0
      then sbind (record_update iid iss4 chs comment_number) (\<lambda>iss5. sret (Some iss5))
      else sret (Some iss4)) (put_issue iid ?i3 s)"
    using modify_loops [OF assms(1,2)] by blast
  have "modify_issue iid req s =
    (let (i, s') = modify_outcome iid (im_comment req) chs ?i3 cs us s in (Inr (Some i), s'))"
  proof (cases "im_comment req")
    case None
    show ?thesis
      using assms(2-4) c None unfolding m
      by (auto simp: modify_comment_def record_update_def modify_outcome_def sbind_def touch_eq Let_def
          put_cell_def put_issue_def dict_set_same update_last)
  next
    case (Some t)
    show ?thesis
      using assms(2-4) Some unfolding m
      by (simp add: modify_comment_def record_update_def create_comment_def modify_outcome_def
          sbind_def touch_eq Let_def put_cell_def put_issue_def dict_set_same update_last)
  qed
  with c show ?thesis by blast
qed

lemma modify_outcome_good:
  assumes h: "holds iid iss s" "comments_ok iid (iss_description iss) cs"
      "updates_ok (iss_created iss) (iss_modified iss) (length cs) us" "iss_created iss \<le> iss_modified iss"
    and i3: "frame i3 = frame iss" "issue_typed i3" and chs: "replay chs iss = i3"
    and out: "modify_outcome iid comment chs i3 cs us s = (i, s')"
  shows "step_good (\<lambda>r. r = None) s (Inr (Some i), s')"
proof (cases comment)
  case None
  let ?i4 = "touched (tr_clock s (tr_reads s)) i3"
  have later: "iss_modified iss < iss_modified ?i4" using touched_later [of i3] i3(1) by (simp add: frame_def)
  show ?thesis
  proof (cases "chs = []")
    case True
    with None out h(1) show ?thesis by (simp add: modify_outcome_def step_good_same holds_def)
  next
    case False
    then have "local_step iid iss ?i4 cs (us @ [\<lparr>up_author = tr_identity s,
        up_timestamp = iss_modified ?i4, up_changes = chs, up_comment_number = 0\<rparr>])"
      using updates_ok_append [OF h(3) later h(4)] h(2) i3 later by (simp add: local_step_def frame_def)
    from step_good_local [OF h(1) this, of "\<lambda>r. r = None" "Some i"] None False out show ?thesis
      by (auto simp: modify_outcome_def Let_def)
  qed
next
  case (Some t)
  let ?i4 = "touched (tr_clock s (Suc (tr_reads s))) (touched (tr_clock s (tr_reads s)) i3)"
  let ?c = "\<lparr>cm_issue = iid, cm_number = length cs + 1, cm_text = t, cm_author = tr_identity s\<rparr>"
  have later: "iss_modified iss < iss_modified ?i4"
    using touched_later [of i3] touched_later [of "touched (tr_clock s (tr_reads s)) i3"] i3(1)
    by (fastforce simp: frame_def intro: less_trans)
  have "updates_ok (iss_created iss) (iss_modified iss) (length (cs @ [?c])) us"
    using h(3) by (rule updates_ok_later) simp_all
  from updates_ok_append [OF this later h(4)]
  have "local_step iid iss ?i4 (cs @ [?c]) (us @ [\<lparr>up_author = tr_identity s,
      up_timestamp = iss_modified ?i4, up_changes = chs, up_comment_number = length cs + 1\<rparr>])"
    using comments_ok_append [OF h(2), of ?c] i3 later by (simp add: local_step_def frame_def)
  from step_good_local [OF h(1) this, of "\<lambda>r. r = None" "Some i"] Some out show ?thesis
    by (auto simp: modify_outcome_def Let_def)
qed


lemma modify_issue_good:
  assumes "modify_typed req"
  shows "op_good (\<lambda>r. r = None) (modify_issue iid req)"
proof (rule op_goodI)
  fix s assume inv: "tracker_inv s"
  show "step_good (\<lambda>r. r = None) s (modify_issue iid req s)"
  proof (cases "dict_get (tr_issues s) iid")
    case None
    then show ?thesis using inv by (simp add: modify_issue_def step_good_same)
  next
    case (Some iss)
    with inv obtain cs us where h: "holds iid iss s"
      "dict_get (tr_comments s) iid = Some cs" "dict_get (tr_updates s) iid = Some us"
      "comments_ok iid (iss_description iss) cs"
      "updates_ok (iss_created iss) (iss_modified iss) (length cs) us" "issue_typed iss"
      "iss_created iss \<le> iss_modified iss" by (rule holdsE)
    from modify_issue_effect [OF assms Some h(2,3)] obtain chs where
      c: "replay chs iss = spec_modify req iss" and m: "modify_issue iid req s =
        (let (i, s') = modify_outcome iid (im_comment req) chs (spec_modify req iss) cs us s in (Inr (Some i), s'))"
      by blast
    obtain i s' where o: "modify_outcome iid (im_comment req) chs (spec_modify req iss) cs us s = (i, s')"
      by (cases "modify_outcome iid (im_comment req) chs (spec_modify req iss) cs us s")
    with m have "modify_issue iid req s = (Inr (Some i), s')" by simp
    then show ?thesis
      using modify_outcome_good [OF h(1,4,5,7) _ _ c o] spec_modify_typed [OF assms h(6)] by simp
  qed
qed

definition create_typed :: "issue_create \<Rightarrow> bool" where
  "create_typed req \<longleftrightarrow>
     ic_status req \<in> set STATUSES \<and> ic_type req \<in> set TYPES \<and>
     ic_priority req \<in> set PRIORITIES \<and> ic_severity req \<in> set SEVERITIES"

definition fresh_issue :: "issue_create \<Rightarrow> string \<Rightarrow> int \<Rightarrow> int \<Rightarrow> issue" where
  "fresh_issue req reporter iid now =
     \<lparr>iss_id = iid, iss_component = ic_component req, iss_title = ic_title req,
      iss_type = ic_type req, iss_status = ic_status req, iss_priority = ic_priority req,
      iss_severity = ic_severity req, iss_reporter = reporter,
      iss_assignee = ic_assignee req, iss_verifier = [], iss_ccs = [], iss_hotlists = [],
      iss_blocked_by = [], iss_blocking = [], iss_created = now, iss_modified = now,
      iss_description = ic_description req\<rparr>"

lemma insert_issue_effect:
  "insert_issue req reporter s =
    (let iss = fresh_issue req reporter (tr_counter s) (tr_clock s (tr_reads s))
     in (Inr iss, (put_cell (tr_counter s) iss [\<lparr>cm_issue = tr_counter s, cm_number = 1,
           cm_text = ic_description req, cm_author = reporter\<rparr>] [] s)
           \<lparr>tr_counter := tr_counter s + 1, tr_reads := Suc (tr_reads s)\<rparr>))"
  by (simp add: insert_issue_def next_id_def read_clock_def sbind_def Let_def put_cell_def put_issue_def
      fresh_issue_def)

lemma fresh_issue_typed: "create_typed req \<Longrightarrow> issue_typed (fresh_issue req reporter iid now)"
proof -
  assume t: "create_typed req"
  have "scalar_ok f (get_scalar f (fresh_issue req reporter iid now))" for f
    using t by (cases f) (simp_all add: fresh_issue_def create_typed_def)
  moreover have "coll_ok f (get_coll f (fresh_issue req reporter iid now))" for f
    by (cases f) (simp_all add: fresh_issue_def coll_ok_def)
  ultimately show ?thesis by (simp add: issue_typed_def)
qed

lemma counter_fresh: "tracker_inv s \<Longrightarrow> dict_get (tr_issues s) (tr_counter s) = None"
  by (cases "dict_get (tr_issues s) (tr_counter s)") (auto dest!: inv_cell simp: cell_ok_def)

lemma insert_issue_good:
  assumes inv: "tracker_inv s" and comp: "dict_in (ic_component req) (tr_components s)"
    and typed: "create_typed req"
  shows "tracker_inv (snd (insert_issue req reporter s)) \<and> evolves s (snd (insert_issue req reporter s))"
proof
  let ?s = "snd (insert_issue req reporter s)"
  let ?i = "fresh_issue req reporter (tr_counter s) (tr_clock s (tr_reads s))"
  show "tracker_inv ?s"
  proof (rule tracker_inv_at [OF inv])
    show "cell_ok ?s (tr_counter s) ?i"
      using inv comp fresh_issue_typed [OF typed]
      by (simp add: insert_issue_effect Let_def cell_ok_def put_cell_def comments_ok_def updates_ok_def
          tracker_inv_def) (simp add: fresh_issue_def)
  qed (auto simp: insert_issue_effect Let_def put_cell_def intro: inv_rels [OF inv])
  show "evolves s ?s"
    using counter_fresh [OF inv]
    by (auto simp: evolves_def insert_issue_effect Let_def put_cell_def cell_def)
qed

lemma create_issue_good: "create_typed req \<Longrightarrow> op_good (\<lambda>_. False) (create_issue req)"
  by (rule op_goodI)
    (auto simp: create_issue_def step_good_same step_good_def insert_issue_good insert_issue_effect Let_def
      dest: insert_issue_good)

lemma reads_good:
  "op_good quiet1 (get_component cid)" "op_good quiet2 (list_issues q)"
  "op_good quiet3 (batch_get_issues ids)" "op_good quiet4 (get_issue iid)"
  "op_good quiet5 (list_relationships iid ty)" "op_good quiet6 (list_issue_updates iid pg)"
  "op_good quiet7 (list_comments iid pg)" "op_good quiet8 (list_attachments iid)"
  by (rule op_good_read; simp add: get_component_def list_issues_def batch_get_issues_def get_issue_def
      list_relationships_def list_issue_updates_def list_comments_def list_attachments_def Let_def)+

end
