(* ===== verification/Tracker_Service.thy ===== *)
theory Tracker_Service
  imports Tracker_Invariant
begin

text \<open>
  The issue tracker as a service: what the request parsers guarantee, that every route keeps the
  state invariant, and the properties of whole request sequences.
\<close>

section \<open>What the parsers guarantee\<close>

lemma parse_enum_Inr: "parse_enum v allowed f = Inr s \<longleftrightarrow> v = PStr s \<and> s \<in> set allowed"
  by (auto simp: parse_enum_def Let_def split: pyval.splits if_splits)

lemma parse_id64_pos: "parse_id64 v f = Inr i \<Longrightarrow> 0 < i"
  by (auto simp: parse_id64_def result_simps split: if_splits)

text \<open>A scalar or collection the surface parses is one the driver accepts, with a value of its type.\<close>

lemma modify_scalar_typed:
  assumes "map_of MODIFY_SCALARS f = Some parse" and "parse v = Inr x"
  shows "\<exists>a. map_of SCALAR_FIELDS f = Some a \<and> scalar_ok a x"
  using assms by (auto simp: MODIFY_SCALARS_def SCALAR_FIELDS_def parse_enum_Inr split: if_splits)

lemma modify_coll_typed:
  assumes "map_of MODIFY_COLLECTIONS f = Some parse" and "rmap (\<lambda>v. parse v ctx) vs = Inr xs"
  shows "\<exists>a. map_of COLLECTION_FIELDS f = Some a \<and> list_all (elem_ok a) xs"
proof -
  have "\<exists>a. map_of COLLECTION_FIELDS f = Some a \<and> (\<forall>v x. parse v ctx = Inr x \<longrightarrow> elem_ok a x)"
    using assms(1)
    by (auto simp: MODIFY_COLLECTIONS_def COLLECTION_FIELDS_def result_simps is_FStr_def is_FInt_def
        split: if_splits)
  then obtain a where a: "map_of COLLECTION_FIELDS f = Some a"
    and elem: "\<And>v x. parse v ctx = Inr x \<Longrightarrow> elem_ok a x" by blast
  have "elem_ok a x" if "x \<in> set xs" for x
    using rmap_Inr_set [OF assms(2) that] elem by blast
  with a show ?thesis by (auto simp: list_all_iff)
qed

lemma list_all_dict_set: "list_all P d \<Longrightarrow> P (k, v) \<Longrightarrow> list_all P (dict_set k v d)"
  by (auto simp: list_all_iff dest: in_set_dict_set)

lemma masked_loop_typed:
  "masked_loop state fs mn sn sc sets colls = Inr (sets', colls') \<Longrightarrow> sets_typed sets \<Longrightarrow> deltas_typed colls \<Longrightarrow>
   sets_typed sets' \<and> deltas_typed colls' \<and> (\<not> sc \<longrightarrow> sets' = sets)"
proof (induction state fs mn sn sc sets colls rule: masked_loop.induct)
  case (1 state mn sn sc sets colls)
  then show ?case by simp
next
  case (2 state f fs mn sn sc sets colls)
  show ?case
  proof (cases "map_of MODIFY_SCALARS f")
    case (Some parse)
    with 2 obtain v where "sc" "dict_in f state" "parse (pget state f) = Inr v"
      "masked_loop state fs mn sn sc (dict_set f v sets) colls = Inr (sets', colls')"
      by (auto simp: result_simps split: if_splits)
    moreover from this Some "2.prems"(2) have "sets_typed (dict_set f v sets)"
      unfolding sets_typed_def by (intro list_all_dict_set) (auto dest: modify_scalar_typed)
    ultimately show ?thesis using "2.IH"(2) [OF Some] "2.prems"(3) by blast
  next
    case None
    with 2 obtain parse vs xs where *: "map_of MODIFY_COLLECTIONS f = Some parse" "pget state f = PList vs"
      "rmap (\<lambda>v. parse v (sn @ ''.'' @ f)) vs = Inr xs"
      "masked_loop state fs mn sn sc sets (dict_set f xs colls) = Inr (sets', colls')"
      by (auto simp: result_simps split: option.splits pyval.splits)
    moreover from * "2.prems"(3) have "deltas_typed (dict_set f xs colls)"
      unfolding deltas_typed_def by (intro list_all_dict_set) (auto dest: modify_coll_typed)
    ultimately show ?thesis using "2.IH"(1) [OF None *(1,2)] "2.prems"(2) by blast
  qed
qed

lemma masked_deltas_typed:
  "masked_deltas st fs mn sn sc = Inr (sets, colls) \<Longrightarrow>
   sets_typed sets \<and> deltas_typed colls \<and> (\<not> sc \<longrightarrow> sets = [])"
  by (auto simp: masked_deltas_def sets_typed_def deltas_typed_def split: pyval.splits
      dest!: masked_loop_typed)

lemma parse_modify_typed: "parse_modify body = Inr req \<Longrightarrow> modify_typed req"
  by (clarsimp simp: parse_modify_def modify_typed_def rbind_Inr_iff split: if_splits prod.splits)
    (auto dest!: masked_deltas_typed)

lemma tracker_parse_create_typed: "tracker_parse_create body = Inr req \<Longrightarrow> create_typed req"
  by (clarsimp simp: tracker_parse_create_def create_typed_def rbind_Inr_iff parse_enum_Inr
      split: if_splits pyval.splits)


section \<open>Every route keeps the invariant\<close>

definition tracker_internal :: "tracker_exn \<Rightarrow> bool" where
  "tracker_internal e =
     (case e of TrackerApiError st _ \<Rightarrow> st = T_INTERNAL | RequestValidationError _ \<Rightarrow> False | _ \<Rightarrow> True)"

definition handler_good :: "pyval tracker_op \<Rightarrow> bool" where
  "handler_good h \<longleftrightarrow> (\<forall>s r s'. tracker_inv s \<longrightarrow> h s = (r, s') \<longrightarrow>
     tracker_inv s' \<and> evolves s s' \<and> (\<forall>e. r = Inl e \<longrightarrow> tracker_internal e \<or> same_view s s'))"

lemma handler_good_raise [intro]: "handler_good (sraise e)"
  by (simp add: handler_good_def)

lemma handler_good_parse [intro]:
  "(\<And>x. p = Inr x \<Longrightarrow> handler_good (f x)) \<Longrightarrow> handler_good (sbind (slift p) f)"
  by (cases p) (auto simp: handler_good_def sbind_def)

text \<open>
  A driver call and what follows it: the rest only computes the response from the result, and its
  failures are internal, or answer a result that says nothing was done.
\<close>

lemma handler_good_drive:
  assumes m: "op_good quiet m" and k: "\<And>x s. snd (k x s) = s"
    and err: "\<And>x s e. fst (k x s) = Inl e \<Longrightarrow> \<not> quiet x \<Longrightarrow> tracker_internal e"
  shows "handler_good (sbind (drive m) k)"
  unfolding handler_good_def
proof (intro allI impI)
  fix s r s' assume inv: "tracker_inv s" and run: "sbind (drive m) k s = (r, s')"
  obtain r1 s1 where m1: "m s = (r1, s1)" by (cases "m s")
  from m inv have g: "step_good quiet s (r1, s1)" by (simp add: op_good_def flip: m1)
  show "tracker_inv s' \<and> evolves s s' \<and> (\<forall>e. r = Inl e \<longrightarrow> tracker_internal e \<or> same_view s s')"
  proof (cases r1)
    case (Inl e)
    with run m1 g show ?thesis by (auto simp: sbind_def drive_def step_good_def)
  next
    case (Inr x)
    with run m1 have "k x s1 = (r, s')" by (simp add: sbind_def drive_def)
    with k [of x s1] err [of x s1] have "s' = s1" "\<And>e. r = Inl e \<Longrightarrow> \<not> quiet x \<Longrightarrow> tracker_internal e"
      by simp_all
    with g Inr show ?thesis by (auto simp: step_good_def)
  qed
qed

text \<open>What follows a driver call only ever fails in printing a time.\<close>

lemma internal_PyExn [simp]: "tracker_internal (PyExn e)"
  by (simp add: tracker_internal_def)

lemma tracker_rfc3339_err: "tracker_rfc3339 t = Inl e \<Longrightarrow> tracker_internal e"
  by (auto simp: tracker_rfc3339_def split: sum.splits)

lemma issue_json_err: "issue_json i v = Inl e \<Longrightarrow> tracker_internal e"
  by (auto simp: issue_json_def result_simps dest: tracker_rfc3339_err)

lemma issues_json_err: "rmap (\<lambda>i. issue_json i v) xs = Inl e \<Longrightarrow> tracker_internal e"
  by (auto dest!: rmap_Inl intro: issue_json_err)

lemma updates_json_err: "rmap update_json xs = Inl e \<Longrightarrow> tracker_internal e"
  by (auto dest!: rmap_Inl tracker_rfc3339_err simp: update_json_def result_simps)

lemmas json_errs = issue_json_err issues_json_err updates_json_err

lemma handler_good_require:
  assumes "op_good (\<lambda>r. r = None) m" and "\<And>x s. snd (k x s) = s"
    and "\<And>x s e. fst (k x s) = Inl e \<Longrightarrow> tracker_internal e"
  shows "handler_good (sbind (drive m) (\<lambda>r. sbind (require r what) k))"
  by (rule handler_good_drive [OF assms(1)])
    (auto simp: sbind_def require_def assms(2) split: option.splits intro: assms(3))

lemma pure_rest:
  "snd (sret x s) = s" "fst (sret x s) \<noteq> Inl e" "snd (slift r s) = s" "fst (slift r s) = r"
  "snd (sbind (slift r) (\<lambda>x. sret (g x)) s) = s"
  "fst (sbind (slift r) (\<lambda>x. sret (g x)) s) = Inl e \<longleftrightarrow> r = Inl e"
  by (cases r; simp add: sbind_def)+

lemmas handler_rules =
  handler_good_parse handler_good_require
  handler_good_drive [OF reads_good(2) [where ?quiet2.0 = "\<lambda>_. False"]]
  handler_good_drive [OF reads_good(3) [where ?quiet3.0 = "\<lambda>_. False"]]
  handler_good_drive [OF create_issue_good] handler_good_drive [OF create_hotlist_entry_good]

lemma handlers_good:
  shows h_get_component_good: "handler_good (h_get_component c)"
    and h_get_issue_good: "handler_good (h_get_issue i v)"
    and h_list_relationships_good: "handler_good (h_list_relationships i t)"
    and h_list_comments_good: "handler_good (h_list_comments i ps pt)"
    and h_list_attachments_good: "handler_good (h_list_attachments i)"
    and h_list_issue_updates_good: "handler_good (h_list_issue_updates i ps pt)"
    and h_batch_get_issues_good: "handler_good (h_batch_get_issues ids v)"
  subgoal unfolding h_get_component_def by (intro handler_rules reads_good) (simp_all add: pure_rest)
  subgoal unfolding h_get_issue_def by (intro handler_rules reads_good) (simp_all add: pure_rest json_errs)
  subgoal unfolding h_list_relationships_def by (intro handler_rules reads_good) (simp_all add: pure_rest)
  subgoal unfolding h_list_comments_def by (intro handler_rules reads_good) (simp_all add: pure_rest)
  subgoal unfolding h_list_attachments_def by (intro handler_rules reads_good) (simp_all add: pure_rest)
  subgoal unfolding h_list_issue_updates_def
    by (intro handler_rules reads_good) (simp_all add: pure_rest json_errs)
  subgoal unfolding h_batch_get_issues_def by (intro handler_rules) (simp_all add: pure_rest json_errs)
  done

lemma h_list_issues_good: "handler_good (h_list_issues q ob ps pt v)"
proof -
  have "handler_good (h_list_issues (Some qs) ob ps pt v)" if "qs \<noteq> []" for qs
    unfolding h_list_issues_def option.case if_not_P [OF that]
    by (intro handler_rules) (simp_all add: pure_rest json_errs)
  then show ?thesis by (cases q) (auto simp: h_list_issues_def)
qed

lemma write_handlers_good:
  shows h_create_comment_good: "handler_good (h_create_comment i b)"
    and h_update_comment_good: "handler_good (h_update_comment i n b)"
    and h_create_issue_good: "handler_good (h_create_issue b)"
    and h_modify_issue_good: "handler_good (h_modify_issue i b)"
    and h_create_relationship_good: "handler_good (h_create_relationship i b t)"
    and h_create_hotlist_entry_good: "handler_good (h_create_hotlist_entry h b)"
  subgoal unfolding h_create_comment_def
    by (intro handler_rules create_comment_good) (simp_all add: pure_rest)
  subgoal unfolding h_update_comment_def
    by (intro handler_rules update_comment_good) (simp_all add: pure_rest)
  subgoal unfolding h_create_issue_def
    by (intro handler_rules) (simp_all add: pure_rest json_errs tracker_parse_create_typed)
  subgoal unfolding h_modify_issue_def
    by (intro handler_rules modify_issue_good) (simp_all add: pure_rest json_errs parse_modify_typed)
  subgoal unfolding h_create_relationship_def
    by (intro handler_rules create_relationship_good) (simp_all add: pure_rest parse_enum_Inr)
  subgoal unfolding h_create_hotlist_entry_def
    by (intro handler_rules) (simp_all add: pure_rest)
  done

lemma h_delete_hotlist_entry_good: "handler_good (h_delete_hotlist_entry h i)"
  unfolding h_delete_hotlist_entry_def
  by (intro handler_good_parse handler_good_drive [OF delete_hotlist_entry_good]) (simp_all split: if_splits)

lemma tracker_handle_good: "handler_good (tracker_handle req)"
  by (cases req) (auto simp: handlers_good h_list_issues_good write_handlers_good
      h_delete_hotlist_entry_good h_unmatched_def)


section \<open>The surface as a whole\<close>

lemma tracker_internal_500: "resp_status (tracker_route (Inl e)) = 500 \<longleftrightarrow> tracker_internal e"
proof (cases e)
  case (TrackerApiError st m)
  then show ?thesis
    by (cases st) (simp_all add: tracker_route_def tracker_error_response_def tracker_internal_def)
qed (simp_all add: tracker_route_def tracker_error_response_def tracker_internal_def)

interpretation tracker_surface:
  foreign_surface tracker_handle tracker_route tracker_inv evolves same_view tracker_internal error_envelope
proof
  show "200 \<le> resp_status (tracker_route (Inr v)) \<and> resp_status (tracker_route (Inr v)) < 300" for v
    by (simp add: tracker_route_def)
  show "error_envelope (tracker_route (Inl e)) \<and> 400 \<le> resp_status (tracker_route (Inl e))" for e
  proof -
    have "error_envelope (tracker_error_response st m) \<and> 400 \<le> resp_status (tracker_error_response st m)" for st m
      by (cases st) (simp_all add: tracker_error_response_def error_envelope_def pget_def dict_get_or_def)
    then show ?thesis by (cases e) (simp_all add: tracker_route_def)
  qed
  show "500 \<le> resp_status (tracker_route (Inl e))" if "tracker_internal e" for e
    using tracker_internal_500 [of e] that by simp
next
  fix s req r s'
  assume "tracker_inv s" and "tracker_handle req s = (r, s')"
  with tracker_handle_good [of req] show "tracker_inv s'" "evolves s s'"
    by (auto simp: handler_good_def)
next
  fix s req e s'
  assume "tracker_inv s" and "tracker_handle req s = (Inl e, s')" and "\<not> tracker_internal e"
  with tracker_handle_good [of req] show "same_view s s'"
    by (auto simp: handler_good_def)
qed (auto intro: evolves_trans)

section \<open>Construction\<close>

lemma seed_components_inv:
  "tracker_inv s \<Longrightarrow> tr_issues s = [] \<Longrightarrow> tr_relationships s = [] \<Longrightarrow> tracker_inv (seed_components cids s)"
proof (induction cids s rule: seed_components.induct)
  case (2 cid cids s)
  from "2.prems" have "tracker_inv (s\<lparr>tr_components := dict_set cid \<lparr>comp_id = cid, comp_archived = False\<rparr> (tr_components s)\<rparr>)"
    by (simp add: tracker_inv_def)
  with 2 show ?case by simp
qed simp

lemma seed_issues_inv:
  "tracker_inv s \<Longrightarrow> list_all seed_valid rows \<Longrightarrow> tracker_inv (snd (seed_issues rows s))"
proof (induction rows arbitrary: s)
  case Nil
  then show ?case by simp
next
  case (Cons row rows)
  show ?case
  proof (cases "dict_in (si_component row) (tr_components s)")
    case False
    with Cons.prems show ?thesis by (simp add: sbind_def)
  next
    case True
    obtain i s1 where s1: "insert_issue (seed_request row) (si_reporter row) s = (Inr i, s1)"
      by (simp add: insert_issue_effect Let_def)
    have "create_typed (seed_request row)"
      using Cons.prems(2) by (simp add: create_typed_def seed_request_def seed_valid_def)
    then have "tracker_inv s1"
      using insert_issue_good [of s "seed_request row" "si_reporter row"] Cons.prems(1) True s1
      by (simp add: seed_request_def)
    with Cons True s1 show ?thesis by (simp add: sbind_def)
  qed
qed

lemma IssueTrackerModule_inv: "IssueTrackerModule cfg clock = Inr s \<Longrightarrow> tracker_inv s"
proof -
  assume c: "IssueTrackerModule cfg clock = Inr s"
  have "tracker_inv (empty_tracker (ts_identity cfg) clock)"
    by (simp add: tracker_inv_def empty_tracker_def)
  then have "tracker_inv (seed_components (ts_components cfg) (empty_tracker (ts_identity cfg) clock))"
    by (rule seed_components_inv) (simp_all add: empty_tracker_def)
  from seed_issues_inv [OF this, of "ts_issues cfg"] c show ?thesis
    by (auto simp: IssueTrackerModule_def MockIssueTrackerDriver_def split: if_splits prod.splits sum.splits)
qed

text \<open>A configured tracker and a few requests, for the concrete instances below.\<close>

definition sample_clock :: "nat \<Rightarrow> int" where
  "sample_clock k = 7130316800000000"

definition sample_settings :: tracker_settings where
  "sample_settings = \<lparr>ts_driver = ''mock'', ts_identity = ''jetty@example.com'', ts_forward_headers = [],
     ts_components = [7], ts_issues = [\<lparr>si_component = 7, si_title = ''crash'', si_status = ''NEW'',
       si_type = ''BUG'', si_priority = ''P2'', si_severity = ''S2'', si_reporter = ''a@b'',
       si_assignee = [], si_description = ''it crashed''\<rparr>]\<rparr>"

definition sample_tracker :: tracker where
  "sample_tracker = (case IssueTrackerModule sample_settings sample_clock of Inr s \<Rightarrow> s)"

definition sample_modify :: tracker_request where
  "sample_modify = ModifyIssue ''1001'' (Inr (PDict [(''add'', PDict [(''status'', PStr ''FIXED'')]),
     (''addMask'', PStr ''status'')]))"

definition sample_bad :: tracker_request where
  "sample_bad = ModifyIssue ''1001'' (Inr (PDict [(''addMask'', PStr ''colour'')]))"

lemma sample_built: "IssueTrackerModule sample_settings sample_clock = Inr sample_tracker"
proof -
  have "case IssueTrackerModule sample_settings sample_clock of Inl _ \<Rightarrow> False | Inr _ \<Rightarrow> True"
    by code_simp
  then show ?thesis by (simp add: sample_tracker_def split: sum.splits)
qed

lemma sample_responses:
  "map resp_status (fst (tracker_run [sample_modify, sample_bad] sample_tracker)) = [200, 400]"
  by code_simp


section \<open>Properties of the service\<close>

text \<open>
  C1: After any sequence of requests to a configured issue tracker, whatever the wall clock did, the
  state is well formed: issue ids are distinct, lie between the base and the counter and are the ids
  of their rows; every status, type, priority and severity is in its vocabulary; every collection is
  duplicate free and holds elements of its type; every issue's component exists; comments are
  numbered from one without gaps and comment one is the description; the update history is strictly
  increasing in time, within the issue's life and without empty entries; relationships have existing
  targets, valid types and no duplicates.
\<close>

theorem tracker_reachable_inv:
  assumes "IssueTrackerModule cfg clock = Inr s"
  shows "tracker_inv (snd (tracker_run reqs s))"
  using tracker_surface.run_good [OF IssueTrackerModule_inv [OF assms]] by (simp add: tracker_run_def)

theorem tracker_reachable_inv_witness:
  "tracker_inv (snd (tracker_run [sample_modify, sample_bad] sample_tracker)) \<and>
   map resp_status (fst (tracker_run [sample_modify, sample_bad] sample_tracker)) = [200, 400]"
  using tracker_reachable_inv [OF sample_built] sample_responses by blast

text \<open>
  C31: A request that is refused (any response other than 200 and 500: bad arguments, unknown issues,
  unimplemented routes, an unavailable upstream) leaves everything a client can see as it was. In
  particular a modify is never applied in part: whatever the surface lets through, the driver accepts.
\<close>

theorem tracker_refused_changes_nothing:
  assumes "IssueTrackerModule cfg clock = Inr s0" and "s = snd (tracker_run reqs s0)"
    and "resp_status (fst (tracker_serve req s)) \<notin> {200, 500}"
  shows "same_view s (snd (tracker_serve req s))"
proof -
  have "tracker_inv s"
    using tracker_surface.run_good [OF IssueTrackerModule_inv [OF assms(1)]] assms(2)
    by (simp add: tracker_run_def)
  then show ?thesis
    unfolding tracker_serve_def
  proof (rule tracker_surface.quiet_unless_loud)
    have ne: "resp_status (fst (serve_with tracker_handle tracker_route req s)) \<notin> {200, 500}"
      using assms(3) by (simp add: tracker_serve_def)
    show "\<not> tracker_internal e" if "tracker_handle req s = (Inl e, s')" for e s'
      using ne that by (simp add: serve_with_def flip: tracker_internal_500)
    show "300 \<le> resp_status (fst (serve_with tracker_handle tracker_route req s))"
    proof (rule ccontr)
      assume "\<not> 300 \<le> resp_status (fst (serve_with tracker_handle tracker_route req s))"
      then obtain v s' where "tracker_handle req s = (Inr v, s')"
        using tracker_surface.served(1) [of req s] by auto
      with ne show False by (simp add: serve_with_def tracker_route_def)
    qed
  qed
qed

lemma sample_refused:
  "resp_status (fst (tracker_serve sample_bad (snd (tracker_run [sample_modify] sample_tracker)))) = 400"
  by code_simp

theorem tracker_refused_changes_nothing_witness:
  "same_view (snd (tracker_run [sample_modify] sample_tracker))
     (snd (tracker_serve sample_bad (snd (tracker_run [sample_modify] sample_tracker))))"
  by (rule tracker_refused_changes_nothing [OF sample_built refl]) (simp add: sample_refused)

text \<open>
  C2: Over any sequence of requests an issue never disappears and keeps its id, component, reporter
  and creation time; and whenever anything else a client can read of it (fields, comments, history,
  relationships, attachments) differs at the end, its modification time is strictly later, even when
  the wall clock stands still or goes back.
\<close>

theorem tracker_changes_are_visible:
  assumes "IssueTrackerModule cfg clock = Inr s0" and "s = snd (tracker_run reqs s0)"
    and "s' = snd (tracker_run reqs' s)" and "dict_get (tr_issues s) iid = Some iss"
  shows "\<exists>iss'. dict_get (tr_issues s') iid = Some iss' \<and> iss_id iss' = iss_id iss \<and>
    iss_component iss' = iss_component iss \<and> iss_reporter iss' = iss_reporter iss \<and>
    iss_created iss' = iss_created iss \<and> (cell s' iid \<noteq> cell s iid \<longrightarrow> iss_modified iss < iss_modified iss')"
proof -
  have "tracker_inv s"
    using tracker_surface.run_good [OF IssueTrackerModule_inv [OF assms(1)]] assms(2)
    by (simp add: tracker_run_def)
  from tracker_surface.run_good [OF this, of reqs'] have "evolves s s'"
    by (simp add: assms(3) tracker_run_def)
  with assms(4) show ?thesis by (auto simp: evolves_def)
qed

definition sample_issue :: issue where
  "sample_issue = fresh_issue (seed_request (hd (ts_issues sample_settings))) ''a@b'' 1001 (sample_clock 0)"

lemma sample_has_issue: "dict_get (tr_issues (snd (tracker_run [] sample_tracker))) 1001 = Some sample_issue"
proof -
  have "IssueTrackerModule sample_settings sample_clock = Inr (snd (insert_issue (seed_request (hd (ts_issues sample_settings)))
      ''a@b'' (seed_components [7] (empty_tracker ''jetty@example.com'' sample_clock))))"
    by (simp add: IssueTrackerModule_def sample_settings_def seed_valid_def STATUSES_def TYPES_def PRIORITIES_def
        SEVERITIES_def MockIssueTrackerDriver_def sbind_def insert_issue_effect Let_def empty_tracker_def dict_in_def
        put_cell_def seed_request_def)
  with sample_built have eq: "sample_tracker = snd (insert_issue (seed_request (hd (ts_issues sample_settings)))
      ''a@b'' (seed_components [7] (empty_tracker ''jetty@example.com'' sample_clock)))"
    by simp
  show ?thesis
    unfolding eq by (simp add: tracker_run_def insert_issue_effect Let_def empty_tracker_def ID_BASE_def put_cell_def
        sample_issue_def)
qed

theorem tracker_changes_are_visible_witness:
  "\<exists>iss'. dict_get (tr_issues (snd (tracker_run [sample_modify] (snd (tracker_run [] sample_tracker))))) 1001 = Some iss' \<and>
     iss_created iss' = iss_created sample_issue"
  using tracker_changes_are_visible [OF sample_built refl refl sample_has_issue, of "[sample_modify]"]
  by blast

text \<open>
  C30: A modify the surface accepts means exactly its specification. On an existing issue the driver
  returns the issue edited by \<open>spec_modify\<close> (each masked scalar takes its value, each collection is
  edited as a set), and the change log it records replays the old issue into the edited one; nothing
  is recorded or touched when nothing changed and no comment came along, and otherwise exactly one
  update is appended, carrying the issue's new modification time and the number of its comment.
\<close>

theorem modify_issue_refines_spec:
  assumes "tracker_inv s" and "dict_get (tr_issues s) iid = Some iss" and "parse_modify body = Inr req"
  shows "\<exists>chs cs us i s'. dict_get (tr_comments s) iid = Some cs \<and> dict_get (tr_updates s) iid = Some us \<and>
    replay chs iss = spec_modify req iss \<and>
    modify_outcome iid (im_comment req) chs (spec_modify req iss) cs us s = (i, s') \<and>
    modify_issue iid req s = (Inr (Some i), s')"
proof -
  from assms(1,2) obtain cs us where h: "dict_get (tr_comments s) iid = Some cs"
    "dict_get (tr_updates s) iid = Some us" by (rule holdsE)
  obtain chs where "replay chs iss = spec_modify req iss" "modify_issue iid req s =
    (let (i, s') = modify_outcome iid (im_comment req) chs (spec_modify req iss) cs us s in (Inr (Some i), s'))"
    using modify_issue_effect [OF parse_modify_typed [OF assms(3)] assms(2) h] by blast
  with h show ?thesis by (auto split: prod.splits)
qed

definition sample_body :: "(string \<times> pyval) list" where
  "sample_body = [(''add'', PDict [(''status'', PStr ''FIXED'')]), (''addMask'', PStr ''status'')]"

definition sample_req :: issue_modify where
  "sample_req = \<lparr>im_sets = [(''status'', ''FIXED'')], im_add = [], im_remove = [], im_comment = None\<rparr>"

lemma sample_parse: "parse_modify sample_body = Inr sample_req"
  by code_simp

lemma sample_inv: "tracker_inv (snd (tracker_run [] sample_tracker))"
  using IssueTrackerModule_inv [OF sample_built] by (simp add: tracker_run_def)

theorem modify_issue_refines_spec_witness:
  "\<exists>i s'. modify_issue 1001 sample_req (snd (tracker_run [] sample_tracker)) = (Inr (Some i), s')"
  using modify_issue_refines_spec [OF sample_inv sample_has_issue sample_parse] by blast

end
