(* ===== verification/Tracker_Listing.thy ===== *)
theory Tracker_Listing
  imports Tracker_Service
begin

text \<open>
  Listing issues: the composite order of \<open>list_issues\<close>, and what a client that follows the page
  tokens receives.
\<close>

section \<open>Stable sorting by several keys\<close>

lemma insort_key_lex:
  assumes "sorted_wrt (\<lambda>a b. k a < k b \<or> k a = k b \<and> R a b) ys" and "\<forall>y \<in> set ys. R x y"
  shows "sorted_wrt (\<lambda>a b. k a < (k b :: 'k :: linorder) \<or> k a = k b \<and> R a b) (insort_key k x ys)"
  using assms
proof (induction ys)
  case Nil
  then show ?case by simp
next
  case (Cons y ys)
  show ?case
  proof (cases "k x \<le> k y")
    case True
    have "k x < k z \<or> k x = k z \<and> R x z" if "z \<in> set (y # ys)" for z
    proof -
      from that Cons.prems(1) have "k y \<le> k z" by (auto simp: order_le_less)
      with True have "k x \<le> k z" by simp
      with that Cons.prems(2) show ?thesis by (auto simp: order_le_less)
    qed
    with True Cons.prems(1) show ?thesis by auto
  next
    case False
    with Cons show ?thesis by (auto simp: set_insort_key not_le)
  qed
qed

lemma sort_key_lex:
  "sorted_wrt R xs \<Longrightarrow> sorted_wrt (\<lambda>a b. k a < k b \<or> k a = k b \<and> R a b) (sort_key k xs)"
  by (induction xs) (simp_all add: insort_key_lex)

lemma py_sort_lex:
  assumes "sorted_wrt R xs"
  shows "sorted_wrt (\<lambda>a b. (if d then k b < k a else k a < k b) \<or> k a = k b \<and> R a b) (py_sort k d xs)"
proof (cases d)
  case True
  have "sorted_wrt (\<lambda>a b. R b a) (rev xs)" using assms by (simp add: sorted_wrt_rev)
  from sort_key_lex [OF this, of k] True show ?thesis
    by (simp add: py_sort_def sorted_wrt_rev eq_commute)
next
  case False
  with sort_key_lex [OF assms, of k] show ?thesis by (simp add: py_sort_def)
qed

section \<open>The order of a listing\<close>

text \<open>
  The specification: the first key in which two issues differ decides, in its direction; issues
  alike in all of them are ordered by id.
\<close>

fun row_le :: "((issue \<Rightarrow> sort_val) \<times> bool) list \<Rightarrow> issue \<Rightarrow> issue \<Rightarrow> bool" where
  "row_le [] x y \<longleftrightarrow> iss_id x \<le> iss_id y"
| "row_le ((k, d) # ks) x y \<longleftrightarrow>
     (if k x = k y then row_le ks x y else if d then k y < k x else k x < k y)"

definition order_keys :: "(string \<times> bool) list \<Rightarrow> ((issue \<Rightarrow> sort_val) \<times> bool) list" where
  "order_keys order = map (\<lambda>(f, d). (the (map_of SORT_FIELDS f), d)) order"

lemma sort_rows_sorted:
  "sort_rows order rows = Inr rows' \<Longrightarrow> sorted_wrt (row_le []) rows \<Longrightarrow>
   sorted_wrt (row_le (order_keys order)) rows' \<and> mset rows' = mset rows"
proof (induction order rows arbitrary: rows' rule: sort_rows.induct)
  case (1 rows)
  then show ?case by (simp add: order_keys_def)
next
  case (2 f d order rows)
  then obtain rows1 k where r: "sort_rows order rows = Inr rows1" "map_of SORT_FIELDS f = Some k"
    "rows' = py_sort k d rows1" by (auto simp: result_simps split: option.splits)
  with 2 have "sorted_wrt (row_le (order_keys order)) rows1" "mset rows1 = mset rows" by auto
  from py_sort_lex [OF this(1), of d k] this(2) r show ?case
    by (auto simp: order_keys_def elim!: sorted_wrt_mono_rel [rotated] split: if_splits)
qed

text \<open>An \<open>orderBy\<close> that parses names only fields the driver can sort by.\<close>

lemma parse_order_by_fields:
  "parse_order_by ob = Inr order \<Longrightarrow> \<forall>(f, d) \<in> set order. map_of SORT_FIELDS f \<noteq> None"
proof -
  assume o: "parse_order_by ob = Inr order"
  have "map_of SORT_FIELDS f \<noteq> None" if "parse_order_part p = Inr (f, d)" for p f d
    using that by (auto simp: parse_order_part_def ORDER_FIELDS_def SORT_FIELDS_def Let_def
        split: list.splits if_splits)
  with o show ?thesis
    by (auto simp: parse_order_by_def split: option.splits if_splits dest!: rmap_Inr_set)
qed

lemma sort_rows_total:
  "\<forall>(f, d) \<in> set order. map_of SORT_FIELDS f \<noteq> None \<Longrightarrow> \<exists>rows'. sort_rows order rows = Inr rows'"
  by (induction order rows rule: sort_rows.induct) auto

section \<open>Following the page tokens\<close>

definition tracker_page :: "'a list \<Rightarrow> int \<Rightarrow> string \<Rightarrow> tracker_exn + 'a list \<times> string" where
  "tracker_page rows sz tok = tracker_paginate rows \<lparr>page_size = sz, page_token = tok\<rparr>"

interpretation tracker_pages: offset_paginator tracker_page
proof
  fix k :: nat and rows :: "'a list" and sz
  assume "k < int_str_bound"
  then have off: "(if offset_token k = [] then Inr 0 else case py_int (offset_token k) of
      None \<Rightarrow> Inl (DriverRejects (''invalid pageToken '' @ py_repr (offset_token k))) | Some i \<Rightarrow> Inr i) = Inr (int k)"
    by (simp add: offset_token_def)
  have n: "(if 0 < sz then sz else 25) = int (page_len sz)" by (simp add: page_len_def)
  have str: "str_int (int k + int (page_len sz)) = str_nat (k + page_len sz)"
    by (simp add: str_int_def str_nat_def)
  show "tracker_page rows sz (offset_token k) = Inr (take (page_len sz) (drop k rows),
      if k + page_len sz < length rows then str_nat (k + page_len sz) else [])"
    unfolding tracker_page_def tracker_paginate_def page.simps off n by (simp add: str Let_def) 
qed

text \<open>One page of a listing as the client of the driver sees it: its rows and the next token.\<close>

definition list_page :: "tracker \<Rightarrow> string \<Rightarrow> (string \<times> bool) list \<Rightarrow> int \<Rightarrow> string \<Rightarrow>
    tracker_exn + issue list \<times> string" where
  "list_page s q order sz tok =
     (case fst (list_issues \<lparr>q_query = q, q_order_by = order,
                 q_page = \<lparr>page_size = sz, page_token = tok\<rparr>\<rparr> s) of
        Inl e \<Rightarrow> Inl e | Inr p \<Rightarrow> Inr (ip_issues p, ip_next p))"

lemma list_page_rows:
  assumes "rfilter (\<lambda>i. match_issue i q) (dict_values (tr_issues s)) = Inr rows0"
    and "sort_rows order (py_sort iss_id False rows0) = Inr rows"
  shows "list_page s q order sz = tracker_page rows sz"
  by (rule ext) (simp add: list_page_def list_issues_def assms tracker_page_def rbind_def split: sum.splits prod.splits)

lemma sorted_by_id: "sorted_wrt (row_le []) (py_sort iss_id False rows)"
proof -
  have "row_le [] = (\<lambda>x y. iss_id x \<le> iss_id y)" by (simp add: fun_eq_iff)
  then show ?thesis using py_sort_asc [of iss_id rows] by (simp add: sorted_map)
qed

text \<open>
  A client that lists issues with an order the surface parsed and follows the page tokens, with
  whatever page size, while nothing is written, gets through (one request per matching issue is
  enough) and receives exactly the issues that match the query, each once, in the order asked for:
  the first \<open>orderBy\<close> field in which two issues differ decides, in its direction, and ids break
  ties.
\<close>

theorem listing_walk_complete:
  assumes "parse_order_by ob = Inr order" and "length (tr_issues s) < int_str_bound"
    and "rfilter (\<lambda>i. match_issue i q) (dict_values (tr_issues s)) = Inr rows0"
  shows "\<exists>pages. walk_pages (list_page s q order sz) (Suc (length rows0)) [] = Some pages \<and>
    mset (concat pages) = mset (filter (\<lambda>i. match_issue i q = Inr True) (dict_values (tr_issues s))) \<and>
    sorted_wrt (row_le (order_keys order)) (concat pages) \<and>
    list_all (\<lambda>p. length p \<le> page_len sz) pages"
proof -
  obtain rows where rows: "sort_rows order (py_sort iss_id False rows0) = Inr rows"
    using sort_rows_total [OF parse_order_by_fields [OF assms(1)]] by blast
  from sort_rows_sorted [OF rows sorted_by_id]
  have sorted: "sorted_wrt (row_le (order_keys order)) rows" "mset rows = mset rows0" by simp_all
  have flt: "rows0 = filter (\<lambda>i. match_issue i q = Inr True) (dict_values (tr_issues s))"
    using rfilter_Inr [OF assms(3)] .
  have len: "length rows = length rows0" using sorted(2) by (rule mset_eq_length)
  moreover have "length rows0 \<le> length (tr_issues s)"
    unfolding flt using length_filter_le [of _ "dict_values (tr_issues s)"] by simp
  ultimately have "length rows < int_str_bound" using assms(2) by simp
  from tracker_pages.walk_complete [OF this, of sz] sorted len show ?thesis
    unfolding list_page_rows [OF assms(3) rows] by (simp add: flt del: walk_pages.simps) blast
qed

definition listing_sample :: tracker where
  "listing_sample = (empty_tracker ''me'' (\<lambda>_. 0))\<lparr>tr_issues :=
     [(1001, fresh_issue (seed_request (hd (ts_issues sample_settings))) ''me'' 1001 5),
      (1002, fresh_issue (seed_request (hd (ts_issues sample_settings))) ''me'' 1002 9)]\<rparr>"

lemma listing_sample_match:
  "rfilter (\<lambda>i. match_issue i ''status:open'') (dict_values (tr_issues listing_sample)) =
     Inr (dict_values (tr_issues listing_sample))"
  by code_simp

lemma listing_sample_order: "parse_order_by (Some ''created desc'') = Inr [(''created'', True)]"
  by code_simp

theorem listing_walk_complete_witness:
  "\<exists>pages. walk_pages (list_page listing_sample ''status:open'' [(''created'', True)] 1) 3 [] = Some pages \<and>
    sorted_wrt (row_le (order_keys [(''created'', True)])) (concat pages)"
proof -
  have "length (tr_issues listing_sample) < int_str_bound"
    by (rule small_lt_int_str_bound) (simp add: listing_sample_def)
  moreover have "Suc (length (dict_values (tr_issues listing_sample))) = 3"
    by (simp add: listing_sample_def)
  ultimately show ?thesis
    using listing_walk_complete [OF listing_sample_order _ listing_sample_match, of 1] by auto
qed

section \<open>Modification times as clients see them\<close>

text \<open>
  Time stamps are printed with microseconds, but a touch on a clock that does not advance adds four
  ticks, which is less than a microsecond.
\<close>

fun touch_times :: "nat \<Rightarrow> int \<Rightarrow> issue \<Rightarrow> issue tracker_op" where
  "touch_times 0 iid iss = sret iss"
| "touch_times (Suc n) iid iss = sbind (touch iid iss) (touch_times n iid)"

definition modified_after :: "nat \<Rightarrow> int" where
  "modified_after n =
     (case fst (touch_times n 1001 (fresh_issue (seed_request (hd (ts_issues sample_settings))) ''me'' 1001 (sample_clock 0))
                 (empty_tracker ''me'' sample_clock)) of Inl _ \<Rightarrow> 0 | Inr i \<Rightarrow> iss_modified i)"

lemma touch_times_frozen:
  "(\<And>k. tr_clock s k \<le> iss_modified iss) \<Longrightarrow>
   \<exists>i s'. touch_times n iid iss s = (Inr i, s') \<and> iss_modified i = iss_modified iss + 4 * int n"
proof (induction n arbitrary: iss s)
  case 0
  then show ?case by simp
next
  case (Suc n)
  let ?i = "touched (tr_clock s (tr_reads s)) iss"
  let ?s = "put_issue iid ?i (s\<lparr>tr_reads := Suc (tr_reads s)\<rparr>)"
  from Suc.prems [of "tr_reads s"] have "iss_modified ?i = iss_modified iss + 4"
    by (simp add: touched_def plus_microsecond_def)
  moreover from this Suc.prems have "tr_clock ?s k \<le> iss_modified ?i" for k
    by (simp add: put_issue_def) (smt (verit))
  then obtain i s' where "touch_times n iid ?i ?s = (Inr i, s')" "iss_modified i = iss_modified ?i + 4 * int n"
    using Suc.IH [of ?s ?i] by blast
  ultimately show ?case by (simp add: touch_eq Let_def)
qed

lemma modified_after_eq: "modified_after n = 7130316800000000 + 4 * int n"
  using touch_times_frozen [of "empty_tracker ''me'' sample_clock"
      "fresh_issue (seed_request (hd (ts_issues sample_settings))) ''me'' 1001 (sample_clock 0)" n 1001]
  by (auto simp: modified_after_def empty_tracker_def fresh_issue_def sample_clock_def)

text \<open>
  The modification time a client reads does not always move when an issue is written. From a
  time stamp of November 2023, with a wall clock that stands still, the tenth and the eleventh
  touch in a row print the same \<open>modifiedTime\<close>, although the stored values differ.
\<close>

theorem modified_time_collides:
  "tracker_rfc3339 (modified_after 10) = tracker_rfc3339 (modified_after 11) \<and>
   modified_after 10 < modified_after 11"
proof
  have "tracker_rfc3339 7130316800000040 = tracker_rfc3339 7130316800000044" by code_simp
  then show "tracker_rfc3339 (modified_after 10) = tracker_rfc3339 (modified_after 11)"
    by (simp add: modified_after_eq)
qed (simp add: modified_after_eq)

end
