(* ===== verification/Py_Text.thy ===== *)
theory Py_Text
  imports Py_Prelude
begin

text \<open>
  Three text algorithms of the Python standard library that the orchestrator's configuration rests
  on: \<open>shlex.split\<close>, the template syntax of \<open>string.Formatter().parse\<close>, and the conversion of an
  integer to a float.
\<close>

section \<open>shlex.split\<close>

text \<open>
  The POSIX lexer with \<open>whitespace_split\<close> and no comment characters. The state is the one of
  \<open>shlex.read_token\<close>: between words, inside a word, inside a quotation, after a backslash (with the
  state to return to). \<open>quoted\<close> says that the current word had a quotation, so that it counts even
  when it is empty.
\<close>

datatype lex_state = LexBlank | LexWord | LexQuote char | LexEscape "char option"

abbreviation ch_backslash :: char where "ch_backslash \<equiv> CHR 0x5C"
abbreviation ch_dquote :: char where "ch_dquote \<equiv> CHR 0x22"
abbreviation ch_squote :: char where "ch_squote \<equiv> CHR 0x27"

definition lex_space :: "char \<Rightarrow> bool" where
  "lex_space c \<longleftrightarrow> c \<in> {CHR '' '', CHR 0x09, ch_return, ch_newline}"

definition lex_emit :: "string \<Rightarrow> bool \<Rightarrow> string list" where
  "lex_emit token quoted = (if token \<noteq> [] \<or> quoted then [token] else [])"

fun lex :: "lex_state \<Rightarrow> string \<Rightarrow> bool \<Rightarrow> string \<Rightarrow> py_exn + string list" where
  "lex LexBlank token quoted [] = Inr (lex_emit token quoted)"
| "lex LexWord token quoted [] = Inr (lex_emit token quoted)"
| "lex (LexQuote q) token quoted [] = Inl ValueError"
| "lex (LexEscape e) token quoted [] = Inl ValueError"
| "lex LexBlank token quoted (c # cs) =
     (if lex_space c then rbind (lex LexBlank [] False cs) (\<lambda>ws. Inr (lex_emit token quoted @ ws))
      else if c = ch_backslash then lex (LexEscape None) token quoted cs
      else if c = ch_squote \<or> c = ch_dquote then lex (LexQuote c) token quoted cs
      else lex LexWord [c] quoted cs)"
| "lex LexWord token quoted (c # cs) =
     (if lex_space c then rbind (lex LexBlank [] False cs) (\<lambda>ws. Inr (lex_emit token quoted @ ws))
      else if c = ch_squote \<or> c = ch_dquote then lex (LexQuote c) token quoted cs
      else if c = ch_backslash then lex (LexEscape None) token quoted cs
      else lex LexWord (token @ [c]) quoted cs)"
| "lex (LexQuote q) token quoted (c # cs) =
     (if c = q then lex LexWord token True cs
      else if c = ch_backslash \<and> q = ch_dquote then lex (LexEscape (Some q)) token True cs
      else lex (LexQuote q) (token @ [c]) True cs)"
| "lex (LexEscape e) token quoted (c # cs) =
     (case e of
        None \<Rightarrow> lex LexWord (token @ [c]) quoted cs
      | Some q \<Rightarrow>
          lex (LexQuote q)
            (token @ (if c \<noteq> ch_backslash \<and> c \<noteq> q then [ch_backslash, c] else [c])) quoted cs)"

definition shlex_split :: "string \<Rightarrow> py_exn + string list" where
  "shlex_split s = lex LexBlank [] False s"

section \<open>string.Formatter().parse\<close>

text \<open>
  The field names of a format string, or \<open>None\<close> where the parser raises \<open>ValueError\<close>. A field
  name runs to the first closing brace, colon or exclamation mark; a bracketed part of it is skipped
  over; the conversion and the (nested) format specification after it are skipped.
\<close>

text \<open>After a format specification's start: the rest of the string after its closing brace.\<close>

fun skip_spec :: "nat \<Rightarrow> string \<Rightarrow> string option" where
  "skip_spec n [] = None"
| "skip_spec n (c # cs) =
     (if c = CHR ''{'' then skip_spec (Suc n) cs
      else if c = CHR ''}'' then (if n = 0 then Some cs else skip_spec (n - 1) cs)
      else skip_spec n cs)"

definition skip_conversion :: "string \<Rightarrow> string option" where
  "skip_conversion s =
     (case s of
        [] \<Rightarrow> None
      | _ # [] \<Rightarrow> None
      | _ # c # cs \<Rightarrow> if c = CHR ''}'' then Some cs else if c = CHR '':'' then skip_spec 0 cs else None)"

text \<open>Reads a field name; the flag says that we are inside brackets.\<close>

fun field_name :: "bool \<Rightarrow> string \<Rightarrow> string \<Rightarrow> (string \<times> string) option" where
  "field_name inb acc [] = None"
| "field_name inb acc (c # cs) =
     (if inb then field_name (c \<noteq> CHR '']'') (acc @ [c]) cs
      else if c = CHR ''{'' then None
      else if c = CHR ''['' then field_name True (acc @ [c]) cs
      else if c = CHR ''}'' then Some (acc, cs)
      else if c = CHR '':'' then map_option (\<lambda>r. (acc, r)) (skip_spec 0 cs)
      else if c = CHR ''!'' then map_option (\<lambda>r. (acc, r)) (skip_conversion cs)
      else field_name False (acc @ [c]) cs)"

lemma skip_spec_shorter: "skip_spec n s = Some r \<Longrightarrow> length r < length s"
  by (induction n s rule: skip_spec.induct) (fastforce split: if_splits)+

lemma skip_conversion_shorter: "skip_conversion s = Some r \<Longrightarrow> length r < length s"
  by (auto simp: skip_conversion_def split: list.splits if_splits dest!: skip_spec_shorter)

lemma field_name_shorter: "field_name inb acc s = Some (f, r) \<Longrightarrow> length r < length s"
  by (induction inb acc s rule: field_name.induct)
    (fastforce split: if_splits dest: skip_spec_shorter skip_conversion_shorter)+

function fmt_fields :: "string \<Rightarrow> string list option" where
  "fmt_fields s =
     (case s of
        [] \<Rightarrow> Some []
      | c # cs \<Rightarrow>
          if c = CHR ''}'' then (case cs of d # ds \<Rightarrow> if d = c then fmt_fields ds else None | [] \<Rightarrow> None)
          else if c = CHR ''{'' then
            (case cs of
               [] \<Rightarrow> None
             | d # ds \<Rightarrow>
                 if d = c then fmt_fields ds
                 else (case field_name False [] cs of
                         None \<Rightarrow> None
                       | Some (f, rest) \<Rightarrow> map_option (Cons f) (fmt_fields rest)))
          else fmt_fields cs)"
  by pat_completeness auto
termination
  by (relation "measure length") (auto simp del: field_name.simps dest!: field_name_shorter)

declare fmt_fields.simps [simp del]

section \<open>os.path\<close>

definition path_isabs :: "string \<Rightarrow> bool" where
  "path_isabs p \<longleftrightarrow> prefix ''/'' p"

definition path_join :: "string \<Rightarrow> string \<Rightarrow> string" where
  "path_join base p =
     (if path_isabs p then p
      else if base = [] \<or> last base = CHR ''/'' then base @ p
      else base @ ''/'' @ p)"

definition file_basename :: "string \<Rightarrow> string" where
  "file_basename p = (case rpartition_ch (CHR ''/'') p of (_, _, b) \<Rightarrow> b)"

definition file_dirname :: "string \<Rightarrow> string" where
  "file_dirname p =
     (let head = rev (dropWhile (\<lambda>c. c \<noteq> CHR ''/'') (rev p))
      in if list_all (\<lambda>c. c = CHR ''/'') head then head else rev (dropWhile (\<lambda>c. c = CHR ''/'') (rev head)))"

section \<open>float(int)\<close>

function bit_len :: "int \<Rightarrow> nat" where
  "bit_len n = (if n \<le> 0 then 0 else Suc (bit_len (n div 2)))"
  by pat_completeness auto
termination
  by (relation "measure nat") auto

declare bit_len.simps [simp del]

text \<open>Round to nearest, ties to even.\<close>

definition round_div :: "int \<Rightarrow> int \<Rightarrow> int" where
  "round_div a b =
     (if 2 * (a mod b) < b \<or> (2 * (a mod b) = b \<and> even (a div b)) then a div b else a div b + 1)"

definition float_mag :: "int \<Rightarrow> int" where
  "float_mag n =
     (if bit_len n \<le> 53 then n else round_div n (2 ^ (bit_len n - 53)) * 2 ^ (bit_len n - 53))"

definition float_of_int :: "int \<Rightarrow> py_exn + pyfloat" where
  "float_of_int i =
     (if bit_len \<bar>i\<bar> \<le> 53 then Inr (Fin (of_int i))
      else if bit_len (float_mag \<bar>i\<bar>) > 1024 then Inl OverflowError
      else Inr (Fin (of_int (sgn i * float_mag \<bar>i\<bar>))))"

section \<open>Checks against the library's documented behaviour\<close>

lemma shlex_examples:
  "shlex_split ''./run --flag'' = Inr [''./run'', ''--flag'']"
  "shlex_split ''a 'b c' && d'' = Inr [''a'', ''b c'', ''&&'', ''d'']"
  "shlex_split ''x '' = Inr [''x'']"
  "shlex_split ''it's'' = Inl ValueError"
  by code_simp+

lemma fmt_fields_examples:
  "fmt_fields ''{bin.backend} --port {port.http}'' = Some [''bin.backend'', ''port.http'']"
  "fmt_fields ''{{literal}} {x!r:>{w}}'' = Some [''x'']"
  "fmt_fields ''{a[}]}'' = Some [''a[}]'']"
  "fmt_fields ''a {'' = None"
  by code_simp+

end
