(* ===== verification/Orc_Config.thy ===== *)
theory Orc_Config
  imports Py_Text
begin

text \<open>
  \<^verbatim>\<open>src/jetty/orchestrator/config.py\<close>: from a TOML document to a validated configuration. A TOML value
  is a \<open>pyval\<close>; the date and time types of TOML, which no accessor accepts, are \<open>PNone\<close>. Every
  \<open>raise ConfigError\<close> is a constructor of \<open>cfg_exn\<close> that carries what its message interpolates; any
  other Python exception that escapes is \<open>CfgPy\<close>. The file system and the home directory are
  parameters (\<open>cfg_env\<close>).
\<close>

section \<open>Errors and names\<close>

datatype cfg_exn =
  ExpectedTable string
| KeyRequired string
| MustBe string string
| OutOfBound string
| NeedsEntries string nat
| BadArgv string
| UnknownKeys string "string list"
| AtMostOneProbe string
| HttpProbe string
| BadName string string
| NoServices
| BadPort string
| PortClash string string int
| ProvidesBadName string string
| ProvidedTwice string string string
| ResolverUsesBin string
| ResolverUnknownGate string string
| GateUsesBin string
| AfterItself string
| AfterUnknown string string
| ServiceUnknownGate string string
| BinUnprovided string string
| AfterCycle "string list"
| ExtendsCycle string
| FileNotFound string
| TomlError string
| ExtendsNotString string
| ExtendsOutside string string
| CfgPy py_exn

definition name_start :: "char \<Rightarrow> bool" where
  "name_start c \<longleftrightarrow> is_lower_az c \<or> is_ascii_digit c"

definition name_rest :: "char \<Rightarrow> bool" where
  "name_rest c \<longleftrightarrow> name_start c \<or> c = CHR ''_'' \<or> c = CHR ''-''"

text \<open>\<open>^[a-z0-9][a-z0-9_-]{0,63}$\<close> as \<open>re.match\<close> reads it.\<close>

definition plain_name :: "string \<Rightarrow> bool" where
  "plain_name s \<longleftrightarrow>
     (case s of [] \<Rightarrow> False | c # cs \<Rightarrow> name_start c \<and> list_all name_rest cs \<and> length cs \<le> 63)"

definition NAME_RE :: "string \<Rightarrow> bool" where
  "NAME_RE s = re_dollar plain_name s"

section \<open>Tables\<close>

record cfg_table =
  tb_raw :: "(string, pyval) dict"
  tb_where :: string

type_synonym 'a take = "(cfg_table, cfg_exn, 'a) opn"

definition or_config :: "string \<Rightarrow> string" where
  "or_config wh = (if wh = [] then ''config'' else wh)"

definition Table :: "pyval \<Rightarrow> string \<Rightarrow> cfg_exn + cfg_table" where
  "Table raw wh =
     (case raw of PDict d \<Rightarrow> Inr \<lparr>tb_raw = d, tb_where = wh\<rparr> | _ \<Rightarrow> Inl (ExpectedTable (or_config wh)))"

definition at_key :: "cfg_table \<Rightarrow> string \<Rightarrow> string" where
  "at_key t key = (if tb_where t \<noteq> [] then tb_where t @ ''.'' @ key else key)"

text \<open>\<open>self._raw.pop(key, default)\<close>.\<close>

definition pop :: "string \<Rightarrow> pyval \<Rightarrow> pyval take" where
  "pop key d t = (Inr (dict_get_or (tb_raw t) key d), t\<lparr>tb_raw := dict_del key (tb_raw t)\<rparr>)"

definition fail_at :: "string \<Rightarrow> string \<Rightarrow> 'a take" where
  "fail_at key what = sbind (sget (\<lambda>t. at_key t key)) (\<lambda>a. sraise (MustBe a what))"

definition out_of_bound :: "string \<Rightarrow> 'a take" where
  "out_of_bound key = sbind (sget (\<lambda>t. at_key t key)) (\<lambda>a. sraise (OutOfBound a))"

definition take_str :: "string \<Rightarrow> string option take" where
  "take_str key =
     sbind (sget (\<lambda>t. dict_in key (tb_raw t))) (\<lambda>present.
       if \<not> present then sret None
       else sbind (pop key PNone) (\<lambda>v.
              case v of PStr s \<Rightarrow> sret (Some s) | _ \<Rightarrow> fail_at key ''a string''))"

definition take_str_required :: "string \<Rightarrow> string take" where
  "take_str_required key =
     sbind (take_str key) (\<lambda>r.
       case r of Some s \<Rightarrow> sret s
       | None \<Rightarrow> sbind (sget (\<lambda>t. at_key t key)) (\<lambda>a. sraise (KeyRequired a)))"

datatype number_bound = Gt rat | Ge rat

definition float_gt :: "pyfloat \<Rightarrow> rat \<Rightarrow> bool" where
  "float_gt f q = (case f of Fin r \<Rightarrow> q < r | PosInf \<Rightarrow> True | _ \<Rightarrow> False)"

definition float_ge :: "pyfloat \<Rightarrow> rat \<Rightarrow> bool" where
  "float_ge f q = (case f of Fin r \<Rightarrow> q \<le> r | PosInf \<Rightarrow> True | _ \<Rightarrow> False)"

definition in_bound :: "number_bound \<Rightarrow> pyfloat \<Rightarrow> bool" where
  "in_bound b f = (case b of Gt q \<Rightarrow> float_gt f q | Ge q \<Rightarrow> float_ge f q)"

definition take_number :: "string \<Rightarrow> rat \<Rightarrow> number_bound \<Rightarrow> pyfloat take" where
  "take_number key d bound =
     sbind (pop key (PFloat (Fin d))) (\<lambda>v.
     sbind (case v of
              PInt i \<Rightarrow> slift (case float_of_int i of Inl e \<Rightarrow> Inl (CfgPy e) | Inr f \<Rightarrow> Inr f)
            | PFloat f \<Rightarrow> sret f
            | _ \<Rightarrow> fail_at key ''a number'') (\<lambda>f.
       if in_bound bound f then sret f else out_of_bound key))"

definition take_int :: "string \<Rightarrow> int \<Rightarrow> int \<Rightarrow> int take" where
  "take_int key d lo =
     sbind (pop key (PInt d)) (\<lambda>v.
       case v of PInt i \<Rightarrow> if i < lo then out_of_bound key else sret i
       | _ \<Rightarrow> fail_at key ''an integer'')"

definition take_bool :: "string \<Rightarrow> bool \<Rightarrow> bool take" where
  "take_bool key d =
     sbind (pop key (PBool d)) (\<lambda>v.
       case v of PBool b \<Rightarrow> sret b | _ \<Rightarrow> fail_at key ''true or false'')"

definition as_strs :: "pyval \<Rightarrow> string list option" where
  "as_strs v = (case v of PList xs \<Rightarrow> if list_all is_str xs then Some (map str_of xs) else None | _ \<Rightarrow> None)"

definition take_str_list :: "string \<Rightarrow> nat \<Rightarrow> string list take" where
  "take_str_list key min_len =
     sbind (pop key (PList [])) (\<lambda>v.
       case as_strs v of
         None \<Rightarrow> fail_at key ''a list of strings''
       | Some xs \<Rightarrow>
           if length xs < min_len
           then sbind (sget (\<lambda>t. at_key t key)) (\<lambda>a. sraise (NeedsEntries a min_len))
           else sret xs)"

definition take_argv :: "string \<Rightarrow> nat \<Rightarrow> string list take" where
  "take_argv key min_len =
     sbind (sget (\<lambda>t. dict_get (tb_raw t) key)) (\<lambda>value.
     sbind (case value of
              Some (PStr s) \<Rightarrow>
                (case shlex_split s of
                   Inl _ \<Rightarrow> sbind (sget (\<lambda>t. at_key t key)) (\<lambda>a. sraise (BadArgv a))
                 | Inr ws \<Rightarrow> smod (\<lambda>t. t\<lparr>tb_raw := dict_set key (PList (map PStr ws)) (tb_raw t)\<rparr>))
            | _ \<Rightarrow> sret ()) (\<lambda>_. take_str_list key min_len))"

definition as_ints :: "pyval \<Rightarrow> int list option" where
  "as_ints v =
     (case v of
        PList xs \<Rightarrow>
          if list_all (\<lambda>x. case x of PInt _ \<Rightarrow> True | _ \<Rightarrow> False) xs
          then Some (map (\<lambda>x. case x of PInt i \<Rightarrow> i | _ \<Rightarrow> 0) xs) else None
      | _ \<Rightarrow> None)"

definition take_int_list :: "string \<Rightarrow> int list \<Rightarrow> int list take" where
  "take_int_list key d =
     sbind (pop key (PList (map PInt d))) (\<lambda>v.
       case as_ints v of None \<Rightarrow> fail_at key ''a list of integers'' | Some xs \<Rightarrow> sret xs)"

definition take_str_dict :: "string \<Rightarrow> (string, string) dict take" where
  "take_str_dict key =
     sbind (pop key (PDict [])) (\<lambda>v.
       case v of
         PDict d \<Rightarrow>
           if list_all (\<lambda>(k, x). is_str x) d then sret (map (\<lambda>(k, x). (k, str_of x)) d)
           else fail_at key ''a table of strings''
       | _ \<Rightarrow> fail_at key ''a table of strings'')"

definition take_choice :: "string \<Rightarrow> string list \<Rightarrow> string \<Rightarrow> string take" where
  "take_choice key choices d =
     sbind (pop key (PStr d)) (\<lambda>v.
       case v of PStr s \<Rightarrow> if s \<in> set choices then sret s else fail_at key ''one of its choices''
       | _ \<Rightarrow> fail_at key ''one of its choices'')"

definition take_table :: "string \<Rightarrow> (string, pyval) dict take" where
  "take_table key =
     sbind (pop key (PDict [])) (\<lambda>v.
       case v of PDict d \<Rightarrow> sret d | _ \<Rightarrow> fail_at key ''a table'')"

definition table_done :: "unit take" where
  "table_done t =
     (if tb_raw t \<noteq> [] then (Inl (UnknownKeys (or_config (tb_where t)) (sort (dict_keys (tb_raw t)))), t)
      else (Inr (), t))"

definition with_table :: "pyval \<Rightarrow> string \<Rightarrow> 'a take \<Rightarrow> cfg_exn + 'a" where
  "with_table raw wh m = rbind (Table raw wh) (\<lambda>t. fst (m t))"

section \<open>The sections of a configuration\<close>

record gate_config =
  g_check :: "string list"
  g_recheck :: pyfloat
  g_timeout :: pyfloat
  g_continuous :: bool
  g_close_after :: int

definition GateConfig_parse :: "pyval \<Rightarrow> string \<Rightarrow> cfg_exn + gate_config" where
  "GateConfig_parse raw wh = with_table raw wh (
     sbind (take_argv ''check'' 1) (\<lambda>check.
     sbind (take_number ''recheck_seconds'' 15 (Gt 0)) (\<lambda>recheck.
     sbind (take_number ''timeout_seconds'' 20 (Gt 0)) (\<lambda>timeout.
     sbind (take_bool ''continuous'' False) (\<lambda>continuous.
     sbind (take_int ''close_after'' 3 1) (\<lambda>close_after.
     sbind table_done (\<lambda>_.
       sret \<lparr>g_check = check, g_recheck = recheck, g_timeout = timeout,
             g_continuous = continuous, g_close_after = close_after\<rparr>)))))))"

record resolver_config =
  r_cmd :: "string list"
  r_provides :: "string list"
  r_timeout :: pyfloat
  r_refresh :: string
  r_cache :: pyfloat
  r_copy :: bool
  r_keep_days :: pyfloat
  r_requires :: "string list"

definition ResolverConfig_parse :: "pyval \<Rightarrow> string \<Rightarrow> cfg_exn + resolver_config" where
  "ResolverConfig_parse raw wh = with_table raw wh (
     sbind (take_argv ''cmd'' 1) (\<lambda>cmd.
     sbind (take_str_list ''provides'' 0) (\<lambda>provides.
     sbind (take_number ''timeout_seconds'' 30 (Gt 0)) (\<lambda>timeout.
     sbind (take_choice ''refresh'' [''spawn'', ''instance''] ''spawn'') (\<lambda>refresh.
     sbind (take_number ''cache_seconds'' 5 (Ge 0)) (\<lambda>cache.
     sbind (take_bool ''copy'' False) (\<lambda>copy.
     sbind (take_number ''copy_keep_days'' 7 (Gt 0)) (\<lambda>keep.
     sbind (take_str_list ''requires'' 0) (\<lambda>requires.
     sbind table_done (\<lambda>_.
       sret \<lparr>r_cmd = cmd, r_provides = provides, r_timeout = timeout, r_refresh = refresh,
             r_cache = cache, r_copy = copy, r_keep_days = keep, r_requires = requires\<rparr>))))))))))"

record ready_config =
  rd_http :: "string option"
  rd_tcp :: "string option"
  rd_uds :: "string option"
  rd_path :: "string option"
  rd_timeout :: pyfloat
  rd_interval :: pyfloat

definition probe_count :: "ready_config \<Rightarrow> nat" where
  "probe_count r = length (filter (\<lambda>x. x \<noteq> None) [rd_http r, rd_tcp r, rd_uds r, rd_path r])"

definition ReadyConfig_check :: "ready_config \<Rightarrow> string \<Rightarrow> cfg_exn + ready_config" where
  "ReadyConfig_check cfg wh =
     (if 1 < probe_count cfg then Inl (AtMostOneProbe wh)
      else case rd_http cfg of
             Some u \<Rightarrow> if \<not> prefix ''http://'' u then Inl (HttpProbe wh) else Inr cfg
           | None \<Rightarrow> Inr cfg)"

definition ReadyConfig_parse :: "pyval \<Rightarrow> string \<Rightarrow> cfg_exn + ready_config" where
  "ReadyConfig_parse raw wh = rbind (with_table raw wh (
     sbind (take_str ''http'') (\<lambda>http.
     sbind (take_str ''tcp'') (\<lambda>tcp.
     sbind (take_str ''uds'') (\<lambda>uds.
     sbind (take_str ''path'') (\<lambda>path.
     sbind (take_number ''timeout_seconds'' 30 (Gt 0)) (\<lambda>timeout.
     sbind (take_number ''interval_seconds'' (1/4) (Gt 0)) (\<lambda>interval.
     sbind table_done (\<lambda>_.
       sret \<lparr>rd_http = http, rd_tcp = tcp, rd_uds = uds, rd_path = path,
             rd_timeout = timeout, rd_interval = interval\<rparr>)))))))))
     (\<lambda>cfg. ReadyConfig_check cfg wh)"

record restart_config =
  rs_max :: int
  rs_window :: pyfloat
  rs_backoff_initial :: pyfloat
  rs_backoff_max :: pyfloat
  rs_no_restart_exit :: "int list"

definition RestartConfig_parse :: "pyval \<Rightarrow> string \<Rightarrow> cfg_exn + restart_config" where
  "RestartConfig_parse raw wh = with_table raw wh (
     sbind (take_int ''max_restarts'' 3 0) (\<lambda>mx.
     sbind (take_number ''window_seconds'' 60 (Gt 0)) (\<lambda>window.
     sbind (take_number ''backoff_initial_seconds'' (1/2) (Gt 0)) (\<lambda>initial.
     sbind (take_number ''backoff_max_seconds'' 15 (Gt 0)) (\<lambda>bmax.
     sbind (take_int_list ''no_restart_exit'' [2]) (\<lambda>codes.
     sbind table_done (\<lambda>_.
       sret \<lparr>rs_max = mx, rs_window = window, rs_backoff_initial = initial,
             rs_backoff_max = bmax, rs_no_restart_exit = codes\<rparr>)))))))"

record stop_config =
  st_signal :: string
  st_grace :: pyfloat

definition StopConfig_parse :: "pyval \<Rightarrow> string \<Rightarrow> cfg_exn + stop_config" where
  "StopConfig_parse raw wh = with_table raw wh (
     sbind (take_choice ''signal'' [''TERM'', ''INT'', ''HUP''] ''TERM'') (\<lambda>signal.
     sbind (take_number ''grace_seconds'' 10 (Gt 0)) (\<lambda>grace.
     sbind table_done (\<lambda>_. sret \<lparr>st_signal = signal, st_grace = grace\<rparr>))))"

record service_config =
  sv_cmd :: "string list"
  sv_cwd :: "string option"
  sv_env :: "(string, string) dict"
  sv_after :: "string list"
  sv_requires :: "string list"
  sv_ready :: ready_config
  sv_restart :: restart_config
  sv_stop :: stop_config
  sv_watch :: "string list"

definition sub_table :: "string \<Rightarrow> (pyval \<Rightarrow> string \<Rightarrow> cfg_exn + 'a) \<Rightarrow> 'a take" where
  "sub_table key parse =
     sbind (take_table key) (\<lambda>d. sbind (sget (\<lambda>t. at_key t key)) (\<lambda>a. slift (parse (PDict d) a)))"

definition ServiceConfig_parse :: "pyval \<Rightarrow> string \<Rightarrow> cfg_exn + service_config" where
  "ServiceConfig_parse raw wh = with_table raw wh (
     sbind (take_argv ''cmd'' 1) (\<lambda>cmd.
     sbind (take_str ''cwd'') (\<lambda>cwd.
     sbind (take_str_dict ''env'') (\<lambda>env.
     sbind (take_str_list ''after'' 0) (\<lambda>after.
     sbind (take_str_list ''requires'' 0) (\<lambda>requires.
     sbind (take_str_list ''watch'' 0) (\<lambda>watch.
     sbind (sub_table ''ready'' ReadyConfig_parse) (\<lambda>ready.
     sbind (sub_table ''restart'' RestartConfig_parse) (\<lambda>restart.
     sbind (sub_table ''stop'' StopConfig_parse) (\<lambda>stop.
     sbind table_done (\<lambda>_.
       sret \<lparr>sv_cmd = cmd, sv_cwd = cwd, sv_env = env, sv_after = after, sv_requires = requires,
             sv_ready = ready, sv_restart = restart, sv_stop = stop, sv_watch = watch\<rparr>)))))))))))"

record instance_config =
  in_name :: string
  in_containment :: string
  in_workdir :: "string option"

definition InstanceConfig_parse :: "pyval \<Rightarrow> string \<Rightarrow> cfg_exn + instance_config" where
  "InstanceConfig_parse raw wh = rbind (with_table raw wh (
     sbind (take_str_required ''name'') (\<lambda>name.
     sbind (take_choice ''containment'' [''auto'', ''cgroup'', ''scope'', ''pgroup''] ''auto'') (\<lambda>containment.
     sbind (take_str ''workdir'') (\<lambda>workdir.
     sbind table_done (\<lambda>_.
       sret \<lparr>in_name = name, in_containment = containment, in_workdir = workdir\<rparr>))))))
     (\<lambda>cfg. if NAME_RE (in_name cfg) then Inr cfg else Inl (BadName ''instance.name'' (in_name cfg)))"

record orc_config =
  oc_instance :: instance_config
  oc_ports :: "(string, pyval) dict"
  oc_gates :: "(string, gate_config) dict"
  oc_resolvers :: "(string, resolver_config) dict"
  oc_services :: "(string, service_config) dict"

end
