(* ===== verification/Orc_Order.thy ===== *)
theory Orc_Order
  imports Orc_Config
begin

text \<open>
  \<open>start_order\<close> of \<^verbatim>\<open>src/jetty/orchestrator/config.py\<close>: Kahn's algorithm in waves, each wave sorted by
  name. The dictionary \<open>remaining\<close> maps a service to the dependencies it still waits for; a set of
  names is a duplicate-free list. The loop removes at least one service per round, so it ends.
\<close>

section \<open>Definitions\<close>

type_synonym waiting = "(string, string list) dict"

definition wave :: "waiting \<Rightarrow> string list" where
  "wave rem = sort (map fst (filter (\<lambda>(n, deps). deps = []) rem))"

definition drop_wave :: "string list \<Rightarrow> waiting \<Rightarrow> waiting" where
  "drop_wave ready rem =
     map (\<lambda>(n, deps). (n, filter (\<lambda>d. d \<notin> set ready) deps)) (filter (\<lambda>(n, deps). n \<notin> set ready) rem)"

lemma drop_wave_shorter:
  assumes "wave rem \<noteq> []"
  shows "length (drop_wave (wave rem) rem) < length rem"
proof -
  from assms obtain n where "n \<in> set (wave rem)" by (cases "wave rem") auto
  moreover from this obtain deps where "(n, deps) \<in> set rem" by (auto simp: wave_def)
  ultimately have "length (filter (\<lambda>(n, deps). n \<notin> set (wave rem)) rem) < length rem"
    by (intro length_filter_less [of "(n, deps)"]) auto
  then show ?thesis by (simp add: drop_wave_def)
qed

function kahn :: "waiting \<Rightarrow> string list \<Rightarrow> cfg_exn + string list" where
  "kahn rem order =
     (if rem = [] then Inr order
      else if wave rem = [] then Inl (AfterCycle (sort (dict_keys rem)))
      else kahn (drop_wave (wave rem) rem) (order @ wave rem))"
  by pat_completeness auto
termination
  by (relation "measure (\<lambda>(rem, order). length rem)") (simp_all add: drop_wave_shorter)

declare kahn.simps [simp del]

definition start_order :: "(string, service_config) dict \<Rightarrow> cfg_exn + string list" where
  "start_order services = kahn (map (\<lambda>(n, svc). (n, remdups (sv_after svc))) services) []"

section \<open>The dependency graph\<close>

text \<open>\<open>(d, n)\<close>: \<open>n\<close> waits for \<open>d\<close>.\<close>

definition waits :: "waiting \<Rightarrow> (string \<times> string) set" where
  "waits rem = {(d, n). \<exists>deps. (n, deps) \<in> set rem \<and> d \<in> set deps}"

definition closed_deps :: "waiting \<Rightarrow> bool" where
  "closed_deps rem \<longleftrightarrow> (\<forall>(d, n) \<in> waits rem. d \<in> set (dict_keys rem))"

lemma set_wave: "n \<in> set (wave rem) \<longleftrightarrow> (n, []) \<in> set rem"
  by (auto simp: wave_def image_iff)

lemma in_drop_wave:
  "(n, deps) \<in> set (drop_wave ready rem) \<longleftrightarrow>
   (\<exists>ds. (n, ds) \<in> set rem \<and> n \<notin> set ready \<and> deps = filter (\<lambda>d. d \<notin> set ready) ds)"
  by (auto simp: drop_wave_def)

lemma waits_drop_wave: "waits (drop_wave ready rem) = {(d, n) \<in> waits rem. d \<notin> set ready \<and> n \<notin> set ready}"
  by (auto simp: waits_def in_drop_wave)

lemma keys_drop_wave: "dict_keys (drop_wave ready rem) = filter (\<lambda>n. n \<notin> set ready) (dict_keys rem)"
  by (induction rem) (auto simp: drop_wave_def)

lemma closed_drop_wave: "closed_deps rem \<Longrightarrow> closed_deps (drop_wave ready rem)"
  by (auto simp: closed_deps_def waits_drop_wave keys_drop_wave)

lemma wave_minimal:
  assumes "distinct (dict_keys rem)" and "n \<in> set (wave rem)"
  shows "(d, n) \<notin> waits rem"
proof
  assume "(d, n) \<in> waits rem"
  then obtain deps where "(n, deps) \<in> set rem" "d \<in> set deps" by (auto simp: waits_def)
  moreover have "(n, []) \<in> set rem" using assms(2) by (simp add: set_wave)
  ultimately show False using assms(1) eq_key_imp_eq_value [of rem n deps "[]"] by auto
qed

lemma distinct_wave: "distinct (dict_keys rem) \<Longrightarrow> distinct (wave rem)"
  by (simp add: wave_def distinct_map_filter)

section \<open>A returned order is topological\<close>

definition before :: "string list \<Rightarrow> string \<Rightarrow> string \<Rightarrow> bool" where
  "before xs a b \<longleftrightarrow> (\<exists>us vs ws. xs = us @ a # vs @ b # ws)"

text \<open>
  Invariant of the loop: the result extends the order so far by the remaining services, each once,
  and no service stands before one it waits for.
\<close>

lemma sorted_wrt_all: "(\<And>a b. a \<in> set xs \<Longrightarrow> P a b) \<Longrightarrow> sorted_wrt P xs"
  by (induction xs) auto

lemma kahn_order:
  "kahn rem order = Inr result \<Longrightarrow> distinct (dict_keys rem) \<Longrightarrow>
   \<exists>tail. result = order @ tail \<and> mset tail = mset (dict_keys rem) \<and>
     sorted_wrt (\<lambda>a b. (b, a) \<notin> waits rem) tail \<and> (\<forall>n \<in> set tail. (n, n) \<notin> waits rem)"
proof (induction rem order rule: kahn.induct)
  case (1 rem order)
  show ?case
  proof (cases "rem = []")
    case True
    with 1 show ?thesis by (simp add: kahn.simps)
  next
    case False
    let ?w = "wave rem" and ?rem = "drop_wave (wave rem) rem"
    from "1.prems"(1) False have w: "?w \<noteq> []" and k: "kahn ?rem (order @ ?w) = Inr result"
      by (auto simp: kahn.simps [of rem] split: if_splits)
    have d: "distinct (dict_keys ?rem)" using "1.prems"(2) by (simp add: keys_drop_wave)
    obtain tail where t: "result = order @ ?w @ tail" "mset tail = mset (dict_keys ?rem)"
      "sorted_wrt (\<lambda>a b. (b, a) \<notin> waits ?rem) tail" "\<forall>n \<in> set tail. (n, n) \<notin> waits ?rem"
      using "1.IH" [OF False w k d] by auto
    have mset: "mset (?w @ tail) = mset (dict_keys rem)"
    proof -
      have "set ?w \<subseteq> set (dict_keys rem)" by (force simp: set_wave)
      then have "mset ?w = mset (filter (\<lambda>n. n \<in> set ?w) (dict_keys rem))"
        using distinct_wave [OF "1.prems"(2)] "1.prems"(2)
        by (intro set_eq_iff_mset_eq_distinct [THEN iffD1]) auto
      then show ?thesis
        unfolding mset_append t(2) keys_drop_wave
        by (metis (no_types) mset_filter multiset_partition)
    qed
    have setw: "set tail \<inter> set ?w = {}"
      unfolding mset_eq_setD [OF t(2)] keys_drop_wave by auto
    have "sorted_wrt (\<lambda>a b. (b, a) \<notin> waits rem) tail"
      using t(3) setw by (auto simp: waits_drop_wave elim!: sorted_wrt_mono_rel [rotated])
    moreover have min: "(b, a) \<notin> waits rem" if "a \<in> set ?w" for a b
      using wave_minimal [OF "1.prems"(2) that] .
    ultimately have "sorted_wrt (\<lambda>a b. (b, a) \<notin> waits rem) (?w @ tail)"
      by (auto simp: sorted_wrt_append intro: sorted_wrt_all)
    moreover have "\<forall>n \<in> set (?w @ tail). (n, n) \<notin> waits rem"
      using t(4) setw min by (auto simp: waits_drop_wave)
    ultimately show ?thesis using t(1) mset by (intro exI [of _ "?w @ tail"]) simp
  qed
qed

section \<open>An error means a cycle\<close>

lemma kahn_error:
  "kahn rem order = Inl e \<Longrightarrow> closed_deps rem \<Longrightarrow> distinct (dict_keys rem) \<Longrightarrow> \<not> acyclic (waits rem)"
proof (induction rem order rule: kahn.induct)
  case (1 rem order)
  from "1.prems"(1) have ne: "rem \<noteq> []" by (auto simp: kahn.simps)
  show ?case
  proof (cases "wave rem = []")
    case False
    then have "kahn (drop_wave (wave rem) rem) (order @ wave rem) = Inl e"
      using "1.prems"(1) ne by (simp add: kahn.simps [of rem])
    with 1 False ne have "\<not> acyclic (waits (drop_wave (wave rem) rem))"
      by (simp add: closed_drop_wave keys_drop_wave)
    then show ?thesis by (auto simp: waits_drop_wave intro: acyclic_subset)
  next
    case True
    have fin: "finite (waits rem)"
    proof (rule finite_subset)
      show "waits rem \<subseteq> (\<Union>(n, deps) \<in> set rem. set deps \<times> {n})" by (auto simp: waits_def)
    qed auto
    show ?thesis
    proof
      assume "acyclic (waits rem)"
      with fin have "wf (waits rem)" by (rule finite_acyclic_wf)
      moreover obtain n where "n \<in> set (dict_keys rem)" using ne by (cases rem) auto
      ultimately obtain m where m: "m \<in> set (dict_keys rem)" "\<And>d. (d, m) \<in> waits rem \<Longrightarrow> d \<notin> set (dict_keys rem)"
        by (meson wfE_min)
      then obtain deps where "(m, deps) \<in> set rem" by auto
      with True have "deps \<noteq> []" using set_wave [of m rem] by auto
      then have "(hd deps, m) \<in> waits rem" using \<open>(m, deps) \<in> set rem\<close>
        by (auto simp: waits_def intro: hd_in_set)
      moreover from this "1.prems"(2) have "hd deps \<in> set (dict_keys rem)" by (auto simp: closed_deps_def)
      ultimately show False using m(2) by blast
    qed
  qed
qed


text \<open>A topological order rules out cycles.\<close>

lemma before_of_sorted:
  assumes "sorted_wrt (\<lambda>a b. (b, a) \<notin> R) xs" and "\<forall>n \<in> set xs. (n, n) \<notin> R"
    and "(d, n) \<in> R" and "d \<in> set xs" and "n \<in> set xs"
  shows "before xs d n"
proof -
  obtain us ws where n: "xs = us @ n # ws" using assms(5) by (meson split_list)
  have "d \<notin> set (n # ws)" using assms(1-3) n by (auto simp: sorted_wrt_append)
  with assms(4) n have "d \<in> set us" by auto
  then obtain as bs where "us = as @ d # bs" by (meson split_list)
  with n show ?thesis unfolding before_def by (intro exI [of _ as] exI [of _ bs] exI [of _ ws]) simp
qed

lemma before_trans_distinct:
  assumes "distinct xs" and "before xs a b" and "before xs b c"
  shows "before xs a c"
proof -
  from assms(2) obtain us vs ws where 1: "xs = us @ a # vs @ b # ws" by (auto simp: before_def)
  from assms(3) obtain us' vs' ws' where 2: "xs = us' @ b # vs' @ c # ws'" by (auto simp: before_def)
  from 1 2 assms(1) have "us @ a # vs = us'"
    using append_Cons_eq_iff [of b "us @ a # vs" ws us' "vs' @ c # ws'"] by auto
  with 2 show ?thesis unfolding before_def by (metis append.assoc append_Cons)
qed

lemma before_irrefl: "distinct xs \<Longrightarrow> \<not> before xs a a"
  by (auto simp: before_def)

lemma acyclic_of_before:
  assumes "distinct xs" and "\<And>d n. (d, n) \<in> R \<Longrightarrow> before xs d n"
  shows "acyclic R"
proof -
  have "before xs a b" if "(a, b) \<in> R\<^sup>+" for a b
    using that by (induction rule: trancl_induct) (auto intro: assms before_trans_distinct)
  with before_irrefl [OF assms(1)] show ?thesis by (auto simp: acyclic_def)
qed

section \<open>Properties\<close>

definition after_graph :: "(string, service_config) dict \<Rightarrow> (string \<times> string) set" where
  "after_graph services = {(d, n). \<exists>svc. (n, svc) \<in> set services \<and> d \<in> set (sv_after svc)}"

lemma after_graph_Nil: "after_graph [] = {}"
  by (simp add: after_graph_def)

lemma after_graph_Cons: "after_graph ((n, svc) # services) = set (sv_after svc) \<times> {n} \<union> after_graph services"
  by (auto simp: after_graph_def)

lemma waits_services: "waits (map (\<lambda>(n, svc). (n, remdups (sv_after svc))) services) = after_graph services"
  by (force simp: waits_def after_graph_def)

lemma keys_services: "dict_keys (map (\<lambda>(n, svc). (n, remdups (sv_after svc))) services) = dict_keys services"
  by (induction services) auto

lemma start_order_result:
  assumes "distinct (dict_keys services)"
    and "\<forall>(d, n) \<in> after_graph services. d \<in> set (dict_keys services)"
  shows "(case start_order services of
      Inl e \<Rightarrow> \<not> acyclic (after_graph services)
    | Inr order \<Rightarrow> acyclic (after_graph services) \<and> mset order = mset (dict_keys services) \<and>
        (\<forall>(d, n) \<in> after_graph services. before order d n))"
proof (cases "start_order services")
  case (Inl e)
  let ?rem = "map (\<lambda>(n, svc). (n, remdups (sv_after svc))) services"
  have "closed_deps ?rem" unfolding closed_deps_def waits_services keys_services by (rule assms(2))
  with Inl have "\<not> acyclic (waits ?rem)"
    using assms(1) kahn_error [of ?rem "[]" e] unfolding start_order_def keys_services by blast
  with Inl show ?thesis by (simp add: waits_services)
next
  case (Inr order)
  let ?G = "after_graph services"
  from Inr kahn_order [of "map (\<lambda>(n, svc). (n, remdups (sv_after svc))) services" "[]" order,
      unfolded keys_services waits_services] assms(1)
  have o: "mset order = mset (dict_keys services)" "sorted_wrt (\<lambda>a b. (b, a) \<notin> ?G) order"
    "\<forall>n \<in> set order. (n, n) \<notin> ?G"
    by (simp_all add: start_order_def)
  have set: "set order = set (dict_keys services)" using o(1) by (rule mset_eq_setD)
  have bef: "before order d n" if "(d, n) \<in> ?G" for d n
  proof (rule before_of_sorted [OF o(2,3) that])
    show "d \<in> set order" using assms(2) that set by auto
    show "n \<in> set order" unfolding set using that by (force simp: after_graph_def)
  qed
  moreover have "distinct order" using o(1) assms(1) by (metis mset_eq_imp_distinct_iff)
  ultimately show ?thesis using Inr o(1) acyclic_of_before [of order ?G] by auto
qed


lemma start_order_exact:
  assumes "distinct (dict_keys services)"
    and "\<forall>(d, n) \<in> after_graph services. d \<in> set (dict_keys services)"
  shows "(\<exists>order. start_order services = Inr order) \<longleftrightarrow> acyclic (after_graph services)"
  using start_order_result [OF assms] by (auto split: sum.splits)


definition sample_service :: "string list \<Rightarrow> service_config" where
  "sample_service after =
     \<lparr>sv_cmd = [''run''], sv_cwd = None, sv_env = [], sv_after = after, sv_requires = [],
      sv_ready = \<lparr>rd_http = None, rd_tcp = None, rd_uds = None, rd_path = None, rd_timeout = Fin 30,
        rd_interval = Fin (1/4)\<rparr>,
      sv_restart = \<lparr>rs_max = 3, rs_window = Fin 60, rs_backoff_initial = Fin (1/2),
        rs_backoff_max = Fin 15, rs_no_restart_exit = [2]\<rparr>,
      sv_stop = \<lparr>st_signal = ''TERM'', st_grace = Fin 10\<rparr>, sv_watch = []\<rparr>"

definition sample_services :: "(string, service_config) dict" where
  "sample_services = [(''web'', sample_service [''db'', ''auth'']), (''auth'', sample_service [''db'']),
     (''db'', sample_service [])]"

lemma sv_after_sample [simp]: "sv_after (sample_service after) = after"
  by (simp add: sample_service_def)

lemma sample_order: "start_order sample_services = Inr [''db'', ''auth'', ''web'']"
  by code_simp


end
