(* ===== verification/Orc_Validate.thy ===== *)
theory Orc_Validate
  imports Orc_Order
begin

text \<open>
  The cross-checks of \<^verbatim>\<open>src/jetty/orchestrator/config.py\<close> (\<open>OrchestratorConfig._validate\<close>), port
  specifications and template references. A Python set of names is a list here; where the code
  iterates over a sorted set, the list is sorted and duplicate free.
\<close>

section \<open>Template references\<close>

definition bin_refs :: "string list \<Rightarrow> string list" where
  "bin_refs strings =
     concat (map (\<lambda>s. case fmt_fields s of
       None \<Rightarrow> []
     | Some fs \<Rightarrow> map (drop 4) (filter (prefix ''bin.'') fs)) strings)"

definition or_empty :: "string option \<Rightarrow> string" where
  "or_empty v = (case v of None \<Rightarrow> [] | Some s \<Rightarrow> s)"

definition service_bin_refs :: "service_config \<Rightarrow> string list" where
  "service_bin_refs svc =
     bin_refs (sv_cmd svc @ sv_watch svc @ dict_values (sv_env svc) @
       [or_empty (sv_cwd svc), or_empty (rd_http (sv_ready svc)), or_empty (rd_tcp (sv_ready svc)),
        or_empty (rd_uds (sv_ready svc)), or_empty (rd_path (sv_ready svc))])"

section \<open>Port specifications\<close>

datatype port_spec = PortAuto | PortRange int int

definition max_port :: int where
  "max_port = 65535"

definition mk_range :: "int \<Rightarrow> int \<Rightarrow> port_spec option" where
  "mk_range low high = (if 1 \<le> low \<and> low \<le> high \<and> high \<le> max_port then Some (PortRange low high) else None)"

definition int_or_raise :: "string \<Rightarrow> py_exn + int" where
  "int_or_raise s = (case py_int s of None \<Rightarrow> Inl ValueError | Some i \<Rightarrow> Inr i)"

definition parse_port_str :: "string \<Rightarrow> py_exn + port_spec option" where
  "parse_port_str want =
     (if want = ''auto'' then Inr (Some PortAuto)
      else if py_isdigit want then rbind (int_or_raise want) (\<lambda>port. Inr (mk_range port port))
      else case partition_ch (CHR ''-'') want of
        (low_s, True, high_s) \<Rightarrow>
          if \<not> (py_isdigit low_s \<and> py_isdigit high_s) then Inr None
          else rbind (int_or_raise low_s) (\<lambda>low. rbind (int_or_raise high_s) (\<lambda>high. Inr (mk_range low high)))
      | (_, False, _) \<Rightarrow>
          (case partition_ch (CHR ''+'') want of
             (low_s, sep, rest) \<Rightarrow>
               if \<not> sep \<or> rest \<noteq> [] \<or> \<not> py_isdigit low_s then Inr None
               else rbind (int_or_raise low_s) (\<lambda>low. Inr (mk_range low max_port))))"

text \<open>A Python bool is an int: \<open>True\<close> is port 1.\<close>

definition parse_port_spec :: "pyval \<Rightarrow> py_exn + port_spec option" where
  "parse_port_spec want =
     (case want of
        PInt i \<Rightarrow> Inr (mk_range i i)
      | PBool b \<Rightarrow> Inr (mk_range (if b then 1 else 0) (if b then 1 else 0))
      | PStr s \<Rightarrow> parse_port_str s
      | _ \<Rightarrow> Inr None)"

section \<open>The checks in their order\<close>

fun check_names :: "string \<Rightarrow> string list \<Rightarrow> cfg_exn + unit" where
  "check_names kind [] = Inr ()"
| "check_names kind (n # ns) = (if \<not> NAME_RE n then Inl (BadName kind n) else check_names kind ns)"

definition templated :: "pyval \<Rightarrow> bool" where
  "templated want = (case want of PStr s \<Rightarrow> py_in ''{'' s | _ \<Rightarrow> False)"

fun check_ports :: "(int, string) dict \<Rightarrow> (string, pyval) dict \<Rightarrow> cfg_exn + unit" where
  "check_ports fixed [] = Inr ()"
| "check_ports fixed ((name, want) # rest) =
     (if templated want then check_ports fixed rest
      else case parse_port_spec want of
             Inl e \<Rightarrow> Inl (CfgPy e)
           | Inr None \<Rightarrow> Inl (BadPort name)
           | Inr (Some PortAuto) \<Rightarrow> check_ports fixed rest
           | Inr (Some (PortRange lo hi)) \<Rightarrow>
               if lo = hi then
                 (case dict_get fixed lo of
                    Some other \<Rightarrow> Inl (PortClash name other lo)
                  | None \<Rightarrow> check_ports (dict_set lo name fixed) rest)
               else check_ports fixed rest)"

fun check_provides :: "string \<Rightarrow> string list \<Rightarrow> (string, string) dict \<Rightarrow> cfg_exn + (string, string) dict" where
  "check_provides rname [] provided = Inr provided"
| "check_provides rname (b # bs) provided =
     (if \<not> NAME_RE b then Inl (ProvidesBadName rname b)
      else case dict_get provided b of
             Some other \<Rightarrow> Inl (ProvidedTwice b other rname)
           | None \<Rightarrow> check_provides rname bs (dict_set b rname provided))"

fun check_gates_known :: "(string \<Rightarrow> cfg_exn) \<Rightarrow> string list \<Rightarrow> (string, gate_config) dict \<Rightarrow> cfg_exn + unit" where
  "check_gates_known err [] gates = Inr ()"
| "check_gates_known err (g # gs) gates =
     (if \<not> dict_in g gates then Inl (err g) else check_gates_known err gs gates)"

text \<open>An empty \<open>provides\<close> becomes the resolver's own name.\<close>

definition fill_provides :: "string \<Rightarrow> resolver_config \<Rightarrow> resolver_config" where
  "fill_provides rname r = (if r_provides r = [] then r\<lparr>r_provides := [rname]\<rparr> else r)"

fun check_resolvers :: "(string, gate_config) dict \<Rightarrow> (string, resolver_config) dict \<Rightarrow>
    (string, string) dict \<Rightarrow> cfg_exn + (string, resolver_config) dict \<times> (string, string) dict" where
  "check_resolvers gates [] provided = Inr ([], provided)"
| "check_resolvers gates ((rname, r0) # rest) provided =
     (let r = fill_provides rname r0
      in rbind (check_provides rname (r_provides r) provided) (\<lambda>provided'.
         if bin_refs (r_cmd r) \<noteq> [] then Inl (ResolverUsesBin rname)
         else rbind (check_gates_known (ResolverUnknownGate rname) (r_requires r) gates) (\<lambda>_.
              rbind (check_resolvers gates rest provided') (\<lambda>(rs, p). Inr ((rname, r) # rs, p)))))"

fun check_gates :: "(string, gate_config) dict \<Rightarrow> cfg_exn + unit" where
  "check_gates [] = Inr ()"
| "check_gates ((gname, g) # rest) =
     (if bin_refs (g_check g) \<noteq> [] then Inl (GateUsesBin gname) else check_gates rest)"

fun check_after :: "string \<Rightarrow> string list \<Rightarrow> string list \<Rightarrow> cfg_exn + unit" where
  "check_after sname [] names = Inr ()"
| "check_after sname (d # ds) names =
     (if d = sname then Inl (AfterItself sname)
      else if d \<notin> set names then Inl (AfterUnknown sname d) else check_after sname ds names)"

fun check_bins :: "string \<Rightarrow> string list \<Rightarrow> (string, string) dict \<Rightarrow> cfg_exn + unit" where
  "check_bins sname [] provided = Inr ()"
| "check_bins sname (b # bs) provided =
     (if \<not> dict_in b provided then Inl (BinUnprovided sname b) else check_bins sname bs provided)"

fun check_services :: "string list \<Rightarrow> (string, gate_config) dict \<Rightarrow> (string, string) dict \<Rightarrow>
    (string, service_config) dict \<Rightarrow> cfg_exn + unit" where
  "check_services names gates provided [] = Inr ()"
| "check_services names gates provided ((sname, svc) # rest) =
     rbind (check_after sname (sv_after svc) names) (\<lambda>_.
     rbind (check_gates_known (ServiceUnknownGate sname) (sv_requires svc) gates) (\<lambda>_.
     rbind (check_bins sname (sort (remdups (service_bin_refs svc))) provided) (\<lambda>_.
       check_services names gates provided rest)))"

definition validate :: "orc_config \<Rightarrow> cfg_exn + orc_config" where
  "validate cfg =
     (if oc_services cfg = [] then Inl NoServices
      else rbind (check_names ''ports'' (dict_keys (oc_ports cfg))) (\<lambda>_.
           rbind (check_names ''gates'' (dict_keys (oc_gates cfg))) (\<lambda>_.
           rbind (check_names ''resolvers'' (dict_keys (oc_resolvers cfg))) (\<lambda>_.
           rbind (check_names ''services'' (dict_keys (oc_services cfg))) (\<lambda>_.
           rbind (check_ports [] (oc_ports cfg)) (\<lambda>_.
           rbind (check_resolvers (oc_gates cfg) (oc_resolvers cfg) []) (\<lambda>(rs, provided).
           rbind (check_gates (oc_gates cfg)) (\<lambda>_.
           rbind (check_services (dict_keys (oc_services cfg)) (oc_gates cfg) provided (oc_services cfg)) (\<lambda>_.
           rbind (start_order (oc_services cfg)) (\<lambda>_.
             Inr (cfg\<lparr>oc_resolvers := rs\<rparr>)))))))))))"

text \<open>A comprehension \<open>{n: parse(v, f"{kind}.{n}") for n, v in table.items()}\<close>.\<close>

definition parse_members :: "string \<Rightarrow> (pyval \<Rightarrow> string \<Rightarrow> cfg_exn + 'a) \<Rightarrow> (string, pyval) dict \<Rightarrow>
    cfg_exn + (string, 'a) dict" where
  "parse_members kind parse d =
     rmap (\<lambda>(n, v). rbind (parse v (kind @ ''.'' @ n)) (\<lambda>c. Inr (n, c))) d"

text \<open>The sections, before the cross-checks.\<close>

definition read_sections :: "pyval \<Rightarrow> cfg_exn + orc_config" where
  "read_sections raw = with_table raw [] (
     sbind (sbind (take_table ''instance'') (\<lambda>d. slift (InstanceConfig_parse (PDict d) ''instance''))) (\<lambda>inst.
     sbind (take_table ''ports'') (\<lambda>ports.
     sbind (sbind (take_table ''gates'') (\<lambda>d. slift (parse_members ''gates'' GateConfig_parse d))) (\<lambda>gates.
     sbind (sbind (take_table ''resolvers'') (\<lambda>d. slift (parse_members ''resolvers'' ResolverConfig_parse d))) (\<lambda>resolvers.
     sbind (sbind (take_table ''services'') (\<lambda>d. slift (parse_members ''services'' ServiceConfig_parse d))) (\<lambda>services.
     sbind table_done (\<lambda>_.
       sret \<lparr>oc_instance = inst, oc_ports = ports, oc_gates = gates, oc_resolvers = resolvers,
             oc_services = services\<rparr>)))))))"

definition OrchestratorConfig_parse :: "pyval \<Rightarrow> cfg_exn + orc_config" where
  "OrchestratorConfig_parse raw = rbind (read_sections raw) validate"


section \<open>What each check establishes\<close>

named_theorems check_iff \<open>when each check of the configuration succeeds\<close>

lemma check_names_iff [check_iff]: "check_names kind ns = Inr u \<longleftrightarrow> list_all NAME_RE ns"
  by (induction kind ns rule: check_names.induct) auto

definition port_valid :: "string \<times> pyval \<Rightarrow> bool" where
  "port_valid p \<longleftrightarrow> templated (snd p) \<or> (\<exists>sp. parse_port_spec (snd p) = Inr (Some sp))"

text \<open>The port a specification pins, if it pins exactly one.\<close>

definition pinned :: "string \<times> pyval \<Rightarrow> int list" where
  "pinned p =
     (if templated (snd p) then []
      else case parse_port_spec (snd p) of
             Inr (Some (PortRange lo hi)) \<Rightarrow> if lo = hi then [lo] else []
           | _ \<Rightarrow> [])"

lemma check_ports_iff:
  "check_ports fixed ps = Inr u \<longleftrightarrow>
     list_all port_valid ps \<and> distinct (concat (map pinned ps)) \<and>
     set (concat (map pinned ps)) \<inter> set (dict_keys fixed) = {}"
proof (induction fixed ps rule: check_ports.induct)
  case (1 fixed)
  then show ?case by simp
next
  case (2 fixed name want rest)
  show ?case
  proof (cases "templated want")
    case True
    with 2 show ?thesis by (simp add: port_valid_def pinned_def)
  next
    case False
    show ?thesis
    proof (cases "parse_port_spec want")
      case (Inl e)
      with False show ?thesis by (simp add: port_valid_def)
    next
      case (Inr r)
      show ?thesis
      proof (cases r)
        case None
        with Inr False show ?thesis by (simp add: port_valid_def)
      next
        case (Some sp)
        show ?thesis
        proof (cases sp)
          case PortAuto
          with Inr Some False 2 show ?thesis by (simp add: port_valid_def pinned_def)
        next
          case (PortRange lo hi)
          have pv: "port_valid (name, want)" "pinned (name, want) = (if lo = hi then [lo] else [])"
            using Inr Some PortRange False by (simp_all add: port_valid_def pinned_def)
          show ?thesis
          proof (cases "lo = hi \<and> dict_get fixed lo = None")
            case True
            then have "check_ports fixed ((name, want) # rest) = check_ports (dict_set lo name fixed) rest"
              using Inr Some PortRange False by auto
            moreover have "lo \<notin> set (dict_keys fixed)" using True by (auto simp: map_of_eq_None_iff)
            ultimately show ?thesis
              using "2.IH"(3) [OF False Inr Some PortRange] True pv dict_keys_set [of lo name fixed] by auto
          next
            case clash: False
            show ?thesis
            proof (cases "lo = hi")
              case True
              with clash obtain other where o: "dict_get fixed lo = Some other" by auto
              then have "lo \<in> set (dict_keys fixed)" by (auto dest: map_of_SomeD intro: rev_image_eqI)
              with o True Inr Some PortRange False pv show ?thesis by auto
            next
              case neq: False
              with Inr Some PortRange False have "check_ports fixed ((name, want) # rest) = check_ports fixed rest"
                by simp
              with "2.IH"(4) [OF False Inr Some PortRange neq] neq pv show ?thesis by simp
            qed
          qed
        qed
      qed
    qed
  qed
qed

lemma check_provides_iff:
  "check_provides rname bs provided = Inr provided' \<longleftrightarrow>
     list_all NAME_RE bs \<and> distinct bs \<and> set bs \<inter> set (dict_keys provided) = {} \<and>
     provided' = provided @ map (\<lambda>b. (b, rname)) bs"
proof (induction rname bs provided rule: check_provides.induct)
  case (1 rname provided)
  then show ?case by auto
next
  case (2 rname b bs provided)
  show ?case
  proof (cases "dict_get provided b")
    case None
    then have fresh: "b \<notin> set (dict_keys provided)" by (simp add: map_of_eq_None_iff)
    with None 2 show ?thesis by (auto simp: dict_set_fresh)
  next
    case (Some other)
    then have "b \<in> set (dict_keys provided)" by (auto dest: map_of_SomeD intro: rev_image_eqI)
    with Some show ?thesis by auto
  qed
qed

lemma check_gates_known_iff [check_iff]:
  "check_gates_known err gs gates = Inr u \<longleftrightarrow> set gs \<subseteq> set (dict_keys gates)"
  by (induction err gs gates rule: check_gates_known.induct) (auto simp: dict_in_iff)

lemma check_gates_iff [check_iff]:
  "check_gates gates = Inr u \<longleftrightarrow> list_all (\<lambda>(n, g). bin_refs (g_check g) = []) gates"
  by (induction gates rule: check_gates.induct) auto

lemma check_after_iff [check_iff]:
  "check_after sname ds names = Inr u \<longleftrightarrow> sname \<notin> set ds \<and> set ds \<subseteq> set names"
  by (induction sname ds names rule: check_after.induct) auto

lemma check_bins_iff [check_iff]:
  "check_bins sname bs provided = Inr u \<longleftrightarrow> set bs \<subseteq> set (dict_keys provided)"
  by (induction sname bs provided rule: check_bins.induct) (auto simp: dict_in_iff)

definition service_ok :: "string list \<Rightarrow> string list \<Rightarrow> string list \<Rightarrow> string \<times> service_config \<Rightarrow> bool" where
  "service_ok names gates bins p =
     (case p of (sname, svc) \<Rightarrow>
        sname \<notin> set (sv_after svc) \<and> set (sv_after svc) \<subseteq> set names \<and>
        set (sv_requires svc) \<subseteq> set gates \<and> set (service_bin_refs svc) \<subseteq> set bins)"

lemma check_services_iff [check_iff]:
  "check_services names gates provided services = Inr u \<longleftrightarrow>
     list_all (service_ok names (dict_keys gates) (dict_keys provided)) services"
  by (induction names gates provided services rule: check_services.induct)
    (auto simp: rbind_Inr_iff check_iff service_ok_def)

definition resolver_ok :: "string list \<Rightarrow> string \<times> resolver_config \<Rightarrow> bool" where
  "resolver_ok gates p =
     (case p of (rname, r) \<Rightarrow>
        list_all NAME_RE (r_provides r) \<and> bin_refs (r_cmd r) = [] \<and> set (r_requires r) \<subseteq> set gates)"

definition filled :: "(string, resolver_config) dict \<Rightarrow> (string, resolver_config) dict" where
  "filled rs = map (\<lambda>(n, r). (n, fill_provides n r)) rs"

text \<open>All binaries the resolvers provide, in order.\<close>

definition binaries :: "(string, resolver_config) dict \<Rightarrow> string list" where
  "binaries rs = concat (map (\<lambda>(n, r). r_provides r) (filled rs))"

definition provided_by :: "(string, resolver_config) dict \<Rightarrow> (string, string) dict" where
  "provided_by rs = concat (map (\<lambda>(n, r). map (\<lambda>b. (b, n)) (r_provides r)) (filled rs))"

lemma resolver_lists_simps [simp]:
  "filled [] = []" "filled ((n, r) # rs) = (n, fill_provides n r) # filled rs"
  "binaries [] = []" "binaries ((n, r) # rs) = r_provides (fill_provides n r) @ binaries rs"
  "provided_by [] = []"
  "provided_by ((n, r) # rs) = map (\<lambda>b. (b, n)) (r_provides (fill_provides n r)) @ provided_by rs"
  by (simp_all add: filled_def binaries_def provided_by_def)

lemma keys_provided_by [simp]: "dict_keys (provided_by rs) = binaries rs"
proof (induction rs)
  case (Cons p rs)
  then show ?case by (cases p) (simp add: comp_def)
qed simp

lemma check_resolvers_iff:
  "check_resolvers gates rs provided = Inr (rs', provided') \<longleftrightarrow>
     rs' = filled rs \<and> list_all (resolver_ok (dict_keys gates)) (filled rs) \<and>
     distinct (binaries rs) \<and> set (binaries rs) \<inter> set (dict_keys provided) = {} \<and>
     provided' = provided @ provided_by rs"
proof (induction rs arbitrary: provided rs' provided')
  case Nil
  then show ?case by auto
next
  case (Cons p rest)
  obtain rname r0 where p: "p = (rname, r0)" by (cases p)
  let ?r = "fill_provides rname r0"
  let ?p = "provided @ map (\<lambda>b. (b, rname)) (r_provides ?r)"
  have keys: "set (dict_keys ?p) = set (dict_keys provided) \<union> set (r_provides ?r)" by (auto simp: image_image)
  have step: "check_resolvers gates ((rname, r0) # rest) provided = Inr (rs', provided') \<longleftrightarrow>
      (list_all NAME_RE (r_provides ?r) \<and> distinct (r_provides ?r) \<and>
       set (r_provides ?r) \<inter> set (dict_keys provided) = {}) \<and>
      bin_refs (r_cmd ?r) = [] \<and> set (r_requires ?r) \<subseteq> set (dict_keys gates) \<and>
      (\<exists>rs p. check_resolvers gates rest ?p = Inr (rs, p) \<and> rs' = (rname, ?r) # rs \<and> provided' = p)"
    by (auto simp: Let_def rbind_Inr_iff check_provides_iff check_iff split: if_splits)
  show ?case
    unfolding p step Cons.IH keys resolver_lists_simps list.pred_inject distinct_append set_append resolver_ok_def prod.case
    by (auto simp: resolver_ok_def)
qed

section \<open>Validated configurations\<close>

definition config_ok :: "orc_config \<Rightarrow> bool" where
  "config_ok cfg \<longleftrightarrow>
     oc_services cfg \<noteq> [] \<and>
     list_all NAME_RE (dict_keys (oc_ports cfg)) \<and> list_all NAME_RE (dict_keys (oc_gates cfg)) \<and>
     list_all NAME_RE (dict_keys (oc_resolvers cfg)) \<and> list_all NAME_RE (dict_keys (oc_services cfg)) \<and>
     list_all port_valid (oc_ports cfg) \<and> distinct (concat (map pinned (oc_ports cfg))) \<and>
     list_all (resolver_ok (dict_keys (oc_gates cfg))) (filled (oc_resolvers cfg)) \<and>
     distinct (binaries (oc_resolvers cfg)) \<and>
     list_all (\<lambda>(n, g). bin_refs (g_check g) = []) (oc_gates cfg) \<and>
     list_all (service_ok (dict_keys (oc_services cfg)) (dict_keys (oc_gates cfg)) (binaries (oc_resolvers cfg)))
       (oc_services cfg)"

lemma validate_start_order:
  "validate cfg = Inr cfg' \<longleftrightarrow>
     config_ok cfg \<and> (\<exists>order. start_order (oc_services cfg) = Inr order) \<and>
     cfg' = cfg\<lparr>oc_resolvers := filled (oc_resolvers cfg)\<rparr>"
  by (auto simp: validate_def config_ok_def rbind_Inr_iff check_iff check_ports_iff check_resolvers_iff)

lemma config_ok_closed:
  "config_ok cfg \<Longrightarrow> \<forall>(d, n) \<in> after_graph (oc_services cfg). d \<in> set (dict_keys (oc_services cfg))"
  by (auto simp: config_ok_def after_graph_def service_ok_def list_all_iff)


section \<open>Properties\<close>

text \<open>
  C32: Validation is exact. It accepts a configuration (with distinct service names) if and only if
  there is a service, every name matches the name pattern, every port specification is valid or
  templated, no port is pinned twice, no binary is provided twice and every provided name is
  well formed, resolver and gate commands use no binaries, every gate, service and binary a service
  or resolver refers to exists, no service waits for itself, and the \<open>after\<close> dependencies have no
  cycle. What it returns is the configuration with each empty \<open>provides\<close> filled in, and nothing else
  changed.
\<close>

theorem validate_exact:
  assumes "distinct (dict_keys (oc_services cfg))"
  shows "validate cfg = Inr cfg' \<longleftrightarrow>
    config_ok cfg \<and> acyclic (after_graph (oc_services cfg)) \<and>
    cfg' = cfg\<lparr>oc_resolvers := filled (oc_resolvers cfg)\<rparr>"
  using start_order_exact [OF assms] config_ok_closed [of cfg]
  by (auto simp: validate_start_order)

definition sample_config :: orc_config where
  "sample_config =
     \<lparr>oc_instance = \<lparr>in_name = ''dev'', in_containment = ''auto'', in_workdir = None\<rparr>,
      oc_ports = [(''http'', PStr ''8000+''), (''db'', PInt 5432)],
      oc_gates = [(''vpn'', \<lparr>g_check = [''ping''], g_recheck = Fin 15, g_timeout = Fin 20,
        g_continuous = False, g_close_after = 3\<rparr>)],
      oc_resolvers = [(''backend'', \<lparr>r_cmd = [''which''], r_provides = [], r_timeout = Fin 30,
        r_refresh = ''spawn'', r_cache = Fin 5, r_copy = False, r_keep_days = Fin 7,
        r_requires = [''vpn'']\<rparr>)],
      oc_services = sample_services\<rparr>"

lemma sample_config_valid:
  "validate sample_config = Inr (sample_config\<lparr>oc_resolvers := filled (oc_resolvers sample_config)\<rparr>)"
proof -
  have "case validate sample_config of Inl _ \<Rightarrow> False | Inr _ \<Rightarrow> True" by code_simp
  then obtain cfg where "validate sample_config = Inr cfg" by (auto split: sum.splits)
  moreover from this have "cfg = sample_config\<lparr>oc_resolvers := filled (oc_resolvers sample_config)\<rparr>"
    by (simp only: validate_start_order)
  ultimately show ?thesis by simp
qed

theorem validate_exact_witness:
  "config_ok sample_config \<and> acyclic (after_graph (oc_services sample_config))"
  using validate_exact [of sample_config, THEN iffD1, OF _ sample_config_valid]
  by (simp add: sample_config_def sample_services_def)

text \<open>
  Whatever its spelling (integer, decimal string, range, open range), a port specification that
  is accepted denotes a non-empty range of real port numbers.
\<close>

lemma port_spec_bounds:
  "parse_port_spec want = Inr (Some (PortRange lo hi)) \<Longrightarrow> 1 \<le> lo \<and> lo \<le> hi \<and> hi \<le> 65535"
  by (auto simp: parse_port_spec_def parse_port_str_def mk_range_def max_port_def rbind_Inr_iff
      split: pyval.splits if_splits prod.splits bool.splits)

lemma str_nat_isdigit: "py_isdigit (str_nat n)"
  using str_nat_digits [of n] by (auto simp: py_isdigit_def is_digit_ch_def list_all_iff)

lemma str_nat_chars: "c \<in> set (str_nat n) \<Longrightarrow> is_ascii_digit c"
  using str_nat_digits [of n] by (simp add: list_all_iff)

lemma partition_digits:
  assumes "\<not> is_ascii_digit c"
  shows "partition_ch c (str_nat n @ c # rest) = (str_nat n, True, rest)"
proof -
  have "takeWhile (\<lambda>x. x \<noteq> c) (str_nat n @ c # rest) = str_nat n"
    "dropWhile (\<lambda>x. x \<noteq> c) (str_nat n @ c # rest) = c # rest"
    using assms str_nat_chars [of c n] by (auto simp: takeWhile_append dropWhile_append)
  then show ?thesis by (simp add: partition_ch_def)
qed

lemma partition_absent: "c \<notin> set s \<Longrightarrow> partition_ch c s = (s, False, [])"
  by (induction s) (auto simp: partition_ch_def)

lemma int_or_raise_str_nat: "n < 1000000 \<Longrightarrow> int_or_raise (str_nat n) = Inr (int n)"
  by (simp add: int_or_raise_def small_lt_int_str_bound)

lemma not_auto: "str_nat n @ s \<noteq> ''auto''"
proof
  assume eq: "str_nat n @ s = ''auto''"
  have "hd (str_nat n @ s) \<in> set (str_nat n)" by (simp add: hd_append)
  with eq str_nat_chars [of "CHR ''a''" n] show False by (simp add: is_ascii_digit_def)
qed

lemma not_isdigit: "c \<in> set s \<Longrightarrow> \<not> is_digit_ch c \<Longrightarrow> \<not> py_isdigit s"
  by (auto simp: py_isdigit_def list_all_iff)

text \<open>
  Every range of port numbers can be written and is read back as written: a single port as an
  integer or as its decimal text, a range as its two bounds with a hyphen, an open range with a plus.
\<close>

theorem port_spec_roundtrip:
  assumes "1 \<le> a" and "a \<le> b" and "b \<le> 65535"
  shows "parse_port_spec (PInt (int a)) = Inr (Some (PortRange (int a) (int a))) \<and>
    parse_port_spec (PStr (str_nat a)) = Inr (Some (PortRange (int a) (int a))) \<and>
    parse_port_spec (PStr (str_nat a @ ''-'' @ str_nat b)) = Inr (Some (PortRange (int a) (int b))) \<and>
    parse_port_spec (PStr (str_nat a @ ''+'')) = Inr (Some (PortRange (int a) 65535))"
proof -
  have n: "int_or_raise (str_nat a) = Inr (int a)" "int_or_raise (str_nat b) = Inr (int b)"
    using assms by (simp_all add: int_or_raise_str_nat)
  have nd: "\<not> py_isdigit (str_nat a @ ''-'' @ str_nat b)" "\<not> py_isdigit (str_nat a @ ''+'')"
    using not_isdigit [of "CHR ''-''"] not_isdigit [of "CHR ''+''"]
    by (simp_all add: is_digit_ch_def is_ascii_digit_def)
  have no_hyphen: "partition_ch (CHR ''-'') (str_nat a @ ''+'') = (str_nat a @ ''+'', False, [])"
    by (rule partition_absent) (use str_nat_chars [of "CHR ''-''" a] in \<open>auto simp: is_ascii_digit_def\<close>)
  have p1: "partition_ch (CHR ''-'') (str_nat a @ ''-'' @ str_nat b) = (str_nat a, True, str_nat b)"
    using partition_digits [of "CHR ''-''" a "str_nat b"] by (simp add: is_ascii_digit_def)
  have p2: "partition_ch (CHR ''+'') (str_nat a @ ''+'') = (str_nat a, True, [])"
    using partition_digits [of "CHR ''+''" a "[]"] by (simp add: is_ascii_digit_def)
  have not_auto': "str_nat a \<noteq> ''auto''" using not_auto [of a "[]"] by simp
  have "parse_port_str (str_nat a) = Inr (mk_range (int a) (int a))"
    by (simp add: parse_port_str_def not_auto' str_nat_isdigit n)
  moreover have "parse_port_str (str_nat a @ ''-'' @ str_nat b) = Inr (mk_range (int a) (int b))"
    unfolding parse_port_str_def if_not_P [OF not_auto] if_not_P [OF nd(1)] p1 prod.case bool.case
    by (simp add: str_nat_isdigit n)
  moreover have "parse_port_str (str_nat a @ ''+'') = Inr (mk_range (int a) max_port)"
    unfolding parse_port_str_def if_not_P [OF not_auto] if_not_P [OF nd(2)] no_hyphen p2 prod.case bool.case
    by (simp add: str_nat_isdigit n)
  ultimately show ?thesis
    using assms by (simp only: parse_port_spec_def pyval.case) (simp add: mk_range_def max_port_def)
qed

theorem port_spec_roundtrip_witness:
  "parse_port_spec (PStr (str_nat 8000 @ ''-'' @ str_nat 8020)) = Inr (Some (PortRange 8000 8020))"
  using port_spec_roundtrip [of 8000 8020] by simp

text \<open>
  Three inputs the accessors of the other keys would refuse get past the checks: \<open>ports.x = true\<close>
  is accepted as port 1; a superscript digit passes \<open>isdigit\<close> and makes \<open>int\<close> raise a bare
  \<open>ValueError\<close> out of the validation; and a name that ends in a newline matches the name pattern.
\<close>

theorem config_loopholes:
  "parse_port_spec (PBool True) = Inr (Some (PortRange 1 1)) \<and>
   check_ports [] [(''x'', PStr [CHR ''8'', CHR 0xB2])] = Inl (CfgPy ValueError) \<and>
   NAME_RE [CHR ''w'', CHR ''e'', CHR ''b'', ch_newline]"
  by code_simp

end
