(* ===== verification/Orc_Schema.thy ===== *)
theory Orc_Schema
  imports Orc_Validate
begin

text \<open>
  The schema of a configuration document, and that the parsers of
  \<^verbatim>\<open>src/jetty/orchestrator/config.py\<close> accept exactly the documents that conform to it: a table has
  no key beyond its schema, and the value (or the absence) of each key is one its accessor takes.
\<close>

section \<open>Schemas\<close>

type_synonym schema = "(string \<times> (pyval option \<Rightarrow> bool)) list"

definition conforms :: "schema \<Rightarrow> pyval \<Rightarrow> bool" where
  "conforms sch v =
     (case v of
        PDict d \<Rightarrow> set (dict_keys d) \<subseteq> set (map fst sch) \<and> list_all (\<lambda>(k, Q). Q (dict_get d k)) sch
      | _ \<Rightarrow> False)"

definition opt :: "(pyval \<Rightarrow> bool) \<Rightarrow> pyval option \<Rightarrow> bool" where
  "opt P v = (case v of None \<Rightarrow> True | Some x \<Rightarrow> P x)"

definition req :: "(pyval \<Rightarrow> bool) \<Rightarrow> pyval option \<Rightarrow> bool" where
  "req P v = (case v of None \<Rightarrow> False | Some x \<Rightarrow> P x)"

definition v_strs :: "pyval \<Rightarrow> bool" where
  "v_strs v \<longleftrightarrow> as_strs v \<noteq> None"

text \<open>A command line: a non-empty list of strings, or a string that splits into one.\<close>

definition v_argv :: "pyval \<Rightarrow> bool" where
  "v_argv v =
     (case v of
        PStr s \<Rightarrow> (case shlex_split s of Inl _ \<Rightarrow> False | Inr ws \<Rightarrow> ws \<noteq> [])
      | _ \<Rightarrow> (case as_strs v of None \<Rightarrow> False | Some ws \<Rightarrow> ws \<noteq> []))"

definition v_number :: "number_bound \<Rightarrow> pyval \<Rightarrow> bool" where
  "v_number b v =
     (case v of
        PInt i \<Rightarrow> (case float_of_int i of Inl _ \<Rightarrow> False | Inr f \<Rightarrow> in_bound b f)
      | PFloat f \<Rightarrow> in_bound b f
      | _ \<Rightarrow> False)"

definition v_int :: "int \<Rightarrow> pyval \<Rightarrow> bool" where
  "v_int lo v = (case v of PInt i \<Rightarrow> lo \<le> i | _ \<Rightarrow> False)"

definition v_ints :: "pyval \<Rightarrow> bool" where
  "v_ints v \<longleftrightarrow> as_ints v \<noteq> None"

definition v_str_dict :: "pyval \<Rightarrow> bool" where
  "v_str_dict v = (case v of PDict d \<Rightarrow> list_all (\<lambda>(k, x). is_str x) d | _ \<Rightarrow> False)"

definition v_choice :: "string list \<Rightarrow> pyval \<Rightarrow> bool" where
  "v_choice choices v = (case v of PStr s \<Rightarrow> s \<in> set choices | _ \<Rightarrow> False)"

section \<open>Accessors and schemas\<close>

text \<open>
  \<open>takes k Q m\<close>: \<open>m\<close> succeeds exactly when \<open>Q\<close> holds of what the table has under \<open>k\<close>, and then it has
  consumed that key and nothing else. \<open>finishes sch m\<close>: \<open>m\<close> succeeds exactly on the tables that
  conform to \<open>sch\<close>.
\<close>

definition takes :: "string \<Rightarrow> (pyval option \<Rightarrow> bool) \<Rightarrow> 'a take \<Rightarrow> bool" where
  "takes k Q m \<longleftrightarrow> (\<forall>t. case m t of
     (Inl e, t') \<Rightarrow> \<not> Q (dict_get (tb_raw t) k)
   | (Inr x, t') \<Rightarrow> Q (dict_get (tb_raw t) k) \<and> tb_raw t' = dict_del k (tb_raw t))"

definition finishes :: "schema \<Rightarrow> 'a take \<Rightarrow> bool" where
  "finishes sch m \<longleftrightarrow> (\<forall>t. (\<exists>x. fst (m t) = Inr x) \<longleftrightarrow> conforms sch (PDict (tb_raw t)))"

lemma keys_dict_del: "set (dict_keys (dict_del k d)) = set (dict_keys d) - {k}"
  by (induction d) auto

lemma finishes_sbind:
  assumes m: "takes k Q m" and f: "\<And>x. finishes sch (f x)" and k: "k \<notin> set (map fst sch)"
  shows "finishes ((k, Q) # sch) (sbind m f)"
  unfolding finishes_def
proof
  fix t :: cfg_table
  have agree: "list_all (\<lambda>(k', Q'). Q' (dict_get (dict_del k (tb_raw t)) k')) sch \<longleftrightarrow>
      list_all (\<lambda>(k', Q'). Q' (dict_get (tb_raw t) k')) sch"
    using k by (intro list.pred_cong) force+
  show "(\<exists>x. fst (sbind m f t) = Inr x) \<longleftrightarrow> conforms ((k, Q) # sch) (PDict (tb_raw t))"
  proof (cases "m t")
    case (Pair r t')
    show ?thesis
    proof (cases r)
      case (Inl e)
      with m Pair show ?thesis by (auto simp: takes_def conforms_def sbind_def dest: spec [of _ t])
    next
      case (Inr x)
      with m Pair have t': "Q (dict_get (tb_raw t) k)" "tb_raw t' = dict_del k (tb_raw t)"
        by (auto simp: takes_def dest: spec [of _ t])
      have "(\<exists>x. fst (sbind m f t) = Inr x) \<longleftrightarrow> conforms sch (PDict (tb_raw t'))"
        using f [of x] Pair Inr by (simp add: finishes_def)
      moreover have "set (dict_keys (tb_raw t')) \<subseteq> A \<longleftrightarrow> set (dict_keys (tb_raw t)) \<subseteq> insert k A" for A
        unfolding t'(2) keys_dict_del by blast
      ultimately show ?thesis
        using agree t' by (simp add: conforms_def)
    qed
  qed
qed

lemma finishes_done: "finishes [] (sbind table_done (\<lambda>_. sret x))"
  by (auto simp: finishes_def conforms_def table_done_def sbind_def)

lemma with_table_iff:
  "finishes sch m \<Longrightarrow> (\<exists>x. with_table raw wh m = Inr x) \<longleftrightarrow> conforms sch raw"
  by (cases raw) (auto simp: with_table_def Table_def finishes_def conforms_def)

text \<open>Each accessor.\<close>

lemma takesI:
  assumes "\<And>t e t'. m t = (Inl e, t') \<Longrightarrow> \<not> Q (dict_get (tb_raw t) k)"
    and "\<And>t x t'. m t = (Inr x, t') \<Longrightarrow> Q (dict_get (tb_raw t) k) \<and> tb_raw t' = dict_del k (tb_raw t)"
  shows "takes k Q m"
  using assms by (auto simp: takes_def split: prod.splits sum.splits)

lemmas take_unfolds = sbind_def pop_def fail_at_def out_of_bound_def dict_get_or_def opt_def req_def

lemma dict_del_absent: "dict_get d k = None \<Longrightarrow> dict_del k d = d"
  by (induction d) (auto split: if_splits)

lemma takes_str: "takes k (opt is_str) (take_str k)"
  by (rule takesI) (auto simp: take_str_def take_unfolds is_str_def dict_in_def dict_del_absent
      split: option.splits pyval.splits if_splits prod.splits)

lemma takes_str_required: "takes k (req is_str) (take_str_required k)"
  by (rule takesI) (auto simp: take_str_required_def take_str_def take_unfolds is_str_def dict_in_def
      split: option.splits pyval.splits if_splits prod.splits)

lemma takes_int: "lo \<le> d \<Longrightarrow> takes k (opt (v_int lo)) (take_int k d lo)"
  by (rule takesI) (auto simp: take_int_def take_unfolds v_int_def
      split: option.splits pyval.splits if_splits prod.splits)

lemma takes_bool: "takes k (opt is_bool) (take_bool k d)"
  by (rule takesI) (auto simp: take_bool_def take_unfolds is_bool_def
      split: option.splits pyval.splits if_splits prod.splits)

lemma takes_choice: "d \<in> set cs \<Longrightarrow> takes k (opt (v_choice cs)) (take_choice k cs d)"
  by (rule takesI) (auto simp: take_choice_def take_unfolds v_choice_def
      split: option.splits pyval.splits if_splits prod.splits)

lemma takes_int_list: "takes k (opt v_ints) (take_int_list k d)"
  by (rule takesI) (auto simp: take_int_list_def take_unfolds v_ints_def as_ints_def list_all_iff
      split: option.splits pyval.splits if_splits prod.splits)

lemma takes_str_dict: "takes k (opt v_str_dict) (take_str_dict k)"
  by (rule takesI) (auto simp: take_str_dict_def take_unfolds v_str_dict_def
      split: option.splits pyval.splits if_splits prod.splits)

lemma takes_str_list: "takes k (opt v_strs) (take_str_list k 0)"
  by (rule takesI) (auto simp: take_str_list_def take_unfolds v_strs_def as_strs_def
      split: option.splits pyval.splits if_splits prod.splits)

lemma takes_number: "in_bound b (Fin d) \<Longrightarrow> takes k (opt (v_number b)) (take_number k d b)"
  by (rule takesI) (auto simp: take_number_def take_unfolds v_number_def
      split: option.splits pyval.splits if_splits prod.splits sum.splits)


lemma as_strs_list [simp]: "as_strs (PList (map PStr ws)) = Some ws"
  by (simp add: as_strs_def list_all_iff is_str_def str_of_def comp_def)

lemma dict_del_set: "dict_del k (dict_set k v d) = dict_del k d"
  by (induction d) auto

lemma takes_argv: "takes k (req v_argv) (take_argv k 1)"
proof -
  have list: "(case take_str_list k 1 t of
     (Inl e, t') \<Rightarrow> \<not> (case dict_get (tb_raw t) k of None \<Rightarrow> False | Some v \<Rightarrow>
         (case as_strs v of None \<Rightarrow> False | Some ws \<Rightarrow> ws \<noteq> []))
   | (Inr x, t') \<Rightarrow> (case dict_get (tb_raw t) k of None \<Rightarrow> False | Some v \<Rightarrow>
         (case as_strs v of None \<Rightarrow> False | Some ws \<Rightarrow> ws \<noteq> [])) \<and> tb_raw t' = dict_del k (tb_raw t))" for t
    by (auto simp: take_str_list_def take_unfolds as_strs_def [of "PList []"] split: option.splits)
  have "case take_argv k 1 t of
     (Inl e, t') \<Rightarrow> \<not> req v_argv (dict_get (tb_raw t) k)
   | (Inr x, t') \<Rightarrow> req v_argv (dict_get (tb_raw t) k) \<and> tb_raw t' = dict_del k (tb_raw t)" for t
  proof (cases "\<exists>s. dict_get (tb_raw t) k = Some (PStr s)")
    case False
    then have "take_argv k 1 t = take_str_list k 1 t"
      by (auto simp: take_argv_def sbind_def split: option.splits pyval.splits)
    moreover have "req v_argv (dict_get (tb_raw t) k) \<longleftrightarrow>
        (case dict_get (tb_raw t) k of None \<Rightarrow> False | Some v \<Rightarrow>
         (case as_strs v of None \<Rightarrow> False | Some ws \<Rightarrow> ws \<noteq> []))"
      using False by (auto simp: req_def v_argv_def split: option.splits pyval.splits)
    ultimately show ?thesis using list [of t] by (simp split: prod.splits sum.splits)
  next
    case True
    then obtain s where s: "dict_get (tb_raw t) k = Some (PStr s)" by blast
    show ?thesis
    proof (cases "shlex_split s")
      case (Inl e)
      with s show ?thesis by (simp add: take_argv_def sbind_def req_def v_argv_def)
    next
      case (Inr ws)
      let ?t = "t\<lparr>tb_raw := dict_set k (PList (map PStr ws)) (tb_raw t)\<rparr>"
      have "take_argv k 1 t = take_str_list k 1 ?t"
        using s Inr by (simp add: take_argv_def sbind_def)
      with list [of ?t] s Inr show ?thesis
        by (simp add: req_def v_argv_def dict_del_set split: prod.splits sum.splits)
    qed
  qed
  then show ?thesis by (simp add: takes_def)
qed

lemma takes_table: "takes k (opt is_dict) (take_table k)"
  by (rule takesI) (auto simp: take_table_def take_unfolds is_dict_def
      split: option.splits pyval.splits if_splits prod.splits)

text \<open>A sub-table that is parsed on its own; when absent it is parsed as an empty one.\<close>

definition sub :: "(pyval \<Rightarrow> bool) \<Rightarrow> pyval option \<Rightarrow> bool" where
  "sub P v = (case v of None \<Rightarrow> P (PDict []) | Some x \<Rightarrow> is_dict x \<and> P x)"

lemma takes_parsed:
  assumes "\<And>d a. (\<exists>x. parse d a = Inr x) \<longleftrightarrow> P (PDict d)"
  shows "takes k (sub P) (sbind (take_table k) (\<lambda>d. sbind (sget (\<lambda>t. at_key t k)) (\<lambda>a. slift (parse d a))))"
proof -
  have err: "parse d a = Inl e \<Longrightarrow> \<not> P (PDict d)" and ok: "parse d a = Inr x \<Longrightarrow> P (PDict d)" for d a e x
    using assms [of d a] by auto
  show ?thesis
    by (rule takesI) (auto simp: take_table_def take_unfolds is_dict_def sub_def
        split: option.splits pyval.splits if_splits prod.splits dest: err ok)
qed

lemma takes_sub_table:
  assumes "\<And>v a. (\<exists>x. parse v a = Inr x) \<longleftrightarrow> P v"
  shows "takes k (sub P) (sub_table k parse)"
  unfolding sub_table_def using assms by (intro takes_parsed)

lemma takes_section:
  assumes "\<And>d. (\<exists>x. parse d = Inr x) \<longleftrightarrow> P (PDict d)"
  shows "takes k (sub P) (sbind (take_table k) (\<lambda>d. slift (parse d)))"
proof -
  have "sbind (sget (\<lambda>t. at_key t k)) (\<lambda>a. slift (parse d)) = slift (parse d)" for d
    by (simp add: fun_eq_iff sbind_def)
  then show ?thesis using takes_parsed [of "\<lambda>d a. parse d" P k] assms by simp
qed

section \<open>The sections\<close>

definition GATE_SCHEMA :: schema where
  "GATE_SCHEMA =
     [(''check'', req v_argv), (''recheck_seconds'', opt (v_number (Gt 0))),
      (''timeout_seconds'', opt (v_number (Gt 0))), (''continuous'', opt is_bool),
      (''close_after'', opt (v_int 1))]"

definition RESOLVER_SCHEMA :: schema where
  "RESOLVER_SCHEMA =
     [(''cmd'', req v_argv), (''provides'', opt v_strs), (''timeout_seconds'', opt (v_number (Gt 0))),
      (''refresh'', opt (v_choice [''spawn'', ''instance''])), (''cache_seconds'', opt (v_number (Ge 0))),
      (''copy'', opt is_bool), (''copy_keep_days'', opt (v_number (Gt 0))), (''requires'', opt v_strs)]"

definition READY_SCHEMA :: schema where
  "READY_SCHEMA =
     [(''http'', opt is_str), (''tcp'', opt is_str), (''uds'', opt is_str), (''path'', opt is_str),
      (''timeout_seconds'', opt (v_number (Gt 0))), (''interval_seconds'', opt (v_number (Gt 0)))]"

definition RESTART_SCHEMA :: schema where
  "RESTART_SCHEMA =
     [(''max_restarts'', opt (v_int 0)), (''window_seconds'', opt (v_number (Gt 0))),
      (''backoff_initial_seconds'', opt (v_number (Gt 0))), (''backoff_max_seconds'', opt (v_number (Gt 0))),
      (''no_restart_exit'', opt v_ints)]"

definition STOP_SCHEMA :: schema where
  "STOP_SCHEMA =
     [(''signal'', opt (v_choice [''TERM'', ''INT'', ''HUP''])), (''grace_seconds'', opt (v_number (Gt 0)))]"

text \<open>At most one readiness probe, and an HTTP probe is an \<open>http://\<close> URL.\<close>

definition present :: "string \<Rightarrow> pyval \<Rightarrow> bool" where
  "present k v = (case v of PDict d \<Rightarrow> dict_in k d | _ \<Rightarrow> False)"

definition v_ready :: "pyval \<Rightarrow> bool" where
  "v_ready v \<longleftrightarrow>
     conforms READY_SCHEMA v \<and>
     length (filter (\<lambda>k. present k v) [''http'', ''tcp'', ''uds'', ''path'']) \<le> 1 \<and>
     (case v of PDict d \<Rightarrow> opt (\<lambda>u. prefix ''http://'' (str_of u)) (dict_get d ''http'') | _ \<Rightarrow> False)"

definition SERVICE_SCHEMA :: schema where
  "SERVICE_SCHEMA =
     [(''cmd'', req v_argv), (''cwd'', opt is_str), (''env'', opt v_str_dict), (''after'', opt v_strs),
      (''requires'', opt v_strs), (''watch'', opt v_strs), (''ready'', sub v_ready),
      (''restart'', sub (conforms RESTART_SCHEMA)), (''stop'', sub (conforms STOP_SCHEMA))]"

definition INSTANCE_SCHEMA :: schema where
  "INSTANCE_SCHEMA =
     [(''name'', req is_str), (''containment'', opt (v_choice [''auto'', ''cgroup'', ''scope'', ''pgroup''])),
      (''workdir'', opt is_str)]"

lemmas takes_rules =
  takes_str takes_str_required takes_int takes_bool takes_choice takes_int_list takes_str_dict
  takes_str_list takes_number takes_argv takes_table

lemma bounds_ok [simp]:
  "in_bound (Gt q) (Fin r) \<longleftrightarrow> q < r" "in_bound (Ge q) (Fin r) \<longleftrightarrow> q \<le> r"
  by (simp_all add: in_bound_def float_gt_def float_ge_def)

lemma GateConfig_parse_iff: "(\<exists>c. GateConfig_parse raw wh = Inr c) \<longleftrightarrow> conforms GATE_SCHEMA raw"
  unfolding GateConfig_parse_def GATE_SCHEMA_def
  by (rule with_table_iff, (intro finishes_sbind finishes_done takes_rules; simp))

lemma ResolverConfig_parse_iff: "(\<exists>c. ResolverConfig_parse raw wh = Inr c) \<longleftrightarrow> conforms RESOLVER_SCHEMA raw"
  unfolding ResolverConfig_parse_def RESOLVER_SCHEMA_def
  by (rule with_table_iff, (intro finishes_sbind finishes_done takes_rules; simp))

lemma RestartConfig_parse_iff: "(\<exists>c. RestartConfig_parse raw wh = Inr c) \<longleftrightarrow> conforms RESTART_SCHEMA raw"
  unfolding RestartConfig_parse_def RESTART_SCHEMA_def
  by (rule with_table_iff, (intro finishes_sbind finishes_done takes_rules; simp))

lemma StopConfig_parse_iff: "(\<exists>c. StopConfig_parse raw wh = Inr c) \<longleftrightarrow> conforms STOP_SCHEMA raw"
  unfolding StopConfig_parse_def STOP_SCHEMA_def
  by (rule with_table_iff, (intro finishes_sbind finishes_done takes_rules; simp))


text \<open>The readiness section has a check on top of its accessors.\<close>

lemma take_str_result:
  "take_str k t = (Inr r, t') \<Longrightarrow> r = map_option str_of (dict_get (tb_raw t) k) \<and> tb_raw t' = dict_del k (tb_raw t)"
  using takes_str [of k]
  by (auto simp: takes_def take_str_def take_unfolds str_of_def dict_in_def dict_del_absent
      split: option.splits pyval.splits if_splits prod.splits dest: spec [of _ t])

definition ready_table :: "ready_config take" where
  "ready_table =
     sbind (take_str ''http'') (\<lambda>http.
     sbind (take_str ''tcp'') (\<lambda>tcp.
     sbind (take_str ''uds'') (\<lambda>uds.
     sbind (take_str ''path'') (\<lambda>path.
     sbind (take_number ''timeout_seconds'' 30 (Gt 0)) (\<lambda>timeout.
     sbind (take_number ''interval_seconds'' (1/4) (Gt 0)) (\<lambda>interval.
     sbind table_done (\<lambda>_.
       sret \<lparr>rd_http = http, rd_tcp = tcp, rd_uds = uds, rd_path = path,
             rd_timeout = timeout, rd_interval = interval\<rparr>)))))))"

lemma ready_table_result:
  assumes "fst (ready_table t) = Inr c"
  shows "rd_http c = map_option str_of (dict_get (tb_raw t) ''http'')"
    "rd_tcp c = map_option str_of (dict_get (tb_raw t) ''tcp'')"
    "rd_uds c = map_option str_of (dict_get (tb_raw t) ''uds'')"
    "rd_path c = map_option str_of (dict_get (tb_raw t) ''path'')"
proof -
  from assms obtain t' where "ready_table t = (Inr c, t')" by (metis prod.collapse)
  then show "rd_http c = map_option str_of (dict_get (tb_raw t) ''http'')"
    "rd_tcp c = map_option str_of (dict_get (tb_raw t) ''tcp'')"
    "rd_uds c = map_option str_of (dict_get (tb_raw t) ''uds'')"
    "rd_path c = map_option str_of (dict_get (tb_raw t) ''path'')"
    unfolding ready_table_def sbind_Inr_iff by (auto dest!: take_str_result)
qed

lemma finishes_ready: "finishes READY_SCHEMA ready_table"
  unfolding ready_table_def READY_SCHEMA_def
  by (intro finishes_sbind finishes_done takes_rules; simp)

lemma ReadyConfig_parse_iff: "(\<exists>c. ReadyConfig_parse raw wh = Inr c) \<longleftrightarrow> v_ready raw"
proof (cases "\<exists>d. raw = PDict d")
  case False
  then show ?thesis
    by (cases raw) (simp_all add: ReadyConfig_parse_def with_table_def Table_def v_ready_def conforms_def)
next
  case True
  then obtain d where d: "raw = PDict d" by blast
  let ?t = "\<lparr>tb_raw = d, tb_where = wh\<rparr>"
  have parse: "ReadyConfig_parse raw wh = rbind (fst (ready_table ?t)) (\<lambda>cfg. ReadyConfig_check cfg wh)"
    by (simp add: ReadyConfig_parse_def with_table_def Table_def d ready_table_def)
  show ?thesis
  proof (cases "fst (ready_table ?t)")
    case (Inl e)
    with finishes_ready have "\<not> conforms READY_SCHEMA raw" by (auto simp: finishes_def d dest: spec [of _ ?t])
    with parse Inl show ?thesis by (simp add: v_ready_def)
  next
    case (Inr c)
    with finishes_ready have conf: "conforms READY_SCHEMA raw" by (auto simp: finishes_def d dest: spec [of _ ?t])
    note r = ready_table_result [OF Inr]
    have "probe_count c = length (filter (\<lambda>k. present k raw) [''http'', ''tcp'', ''uds'', ''path''])"
      by (simp add: probe_count_def r present_def d dict_in_def)
    then show ?thesis
      using parse Inr conf r(1)
      by (auto simp: v_ready_def ReadyConfig_check_def d opt_def split: option.splits)
  qed
qed

lemma ServiceConfig_parse_iff: "(\<exists>c. ServiceConfig_parse raw wh = Inr c) \<longleftrightarrow> conforms SERVICE_SCHEMA raw"
  unfolding ServiceConfig_parse_def SERVICE_SCHEMA_def
  by (rule with_table_iff, (intro finishes_sbind finishes_done takes_rules
        takes_sub_table ReadyConfig_parse_iff RestartConfig_parse_iff StopConfig_parse_iff; simp))


definition v_instance :: "pyval \<Rightarrow> bool" where
  "v_instance v \<longleftrightarrow>
     conforms INSTANCE_SCHEMA v \<and>
     (case v of PDict d \<Rightarrow> req (\<lambda>n. NAME_RE (str_of n)) (dict_get d ''name'') | _ \<Rightarrow> False)"

definition instance_table :: "instance_config take" where
  "instance_table =
     sbind (take_str_required ''name'') (\<lambda>name.
     sbind (take_choice ''containment'' [''auto'', ''cgroup'', ''scope'', ''pgroup''] ''auto'') (\<lambda>containment.
     sbind (take_str ''workdir'') (\<lambda>workdir.
     sbind table_done (\<lambda>_.
       sret \<lparr>in_name = name, in_containment = containment, in_workdir = workdir\<rparr>))))"

lemma finishes_instance: "finishes INSTANCE_SCHEMA instance_table"
  unfolding instance_table_def INSTANCE_SCHEMA_def
  by (intro finishes_sbind finishes_done takes_rules; simp)

lemma instance_table_name:
  assumes "fst (instance_table t) = Inr c"
  shows "dict_get (tb_raw t) ''name'' = Some (PStr (in_name c))"
proof -
  from assms obtain t' where "instance_table t = (Inr c, t')" by (metis prod.collapse)
  then obtain t1 where "take_str_required ''name'' t = (Inr (in_name c), t1)"
    unfolding instance_table_def sbind_Inr_iff by auto
  then show ?thesis
    by (auto simp: take_str_required_def take_str_def take_unfolds dict_in_def
        split: option.splits pyval.splits if_splits prod.splits)
qed

lemma InstanceConfig_parse_iff: "(\<exists>c. InstanceConfig_parse raw wh = Inr c) \<longleftrightarrow> v_instance raw"
proof (cases "\<exists>d. raw = PDict d")
  case False
  then show ?thesis
    by (cases raw) (simp_all add: InstanceConfig_parse_def with_table_def Table_def v_instance_def conforms_def)
next
  case True
  then obtain d where d: "raw = PDict d" by blast
  let ?t = "\<lparr>tb_raw = d, tb_where = wh\<rparr>"
  have parse: "InstanceConfig_parse raw wh = rbind (fst (instance_table ?t))
      (\<lambda>cfg. if NAME_RE (in_name cfg) then Inr cfg else Inl (BadName ''instance.name'' (in_name cfg)))"
    by (simp add: InstanceConfig_parse_def with_table_def Table_def d instance_table_def)
  show ?thesis
  proof (cases "fst (instance_table ?t)")
    case (Inl e)
    with finishes_instance have "\<not> conforms INSTANCE_SCHEMA raw" by (auto simp: finishes_def d dest: spec [of _ ?t])
    with parse Inl show ?thesis by (simp add: v_instance_def)
  next
    case (Inr c)
    with finishes_instance have "conforms INSTANCE_SCHEMA raw" by (auto simp: finishes_def d dest: spec [of _ ?t])
    with parse Inr instance_table_name [OF Inr] show ?thesis
      by (simp add: v_instance_def d req_def str_of_def)
  qed
qed

section \<open>The document\<close>

definition members :: "(pyval \<Rightarrow> bool) \<Rightarrow> pyval \<Rightarrow> bool" where
  "members P v = (case v of PDict d \<Rightarrow> list_all (\<lambda>(n, x). P x) d | _ \<Rightarrow> False)"

definition CONFIG_SCHEMA :: schema where
  "CONFIG_SCHEMA =
     [(''instance'', sub v_instance), (''ports'', opt is_dict),
      (''gates'', sub (members (conforms GATE_SCHEMA))),
      (''resolvers'', sub (members (conforms RESOLVER_SCHEMA))),
      (''services'', sub (members (conforms SERVICE_SCHEMA)))]"

lemma rmap_ok_iff: "(\<exists>ys. rmap f xs = Inr ys) \<longleftrightarrow> list_all (\<lambda>x. \<exists>y. f x = Inr y) xs"
  by (induction xs) (auto simp: rbind_Inr_iff)

lemma parse_members_iff:
  assumes "\<And>v a. (\<exists>c. parse v a = Inr c) \<longleftrightarrow> P v"
  shows "(\<exists>cs. parse_members kind parse d = Inr cs) \<longleftrightarrow> members P (PDict d)"
  unfolding parse_members_def rmap_ok_iff members_def pyval.case
  by (intro list.pred_cong refl) (use assms in \<open>force simp: rbind_Inr_iff split: prod.splits\<close>)

text \<open>
  C34: The sections of a configuration document are read without error exactly when the document
  conforms to its schema: at every level (document, instance, each gate, resolver and service, and
  the ready, restart and stop tables of each service) no key beyond the known ones, every required
  key present, every present key of the type and within the bounds its accessor states, at most one
  readiness probe. In particular a misspelt key anywhere is refused.
\<close>

theorem read_sections_exact: "(\<exists>cfg. read_sections raw = Inr cfg) \<longleftrightarrow> conforms CONFIG_SCHEMA raw"
  unfolding read_sections_def CONFIG_SCHEMA_def
  by (rule with_table_iff, (intro finishes_sbind finishes_done takes_table takes_section
        InstanceConfig_parse_iff parse_members_iff GateConfig_parse_iff ResolverConfig_parse_iff
        ServiceConfig_parse_iff; simp))

end
