(* ===== verification/Orc_Load.thy ===== *)
theory Orc_Load
  imports Orc_Schema
begin

text \<open>
  Reading a configuration file with its \<open>extends\<close> chain (\<open>load_raw\<close>, \<open>_resolve_extends\<close> and
  \<open>merge_raw\<close> of \<^verbatim>\<open>src/jetty/orchestrator/config.py\<close>). The file system is the parameter \<open>cfg_env\<close>: the
  canonical form of a path, what reading and parsing a file gives, and the expansion of a leading
  tilde. \<open>load_raw\<close> takes fuel, because nothing in the code bounds the length of the chain;
  \<open>load_raw_terminates\<close> shows that one unit per canonical file and one more is enough.
\<close>

section \<open>Merging\<close>

function merge_raw :: "(string, pyval) dict \<Rightarrow> (string, pyval) dict \<Rightarrow> (string, pyval) dict" where
  "merge_raw out [] = out"
| "merge_raw out ((key, v) # rest) =
     (case (v, dict_get out key) of
        (PBool False, Some (PDict _)) \<Rightarrow> merge_raw (dict_del key out) rest
      | (PDict d, Some (PDict b)) \<Rightarrow> merge_raw (dict_set key (PDict (merge_raw b d)) out) rest
      | _ \<Rightarrow> merge_raw (dict_set key v out) rest)"
  by pat_completeness auto
termination
  by (relation "measure (\<lambda>(out, ov). size_list (size_prod (\<lambda>_. 0) size) ov)") auto

section \<open>The extends chain\<close>

datatype read_result = NotFound | NotToml | ReadRaises py_exn | Document "(string, pyval) dict"

record cfg_env =
  env_realpath :: "string \<Rightarrow> string"
  env_read :: "string \<Rightarrow> read_result"
  env_expanduser :: "string \<Rightarrow> string"

definition isabs :: "string \<Rightarrow> bool" where
  "isabs p = prefix ''/'' p"

definition path_join :: "string \<Rightarrow> string \<Rightarrow> string" where
  "path_join base p =
     (if isabs p then p
      else if base = [] \<or> last base = CHR ''/'' then base @ p else base @ ''/'' @ p)"

text \<open>\<open>str(Path(real).parent)\<close> of a canonical absolute path.\<close>

definition parent_dir :: "string \<Rightarrow> string" where
  "parent_dir p = (case rpartition_ch (CHR ''/'') p of (d, _, _) \<Rightarrow> if d = [] then ''/'' else d)"

definition resolve_extends :: "cfg_env \<Rightarrow> string \<Rightarrow> string \<Rightarrow> cfg_exn + string" where
  "resolve_extends env value0 config_dir =
     (let value = (if prefix ''~'' value0 \<and> isabs (env_expanduser env value0)
                   then env_expanduser env value0 else value0)
      in if isabs value then Inr value
         else let base = env_realpath env config_dir;
                  resolved = env_realpath env (path_join base value)
              in if resolved \<noteq> base \<and> \<not> prefix (base @ ''/'') resolved
                 then Inl (ExtendsOutside value resolved) else Inr resolved)"

fun load_raw :: "cfg_env \<Rightarrow> nat \<Rightarrow> string \<Rightarrow> string list \<Rightarrow> (cfg_exn + (string, pyval) dict) option" where
  "load_raw env 0 path seen = None"
| "load_raw env (Suc fuel) path seen =
     (let real = env_realpath env path
      in if real \<in> set seen then Some (Inl (ExtendsCycle path))
         else case env_read env path of
           NotFound \<Rightarrow> Some (Inl (FileNotFound path))
         | NotToml \<Rightarrow> Some (Inl (TomlError path))
         | ReadRaises e \<Rightarrow> Some (Inl (CfgPy e))
         | Document raw0 \<Rightarrow>
             (let raw = dict_del ''extends'' raw0
              in case dict_get raw0 ''extends'' of
                   None \<Rightarrow> Some (Inr raw)
                 | Some (PStr ext) \<Rightarrow>
                     (case resolve_extends env ext (parent_dir real) of
                        Inl e \<Rightarrow> Some (Inl e)
                      | Inr parent \<Rightarrow>
                          map_option (\<lambda>r. rbind r (\<lambda>base. Inr (merge_raw base raw)))
                            (load_raw env fuel parent (real # seen)))
                 | Some _ \<Rightarrow> Some (Inl (ExtendsNotString path))))"

definition OrchestratorConfig_load :: "cfg_env \<Rightarrow> nat \<Rightarrow> string \<Rightarrow> (cfg_exn + orc_config) option" where
  "OrchestratorConfig_load env fuel path =
     map_option (\<lambda>r. rbind r (\<lambda>raw. OrchestratorConfig_parse (PDict raw))) (load_raw env fuel path [])"

section \<open>What a merge yields\<close>

text \<open>The value of one key: the child's, except that tables merge and \<open>false\<close> deletes a table.\<close>

definition merged :: "pyval option \<Rightarrow> pyval \<Rightarrow> pyval option" where
  "merged old v =
     (case (v, old) of
        (PBool False, Some (PDict _)) \<Rightarrow> None
      | (PDict d, Some (PDict b)) \<Rightarrow> Some (PDict (merge_raw b d))
      | _ \<Rightarrow> Some v)"

lemma merge_raw_step:
  "merge_raw out ((key, v) # rest) =
     merge_raw (case merged (dict_get out key) v of None \<Rightarrow> dict_del key out | Some w \<Rightarrow> dict_set key w out) rest"
  by (auto simp: merged_def split: pyval.splits option.splits bool.splits)

lemma merge_raw_get:
  "distinct (dict_keys ov) \<Longrightarrow>
   dict_get (merge_raw out ov) k =
     (case dict_get ov k of None \<Rightarrow> dict_get out k | Some v \<Rightarrow> merged (dict_get out k) v)"
proof (induction ov arbitrary: out)
  case Nil
  then show ?case by simp
next
  case (Cons p rest)
  obtain key v where p: "p = (key, v)" by (cases p)
  let ?out = "case merged (dict_get out key) v of None \<Rightarrow> dict_del key out | Some w \<Rightarrow> dict_set key w out"
  have out: "dict_get ?out j = (if j = key then merged (dict_get out key) v else dict_get out j)" for j
    by (simp split: option.splits)
  have "key \<notin> set (dict_keys rest)" using Cons.prems p by simp
  then have "dict_get rest key = None" by (simp add: map_of_eq_None_iff)
  with Cons.IH [of ?out] Cons.prems show ?case
    by (simp add: p merge_raw_step out del: merge_raw.simps) (simp split: option.splits)
qed

text \<open>The value at a path of keys.\<close>

fun path_get :: "pyval \<Rightarrow> string list \<Rightarrow> pyval option" where
  "path_get v [] = Some v"
| "path_get v (k # ks) =
     (case v of PDict d \<Rightarrow> (case dict_get d k of None \<Rightarrow> None | Some w \<Rightarrow> path_get w ks) | _ \<Rightarrow> None)"

text \<open>Keys are distinct in every table, as in any Python dictionary.\<close>

fun wf_val :: "nat \<Rightarrow> pyval \<Rightarrow> bool" where
  "wf_val 0 v = True"
| "wf_val (Suc n) v =
     (case v of PDict d \<Rightarrow> distinct (dict_keys d) \<and> list_all (\<lambda>(k, w). wf_val n w) d | _ \<Rightarrow> True)"

lemma leaf_wins:
  assumes "wf_val (length p) (PDict ov)" and "path_get (PDict ov) p = Some v" and "p \<noteq> []"
    and "\<not> is_dict v" and "v \<noteq> PBool False"
  shows "path_get (PDict (merge_raw base ov)) p = Some v"
  using assms
proof (induction p arbitrary: base ov)
  case Nil
  then show ?case by simp
next
  case (Cons k ks)
  from Cons.prems(1) have d: "distinct (dict_keys ov)" by simp
  from Cons.prems(2) obtain w where w: "dict_get ov k = Some w" "path_get w ks = Some v"
    by (auto split: option.splits)
  have get: "dict_get (merge_raw base ov) k = merged (dict_get base k) w"
    using merge_raw_get [OF d] w(1) by simp
  show ?case
  proof (cases "ks = []")
    case True
    with w Cons.prems(4,5) have "merged (dict_get base k) w = Some v"
      by (auto simp: merged_def is_dict_def split: pyval.splits option.splits bool.splits)
    with get True show ?thesis by simp
  next
    case False
    then obtain o' where o': "w = PDict o'" using w(2) by (cases ks; cases w) auto
    have wf: "wf_val (length ks) (PDict o')"
      using Cons.prems(1) w(1) o' by (auto simp: list_all_iff dest: map_of_SomeD)
    show ?thesis
    proof (cases "\<exists>b. dict_get base k = Some (PDict b)")
      case True
      then obtain b where "dict_get base k = Some (PDict b)" by blast
      with get o' have "dict_get (merge_raw base ov) k = Some (PDict (merge_raw b o'))"
        by (simp add: merged_def)
      with Cons.IH [OF wf _ False Cons.prems(4,5), of b] w(2) o' show ?thesis by simp
    next
      case none: False
      then have "dict_get (merge_raw base ov) k = Some w"
        using get o' by (auto simp: merged_def split: option.splits pyval.splits)
      with w(2) show ?thesis by simp
    qed
  qed
qed


section \<open>Properties\<close>

text \<open>
  Merging a child document into its parent is exact, key by key: a key the child does not
  mention keeps the parent's value; two tables merge recursively; \<open>false\<close> over a table deletes it; any
  other value of the child (scalars and arrays included) replaces the parent's wholesale.
\<close>

theorem merge_raw_exact:
  assumes "distinct (dict_keys child)"
  shows "dict_get (merge_raw parent child) k =
    (case dict_get child k of
       None \<Rightarrow> dict_get parent k
     | Some v \<Rightarrow>
         (case dict_get parent k of
            Some (PDict b) \<Rightarrow>
              (if v = PBool False then None
               else case v of PDict d \<Rightarrow> Some (PDict (merge_raw b d)) | _ \<Rightarrow> Some v)
          | _ \<Rightarrow> Some v))"
  using merge_raw_get [OF assms]
  by (auto simp: merged_def split: option.splits pyval.splits bool.splits)

definition sample_parent :: "(string, pyval) dict" where
  "sample_parent = [(''services'', PDict [(''web'', PDict [(''cmd'', PStr ''a'')]), (''metrics'', PDict [])])]"

definition sample_child :: "(string, pyval) dict" where
  "sample_child = [(''services'', PDict [(''metrics'', PBool False)])]"

theorem merge_raw_exact_witness:
  "dict_get (merge_raw sample_parent sample_child) ''services'' =
     Some (PDict [(''web'', PDict [(''cmd'', PStr ''a'')])])"
  using merge_raw_exact [of sample_child sample_parent "''services''"]
  by (simp add: sample_child_def sample_parent_def)

text \<open>
  A value the child states at any depth (other than a table, or the \<open>false\<close> that deletes one) is
  the value of the merged document at that path, whatever the parent says there.
\<close>

theorem merge_leaf_wins:
  assumes "wf_val (length p) (PDict child)" and "path_get (PDict child) p = Some v" and "p \<noteq> []"
    and "\<not> is_dict v" and "v \<noteq> PBool False"
  shows "path_get (PDict (merge_raw parent child)) p = Some v"
  using assms by (rule leaf_wins)

theorem merge_leaf_wins_witness:
  "path_get (PDict (merge_raw sample_parent [(''services'', PDict [(''web'', PDict [(''cmd'', PStr ''b'')])])]))
     [''services'', ''web'', ''cmd''] = Some (PStr ''b'')"
  by (rule merge_leaf_wins) (simp_all add: is_dict_def eval_nat_numeral)

text \<open>The canonical paths of the files that can be read.\<close>

definition readable :: "cfg_env \<Rightarrow> string set" where
  "readable env = {env_realpath env p | p. \<exists>d. env_read env p = Document d}"

lemma load_raw_enough_fuel:
  assumes "finite (readable env)"
  shows "card (readable env - set seen) < fuel \<Longrightarrow> \<exists>r. load_raw env fuel path seen = Some r"
proof (induction fuel arbitrary: path seen)
  case 0
  then show ?case by simp
next
  case (Suc fuel)
  let ?real = "env_realpath env path"
  show ?case
  proof (cases "?real \<notin> set seen \<and> (\<exists>d. env_read env path = Document d)")
    case True
    then have "?real \<in> readable env - set seen" by (auto simp: readable_def)
    then have "card (readable env - set (?real # seen)) < card (readable env - set seen)"
      using assms by (intro psubset_card_mono) auto
    then have "\<exists>r. load_raw env fuel parent (?real # seen) = Some r" for parent
      using Suc by simp
    then have "load_raw env fuel parent (?real # seen) \<noteq> None" for parent by auto
    then show ?thesis
      by (auto simp: Let_def split: option.splits pyval.splits sum.splits read_result.splits)
  next
    case False
    then show ?thesis by (auto simp: Let_def split: read_result.splits)
  qed
qed

text \<open>
  Loading ends. When finitely many files can be read, following the \<open>extends\<close> chain from any
  file returns a document or an error after at most one visit per canonical file and one more: a
  chain that comes back to a file it already visited is an error, never a loop.
\<close>

theorem load_raw_terminates:
  assumes "finite (readable env)"
  shows "\<exists>r. load_raw env (Suc (card (readable env))) path [] = Some r"
  using load_raw_enough_fuel [OF assms, of "[]" "Suc (card (readable env))"] by simp

definition loop_env :: cfg_env where
  "loop_env =
     \<lparr>env_realpath = (\<lambda>p. ''/etc/jetty.toml''), env_read = (\<lambda>p. Document [(''extends'', PStr ''/etc/jetty.toml'')]),
      env_expanduser = (\<lambda>p. p)\<rparr>"

lemma readable_loop_env: "readable loop_env = {''/etc/jetty.toml''}"
  by (auto simp: readable_def loop_env_def)

theorem load_raw_terminates_witness:
  "\<exists>r. load_raw loop_env 2 ''/etc/jetty.toml'' [] = Some r \<and> r = Inl (ExtendsCycle ''/etc/jetty.toml'')"
proof -
  obtain r where r: "load_raw loop_env 2 ''/etc/jetty.toml'' [] = Some r"
    using load_raw_terminates [of loop_env "''/etc/jetty.toml''"]
    by (auto simp: readable_loop_env numeral_2_eq_2)
  moreover have "load_raw loop_env 2 ''/etc/jetty.toml'' [] = Some (Inl (ExtendsCycle ''/etc/jetty.toml''))"
    by code_simp
  ultimately show ?thesis by simp
qed

end
