(* ===== verification/Py_Float.thy ===== *)
theory Py_Float
  imports Py_Text
begin

text \<open>
  The float arithmetic the orchestrator's clocks use: a finite double is its rational value, the
  result of an operation is rounded to nearest (ties to even) with 53 significant bits and the
  exponent range of a double, and what rounds past the largest double is an infinity. The lemma the
  components need is that rounding is monotone.
\<close>

section \<open>Definitions\<close>

definition round_half_even :: "rat \<Rightarrow> int" where
  "round_half_even q = (case quotient_of q of (a, b) \<Rightarrow> round_div a b)"

text \<open>The exponent of the leading bit of a positive number.\<close>

definition lead_exp :: "rat \<Rightarrow> int" where
  "lead_exp q =
     (case quotient_of q of (a, b) \<Rightarrow>
        let e = int (bit_len a) - int (bit_len b) in if 2 powi e \<le> q then e else e - 1)"

definition ulp :: "rat \<Rightarrow> rat" where
  "ulp q = 2 powi (max (lead_exp q - 52) (-1074))"

definition fl_pos :: "rat \<Rightarrow> rat" where
  "fl_pos q = ulp q * of_int (round_half_even (q / ulp q))"

definition fl_round :: "rat \<Rightarrow> rat" where
  "fl_round q = (if q = 0 then 0 else if q < 0 then - fl_pos (- q) else fl_pos q)"

text \<open>The largest doubles have the exponent 1023.\<close>

definition too_large :: "rat \<Rightarrow> bool" where
  "too_large q \<longleftrightarrow> 0 < q \<and> 1024 \<le> lead_exp q"

definition fl_make :: "rat \<Rightarrow> pyfloat" where
  "fl_make q =
     (let r = fl_round q in if too_large r then PosInf else if too_large (- r) then NegInf else Fin r)"

text \<open>Comparison; every comparison with a NaN is false.\<close>

fun float_lt :: "pyfloat \<Rightarrow> pyfloat \<Rightarrow> bool" where
  "float_lt (Fin a) (Fin b) = (a < b)"
| "float_lt (Fin a) PosInf = True"
| "float_lt NegInf (Fin b) = True"
| "float_lt NegInf PosInf = True"
| "float_lt _ _ = False"

definition float_min :: "pyfloat \<Rightarrow> pyfloat \<Rightarrow> pyfloat" where
  "float_min a b = (if float_lt b a then b else a)"

text \<open>A clock reading plus a duration; the difference of two clock readings.\<close>

definition float_add :: "rat \<Rightarrow> pyfloat \<Rightarrow> pyfloat" where
  "float_add a f = (case f of Fin b \<Rightarrow> fl_make (a + b) | _ \<Rightarrow> f)"

definition float_diff :: "rat \<Rightarrow> rat \<Rightarrow> pyfloat" where
  "float_diff a b = fl_make (a - b)"

text \<open>
  \<open>f * 2 ** n\<close> for a float \<open>f > 0\<close>: the integer becomes a float first, which fails past the largest
  double; the product by a power of two is exact unless it overflows.
\<close>

definition float_scale :: "pyfloat \<Rightarrow> nat \<Rightarrow> py_exn + pyfloat" where
  "float_scale f n =
     (if 1024 \<le> n then Inl OverflowError
      else Inr (case f of Fin a \<Rightarrow> if too_large (a * 2 ^ n) then PosInf else Fin (a * 2 ^ n) | _ \<Rightarrow> f))"

section \<open>Rounding to an integer\<close>

lemma round_div_near:
  assumes "0 < b"
  shows "2 * (round_div a b * b) \<le> 2 * a + b" "2 * a \<le> 2 * (round_div a b * b) + b"
proof -
  have m: "a div b * b + a mod b = a" "0 \<le> a mod b" "a mod b < b"
    using assms by simp_all
  have up: "(a div b + 1) * b = a div b * b + b" by (simp add: algebra_simps)
  consider "round_div a b * b = a div b * b" "2 * (a mod b) \<le> b"
    | "round_div a b * b = a div b * b + b" "b \<le> 2 * (a mod b)"
  proof (cases "2 * (a mod b) < b \<or> (2 * (a mod b) = b \<and> even (a div b))")
    case True
    then have "round_div a b = a div b" by (simp add: round_div_def)
    with True that(1) show ?thesis by auto
  next
    case False
    then have "round_div a b = a div b + 1" by (simp only: round_div_def if_False)
    with False up that(2) show ?thesis by simp
  qed
  then show "2 * (round_div a b * b) \<le> 2 * a + b" "2 * a \<le> 2 * (round_div a b * b) + b"
    using m by (cases; linarith)+
qed

lemma round_half_even_near: "\<bar>of_int (round_half_even q) - q\<bar> \<le> 1 / 2"
proof -
  obtain a b where ab: "quotient_of q = (a, b)" by fastforce
  then have b: "0 < b" and q: "q = of_int a / of_int b"
    by (simp_all add: quotient_of_denom_pos quotient_of_div)
  let ?r = "round_div a b"
  have "(of_int (2 * (?r * b)) :: rat) \<le> of_int (2 * a + b)" "(of_int (2 * a) :: rat) \<le> of_int (2 * (?r * b) + b)"
    using round_div_near [OF b, of a] by (simp_all only: of_int_le_iff)
  then have "of_int ?r - q \<le> 1 / 2" "q - of_int ?r \<le> 1 / 2"
    using b unfolding q by (simp_all add: field_simps)
  then have "\<bar>of_int ?r - q\<bar> \<le> 1 / 2" by linarith
  then show ?thesis by (simp add: round_half_even_def ab)
qed

lemma round_half_even_int [simp]: "round_half_even (of_int k) = k"
proof -
  have "\<bar>(of_int (round_half_even (of_int k) - k) :: rat)\<bar> < 1"
    using round_half_even_near [of "of_int k"] by simp
  then show ?thesis by linarith
qed

lemma round_half_even_mono:
  assumes "p \<le> q"
  shows "round_half_even p \<le> round_half_even q"
proof (rule ccontr)
  assume "\<not> ?thesis"
  then have "(of_int (round_half_even q) :: rat) + 1 \<le> of_int (round_half_even p)"
    by (metis not_le of_int_1 of_int_add of_int_le_iff zless_imp_add1_zle)
  with round_half_even_near [of p] round_half_even_near [of q] assms have "p = q"
    by (simp add: abs_le_iff)
  with \<open>\<not> ?thesis\<close> show False by simp
qed

section \<open>The exponent\<close>

lemma bit_len_bounds: "0 < n \<Longrightarrow> 2 ^ bit_len n \<le> 2 * n \<and> n < 2 ^ bit_len n"
proof (induction n rule: bit_len.induct)
  case (1 n)
  have n: "bit_len n = Suc (bit_len (n div 2))" using 1(2) by (simp add: bit_len.simps [of n])
  show ?case
  proof (cases "n = 1")
    case True
    then show ?thesis by (simp add: bit_len.simps)
  next
    case False
    with 1(2) have "0 < n div 2" by linarith
    with 1 have "2 ^ bit_len (n div 2) \<le> 2 * (n div 2)" "n div 2 < 2 ^ bit_len (n div 2)" by simp_all
    moreover have "2 * (n div 2) \<le> n" by simp
    moreover have "n < 2 * x" if "n div 2 < x" for x using that by linarith
    ultimately show ?thesis by (simp add: n)
  qed
qed

lemma powi_diff_nat: "(2 :: rat) powi (int a - int b) = 2 ^ a / 2 ^ b"
  by (simp add: power_int_diff)

lemma lead_exp_bounds:
  assumes "0 < q"
  shows "2 powi lead_exp q \<le> q" "q < 2 powi (lead_exp q + 1)"
proof -
  obtain a b where ab: "quotient_of q = (a, b)" by fastforce
  then have b: "0 < b" and q: "q = of_int a / of_int b"
    by (simp_all add: quotient_of_denom_pos quotient_of_div)
  with assms have a: "0 < a" by (simp add: zero_less_divide_iff)
  let ?e = "int (bit_len a) - int (bit_len b)"
  have up: "(of_int a :: rat) < 2 ^ bit_len a" "(of_int b :: rat) < 2 ^ bit_len b"
    using bit_len_bounds [OF a] bit_len_bounds [OF b] by (metis of_int_less_iff of_int_numeral of_int_power)+
  have "(of_int (2 ^ bit_len a) :: rat) \<le> of_int (2 * a)" "(of_int (2 ^ bit_len b) :: rat) \<le> of_int (2 * b)"
    using bit_len_bounds [OF a] bit_len_bounds [OF b] by (simp_all only: of_int_le_iff)
  then have lo: "(2 ^ bit_len a :: rat) \<le> 2 * of_int a" "(2 ^ bit_len b :: rat) \<le> 2 * of_int b" by simp_all
  have "q < 2 ^ bit_len a / (2 ^ bit_len b / 2)"
    unfolding q using up lo b a by (intro frac_less) auto
  then have top: "q < 2 powi (?e + 1)" by (simp add: power_int_add powi_diff_nat)
  have "2 ^ bit_len a / 2 / 2 ^ bit_len b \<le> q"
    unfolding q using up lo b a by (intro frac_le) auto
  then have bot: "2 powi (?e - 1) \<le> q" by (simp add: power_int_diff powi_diff_nat)
  show "2 powi lead_exp q \<le> q" "q < 2 powi (lead_exp q + 1)"
    using top bot by (auto simp: lead_exp_def ab Let_def)
qed

lemma lead_exp_mono:
  assumes "0 < p" "p \<le> q"
  shows "lead_exp p \<le> lead_exp q"
proof (rule ccontr)
  assume "\<not> ?thesis"
  then have "(2 :: rat) powi (lead_exp q + 1) \<le> 2 powi lead_exp p" by (intro power_int_increasing) auto
  with lead_exp_bounds [of p] lead_exp_bounds [of q] assms show False by simp
qed

section \<open>Rounding is monotone\<close>

lemma ulp_pos [simp]: "0 < ulp q"
  by (simp add: ulp_def)

lemma fl_pos_grid:
  assumes "x = ulp q * of_int k"
  shows "q \<le> x \<Longrightarrow> fl_pos q \<le> x" and "x \<le> q \<Longrightarrow> x \<le> fl_pos q"
proof -
  have k: "x / ulp q = of_int k" using assms ulp_pos [of q] by (metis less_irrefl nonzero_mult_div_cancel_left)
  have "fl_pos q \<le> x" if "q \<le> x"
  proof -
    have "q / ulp q \<le> of_int k" using that k by (metis divide_right_mono less_imp_le ulp_pos)
    then have "round_half_even (q / ulp q) \<le> k" by (metis round_half_even_mono round_half_even_int)
    then show ?thesis by (simp add: fl_pos_def assms)
  qed
  moreover have "x \<le> fl_pos q" if "x \<le> q"
  proof -
    have "of_int k \<le> q / ulp q" using that k by (metis divide_right_mono less_imp_le ulp_pos)
    then have "k \<le> round_half_even (q / ulp q)" by (metis round_half_even_mono round_half_even_int)
    then show ?thesis by (simp add: fl_pos_def assms)
  qed
  ultimately show "q \<le> x \<Longrightarrow> fl_pos q \<le> x" "x \<le> q \<Longrightarrow> x \<le> fl_pos q" by simp_all
qed

lemma powi_multiple:
  assumes "m \<le> n"
  shows "(2 :: rat) powi n = 2 powi m * of_int (2 ^ nat (n - m))"
proof -
  have "(2 :: rat) powi n = 2 powi (m + (n - m))" by simp
  also have "\<dots> = 2 powi m * 2 powi (n - m)" by (subst power_int_add) simp_all
  also have "(2 :: rat) powi (n - m) = 2 ^ nat (n - m)" using assms by (simp add: power_int_def)
  finally show ?thesis by simp
qed

lemma fl_pos_mono:
  assumes "0 < p" "p \<le> q"
  shows "fl_pos p \<le> fl_pos q"
proof (cases "ulp p = ulp q")
  case True
  have "p / ulp p \<le> q / ulp p" using assms by (intro divide_right_mono) (simp_all add: less_imp_le)
  then show ?thesis using round_half_even_mono [of "p / ulp p" "q / ulp p"] True
    by (simp add: fl_pos_def mult_left_mono)
next
  case False
  let ?x = "2 powi (lead_exp q) :: rat"
  have le: "lead_exp p \<le> lead_exp q" using assms by (rule lead_exp_mono)
  from False have "max (lead_exp p - 52) (-1074) \<noteq> max (lead_exp q - 52) (-1074)" by (auto simp only: ulp_def)
  with le have lt: "lead_exp p < lead_exp q" and big: "-1074 < lead_exp q - 52" by linarith+
  have "q \<ge> ?x" using lead_exp_bounds [of q] assms by simp
  then have q: "?x \<le> fl_pos q"
    by (rule fl_pos_grid(2) [OF powi_multiple [of "max (lead_exp q - 52) (-1074)", folded ulp_def], rotated])
       (use big in simp)
  have "(2 :: rat) powi (lead_exp p + 1) \<le> ?x" using lt by (intro power_int_increasing) auto
  with lead_exp_bounds [of p] assms have "p \<le> ?x" by simp
  then have "fl_pos p \<le> ?x"
    by (rule fl_pos_grid(1) [OF powi_multiple [of "max (lead_exp p - 52) (-1074)", folded ulp_def], rotated])
       (use lt big in simp)
  with q show ?thesis by simp
qed

lemma fl_pos_nonneg: "0 < q \<Longrightarrow> 0 \<le> fl_pos q"
  by (rule fl_pos_grid(2) [of 0 q 0]) simp_all

lemma fl_round_mono:
  assumes "p \<le> q"
  shows "fl_round p \<le> fl_round q"
proof -
  consider "q < 0" | "p < 0" "0 \<le> q" | "0 \<le> p" by linarith
  then show ?thesis
  proof cases
    case 1
    then have "fl_pos (- q) \<le> fl_pos (- p)" using assms by (intro fl_pos_mono) auto
    with 1 assms show ?thesis by (simp add: fl_round_def)
  next
    case 2
    then show ?thesis
      using fl_pos_nonneg [of "- p"] fl_pos_nonneg [of q] by (cases "q = 0") (simp_all add: fl_round_def)
  next
    case 3
    then show ?thesis
      using assms fl_pos_nonneg [of q] fl_pos_mono [of p q] by (simp add: fl_round_def)
  qed
qed

lemma too_large_iff: "too_large q \<longleftrightarrow> 2 powi 1024 \<le> q"
proof (cases "0 < q")
  case True
  have "2 powi 1024 \<le> q" if "1024 \<le> lead_exp q"
    using lead_exp_bounds(1) [OF True] power_int_increasing [OF that, of "2 :: rat"] by linarith
  moreover have "1024 \<le> lead_exp q" if le: "2 powi 1024 \<le> q"
  proof (rule ccontr)
    assume "\<not> 1024 \<le> lead_exp q"
    then have "(2 :: rat) powi (lead_exp q + 1) \<le> 2 powi 1024" by (intro power_int_increasing) auto
    with lead_exp_bounds(2) [OF True] le show False by linarith
  qed
  ultimately show ?thesis using True by (auto simp: too_large_def)
next
  case False
  have "(0 :: rat) < 2 powi 1024" by (rule zero_less_power_int) simp
  with False show ?thesis by (auto simp only: too_large_def)
qed

lemma fl_make_lt_mono:
  assumes "p \<le> q" "float_lt (fl_make q) w"
  shows "float_lt (fl_make p) w"
proof -
  let ?big = "2 powi 1024 :: rat"
  have "?big > 0" by (rule zero_less_power_int) simp
  with assms(2) fl_round_mono [OF assms(1)] show ?thesis
    by (cases w) (auto simp only: fl_make_def Let_def too_large_iff float_lt.simps split: if_splits)
qed

text \<open>The age of an event does not shrink as the clock advances.\<close>

lemma float_diff_lt_mono:
  "now \<le> now' \<Longrightarrow> float_lt (float_diff now' t) w \<Longrightarrow> float_lt (float_diff now t) w"
  by (auto simp: float_diff_def elim!: fl_make_lt_mono [rotated])

lemma float_diff_self [simp]: "float_diff t t = Fin 0"
  by (simp add: float_diff_def fl_make_def fl_round_def too_large_def)

section \<open>Checks against IEEE 754\<close>

lemma fl_round_examples:
  "fl_round (1 / 4) = 1 / 4"
  "fl_round (1 / 10) = 3602879701896397 / 36028797018963968"
  "fl_round (of_int (2 ^ 53 + 1)) = 9007199254740992"
  by code_simp+

end
