(* ===== verification/Orc_Gates.thy ===== *)
theory Orc_Gates
  imports Py_Float Orc_Config
begin

text \<open>
  \<^verbatim>\<open>src/jetty/orchestrator/gates.py\<close>: the gates of an instance and the cache of their results.

  A call of \<open>_check\<close> reads the clock, may run the command and then reads the clock again; what it
  meets is a \<open>probe\<close>: the two readings and the outcome the command would have. Each gate has its own
  lock and \<open>_check\<close> touches the cache entry of its own gate only, so a call is one atomic operation
  on that entry. A clock reading is the rational value of a double.
\<close>

section \<open>Definitions\<close>

datatype run_outcome = CannotRun | RunTimeout | RunExit int

record probe =
  pr_at :: rat
  pr_outcome :: run_outcome
  pr_end :: rat

type_synonym stamped = "rat \<times> bool"

record gate_set =
  gs_gates :: "(string, gate_config \<times> string list) dict"
  gs_cache :: "(string, stamped) dict"

definition GateSet :: "(string, gate_config \<times> string list) dict \<Rightarrow> gate_set" where
  "GateSet gates = \<lparr>gs_gates = gates, gs_cache = []\<rparr>"

text \<open>\<open>_run\<close>: a check that cannot be run or does not end in time counts as failed.\<close>

definition gate_run :: "run_outcome \<Rightarrow> bool" where
  "gate_run out = (case out of CannotRun \<Rightarrow> False | RunTimeout \<Rightarrow> False | RunExit code \<Rightarrow> code = 0)"

definition serves_cached :: "pyfloat \<Rightarrow> stamped option \<Rightarrow> bool \<Rightarrow> rat \<Rightarrow> bool" where
  "serves_cached recheck cached refresh now =
     (case cached of None \<Rightarrow> False | Some (t, _) \<Rightarrow> \<not> refresh \<and> float_lt (float_diff now t) recheck)"

definition gate_check :: "string \<Rightarrow> bool \<Rightarrow> probe \<Rightarrow> (gate_set, py_exn, bool) opn" where
  "gate_check name refresh p gs =
     (case dict_get (gs_gates gs) name of
        None \<Rightarrow> (Inl KeyError, gs)
      | Some (cfg, argv) \<Rightarrow>
          let cached = dict_get (gs_cache gs) name
          in if serves_cached (g_recheck cfg) cached refresh (pr_at p)
             then (Inr (snd (the cached)), gs)
             else let ok = gate_run (pr_outcome p)
                  in (Inr ok, gs\<lparr>gs_cache := dict_set name (pr_end p, ok) (gs_cache gs)\<rparr>))"

text \<open>The names of a call, each with the probe its check meets.\<close>

fun failing_gates :: "bool \<Rightarrow> (string \<times> probe) list \<Rightarrow> (gate_set, py_exn, string list) opn" where
  "failing_gates refresh [] = sret []"
| "failing_gates refresh ((n, p) # ps) =
     sbind (gate_check n refresh p) (\<lambda>ok.
     sbind (failing_gates refresh ps) (\<lambda>rest. sret (if ok then rest else n # rest)))"

definition satisfied :: "bool \<Rightarrow> (string \<times> probe) list \<Rightarrow> (gate_set, py_exn, bool \<times> string list) opn" where
  "satisfied refresh ps = sbind (failing_gates refresh ps) (\<lambda>failing. sret (failing = [], failing))"

fun poll_loop :: "(string \<times> probe) list \<Rightarrow> (string, bool \<times> rat) dict \<Rightarrow>
    (gate_set, py_exn, (string, bool \<times> rat) dict) opn" where
  "poll_loop [] out = sret out"
| "poll_loop ((n, p) # ps) out =
     sbind (gate_check n False p) (\<lambda>ok.
     sbind (sget (\<lambda>gs. dict_get (gs_cache gs) n)) (\<lambda>c.
       case c of None \<Rightarrow> sraise KeyError | Some (t, _) \<Rightarrow> poll_loop ps (dict_set n (ok, t) out)))"

definition poll_gates :: "(string \<times> probe) list \<Rightarrow> (gate_set, py_exn, (string, bool \<times> rat) dict) opn" where
  "poll_gates ps = poll_loop ps []"

definition continuous :: "string list \<Rightarrow> (gate_set, py_exn, string list) opn" where
  "continuous names gs =
     (rfilter (\<lambda>n. case dict_get (gs_gates gs) n of None \<Rightarrow> Inl KeyError | Some (cfg, _) \<Rightarrow> Inr (g_continuous cfg)) names, gs)"

definition gate_close_after :: "gate_set \<Rightarrow> string \<Rightarrow> py_exn + int" where
  "gate_close_after gs n =
     (case dict_get (gs_gates gs) n of None \<Rightarrow> Inl KeyError | Some (cfg, _) \<Rightarrow> Inr (g_close_after cfg))"

text \<open>\<open>min\<close> of a non-empty sequence keeps the first of equal values.\<close>

fun float_min_list :: "pyfloat list \<Rightarrow> py_exn + pyfloat" where
  "float_min_list [] = Inl ValueError"
| "float_min_list (x # xs) = Inr (foldl float_min x xs)"

definition min_recheck :: "gate_set \<Rightarrow> string list \<Rightarrow> py_exn + pyfloat" where
  "min_recheck gs names =
     rbind (rmap (\<lambda>n. case dict_get (gs_gates gs) n of None \<Rightarrow> Inl KeyError | Some (cfg, _) \<Rightarrow> Inr (g_recheck cfg)) names)
       float_min_list"

section \<open>One gate\<close>

lemma gate_check_gates [simp]: "gs_gates (snd (gate_check n r p gs)) = gs_gates gs"
  by (auto simp: gate_check_def Let_def split: option.splits prod.splits)

text \<open>A check changes its own gate's entry only, and afterwards the entry holds what was answered.\<close>

lemma gate_check_other:
  "m \<noteq> n \<Longrightarrow> dict_get (gs_cache (snd (gate_check n r p gs))) m = dict_get (gs_cache gs) m"
  by (auto simp: gate_check_def Let_def split: option.splits prod.splits)

lemma gate_check_known:
  assumes "dict_get (gs_gates gs) n = Some (cfg, argv)"
  obtains t ok where "gate_check n r p gs = (Inr ok, snd (gate_check n r p gs))"
    and "dict_get (gs_cache (snd (gate_check n r p gs))) n = Some (t, ok)"
    and "(dict_get (gs_cache gs) n = Some (t, ok) \<and> snd (gate_check n r p gs) = gs \<and>
            \<not> r \<and> float_lt (float_diff (pr_at p) t) (g_recheck cfg)) \<or>
         (t = pr_end p \<and> ok = gate_run (pr_outcome p) \<and>
            \<not> serves_cached (g_recheck cfg) (dict_get (gs_cache gs) n) r (pr_at p))"
proof (cases "serves_cached (g_recheck cfg) (dict_get (gs_cache gs) n) r (pr_at p)")
  case True
  then obtain t ok where "dict_get (gs_cache gs) n = Some (t, ok)" "\<not> r"
      "float_lt (float_diff (pr_at p) t) (g_recheck cfg)"
    by (auto simp: serves_cached_def split: option.splits)
  with True assms show ?thesis by (intro that [of ok t]) (simp_all add: gate_check_def)
next
  case False
  with assms show ?thesis
    by (intro that [of "gate_run (pr_outcome p)" "pr_end p"]) (simp_all add: gate_check_def Let_def)
qed

end
