(* ===== verification/Orc_Watch.thy ===== *)
theory Orc_Watch
  imports Orc_Gates
begin

text \<open>
  The decisions of the two watchers of \<^verbatim>\<open>src/jetty/orchestrator/service.py\<close> that run beside a live
  process: \<open>_watch_continuous_gates\<close>, which counts consecutive failed checks of each gate, and
  \<open>_watch_paths\<close>, which compares change signatures. When a decision stops the process is part of the
  service's state machine (theory \<open>Orc_Service\<close>).

  The watcher of gates relies on the gate set for one contract (locale \<open>stamped_checks\<close>): a result
  carries the stamp of the run that produced it.
\<close>

section \<open>Definitions\<close>

subsection \<open>Continuous gates\<close>

record gate_watch =
  gw_streaks :: "(string, int) dict"
  gw_counted :: "(string, rat) dict"

definition no_streaks :: gate_watch where
  "no_streaks = \<lparr>gw_streaks = [], gw_counted = []\<rparr>"

definition count_result :: "gate_watch \<Rightarrow> string \<times> bool \<times> rat \<Rightarrow> gate_watch" where
  "count_result w r =
     (case r of (n, ok, stamp) \<Rightarrow>
        if dict_get (gw_counted w) n = Some stamp then w
        else w\<lparr>gw_counted := dict_set n stamp (gw_counted w),
               gw_streaks := dict_set n (if ok then 0 else dict_get_or (gw_streaks w) n 0 + 1) (gw_streaks w)\<rparr>)"

definition closed_gates :: "gate_set \<Rightarrow> (string, bool \<times> rat) dict \<Rightarrow> gate_watch \<Rightarrow> py_exn + string list" where
  "closed_gates gs results w =
     rbind (rfilter (\<lambda>(n, ok, _). if ok then Inr False
                else rbind (gate_close_after gs n) (\<lambda>k. Inr (k \<le> dict_get_or (gw_streaks w) n 0))) results)
       (\<lambda>rs. Inr (map fst rs))"

text \<open>One wake of the watcher past its first guard: the gates it finds closed.\<close>

definition gate_wake :: "(string \<times> probe) list \<Rightarrow> (gate_set \<times> gate_watch, py_exn, string list) opn" where
  "gate_wake ps s =
     (case poll_gates ps (fst s) of
        (Inl e, gs) \<Rightarrow> (Inl e, (gs, snd s))
      | (Inr results, gs) \<Rightarrow>
          let w = foldl count_result (snd s) results
          in (closed_gates gs results w, (gs, w)))"

text \<open>
  The loop over the polls that find the service neither stopping nor exited: it ends with the closed
  gates, or is still watching (\<open>None\<close>).
\<close>

fun watch_continuous :: "(string \<times> probe) list list \<Rightarrow> (gate_set \<times> gate_watch, py_exn, string list option) opn" where
  "watch_continuous [] = sret None"
| "watch_continuous (ps # polls) =
     sbind (gate_wake ps) (\<lambda>closed. if closed = [] then watch_continuous polls else sret (Some closed))"

subsection \<open>Watched paths\<close>

datatype signature = FileSig int int int | TreeSig string

type_synonym path_sigs = "(string, signature option) dict"

definition scan_paths :: "string list \<Rightarrow> signature option list \<Rightarrow> path_sigs" where
  "scan_paths paths sigs = foldl (\<lambda>d (p, sg). dict_set p sg d) [] (zip paths sigs)"

text \<open>\<open>os.path.basename\<close>.\<close>

definition basename :: "string \<Rightarrow> string" where
  "basename p = (case rpartition_ch (CHR ''/'') p of (_, _, b) \<Rightarrow> b)"

record path_watch =
  pw_baseline :: path_sigs
  pw_previous :: path_sigs

definition path_watch_start :: "path_sigs \<Rightarrow> path_watch" where
  "path_watch_start base = \<lparr>pw_baseline = base, pw_previous = base\<rparr>"

definition changed_paths :: "string list \<Rightarrow> path_sigs \<Rightarrow> path_sigs \<Rightarrow> string list" where
  "changed_paths paths current baseline =
     sort (map basename (filter (\<lambda>p. dict_get current p \<noteq> dict_get baseline p) paths))"

text \<open>
  One poll: the changed names when the service is to be relaunched, and the state for the next poll.
  A signature is a non-empty tuple, so \<open>all(current.values())\<close> asks that no path is missing.
\<close>

definition path_poll :: "string list \<Rightarrow> path_sigs \<Rightarrow> path_watch \<Rightarrow> string list option \<times> path_watch" where
  "path_poll paths current w =
     (let changed = changed_paths paths current (pw_baseline w);
          settled = list_all (\<lambda>s. s \<noteq> None) (dict_values current) \<and> current = pw_previous w
      in (if changed \<noteq> [] \<and> settled then Some changed else None, w\<lparr>pw_previous := current\<rparr>))"

text \<open>The loop over the polls of a live process: the changed names that relaunch it.\<close>

fun watch_paths :: "string list \<Rightarrow> path_sigs list \<Rightarrow> path_watch \<Rightarrow> string list option" where
  "watch_paths paths [] w = None"
| "watch_paths paths (current # polls) w =
     (case path_poll paths current w of
        (Some changed, _) \<Rightarrow> Some changed
      | (None, w') \<Rightarrow> watch_paths paths polls w')"

section \<open>The contract of stamped results\<close>

text \<open>The outcomes of the runs that really happen over a sequence of calls.\<close>

fun executed :: "('p \<Rightarrow> 'c \<Rightarrow> stamped \<times> 'c) \<Rightarrow> ('p \<Rightarrow> 'c \<Rightarrow> bool) \<Rightarrow> 'c \<Rightarrow> 'p list \<Rightarrow> bool list" where
  "executed check runs c [] = []"
| "executed check runs c (p # ps) =
     (if runs p c then [snd (fst (check p c))] else []) @ executed check runs (snd (check p c)) ps"

text \<open>The outcomes a caller sees: an earlier run counts when its result is served to the first call.\<close>

definition seen_runs :: "('p \<Rightarrow> 'c \<Rightarrow> stamped \<times> 'c) \<Rightarrow> ('p \<Rightarrow> 'c \<Rightarrow> bool) \<Rightarrow> 'c \<Rightarrow> 'p list \<Rightarrow> bool list" where
  "seen_runs check runs c ps =
     (case ps of [] \<Rightarrow> [] | p # _ \<Rightarrow> if runs p c then [] else [snd (fst (check p c))])
     @ executed check runs c ps"

text \<open>The caller that counts one gate: last stamp counted, current streak.\<close>

definition count_one :: "rat option \<times> int \<Rightarrow> stamped \<Rightarrow> rat option \<times> int" where
  "count_one s r =
     (if fst s = Some (fst r) then s else (Some (fst r), if snd r then 0 else snd s + 1))"

fun count_calls :: "('p \<Rightarrow> 'c \<Rightarrow> stamped \<times> 'c) \<Rightarrow> 'c \<Rightarrow> 'p list \<Rightarrow> rat option \<times> int \<Rightarrow> rat option \<times> int" where
  "count_calls check c [] s = s"
| "count_calls check c (p # ps) s = count_calls check (snd (check p c)) ps (count_one s (fst (check p c)))"

fun entry_after :: "('p \<Rightarrow> 'c \<Rightarrow> stamped \<times> 'c) \<Rightarrow> 'c \<Rightarrow> 'p list \<Rightarrow> 'c" where
  "entry_after check c [] = c"
| "entry_after check c (p # ps) = entry_after check (snd (check p c)) ps"

lemma calls_snoc:
  "entry_after check c (ps @ [p]) = snd (check p (entry_after check c ps))"
  "count_calls check c (ps @ [p]) s = count_one (count_calls check c ps s) (fst (check p (entry_after check c ps)))"
  "executed check runs c (ps @ [p]) = executed check runs c ps @
     (if runs p (entry_after check c ps) then [snd (fst (check p (entry_after check c ps)))] else [])"
  by (induction ps arbitrary: c s) simp_all

definition trailing_failures :: "bool list \<Rightarrow> nat" where
  "trailing_failures oks = length (takeWhile Not (rev oks))"

lemma trailing_failures_last: "oks \<noteq> [] \<Longrightarrow> last oks \<Longrightarrow> trailing_failures oks = 0"
  by (cases oks rule: rev_cases) (auto simp: trailing_failures_def)

lemma trailing_failures_snoc [simp]:
  "trailing_failures [] = 0"
  "trailing_failures (oks @ [ok]) = (if ok then 0 else Suc (trailing_failures oks))"
  by (simp_all add: trailing_failures_def)

locale stamped_checks =
  fixes check :: "'p \<Rightarrow> 'c \<Rightarrow> stamped \<times> 'c"
    and runs :: "'p \<Rightarrow> 'c \<Rightarrow> bool"
    and stamp :: "'p \<Rightarrow> rat"
    and entry :: "'c \<Rightarrow> stamped option"
  assumes remembers: "entry (snd (check p c)) = Some (fst (check p c))"
    and cached: "\<not> runs p c \<Longrightarrow> entry c = Some (fst (check p c))"
    and stamps: "runs p c \<Longrightarrow> fst (fst (check p c)) = stamp p"
begin

lemma count_calls_steady:
  assumes "entry c = Some (t, ok)" and "distinct (t # map stamp ps)"
    and "int (trailing_failures oks) = k"
  shows "snd (count_calls check c ps (Some t, k)) = int (trailing_failures (oks @ executed check runs c ps))"
  using assms
proof (induction ps arbitrary: c t ok k oks)
  case Nil
  then show ?case by simp
next
  case (Cons p ps)
  obtain t' ok' where r: "fst (check p c) = (t', ok')" by fastforce
  have e: "entry (snd (check p c)) = Some (t', ok')" using remembers [of p c] r by simp
  show ?case
  proof (cases "runs p c")
    case True
    then have t': "t' = stamp p" using stamps [of p c] r by simp
    with Cons.prems have ne: "t \<noteq> t'" and d: "distinct (t' # map stamp ps)" by auto
    have "snd (count_calls check (snd (check p c)) ps (Some t', if ok' then 0 else k + 1))
        = int (trailing_failures ((oks @ [ok']) @ executed check runs (snd (check p c)) ps))"
      by (rule Cons.IH [OF e d]) (use Cons.prems(3) in auto)
    with True r ne show ?thesis by (cases ok') (simp_all add: count_one_def)
  next
    case False
    then have "(t', ok') = (t, ok)" using cached [of p c] r Cons.prems(1) by simp
    with False r Cons.IH [OF e, of oks k] Cons.prems show ?thesis by (simp add: count_one_def)
  qed
qed

text \<open>The streak is the number of trailing failures among the runs, whatever was served from the cache.\<close>

lemma count_calls_exact:
  assumes "distinct (map stamp ps)" and "\<And>t ok. entry c = Some (t, ok) \<Longrightarrow> t \<notin> stamp ` set ps"
  shows "snd (count_calls check c ps (None, 0)) = int (trailing_failures (seen_runs check runs c ps))"
proof (cases ps)
  case Nil
  then show ?thesis by (simp add: seen_runs_def)
next
  case (Cons p qs)
  obtain t ok where r: "fst (check p c) = (t, ok)" by fastforce
  have e: "entry (snd (check p c)) = Some (t, ok)" using remembers [of p c] r by simp
  have d: "distinct (t # map stamp qs)"
  proof (cases "runs p c")
    case True
    with stamps [of p c] r assms(1) Cons show ?thesis by simp
  next
    case False
    with cached [of p c] r assms Cons show ?thesis by auto
  qed
  have "snd (count_calls check (snd (check p c)) qs (Some t, if ok then 0 else 1))
      = int (trailing_failures ([ok] @ executed check runs (snd (check p c)) qs))"
    using trailing_failures_snoc(2) [of "[]" ok] by (intro count_calls_steady [OF e d]) auto
  with Cons r show ?thesis by (cases "runs p c"; cases ok) (simp_all add: seen_runs_def count_one_def)
qed

text \<open>The last run a caller has seen is the one its last answer came from.\<close>

lemma seen_runs_last:
  assumes "ps \<noteq> []"
  shows "seen_runs check runs c ps \<noteq> []"
    and "entry (entry_after check c ps) = Some (t, ok) \<Longrightarrow> last (seen_runs check runs c ps) = ok"
proof -
  have "seen_runs check runs c ps \<noteq> [] \<and>
      (\<forall>t ok. entry (entry_after check c ps) = Some (t, ok) \<longrightarrow> last (seen_runs check runs c ps) = ok)"
    using assms
  proof (induction ps rule: rev_nonempty_induct)
    case (single p)
    show ?case using remembers [of p c] by (auto simp: seen_runs_def)
  next
    case (snoc p ps)
    let ?c = "entry_after check c ps"
    have app: "seen_runs check runs c (ps @ [p]) =
        seen_runs check runs c ps @ (if runs p ?c then [snd (fst (check p ?c))] else [])"
      using snoc(1) by (cases ps) (simp_all add: seen_runs_def calls_snoc(3) [of _ _ c "_ # _", simplified])
    show ?case
    proof (cases "runs p ?c")
      case True
      then show ?thesis using remembers [of p ?c] by (simp add: app calls_snoc)
    next
      case False
      then show ?thesis using remembers [of p ?c] cached [of p ?c] snoc(2) by (auto simp: app calls_snoc)
    qed
  qed
  then show "seen_runs check runs c ps \<noteq> []"
    and "entry (entry_after check c ps) = Some (t, ok) \<Longrightarrow> last (seen_runs check runs c ps) = ok" by auto
qed

end

section \<open>The gate set keeps the contract\<close>

definition entry_check :: "pyfloat \<Rightarrow> probe \<Rightarrow> stamped option \<Rightarrow> stamped \<times> stamped option" where
  "entry_check recheck p c =
     (let r = (if serves_cached recheck c False (pr_at p) then the c else (pr_end p, gate_run (pr_outcome p)))
      in (r, Some r))"

definition entry_runs :: "pyfloat \<Rightarrow> probe \<Rightarrow> stamped option \<Rightarrow> bool" where
  "entry_runs recheck p c = (\<not> serves_cached recheck c False (pr_at p))"

interpretation gate_entry: stamped_checks "entry_check r" "entry_runs r" pr_end "\<lambda>c. c" for r
  by unfold_locales (auto simp: entry_check_def entry_runs_def serves_cached_def Let_def split: option.splits)

text \<open>A check of the gate set is the check of its entry.\<close>

lemma gate_check_entry:
  assumes "dict_get (gs_gates gs) n = Some (cfg, argv)"
    and "entry_check (g_recheck cfg) p (dict_get (gs_cache gs) n) = ((t, ok), c)"
  shows "\<exists>gs'. gate_check n False p gs = (Inr ok, gs') \<and> dict_get (gs_cache gs') n = Some (t, ok) \<and> c = Some (t, ok)
           \<and> gs_gates gs' = gs_gates gs \<and> (\<forall>m. m \<noteq> n \<longrightarrow> dict_get (gs_cache gs') m = dict_get (gs_cache gs) m)"
proof -
  show ?thesis
  proof (cases "serves_cached (g_recheck cfg) (dict_get (gs_cache gs) n) False (pr_at p)")
    case True
    then have "dict_get (gs_cache gs) n = Some (t, ok)"
      using assms(2) by (auto simp: entry_check_def serves_cached_def split: option.splits)
    with True assms show ?thesis by (auto simp: gate_check_def entry_check_def Let_def)
  next
    case False
    with assms show ?thesis by (auto simp: gate_check_def entry_check_def Let_def)
  qed
qed

section \<open>One wake over several gates\<close>

definition recheck_of :: "gate_set \<Rightarrow> string \<Rightarrow> pyfloat" where
  "recheck_of gs n = (case dict_get (gs_gates gs) n of None \<Rightarrow> NaN | Some (cfg, _) \<Rightarrow> g_recheck cfg)"

definition answer :: "gate_set \<Rightarrow> string \<times> probe \<Rightarrow> string \<times> bool \<times> rat" where
  "answer gs np =
     (case fst (entry_check (recheck_of gs (fst np)) (snd np) (dict_get (gs_cache gs) (fst np))) of
        (t, ok) \<Rightarrow> (fst np, ok, t))"

lemma fst_answer [simp]: "fst (answer gs np) = fst np"
  by (simp add: answer_def split: prod.splits)

definition known_gates :: "gate_set \<Rightarrow> string list \<Rightarrow> bool" where
  "known_gates gs names \<longleftrightarrow> (\<forall>n \<in> set names. dict_in n (gs_gates gs))"

lemma entry_check_snd: "snd (entry_check r p c) = Some (fst (entry_check r p c))"
  by (simp add: entry_check_def Let_def)

text \<open>A poll answers for each gate from its own entry, and changes that entry only.\<close>

lemma poll_loop_known:
  assumes "distinct (map fst ps)" and "known_gates gs (map fst ps)" and "set (map fst ps) \<inter> set (dict_keys out) = {}"
  shows "\<exists>gs'. poll_loop ps out gs = (Inr (out @ map (answer gs) ps), gs') \<and> gs_gates gs' = gs_gates gs \<and>
           (\<forall>m. dict_get (gs_cache gs') m =
              (case map_of ps m of None \<Rightarrow> dict_get (gs_cache gs) m
               | Some p \<Rightarrow> snd (entry_check (recheck_of gs m) p (dict_get (gs_cache gs) m))))"
  using assms
proof (induction ps arbitrary: gs out)
  case Nil
  then show ?case by simp
next
  case (Cons np ps)
  obtain n p where np: "np = (n, p)" by fastforce
  from Cons.prems(2) obtain cfg argv where g: "dict_get (gs_gates gs) n = Some (cfg, argv)"
    by (auto simp: known_gates_def dict_in_def np)
  obtain t ok where e: "fst (entry_check (g_recheck cfg) p (dict_get (gs_cache gs) n)) = (t, ok)" by fastforce
  then obtain c where "entry_check (g_recheck cfg) p (dict_get (gs_cache gs) n) = ((t, ok), c)" by (metis prod.collapse)
  from gate_check_entry [OF g this] obtain gs1 where gs1:
    "gate_check n False p gs = (Inr ok, gs1)" "dict_get (gs_cache gs1) n = Some (t, ok)"
    "gs_gates gs1 = gs_gates gs" "\<And>m. m \<noteq> n \<Longrightarrow> dict_get (gs_cache gs1) m = dict_get (gs_cache gs) m" by blast
  have n: "n \<notin> set (dict_keys out)" "n \<notin> set (map fst ps)" using Cons.prems by (auto simp: np)
  have out: "dict_set n (ok, t) out = out @ [(n, ok, t)]" using n(1) by (rule dict_set_fresh)
  have r: "recheck_of gs1 m = recheck_of gs m" for m by (simp add: recheck_of_def gs1)
  have "\<exists>gs'. poll_loop ps (out @ [(n, ok, t)]) gs1 = (Inr ((out @ [(n, ok, t)]) @ map (answer gs1) ps), gs') \<and>
      gs_gates gs' = gs_gates gs1 \<and> (\<forall>m. dict_get (gs_cache gs') m =
              (case map_of ps m of None \<Rightarrow> dict_get (gs_cache gs1) m
               | Some p \<Rightarrow> snd (entry_check (recheck_of gs1 m) p (dict_get (gs_cache gs1) m))))"
    by (rule Cons.IH) (use Cons.prems n gs1(3) in \<open>auto simp: np known_gates_def\<close>)
  then obtain gs' where gs': "poll_loop ps (out @ [(n, ok, t)]) gs1 = (Inr (out @ (n, ok, t) # map (answer gs1) ps), gs')"
    "gs_gates gs' = gs_gates gs1" "\<And>m. dict_get (gs_cache gs') m =
              (case map_of ps m of None \<Rightarrow> dict_get (gs_cache gs1) m
               | Some p \<Rightarrow> snd (entry_check (recheck_of gs1 m) p (dict_get (gs_cache gs1) m)))" by auto
  have "answer gs1 mp = answer gs mp" if "mp \<in> set ps" for mp
  proof -
    have "fst mp \<noteq> n" using that n(2) by force
    then show ?thesis by (simp add: answer_def r gs1)
  qed
  then have ans: "map (answer gs1) ps = map (answer gs) ps" by simp
  have "answer gs (n, p) = (n, ok, t)" using e by (simp add: answer_def recheck_of_def g)
  then have p1: "poll_loop (np # ps) out gs = (Inr (out @ map (answer gs) (np # ps)), gs')"
    using gs1(1,2) gs'(1) out ans by (simp add: np)
  have none: "map_of ps n = None" using n(2) by (simp add: map_of_eq_None_iff)
  have p2: "dict_get (gs_cache gs') m =
      (case map_of (np # ps) m of None \<Rightarrow> dict_get (gs_cache gs) m
       | Some p \<Rightarrow> snd (entry_check (recheck_of gs m) p (dict_get (gs_cache gs) m)))" for m
  proof (cases "m = n")
    case True
    then show ?thesis using gs'(3) [of m] none gs1(2) e
      by (simp add: np entry_check_snd recheck_of_def g)
  next
    case False
    then show ?thesis using gs'(3) [of m] gs1(4) [of m] r by (simp add: np split: option.split)
  qed
  from p1 p2 gs'(2) gs1(3) show ?case by auto
qed

text \<open>Counting a poll counts each gate on its own.\<close>

definition watch_entry :: "gate_watch \<Rightarrow> string \<Rightarrow> rat option \<times> int" where
  "watch_entry w n = (dict_get (gw_counted w) n, dict_get_or (gw_streaks w) n 0)"

lemma count_result_entry:
  "watch_entry (count_result w (n, ok, t)) m =
     (if m = n then count_one (watch_entry w n) (t, ok) else watch_entry w m)"
  by (auto simp: count_result_def watch_entry_def count_one_def)

lemma count_results_entry:
  assumes "distinct (dict_keys rs)"
  shows "watch_entry (foldl count_result w rs) m =
     (case map_of rs m of None \<Rightarrow> watch_entry w m | Some (ok, t) \<Rightarrow> count_one (watch_entry w m) (t, ok))"
  using assms
proof (induction rs arbitrary: w)
  case Nil
  then show ?case by simp
next
  case (Cons r rs)
  obtain n ok t where r: "r = (n, ok, t)" by (cases r)
  with Cons have "map_of rs n = None" by (simp add: map_of_eq_None_iff)
  with Cons r show ?case by (simp add: count_result_entry split: option.split)
qed

section \<open>Closing after consecutive failed runs\<close>

text \<open>The probes of one gate in a sequence of polls, and the runs of the gate among them.\<close>

definition probes_of :: "string \<Rightarrow> (string \<times> probe) list list \<Rightarrow> probe list" where
  "probes_of n polls = concat (map (\<lambda>ps. map snd (filter (\<lambda>(m, _). m = n) ps)) polls)"

definition gate_runs :: "gate_set \<Rightarrow> string \<Rightarrow> (string \<times> probe) list list \<Rightarrow> bool list" where
  "gate_runs gs n polls =
     seen_runs (entry_check (recheck_of gs n)) (entry_runs (recheck_of gs n)) (dict_get (gs_cache gs) n) (probes_of n polls)"

definition tolerance :: "gate_set \<Rightarrow> string \<Rightarrow> int" where
  "tolerance gs n = (case dict_get (gs_gates gs) n of None \<Rightarrow> 1 | Some (cfg, _) \<Rightarrow> g_close_after cfg)"

text \<open>The gates whose last runs, up to the given poll, failed often enough in a row.\<close>

definition closed_at :: "gate_set \<Rightarrow> string list \<Rightarrow> (string \<times> probe) list list \<Rightarrow> nat \<Rightarrow> string list" where
  "closed_at gs names polls i =
     filter (\<lambda>n. tolerance gs n \<le> int (trailing_failures (gate_runs gs n (take (Suc i) polls)))) names"

text \<open>Every run has its own clock reading, later runs than the ones already cached.\<close>

definition clock_moves :: "gate_set \<Rightarrow> string list \<Rightarrow> (string \<times> probe) list list \<Rightarrow> bool" where
  "clock_moves gs names polls \<longleftrightarrow>
     list_all (\<lambda>n. distinct (map pr_end (probes_of n polls)) \<and>
        (case dict_get (gs_cache gs) n of None \<Rightarrow> True | Some (t, _) \<Rightarrow> t \<notin> pr_end ` set (probes_of n polls))) names"

lemma probes_of_append: "probes_of n (xs @ ys) = probes_of n xs @ probes_of n ys"
  by (simp add: probes_of_def)

lemma clock_moves_prefix: "clock_moves gs names (xs @ ys) \<Longrightarrow> clock_moves gs names xs"
  by (simp add: clock_moves_def probes_of_append list_all_iff split: option.splits) blast

lemma probes_of_snoc:
  assumes "distinct (map fst ps)" "n \<in> set (map fst ps)"
  obtains p where "map_of ps n = Some p" "probes_of n (polls @ [ps]) = probes_of n polls @ [p]"
proof -
  have "map snd (filter (\<lambda>(m, _). m = n) ps) = [the (map_of ps n)]"
    using assms
  proof (induction ps)
    case Nil
    then show ?case by simp
  next
    case (Cons a ps)
    show ?case
    proof (cases "fst a = n")
      case True
      with Cons.prems(1) have "\<forall>x \<in> set ps. fst x \<noteq> n" by (auto simp: image_iff)
      then have "filter (\<lambda>(m, _). m = n) ps = []" by (auto simp: filter_empty_conv)
      with True show ?thesis by (cases a) simp
    next
      case False
      with Cons show ?thesis by (cases a) auto
    qed
  qed
  moreover from assms(2) obtain p where "map_of ps n = Some p"
    by (metis map_of_eq_None_iff not_Some_eq set_map)
  ultimately show ?thesis by (intro that [of p]) (simp_all add: probes_of_def)
qed

text \<open>The state after a sequence of polls, gate by gate.\<close>

definition tracks :: "gate_set \<Rightarrow> string list \<Rightarrow> (string \<times> probe) list list \<Rightarrow> gate_set \<times> gate_watch \<Rightarrow> bool" where
  "tracks gs0 names polls s \<longleftrightarrow>
     gs_gates (fst s) = gs_gates gs0 \<and>
     (\<forall>n \<in> set names.
        dict_get (gs_cache (fst s)) n =
          entry_after (entry_check (recheck_of gs0 n)) (dict_get (gs_cache gs0) n) (probes_of n polls) \<and>
        watch_entry (snd s) n =
          count_calls (entry_check (recheck_of gs0 n)) (dict_get (gs_cache gs0) n) (probes_of n polls) (None, 0))"

lemma gate_wake_tracks:
  assumes "tracks gs0 names polls (gs, w)" and "known_gates gs0 names" and "distinct names" and "map fst ps = names"
  obtains s where "snd (gate_wake ps (gs, w)) = s" "tracks gs0 names (polls @ [ps]) s"
    and "fst (gate_wake ps (gs, w)) = closed_gates (fst s) (map (answer gs) ps) (snd s)"
proof -
  have g: "gs_gates gs = gs_gates gs0" using assms(1) by (simp add: tracks_def)
  then have rc: "recheck_of gs n = recheck_of gs0 n" for n by (simp add: recheck_of_def)
  have "known_gates gs (map fst ps)" using assms(2,4) g by (simp add: known_gates_def)
  then obtain gs' where gs': "poll_gates ps gs = (Inr (map (answer gs) ps), gs')" "gs_gates gs' = gs_gates gs"
    "\<And>m. dict_get (gs_cache gs') m = (case map_of ps m of None \<Rightarrow> dict_get (gs_cache gs) m
               | Some p \<Rightarrow> snd (entry_check (recheck_of gs m) p (dict_get (gs_cache gs) m)))"
    using poll_loop_known [of ps gs "[]"] assms(3,4) by (auto simp: poll_gates_def)
  let ?w = "foldl count_result w (map (answer gs) ps)"
  have keys: "dict_keys (map (answer gs) ps) = map fst ps" by simp
  have "tracks gs0 names (polls @ [ps]) (gs', ?w)"
    unfolding tracks_def fst_conv snd_conv
  proof (intro conjI ballI)
    show "gs_gates gs' = gs_gates gs0" using gs'(2) g by simp
    fix n assume n: "n \<in> set names"
    then obtain p where p: "map_of ps n = Some p" "probes_of n (polls @ [ps]) = probes_of n polls @ [p]"
      using assms(3,4) probes_of_snoc by metis
    have old: "dict_get (gs_cache gs) n =
          entry_after (entry_check (recheck_of gs0 n)) (dict_get (gs_cache gs0) n) (probes_of n polls)"
        "watch_entry w n =
          count_calls (entry_check (recheck_of gs0 n)) (dict_get (gs_cache gs0) n) (probes_of n polls) (None, 0)"
      using assms(1) n by (simp_all add: tracks_def)
    show "dict_get (gs_cache gs') n =
        entry_after (entry_check (recheck_of gs0 n)) (dict_get (gs_cache gs0) n) (probes_of n (polls @ [ps]))"
      using gs'(3) [of n] p old rc by (simp add: calls_snoc)
    have "map_of (map (answer gs) ps) n = Some (snd (answer gs (n, p)))"
    proof (rule map_of_is_SomeI)
      show "distinct (map fst (map (answer gs) ps))" using assms(3,4) keys by simp
      show "(n, snd (answer gs (n, p))) \<in> set (map (answer gs) ps)"
        using map_of_SomeD [OF p(1)] by (metis fst_answer fst_conv image_eqI list.set_map prod.collapse)
    qed
    then have "watch_entry ?w n =
        count_one (watch_entry w n) (fst (entry_check (recheck_of gs n) p (dict_get (gs_cache gs) n)))"
      using assms(3,4) keys by (subst count_results_entry) (simp_all add: answer_def split: prod.split)
    then show "watch_entry ?w n =
        count_calls (entry_check (recheck_of gs0 n)) (dict_get (gs_cache gs0) n) (probes_of n (polls @ [ps])) (None, 0)"
      using p(2) old rc by (simp add: calls_snoc)
  qed
  moreover have "gate_wake ps (gs, w) = (closed_gates gs' (map (answer gs) ps) ?w, (gs', ?w))"
    by (simp add: gate_wake_def gs'(1) Let_def)
  ultimately show ?thesis by (intro that [of "(gs', ?w)"]) simp_all
qed

lemma streak_is_trailing_failures:
  assumes "tracks gs0 names polls s" and "clock_moves gs0 names polls" and "n \<in> set names"
  shows "dict_get_or (gw_streaks (snd s)) n 0 = int (trailing_failures (gate_runs gs0 n polls))"
proof -
  have "dict_get_or (gw_streaks (snd s)) n 0 = snd (watch_entry (snd s) n)" by (simp add: watch_entry_def)
  also have "\<dots> = int (trailing_failures (gate_runs gs0 n polls))"
  proof -
    have "distinct (map pr_end (probes_of n polls))"
      and "\<And>t ok. dict_get (gs_cache gs0) n = Some (t, ok) \<Longrightarrow> t \<notin> pr_end ` set (probes_of n polls)"
      using assms(2,3) by (auto simp: clock_moves_def list_all_iff)
    then show ?thesis
      using gate_entry.count_calls_exact [of "probes_of n polls" "dict_get (gs_cache gs0) n" "recheck_of gs0 n"] assms(1,3)
      by (simp add: tracks_def gate_runs_def)
  qed
  finally show ?thesis .
qed

lemma closed_gates_exact:
  assumes tr: "tracks gs0 names (polls @ [ps]) s" and mv: "clock_moves gs0 names (polls @ [ps])"
    and known: "known_gates gs0 names" and tol: "\<forall>n \<in> set names. 1 \<le> tolerance gs0 n"
    and d: "distinct names" "map fst ps = names"
    and ans: "\<And>n ok t. (n, ok, t) \<in> set rs \<Longrightarrow> dict_get (gs_cache (fst s)) n = Some (t, ok)"
    and keys: "map fst rs = names"
  shows "closed_gates (fst s) rs (snd s) =
     Inr (filter (\<lambda>n. tolerance gs0 n \<le> int (trailing_failures (gate_runs gs0 n (polls @ [ps])))) names)"
proof -
  let ?h = "\<lambda>n. tolerance gs0 n \<le> int (trailing_failures (gate_runs gs0 n (polls @ [ps])))"
  have each: "(if ok then Inr False
      else rbind (gate_close_after (fst s) n) (\<lambda>k. Inr (k \<le> dict_get_or (gw_streaks (snd s)) n 0))) = Inr (?h n)"
    if r: "(n, ok, t) \<in> set rs" for n ok t
  proof -
    have n: "n \<in> set names" using r keys by force
    have ca: "gate_close_after (fst s) n = Inr (tolerance gs0 n)"
      using known n tr by (auto simp: gate_close_after_def tolerance_def known_gates_def dict_in_def tracks_def)
    have st: "dict_get_or (gw_streaks (snd s)) n 0 = int (trailing_failures (gate_runs gs0 n (polls @ [ps])))"
      using tr mv n by (rule streak_is_trailing_failures)
    have "\<not> ?h n" if ok: "ok"
    proof -
      obtain p where "probes_of n (polls @ [ps]) = probes_of n polls @ [p]"
        using probes_of_snoc [of ps n polls] d n by metis
      then have ne: "probes_of n (polls @ [ps]) \<noteq> []" by simp
      have "entry_after (entry_check (recheck_of gs0 n)) (dict_get (gs_cache gs0) n) (probes_of n (polls @ [ps])) = Some (t, ok)"
        using ans [OF r] tr n by (simp add: tracks_def)
      then have "trailing_failures (gate_runs gs0 n (polls @ [ps])) = 0"
        using gate_entry.seen_runs_last [OF ne] ok by (intro trailing_failures_last) (auto simp: gate_runs_def)
      with tol n show ?thesis by fastforce
    qed
    with ca st show ?thesis by simp
  qed
  have "closed_gates (fst s) rs (snd s) = Inr (map fst (filter (\<lambda>r. ?h (fst r)) rs))"
    unfolding closed_gates_def by (subst rfilter_total [where g = "\<lambda>r. ?h (fst r)"]) (use each in auto)
  also have "map fst (filter (\<lambda>r. ?h (fst r)) rs) = filter ?h names"
    by (simp add: filter_map comp_def flip: keys)
  finally show ?thesis .
qed

text \<open>From any point of the watch: the remaining polls close exactly when the specification says.\<close>

lemma watch_continuous_from:
  assumes "tracks gs0 names pre s" and "clock_moves gs0 names (pre @ polls)"
    and "known_gates gs0 names" and "\<forall>n \<in> set names. 1 \<le> tolerance gs0 n" and "distinct names"
    and "\<forall>ps \<in> set polls. map fst ps = names"
  shows "fst (watch_continuous polls s) =
     Inr (map_option (closed_at gs0 names (pre @ polls))
       (find (\<lambda>i. closed_at gs0 names (pre @ polls) i \<noteq> []) [length pre..<length (pre @ polls)]))"
  using assms
proof (induction polls arbitrary: pre s)
  case Nil
  then show ?case by simp
next
  case (Cons ps polls)
  obtain gs w where s: "s = (gs, w)" by fastforce
  have d: "map fst ps = names" using Cons.prems(6) by simp
  obtain s' where s': "snd (gate_wake ps (gs, w)) = s'" "tracks gs0 names (pre @ [ps]) s'"
      "fst (gate_wake ps (gs, w)) = closed_gates (fst s') (map (answer gs) ps) (snd s')"
    using gate_wake_tracks [OF Cons.prems(1) [unfolded s] Cons.prems(3,5) d] by blast
  have mv: "clock_moves gs0 names (pre @ [ps])"
    using Cons.prems(2) clock_moves_prefix [of gs0 names "pre @ [ps]" polls] by simp
  have "closed_gates (fst s') (map (answer gs) ps) (snd s') =
     Inr (filter (\<lambda>n. tolerance gs0 n \<le> int (trailing_failures (gate_runs gs0 n (pre @ [ps])))) names)"
  proof (rule closed_gates_exact [OF s'(2) mv Cons.prems(3,4,5) d])
    show "map fst (map (answer gs) ps) = names" using d by (simp add: comp_def)
    fix n ok t assume "(n, ok, t) \<in> set (map (answer gs) ps)"
    then obtain p where p: "(n, p) \<in> set ps" "fst (entry_check (recheck_of gs n) p (dict_get (gs_cache gs) n)) = (t, ok)"
      by (auto simp: answer_def split: prod.splits)
    then have "map_of ps n = Some p" using Cons.prems(5) d by (intro map_of_is_SomeI) auto
    moreover obtain gs' where "poll_gates ps gs = (Inr (map (answer gs) ps), gs')"
      "dict_get (gs_cache gs') n = (case map_of ps n of None \<Rightarrow> dict_get (gs_cache gs) n
               | Some p \<Rightarrow> snd (entry_check (recheck_of gs n) p (dict_get (gs_cache gs) n)))"
    proof -
      have "known_gates gs (map fst ps)" using Cons.prems(1,3) d by (simp add: s known_gates_def tracks_def)
      then show ?thesis using poll_loop_known [of ps gs "[]"] Cons.prems(5) d that by (auto simp: poll_gates_def)
    qed
    ultimately show "dict_get (gs_cache (fst s')) n = Some (t, ok)"
      using p(2) s'(1) by (auto simp: gate_wake_def Let_def entry_check_snd)
  qed
  then have closed: "fst (gate_wake ps (gs, w)) = Inr (closed_at gs0 names (pre @ ps # polls) (length pre))"
    by (simp add: s'(3) closed_at_def)
  have upt: "[length pre..<length (pre @ ps # polls)] = length pre # [Suc (length pre)..<length (pre @ ps # polls)]"
    by (rule upt_conv_Cons) simp
  show ?case
  proof (cases "closed_at gs0 names (pre @ ps # polls) (length pre) = []")
    case True
    with closed s'(1) have "watch_continuous (ps # polls) s = watch_continuous polls s'"
      by (cases "gate_wake ps (gs, w)") (simp add: s sbind_unfold)
    with True Cons.IH [OF s'(2), simplified] Cons.prems upt show ?thesis by simp
  next
    case False
    with closed s'(1) have "watch_continuous (ps # polls) s = (Inr (Some (closed_at gs0 names (pre @ ps # polls) (length pre))), s')"
      by (cases "gate_wake ps (gs, w)") (simp add: s sbind_unfold)
    with False upt show ?thesis by simp
  qed
qed

section \<open>Properties\<close>


definition demo_gate :: gate_config where
  "demo_gate = \<lparr>g_check = [''test''], g_recheck = Fin 10, g_timeout = Fin 5, g_continuous = True, g_close_after = 2\<rparr>"

definition demo_polls :: "(string \<times> probe) list list" where
  "demo_polls =
     [[(''vpn'', \<lparr>pr_at = 1, pr_outcome = RunExit 1, pr_end = 2\<rparr>)],
      [(''vpn'', \<lparr>pr_at = 3, pr_outcome = RunExit 1, pr_end = 4\<rparr>)],
      [(''vpn'', \<lparr>pr_at = 13, pr_outcome = RunTimeout, pr_end = 15\<rparr>)]]"


text \<open>
  A watched rebuild relaunches the service at the first poll that finds every path present, nothing
  moved since the poll before, and something different from the start.
\<close>

definition settled_change :: "string list \<Rightarrow> path_sigs \<Rightarrow> path_sigs list \<Rightarrow> nat \<Rightarrow> bool" where
  "settled_change paths base polls i \<longleftrightarrow>
     0 < i \<and> polls ! i = polls ! (i - 1) \<and> None \<notin> set (dict_values (polls ! i)) \<and>
     list_ex (\<lambda>p. dict_get (polls ! i) p \<noteq> dict_get base p) paths"

lemma changed_paths_Nil: "changed_paths paths cur base = [] \<longleftrightarrow> \<not> list_ex (\<lambda>p. dict_get cur p \<noteq> dict_get base p) paths"
proof -
  let ?f = "filter (\<lambda>p. dict_get cur p \<noteq> dict_get base p) paths"
  have "length (changed_paths paths cur base) = length ?f" by (simp add: changed_paths_def)
  then have "changed_paths paths cur base = [] \<longleftrightarrow> ?f = []"
    by (cases "changed_paths paths cur base"; cases ?f) (simp_all del: filter.simps)
  then show ?thesis by (auto simp: filter_empty_conv list_ex_iff)
qed

lemma find_map: "find P (map f xs) = map_option f (find (\<lambda>x. P (f x)) xs)"
  by (induction xs) simp_all

lemma find_cong_set: "(\<And>x. x \<in> set xs \<Longrightarrow> P x = Q x) \<Longrightarrow> find P xs = find Q xs"
  by (induction xs) simp_all

lemma watch_paths_from:
  "watch_paths paths polls w =
     map_option (\<lambda>i. changed_paths paths (polls ! i) (pw_baseline w))
       (find (\<lambda>i. polls ! i = (pw_previous w # polls) ! i \<and> None \<notin> set (dict_values (polls ! i)) \<and>
                  list_ex (\<lambda>p. dict_get (polls ! i) p \<noteq> dict_get (pw_baseline w) p) paths) [0..<length polls])"
proof (induction polls arbitrary: w)
  case Nil
  then show ?case by simp
next
  case (Cons cur polls)
  let ?w = "w\<lparr>pw_previous := cur\<rparr>"
  have upt: "[0..<length (cur # polls)] = 0 # map Suc [0..<length polls]"
    by (simp add: upt_conv_Cons map_Suc_upt del: upt_Suc)
  have fires: "path_poll paths cur w =
      (if list_ex (\<lambda>p. dict_get cur p \<noteq> dict_get (pw_baseline w) p) paths \<and> None \<notin> set (dict_values cur) \<and> cur = pw_previous w
       then Some (changed_paths paths cur (pw_baseline w)) else None, ?w)"
  proof -
    have present: "list_all (\<lambda>s. s \<noteq> None) xs \<longleftrightarrow> None \<notin> set xs" for xs :: "signature option list"
    proof (induction xs)
      case (Cons x xs)
      then show ?case by (cases x) auto
    qed simp
    show ?thesis unfolding path_poll_def Let_def present changed_paths_Nil by simp
  qed
  show ?case
    unfolding upt using Cons.IH [of ?w] by (auto simp: fires find_map option.map_comp comp_def)
qed

lemma watch_paths_exact:
  "watch_paths paths polls (path_watch_start base) =
     map_option (\<lambda>i. changed_paths paths (polls ! i) base) (find (settled_change paths base polls) [0..<length polls])"
proof -
  have "polls ! i = (base # polls) ! i \<and> None \<notin> set (dict_values (polls ! i)) \<and>
        list_ex (\<lambda>p. dict_get (polls ! i) p \<noteq> dict_get base p) paths \<longleftrightarrow> settled_change paths base polls i" for i
    by (cases i) (auto simp: settled_change_def list_ex_iff)
  then show ?thesis by (simp add: watch_paths_from path_watch_start_def)
qed

end
