(* ===== verification/Orc_Service.thy ===== *)
theory Orc_Service
  imports Orc_Watch
begin

text \<open>
  \<open>Service\<close> of \<^verbatim>\<open>src/jetty/orchestrator/service.py\<close>: one supervised process, as a machine that is
  driven by events.

  Coroutines of one event loop interleave at their \<open>await\<close>s only. The run loop is therefore a program
  counter naming the \<open>await\<close> it is suspended in, and an event is what resumes one task up to its next
  \<open>await\<close>: \<open>run_step\<close> for the run loop, \<open>watch_step\<close> for the two watchers, and one event each for a
  call of \<open>stop\<close> or \<open>restart\<close>, for the end of a grace period, and for the exit of a process. An event
  carries what the code learns at that point (failing gates, a rendering, a pid, a probe's answer), and
  \<open>moment\<close> what it reads without waiting: the clock and whether the log file opens. The calls out of
  the service are recorded in order in \<open>u_acts\<close>. The text of log notes is not modelled.
\<close>

section \<open>Data\<close>

record rendered_service =
  re_cmd :: "string list"
  re_cwd :: "string option"
  re_env :: "(string, string) dict"
  re_http :: "string option"
  re_tcp :: "string option"
  re_uds :: "string option"
  re_path :: "string option"
  re_watch :: "string list"

datatype failure = NoRetry int | OverBudget int int

text \<open>\<open>_notify\<close>, a sweep with a signal, a spawn (the number of the process), the observed exit of a
  process, and the failure callback.\<close>

datatype act = Notify string | Sweep string | Spawn nat | Exited nat int | Failed failure

datatype pc =
  AtStart
| AtDep nat
| AtGates
| AtBlockSleep
| AtBlockGates
| AtRender
| AtExec
| AtProbe pyfloat
| AtProbeSleep pyfloat
| AtWaitExit
| AtReap int
| AtDrain int
| AtRecheck int
| AtBackoff pyfloat
| Done
| Dead

text \<open>Where a watcher is: not running, asleep, waiting for the gates, terminating the group.\<close>

datatype watcher = Off | Scanning | Sleeping | Polling | Killing

text \<open>A call of \<open>_terminate_group\<close> by \<open>stop\<close> or \<open>restart\<close> that waits for a process to exit.\<close>

datatype killer = StopKill nat | BounceKill nat

record service =
  u_pc :: pc
  u_state :: string
  u_pid :: "int option"
  u_last_exit :: "int option"
  u_restarts :: int
  u_blocked_on :: "string list"
  u_ready :: bool
  u_stop :: bool
  u_bounce :: bool
  u_gate_stop :: bool
  u_fail_times :: "rat list"
  u_rendered :: "rendered_service option"
  u_procs :: "(int \<times> int option) list"
  u_gate_watcher :: watcher
  u_path_watcher :: watcher
  u_killers :: "killer list"
  u_acts :: "act list"

record svc_conf =
  k_cfg :: service_config
  k_deps :: "string list"
  k_requires :: "string list"
  k_continuous :: "string list"

record moment =
  m_now :: rat
  m_log_opens :: bool

definition Service :: service where
  "Service = \<lparr>u_pc = AtStart, u_state = ''pending'', u_pid = None, u_last_exit = None, u_restarts = 0,
     u_blocked_on = [], u_ready = False, u_stop = False, u_bounce = False, u_gate_stop = False,
     u_fail_times = [], u_rendered = None, u_procs = [], u_gate_watcher = Off, u_path_watcher = Off,
     u_killers = [], u_acts = []\<rparr>"

section \<open>Small steps of the run loop\<close>

definition emit :: "act \<Rightarrow> service \<Rightarrow> service" where
  "emit a s = s\<lparr>u_acts := u_acts s @ [a]\<rparr>"

definition goto :: "pc \<Rightarrow> service \<Rightarrow> service" where
  "goto p s = s\<lparr>u_pc := p\<rparr>"

definition set_state :: "string \<Rightarrow> service \<Rightarrow> service" where
  "set_state st s = (if st \<noteq> u_state s then emit (Notify st) (s\<lparr>u_state := st\<rparr>) else s)"

text \<open>\<open>self.proc\<close> is the last process spawned; a process is alive until its exit code is recorded.\<close>

definition exit_of :: "nat \<Rightarrow> service \<Rightarrow> int option" where
  "exit_of i s = (if i < length (u_procs s) then snd (u_procs s ! i) else None)"

definition alive :: "nat \<Rightarrow> service \<Rightarrow> bool" where
  "alive i s \<longleftrightarrow> i < length (u_procs s) \<and> snd (u_procs s ! i) = None"

definition current :: "service \<Rightarrow> nat" where
  "current s = length (u_procs s) - 1"

definition proc_alive :: "service \<Rightarrow> bool" where
  "proc_alive s \<longleftrightarrow> u_procs s \<noteq> [] \<and> alive (current s) s"

definition svc_status :: "service \<Rightarrow> string \<times> int option \<times> int \<times> int option \<times> string list" where
  "svc_status s = (u_state s, u_pid s, u_restarts s, u_last_exit s, u_blocked_on s)"

definition svc_fail :: "failure \<Rightarrow> service \<Rightarrow> service" where
  "svc_fail f s = goto Done (emit (Failed f) (set_state ''failed'' s))"

text \<open>The head of \<open>_spawn\<close>; an \<open>OSError\<close> of \<open>open\<close> ends the task.\<close>

definition spawn :: "moment \<Rightarrow> service \<Rightarrow> service" where
  "spawn m s = (let s1 = set_state ''starting'' s in if m_log_opens m then goto AtRender s1 else goto Dead s1)"

text \<open>The head of the loop of \<open>run\<close>.\<close>

definition loop_top :: "svc_conf \<Rightarrow> moment \<Rightarrow> service \<Rightarrow> service" where
  "loop_top k m s =
     (if u_stop s then goto Done (set_state ''stopped'' s)
      else if k_requires k \<noteq> [] then goto AtGates s
      else spawn m s)"

definition dep_loop :: "svc_conf \<Rightarrow> moment \<Rightarrow> nat \<Rightarrow> service \<Rightarrow> service" where
  "dep_loop k m i s = (if i < length (k_deps k) then goto (AtDep i) s else loop_top k m s)"

definition svc_block :: "svc_conf \<Rightarrow> moment \<Rightarrow> string list \<Rightarrow> service \<Rightarrow> service" where
  "svc_block k m failing s =
     (let s1 = emit (Notify ''blocked'') (set_state ''blocked'' (s\<lparr>u_blocked_on := failing, u_fail_times := []\<rparr>))
      in if u_stop s1 then loop_top k m s1 else goto AtBlockSleep s1)"

definition block_gates :: "svc_conf \<Rightarrow> moment \<Rightarrow> string list \<Rightarrow> service \<Rightarrow> service" where
  "block_gates k m failing s =
     (if failing = [] then loop_top k m (s\<lparr>u_blocked_on := []\<rparr>)
      else let s1 = (if failing \<noteq> u_blocked_on s then emit (Notify (u_state s)) (s\<lparr>u_blocked_on := failing\<rparr>) else s)
           in if u_stop s1 then loop_top k m s1 else goto AtBlockSleep s1)"

definition backoff_delay :: "restart_config \<Rightarrow> nat \<Rightarrow> py_exn + pyfloat" where
  "backoff_delay r n = rbind (float_scale (rs_backoff_initial r) (n - 1)) (\<lambda>d. Inr (float_min d (rs_backoff_max r)))"

text \<open>The restart budget.\<close>

definition budget :: "svc_conf \<Rightarrow> moment \<Rightarrow> int \<Rightarrow> service \<Rightarrow> service" where
  "budget k m code s =
     (let r = sv_restart (k_cfg k);
          times = filter (\<lambda>t. float_lt (float_diff (m_now m) t) (rs_window r)) (u_fail_times s) @ [m_now m];
          s1 = s\<lparr>u_fail_times := times, u_restarts := u_restarts s + 1\<rparr>
      in if rs_max r < int (length times) then svc_fail (OverBudget (int (length times)) code) s1
         else case backoff_delay r (length times) of
                Inl e \<Rightarrow> goto Dead s1
              | Inr d \<Rightarrow> goto (AtBackoff d) (set_state ''backoff'' s1))"

text \<open>The classification of an exit.\<close>

definition after_exit :: "svc_conf \<Rightarrow> moment \<Rightarrow> int \<Rightarrow> service \<Rightarrow> service" where
  "after_exit k m code s =
     (if u_stop s then goto Done (set_state ''stopped'' s)
      else if u_gate_stop s then loop_top k m (s\<lparr>u_gate_stop := False\<rparr>)
      else if u_bounce s then loop_top k m (s\<lparr>u_bounce := False\<rparr>)
      else let s1 = s\<lparr>u_last_exit := Some code\<rparr>
           in if code \<in> set (rs_no_restart_exit (sv_restart (k_cfg k))) then svc_fail (NoRetry code) s1
              else if k_requires k \<noteq> [] then goto (AtRecheck code) s1
              else budget k m code s1)"

text \<open>
  \<open>_run_once\<close> once the process is gone: the watchers that still run are cancelled and awaited one
  after the other, survivors are swept, the log is drained.
\<close>

definition sweep_then_drain :: "int \<Rightarrow> service \<Rightarrow> service" where
  "sweep_then_drain code s = goto (AtDrain code) (emit (Sweep ''KILL'') s)"

definition reap :: "int \<Rightarrow> service \<Rightarrow> service" where
  "reap code s =
     (if u_gate_watcher s \<noteq> Off then goto (AtReap code) (s\<lparr>u_gate_watcher := Off\<rparr>)
      else if u_path_watcher s \<noteq> Off then goto (AtReap code) (s\<lparr>u_path_watcher := Off\<rparr>)
      else sweep_then_drain code s)"

definition wait_exit :: "service \<Rightarrow> service" where
  "wait_exit s = (case exit_of (current s) s of Some code \<Rightarrow> reap code s | None \<Rightarrow> goto AtWaitExit s)"

definition became_ready :: "service \<Rightarrow> service" where
  "became_ready s = wait_exit ((set_state ''running'' s)\<lparr>u_ready := True\<rparr>)"

text \<open>The head of the loop of \<open>_wait_ready\<close>.\<close>

definition probe_loop :: "moment \<Rightarrow> pyfloat \<Rightarrow> service \<Rightarrow> service" where
  "probe_loop m deadline s =
     (if float_lt (Fin (m_now m)) deadline \<and> \<not> u_stop s
      then (if \<not> proc_alive s then wait_exit s else goto (AtProbe deadline) s)
      else if u_stop s then wait_exit s
      else wait_exit (emit (Sweep ''KILL'') s))"

definition wait_ready :: "svc_conf \<Rightarrow> moment \<Rightarrow> rendered_service \<Rightarrow> service \<Rightarrow> service" where
  "wait_ready k m r s =
     (if re_http r = None \<and> re_tcp r = None \<and> re_uds r = None \<and> re_path r = None then became_ready s
      else probe_loop m (float_add (m_now m) (rd_timeout (sv_ready (k_cfg k)))) s)"

text \<open>A process exists: the tail of \<open>_spawn\<close> and the head of \<open>_run_once\<close>.\<close>

definition spawned :: "svc_conf \<Rightarrow> moment \<Rightarrow> int \<Rightarrow> rendered_service \<Rightarrow> service \<Rightarrow> service" where
  "spawned k m pid r s =
     (let s1 = emit (Spawn (length (u_procs s))) (s\<lparr>u_procs := u_procs s @ [(pid, None)], u_pid := Some pid\<rparr>);
          s2 = emit (Notify (u_state s1)) s1;
          s3 = s2\<lparr>u_gate_watcher := (if k_continuous k \<noteq> [] then Sleeping else Off),
                  u_path_watcher := (if re_watch r \<noteq> [] then Scanning else Off)\<rparr>
      in wait_ready k m r s3)"

section \<open>The run loop\<close>

text \<open>
  \<open>Resume\<close> ends a wait that has nothing to report: a dependency's event, a sleep (or the request to
  stop that abandons it), the poll of the exit code, the cancelled watchers, the drained log.
\<close>

datatype run_event =
  Resume
| Gates "string list"
| Rendering "rendered_service option"
| Execed "int option"
| Probed bool
| Raised

definition run_step :: "svc_conf \<Rightarrow> moment \<Rightarrow> run_event \<Rightarrow> service \<Rightarrow> service option" where
  "run_step k m ev s =
     (case (u_pc s, ev) of
        (AtStart, Resume) \<Rightarrow> Some (dep_loop k m 0 s)
      | (AtDep i, Resume) \<Rightarrow>
          Some (if u_stop s then goto Done (set_state ''stopped'' s) else dep_loop k m (Suc i) s)
      | (AtGates, Gates failing) \<Rightarrow> Some (if failing \<noteq> [] then svc_block k m failing s else spawn m s)
      | (AtBlockSleep, Resume) \<Rightarrow> Some (if u_stop s then loop_top k m s else goto AtBlockGates s)
      | (AtBlockGates, Gates failing) \<Rightarrow> Some (block_gates k m failing s)
      | (AtRender, Rendering None) \<Rightarrow> Some (after_exit k m 127 s)
      | (AtRender, Rendering (Some r)) \<Rightarrow> Some (goto AtExec (s\<lparr>u_rendered := Some r\<rparr>))
      | (AtExec, Execed None) \<Rightarrow> Some (after_exit k m 127 s)
      | (AtExec, Execed (Some pid)) \<Rightarrow> map_option (\<lambda>r. spawned k m pid r s) (u_rendered s)
      | (AtProbe deadline, Probed ok) \<Rightarrow> Some (if ok then became_ready s else goto (AtProbeSleep deadline) s)
      | (AtProbeSleep deadline, Resume) \<Rightarrow> Some (probe_loop m deadline s)
      | (AtWaitExit, Resume) \<Rightarrow> map_option (\<lambda>code. reap code s) (exit_of (current s) s)
      | (AtReap code, Resume) \<Rightarrow> Some (reap code s)
      | (AtDrain code, Resume) \<Rightarrow> Some (after_exit k m code (s\<lparr>u_ready := False, u_pid := None\<rparr>))
      | (AtRecheck code, Gates failing) \<Rightarrow> Some (if failing \<noteq> [] then loop_top k m s else budget k m code s)
      | (AtBackoff d, Resume) \<Rightarrow> Some (loop_top k m s)
      | (p, Raised) \<Rightarrow>
          if p = Done \<or> p = Dead then None
          else Some (goto Dead (s\<lparr>u_gate_watcher := Off, u_path_watcher := Off\<rparr>))
      | _ \<Rightarrow> None)"

section \<open>The other tasks\<close>

text \<open>\<open>_terminate_group\<close> up to its wait.\<close>

definition terminate_group :: "svc_conf \<Rightarrow> service \<Rightarrow> service" where
  "terminate_group k s = emit (Sweep (st_signal (sv_stop (k_cfg k)))) s"

definition svc_stop :: "svc_conf \<Rightarrow> service \<Rightarrow> service" where
  "svc_stop k s =
     (let s1 = s\<lparr>u_stop := True\<rparr>
      in if proc_alive s1
         then let s2 = terminate_group k (set_state ''stopping'' s1)
              in s2\<lparr>u_killers := u_killers s2 @ [StopKill (current s2)]\<rparr>
         else emit (Sweep ''KILL'') s1)"

definition svc_restart :: "svc_conf \<Rightarrow> service \<Rightarrow> service" where
  "svc_restart k s =
     (if u_stop s \<or> u_bounce s \<or> \<not> proc_alive s then s
      else let s1 = terminate_group k (s\<lparr>u_bounce := True\<rparr>)
           in s1\<lparr>u_killers := u_killers s1 @ [BounceKill (current s1)]\<rparr>)"

text \<open>The end of the wait of a \<open>_terminate_group\<close>: by exit or at the end of the grace period.\<close>

definition killer_ends :: "killer \<Rightarrow> service \<Rightarrow> service option" where
  "killer_ends kl s =
     (if kl \<notin> set (u_killers s) then None
      else let s1 = s\<lparr>u_killers := remove1 kl (u_killers s)\<rparr>
           in Some (case kl of
                StopKill i \<Rightarrow> emit (Sweep ''KILL'') s1
              | BounceKill i \<Rightarrow> if alive i s1 then emit (Sweep ''KILL'') s1 else s1))"

datatype watch_event =
  GateWoke
| GatePolled "string list"
| GateKillEnds
| PathScanned
| PathPolled bool
| PathKillEnds

text \<open>
  \<open>GatePolled\<close> carries the gates found closed (theory \<open>Orc_Watch\<close>), \<open>PathPolled\<close> whether a settled
  change was found.
\<close>

definition watch_step :: "svc_conf \<Rightarrow> watch_event \<Rightarrow> service \<Rightarrow> service option" where
  "watch_step k ev s =
     (let over = u_stop s \<or> \<not> proc_alive s
      in case ev of
        GateWoke \<Rightarrow>
          if u_gate_watcher s \<noteq> Sleeping then None
          else Some (s\<lparr>u_gate_watcher := (if over then Off else Polling)\<rparr>)
      | GatePolled shut \<Rightarrow>
          if u_gate_watcher s \<noteq> Polling then None
          else if shut = [] then Some (s\<lparr>u_gate_watcher := Sleeping\<rparr>)
          else if over then Some (s\<lparr>u_gate_watcher := Off\<rparr>)
          else Some (terminate_group k (s\<lparr>u_gate_stop := True, u_gate_watcher := Killing\<rparr>))
      | GateKillEnds \<Rightarrow>
          if u_gate_watcher s \<noteq> Killing then None
          else Some (emit (Sweep ''KILL'') (s\<lparr>u_gate_watcher := Off\<rparr>))
      | PathScanned \<Rightarrow>
          if u_path_watcher s \<noteq> Scanning then None else Some (s\<lparr>u_path_watcher := Sleeping\<rparr>)
      | PathPolled fires \<Rightarrow>
          if u_path_watcher s \<noteq> Sleeping then None
          else if over then Some (s\<lparr>u_path_watcher := Off\<rparr>)
          else if \<not> fires then Some s
          else Some (terminate_group k (s\<lparr>u_bounce := True, u_path_watcher := Killing\<rparr>))
      | PathKillEnds \<Rightarrow>
          if u_path_watcher s \<noteq> Killing then None
          else Some (emit (Sweep ''KILL'') (s\<lparr>u_path_watcher := Off\<rparr>)))"

text \<open>The operating system records the exit of a process.\<close>

definition process_exits :: "nat \<Rightarrow> int \<Rightarrow> service \<Rightarrow> service option" where
  "process_exits i code s =
     (if alive i s
      then Some (emit (Exited i code) (s\<lparr>u_procs := (u_procs s)[i := (fst (u_procs s ! i), Some code)]\<rparr>))
      else None)"

datatype event =
  Run run_event
| Watch watch_event
| Stop
| Restart
| KillEnds killer
| ProcessExits nat int

definition svc_step :: "svc_conf \<Rightarrow> moment \<Rightarrow> event \<Rightarrow> service \<Rightarrow> service option" where
  "svc_step k m ev s =
     (case ev of
        Run e \<Rightarrow> run_step k m e s
      | Watch e \<Rightarrow> watch_step k e s
      | Stop \<Rightarrow> Some (svc_stop k s)
      | Restart \<Rightarrow> Some (svc_restart k s)
      | KillEnds kl \<Rightarrow> killer_ends kl s
      | ProcessExits i code \<Rightarrow> process_exits i code s)"

end
