(* ===== verification/Orc_Lifecycle.thy ===== *)
theory Orc_Lifecycle
  imports Orc_Service
begin

text \<open>
  What every history of a supervised service satisfies: at most one process at a time, each one swept
  before the next is spawned; the restart budget, exactly; and the end of the run loop once a stop is
  requested. \<open>quiet\<close> is the library's tool: most helpers of the run loop change neither the processes
  nor the order of spawns and exits.
\<close>

section \<open>Histories\<close>

fun svc_exec :: "svc_conf \<Rightarrow> (moment \<times> event) list \<Rightarrow> service \<Rightarrow> service option" where
  "svc_exec k [] s = Some s"
| "svc_exec k ((m, ev) # es) s = (case svc_step k m ev s of None \<Rightarrow> None | Some s' \<Rightarrow> svc_exec k es s')"

inductive svc_reach :: "svc_conf \<Rightarrow> service \<Rightarrow> bool" for k where
  init: "svc_reach k Service"
| step: "svc_reach k s \<Longrightarrow> svc_step k m ev s = Some s' \<Longrightarrow> svc_reach k s'"

lemma svc_exec_reach: "svc_reach k s \<Longrightarrow> svc_exec k es s = Some s' \<Longrightarrow> svc_reach k s'"
proof (induction k es s rule: svc_exec.induct)
  case (2 k m ev es s)
  then show ?case by (cases "svc_step k m ev s") (auto intro: svc_reach.step)
qed simp

section \<open>Quiet steps\<close>

definition mute :: "act \<Rightarrow> bool" where
  "mute a = (case a of Spawn _ \<Rightarrow> False | Exited _ _ \<Rightarrow> False | _ \<Rightarrow> True)"

definition quiet :: "service \<Rightarrow> service \<Rightarrow> bool" where
  "quiet s s' \<longleftrightarrow> u_procs s' = u_procs s \<and> (\<exists>l. u_acts s' = u_acts s @ l \<and> list_all mute l)"

named_theorems quiet_intros \<open>which helpers are quiet\<close>

lemma quiet_refl [quiet_intros]: "u_procs s' = u_procs s \<Longrightarrow> u_acts s' = u_acts s \<Longrightarrow> quiet s s'"
  by (auto simp: quiet_def)

lemma quiet_trans: "quiet s t \<Longrightarrow> quiet t u \<Longrightarrow> quiet s u"
  by (auto simp: quiet_def)

lemma quiet_emit: "quiet s t \<Longrightarrow> mute a \<Longrightarrow> quiet s (emit a t)"
  by (auto simp: quiet_def emit_def)

lemma quiet_set_state: "quiet s t \<Longrightarrow> quiet s (set_state st t)"
  unfolding set_state_def by (auto intro!: quiet_emit simp: mute_def) (auto simp: quiet_def)

lemma quiet_upd:
  "quiet s t \<Longrightarrow> quiet s (goto p t)"
  "quiet s t \<Longrightarrow> quiet s (t\<lparr>u_blocked_on := b\<rparr>)"
  "quiet s t \<Longrightarrow> quiet s (t\<lparr>u_fail_times := ts\<rparr>)"
  "quiet s t \<Longrightarrow> quiet s (t\<lparr>u_restarts := n\<rparr>)"
  "quiet s t \<Longrightarrow> quiet s (t\<lparr>u_last_exit := c\<rparr>)"
  "quiet s t \<Longrightarrow> quiet s (t\<lparr>u_gate_stop := g\<rparr>)"
  "quiet s t \<Longrightarrow> quiet s (t\<lparr>u_bounce := g\<rparr>)"
  "quiet s t \<Longrightarrow> quiet s (t\<lparr>u_stop := g\<rparr>)"
  "quiet s t \<Longrightarrow> quiet s (t\<lparr>u_ready := g\<rparr>)"
  "quiet s t \<Longrightarrow> quiet s (t\<lparr>u_pid := pid\<rparr>)"
  "quiet s t \<Longrightarrow> quiet s (t\<lparr>u_rendered := rd\<rparr>)"
  "quiet s t \<Longrightarrow> quiet s (t\<lparr>u_killers := ks\<rparr>)"
  "quiet s t \<Longrightarrow> quiet s (t\<lparr>u_gate_watcher := w\<rparr>)"
  "quiet s t \<Longrightarrow> quiet s (t\<lparr>u_path_watcher := w\<rparr>)"
  by (auto simp: quiet_def goto_def)

lemmas quiet_basic = quiet_upd quiet_set_state quiet_emit quiet_refl [OF refl refl]

lemma mute_simps [simp]:
  "mute (Notify st)" "mute (Sweep sg)" "mute (Failed f)" "\<not> mute (Spawn i)" "\<not> mute (Exited i c)"
  by (simp_all add: mute_def)

lemma quiet_loop_top: "quiet s t \<Longrightarrow> quiet s (loop_top k m t)"
  by (auto simp: loop_top_def spawn_def Let_def intro!: quiet_basic)

lemma quiet_dep_loop: "quiet s t \<Longrightarrow> quiet s (dep_loop k m i t)"
  by (auto simp: dep_loop_def intro!: quiet_basic quiet_loop_top)

lemma quiet_spawn: "quiet s t \<Longrightarrow> quiet s (spawn m t)"
  by (auto simp: spawn_def Let_def intro!: quiet_basic)

lemma quiet_svc_block: "quiet s t \<Longrightarrow> quiet s (svc_block k m fl t)"
  by (auto simp: svc_block_def Let_def intro!: quiet_basic quiet_loop_top)

lemma quiet_block_gates: "quiet s t \<Longrightarrow> quiet s (block_gates k m fl t)"
  by (auto simp: block_gates_def Let_def intro!: quiet_basic quiet_loop_top)

lemma quiet_svc_fail: "quiet s t \<Longrightarrow> quiet s (svc_fail f t)"
  by (auto simp: svc_fail_def intro!: quiet_basic)

lemma quiet_budget: "quiet s t \<Longrightarrow> quiet s (budget k m code t)"
  by (auto simp: budget_def Let_def intro!: quiet_basic quiet_svc_fail split: sum.split)

lemma quiet_after_exit: "quiet s t \<Longrightarrow> quiet s (after_exit k m code t)"
  by (auto simp: after_exit_def Let_def intro!: quiet_basic quiet_loop_top quiet_svc_fail quiet_budget)

lemma quiet_reap: "quiet s t \<Longrightarrow> quiet s (reap code t)"
  by (auto simp: reap_def sweep_then_drain_def intro!: quiet_basic)

lemma quiet_wait_exit: "quiet s t \<Longrightarrow> quiet s (wait_exit t)"
  by (auto simp: wait_exit_def intro!: quiet_basic quiet_reap split: option.split)

lemma quiet_became_ready: "quiet s t \<Longrightarrow> quiet s (became_ready t)"
  by (auto simp: became_ready_def intro!: quiet_basic quiet_wait_exit)

lemma quiet_probe_loop: "quiet s t \<Longrightarrow> quiet s (probe_loop m dl t)"
  by (auto simp: probe_loop_def intro!: quiet_basic quiet_wait_exit)

lemma quiet_wait_ready: "quiet s t \<Longrightarrow> quiet s (wait_ready k m r t)"
  by (auto simp: wait_ready_def intro!: quiet_became_ready quiet_probe_loop)

lemmas quiet_helpers = quiet_basic quiet_loop_top quiet_dep_loop quiet_spawn quiet_svc_block quiet_block_gates
  quiet_svc_fail quiet_budget quiet_after_exit quiet_reap quiet_wait_exit quiet_became_ready quiet_probe_loop
  quiet_wait_ready

section \<open>Where the helpers go\<close>

fun live_pc :: "pc \<Rightarrow> bool" where
  "live_pc (AtProbe _) = True"
| "live_pc (AtProbeSleep _) = True"
| "live_pc AtWaitExit = True"
| "live_pc _ = False"

fun reap_pc :: "pc \<Rightarrow> bool" where
  "reap_pc (AtReap _) = True"
| "reap_pc _ = False"

text \<open>Between processes: the run loop may spawn from here.\<close>

definition idle_pc :: "pc \<Rightarrow> bool" where
  "idle_pc p \<longleftrightarrow> \<not> live_pc p \<and> \<not> reap_pc p"

lemma pc_of_updates [simp]:
  "u_pc (emit a s) = u_pc s" "u_pc (set_state st s) = u_pc s" "u_pc (goto p s) = p"
  "u_stop (emit a s) = u_stop s" "u_stop (set_state st s) = u_stop s" "u_stop (goto p s) = u_stop s"
  by (simp_all add: emit_def set_state_def goto_def)

lemma idle_loop_top: "idle_pc (u_pc (loop_top k m s))"
  by (simp add: loop_top_def spawn_def idle_pc_def Let_def)

lemma idle_dep_loop: "idle_pc (u_pc (dep_loop k m i s))"
  using idle_loop_top by (simp add: dep_loop_def idle_pc_def)

lemma idle_spawn: "idle_pc (u_pc (spawn m s))"
  by (simp add: spawn_def idle_pc_def Let_def)

lemma idle_svc_block: "idle_pc (u_pc (svc_block k m fl s))"
  using idle_loop_top by (simp add: svc_block_def idle_pc_def Let_def)

lemma idle_block_gates: "idle_pc (u_pc (block_gates k m fl s))"
  using idle_loop_top by (simp add: block_gates_def idle_pc_def Let_def)

lemma idle_budget: "idle_pc (u_pc (budget k m code s))"
  by (simp add: budget_def svc_fail_def idle_pc_def Let_def split: sum.split)

lemma idle_after_exit: "idle_pc (u_pc (after_exit k m code s))"
  using idle_loop_top idle_budget by (simp add: after_exit_def svc_fail_def idle_pc_def Let_def)

lemmas idle_helpers = idle_loop_top idle_dep_loop idle_spawn idle_svc_block idle_block_gates idle_budget idle_after_exit

section \<open>One process at a time\<close>

text \<open>Process \<open>i\<close> has exited and a SIGKILL sweep followed.\<close>

definition swept :: "nat \<Rightarrow> act list \<Rightarrow> bool" where
  "swept i acts \<longleftrightarrow> (\<exists>a b c code. acts = a @ Exited i code # b @ Sweep ''KILL'' # c)"

definition proc_log :: "(int \<times> int option) list \<Rightarrow> act list \<Rightarrow> bool" where
  "proc_log procs acts \<longleftrightarrow>
     (\<forall>i. Suc i < length procs \<longrightarrow> snd (procs ! i) \<noteq> None) \<and>
     (\<forall>i code. i < length procs \<longrightarrow> snd (procs ! i) = Some code \<longrightarrow> Exited i code \<in> set acts) \<and>
     (\<forall>pre post i. acts = pre @ Spawn i # post \<longrightarrow> (\<forall>j < i. swept j pre))"

definition all_swept :: "nat \<Rightarrow> act list \<Rightarrow> bool" where
  "all_swept n acts \<longleftrightarrow> (\<forall>i < n. swept i acts)"

definition svc_inv :: "service \<Rightarrow> bool" where
  "svc_inv s \<longleftrightarrow>
     proc_log (u_procs s) (u_acts s) \<and>
     (u_pc s \<noteq> Dead \<longrightarrow>
        (if idle_pc (u_pc s) then \<not> proc_alive s \<and> all_swept (length (u_procs s)) (u_acts s)
         else u_procs s \<noteq> [] \<and> all_swept (current s) (u_acts s) \<and>
              (\<forall>code. u_pc s = AtReap code \<longrightarrow> exit_of (current s) s = Some code)))"

lemma swept_append: "swept i acts \<Longrightarrow> swept i (acts @ l)"
  unfolding swept_def by fastforce

lemma swept_now: "Exited i code \<in> set acts \<Longrightarrow> swept i (acts @ [Sweep ''KILL''])"
  by (auto simp: swept_def dest!: split_list) (metis append_Nil2)

lemma all_swept_append: "all_swept n acts \<Longrightarrow> all_swept n (acts @ l)"
  by (simp add: all_swept_def swept_append)

lemma proc_log_append:
  assumes "proc_log procs acts" and "list_all mute l"
  shows "proc_log procs (acts @ l)"
proof -
  have "\<forall>j < i. swept j pre" if eq: "acts @ l = pre @ Spawn i # post" for pre post i
  proof -
    from eq have "Spawn i \<notin> set l" using assms(2) by (auto simp: list_all_iff)
    then obtain us where "acts = pre @ Spawn i # us"
      using eq by (auto simp: append_eq_append_conv2 append_eq_Cons_conv)
    with assms(1) show ?thesis by (auto simp: proc_log_def)
  qed
  with assms show ?thesis by (auto simp: proc_log_def)
qed

lemma quietE:
  assumes "quiet s s'"
  obtains l where "u_procs s' = u_procs s" "u_acts s' = u_acts s @ l" "list_all mute l"
  using assms by (auto simp: quiet_def)

text \<open>A quiet step between processes keeps the invariant.\<close>

lemma svc_inv_idle:
  assumes "svc_inv s" "idle_pc (u_pc s)" "u_pc s \<noteq> Dead" "quiet s s'" "idle_pc (u_pc s')"
  shows "svc_inv s'"
proof -
  obtain l where l: "u_procs s' = u_procs s" "u_acts s' = u_acts s @ l" "list_all mute l"
    using assms(4) by (rule quietE)
  then have "proc_alive s' = proc_alive s" by (simp add: proc_alive_def alive_def current_def)
  with assms l show ?thesis
    by (simp add: svc_inv_def proc_log_append all_swept_append)
qed

text \<open>A quiet step of another task, or one that stays with the live process.\<close>

lemma svc_inv_same:
  assumes "svc_inv s" "quiet s s'" "u_pc s' = u_pc s \<or> (live_pc (u_pc s) \<and> live_pc (u_pc s')) \<or> u_pc s' = Dead"
  shows "svc_inv s'"
proof -
  obtain l where l: "u_procs s' = u_procs s" "u_acts s' = u_acts s @ l" "list_all mute l"
    using assms(2) by (rule quietE)
  then have "proc_alive s' = proc_alive s" "current s' = current s" "exit_of i s' = exit_of i s" for i
    by (simp_all add: proc_alive_def alive_def current_def exit_of_def)
  with assms(1,3) l show ?thesis
    by (cases "u_pc s"; cases "u_pc s'") (auto simp: svc_inv_def proc_log_append all_swept_append idle_pc_def)
qed

definition holding :: "service \<Rightarrow> bool" where
  "holding s \<longleftrightarrow> proc_log (u_procs s) (u_acts s) \<and> u_procs s \<noteq> [] \<and> all_swept (current s) (u_acts s)"

lemma holding_quiet: "holding s \<Longrightarrow> quiet s s' \<Longrightarrow> holding s'"
  by (auto simp: holding_def proc_log_append all_swept_append current_def elim!: quietE)

lemma svc_inv_holding: "svc_inv s \<Longrightarrow> u_pc s \<noteq> Dead \<Longrightarrow> \<not> idle_pc (u_pc s) \<Longrightarrow> holding s"
  by (simp add: svc_inv_def holding_def)

lemma svc_inv_sweep_then_drain:
  assumes "holding s" "exit_of (current s) s = Some code"
  shows "svc_inv (sweep_then_drain code s)"
proof -
  let ?A = "u_acts s @ [Sweep ''KILL'']" and ?n = "current s"
  have n: "?n < length (u_procs s)" "length (u_procs s) = Suc ?n"
    using assms(1) by (auto simp: current_def holding_def)
  have x: "snd (u_procs s ! ?n) = Some code" using assms(2) n by (simp add: exit_of_def split: if_splits)
  then have "Exited ?n code \<in> set (u_acts s)" using assms(1) n by (auto simp: holding_def proc_log_def)
  then have "swept ?n ?A" by (rule swept_now)
  moreover have "all_swept ?n ?A" using assms(1) by (simp add: holding_def all_swept_append)
  ultimately have sw: "all_swept (length (u_procs s)) ?A" using n(2) by (simp add: all_swept_def less_Suc_eq)
  have pl: "proc_log (u_procs s) ?A" using assms(1) by (simp add: holding_def proc_log_append)
  have "\<not> proc_alive (sweep_then_drain code s)"
    using x by (simp add: proc_alive_def alive_def current_def sweep_then_drain_def goto_def emit_def)
  with sw pl show ?thesis
    by (simp add: svc_inv_def sweep_then_drain_def goto_def emit_def idle_pc_def)
qed

lemma svc_inv_reap:
  assumes "holding s" "exit_of (current s) s = Some code"
  shows "svc_inv (reap code s)"
proof (cases "u_gate_watcher s = Off \<and> u_path_watcher s = Off")
  case True
  then have "reap code s = sweep_then_drain code s" by (simp add: reap_def)
  with assms show ?thesis by (simp add: svc_inv_sweep_then_drain)
next
  case False
  then show ?thesis using assms
    by (auto simp: reap_def svc_inv_def holding_def goto_def idle_pc_def current_def exit_of_def)
qed

lemma svc_inv_wait_exit: "holding s \<Longrightarrow> svc_inv (wait_exit s)"
  by (auto simp: wait_exit_def svc_inv_reap split: option.split)
     (simp add: svc_inv_def holding_def goto_def idle_pc_def current_def)

lemma svc_inv_became_ready: "holding s \<Longrightarrow> svc_inv (became_ready s)"
  unfolding became_ready_def by (rule svc_inv_wait_exit, erule holding_quiet) (intro quiet_helpers)

lemma svc_inv_probe_loop: "holding s \<Longrightarrow> svc_inv (probe_loop m dl s)"
proof -
  assume h: "holding s"
  then have "holding (emit (Sweep ''KILL'') s)" by (rule holding_quiet) (intro quiet_helpers, simp)
  moreover from h have "svc_inv (goto (AtProbe dl) s)"
    by (simp add: svc_inv_def holding_def goto_def idle_pc_def current_def)
  ultimately show ?thesis using h by (simp add: probe_loop_def svc_inv_wait_exit)
qed

lemma svc_inv_wait_ready: "holding s \<Longrightarrow> svc_inv (wait_ready k m r s)"
  by (simp add: wait_ready_def svc_inv_became_ready svc_inv_probe_loop)

lemma svc_inv_spawned:
  assumes "svc_inv s" "u_pc s = AtExec"
  shows "svc_inv (spawned k m pid r s)"
proof -
  let ?n = "length (u_procs s)"
  let ?A = "u_acts s @ [Spawn ?n]" and ?P = "u_procs s @ [(pid, None)]"
  have old: "proc_log (u_procs s) (u_acts s)" "\<not> proc_alive s" "all_swept ?n (u_acts s)"
    using assms by (simp_all add: svc_inv_def idle_pc_def)
  have "proc_log ?P ?A"
    unfolding proc_log_def
  proof (intro conjI allI impI)
    fix i assume "Suc i < length ?P"
    then have i: "i < ?n" by simp
    show "snd (?P ! i) \<noteq> None"
    proof (cases "Suc i < ?n")
      case True
      with old(1) i show ?thesis by (auto simp: proc_log_def nth_append)
    next
      case False
      with i have "i = current s" "u_procs s \<noteq> []" by (auto simp: current_def)
      with old(2) i show ?thesis by (auto simp: proc_alive_def alive_def nth_append)
    qed
  next
    fix i code assume "i < length ?P" "snd (?P ! i) = Some code"
    then have "i < ?n" "snd (u_procs s ! i) = Some code" by (auto simp: nth_append split: if_splits)
    then show "Exited i code \<in> set ?A" using old(1) by (auto simp: proc_log_def)
  next
    fix pre post i j assume eq: "?A = pre @ Spawn i # post" and j: "j < i"
    from eq consider us where "u_acts s = pre @ Spawn i # us" | "pre = u_acts s" "i = ?n"
      by (auto simp: append_eq_append_conv2 Cons_eq_append_conv append_eq_Cons_conv)
    then show "swept j pre"
    proof cases
      case 1
      with old(1) j show ?thesis by (auto simp: proc_log_def)
    next
      case 2
      with old(3) j show ?thesis by (simp add: all_swept_def)
    qed
  qed
  then have "holding (emit (Spawn ?n) (s\<lparr>u_procs := ?P, u_pid := Some pid\<rparr>))"
    using old(3) by (simp add: holding_def emit_def current_def all_swept_append)
  then have "holding ((emit (Notify st) (emit (Spawn ?n) (s\<lparr>u_procs := ?P, u_pid := Some pid\<rparr>)))
      \<lparr>u_gate_watcher := gw, u_path_watcher := pw\<rparr>)" for st gw pw
    by (rule holding_quiet) (intro quiet_helpers, simp)
  then show ?thesis unfolding spawned_def Let_def by (rule svc_inv_wait_ready)
qed

text \<open>Between processes every step of the run loop but a successful spawn is quiet and stays there.\<close>

lemma run_step_idle:
  assumes "run_step k m ev s = Some s'" and "idle_pc (u_pc s)" and "\<And>pid. ev \<noteq> Execed (Some pid)"
  shows "quiet s s'" and "idle_pc (u_pc s')"
proof -
  have d: "idle_pc (u_pc (goto p t)) = idle_pc p" for p t by simp
  show "quiet s s'"
    using assms by (cases "u_pc s"; cases ev) (auto simp: run_step_def idle_pc_def split: option.splits if_splits intro!: quiet_helpers)
  show "idle_pc (u_pc s')"
    using assms
    by (cases "u_pc s"; cases ev) (auto simp: run_step_def idle_helpers d split: option.splits if_splits, auto simp: idle_pc_def)
qed

lemma svc_inv_run_step:
  assumes inv: "svc_inv s" and step: "run_step k m ev s = Some s'"
  shows "svc_inv s'"
proof (cases "idle_pc (u_pc s)")
  case True
  have "u_pc s \<noteq> Dead" using step by (auto simp: run_step_def split: run_event.splits)
  show ?thesis
  proof (cases "\<exists>pid. ev = Execed (Some pid)")
    case True
    with step inv show ?thesis
      by (auto simp: run_step_def svc_inv_spawned split: pc.splits option.splits)
  next
    case False
    with True step inv \<open>u_pc s \<noteq> Dead\<close> show ?thesis by (metis run_step_idle svc_inv_idle)
  qed
next
  case False
  then have "u_pc s \<noteq> Dead" by (auto simp: idle_pc_def)
  with inv False have hold: "holding s" by (simp add: svc_inv_holding)
  have raised: "svc_inv (goto Dead (s\<lparr>u_gate_watcher := Off, u_path_watcher := Off\<rparr>))"
    using inv by (rule svc_inv_same) (auto intro!: quiet_helpers)
  have sleep: "svc_inv (goto (AtProbeSleep d) s)" if "u_pc s = AtProbe d" for d
    using inv by (rule svc_inv_same) (auto simp: that intro!: quiet_helpers)
  have "exit_of (current s) s = Some code" if "u_pc s = AtReap code" for code
    using inv that by (simp add: svc_inv_def idle_pc_def)
  with False step hold raised sleep show ?thesis
    by (cases "u_pc s"; cases ev)
       (auto simp: run_step_def idle_pc_def svc_inv_became_ready svc_inv_probe_loop svc_inv_reap split: if_splits)
qed

lemma quiet_watch_step:
  assumes "watch_step k ev s = Some s'"
  shows "quiet s s'" and "u_pc s' = u_pc s"
  using assms by (auto simp: watch_step_def Let_def terminate_group_def split: watch_event.splits if_splits intro!: quiet_helpers)

lemma quiet_svc_stop: "quiet s (svc_stop k s)" and pc_svc_stop: "u_pc (svc_stop k s) = u_pc s"
  by (auto simp: svc_stop_def Let_def terminate_group_def intro!: quiet_helpers)

lemma quiet_svc_restart: "quiet s (svc_restart k s)" and pc_svc_restart: "u_pc (svc_restart k s) = u_pc s"
  by (auto simp: svc_restart_def Let_def terminate_group_def intro!: quiet_helpers)

lemma quiet_killer_ends:
  assumes "killer_ends kl s = Some s'"
  shows "quiet s s'" and "u_pc s' = u_pc s"
  using assms by (auto simp: killer_ends_def Let_def split: killer.splits if_splits intro!: quiet_helpers)

lemma svc_inv_process_exits:
  assumes inv: "svc_inv s" and step: "process_exits i code s = Some s'"
  shows "svc_inv s'"
proof -
  let ?n = "length (u_procs s)"
  have a: "alive i s" and s': "u_procs s' = (u_procs s)[i := (fst (u_procs s ! i), Some code)]"
      "u_acts s' = u_acts s @ [Exited i code]" "u_pc s' = u_pc s"
    using step by (auto simp: process_exits_def emit_def split: if_splits)
  have i: "i < ?n" "snd (u_procs s ! i) = None" using a by (simp_all add: alive_def)
  have log: "proc_log (u_procs s) (u_acts s)" using inv by (simp add: svc_inv_def)
  have "proc_log (u_procs s') (u_acts s')"
    unfolding proc_log_def
  proof (intro conjI allI impI)
    fix j assume "Suc j < length (u_procs s')"
    with log i show "snd (u_procs s' ! j) \<noteq> None"
      by (cases "j = i") (auto simp: proc_log_def s')
  next
    fix j c assume "j < length (u_procs s')" "snd (u_procs s' ! j) = Some c"
    with log i show "Exited j c \<in> set (u_acts s')" by (cases "j = i") (auto simp: proc_log_def s')
  next
    fix pre post j l assume eq: "u_acts s' = pre @ Spawn j # post" and l: "l < j"
    then obtain us where "u_acts s = pre @ Spawn j # us"
      by (auto simp: s' append_eq_append_conv2 append_eq_Cons_conv Cons_eq_append_conv)
    with log l show "swept l pre" by (auto simp: proc_log_def)
  qed
  moreover have "current s' = current s" "length (u_procs s') = ?n" by (simp_all add: current_def s')
  moreover have "\<not> proc_alive s'" if "\<not> proc_alive s"
    using that i by (cases "i = length (u_procs s) - 1") (auto simp: proc_alive_def alive_def current_def s')
  moreover have "exit_of (current s) s' = Some c" if "exit_of (current s) s = Some c" for c
    using that i by (auto simp: exit_of_def s' nth_list_update split: if_splits)
  ultimately show ?thesis
    using inv i s' by (auto simp: svc_inv_def all_swept_append)
qed

lemma svc_inv_step:
  assumes "svc_inv s" "svc_step k m ev s = Some s'"
  shows "svc_inv s'"
proof (cases ev)
  case (Run e)
  with assms show ?thesis by (simp add: svc_step_def svc_inv_run_step)
next
  case (Watch e)
  with assms have "watch_step k e s = Some s'" by (simp add: svc_step_def)
  with assms(1) show ?thesis by (simp add: svc_inv_same quiet_watch_step)
next
  case Stop
  with assms show ?thesis by (auto simp: svc_step_def intro: svc_inv_same simp: quiet_svc_stop pc_svc_stop)
next
  case Restart
  with assms show ?thesis by (auto simp: svc_step_def intro: svc_inv_same simp: quiet_svc_restart pc_svc_restart)
next
  case (KillEnds kl)
  with assms have "killer_ends kl s = Some s'" by (simp add: svc_step_def)
  with assms(1) show ?thesis by (simp add: svc_inv_same quiet_killer_ends)
next
  case (ProcessExits i code)
  with assms show ?thesis by (simp add: svc_step_def svc_inv_process_exits)
qed

lemma svc_inv_reach: "svc_reach k s \<Longrightarrow> svc_inv s"
proof (induction rule: svc_reach.induct)
  case init
  show ?case
    by (simp add: svc_inv_def Service_def proc_log_def idle_pc_def proc_alive_def all_swept_def)
next
  case (step s m ev s')
  then show ?case by (simp add: svc_inv_step)
qed

end
