(* ===== verification/Orc_Policy.thy ===== *)
theory Orc_Policy
  imports Orc_Lifecycle
begin

text \<open>
  The restart policy of \<^verbatim>\<open>src/jetty/orchestrator/service.py\<close> over whole histories, and the properties
  of a single service: one process at a time, the budget, the end after a stop, and what the
  interleavings allow that the policy does not mean.
\<close>

section \<open>What a step does to the budget\<close>

fun exhausted :: "act \<Rightarrow> bool" where
  "exhausted (Failed (OverBudget _ _)) = True"
| "exhausted _ = False"

definition same_budget :: "service \<Rightarrow> service \<Rightarrow> bool" where
  "same_budget s s' \<longleftrightarrow> u_fail_times s' = u_fail_times s \<and> u_restarts s' = u_restarts s \<and>
     (u_state s' = ''blocked'' \<longrightarrow> u_state s = ''blocked'') \<and>
     filter exhausted (u_acts s') = filter exhausted (u_acts s)"

lemma same_budget_basic:
  "same_budget s s"
  "same_budget s t \<Longrightarrow> same_budget s (goto p t)"
  "same_budget s t \<Longrightarrow> \<not> exhausted a \<Longrightarrow> same_budget s (emit a t)"
  "same_budget s t \<Longrightarrow> st \<noteq> ''blocked'' \<Longrightarrow> same_budget s (set_state st t)"
  "same_budget s t \<Longrightarrow> same_budget s (t\<lparr>u_blocked_on := b\<rparr>)"
  "same_budget s t \<Longrightarrow> same_budget s (t\<lparr>u_last_exit := c\<rparr>)"
  "same_budget s t \<Longrightarrow> same_budget s (t\<lparr>u_gate_stop := g\<rparr>)"
  "same_budget s t \<Longrightarrow> same_budget s (t\<lparr>u_bounce := g\<rparr>)"
  "same_budget s t \<Longrightarrow> same_budget s (t\<lparr>u_stop := g\<rparr>)"
  "same_budget s t \<Longrightarrow> same_budget s (t\<lparr>u_ready := g\<rparr>)"
  "same_budget s t \<Longrightarrow> same_budget s (t\<lparr>u_pid := pid\<rparr>)"
  "same_budget s t \<Longrightarrow> same_budget s (t\<lparr>u_rendered := rd\<rparr>)"
  "same_budget s t \<Longrightarrow> same_budget s (t\<lparr>u_killers := ks\<rparr>)"
  "same_budget s t \<Longrightarrow> same_budget s (t\<lparr>u_procs := ps\<rparr>)"
  "same_budget s t \<Longrightarrow> same_budget s (t\<lparr>u_gate_watcher := w\<rparr>)"
  "same_budget s t \<Longrightarrow> same_budget s (t\<lparr>u_path_watcher := w\<rparr>)"
  by (auto simp: same_budget_def goto_def emit_def set_state_def)

lemma same_budget_loop_top: "same_budget s t \<Longrightarrow> same_budget s (loop_top k m t)"
  by (auto simp: loop_top_def spawn_def Let_def intro!: same_budget_basic)

lemma same_budget_spawn: "same_budget s t \<Longrightarrow> same_budget s (spawn m t)"
  by (auto simp: spawn_def Let_def intro!: same_budget_basic)

lemma same_budget_dep_loop: "same_budget s t \<Longrightarrow> same_budget s (dep_loop k m i t)"
  by (auto simp: dep_loop_def intro!: same_budget_basic same_budget_loop_top)

lemma same_budget_block_gates: "same_budget s t \<Longrightarrow> same_budget s (block_gates k m fl t)"
  by (auto simp: block_gates_def Let_def intro!: same_budget_basic same_budget_loop_top)

lemma same_budget_svc_fail: "same_budget s t \<Longrightarrow> same_budget s (svc_fail (NoRetry c) t)"
  by (auto simp: svc_fail_def intro!: same_budget_basic)

lemma same_budget_reap: "same_budget s t \<Longrightarrow> same_budget s (reap code t)"
  by (auto simp: reap_def sweep_then_drain_def intro!: same_budget_basic)

lemma same_budget_wait_exit: "same_budget s t \<Longrightarrow> same_budget s (wait_exit t)"
  by (auto simp: wait_exit_def intro!: same_budget_basic same_budget_reap split: option.split)

lemma same_budget_became_ready: "same_budget s t \<Longrightarrow> same_budget s (became_ready t)"
  by (auto simp: became_ready_def intro!: same_budget_basic same_budget_wait_exit)

lemma same_budget_probe_loop: "same_budget s t \<Longrightarrow> same_budget s (probe_loop m d t)"
  by (auto simp: probe_loop_def intro!: same_budget_basic same_budget_wait_exit)

lemma same_budget_spawned: "same_budget s t \<Longrightarrow> same_budget s (spawned k m pid r t)"
  by (auto simp: spawned_def wait_ready_def Let_def
      intro!: same_budget_basic same_budget_became_ready same_budget_probe_loop)

lemmas same_budget_helpers = same_budget_basic same_budget_loop_top same_budget_spawn same_budget_dep_loop
  same_budget_block_gates same_budget_svc_fail same_budget_reap same_budget_wait_exit
  same_budget_became_ready same_budget_probe_loop same_budget_spawned

text \<open>Everything but the run loop.\<close>

lemma same_budget_others:
  assumes "svc_step k m ev s = Some s'" and "\<And>e. ev \<noteq> Run e"
  shows "same_budget s s'" and "u_pc s' = u_pc s" and "u_state s' = u_state s \<or> u_state s' = ''stopping''"
  using assms
  by (auto simp: svc_step_def watch_step_def svc_stop_def svc_restart_def killer_ends_def process_exits_def
      terminate_group_def Let_def emit_def set_state_def goto_def same_budget_def
      split: event.splits watch_event.splits killer.splits if_splits)

text \<open>A step of the run loop leaves the budget alone, blocks, or charges a crash.\<close>

definition charges :: "svc_conf \<Rightarrow> moment \<Rightarrow> service \<Rightarrow> service \<Rightarrow> bool" where
  "charges k m s s' \<longleftrightarrow> (\<exists>code s0. s' = budget k m code s0 \<and> same_budget s s0 \<and> u_state s0 = u_state s)"

fun exit_pc :: "pc \<Rightarrow> bool" where
  "exit_pc AtRender = True"
| "exit_pc AtExec = True"
| "exit_pc (AtDrain _) = True"
| "exit_pc (AtRecheck _) = True"
| "exit_pc _ = False"

lemma after_exit_budget:
  assumes "same_budget s t" "u_state t = u_state s"
  shows "same_budget s (after_exit k m code t) \<or> charges k m s (after_exit k m code t)"
proof (cases "u_stop t \<or> u_gate_stop t \<or> u_bounce t \<or> code \<in> set (rs_no_restart_exit (sv_restart (k_cfg k))) \<or> k_requires k \<noteq> []")
  case True
  then have "same_budget s (after_exit k m code t)"
    using assms by (auto simp: after_exit_def Let_def intro!: same_budget_helpers)
  then show ?thesis ..
next
  case False
  then have "after_exit k m code t = budget k m code (t\<lparr>u_last_exit := Some code\<rparr>)"
    by (simp add: after_exit_def Let_def)
  then have "charges k m s (after_exit k m code t)"
    using assms by (auto simp: charges_def intro!: same_budget_helpers exI [of _ "t\<lparr>u_last_exit := Some code\<rparr>"])
  then show ?thesis ..
qed

lemma run_step_budget:
  assumes "run_step k m ev s = Some s'"
  shows "same_budget s s' \<or> (\<exists>failing. u_pc s = AtGates \<and> s' = svc_block k m failing s) \<or>
    (exit_pc (u_pc s) \<and> charges k m s s')"
proof -
  have ref: "same_budget s s" by (rule same_budget_helpers)
  have drained: "same_budget s (s\<lparr>u_ready := False, u_pid := None\<rparr>)" by (intro same_budget_helpers)
  have direct: "charges k m s (budget k m code s)" for code using ref by (auto simp: charges_def)
  have raised: "same_budget s (goto Dead (s\<lparr>u_gate_watcher := Off, u_path_watcher := Off\<rparr>))" by (intro same_budget_helpers)
  note exits = after_exit_budget [OF ref refl, of k m] after_exit_budget [OF drained, of k m, simplified]
  show ?thesis
    using assms raised
    by (cases "u_pc s"; cases ev)
       (auto simp: run_step_def direct split: option.splits if_splits intro!: same_budget_helpers, (use exits in blast)+)
qed

section \<open>Histories with their crashes\<close>

text \<open>
  The times of the crashes charged since the service was last blocked, read off what it shows: its
  state and its count of restarts. The clock does not run backwards.
\<close>

definition charge :: "rat list \<Rightarrow> moment \<Rightarrow> service \<Rightarrow> service \<Rightarrow> rat list" where
  "charge h m s s' =
     (if u_state s' = ''blocked'' then [] else if u_restarts s' \<noteq> u_restarts s then h @ [m_now m] else h)"

inductive svc_history :: "svc_conf \<Rightarrow> rat \<Rightarrow> rat list \<Rightarrow> service \<Rightarrow> bool" for k where
  start: "svc_history k t [] Service"
| move: "svc_history k t h s \<Longrightarrow> t \<le> m_now m \<Longrightarrow> svc_step k m ev s = Some s' \<Longrightarrow>
    svc_history k (m_now m) (charge h m s s') s'"

lemma svc_history_reach: "svc_history k t h s \<Longrightarrow> svc_reach k s"
  by (induction rule: svc_history.induct) (auto intro: svc_reach.intros)

text \<open>The crashes that still count at a given time.\<close>

definition recent :: "pyfloat \<Rightarrow> rat \<Rightarrow> rat list \<Rightarrow> rat list" where
  "recent window now h = filter (\<lambda>t. float_lt (float_diff now t) window) h"

lemma recent_recent: "t \<le> now \<Longrightarrow> recent w now (recent w t h) = recent w now h"
  by (auto simp: recent_def float_diff_lt_mono intro!: filter_cong)

lemma recent_snoc: "float_lt (Fin 0) w \<Longrightarrow> recent w now (h @ [now]) = recent w now h @ [now]"
  by (simp add: recent_def)

abbreviation window_of :: "svc_conf \<Rightarrow> pyfloat" where
  "window_of k \<equiv> rs_window (sv_restart (k_cfg k))"

fun busy_pc :: "pc \<Rightarrow> bool" where
  "busy_pc AtStart = False"
| "busy_pc (AtDep _) = False"
| "busy_pc AtGates = False"
| "busy_pc AtBlockSleep = False"
| "busy_pc AtBlockGates = False"
| "busy_pc Dead = False"
| "busy_pc _ = True"

definition budget_inv :: "svc_conf \<Rightarrow> rat \<Rightarrow> rat list \<Rightarrow> service \<Rightarrow> bool" where
  "budget_inv k t h s \<longleftrightarrow>
     (h \<noteq> [] \<longrightarrow> last h \<le> t) \<and>
     (busy_pc (u_pc s) \<longrightarrow> u_state s \<noteq> ''blocked'') \<and>
     (u_state s = ''blocked'' \<longrightarrow> h = []) \<and>
     (u_pc s \<noteq> Done \<longrightarrow> u_pc s \<noteq> Dead \<longrightarrow>
        u_fail_times s = (if h = [] then [] else recent (window_of k) (last h) h))"

lemma state_updates [simp]:
  "u_state (emit a s) = u_state s" "u_state (goto p s) = u_state s" "u_state (set_state st s) = st"
  by (simp_all add: emit_def goto_def set_state_def)

lemma not_blocked_loop_top: "busy_pc (u_pc (loop_top k m s)) \<Longrightarrow> u_state (loop_top k m s) \<noteq> ''blocked''"
  by (auto simp: loop_top_def spawn_def Let_def split: if_splits)

lemma not_blocked_dep_loop: "busy_pc (u_pc (dep_loop k m i s)) \<Longrightarrow> u_state (dep_loop k m i s) \<noteq> ''blocked''"
  using not_blocked_loop_top by (auto simp: dep_loop_def split: if_splits)

lemma not_blocked_budget: "u_state s \<noteq> ''blocked'' \<Longrightarrow> u_state (budget k m code s) \<noteq> ''blocked''"
  by (auto simp: budget_def svc_fail_def Let_def split: sum.split)

lemma not_blocked_after_exit:
  "u_state s \<noteq> ''blocked'' \<Longrightarrow> busy_pc (u_pc (after_exit k m code s)) \<Longrightarrow> u_state (after_exit k m code s) \<noteq> ''blocked''"
  using not_blocked_loop_top not_blocked_budget
  by (auto simp: after_exit_def svc_fail_def Let_def split: if_splits)

lemma not_blocked_reap: "u_state (reap code s) = u_state s"
  by (simp add: reap_def sweep_then_drain_def)

lemma not_blocked_wait_exit: "u_state (wait_exit s) = u_state s"
  by (simp add: wait_exit_def not_blocked_reap split: option.split)

lemma not_blocked_became_ready: "u_state (became_ready s) = ''running''"
  by (simp add: became_ready_def not_blocked_wait_exit)

lemma not_blocked_probe_loop: "u_state (probe_loop m d s) = u_state s"
  by (simp add: probe_loop_def not_blocked_wait_exit)

lemma not_blocked_spawned: "u_state s \<noteq> ''blocked'' \<Longrightarrow> u_state (spawned k m pid rd s) \<noteq> ''blocked''"
  by (simp add: spawned_def wait_ready_def Let_def not_blocked_became_ready not_blocked_probe_loop)

lemmas not_blocked_live = not_blocked_reap not_blocked_became_ready not_blocked_probe_loop not_blocked_spawned

lemma not_blocked_run_step:
  assumes "run_step k m ev s = Some s'" "busy_pc (u_pc s) \<longrightarrow> u_state s \<noteq> ''blocked''" "busy_pc (u_pc s')"
  shows "u_state s' \<noteq> ''blocked''"
proof -
  note moves = not_blocked_loop_top not_blocked_dep_loop not_blocked_budget not_blocked_after_exit not_blocked_live
  show ?thesis
    using assms
    by (cases "u_pc s"; cases ev)
       (auto simp: run_step_def spawn_def svc_block_def block_gates_def Let_def moves split: option.splits if_splits)
qed

section \<open>The budget over a history\<close>

lemma svc_block_budget:
  "u_restarts (svc_block k m fl s) = u_restarts s"
  "filter exhausted (u_acts (svc_block k m fl s)) = filter exhausted (u_acts s)"
  "u_state (svc_block k m fl s) = ''blocked'' \<and> u_fail_times (svc_block k m fl s) = [] \<or> u_pc (svc_block k m fl s) = Done"
  by (auto simp: svc_block_def loop_top_def Let_def emit_def goto_def set_state_def)

definition over_budget :: "svc_conf \<Rightarrow> rat list \<Rightarrow> bool" where
  "over_budget k ts \<longleftrightarrow> rs_max (sv_restart (k_cfg k)) < int (length ts)"

lemma budget_outcome:
  fixes k m code s
  defines "ts \<equiv> recent (window_of k) (m_now m) (u_fail_times s) @ [m_now m]"
    and "s' \<equiv> budget k m code s"
  shows "u_fail_times s' = ts" "u_restarts s' = u_restarts s + 1"
    and "over_budget k ts \<Longrightarrow> u_pc s' = Done \<and> u_state s' = ''failed'' \<and> last (u_acts s') = Failed (OverBudget (int (length ts)) code)"
    and "\<not> over_budget k ts \<Longrightarrow> backoff_delay (sv_restart (k_cfg k)) (length ts) = Inr d \<Longrightarrow>
           u_pc s' = AtBackoff d \<and> u_state s' = ''backoff''"
    and "\<not> over_budget k ts \<Longrightarrow> backoff_delay (sv_restart (k_cfg k)) (length ts) = Inl e \<Longrightarrow> u_pc s' = Dead"
  by (auto simp: s'_def ts_def budget_def recent_def over_budget_def svc_fail_def Let_def
      emit_def goto_def set_state_def split: sum.split)

lemma budget_inv_step:
  assumes inv: "budget_inv k t h s" and le: "t \<le> m_now m" and step: "svc_step k m ev s = Some s'"
    and w: "float_lt (Fin 0) (window_of k)"
  shows "budget_inv k (m_now m) (charge h m s s') s'"
proof -
  have times: "h \<noteq> [] \<longrightarrow> last h \<le> m_now m" using inv le by (auto simp: budget_inv_def)
  have keeps: "budget_inv k (m_now m) (charge h m s s') s'"
    if sb: "same_budget s s'" and nb: "busy_pc (u_pc s') \<longrightarrow> u_state s' \<noteq> ''blocked''"
      and fin: "u_pc s = Done \<or> u_pc s = Dead \<longrightarrow> u_pc s' = u_pc s"
  proof -
    have "charge h m s s' = h" using sb inv by (auto simp: charge_def same_budget_def budget_inv_def)
    with sb nb fin inv times show ?thesis by (auto simp: budget_inv_def same_budget_def)
  qed
  show ?thesis
  proof (cases "\<exists>e. ev = Run e")
    case False
    then have "same_budget s s'" "u_pc s' = u_pc s" "u_state s' = u_state s \<or> u_state s' = ''stopping''"
      using same_budget_others [OF step] by auto
    then show ?thesis using inv by (intro keeps) (auto simp: budget_inv_def)
  next
    case True
    then obtain e where rs: "run_step k m e s = Some s'" using step by (auto simp: svc_step_def)
    then have fin: "u_pc s \<noteq> Done" "u_pc s \<noteq> Dead" by (auto simp: run_step_def split: run_event.splits)
    have nb: "busy_pc (u_pc s') \<longrightarrow> u_state s' \<noteq> ''blocked''"
      using not_blocked_run_step [OF rs] inv by (auto simp: budget_inv_def)
    have ft: "u_fail_times s = (if h = [] then [] else recent (window_of k) (last h) h)"
      using inv fin by (simp add: budget_inv_def)
    from run_step_budget [OF rs] consider "same_budget s s'"
      | fl where "u_pc s = AtGates" "s' = svc_block k m fl s"
      | code s0 where "exit_pc (u_pc s)" "s' = budget k m code s0" "same_budget s s0" "u_state s0 = u_state s"
      by (auto simp: charges_def)
    then show ?thesis
    proof cases
      case 1
      then show ?thesis using nb fin by (intro keeps) auto
    next
      case 2
      with svc_block_budget [of k m fl s] nb times show ?thesis
        by (auto simp: budget_inv_def charge_def)
    next
      case 3
      have "u_state s \<noteq> ''blocked''" using inv 3(1) by (cases "u_pc s") (auto simp: budget_inv_def)
      then have st: "u_state s' \<noteq> ''blocked''" using 3 not_blocked_budget by metis
      have "u_restarts s' = u_restarts s + 1" using 3 budget_outcome(2) by (simp add: same_budget_def)
      with st have h: "charge h m s s' = h @ [m_now m]" by (simp add: charge_def)
      have "recent (window_of k) (m_now m) (u_fail_times s) = recent (window_of k) (m_now m) h"
        using ft times by (cases "h = []") (simp_all add: recent_recent)
      then have "u_fail_times s' = recent (window_of k) (m_now m) (h @ [m_now m])"
        using 3 budget_outcome(1) [of k m code s0] w by (simp add: same_budget_def recent_snoc)
      with h st show ?thesis by (simp add: budget_inv_def)
    qed
  qed
qed

lemma budget_inv_history:
  assumes "svc_history k t h s" "float_lt (Fin 0) (window_of k)"
  shows "budget_inv k t h s"
  using assms
proof (induction rule: svc_history.induct)
  case (start t)
  then show ?case by (simp add: budget_inv_def Service_def)
next
  case (move t h s m ev s')
  then show ?case by (simp add: budget_inv_step)
qed

section \<open>After a stop\<close>

text \<open>How many more waits the run loop can go through once a stop is requested.\<close>

fun rank :: "service \<Rightarrow> nat" where
  "rank s =
     (case u_pc s of
        AtStart \<Rightarrow> 2 | AtDep _ \<Rightarrow> 1 | AtGates \<Rightarrow> 9 | AtBlockSleep \<Rightarrow> 1 | AtBlockGates \<Rightarrow> 1
      | AtRender \<Rightarrow> 8 | AtExec \<Rightarrow> 7 | AtProbe _ \<Rightarrow> 6 | AtProbeSleep _ \<Rightarrow> 5 | AtWaitExit \<Rightarrow> 4
      | AtReap _ \<Rightarrow> 2 + of_bool (u_gate_watcher s \<noteq> Off) + of_bool (u_path_watcher s \<noteq> Off)
      | AtDrain _ \<Rightarrow> 1 | AtRecheck _ \<Rightarrow> 2 | AtBackoff _ \<Rightarrow> 1 | Done \<Rightarrow> 0 | Dead \<Rightarrow> 0)"

declare rank.simps [simp del]

lemma path_watcher_updates [simp]:
  "u_path_watcher (emit a s) = u_path_watcher s" "u_path_watcher (set_state st s) = u_path_watcher s"
  "u_path_watcher (goto p s) = u_path_watcher s" "u_gate_watcher (goto p s) = u_gate_watcher s"
  "u_gate_watcher (emit a s) = u_gate_watcher s" "u_gate_watcher (set_state st s) = u_gate_watcher s"
  by (simp_all add: emit_def set_state_def goto_def)

lemma stopped_loop_top: "u_stop s \<Longrightarrow> u_pc (loop_top k m s) = Done"
  by (simp add: loop_top_def)

lemma stopped_after_exit: "u_stop s \<Longrightarrow> u_pc (after_exit k m code s) = Done"
  by (simp add: after_exit_def)

lemma stopped_budget: "rank (budget k m code s) \<le> 1"
  by (simp add: budget_def svc_fail_def rank.simps Let_def split: sum.split)

lemma rank_reap: "rank (reap code s) \<le> 1 + of_bool (u_gate_watcher s \<noteq> Off) + of_bool (u_path_watcher s \<noteq> Off)"
  by (simp add: reap_def sweep_then_drain_def rank.simps)

lemma rank_wait_exit: "rank (wait_exit s) \<le> 4"
proof (cases "exit_of (current s) s")
  case None
  then show ?thesis by (simp add: wait_exit_def rank.simps)
next
  case (Some code)
  have "rank (reap code s) \<le> 3" by (rule order_trans [OF rank_reap]) simp
  with Some show ?thesis by (simp add: wait_exit_def)
qed

lemma rank_became_ready: "rank (became_ready s) \<le> 4"
  by (simp add: became_ready_def rank_wait_exit)

lemma rank_probe_loop: "u_stop s \<Longrightarrow> rank (probe_loop m d s) \<le> 4"
  by (simp add: probe_loop_def rank_wait_exit)

lemma rank_spawned: "u_stop s \<Longrightarrow> rank (spawned k m pid rd s) \<le> 4"
  by (simp add: spawned_def wait_ready_def Let_def rank_became_ready rank_probe_loop)

lemma rank_run_step:
  assumes "run_step k m ev s = Some s'" "u_stop s"
  shows "rank s' < rank s"
proof -
  have simple: "rank t = 0" if "u_pc t = Done \<or> u_pc t = Dead" for t using that by (auto simp: rank.simps)
  have waits: "rank (reap code s) < 4" for code by (rule le_less_trans [OF rank_reap]) simp
  have block: "rank (svc_block k m fl s) = 0" "rank (block_gates k m fl s) = 0" "rank (loop_top k m s) = 0" for fl
    using assms(2) by (auto simp: svc_block_def block_gates_def Let_def stopped_loop_top intro!: simple)
  have dep: "rank (dep_loop k m i s) \<le> 1" for i
    using assms(2) block by (simp add: dep_loop_def rank.simps [of "goto _ _"])
  have spawn: "rank (spawn m s) \<le> 8" by (simp add: spawn_def Let_def rank.simps)
  have exits: "rank (after_exit k m code t) = 0" if "u_stop t" for code t using that by (intro simple) (simp add: stopped_after_exit)
  have gotos: "rank (goto Dead t) = 0" "rank (goto Done t) = 0" "rank (goto AtExec t) = 7" "rank (goto (AtProbeSleep d) t) = 5" for t d
    by (simp_all add: rank.simps)
  have of_pc: "u_pc s = p \<Longrightarrow> rank s = (case p of
        AtStart \<Rightarrow> 2 | AtDep _ \<Rightarrow> 1 | AtGates \<Rightarrow> 9 | AtBlockSleep \<Rightarrow> 1 | AtBlockGates \<Rightarrow> 1
      | AtRender \<Rightarrow> 8 | AtExec \<Rightarrow> 7 | AtProbe _ \<Rightarrow> 6 | AtProbeSleep _ \<Rightarrow> 5 | AtWaitExit \<Rightarrow> 4
      | AtReap _ \<Rightarrow> 2 + of_bool (u_gate_watcher s \<noteq> Off) + of_bool (u_path_watcher s \<noteq> Off)
      | AtDrain _ \<Rightarrow> 1 | AtRecheck _ \<Rightarrow> 2 | AtBackoff _ \<Rightarrow> 1 | Done \<Rightarrow> 0 | Dead \<Rightarrow> 0)" for p
    by (simp only: rank.simps)
  note bounds = dep [of 0] spawn stopped_budget [of k m _ s] rank_became_ready [of s] rank_probe_loop [OF assms(2), of m]
    rank_spawned [OF assms(2), of k m]
  show ?thesis
  proof (cases "\<exists>c. u_pc s = AtReap c")
    case True
    then obtain c where c: "u_pc s = AtReap c" ..
    have "rank (reap c s) < rank s" by (rule le_less_trans [OF rank_reap]) (simp add: rank.simps [of s] c)
    moreover have "rank s \<noteq> 0" by (simp add: rank.simps c)
    ultimately show ?thesis using c assms(1) gotos by (auto simp: run_step_def split: run_event.splits)
  next
    case False
    then show ?thesis
    using assms
    by (cases "u_pc s"; cases ev)
       (auto simp: run_step_def of_pc block exits gotos waits split: option.splits if_splits
        intro: le_less_trans [OF bounds(1)] le_less_trans [OF bounds(2)] le_less_trans [OF bounds(3)]
          le_less_trans [OF bounds(4)] le_less_trans [OF bounds(5)] le_less_trans [OF bounds(6)])
  qed
qed

lemma rank_others:
  assumes "svc_step k m ev s = Some s'" "\<And>e. ev \<noteq> Run e"
  shows "rank s' \<le> rank s"
proof -
  have "u_gate_watcher s = Off \<longrightarrow> u_gate_watcher s' = Off" "u_path_watcher s = Off \<longrightarrow> u_path_watcher s' = Off" 
    using assms
    by (auto simp: svc_step_def watch_step_def svc_stop_def svc_restart_def killer_ends_def process_exits_def
      terminate_group_def Let_def split: event.splits watch_event.splits killer.splits if_splits)
  with same_budget_others(2) [OF assms] show ?thesis by (auto simp: rank.simps split: pc.split)
qed

lemma stop_of_helpers:
  "u_stop (spawn m s) = u_stop s" "u_stop (loop_top k m s) = u_stop s" "u_stop (dep_loop k m i s) = u_stop s"
  "u_stop (svc_block k m fl s) = u_stop s" "u_stop (block_gates k m fl s) = u_stop s"
  "u_stop (svc_fail f s) = u_stop s" "u_stop (budget k m code s) = u_stop s" "u_stop (after_exit k m code s) = u_stop s"
  "u_stop (reap code s) = u_stop s" "u_stop (wait_exit s) = u_stop s"
proof -
  show sp: "u_stop (spawn m s) = u_stop s" for s by (simp add: spawn_def Let_def)
  show lt: "u_stop (loop_top k m s) = u_stop s" for s by (simp add: loop_top_def sp)
  show "u_stop (dep_loop k m i s) = u_stop s" by (simp add: dep_loop_def lt)
  show "u_stop (svc_block k m fl s) = u_stop s" by (simp add: svc_block_def lt Let_def)
  show "u_stop (block_gates k m fl s) = u_stop s" by (simp add: block_gates_def lt Let_def)
  show sf: "u_stop (svc_fail f s) = u_stop s" for f s by (simp add: svc_fail_def)
  show bd: "u_stop (budget k m code s) = u_stop s" for s by (simp add: budget_def sf Let_def split: sum.split)
  show "u_stop (after_exit k m code s) = u_stop s" by (simp add: after_exit_def lt sf bd Let_def)
  show rp: "u_stop (reap code s) = u_stop s" for code by (simp add: reap_def sweep_then_drain_def)
  show "u_stop (wait_exit s) = u_stop s" by (simp add: wait_exit_def rp split: option.split)
qed

lemma stop_of_live_helpers:
  "u_stop (became_ready s) = u_stop s" "u_stop (probe_loop m d s) = u_stop s" "u_stop (spawned k m pid rd s) = u_stop s"
  by (simp_all add: became_ready_def probe_loop_def spawned_def wait_ready_def Let_def stop_of_helpers)

lemma stop_stays:
  assumes "svc_step k m ev s = Some s'" "u_stop s"
  shows "u_stop s'"
proof (cases "\<exists>e. ev = Run e")
  case True
  then obtain e where "run_step k m e s = Some s'" using assms(1) by (auto simp: svc_step_def)
  with assms(2) show ?thesis
    by (cases "u_pc s"; cases e)
       (auto simp: run_step_def stop_of_helpers stop_of_live_helpers split: option.splits if_splits)
next
  case False
  with assms show ?thesis
    by (auto simp: svc_step_def watch_step_def svc_stop_def svc_restart_def killer_ends_def process_exits_def
      terminate_group_def Let_def split: event.splits watch_event.splits killer.splits if_splits)
qed

fun is_run :: "moment \<times> event \<Rightarrow> bool" where
  "is_run (m, Run _) = True"
| "is_run _ = False"

lemma run_steps_bounded:
  assumes "u_stop s" "svc_exec k es s = Some s'"
  shows "length (filter is_run es) + rank s' \<le> rank s \<and> u_stop s'"
  using assms
proof (induction k es s rule: svc_exec.induct)
  case (1 k s)
  then show ?case by simp
next
  case (2 k m ev es s)
  then obtain t where t: "svc_step k m ev s = Some t" "svc_exec k es t = Some s'" by (auto split: option.splits)
  then have stop: "u_stop t" using 2 stop_stays by blast
  with 2 t have ih: "length (filter is_run es) + rank s' \<le> rank t" "u_stop s'" by auto
  show ?case
  proof (cases "\<exists>e. ev = Run e")
    case True
    with t(1) 2(2) have "rank t < rank s" by (auto simp: svc_step_def rank_run_step)
    with True ih show ?thesis by auto
  next
    case False
    then have "rank t \<le> rank s" "\<not> is_run (m, ev)" using rank_others [OF t(1)] by (cases ev; auto)+
    with ih show ?thesis by auto
  qed
qed

text \<open>The run loop waits for nothing but what the events bring.\<close>

lemma pc_not_exec:
  "u_pc (spawn m s) \<noteq> AtExec" "u_pc (loop_top k m s) \<noteq> AtExec" "u_pc (dep_loop k m i s) \<noteq> AtExec"
  "u_pc (svc_block k m fl s) \<noteq> AtExec" "u_pc (block_gates k m fl s) \<noteq> AtExec" "u_pc (budget k m code s) \<noteq> AtExec"
  "u_pc (after_exit k m code s) \<noteq> AtExec" "u_pc (reap code s) \<noteq> AtExec" "u_pc (wait_exit s) \<noteq> AtExec"
proof -
  show sp: "u_pc (spawn m s) \<noteq> AtExec" for s by (simp add: spawn_def Let_def)
  show lt: "u_pc (loop_top k m s) \<noteq> AtExec" for s by (simp add: loop_top_def sp)
  show "u_pc (dep_loop k m i s) \<noteq> AtExec" by (simp add: dep_loop_def lt)
  show "u_pc (svc_block k m fl s) \<noteq> AtExec" by (simp add: svc_block_def lt Let_def)
  show "u_pc (block_gates k m fl s) \<noteq> AtExec" by (simp add: block_gates_def lt Let_def)
  show bd: "u_pc (budget k m code s) \<noteq> AtExec" for s by (simp add: budget_def svc_fail_def Let_def split: sum.split)
  show "u_pc (after_exit k m code s) \<noteq> AtExec" by (simp add: after_exit_def svc_fail_def lt bd Let_def)
  show rp: "u_pc (reap code s) \<noteq> AtExec" for code by (simp add: reap_def sweep_then_drain_def)
  show "u_pc (wait_exit s) \<noteq> AtExec" by (simp add: wait_exit_def rp split: option.split)
qed

lemma pc_not_exec_live:
  "u_pc (became_ready s) \<noteq> AtExec" "u_pc (probe_loop m d s) \<noteq> AtExec" "u_pc (spawned k m pid rd s) \<noteq> AtExec"
  by (simp_all add: became_ready_def probe_loop_def spawned_def wait_ready_def Let_def pc_not_exec)

lemma rendered_when_exec: "svc_reach k s \<Longrightarrow> u_pc s = AtExec \<Longrightarrow> u_rendered s \<noteq> None"
proof (induction rule: svc_reach.induct)
  case init
  then show ?case by (simp add: Service_def)
next
  case (step s m ev s')
  show ?case
  proof (cases "\<exists>e. ev = Run e")
    case True
    then obtain e where "run_step k m e s = Some s'" using step by (auto simp: svc_step_def)
    with step.prems show ?thesis
      by (cases "u_pc s"; cases e)
         (auto simp: run_step_def goto_def pc_not_exec pc_not_exec_live split: option.splits if_splits)
  next
    case False
    then have "u_rendered s' = u_rendered s" "u_pc s' = u_pc s"
      using step.hyps(2) same_budget_others(2) [OF step.hyps(2)]
      by (auto simp: svc_step_def watch_step_def svc_stop_def svc_restart_def killer_ends_def process_exits_def emit_def
          set_state_def terminate_group_def Let_def split: event.splits watch_event.splits killer.splits if_splits)
    with step show ?thesis by simp
  qed
qed

definition waits_for_process :: "service \<Rightarrow> bool" where
  "waits_for_process s \<longleftrightarrow> u_pc s = AtWaitExit \<and> proc_alive s"

lemma run_progress:
  assumes "svc_reach k s" "u_pc s \<noteq> Done" "u_pc s \<noteq> Dead" "\<not> waits_for_process s"
  shows "\<exists>ev s'. ev \<noteq> Raised \<and> run_step k m ev s = Some s'"
proof -
  have "exit_of (current s) s \<noteq> None" if pc: "u_pc s = AtWaitExit"
    using svc_inv_reach [OF assms(1)] assms(4) pc
    by (auto simp: svc_inv_def idle_pc_def waits_for_process_def proc_alive_def alive_def exit_of_def current_def)
  moreover have "u_rendered s \<noteq> None" if "u_pc s = AtExec" using rendered_when_exec assms(1) that by blast
  ultimately have "\<exists>ev \<in> {Resume, Gates [], Rendering None, Execed None, Probed True}. run_step k m ev s \<noteq> None"
    using assms(2,3) by (cases "u_pc s") (auto simp: run_step_def)
  then obtain ev where "ev \<in> {Resume, Gates [], Rendering None, Execed None, Probed True}" "run_step k m ev s \<noteq> None" ..
  then show ?thesis by (intro exI [of _ ev] exI [of _ "the (run_step k m ev s)"]) auto
qed

section \<open>Properties\<close>

text \<open>
  C18: in every history at most one process of a service is alive, none once the run loop is done, and a
  process is spawned only after every earlier one has exited and been swept with SIGKILL since.
\<close>

theorem one_process_at_a_time:
  assumes "svc_reach k s"
  shows "(\<forall>i j. alive i s \<longrightarrow> alive j s \<longrightarrow> i = j) \<and>
    (u_pc s = Done \<longrightarrow> (\<forall>i. \<not> alive i s)) \<and>
    (\<forall>pre n post i. u_acts s = pre @ Spawn n # post \<longrightarrow> i < n \<longrightarrow>
       (\<exists>a b c code. pre = a @ Exited i code # b @ Sweep ''KILL'' # c))"
proof (intro conjI allI impI)
  have inv: "svc_inv s" using assms by (rule svc_inv_reach)
  then have log: "proc_log (u_procs s) (u_acts s)" by (simp add: svc_inv_def)
  have last: "i = current s \<and> proc_alive s" if i: "alive i s" for i
  proof -
    have "i < length (u_procs s)" "\<not> Suc i < length (u_procs s)"
      using i log by (auto simp: alive_def proc_log_def)
    then have "i = current s" "u_procs s \<noteq> []" by (auto simp: current_def)
    with i show ?thesis by (simp add: proc_alive_def)
  qed
  show "i = j" if "alive i s" "alive j s" for i j using last that by blast
  show "\<not> alive i s" if "u_pc s = Done" for i
    using inv last [of i] that by (auto simp: svc_inv_def idle_pc_def)
  show "\<exists>a b c code. pre = a @ Exited i code # b @ Sweep ''KILL'' # c"
    if "u_acts s = pre @ Spawn n # post" "i < n" for pre n post i
    using log that by (simp add: proc_log_def swept_def)
qed

text \<open>
  C19: a crash is charged against exactly the crashes charged since the service was last blocked that lie
  within the window. More than \<open>max_restarts\<close> of them fail the instance; otherwise the service backs
  off, doubling from the initial delay up to the maximum. No other step fails it for its budget.
\<close>

theorem restart_budget_exact:
  fixes k m h
  defines "n \<equiv> length (recent (window_of k) (m_now m) (h @ [m_now m]))"
  assumes "svc_history k t h s" and "t \<le> m_now m" and "float_lt (Fin 0) (window_of k)"
    and "svc_step k m ev s = Some s'"
  shows "(u_restarts s' = u_restarts s \<and> filter exhausted (u_acts s') = filter exhausted (u_acts s)) \<or>
    (u_restarts s' = u_restarts s + 1 \<and>
     (if rs_max (sv_restart (k_cfg k)) < int n
      then u_state s' = ''failed'' \<and> u_pc s' = Done \<and> (\<exists>code. last (u_acts s') = Failed (OverBudget (int n) code))
      else (case backoff_delay (sv_restart (k_cfg k)) n of
              Inr d \<Rightarrow> u_state s' = ''backoff'' \<and> u_pc s' = AtBackoff d
            | Inl e \<Rightarrow> u_pc s' = Dead)))"
proof (cases "\<exists>e. ev = Run e")
  case False
  then show ?thesis using same_budget_others(1) [OF assms(5)] by (auto simp: same_budget_def)
next
  case True
  then obtain e where rs: "run_step k m e s = Some s'" using assms(5) by (auto simp: svc_step_def)
  then have fin: "u_pc s \<noteq> Done" "u_pc s \<noteq> Dead" by (auto simp: run_step_def split: run_event.splits)
  have inv: "budget_inv k t h s" using assms(2,4) by (rule budget_inv_history)
  from run_step_budget [OF rs] consider "same_budget s s'"
    | fl where "s' = svc_block k m fl s"
    | code s0 where "s' = budget k m code s0" "same_budget s s0"
    by (auto simp: charges_def)
  then show ?thesis
  proof cases
    case 1
    then show ?thesis by (simp add: same_budget_def)
  next
    case 2
    then show ?thesis by (simp add: svc_block_budget)
  next
    case 3
    have "h \<noteq> [] \<longrightarrow> last h \<le> m_now m" using inv assms(3) by (auto simp: budget_inv_def)
    then have "recent (window_of k) (m_now m) (u_fail_times s) = recent (window_of k) (m_now m) h"
      using inv fin by (cases "h = []") (simp_all add: budget_inv_def recent_recent)
    then have n: "n = length (recent (window_of k) (m_now m) (u_fail_times s0) @ [m_now m])"
      using 3(2) assms(4) by (simp add: n_def recent_snoc same_budget_def)
    have "u_restarts s' = u_restarts s + 1" using 3 by (simp add: budget_outcome same_budget_def)
    then show ?thesis
      using budget_outcome(3,4,5) [where k = k and m = m and s = s0 and code = code, unfolded over_budget_def, folded n] 3(1)
      by (auto split: sum.split)
  qed
qed

text \<open>
  C20: once a stop is requested, whatever else happens the run loop resumes at most nine more times, and
  until it is done it is never stuck, except while it waits for a process that is still alive.
\<close>

theorem stop_ends_the_run:
  assumes "svc_reach k s" and "u_stop s" and "svc_exec k es s = Some s'"
  shows "length (filter is_run es) \<le> 9 \<and>
    (u_pc s' = Done \<or> u_pc s' = Dead \<or> waits_for_process s' \<or> (\<exists>ev s''. ev \<noteq> Raised \<and> run_step k m ev s' = Some s''))"
proof -
  have "rank s \<le> 9" by (simp add: rank.simps split: pc.split)
  then show ?thesis
    using run_steps_bounded [OF assms(2,3)] run_progress [OF svc_exec_reach [OF assms(1,3)]] by fastforce
qed

section \<open>A concrete service\<close>

definition demo_service :: service_config where
  "demo_service = \<lparr>sv_cmd = [''run''], sv_cwd = None, sv_env = [], sv_after = [], sv_requires = [''vpn''],
     sv_ready = \<lparr>rd_http = None, rd_tcp = None, rd_uds = None, rd_path = None, rd_timeout = Fin 30, rd_interval = Fin (1/4)\<rparr>,
     sv_restart = \<lparr>rs_max = 1, rs_window = Fin 60, rs_backoff_initial = Fin (1/2), rs_backoff_max = Fin 15, rs_no_restart_exit = [2]\<rparr>,
     sv_stop = \<lparr>st_signal = ''TERM'', st_grace = Fin 10\<rparr>, sv_watch = []\<rparr>"

definition demo_conf :: svc_conf where
  "demo_conf = \<lparr>k_cfg = demo_service, k_deps = [], k_requires = [''vpn''], k_continuous = [''vpn'']\<rparr>"

definition demo_rendered :: rendered_service where
  "demo_rendered = \<lparr>re_cmd = [''run''], re_cwd = None, re_env = [], re_http = None, re_tcp = None, re_uds = None,
     re_path = None, re_watch = []\<rparr>"

definition moment_at :: "rat \<Rightarrow> moment" where
  "moment_at t = \<lparr>m_now = t, m_log_opens = True\<rparr>"

definition demo_spawn :: "rat \<Rightarrow> int \<Rightarrow> (moment \<times> event) list" where
  "demo_spawn t pid = map (Pair (moment_at t)) [Run (Gates []), Run (Rendering (Some demo_rendered)), Run (Execed (Some pid))]"

definition demo_exit :: "rat \<Rightarrow> nat \<Rightarrow> int \<Rightarrow> (moment \<times> event) list" where
  "demo_exit t i code = map (Pair (moment_at t)) [ProcessExits i code, Run Resume, Run Resume, Run Resume]"

text \<open>A history run from its events.\<close>

fun track :: "svc_conf \<Rightarrow> (moment \<times> event) list \<Rightarrow> rat \<Rightarrow> rat list \<Rightarrow> service \<Rightarrow> (rat \<times> rat list \<times> service) option" where
  "track k [] t h s = Some (t, h, s)"
| "track k ((m, ev) # es) t h s =
     (case svc_step k m ev s of
        None \<Rightarrow> None
      | Some s' \<Rightarrow> if t \<le> m_now m then track k es (m_now m) (charge h m s s') s' else None)"

lemma track_history:
  "svc_history k t h s \<Longrightarrow> track k es t h s = Some (t', h', s') \<Longrightarrow> svc_history k t' h' s'"
proof (induction k es t h s rule: track.induct)
  case (2 k m ev es t h s)
  then show ?case by (auto split: option.splits if_splits intro: svc_history.move)
qed simp

text \<open>Two crashes, the second before the first is forgotten.\<close>

definition demo_crashes :: "(moment \<times> event) list" where
  "demo_crashes = (moment_at 1, Run Resume) # demo_spawn 1 100 @ demo_exit 2 0 1 @
     [(moment_at 2, Run (Gates [])), (moment_at 3, Run Resume)] @ demo_spawn 3 101 @ demo_exit 4 1 1"

definition demo_history :: "rat \<times> rat list \<times> service" where
  "demo_history = the (track demo_conf demo_crashes 0 [] Service)"

abbreviation demo_state :: service where
  "demo_state \<equiv> snd (snd demo_history)"

lemma demo_history_ok: "svc_history demo_conf (fst demo_history) (fst (snd demo_history)) demo_state"
proof -
  have "track demo_conf demo_crashes 0 [] Service \<noteq> None" by code_simp
  then obtain t h s where "track demo_conf demo_crashes 0 [] Service = Some (t, h, s)" by auto
  then show ?thesis
    using track_history [OF svc_history.start] by (simp add: demo_history_def)
qed

theorem one_process_at_a_time_witness:
  "\<exists>a b c code. takeWhile (\<lambda>a. a \<noteq> Spawn 1) (u_acts demo_state) = a @ Exited 0 code # b @ Sweep ''KILL'' # c"
proof -
  have "svc_reach demo_conf demo_state" using demo_history_ok by (rule svc_history_reach)
  moreover have "u_acts demo_state = takeWhile (\<lambda>a. a \<noteq> Spawn 1) (u_acts demo_state) @ Spawn 1 # tl (dropWhile (\<lambda>a. a \<noteq> Spawn 1) (u_acts demo_state))" by code_simp
  ultimately show ?thesis using one_process_at_a_time [of demo_conf demo_state] by blast
qed

theorem restart_budget_exact_witness:
  "u_state (the (svc_step demo_conf (moment_at 4) (Run (Gates [])) demo_state)) = ''failed''"
proof -
  let ?s' = "the (svc_step demo_conf (moment_at 4) (Run (Gates [])) demo_state)"
  have ev: "svc_step demo_conf (moment_at 4) (Run (Gates [])) demo_state = Some ?s'"
    "fst demo_history \<le> m_now (moment_at 4)" "float_lt (Fin 0) (window_of demo_conf)"
    "u_restarts ?s' \<noteq> u_restarts demo_state"
    "rs_max (sv_restart (k_cfg demo_conf)) <
       int (length (recent (window_of demo_conf) (m_now (moment_at 4)) (fst (snd demo_history) @ [m_now (moment_at 4)])))"
    by code_simp+
  show ?thesis using restart_budget_exact [OF demo_history_ok ev(2,3,1)] ev(4,5) by auto
qed

text \<open>A stop that arrives while the service waits for its gates.\<close>

definition demo_late_stop :: "(moment \<times> event) list" where
  "demo_late_stop = (moment_at 1, Run Resume) # (moment_at 1, Stop) # demo_spawn 1 100"

definition demo_stopped :: service where
  "demo_stopped = the (svc_exec demo_conf demo_late_stop Service)"

theorem stop_ends_the_run_witness:
  "length (filter is_run (demo_spawn 1 100 @ demo_exit 2 0 0)) \<le> 9"
proof -
  let ?s = "the (svc_exec demo_conf [(moment_at 1, Run Resume), (moment_at 1, Stop)] Service)"
  let ?s' = "the (svc_exec demo_conf (demo_spawn 1 100 @ demo_exit 2 0 0) ?s)"
  have ev: "svc_exec demo_conf [(moment_at 1, Run Resume), (moment_at 1, Stop)] Service = Some ?s" "u_stop ?s"
    "svc_exec demo_conf (demo_spawn 1 100 @ demo_exit 2 0 0) ?s = Some ?s'"
    by code_simp+
  have "svc_reach demo_conf ?s" using svc_exec_reach [OF svc_reach.init ev(1)] .
  from stop_ends_the_run [OF this ev(2,3)] show ?thesis by blast
qed

text \<open>A restart and a closing gate that meet on the same process, then an exit that is not to be retried.\<close>

definition demo_double_stop :: "(moment \<times> event) list" where
  "demo_double_stop =
     ((moment_at 1, Run Resume) # demo_spawn 1 100) @
     map (Pair (moment_at 2)) [Watch GateWoke, Restart, Watch (GatePolled [''vpn''])] @ demo_exit 2 0 0 @
     demo_spawn 3 101 @ demo_exit 4 1 2"

text \<open>
  C36: two interleavings the policy does not mean. A stop that arrives while the service checks its gates
  returns at once, yet the run loop goes on to spawn a process, which nothing signals and which the run
  loop then waits for. And when a restart and a closing gate stop the same process, the mark of the
  restart stays behind: the next process may exit with a code that is not to be retried, and the service
  is neither failed nor charged for it.
\<close>

theorem service_interleavings:
  "u_stop demo_stopped \<and> u_killers demo_stopped = [] \<and> waits_for_process demo_stopped \<and>
     (\<exists>a b. u_acts demo_stopped = a @ Spawn 0 # b \<and> list_all (\<lambda>x. \<forall>sg. x \<noteq> Sweep sg) b) \<and>
   (\<exists>s. svc_exec demo_conf demo_double_stop Service = Some s \<and> Exited 1 2 \<in> set (u_acts s) \<and>
     2 \<in> set (rs_no_restart_exit (sv_restart (k_cfg demo_conf))) \<and>
     u_pc s = AtGates \<and> u_last_exit s = None \<and> u_restarts s = 0 \<and> (\<forall>f. Failed f \<notin> set (u_acts s)))"
proof -
  have "u_acts demo_stopped =
      takeWhile (\<lambda>a. a \<noteq> Spawn 0) (u_acts demo_stopped) @ Spawn 0 # [Notify ''starting'', Notify ''running'']" by code_simp
  then have "\<exists>a b. u_acts demo_stopped = a @ Spawn 0 # b \<and> list_all (\<lambda>x. \<forall>sg. x \<noteq> Sweep sg) b" by fastforce
  moreover have "u_stop demo_stopped" "u_killers demo_stopped = []" "waits_for_process demo_stopped" by code_simp+
  moreover have "\<exists>s. svc_exec demo_conf demo_double_stop Service = Some s \<and> Exited 1 2 \<in> set (u_acts s) \<and>
     2 \<in> set (rs_no_restart_exit (sv_restart (k_cfg demo_conf))) \<and>
     u_pc s = AtGates \<and> u_last_exit s = None \<and> u_restarts s = 0 \<and> (\<forall>f. Failed f \<notin> set (u_acts s))"
  proof -
    let ?s = "the (svc_exec demo_conf demo_double_stop Service)"
    have "svc_exec demo_conf demo_double_stop Service = Some ?s" "Exited 1 2 \<in> set (u_acts ?s)"
      "2 \<in> set (rs_no_restart_exit (sv_restart (k_cfg demo_conf)))"
      "u_pc ?s = AtGates" "u_last_exit ?s = None" "u_restarts ?s = 0" by code_simp+
    moreover have "list_all (\<lambda>a. case a of Failed _ \<Rightarrow> False | _ \<Rightarrow> True) (u_acts ?s)" by code_simp
    then have "\<forall>f. Failed f \<notin> set (u_acts ?s)" by (fastforce simp: list_all_iff)
    ultimately show ?thesis by blast
  qed
  ultimately show ?thesis by blast
qed

end
