(* ===== verification/Orc_Ports.thy ===== *)
theory Orc_Ports
  imports Orc_Validate
begin

text \<open>
  \<^verbatim>\<open>src/jetty/orchestrator/ports.py\<close>: the port broker. The kernel's sockets are a parameter: how a bind of
  a listening socket ends (with port 0 the kernel picks the port) and what closing one does. What the
  broker relies on is stated as \<open>kernel_ok\<close>: a bind succeeds only for an address this process does not
  already hold. A socket is its family and port. Creating a socket is assumed to succeed.
\<close>

section \<open>Definitions\<close>

datatype family = INET | INET6

type_synonym sock = "family \<times> int"

record 'os kernel =
  kn_bind :: "family \<Rightarrow> int \<Rightarrow> 'os \<Rightarrow> int option \<times> 'os"
  kn_close :: "sock \<Rightarrow> 'os \<Rightarrow> 'os"

datatype port_exn =
  NoLoopback
| NoAutoPort string
| BothFixed string string int
| PortInUse string int
| NoFreePort string int int
| PortPy py_exn

definition AUTO_ATTEMPTS :: nat where
  "AUTO_ATTEMPTS = 64"

text \<open>\<open>_loopbacks\<close>: the families that can be bound on this host, IPv4 first.\<close>

definition loopbacks_of :: "(family \<Rightarrow> bool) \<Rightarrow> family list" where
  "loopbacks_of can = filter can [INET, INET6]"

definition close_all :: "'os kernel \<Rightarrow> sock list \<Rightarrow> 'os \<Rightarrow> 'os" where
  "close_all kn socks os = fold (kn_close kn) socks os"

fun try_bind :: "'os kernel \<Rightarrow> int \<Rightarrow> family list \<Rightarrow> sock list \<Rightarrow> 'os \<Rightarrow> sock list option \<times> 'os" where
  "try_bind kn port [] held os = (Some held, os)"
| "try_bind kn port (f # fs) held os =
     (case kn_bind kn f port os of
        (None, os1) \<Rightarrow> (None, close_all kn held os1)
      | (Some q, os1) \<Rightarrow> try_bind kn port fs (held @ [(f, q)]) os1)"

fun bind_auto :: "'os kernel \<Rightarrow> string \<Rightarrow> family \<Rightarrow> family list \<Rightarrow> nat \<Rightarrow> sock list \<Rightarrow> 'os \<Rightarrow>
    (port_exn + int) \<times> sock list \<times> 'os" where
  "bind_auto kn name f fs 0 holds os = (Inl (NoAutoPort name), holds, os)"
| "bind_auto kn name f fs (Suc n) holds os =
     (case kn_bind kn f 0 os of
        (None, os1) \<Rightarrow> (Inl (NoAutoPort name), holds, os1)
      | (Some port, os1) \<Rightarrow>
          (case try_bind kn port fs [] os1 of
             (Some rest, os2) \<Rightarrow> (Inr port, (holds @ [(f, port)]) @ rest, os2)
           | (None, os2) \<Rightarrow> bind_auto kn name f fs n (holds @ [(f, port)]) os2))"

text \<open>The scan of \<open>range(low, high + 1)\<close>; \<open>None\<close> when every candidate is taken.\<close>

fun scan_range :: "'os kernel \<Rightarrow> family list \<Rightarrow> int list \<Rightarrow> sock list \<Rightarrow> 'os \<Rightarrow> int option \<times> sock list \<times> 'os" where
  "scan_range kn lbs [] holds os = (None, holds, os)"
| "scan_range kn lbs (c # cs) holds os =
     (case try_bind kn c lbs [] os of
        (Some socks, os1) \<Rightarrow> (Some c, holds @ socks, os1)
      | (None, os1) \<Rightarrow> scan_range kn lbs cs holds os1)"

record broker =
  br_allocated :: "(string, int) dict"
  br_holds :: "sock list"
  br_fixed :: "(int, string) dict"

definition allocate_one :: "'os kernel \<Rightarrow> family list \<Rightarrow> string \<times> pyval \<Rightarrow> broker \<times> 'os \<Rightarrow>
    (port_exn + unit) \<times> broker \<times> 'os" where
  "allocate_one kn lbs item s =
     (case item of (name, want) \<Rightarrow> case s of (b, os) \<Rightarrow>
        (case parse_port_spec want of
           Inl e \<Rightarrow> (Inl (PortPy e), b, os)
         | Inr None \<Rightarrow> (Inl (PortPy TypeError), b, os)
         | Inr (Some PortAuto) \<Rightarrow>
             (case bind_auto kn name (hd lbs) (tl lbs) AUTO_ATTEMPTS (br_holds b) os of
                (Inl e, holds, os1) \<Rightarrow> (Inl e, b\<lparr>br_holds := holds\<rparr>, os1)
              | (Inr port, holds, os1) \<Rightarrow>
                  (Inr (), b\<lparr>br_holds := holds, br_allocated := dict_set name port (br_allocated b)\<rparr>, os1))
         | Inr (Some (PortRange low high)) \<Rightarrow>
             (case (if low = high then dict_get (br_fixed b) low else None) of
                Some other \<Rightarrow> (Inl (BothFixed name other low), b, os)
              | None \<Rightarrow>
                  let b1 = (if low = high then b\<lparr>br_fixed := dict_set low name (br_fixed b)\<rparr> else b)
                  in (case scan_range kn lbs [low..high] (br_holds b1) os of
                        (Some port, holds, os1) \<Rightarrow>
                          (Inr (), b1\<lparr>br_holds := holds, br_allocated := dict_set name port (br_allocated b1)\<rparr>, os1)
                      | (None, holds, os1) \<Rightarrow>
                          (Inl (if low = high then PortInUse name low else NoFreePort name low high),
                           b1\<lparr>br_holds := holds\<rparr>, os1)))))"

fun allocate_loop :: "'os kernel \<Rightarrow> family list \<Rightarrow> (string, pyval) dict \<Rightarrow> broker \<times> 'os \<Rightarrow>
    (port_exn + unit) \<times> broker \<times> 'os" where
  "allocate_loop kn lbs [] s = (Inr (), s)"
| "allocate_loop kn lbs (item # items) s =
     (case allocate_one kn lbs item s of
        (Inl e, s1) \<Rightarrow> (Inl e, s1)
      | (Inr _, s1) \<Rightarrow> allocate_loop kn lbs items s1)"

text \<open>The sockets of the batch are closed however it ends.\<close>

definition allocate_ports :: "'os kernel \<Rightarrow> (family \<Rightarrow> bool) \<Rightarrow> (string, pyval) dict \<Rightarrow> 'os \<Rightarrow>
    (port_exn + (string, int) dict) \<times> 'os" where
  "allocate_ports kn can spec os =
     (if loopbacks_of can = [] then (Inl NoLoopback, os)
      else case allocate_loop kn (loopbacks_of can) spec (\<lparr>br_allocated = [], br_holds = [], br_fixed = []\<rparr>, os) of
             (r, b, os1) \<Rightarrow> (rbind r (\<lambda>_. Inr (br_allocated b)), close_all kn (br_holds b) os1))"

section \<open>What the broker relies on\<close>

definition kernel_ok :: "'os kernel \<Rightarrow> ('os \<Rightarrow> sock set) \<Rightarrow> bool" where
  "kernel_ok kn held \<longleftrightarrow>
     (\<forall>f p os q os'. kn_bind kn f p os = (Some q, os') \<longrightarrow>
        (f, q) \<notin> held os \<and> held os' = insert (f, q) (held os) \<and> (p \<noteq> 0 \<longrightarrow> q = p) \<and> 1 \<le> q \<and> q \<le> 65535) \<and>
     (\<forall>f p os os'. kn_bind kn f p os = (None, os') \<longrightarrow> held os' = held os) \<and>
     (\<forall>s os. held (kn_close kn s os) = held os - {s})"

lemma kernel_bound:
  assumes "kernel_ok kn held" "kn_bind kn f p os = (Some q, os')"
  shows "(f, q) \<notin> held os" "held os' = insert (f, q) (held os)" "p \<noteq> 0 \<Longrightarrow> q = p" "1 \<le> q" "q \<le> 65535"
  using assms by (auto simp: kernel_ok_def)

lemma kernel_refused: "kernel_ok kn held \<Longrightarrow> kn_bind kn f p os = (None, os') \<Longrightarrow> held os' = held os"
  by (auto simp: kernel_ok_def)

lemma held_close_all: "kernel_ok kn held \<Longrightarrow> held (close_all kn socks os) = held os - set socks"
  by (induction socks arbitrary: os) (auto simp: close_all_def kernel_ok_def)

section \<open>The sockets of a batch\<close>

text \<open>\<open>owns held base holds os\<close>: beyond what was held before the batch, exactly \<open>holds\<close> is held.\<close>

definition owns :: "('os \<Rightarrow> sock set) \<Rightarrow> sock set \<Rightarrow> sock list \<Rightarrow> 'os \<Rightarrow> bool" where
  "owns held base holds os \<longleftrightarrow> held os = base \<union> set holds \<and> base \<inter> set holds = {}"

lemma owns_bound:
  assumes "kernel_ok kn held" "owns held base holds os" "kn_bind kn f p os = (Some q, os')"
  shows "owns held base (holds @ [(f, q)]) os'" "(f, q) \<notin> set holds"
  using kernel_bound [OF assms(1,3)] assms(2) by (auto simp: owns_def)

lemma owns_refused:
  "kernel_ok kn held \<Longrightarrow> owns held base holds os \<Longrightarrow> kn_bind kn f p os = (None, os') \<Longrightarrow> owns held base holds os'"
  by (simp add: owns_def kernel_refused)

lemma owns_closed:
  assumes "kernel_ok kn held" "owns held base (holds @ socks) os" "set holds \<inter> set socks = {}"
  shows "owns held base holds (close_all kn socks os)"
  using assms by (auto simp: owns_def held_close_all)

lemma try_bind_owns:
  assumes "kernel_ok kn held" "owns held base (holds @ socks) os" "set holds \<inter> set socks = {}"
    and "try_bind kn port fs socks os = (r, os')" "port \<noteq> 0"
  shows "case r of
      Some all \<Rightarrow> all = socks @ map (\<lambda>f. (f, port)) fs \<and> owns held base (holds @ all) os' \<and>
        set holds \<inter> set all = {}
    | None \<Rightarrow> owns held base holds os'"
  using assms
proof (induction fs arbitrary: socks os)
  case Nil
  then show ?case by auto
next
  case (Cons f fs)
  obtain q os1 where b: "kn_bind kn f port os = (q, os1)" by fastforce
  show ?case
  proof (cases q)
    case None
    with b Cons have "owns held base (holds @ socks) os1" by (simp add: owns_refused)
    with Cons b None show ?thesis by (auto simp: owns_closed)
  next
    case (Some p)
    with b Cons.prems have p: "p = port" using kernel_bound(3) by fastforce
    have own: "owns held base ((holds @ socks) @ [(f, port)]) os1" "(f, port) \<notin> set (holds @ socks)"
      using owns_bound [OF Cons.prems(1,2)] b Some p by auto
    have "case r of
        Some all \<Rightarrow> all = (socks @ [(f, port)]) @ map (\<lambda>f. (f, port)) fs \<and> owns held base (holds @ all) os' \<and>
          set holds \<inter> set all = {}
      | None \<Rightarrow> owns held base holds os'"
      by (rule Cons.IH [of "socks @ [(f, port)]" os1]) (use Cons.prems b Some p own in auto)
    then show ?thesis by (auto split: option.splits)
  qed
qed

lemma bind_auto_owns:
  assumes "kernel_ok kn held" "owns held base holds os"
    and "bind_auto kn name f fs n holds os = (r, holds', os')"
  shows "owns held base holds' os' \<and> (\<exists>l. holds' = holds @ l) \<and>
    (\<forall>port. r = Inr port \<longrightarrow> 1 \<le> port \<and> port \<le> 65535 \<and> (f, port) \<notin> set holds \<and>
       (\<forall>g \<in> set (f # fs). (g, port) \<in> set holds'))"
  using assms(2,3)
proof (induction n arbitrary: holds os)
  case 0
  then show ?case by auto
next
  case (Suc n)
  obtain q os1 where b: "kn_bind kn f 0 os = (q, os1)" by fastforce
  show ?case
  proof (cases q)
    case None
    with b Suc assms(1) show ?thesis by (auto simp: owns_refused)
  next
    case (Some port)
    have own: "owns held base (holds @ [(f, port)]) os1" "(f, port) \<notin> set holds"
      using owns_bound [OF assms(1) Suc.prems(1)] b Some by auto
    have range: "1 \<le> port" "port \<le> 65535" using kernel_bound [OF assms(1)] b Some by auto
    obtain t os2 where t: "try_bind kn port fs [] os1 = (t, os2)" by fastforce
    note tb = try_bind_owns [of kn held base "holds @ [(f, port)]" "[]" os1 port fs t os2]
    show ?thesis
    proof (cases t)
      case None
      with tb t own(1) assms(1) range have "owns held base (holds @ [(f, port)]) os2" by auto
      with Suc.IH [OF this] Suc.prems(2) b Some t None show ?thesis by auto
    next
      case (Some rest)
      with tb t own(1) assms(1) range have "rest = map (\<lambda>f. (f, port)) fs" "owns held base ((holds @ [(f, port)]) @ rest) os2" by auto
      with Suc.prems(2) b \<open>q = Some port\<close> t Some own(2) range show ?thesis by auto
    qed
  qed
qed

lemma scan_range_owns:
  assumes "kernel_ok kn held" "owns held base holds os" "lbs \<noteq> []" "0 \<notin> set cs"
    and "scan_range kn lbs cs holds os = (r, holds', os')"
  shows "owns held base holds' os' \<and> (\<exists>l. holds' = holds @ l) \<and>
    (\<forall>port. r = Some port \<longrightarrow> port \<in> set cs \<and> (hd lbs, port) \<notin> set holds \<and> (\<forall>g \<in> set lbs. (g, port) \<in> set holds'))"
  using assms(2,4,5)
proof (induction cs arbitrary: os)
  case Nil
  then show ?case by auto
next
  case (Cons c cs)
  obtain t os1 where t: "try_bind kn c lbs [] os = (t, os1)" by fastforce
  note tb = try_bind_owns [of kn held base holds "[]" os c lbs t os1]
  show ?case
  proof (cases t)
    case None
    with tb t Cons.prems assms(1) have "owns held base holds os1" by auto
    with Cons.IH [OF this] Cons.prems t None show ?thesis by auto
  next
    case (Some socks)
    with tb t Cons.prems assms(1) have s: "socks = map (\<lambda>f. (f, c)) lbs" "owns held base (holds @ socks) os1" "set holds \<inter> set socks = {}"
      by auto
    have "(hd lbs, c) \<in> set socks" using s(1) assms(3) by simp
    with s(3) have "(hd lbs, c) \<notin> set holds" by blast
    with s Cons.prems t Some show ?thesis by auto
  qed
qed

section \<open>The batch\<close>

text \<open>A port the broker hands out fits its specification.\<close>

definition fits :: "pyval \<Rightarrow> int \<Rightarrow> bool" where
  "fits want port \<longleftrightarrow>
     (case parse_port_spec want of
        Inr (Some PortAuto) \<Rightarrow> 1 \<le> port \<and> port \<le> 65535
      | Inr (Some (PortRange low high)) \<Rightarrow> low \<le> port \<and> port \<le> high
      | _ \<Rightarrow> False)"

definition broker_inv :: "('os \<Rightarrow> sock set) \<Rightarrow> sock set \<Rightarrow> family list \<Rightarrow> (string, pyval) dict \<Rightarrow> broker \<times> 'os \<Rightarrow> bool" where
  "broker_inv held base lbs spec s \<longleftrightarrow>
     owns held base (br_holds (fst s)) (snd s) \<and>
     distinct (dict_values (br_allocated (fst s))) \<and>
     (\<forall>(n, p) \<in> set (br_allocated (fst s)). (\<forall>g \<in> set lbs. (g, p) \<in> set (br_holds (fst s))) \<and>
        (\<exists>want. (n, want) \<in> set spec \<and> fits want p))"

lemma allocate_one_inv:
  assumes ok: "kernel_ok kn held" and lbs: "lbs \<noteq> []" and inv: "broker_inv held base lbs spec s"
    and fresh: "name \<notin> set (dict_keys (br_allocated (fst s)))" and mem: "(name, want) \<in> set spec"
    and one: "allocate_one kn lbs (name, want) s = (r, s')"
  shows "owns held base (br_holds (fst s')) (snd s') \<and>
    (r = Inr () \<longrightarrow> broker_inv held base lbs spec s' \<and> dict_keys (br_allocated (fst s')) = dict_keys (br_allocated (fst s)) @ [name])"
proof -
  obtain b os where s: "s = (b, os)" by fastforce
  have own: "owns held base (br_holds b) os" using inv by (simp add: broker_inv_def s)
  have gets: "broker_inv held base lbs spec (b', os1) \<and> dict_keys (br_allocated b') = dict_keys (br_allocated b) @ [name]"
    if "owns held base (br_holds b') os1" "br_holds b' = br_holds b @ l" "br_allocated b' = dict_set name port (br_allocated b)"
      "(hd lbs, port) \<notin> set (br_holds b)" "\<forall>g \<in> set lbs. (g, port) \<in> set (br_holds b')" "fits want port" for b' os1 l port
  proof -
    have al: "br_allocated b' = br_allocated b @ [(name, port)]"
      using that(3) fresh by (simp add: s dict_set_fresh)
    have "port \<notin> set (dict_values (br_allocated b))"
    proof
      assume "port \<in> set (dict_values (br_allocated b))"
      then obtain n where "(n, port) \<in> set (br_allocated b)" by auto
      with inv lbs have "(hd lbs, port) \<in> set (br_holds b)" by (auto simp: broker_inv_def s)
      with that(4) show False by simp
    qed
    with al that inv mem show ?thesis by (auto simp: broker_inv_def s)
  qed
  show ?thesis
  proof (cases "parse_port_spec want")
    case (Inl e)
    with one own show ?thesis by (auto simp: allocate_one_def s)
  next
    case (Inr sp)
    show ?thesis
    proof (cases sp)
      case None
      with Inr one own show ?thesis by (auto simp: allocate_one_def s)
    next
      case (Some spec1)
      show ?thesis
      proof (cases spec1)
        case PortAuto
        obtain r1 holds os1 where ba: "bind_auto kn name (hd lbs) (tl lbs) AUTO_ATTEMPTS (br_holds b) os = (r1, holds, os1)"
          using prod_cases3 by blast
        have lb: "hd lbs # tl lbs = lbs" using lbs by simp
        from bind_auto_owns [OF ok own ba] obtain l where l: "owns held base holds os1" "holds = br_holds b @ l"
          "\<And>port. r1 = Inr port \<Longrightarrow> 1 \<le> port \<and> port \<le> 65535 \<and> (hd lbs, port) \<notin> set (br_holds b) \<and> (\<forall>g \<in> set lbs. (g, port) \<in> set holds)"
          unfolding lb by blast
        show ?thesis
        proof (cases r1)
          case (Inl e)
          with one Inr Some PortAuto ba l show ?thesis by (auto simp: allocate_one_def s)
        next
          case (Inr port)
          then have s': "s' = (b\<lparr>br_holds := holds, br_allocated := dict_set name port (br_allocated b)\<rparr>, os1)" "r = Inr ()"
            using one \<open>parse_port_spec want = Inr sp\<close> Some PortAuto ba by (auto simp: allocate_one_def s)
          have "fits want port" using \<open>parse_port_spec want = Inr sp\<close> Some PortAuto l(3) [OF Inr] by (simp add: fits_def)
          with gets [of "fst s'" os1 l port] l(1,2) l(3) [OF Inr] show ?thesis by (simp add: s' s)
        qed
      next
        case (PortRange low high)
        have pos: "0 \<notin> set [low..high]" using port_spec_bounds [of want low high] Inr Some PortRange by auto
        let ?b1 = "if low = high then b\<lparr>br_fixed := dict_set low name (br_fixed b)\<rparr> else b"
        obtain r1 holds os1 where sc: "scan_range kn lbs [low..high] (br_holds ?b1) os = (r1, holds, os1)"
          using prod_cases3 by blast
        have b1: "br_holds ?b1 = br_holds b" "br_allocated ?b1 = br_allocated b" by simp_all
        from scan_range_owns [OF ok own lbs pos] sc b1 obtain l where l: "owns held base holds os1" "holds = br_holds b @ l"
          "\<And>port. r1 = Some port \<Longrightarrow> port \<in> set [low..high] \<and> (hd lbs, port) \<notin> set (br_holds b) \<and> (\<forall>g \<in> set lbs. (g, port) \<in> set holds)"
          by metis
        show ?thesis
        proof (cases "if low = high then dict_get (br_fixed b) low else None")
          case (Some other)
          with one Inr \<open>sp = Some spec1\<close> PortRange own show ?thesis by (auto simp: allocate_one_def s)
        next
          case None
          note eqs = one Inr \<open>sp = Some spec1\<close> PortRange None sc
          show ?thesis
          proof (cases r1)
            case None
            with eqs l show ?thesis by (auto simp: allocate_one_def s Let_def split: if_splits)
          next
            case (Some port)
            then have s': "s' = (?b1\<lparr>br_holds := holds, br_allocated := dict_set name port (br_allocated ?b1)\<rparr>, os1)" "r = Inr ()"
              using eqs by (auto simp: allocate_one_def s Let_def)
            have "fits want port" using eqs l(3) [OF Some] by (auto simp: fits_def)
            with gets [of "fst s'" os1 l port] l(1,2) l(3) [OF Some] show ?thesis
              by (cases "low = high") (auto simp: s' s)
          qed
        qed
      qed
    qed
  qed
qed

lemma allocate_loop_inv:
  assumes "kernel_ok kn held" "lbs \<noteq> []" "broker_inv held base lbs spec s"
    and "distinct (dict_keys (br_allocated (fst s)) @ dict_keys items)" "set items \<subseteq> set spec"
    and "allocate_loop kn lbs items s = (r, s')"
  shows "owns held base (br_holds (fst s')) (snd s') \<and>
    (r = Inr () \<longrightarrow> broker_inv held base lbs spec s' \<and>
       dict_keys (br_allocated (fst s')) = dict_keys (br_allocated (fst s)) @ dict_keys items)"
  using assms(3-)
proof (induction items arbitrary: s)
  case Nil
  then show ?case by (auto simp: broker_inv_def)
next
  case (Cons item items)
  obtain name want where item: "item = (name, want)" by fastforce
  obtain r1 s1 where one: "allocate_one kn lbs (name, want) s = (r1, s1)" by (metis surj_pair)
  have "owns held base (br_holds (fst s1)) (snd s1) \<and>
    (r1 = Inr () \<longrightarrow> broker_inv held base lbs spec s1 \<and> dict_keys (br_allocated (fst s1)) = dict_keys (br_allocated (fst s)) @ [name])"
    by (rule allocate_one_inv [OF assms(1,2) Cons.prems(1) _ _ one]) (use Cons.prems item in auto)
  then show ?case
    using Cons.prems Cons.IH [of s1] one item by (cases r1) auto
qed

section \<open>Properties\<close>

text \<open>
  C29: the ports handed out for one instance are pairwise different, one for each name, each within its
  specification, and however the batch ends no probe socket stays open.
\<close>

theorem allocate_ports_distinct:
  assumes "kernel_ok kn held" and "distinct (dict_keys spec)" and "allocate_ports kn can spec os = (r, os')"
  shows "held os' = held os \<and>
    (\<forall>ports. r = Inr ports \<longrightarrow> dict_keys ports = dict_keys spec \<and> distinct (dict_values ports) \<and>
       (\<forall>n p. (n, p) \<in> set ports \<longrightarrow> (\<exists>want. (n, want) \<in> set spec \<and> fits want p)))"
proof (cases "loopbacks_of can = []")
  case True
  with assms(3) show ?thesis by (auto simp: allocate_ports_def)
next
  case False
  let ?s = "(\<lparr>br_allocated = [], br_holds = [], br_fixed = []\<rparr>, os)"
  obtain r1 b os1 where l: "allocate_loop kn (loopbacks_of can) spec ?s = (r1, b, os1)" using prod_cases3 by blast
  have "broker_inv held (held os) (loopbacks_of can) spec ?s" by (simp add: broker_inv_def owns_def)
  from allocate_loop_inv [OF assms(1) False this _ _ l] assms(2) have inv:
    "owns held (held os) (br_holds b) os1"
    "r1 = Inr () \<Longrightarrow> broker_inv held (held os) (loopbacks_of can) spec (b, os1) \<and> dict_keys (br_allocated b) = dict_keys spec"
    by auto
  have res: "r = rbind r1 (\<lambda>_. Inr (br_allocated b))" "os' = close_all kn (br_holds b) os1"
    using assms(3) l False by (auto simp: allocate_ports_def)
  have "held os' = held os" using inv(1) by (auto simp: res(2) held_close_all [OF assms(1)] owns_def)
  moreover have "dict_keys ports = dict_keys spec \<and> distinct (dict_values ports) \<and>
       (\<forall>n p. (n, p) \<in> set ports \<longrightarrow> (\<exists>want. (n, want) \<in> set spec \<and> fits want p))" if "r = Inr ports" for ports
    using that inv(2) by (cases r1) (auto simp: res(1) broker_inv_def)
  ultimately show ?thesis by blast
qed

text \<open>A kernel that keeps the ports others hold and the sockets this process has open.\<close>

definition toy_kernel :: "sock list \<Rightarrow> sock list kernel" where
  "toy_kernel taken =
     \<lparr>kn_bind = (\<lambda>f p os.
        let cands = (if p = 0 then [49152, 49153, 49154] else if 1 \<le> p \<and> p \<le> 65535 then [p] else [])
        in case find (\<lambda>q. (f, q) \<notin> set taken \<and> (f, q) \<notin> set os) cands of
             None \<Rightarrow> (None, os) | Some q \<Rightarrow> (Some q, (f, q) # os)),
      kn_close = (\<lambda>s os. removeAll s os)\<rparr>"

lemma toy_kernel_ok: "kernel_ok (toy_kernel taken) set"
  by (auto simp: kernel_ok_def toy_kernel_def Let_def find_Some_iff split: option.splits if_splits)

definition demo_ports :: "(string, pyval) dict" where
  "demo_ports = [(''api'', PStr ''8000-8003''), (''web'', PStr ''8000-8020''), (''aux'', PStr ''auto'')]"

theorem allocate_ports_distinct_witness:
  "allocate_ports (toy_kernel [(INET6, 8000)]) (\<lambda>_. True) demo_ports [] =
     (Inr [(''api'', 8001), (''web'', 8002), (''aux'', 49152)], []) \<and> distinct [8001, 8002, 49152 :: int]"
proof -
  let ?r = "allocate_ports (toy_kernel [(INET6, 8000)]) (\<lambda>_. True) demo_ports []"
  have "fst ?r = Inr [(''api'', 8001), (''web'', 8002), (''aux'', 49152)]" by code_simp
  then obtain os' where r: "?r = (Inr [(''api'', 8001), (''web'', 8002), (''aux'', 49152)], os')" by (metis prod.collapse)
  moreover have "distinct (dict_keys demo_ports)" by (simp add: demo_ports_def)
  ultimately show ?thesis using allocate_ports_distinct [OF toy_kernel_ok _ r] by auto
qed

end
