(* ===== verification/Orc_Resolve.thy ===== *)
theory Orc_Resolve
  imports Py_Float Orc_Config
begin

text \<open>
  \<^verbatim>\<open>src/jetty/orchestrator/resolvers.py\<close>: what a resolver script prints becomes the binaries of a
  release. The run of a script is an input (\<open>script_run\<close>: its exit code and its standard output as
  text), and so are the source files (\<open>source\<close>) and the hash of a path. The directory of local copies
  is a dictionary from file names to their text and modification time. Log lines are not modelled.
\<close>

section \<open>Reading the output\<close>

datatype resolve_exn =
  CannotRunScript string
| ScriptTimeout string
| ScriptFailed string int
| Unparseable string string
| UnknownName string string
| ReturnedTwice string string
| NotReturned string "string list"
| NotAbsolute string string string
| DoesNotExist string string string
| SourceGone string
| NotRegularFile string
| CopyFailed string
| InResolver string string resolve_exn
| ResolvePy py_exn

text \<open>\<open>str.splitlines\<close> on Latin-1; a carriage return followed by a newline is one break.\<close>

definition is_line_break :: "char \<Rightarrow> bool" where
  "is_line_break c \<longleftrightarrow>
     (let n = (of_char c :: nat) in (10 \<le> n \<and> n \<le> 13) \<or> (28 \<le> n \<and> n \<le> 30) \<or> n = 133)"

fun split_lines :: "bool \<Rightarrow> string \<Rightarrow> string \<Rightarrow> string list" where
  "split_lines after_cr acc [] = (if acc = [] then [] else [rev acc])"
| "split_lines after_cr acc (c # cs) =
     (if after_cr \<and> c = ch_newline then split_lines False [] cs
      else if is_line_break c then rev acc # split_lines (c = ch_return) [] cs
      else split_lines False (c # acc) cs)"

definition py_splitlines :: "string \<Rightarrow> string list" where
  "py_splitlines s = split_lines False [] s"

definition output_lines :: "string \<Rightarrow> string list" where
  "output_lines stdout =
     map py_strip (filter (\<lambda>l. py_strip l \<noteq> [] \<and> \<not> prefix ''#'' (py_lstrip l)) (py_splitlines stdout))"

fun parse_lines :: "string \<Rightarrow> string list \<Rightarrow> string list \<Rightarrow> (string, string) dict \<Rightarrow>
    resolve_exn + (string, string) dict" where
  "parse_lines name provides [] out = Inr out"
| "parse_lines name provides (line # ls) out =
     (case partition_ch (CHR ''='') line of (k, sep, v) \<Rightarrow>
        let key = py_strip k; value = py_strip v
        in if \<not> sep \<or> key = [] \<or> value = [] then Inl (Unparseable name line)
           else if key \<notin> set provides then Inl (UnknownName name key)
           else if dict_in key out then Inl (ReturnedTwice name key)
           else parse_lines name provides ls (dict_set key value out))"

definition parse_output :: "string \<Rightarrow> string list \<Rightarrow> string \<Rightarrow> resolve_exn + (string, string) dict" where
  "parse_output name provides stdout =
     (let ls = output_lines stdout
      in if length provides = 1 \<and> length ls = 1 \<and> CHR ''='' \<notin> set (hd ls) then Inr [(hd provides, hd ls)]
         else rbind (parse_lines name provides ls []) (\<lambda>out.
                let missing = filter (\<lambda>p. \<not> dict_in p out) provides
                in if missing \<noteq> [] then Inl (NotReturned name missing) else Inr out))"

section \<open>Local copies\<close>

record stored =
  sd_text :: string
  sd_mtime :: rat

type_synonym bin_store = "(string, stored) dict"

text \<open>
  A source as \<open>os.stat\<close> and a copy of it find it: missing; not a regular file; a regular file with its
  size, its time and its text; a regular file that cannot be read. The path of a copy is its name under
  the root directory.
\<close>

datatype source = Gone | NotRegular int int | Regular int int string | Unreadable int int

definition META_SUFFIX :: string where
  "META_SUFFIX = ''.src''"

definition TMP_MAX_AGE :: rat where
  "TMP_MAX_AGE = 3600"

definition float_mult :: "pyfloat \<Rightarrow> rat \<Rightarrow> pyfloat" where
  "float_mult f q = (case f of Fin a \<Rightarrow> fl_make (a * q) | _ \<Rightarrow> f)"

definition stale :: "rat \<Rightarrow> pyfloat \<Rightarrow> string \<times> stored \<Rightarrow> bool" where
  "stale now keep_days e =
     (case e of (name, f) \<Rightarrow>
        let age = float_diff now (sd_mtime f)
        in if prefix ''.tmp-'' name then float_lt (Fin TMP_MAX_AGE) age
           else float_lt (float_mult keep_days 86400) age)"

definition prune :: "rat \<Rightarrow> pyfloat \<Rightarrow> bin_store \<Rightarrow> bin_store" where
  "prune now keep_days st = filter (\<lambda>e. \<not> stale now keep_days e) st"

definition touch_file :: "rat \<Rightarrow> string \<Rightarrow> bin_store \<Rightarrow> bin_store" where
  "touch_file now name st =
     (case dict_get st name of None \<Rightarrow> st | Some f \<Rightarrow> dict_set name (f\<lparr>sd_mtime := now\<rparr>) st)"

definition touch_pair :: "rat \<Rightarrow> string \<Rightarrow> bin_store \<Rightarrow> bin_store" where
  "touch_pair now dest st = touch_file now (dest @ META_SUFFIX) (touch_file now dest st)"

definition dest_name :: "(string \<Rightarrow> string) \<Rightarrow> string \<Rightarrow> string" where
  "dest_name hash src = file_basename src @ ''-'' @ hash src"

definition fingerprint_of :: "int \<Rightarrow> int \<Rightarrow> string" where
  "fingerprint_of sz mtime_ns = str_int sz @ '' '' @ str_int mtime_ns"

text \<open>The name of the copy and the fingerprint of its contents.\<close>

definition copy_fresh :: "rat \<Rightarrow> string \<Rightarrow> string \<Rightarrow> string \<Rightarrow> bin_store \<Rightarrow> bin_store" where
  "copy_fresh now dest fp text st =
     touch_pair now dest
       (dict_set (dest @ META_SUFFIX) \<lparr>sd_text = fp, sd_mtime = now\<rparr>
         (dict_set dest \<lparr>sd_text = text, sd_mtime = now\<rparr> st))"

definition cache_hit :: "string \<Rightarrow> string \<Rightarrow> bin_store \<Rightarrow> bool" where
  "cache_hit dest fp st \<longleftrightarrow>
     dict_in dest st \<and> map_option sd_text (dict_get st (dest @ META_SUFFIX)) = Some fp"

definition materialize :: "(string \<Rightarrow> string) \<Rightarrow> rat \<Rightarrow> pyfloat \<Rightarrow> string \<Rightarrow> source \<Rightarrow>
    (bin_store, resolve_exn, string \<times> string) opn" where
  "materialize hash now keep_days path src st =
     (let st1 = prune now keep_days st; dest = dest_name hash path
      in case src of
           Gone \<Rightarrow>
             if dict_in dest st1
             then let st2 = touch_pair now dest st1
                  in (Inr (dest, case dict_get st2 (dest @ META_SUFFIX) of Some f \<Rightarrow> sd_text f | None \<Rightarrow> ''unknown''), st2)
             else (Inl (SourceGone path), st1)
         | NotRegular _ _ \<Rightarrow> (Inl (NotRegularFile path), st1)
         | Regular sz mtime text \<Rightarrow>
             let fp = fingerprint_of sz mtime
             in (Inr (dest, fp), if cache_hit dest fp st1 then touch_pair now dest st1 else copy_fresh now dest fp text st1)
         | Unreadable sz mtime \<Rightarrow>
             let fp = fingerprint_of sz mtime
             in if cache_hit dest fp st1 then (Inr (dest, fp), touch_pair now dest st1)
                else (Inl (CopyFailed path), st1))"

section \<open>Running a resolver\<close>

datatype script_run = NoExec | TimedOut | Ended int string

fun check_absolute :: "string \<Rightarrow> (string, string) dict \<Rightarrow> resolve_exn + unit" where
  "check_absolute rname [] = Inr ()"
| "check_absolute rname ((b, p) # rest) =
     (if \<not> path_isabs p then Inl (NotAbsolute rname b p) else check_absolute rname rest)"

definition naming :: "string \<Rightarrow> string \<Rightarrow> ('s, resolve_exn, 'a) opn \<Rightarrow> ('s, resolve_exn, 'a) opn" where
  "naming rname b act st = (case act st of (Inl e, st1) \<Rightarrow> (Inl (InResolver rname b e), st1) | ok \<Rightarrow> ok)"

record copy_env =
  ce_hash :: "string \<Rightarrow> string"
  ce_root :: string
  ce_now :: rat
  ce_source :: "string \<Rightarrow> source"

fun copy_all :: "copy_env \<Rightarrow> string \<Rightarrow> pyfloat \<Rightarrow> (string, string) dict \<Rightarrow>
    (bin_store, resolve_exn, (string, string) dict \<times> (string, string) dict) opn" where
  "copy_all env rname keep [] = sret ([], [])"
| "copy_all env rname keep ((b, p) # rest) =
     sbind (naming rname b (materialize (ce_hash env) (ce_now env) keep p (ce_source env p))) (\<lambda>r.
     sbind (copy_all env rname keep rest) (\<lambda>more.
       sret ((b, ce_root env @ ''/'' @ fst r) # fst more, (b, snd r) # snd more)))"

definition stat_of :: "source \<Rightarrow> (int \<times> int) option" where
  "stat_of src = (case src of Gone \<Rightarrow> None | NotRegular sz t \<Rightarrow> Some (sz, t) | Regular sz t _ \<Rightarrow> Some (sz, t) | Unreadable sz t \<Rightarrow> Some (sz, t))"

fun stat_all :: "(string \<Rightarrow> source) \<Rightarrow> string \<Rightarrow> (string, string) dict \<Rightarrow> resolve_exn + (string, string) dict" where
  "stat_all src rname [] = Inr []"
| "stat_all src rname ((b, p) # rest) =
     (case stat_of (src p) of
        None \<Rightarrow> Inl (DoesNotExist rname b p)
      | Some (sz, t) \<Rightarrow> rbind (stat_all src rname rest) (\<lambda>fps. Inr ((b, fingerprint_of sz t) # fps)))"

text \<open>
  The binaries to use with their fingerprints, and the sources when copies replace them.
\<close>

record resolved =
  rv_binaries :: "(string, string) dict"
  rv_sources :: "(string, string) dict option"
  rv_fingerprints :: "(string, string) dict"

definition run_exec :: "copy_env \<Rightarrow> string \<Rightarrow> resolver_config \<Rightarrow> script_run \<Rightarrow> (bin_store, resolve_exn, resolved) opn" where
  "run_exec env rname cfg run =
     (case run of
        NoExec \<Rightarrow> sraise (CannotRunScript rname)
      | TimedOut \<Rightarrow> sraise (ScriptTimeout rname)
      | Ended code stdout \<Rightarrow>
          if code \<noteq> 0 then sraise (ScriptFailed rname code)
          else sbind (slift (parse_output rname (r_provides cfg) stdout)) (\<lambda>binaries.
               sbind (slift (check_absolute rname binaries)) (\<lambda>_.
                 if r_copy cfg
                 then sbind (copy_all env rname (r_keep_days cfg) binaries) (\<lambda>(local, fps).
                        sret \<lparr>rv_binaries = local, rv_sources = Some binaries, rv_fingerprints = fps\<rparr>)
                 else sbind (slift (stat_all (ce_source env) rname binaries)) (\<lambda>fps.
                        sret \<lparr>rv_binaries = binaries, rv_sources = None, rv_fingerprints = fps\<rparr>))))"

section \<open>The resolvers of an instance\<close>

record cached_release =
  cr_at :: rat
  cr_binaries :: "(string, string) dict"
  cr_fingerprints :: "(string, string) dict"

record release_state =
  rl_binaries :: "(string, string) dict"
  rl_resolved_at :: rat
  rl_copied_from :: "(string, string) dict option"

record resolvers =
  rz_configs :: "(string, resolver_config) dict"
  rz_by_bin :: "(string, string) dict"
  rz_cache :: "(string, cached_release) dict"
  rz_state :: "(string, release_state) dict"
  rz_generation :: "(string, int) dict"
  rz_store :: bin_store

text \<open>Equality of dictionaries: the same bindings in any order.\<close>

definition dict_eq :: "('k, 'v) dict \<Rightarrow> ('k, 'v) dict \<Rightarrow> bool" where
  "dict_eq d e \<longleftrightarrow> set d = set e"

definition by_bin :: "(string, resolver_config) dict \<Rightarrow> (string, string) dict" where
  "by_bin configs = foldl (\<lambda>d (b, r). dict_set b r d) []
     (concat (map (\<lambda>(r, cfg). map (\<lambda>b. (b, r)) (r_provides cfg)) configs))"

definition Resolvers :: "(string, resolver_config) dict \<Rightarrow> bin_store \<Rightarrow> resolvers" where
  "Resolvers configs store =
     \<lparr>rz_configs = configs, rz_by_bin = by_bin configs, rz_cache = [], rz_state = [], rz_generation = [], rz_store = store\<rparr>"

text \<open>A set of names is the sorted list of its elements.\<close>

definition resolver_names :: "resolvers \<Rightarrow> string list \<Rightarrow> py_exn + string list" where
  "resolver_names rs bins =
     rbind (rmap (\<lambda>b. case dict_get (rz_by_bin rs) b of None \<Rightarrow> Inl KeyError | Some r \<Rightarrow> Inr r) bins)
       (\<lambda>names. Inr (sort (remdups names)))"

definition generations_for :: "resolvers \<Rightarrow> string list \<Rightarrow> py_exn + (string, int) dict" where
  "generations_for rs bins =
     rbind (resolver_names rs bins) (\<lambda>names. Inr (map (\<lambda>r. (r, dict_get_or (rz_generation rs) r 0)) names))"

text \<open>What one call of \<open>_resolve\<close> meets: the clock, the run of the script if there is one, the clock after it.\<close>

record attempt =
  at_mono :: rat
  at_run :: script_run
  at_env :: copy_env
  at_mono_end :: rat
  at_wall :: rat

definition serves_release :: "resolver_config \<Rightarrow> cached_release option \<Rightarrow> rat \<Rightarrow> bool" where
  "serves_release cfg cached now =
     (case cached of
        None \<Rightarrow> False
      | Some c \<Rightarrow> r_refresh cfg = ''instance'' \<or> float_lt (float_diff now (cr_at c)) (r_cache cfg))"

definition record_release :: "string \<Rightarrow> attempt \<Rightarrow> resolved \<Rightarrow> resolvers \<Rightarrow> resolvers" where
  "record_release rname a new rs =
     (let cached = dict_get (rz_cache rs) rname;
          moved = (case cached of None \<Rightarrow> True
                   | Some c \<Rightarrow> \<not> (dict_eq (cr_binaries c) (rv_binaries new) \<and> dict_eq (cr_fingerprints c) (rv_fingerprints new)))
      in rs\<lparr>rz_generation := (if moved then dict_set rname (dict_get_or (rz_generation rs) rname 0 + 1) (rz_generation rs)
                             else rz_generation rs),
            rz_cache := dict_set rname \<lparr>cr_at = at_mono_end a, cr_binaries = rv_binaries new,
                                        cr_fingerprints = rv_fingerprints new\<rparr> (rz_cache rs),
            rz_state := dict_set rname \<lparr>rl_binaries = rv_binaries new, rl_resolved_at = at_wall a,
                                        rl_copied_from = rv_sources new\<rparr> (rz_state rs)\<rparr>)"

definition resolve_release :: "string \<Rightarrow> attempt \<Rightarrow> (resolvers, resolve_exn, (string, string) dict) opn" where
  "resolve_release rname a rs =
     (case dict_get (rz_configs rs) rname of
        None \<Rightarrow> (Inl (ResolvePy KeyError), rs)
      | Some cfg \<Rightarrow>
          if serves_release cfg (dict_get (rz_cache rs) rname) (at_mono a)
          then (Inr (cr_binaries (the (dict_get (rz_cache rs) rname))), rs)
          else (case run_exec (at_env a) rname cfg (at_run a) (rz_store rs) of
                  (Inl e, st) \<Rightarrow> (Inl e, rs\<lparr>rz_store := st\<rparr>)
                | (Inr new, st) \<Rightarrow> (Inr (rv_binaries new), record_release rname a new (rs\<lparr>rz_store := st\<rparr>))))"

fun resolve_each :: "(string \<times> attempt) list \<Rightarrow> (resolvers, resolve_exn, (string, string) dict) opn" where
  "resolve_each [] = sret []"
| "resolve_each ((r, a) # rest) =
     sbind (resolve_release r a) (\<lambda>binaries.
     sbind (resolve_each rest) (\<lambda>more. sret (map (\<lambda>(b, p). (''bin.'' @ b, p)) binaries @ more)))"

text \<open>The resolvers a spawn needs, in order, each with what its resolution meets.\<close>

definition context_for :: "string list \<Rightarrow> (string \<Rightarrow> attempt) \<Rightarrow> (resolvers, resolve_exn, (string, string) dict) opn" where
  "context_for bins attempts rs =
     (case resolver_names rs bins of
        Inl e \<Rightarrow> (Inl (ResolvePy e), rs)
      | Inr names \<Rightarrow>
          (case resolve_each (map (\<lambda>r. (r, attempts r)) names) rs of
             (Inl e, rs') \<Rightarrow> (Inl e, rs')
           | (Inr entries, rs') \<Rightarrow> (Inr (foldl (\<lambda>d (k, v). dict_set k v d) [] entries), rs')))"

section \<open>Generations\<close>

text \<open>What a release is: its bindings, whatever order they were printed in.\<close>

definition release_of :: "cached_release \<Rightarrow> (string \<times> string) set \<times> (string \<times> string) set" where
  "release_of c = (set (cr_binaries c), set (cr_fingerprints c))"

definition current_release :: "resolvers \<Rightarrow> string \<Rightarrow> ((string \<times> string) set \<times> (string \<times> string) set) option" where
  "current_release rs r = map_option release_of (dict_get (rz_cache rs) r)"

definition generation_of :: "resolvers \<Rightarrow> string \<Rightarrow> int" where
  "generation_of rs r = dict_get_or (rz_generation rs) r 0"

text \<open>
  A call leaves every other resolver alone; for its own it either changes nothing (a served, a failed or
  an unknown resolution) or records a release, and moves the generation exactly when that is a new one.
\<close>

lemma resolve_release_other:
  "q \<noteq> r \<Longrightarrow> current_release (snd (resolve_release r a rs)) q = current_release rs q \<and>
     generation_of (snd (resolve_release r a rs)) q = generation_of rs q"
  by (auto simp: resolve_release_def record_release_def current_release_def generation_of_def Let_def
      split: option.splits prod.splits sum.splits)

lemma resolve_release_own:
  obtains "current_release (snd (resolve_release r a rs)) r = current_release rs r"
      and "generation_of (snd (resolve_release r a rs)) r = generation_of rs r"
  | rel where "current_release (snd (resolve_release r a rs)) r = Some rel"
      and "current_release rs r \<noteq> Some rel"
      and "generation_of (snd (resolve_release r a rs)) r = generation_of rs r + 1"
proof -
  have "(current_release (snd (resolve_release r a rs)) r = current_release rs r \<and>
      generation_of (snd (resolve_release r a rs)) r = generation_of rs r) \<or>
    (\<exists>new st. resolve_release r a rs = (Inr (rv_binaries new), record_release r a new (rs\<lparr>rz_store := st\<rparr>)))"
    by (auto simp: resolve_release_def current_release_def generation_of_def split: option.splits prod.splits sum.splits)
  then consider "current_release (snd (resolve_release r a rs)) r = current_release rs r"
      "generation_of (snd (resolve_release r a rs)) r = generation_of rs r"
    | new st where "resolve_release r a rs = (Inr (rv_binaries new), record_release r a new (rs\<lparr>rz_store := st\<rparr>))"
    by blast
  then show ?thesis
  proof cases
    case 1
    then show ?thesis by (rule that(1))
  next
    case 2
    let ?rel = "(set (rv_binaries new), set (rv_fingerprints new))"
    have cur: "current_release (snd (resolve_release r a rs)) r = Some ?rel"
      by (simp add: 2 record_release_def current_release_def release_of_def Let_def)
    have gen: "generation_of (snd (resolve_release r a rs)) r =
        (if current_release rs r = Some ?rel then generation_of rs r else generation_of rs r + 1)"
      by (auto simp: 2 record_release_def current_release_def generation_of_def release_of_def dict_eq_def Let_def
          split: option.splits)
    show ?thesis
    proof (cases "current_release rs r = Some ?rel")
      case True
      with cur gen show ?thesis by (intro that(1)) simp_all
    next
      case False
      with cur gen show ?thesis by (intro that(2) [of ?rel]) simp_all
    qed
  qed
qed

lemma resolve_release_generation:
  "generation_of rs r \<le> generation_of (snd (resolve_release q a rs)) r \<and>
   (generation_of (snd (resolve_release q a rs)) r = generation_of rs r \<longleftrightarrow>
      current_release (snd (resolve_release q a rs)) r = current_release rs r)"
proof (cases "q = r")
  case False
  then show ?thesis using resolve_release_other [of r q a rs] by simp
next
  case True
  show ?thesis using resolve_release_own [of r a rs] by cases (simp_all add: True)
qed

definition resolve_calls :: "(string \<times> attempt) list \<Rightarrow> resolvers \<Rightarrow> resolvers" where
  "resolve_calls calls rs = foldl (\<lambda>rs (q, a). snd (resolve_release q a rs)) rs calls"

text \<open>
  C23: over any resolutions, of this resolver and of others, served from the cache, failed or run, the
  generation of a resolver never goes back, and it is unchanged exactly when the resolver's release
  (its binaries and their fingerprints, in whatever order they were printed) was the same all along.
\<close>

theorem generation_pins_release:
  "generation_of rs r \<le> generation_of (resolve_calls calls rs) r \<and>
   (generation_of (resolve_calls calls rs) r = generation_of rs r \<longleftrightarrow>
      (\<forall>i. current_release (resolve_calls (take i calls) rs) r = current_release rs r))"
proof (induction calls rule: rev_induct)
  case Nil
  then show ?case by (simp add: resolve_calls_def)
next
  case (snoc c calls)
  obtain q a where c: "c = (q, a)" by fastforce
  let ?rs = "resolve_calls calls rs"
  have last: "resolve_calls (calls @ [c]) rs = snd (resolve_release q a ?rs)" by (simp add: resolve_calls_def c)
  have all: "(\<forall>i. current_release (resolve_calls (take i (calls @ [c])) rs) r = current_release rs r) \<longleftrightarrow>
      (\<forall>i. current_release (resolve_calls (take i calls) rs) r = current_release rs r) \<and>
      current_release (resolve_calls (calls @ [c]) rs) r = current_release rs r" (is "?L \<longleftrightarrow> ?A \<and> ?B")
  proof
    assume L: ?L
    have ?A
    proof
      fix i
      show "current_release (resolve_calls (take i calls) rs) r = current_release rs r"
        using L [rule_format, of "min i (length calls)"] by (simp add: min_def split: if_splits)
    qed
    moreover have ?B using L [rule_format, of "length (calls @ [c])"] by simp
    ultimately show "?A \<and> ?B" ..
  next
    assume AB: "?A \<and> ?B"
    show ?L
    proof
      fix i
      have "take i (calls @ [c]) = take i calls \<or> take i (calls @ [c]) = calls @ [c]"
        by (cases "i \<le> length calls") auto
      with AB show "current_release (resolve_calls (take i (calls @ [c])) rs) r = current_release rs r" by metis
    qed
  qed
  have here: "current_release ?rs r = current_release rs r" if "\<forall>i. current_release (resolve_calls (take i calls) rs) r = current_release rs r"
    using that [rule_format, of "length calls"] by simp
  show ?case
    unfolding all using snoc.IH resolve_release_generation [of ?rs r q a] here by (auto simp: last)
qed

end
