(* ===== verification/Orc_Release.thy ===== *)
theory Orc_Release
  imports Orc_Resolve
begin

text \<open>
  Properties of \<^verbatim>\<open>src/jetty/orchestrator/resolvers.py\<close>: reading what a script prints, and the local
  copies that outlive their source.
\<close>

section \<open>Reading printed bindings\<close>

lemma split_lines_line:
  assumes "list_all (\<lambda>c. \<not> is_line_break c) p" and "p \<noteq> [] \<or> \<not> cr"
  shows "split_lines cr acc (p @ ch_newline # s) = (rev acc @ p) # split_lines False [] s"
  using assms
proof (induction p arbitrary: cr acc)
  case Nil
  then show ?case by (simp add: is_line_break_def)
next
  case (Cons c p)
  then have "c \<noteq> ch_newline" by (auto simp: is_line_break_def)
  with Cons show ?case by simp
qed

definition print_bindings :: "(string, string) dict \<Rightarrow> string" where
  "print_bindings d = concat (map (\<lambda>(k, v). k @ ''='' @ v @ [ch_newline]) d)"

text \<open>A word that survives a line: not empty, no white space at its ends, no line break.\<close>

definition solid :: "string \<Rightarrow> bool" where
  "solid s \<longleftrightarrow> s \<noteq> [] \<and> \<not> is_space (hd s) \<and> \<not> is_space (last s) \<and> list_all (\<lambda>c. \<not> is_line_break c) s"

definition printable :: "string \<times> string \<Rightarrow> bool" where
  "printable kv \<longleftrightarrow> solid (fst kv) \<and> solid (snd kv) \<and> CHR ''='' \<notin> set (fst kv) \<and> hd (fst kv) \<noteq> CHR ''#''"

lemma strip_ends:
  assumes "s \<noteq> []" "\<not> is_space (hd s)" "\<not> is_space (last s)"
  shows "py_lstrip s = s" "py_strip s = s"
proof -
  show l: "py_lstrip s = s" using assms by (cases s) (simp_all add: py_lstrip_def)
  have "dropWhile is_space (rev s) = rev s" using assms by (cases "rev s") (auto simp: last_rev hd_rev [symmetric])
  then show "py_strip s = s" by (simp add: py_strip_def l py_rstrip_def)
qed

lemma printable_line:
  assumes "printable (k, v)"
  shows "py_strip (k @ ''='' @ v) = k @ ''='' @ v" "py_lstrip (k @ ''='' @ v) = k @ ''='' @ v"
    "list_all (\<lambda>c. \<not> is_line_break c) (k @ ''='' @ v)" "\<not> prefix ''#'' (k @ ''='' @ v)"
    "partition_ch (CHR ''='') (k @ ''='' @ v) = (k, True, v)" "py_strip k = k" "py_strip v = v"
proof -
  have k: "k \<noteq> []" "\<not> is_space (hd k)" "\<not> is_space (last k)" "hd k \<noteq> CHR ''#''" "CHR ''='' \<notin> set k"
    and v: "v \<noteq> []" "\<not> is_space (hd v)" "\<not> is_space (last v)"
    using assms by (simp_all add: printable_def solid_def)
  show "py_strip (k @ ''='' @ v) = k @ ''='' @ v" "py_lstrip (k @ ''='' @ v) = k @ ''='' @ v"
    using strip_ends [of "k @ ''='' @ v"] k v by simp_all
  show "list_all (\<lambda>c. \<not> is_line_break c) (k @ ''='' @ v)"
    using assms by (auto simp: printable_def solid_def is_line_break_def)
  show "\<not> prefix ''#'' (k @ ''='' @ v)" using k by (cases k) auto
  have "takeWhile (\<lambda>x. x \<noteq> CHR ''='') (k @ ''='' @ v) = k" "dropWhile (\<lambda>x. x \<noteq> CHR ''='') (k @ ''='' @ v) = ''='' @ v"
    using k(5) by (subst takeWhile_append2 dropWhile_append2; auto)+
  then show "partition_ch (CHR ''='') (k @ ''='' @ v) = (k, True, v)" by (simp add: partition_ch_def)
  show "py_strip k = k" "py_strip v = v" using strip_ends k v by simp_all
qed

lemma output_lines_print:
  assumes "list_all printable d"
  shows "output_lines (print_bindings d) = map (\<lambda>(k, v). k @ ''='' @ v) d"
  using assms
proof (induction d)
  case Nil
  then show ?case by (simp add: output_lines_def print_bindings_def py_splitlines_def)
next
  case (Cons e d)
  obtain k v where e: "e = (k, v)" by fastforce
  note pl = printable_line [of k v]
  have p: "printable (k, v)" using Cons.prems e by simp
  have "py_splitlines (print_bindings (e # d)) = (k @ ''='' @ v) # py_splitlines (print_bindings d)"
    using split_lines_line [OF pl(3) [OF p], of False "[]" "print_bindings d"]
    by (simp add: py_splitlines_def print_bindings_def e)
  then show ?case using Cons pl [OF p] by (simp add: output_lines_def e)
qed

lemma parse_lines_print:
  assumes "list_all printable d" "distinct (dict_keys out @ dict_keys d)" "set (dict_keys d) \<subseteq> set provides"
  shows "parse_lines name provides (map (\<lambda>(k, v). k @ ''='' @ v) d) out = Inr (out @ d)"
  using assms
proof (induction d arbitrary: out)
  case Nil
  then show ?case by simp
next
  case (Cons e d)
  obtain k v where e: "e = (k, v)" by fastforce
  have p: "printable (k, v)" using Cons.prems e by simp
  then have ne: "k \<noteq> []" "v \<noteq> []" by (simp_all add: printable_def solid_def)
  have fresh: "k \<notin> set (dict_keys out)" using Cons.prems(2) e by auto
  then have set: "dict_set k v out = out @ [(k, v)]" and nin: "\<not> dict_in k out"
    by (simp_all only: dict_set_fresh dict_in_iff not_False_eq_True)
  show ?case
    using Cons.IH [of "out @ [(k, v)]"] Cons.prems printable_line [OF p] ne set nin by (simp add: e Let_def)
qed

lemma parse_lines_sound:
  assumes "parse_lines name provides ls out = Inr d" "distinct (dict_keys out)" "set (dict_keys out) \<subseteq> set provides"
    "list_all (\<lambda>v. v \<noteq> []) (dict_values out)"
  shows "distinct (dict_keys d) \<and> set (dict_keys d) \<subseteq> set provides \<and> list_all (\<lambda>v. v \<noteq> []) (dict_values d)"
  using assms
proof (induction name provides ls out rule: parse_lines.induct)
  case (1 name provides out)
  then show ?case by simp
next
  case (2 name provides line ls out)
  obtain k sep v where p: "partition_ch (CHR ''='') line = (k, sep, v)" using prod_cases3 by blast
  from "2.prems"(1) p have c: "sep" "py_strip k \<noteq> []" "py_strip v \<noteq> []" "py_strip k \<in> set provides" "\<not> dict_in (py_strip k) out"
    and rest: "parse_lines name provides ls (dict_set (py_strip k) (py_strip v) out) = Inr d"
    by (auto simp: Let_def split: if_splits)
  have fresh: "py_strip k \<notin> set (dict_keys out)" using c(5) by (simp only: dict_in_iff not_False_eq_True)
  note upd = dict_set_fresh [OF fresh, of "py_strip v"]
  show ?case
    using "2.IH" [OF p [symmetric] refl refl refl] c rest fresh "2.prems"(2-) upd by (simp add: dict_in_iff)
qed

text \<open>
  What a script prints as \<open>name=path\<close> lines, in whatever order, is read back as exactly those
  bindings; and whatever is accepted binds every provided name exactly once, to a path that is not empty.
\<close>

theorem parse_output_exact:
  "(list_all printable d \<and> distinct (dict_keys d) \<and> set (dict_keys d) = set provides \<longrightarrow>
      parse_output name provides (print_bindings d) = Inr d) \<and>
   (parse_output name provides stdout = Inr out \<longrightarrow>
      distinct (dict_keys out) \<and> set (dict_keys out) = set provides \<and> [] \<notin> set (dict_values out))"
proof (intro conjI impI)
  assume d: "list_all printable d \<and> distinct (dict_keys d) \<and> set (dict_keys d) = set provides"
  have ls: "output_lines (print_bindings d) = map (\<lambda>(k, v). k @ ''='' @ v) d" using d by (simp add: output_lines_print)
  have "\<not> (length provides = 1 \<and> length (output_lines (print_bindings d)) = 1 \<and> CHR ''='' \<notin> set (hd (output_lines (print_bindings d))))"
    unfolding ls by (cases d) (auto split: prod.splits)
  moreover have "parse_lines name provides (output_lines (print_bindings d)) [] = Inr d"
    unfolding ls using d by (subst parse_lines_print) auto
  moreover have "filter (\<lambda>p. \<not> dict_in p d) provides = []"
    using d by (auto simp: filter_empty_conv dict_in_iff simp del: set_map)
  ultimately show "parse_output name provides (print_bindings d) = Inr d" by (auto simp: parse_output_def Let_def)
next
  assume p: "parse_output name provides stdout = Inr out"
  have "distinct (dict_keys out) \<and> set (dict_keys out) = set provides \<and> [] \<notin> set (dict_values out)"
  proof (cases "length provides = 1 \<and> length (output_lines stdout) = 1 \<and> CHR ''='' \<notin> set (hd (output_lines stdout))")
    case True
    then have "out = [(hd provides, hd (output_lines stdout))]" using p by (simp add: parse_output_def)
    moreover have "hd (output_lines stdout) \<in> set (output_lines stdout)" using True by (intro hd_in_set) auto
    then have "hd (output_lines stdout) \<noteq> []" by (auto simp: output_lines_def)
    ultimately show ?thesis using True by (cases provides) auto
  next
    case False
    then have pl: "parse_lines name provides (output_lines stdout) [] = Inr out" "filter (\<lambda>p. \<not> dict_in p out) provides = []"
      using p by (auto simp: parse_output_def Let_def rbind_Inr_iff split: if_splits)
    from parse_lines_sound [OF pl(1)] have
      "distinct (dict_keys out)" "set (dict_keys out) \<subseteq> set provides" "list_all (\<lambda>v. v \<noteq> []) (dict_values out)" by simp_all
    moreover have "set provides \<subseteq> set (dict_keys out)"
      using pl(2) by (auto simp: filter_empty_conv dict_in_iff simp del: set_map)
    ultimately show ?thesis by (auto simp: list_all_iff)
  qed
  then show "distinct (dict_keys out)" "set (dict_keys out) = set provides" "[] \<notin> set (dict_values out)" by simp_all
qed

theorem parse_output_exact_witness:
  "parse_output ''rel'' [''api'', ''web''] (print_bindings [(''web'', ''/opt/web''), (''api'', ''/opt/api'')]) =
     Inr [(''web'', ''/opt/web''), (''api'', ''/opt/api'')]"
proof -
  let ?d = "[(''web'', ''/opt/web''), (''api'', ''/opt/api'')]"
  have "list_all printable ?d" by code_simp
  moreover have "distinct (dict_keys ?d)" "set (dict_keys ?d) = set [''api'', ''web'']" by auto
  ultimately show ?thesis using parse_output_exact [of ?d "[''api'', ''web'']" "''rel''"] by blast
qed

section \<open>Copies outlive their source\<close>

lemma dict_get_filter:
  assumes "distinct (dict_keys d)"
  shows "dict_get (filter P d) k = (case dict_get d k of Some v \<Rightarrow> if P (k, v) then Some v else None | None \<Rightarrow> None)"
  using assms
proof (induction d)
  case Nil
  then show ?case by simp
next
  case (Cons e d)
  obtain a b where e: "e = (a, b)" by fastforce
  show ?case
  proof (cases "a = k")
    case True
    with Cons.prems e have "dict_get (filter P d) k = None" by (auto simp: map_of_eq_None_iff)
    with True e show ?thesis by simp
  next
    case False
    with Cons e show ?thesis by simp
  qed
qed

lemma touch_pair_get:
  "dict_get (touch_pair now dest st) n =
     (if n = dest \<or> n = dest @ META_SUFFIX then map_option (\<lambda>f. f\<lparr>sd_mtime := now\<rparr>) (dict_get st n) else dict_get st n)"
  by (auto simp: touch_pair_def touch_file_def META_SUFFIX_def split: option.splits)

lemma touch_pair_keys: "distinct (dict_keys st) \<Longrightarrow> distinct (dict_keys (touch_pair now dest st))"
  by (auto simp: touch_pair_def touch_file_def distinct_dict_set split: option.splits)

text \<open>A fresh pair: the copy and its sidecar are there, used now.\<close>

definition held_copy :: "rat \<Rightarrow> string \<Rightarrow> string \<Rightarrow> string \<Rightarrow> bin_store \<Rightarrow> bool" where
  "held_copy now dest fp text st \<longleftrightarrow> distinct (dict_keys st) \<and>
     dict_get st dest = Some \<lparr>sd_text = text, sd_mtime = now\<rparr> \<and>
     dict_get st (dest @ META_SUFFIX) = Some \<lparr>sd_text = fp, sd_mtime = now\<rparr>"

lemma materialize_holds:
  assumes d: "distinct (dict_keys st)"
    and m: "materialize hash now keep path (Regular sz t text) st = (Inr (dest, fp), st1)"
  shows "dest = dest_name hash path \<and> fp = fingerprint_of sz t \<and>
    (\<exists>kept. held_copy now dest fp kept st1 \<and> (kept = text \<or> cache_hit dest fp (prune now keep st)))"
proof -
  let ?st = "prune now keep st"
  have dp: "distinct (dict_keys ?st)" using d by (simp add: prune_def distinct_map_filter)
  have r: "dest = dest_name hash path" "fp = fingerprint_of sz t"
    and st1: "st1 = (if cache_hit dest fp ?st then touch_pair now dest ?st else copy_fresh now dest fp text ?st)"
    using m by (auto simp: materialize_def Let_def)
  have ne: "dest \<noteq> dest @ META_SUFFIX" by (simp add: META_SUFFIX_def)
  show ?thesis
  proof (cases "cache_hit dest fp ?st")
    case True
    then obtain f g where "dict_get ?st dest = Some f" "dict_get ?st (dest @ META_SUFFIX) = Some g" "sd_text g = fp"
      by (auto simp: cache_hit_def dict_in_def)
    then have "held_copy now dest fp (sd_text f) st1"
      using dp True by (simp add: held_copy_def st1 touch_pair_get touch_pair_keys)
    with r True show ?thesis by blast
  next
    case False
    then have "held_copy now dest fp text st1"
      using dp ne by (auto simp: held_copy_def st1 copy_fresh_def touch_pair_get touch_pair_keys distinct_dict_set)
    with r show ?thesis by blast
  qed
qed


definition demo_hash :: "string \<Rightarrow> string" where
  "demo_hash p = ''0123456789abcdef''"


end
