(* ===== verification/Orc_Supervisor.thy ===== *)
theory Orc_Supervisor
  imports Orc_Service Orc_Validate Orc_Resolve
begin

text \<open>
  \<^verbatim>\<open>src/jetty/orchestrator/supervisor.py\<close>: what the supervisor decides for the services of an instance:
  the gates each one depends on, the order in which they are built and stopped, which of them are
  restarted when a release moves, and the state that is published. Signals, the registry file and the
  console are not modelled here.
\<close>

section \<open>Building the services\<close>

text \<open>A service's own gates, then those of every resolver it uses, each once.\<close>

definition add_new :: "string list \<Rightarrow> string list \<Rightarrow> string list" where
  "add_new xs new = foldl (\<lambda>acc g. if g \<in> set acc then acc else acc @ [g]) xs new"

definition service_requires :: "(string, resolver_config) dict \<Rightarrow> resolvers \<Rightarrow> service_config \<Rightarrow> py_exn + string list" where
  "service_requires configs rs svc =
     rbind (resolver_names rs (service_bin_refs svc)) (\<lambda>rnames.
     rbind (rmap (\<lambda>r. case dict_get configs r of None \<Rightarrow> Inl KeyError | Some cfg \<Rightarrow> Inr (r_requires cfg)) rnames)
       (\<lambda>gates. Inr (add_new (sv_requires svc) (concat gates))))"

definition svc_conf_of :: "orc_config \<Rightarrow> resolvers \<Rightarrow> gate_set \<Rightarrow> service_config \<Rightarrow> py_exn + svc_conf" where
  "svc_conf_of cfg rs gs svc =
     rbind (service_requires (oc_resolvers cfg) rs svc) (\<lambda>requires.
     rbind (fst (continuous requires gs)) (\<lambda>cont.
       Inr \<lparr>k_cfg = svc, k_deps = sv_after svc, k_requires = requires, k_continuous = cont\<rparr>))"

text \<open>
  The loop over the start order: a service is given the events of the services it follows, which must
  exist already.
\<close>

fun build_services :: "orc_config \<Rightarrow> resolvers \<Rightarrow> gate_set \<Rightarrow> string list \<Rightarrow> (string, svc_conf) dict \<Rightarrow>
    py_exn + (string, svc_conf) dict" where
  "build_services cfg rs gs [] built = Inr built"
| "build_services cfg rs gs (n # ns) built =
     (case dict_get (oc_services cfg) n of
        None \<Rightarrow> Inl KeyError
      | Some svc \<Rightarrow>
          rbind (svc_conf_of cfg rs gs svc) (\<lambda>k.
            if list_all (\<lambda>d. dict_in d built) (sv_after svc)
            then build_services cfg rs gs ns (dict_set n k built)
            else Inl KeyError))"

section \<open>Keeping pinned binaries together\<close>

definition pins_group :: "resolver_config \<Rightarrow> bool" where
  "pins_group r \<longleftrightarrow> r_refresh r = ''spawn'' \<and> 2 \<le> length (r_provides r)"

type_synonym spawn_gens = "(string, (string, int) dict) dict"

text \<open>The generations recorded for a spawn, and the services to restart for it.\<close>

definition bounced_by :: "(string, resolver_config) dict \<Rightarrow> string \<Rightarrow> spawn_gens \<Rightarrow> string \<times> int \<Rightarrow> string list" where
  "bounced_by configs sname sg rg =
     (case dict_get configs (fst rg) of
        None \<Rightarrow> []
      | Some r \<Rightarrow>
          if \<not> pins_group r then []
          else map fst (filter (\<lambda>(other, og). other \<noteq> sname \<and> dict_get_or og (fst rg) (snd rg) \<noteq> snd rg) sg))"

definition enforce_pinning :: "(string, resolver_config) dict \<Rightarrow> string \<Rightarrow> (string, int) dict \<Rightarrow> spawn_gens \<Rightarrow>
    spawn_gens \<times> string list" where
  "enforce_pinning configs sname gens sg =
     (let sg1 = dict_set sname gens sg in (sg1, concat (map (bounced_by configs sname sg1) gens)))"

section \<open>Stopping\<close>

definition dependents :: "(string, service_config) dict \<Rightarrow> string \<Rightarrow> string list" where
  "dependents services n = map fst (filter (\<lambda>(m, svc). n \<in> set (sv_after svc)) services)"

definition stop_wave :: "(string, service_config) dict \<Rightarrow> string list \<Rightarrow> string list \<Rightarrow> string list" where
  "stop_wave services remaining stopped =
     sort (filter (\<lambda>n. set (dependents services n) \<subseteq> set stopped) remaining)"

text \<open>
  The loop stops one wave after another while services remain; it makes no progress, and never ends, on
  an empty wave, which is running out of fuel here.
\<close>

fun stop_waves :: "nat \<Rightarrow> (string, service_config) dict \<Rightarrow> string list \<Rightarrow> string list \<Rightarrow> string list list option" where
  "stop_waves fuel services remaining stopped =
     (if remaining = [] then Some []
      else case fuel of
             0 \<Rightarrow> None
           | Suc n \<Rightarrow>
               let w = stop_wave services remaining stopped
               in map_option (Cons w) (stop_waves n services (filter (\<lambda>x. x \<notin> set w) remaining) (stopped @ w)))"

declare stop_waves.simps [simp del]

definition stop_all :: "(string, service_config) dict \<Rightarrow> string list list option" where
  "stop_all services = stop_waves (length services) services (dict_keys services) []"

section \<open>What is published\<close>

definition service_extra_env :: "string \<Rightarrow> string \<Rightarrow> string option \<Rightarrow> (string, string) dict" where
  "service_extra_env inst kind cgroot =
     (''JETTY_ORC_INSTANCE'', inst) #
     (case cgroot of Some (c # cs) \<Rightarrow> if kind = ''cgroup'' then [(''JETTY_ORC_CGROUP_ROOT'', c # cs)] else [] | _ \<Rightarrow> [])"

definition record_state :: "string \<Rightarrow> string option \<Rightarrow> string" where
  "record_state st failure =
     (if st = ''failed'' then
        (case failure of Some (c # cs) \<Rightarrow> ''failed: '' @ hd (py_splitlines (c # cs) @ [[]]) | _ \<Rightarrow> st)
      else if st = ''starting'' then ''running''
      else st)"

section \<open>The order of a shutdown\<close>

lemma dependents_iff: "m \<in> set (dependents services n) \<longleftrightarrow> (n, m) \<in> after_graph services"
  by (auto simp: dependents_def after_graph_def image_iff)

lemma set_stop_wave:
  "n \<in> set (stop_wave services remaining stopped) \<longleftrightarrow>
     n \<in> set remaining \<and> (\<forall>m. (n, m) \<in> after_graph services \<longrightarrow> m \<in> set stopped)"
  by (auto simp: stop_wave_def dependents_iff [symmetric])

lemma stop_wave_progress:
  assumes "acyclic (after_graph services)" "finite (after_graph services)" "remaining \<noteq> []"
    and "\<And>n m. (n, m) \<in> after_graph services \<Longrightarrow> m \<in> set remaining \<union> set stopped"
  shows "stop_wave services remaining stopped \<noteq> []"
proof -
  have "wf ((after_graph services)\<inverse>)" using assms(1,2) by (intro finite_acyclic_wf_converse)
  moreover from assms(3) obtain x where "x \<in> set remaining" by (cases remaining) auto
  ultimately obtain n where n: "n \<in> set remaining" "\<And>m. (m, n) \<in> (after_graph services)\<inverse> \<Longrightarrow> m \<notin> set remaining"
    by (meson wfE_min)
  then have "n \<in> set (stop_wave services remaining stopped)" using assms(4) by (fastforce simp: set_stop_wave)
  then show ?thesis by auto
qed

lemma finite_after_graph: "finite (after_graph services)"
proof (rule finite_subset)
  show "after_graph services \<subseteq> (\<Union>(n, svc) \<in> set services. set (sv_after svc) \<times> {n})" by (auto simp: after_graph_def)
qed auto

text \<open>Every wave holds what its dependents, all in earlier waves, allow.\<close>

definition waves_ok :: "(string, service_config) dict \<Rightarrow> string list \<Rightarrow> string list list \<Rightarrow> bool" where
  "waves_ok services stopped waves \<longleftrightarrow>
     (\<forall>i < length waves. sorted (waves ! i) \<and> waves ! i \<noteq> [] \<and>
        (\<forall>n m. n \<in> set (waves ! i) \<longrightarrow> (n, m) \<in> after_graph services \<longrightarrow> m \<in> set stopped \<union> set (concat (take i waves))))"

lemma stop_waves_order:
  assumes "acyclic (after_graph services)" "distinct remaining" "length remaining \<le> fuel"
    and "\<And>n m. (n, m) \<in> after_graph services \<Longrightarrow> m \<in> set remaining \<union> set stopped"
  shows "\<exists>waves. stop_waves fuel services remaining stopped = Some waves \<and>
    mset (concat waves) = mset remaining \<and> waves_ok services stopped waves"
  using assms(2-)
proof (induction fuel arbitrary: remaining stopped)
  case 0
  then show ?case by (simp add: stop_waves.simps waves_ok_def)
next
  case (Suc fuel)
  show ?case
  proof (cases "remaining = []")
    case True
    then show ?thesis by (simp add: stop_waves.simps waves_ok_def)
  next
    case False
    let ?w = "stop_wave services remaining stopped" and ?rem = "filter (\<lambda>x. x \<notin> set (stop_wave services remaining stopped)) remaining"
    have w: "?w \<noteq> []" by (rule stop_wave_progress [OF assms(1) finite_after_graph False]) (rule Suc.prems(3))
    have sub: "set ?w \<subseteq> set remaining" by (auto simp: set_stop_wave)
    have "length ?rem < length remaining"
      using w sub by (intro length_filter_less [of "hd ?w"]) auto
    then have "\<exists>waves. stop_waves fuel services ?rem (stopped @ ?w) = Some waves \<and>
        mset (concat waves) = mset ?rem \<and> waves_ok services (stopped @ ?w) waves"
      using Suc.prems by (intro Suc.IH) auto
    then obtain waves where waves: "stop_waves fuel services ?rem (stopped @ ?w) = Some waves"
      "mset (concat waves) = mset ?rem" "waves_ok services (stopped @ ?w) waves" by blast
    have "mset ?w = mset (filter (\<lambda>x. x \<in> set ?w) remaining)"
    proof (intro set_eq_iff_mset_eq_distinct [THEN iffD1])
      show "distinct ?w" using Suc.prems(1) by (simp add: stop_wave_def)
    qed (use Suc.prems(1) sub in auto)
    then have mset: "mset (?w @ concat waves) = mset remaining"
      unfolding mset_append waves(2) by (metis (no_types) mset_filter multiset_partition)
    have "waves_ok services stopped (?w # waves)"
      unfolding waves_ok_def
    proof (intro allI impI conjI)
      fix i assume i: "i < length (?w # waves)"
      show "sorted ((?w # waves) ! i)" "(?w # waves) ! i \<noteq> []"
        using i w waves(3) by (cases i; auto simp: waves_ok_def stop_wave_def)+
      fix n m assume "n \<in> set ((?w # waves) ! i)" "(n, m) \<in> after_graph services"
      with i waves(3) show "m \<in> set stopped \<union> set (concat (take i (?w # waves)))"
        by (cases i) (auto simp: waves_ok_def set_stop_wave)
    qed
    with waves(1) mset False show ?thesis
      by (intro exI [of _ "?w # waves"]) (simp add: stop_waves.simps [of "Suc fuel"] Let_def)
  qed
qed

text \<open>
  C25: for every configuration that has a start order the shutdown ends: it stops every service exactly
  once, in sorted waves that are never empty, and a service only after everything that is declared to
  start after it was stopped in an earlier wave.
\<close>

theorem stop_all_reverses_the_start:
  assumes "distinct (dict_keys services)" and "\<forall>(d, n) \<in> after_graph services. d \<in> set (dict_keys services)"
    and "start_order services = Inr order"
  shows "\<exists>waves. stop_all services = Some waves \<and> mset (concat waves) = mset order \<and>
    (\<forall>i < length waves. sorted (waves ! i) \<and> waves ! i \<noteq> [] \<and>
       (\<forall>n m. n \<in> set (waves ! i) \<longrightarrow> (n, m) \<in> after_graph services \<longrightarrow> (\<exists>j < i. m \<in> set (waves ! j))))"
proof -
  have ac: "acyclic (after_graph services)" and ms: "mset order = mset (dict_keys services)"
    using start_order_result [OF assms(1,2)] assms(3) by simp_all
  have "\<exists>waves. stop_waves (length services) services (dict_keys services) [] = Some waves \<and>
      mset (concat waves) = mset (dict_keys services) \<and> waves_ok services [] waves"
    by (rule stop_waves_order [OF ac assms(1)]) (force simp: after_graph_def)+
  then obtain waves where w: "stop_all services = Some waves" "mset (concat waves) = mset (dict_keys services)" "waves_ok services [] waves"
    by (auto simp: stop_all_def)
  have "\<exists>j < i. m \<in> set (waves ! j)" if "i < length waves" "m \<in> set (concat (take i waves))" for i m
    using that by (auto simp: set_conv_nth [of "take i waves"])
  with w ms show ?thesis by (auto simp: waves_ok_def)
qed

theorem stop_all_reverses_the_start_witness:
  "stop_all sample_services = Some [[''web''], [''auth''], [''db'']] \<and> mset [''web'', ''auth'', ''db''] = mset [''db'', ''auth'', ''web'']"
proof -
  have "after_graph sample_services = {(''db'', ''web''), (''auth'', ''web''), (''db'', ''auth'')}"
    by (simp add: sample_services_def after_graph_Cons after_graph_Nil) auto
  then have "\<forall>(d, n) \<in> after_graph sample_services. d \<in> set (dict_keys sample_services)"
    by (simp add: sample_services_def)
  moreover have "distinct (dict_keys sample_services)" by (simp add: sample_services_def)
  ultimately have "\<exists>waves. stop_all sample_services = Some waves \<and> mset (concat waves) = mset [''db'', ''auth'', ''web'']"
    using stop_all_reverses_the_start [OF _ _ sample_order] by blast
  moreover have "stop_all sample_services = Some [[''web''], [''auth''], [''db'']]" by code_simp
  ultimately show ?thesis by simp
qed

end
