(* ===== verification/Orc_Instance.thy ===== *)
theory Orc_Instance
  imports Orc_Supervisor Orc_Policy
begin

text \<open>
  The services of one instance together, as \<open>Supervisor.run\<close> of
  \<^verbatim>\<open>src/jetty/orchestrator/supervisor.py\<close> connects them: a service waits for the readiness events of the
  services it follows, and a spawn on a new release schedules restarts of its siblings, which run later
  as tasks of their own. Every other event is a step of one service.

  The rendering of a spawn resolves its binaries, records their generations and schedules the restarts
  without waiting in between; so it is one event, which carries the generations it found (none for a
  service that uses no resolved binaries).
\<close>

section \<open>Definitions\<close>

record inst =
  i_confs :: "(string, svc_conf) dict"
  i_resolvers :: "(string, resolver_config) dict"
  i_services :: "(string, service) dict"
  i_spawn_gens :: spawn_gens
  i_bounces :: "string list"

datatype inst_event =
  Svc string event
| Rendered string "(string, int) dict" rendered_service
| BounceRuns string

definition start_inst :: "(string, svc_conf) dict \<Rightarrow> (string, resolver_config) dict \<Rightarrow> inst" where
  "start_inst confs resolvers =
     \<lparr>i_confs = confs, i_resolvers = resolvers, i_services = map (\<lambda>(n, k). (n, Service)) confs,
      i_spawn_gens = [], i_bounces = []\<rparr>"

text \<open>A wait for a dependency ends when it is ready or the service itself is to stop.\<close>

definition dep_ready :: "inst \<Rightarrow> svc_conf \<Rightarrow> event \<Rightarrow> service \<Rightarrow> bool" where
  "dep_ready I k ev s =
     (case (u_pc s, ev) of
        (AtDep i, Run Resume) \<Rightarrow>
          u_stop s \<or> (case dict_get (i_services I) (k_deps k ! i) of None \<Rightarrow> False | Some d \<Rightarrow> u_ready d)
      | _ \<Rightarrow> True)"

definition is_rendering :: "event \<Rightarrow> bool" where
  "is_rendering ev = (case ev of Run (Rendering (Some _)) \<Rightarrow> True | _ \<Rightarrow> False)"

definition inst_step :: "moment \<Rightarrow> inst_event \<Rightarrow> inst \<Rightarrow> inst option" where
  "inst_step m ev I =
     (case ev of
        Svc n e \<Rightarrow>
          (case (dict_get (i_confs I) n, dict_get (i_services I) n) of
             (Some k, Some s) \<Rightarrow>
               if is_rendering e \<or> e = Restart \<or> \<not> dep_ready I k e s then None
               else map_option (\<lambda>s'. I\<lparr>i_services := dict_set n s' (i_services I)\<rparr>) (svc_step k m e s)
           | _ \<Rightarrow> None)
      | Rendered n gens r \<Rightarrow>
          (case (dict_get (i_confs I) n, dict_get (i_services I) n) of
             (Some k, Some s) \<Rightarrow>
               map_option (\<lambda>s'.
                   let (sg, others) = enforce_pinning (i_resolvers I) n gens (i_spawn_gens I)
                   in I\<lparr>i_services := dict_set n s' (i_services I), i_spawn_gens := sg,
                        i_bounces := i_bounces I @ others\<rparr>)
                 (run_step k m (Rendering (Some r)) s)
           | _ \<Rightarrow> None)
      | BounceRuns n \<Rightarrow>
          if n \<notin> set (i_bounces I) then None
          else (case (dict_get (i_confs I) n, dict_get (i_services I) n) of
                  (Some k, Some s) \<Rightarrow>
                    Some (I\<lparr>i_services := dict_set n (svc_restart k s) (i_services I),
                            i_bounces := remove1 n (i_bounces I)\<rparr>)
                | _ \<Rightarrow> None))"

inductive inst_reach :: "(string, svc_conf) dict \<Rightarrow> (string, resolver_config) dict \<Rightarrow> inst \<Rightarrow> bool" for confs resolvers where
  start: "inst_reach confs resolvers (start_inst confs resolvers)"
| step: "inst_reach confs resolvers I \<Longrightarrow> inst_step m ev I = Some I' \<Longrightarrow> inst_reach confs resolvers I'"

fun inst_exec :: "(moment \<times> inst_event) list \<Rightarrow> inst \<Rightarrow> inst option" where
  "inst_exec [] I = Some I"
| "inst_exec ((m, ev) # es) I = (case inst_step m ev I of None \<Rightarrow> None | Some I' \<Rightarrow> inst_exec es I')"

section \<open>Steps of one service\<close>

definition svc_at :: "inst \<Rightarrow> string \<Rightarrow> service option" where
  "svc_at I n = dict_get (i_services I) n"

text \<open>Every event is one step of one service; the others stay as they are.\<close>

lemma inst_step_service:
  assumes "inst_step m ev I = Some I'"
  obtains n k e s s' where "dict_get (i_confs I) n = Some k" "svc_at I n = Some s" "svc_step k m e s = Some s'"
    "dep_ready I k e s" "\<And>q. svc_at I' q = (if q = n then Some s' else svc_at I q)"
    "i_confs I' = i_confs I" "i_resolvers I' = i_resolvers I"
    "(ev = Svc n e \<and> \<not> is_rendering e \<and> e \<noteq> Restart \<and> i_spawn_gens I' = i_spawn_gens I \<and> i_bounces I' = i_bounces I)
     \<or> (\<exists>gens r. ev = Rendered n gens r \<and> e = Run (Rendering (Some r)) \<and> u_pc s = AtRender \<and>
          i_spawn_gens I' = dict_set n gens (i_spawn_gens I) \<and>
          i_bounces I' = i_bounces I @ concat (map (bounced_by (i_resolvers I) n (dict_set n gens (i_spawn_gens I))) gens))
     \<or> (ev = BounceRuns n \<and> e = Restart \<and> i_spawn_gens I' = i_spawn_gens I \<and> i_bounces I' = remove1 n (i_bounces I))"
proof -
  have ready: "dep_ready I k e s" if "e = Restart \<or> u_pc s = AtRender" for k e s
    using that by (auto simp: dep_ready_def split: pc.splits)
  show ?thesis
  proof (cases ev)
    case (Svc n e)
    with assms obtain k s s' where "dict_get (i_confs I) n = Some k" "dict_get (i_services I) n = Some s"
      "\<not> is_rendering e" "e \<noteq> Restart" "dep_ready I k e s" "svc_step k m e s = Some s'"
      "I' = I\<lparr>i_services := dict_set n s' (i_services I)\<rparr>"
      by (auto simp: inst_step_def split: option.splits if_splits)
    then show ?thesis by (intro that [of n k s e s']) (auto simp: svc_at_def Svc)
  next
    case (Rendered n gens r)
    with assms obtain k s s' where kn: "dict_get (i_confs I) n = Some k" "dict_get (i_services I) n = Some s"
      "run_step k m (Rendering (Some r)) s = Some s'"
      "I' = I\<lparr>i_services := dict_set n s' (i_services I), i_spawn_gens := dict_set n gens (i_spawn_gens I),
              i_bounces := i_bounces I @ concat (map (bounced_by (i_resolvers I) n (dict_set n gens (i_spawn_gens I))) gens)\<rparr>"
      by (auto simp: inst_step_def enforce_pinning_def Let_def split: option.splits)
    have pc: "u_pc s = AtRender" using kn(3) by (auto simp: run_step_def split: pc.splits)
    show ?thesis using kn pc ready [of "Run (Rendering (Some r))" s k]
      by (intro that [of n k s "Run (Rendering (Some r))" s']) (auto simp: svc_at_def svc_step_def Rendered)
  next
    case (BounceRuns n)
    with assms obtain k s where "dict_get (i_confs I) n = Some k" "dict_get (i_services I) n = Some s"
      "I' = I\<lparr>i_services := dict_set n (svc_restart k s) (i_services I), i_bounces := remove1 n (i_bounces I)\<rparr>"
      by (auto simp: inst_step_def split: option.splits if_splits)
    then show ?thesis using ready [of Restart s k]
      by (intro that [of n k s Restart "svc_restart k s"]) (auto simp: svc_at_def svc_step_def BounceRuns)
  qed
qed

lemma inst_reach_service:
  assumes "inst_reach confs resolvers I"
  shows "i_confs I = confs \<and> i_resolvers I = resolvers \<and>
    (\<forall>n s. svc_at I n = Some s \<longrightarrow> (\<exists>k. dict_get confs n = Some k \<and> svc_reach k s))"
  using assms
proof (induction rule: inst_reach.induct)
  case start
  have "dict_get (map (\<lambda>(n, k). (n, Service)) confs) n = map_option (\<lambda>_. Service) (dict_get confs n)" for n
    by (induction confs) auto
  then show ?case by (auto simp: start_inst_def svc_at_def intro: svc_reach.init)
next
  case (step I m ev I')
  show ?case
  proof (cases rule: inst_step_service [OF step.hyps(2)])
    case (1 n k e s s')
    then have "svc_reach k s'" using step.IH by (metis option.inject svc_reach.step)
    with step.IH 1 show ?thesis by auto
  qed
qed

section \<open>What a service has shown\<close>

text \<open>A service that is ready, or running, has said so.\<close>

definition announced :: "service \<Rightarrow> bool" where
  "announced s \<longleftrightarrow> Notify ''running'' \<in> set (u_acts s)"

definition honest :: "service \<Rightarrow> bool" where
  "honest s \<longleftrightarrow> (u_state s = ''running'' \<or> u_ready s \<longrightarrow> announced s)"

lemma honest_basic:
  "honest s \<Longrightarrow> honest (emit a s)"
  "honest s \<Longrightarrow> honest (goto p s)"
  "honest s \<Longrightarrow> honest (set_state st s)"
  "honest s \<Longrightarrow> honest (s\<lparr>u_blocked_on := b\<rparr>)"
  "honest s \<Longrightarrow> honest (s\<lparr>u_fail_times := ts\<rparr>)"
  "honest s \<Longrightarrow> honest (s\<lparr>u_restarts := n\<rparr>)"
  "honest s \<Longrightarrow> honest (s\<lparr>u_last_exit := c\<rparr>)"
  "honest s \<Longrightarrow> honest (s\<lparr>u_gate_stop := g\<rparr>)"
  "honest s \<Longrightarrow> honest (s\<lparr>u_bounce := g\<rparr>)"
  "honest s \<Longrightarrow> honest (s\<lparr>u_stop := g\<rparr>)"
  "honest s \<Longrightarrow> honest (s\<lparr>u_ready := False\<rparr>)"
  "honest s \<Longrightarrow> honest (s\<lparr>u_pid := pid\<rparr>)"
  "honest s \<Longrightarrow> honest (s\<lparr>u_rendered := rd\<rparr>)"
  "honest s \<Longrightarrow> honest (s\<lparr>u_killers := ks\<rparr>)"
  "honest s \<Longrightarrow> honest (s\<lparr>u_procs := ps\<rparr>)"
  "honest s \<Longrightarrow> honest (s\<lparr>u_gate_watcher := w\<rparr>)"
  "honest s \<Longrightarrow> honest (s\<lparr>u_path_watcher := w\<rparr>)"
  by (auto simp: honest_def announced_def goto_def emit_def set_state_def)

lemma honest_loop_top: "honest s \<Longrightarrow> honest (loop_top k m s)"
  by (auto simp: loop_top_def spawn_def Let_def intro!: honest_basic)

lemma honest_budget: "honest s \<Longrightarrow> honest (budget k m code s)"
  by (auto simp: budget_def svc_fail_def Let_def intro!: honest_basic split: sum.split)

lemma honest_after_exit: "honest s \<Longrightarrow> honest (after_exit k m code s)"
  by (auto simp: after_exit_def svc_fail_def Let_def intro!: honest_basic honest_loop_top honest_budget)

lemma honest_wait_exit: "honest s \<Longrightarrow> honest (wait_exit s)"
  by (auto simp: wait_exit_def reap_def sweep_then_drain_def intro!: honest_basic split: option.split)

lemma honest_became_ready: "honest s \<Longrightarrow> honest (became_ready s)"
proof -
  assume "honest s"
  then have "honest (set_state ''running'' s)" by (rule honest_basic)
  moreover have "u_state (set_state ''running'' s) = ''running''" by (simp add: set_state_def emit_def)
  ultimately have "honest ((set_state ''running'' s)\<lparr>u_ready := True\<rparr>)" by (simp add: honest_def announced_def)
  then show ?thesis unfolding became_ready_def by (rule honest_wait_exit)
qed

lemma honest_probe_loop: "honest s \<Longrightarrow> honest (probe_loop m d s)"
  by (auto simp: probe_loop_def intro!: honest_basic honest_wait_exit)

lemma honest_spawned: "honest s \<Longrightarrow> honest (spawned k m pid rd s)"
  by (auto simp: spawned_def wait_ready_def Let_def intro!: honest_basic honest_became_ready honest_probe_loop)

lemma honest_step:
  assumes "honest s" "svc_step k m ev s = Some s'"
  shows "honest s'"
proof (cases "\<exists>e. ev = Run e")
  case True
  then obtain e where "run_step k m e s = Some s'" using assms(2) by (auto simp: svc_step_def)
  with assms(1) show ?thesis
    by (cases "u_pc s"; cases e)
       (auto simp: run_step_def dep_loop_def spawn_def svc_block_def block_gates_def reap_def sweep_then_drain_def Let_def
          split: option.splits if_splits
          intro!: honest_basic honest_loop_top honest_budget honest_after_exit honest_became_ready honest_probe_loop honest_spawned)
next
  case False
  with assms show ?thesis
    by (auto simp: svc_step_def watch_step_def svc_stop_def svc_restart_def killer_ends_def process_exits_def
      terminate_group_def Let_def split: event.splits watch_event.splits killer.splits if_splits intro!: honest_basic)
qed

lemma honest_reach: "svc_reach k s \<Longrightarrow> honest s"
  by (induction rule: svc_reach.induct) (auto simp: honest_step, simp add: Service_def honest_def)

text \<open>The record of calls only grows.\<close>

lemma acts_grow:
  assumes "svc_step k m ev s = Some s'"
  shows "\<exists>l. u_acts s' = u_acts s @ l"
proof (cases "(\<exists>pid. ev = Run (Execed (Some pid))) \<or> (\<exists>i code. ev = ProcessExits i code)")
  case True
  then show ?thesis
  proof (elim disjE exE)
    fix pid assume "ev = Run (Execed (Some pid))"
    with assms obtain r where "s' = spawned k m pid r s" by (auto simp: svc_step_def run_step_def split: pc.splits)
    moreover have "quiet (emit (Spawn (length (u_procs s))) (s\<lparr>u_procs := u_procs s @ [(pid, None)], u_pid := Some pid\<rparr>)) (spawned k m pid r s)"
      unfolding spawned_def Let_def by (intro quiet_helpers) simp_all
    ultimately show ?thesis by (auto simp: quiet_def emit_def)
  next
    fix i code assume "ev = ProcessExits i code"
    with assms show ?thesis by (auto simp: svc_step_def process_exits_def emit_def split: if_splits)
  qed
next
  case False
  have "quiet s s'"
  proof (cases ev)
    case (Run e)
    then have rs: "run_step k m e s = Some s'" using assms by (simp add: svc_step_def)
    show ?thesis
    proof (cases "idle_pc (u_pc s)")
      case True
      then show ?thesis using rs False Run run_step_idle(1) by blast
    next
      case False
      then show ?thesis using rs
        by (cases "u_pc s"; cases e) (auto simp: run_step_def idle_pc_def split: option.splits if_splits intro!: quiet_helpers)
    qed
  qed (use assms False in \<open>auto simp: svc_step_def quiet_watch_step quiet_svc_stop quiet_svc_restart quiet_killer_ends\<close>)
  then show ?thesis by (auto simp: quiet_def)
qed

lemma announced_step: "announced s \<Longrightarrow> svc_step k m ev s = Some s' \<Longrightarrow> announced s'"
  using acts_grow by (fastforce simp: announced_def)

section \<open>Dependencies come first\<close>

text \<open>How many dependencies a service has seen ready.\<close>

definition seen_deps :: "svc_conf \<Rightarrow> service \<Rightarrow> nat" where
  "seen_deps k s =
     (case u_pc s of AtStart \<Rightarrow> 0 | AtDep i \<Rightarrow> i | Done \<Rightarrow> 0 | Dead \<Rightarrow> 0 | _ \<Rightarrow> length (k_deps k))"

fun dep_pc :: "pc \<Rightarrow> bool" where
  "dep_pc (AtDep _) = True"
| "dep_pc _ = False"

lemma seen_deps_le: "\<not> dep_pc (u_pc s) \<Longrightarrow> seen_deps k s \<le> length (k_deps k)"
  by (cases "u_pc s") (auto simp: seen_deps_def)

lemma no_dep_pc:
  "\<not> dep_pc (u_pc (spawn m s))" "\<not> dep_pc (u_pc (loop_top k m s))"
  "\<not> dep_pc (u_pc (svc_block k m fl s))" "\<not> dep_pc (u_pc (block_gates k m fl s))" "\<not> dep_pc (u_pc (budget k m code s))"
  "\<not> dep_pc (u_pc (after_exit k m code s))" "\<not> dep_pc (u_pc (reap code s))" "\<not> dep_pc (u_pc (wait_exit s))"
proof -
  show sp: "\<not> dep_pc (u_pc (spawn m s))" for s by (simp add: spawn_def Let_def)
  show lt: "\<not> dep_pc (u_pc (loop_top k m s))" for s by (simp add: loop_top_def sp)
  show "\<not> dep_pc (u_pc (svc_block k m fl s))" by (simp add: svc_block_def lt Let_def)
  show "\<not> dep_pc (u_pc (block_gates k m fl s))" by (simp add: block_gates_def lt Let_def)
  show bd: "\<not> dep_pc (u_pc (budget k m code s))" for s by (simp add: budget_def svc_fail_def Let_def split: sum.split)
  show "\<not> dep_pc (u_pc (after_exit k m code s))" by (simp add: after_exit_def svc_fail_def lt bd Let_def)
  show rp: "\<not> dep_pc (u_pc (reap code s))" for code by (simp add: reap_def sweep_then_drain_def)
  show "\<not> dep_pc (u_pc (wait_exit s))" by (simp add: wait_exit_def rp split: option.split)
qed

lemma no_dep_pc_live:
  "\<not> dep_pc (u_pc (became_ready s))" "\<not> dep_pc (u_pc (probe_loop m d s))" "\<not> dep_pc (u_pc (spawned k m pid rd s))"
  by (simp_all add: became_ready_def probe_loop_def spawned_def wait_ready_def Let_def no_dep_pc)

lemma seen_deps_dep_loop:
  "seen_deps k (dep_loop k m i s) \<le> i \<or> (length (k_deps k) \<le> i \<and> seen_deps k (dep_loop k m i s) \<le> length (k_deps k))"
  using seen_deps_le [of "loop_top k m s" k] no_dep_pc(2) [of k m s]
  by (auto simp: dep_loop_def seen_deps_def [of _ "goto _ _"])

lemma pc_others:
  assumes "svc_step k m ev s = Some s'" "\<And>e. ev \<noteq> Run e"
  shows "u_pc s' = u_pc s"
  using assms
  by (cases ev) (auto simp: svc_step_def quiet_watch_step pc_svc_stop pc_svc_restart quiet_killer_ends process_exits_def split: if_splits)

text \<open>A step sees at most one more dependency, and only when it is ready.\<close>

lemma seen_deps_step:
  assumes "svc_step k m ev s = Some s'"
  shows "seen_deps k s' \<le> seen_deps k s \<or>
    (\<exists>i. u_pc s = AtDep i \<and> ev = Run Resume \<and> \<not> u_stop s \<and> seen_deps k s' \<le> Suc i)"
proof (cases "\<exists>e. ev = Run e")
  case False
  then show ?thesis using pc_others [OF assms] by (simp add: seen_deps_def)
next
  case True
  then obtain e where e: "ev = Run e" and rs: "run_step k m e s = Some s'" using assms by (auto simp: svc_step_def)
  show ?thesis
  proof (cases "u_pc s = AtStart \<or> dep_pc (u_pc s)")
    case True
    have fin: "seen_deps k (goto Done t) = 0" "seen_deps k (goto Dead t) = 0" for t by (simp_all add: seen_deps_def)
    show ?thesis
    proof (cases "u_pc s")
      case AtStart
      with rs fin consider "s' = dep_loop k m 0 s" | "seen_deps k s' = 0"
        by (cases e) (auto simp: run_step_def)
      then show ?thesis using seen_deps_dep_loop [of k m 0 s] by cases auto
    next
      case (AtDep i)
      with rs e fin consider "s' = dep_loop k m (Suc i) s" "ev = Run Resume" "\<not> u_stop s" | "seen_deps k s' = 0"
        by (cases e) (auto simp: run_step_def split: if_splits)
      then show ?thesis using seen_deps_dep_loop [of k m "Suc i" s] AtDep by cases auto
    qed (use True in simp_all)
  next
    case False
    have "u_pc s \<noteq> Done" "u_pc s \<noteq> Dead" using rs by (auto simp: run_step_def split: run_event.splits)
    with False have "seen_deps k s = length (k_deps k)" by (cases "u_pc s") (auto simp: seen_deps_def)
    moreover have "\<not> dep_pc (u_pc s')"
      using False rs
      by (cases "u_pc s"; cases e) (auto simp: run_step_def no_dep_pc no_dep_pc_live split: option.splits if_splits)
    ultimately show ?thesis using seen_deps_le [of s' k] by simp
  qed
qed

lemma new_spawn:
  assumes "svc_step k m ev s = Some s'" "Spawn i \<in> set (u_acts s')" "Spawn i \<notin> set (u_acts s)"
  shows "u_pc s = AtExec"
proof -
  have "\<not> quiet s s'"
  proof
    assume "quiet s s'"
    then obtain l where "u_acts s' = u_acts s @ l" "list_all mute l" by (auto simp: quiet_def)
    with assms(2,3) show False by (auto simp: list_all_iff)
  qed
  moreover have "ev \<noteq> ProcessExits j code" for j code
    using assms by (auto simp: svc_step_def process_exits_def emit_def split: if_splits)
  ultimately show ?thesis
    using assms(1)
  proof (cases ev)
    case (Run e)
    then have rs: "run_step k m e s = Some s'" using assms(1) by (simp add: svc_step_def)
    show ?thesis
    proof (cases "idle_pc (u_pc s)")
      case True
      then obtain pid where "e = Execed (Some pid)" using run_step_idle(1) [OF rs] \<open>\<not> quiet s s'\<close> by blast
      then show ?thesis using rs by (auto simp: run_step_def split: pc.splits)
    next
      case False
      then have "quiet s s'" using rs
        by (cases "u_pc s"; cases e) (auto simp: run_step_def idle_pc_def split: option.splits if_splits intro!: quiet_helpers)
      with \<open>\<not> quiet s s'\<close> show ?thesis by blast
    qed
  qed (auto simp: svc_step_def quiet_watch_step quiet_svc_stop quiet_svc_restart quiet_killer_ends)
qed

definition deps_announced :: "inst \<Rightarrow> svc_conf \<Rightarrow> nat \<Rightarrow> bool" where
  "deps_announced I k j \<longleftrightarrow> (\<forall>i < j. \<exists>t. svc_at I (k_deps k ! i) = Some t \<and> announced t)"

definition dep_inv :: "inst \<Rightarrow> bool" where
  "dep_inv I \<longleftrightarrow> (\<forall>n s k. svc_at I n = Some s \<longrightarrow> dict_get (i_confs I) n = Some k \<longrightarrow>
     deps_announced I k (seen_deps k s) \<and> ((\<exists>i. Spawn i \<in> set (u_acts s)) \<longrightarrow> deps_announced I k (length (k_deps k))))"

lemma deps_announced_mono: "deps_announced I k j \<Longrightarrow> i \<le> j \<Longrightarrow> deps_announced I k i"
  by (auto simp: deps_announced_def)

lemma dep_inv_step:
  assumes inv: "dep_inv I" and reach: "\<And>n s. svc_at I n = Some s \<Longrightarrow> honest s" and step: "inst_step m ev I = Some I'"
  shows "dep_inv I'"
proof (cases rule: inst_step_service [OF step])
  case (1 n k e s s')
  have keep: "deps_announced I' k' j" if "deps_announced I k' j" for k' j
    using that 1(2,3,5) announced_step by (fastforce simp: deps_announced_def)
  have own: "deps_announced I' k (seen_deps k s') \<and> ((\<exists>i. Spawn i \<in> set (u_acts s')) \<longrightarrow> deps_announced I' k (length (k_deps k)))"
  proof
    have old: "deps_announced I k (seen_deps k s)" using inv 1(1,2) by (auto simp: dep_inv_def)
    from seen_deps_step [OF 1(3)] show "deps_announced I' k (seen_deps k s')"
    proof (elim disjE exE conjE)
      assume "seen_deps k s' \<le> seen_deps k s"
      then show ?thesis using old keep deps_announced_mono by blast
    next
      fix i assume i: "u_pc s = AtDep i" "e = Run Resume" "\<not> u_stop s" "seen_deps k s' \<le> Suc i"
      then obtain d where d: "svc_at I (k_deps k ! i) = Some d" "u_ready d"
        using 1(4) by (auto simp: dep_ready_def svc_at_def split: option.splits)
      then have "announced d" using reach by (auto simp: honest_def)
      moreover have "deps_announced I k i" using old i(1) by (simp add: seen_deps_def)
      ultimately have "deps_announced I k (Suc i)" using d(1) by (auto simp: deps_announced_def less_Suc_eq)
      then show ?thesis using keep i(4) deps_announced_mono by blast
    qed
    show "(\<exists>i. Spawn i \<in> set (u_acts s')) \<longrightarrow> deps_announced I' k (length (k_deps k))"
    proof (intro impI, elim exE)
      fix i assume i: "Spawn i \<in> set (u_acts s')"
      show "deps_announced I' k (length (k_deps k))"
      proof (cases "Spawn i \<in> set (u_acts s)")
        case True
        then show ?thesis using inv 1(1,2) keep unfolding dep_inv_def by blast
      next
        case False
        then have "u_pc s = AtExec" using new_spawn [OF 1(3) i] by simp
        then show ?thesis using old keep by (simp add: seen_deps_def)
      qed
    qed
  qed
  show ?thesis
    unfolding dep_inv_def
  proof (intro allI impI)
    fix q s2 k2 assume "svc_at I' q = Some s2" "dict_get (i_confs I') q = Some k2"
    with 1 own inv keep show "deps_announced I' k2 (seen_deps k2 s2) \<and>
        ((\<exists>i. Spawn i \<in> set (u_acts s2)) \<longrightarrow> deps_announced I' k2 (length (k_deps k2)))"
      by (cases "q = n") (auto simp: dep_inv_def)
  qed
qed

lemma dep_inv_reach: "inst_reach confs resolvers I \<Longrightarrow> dep_inv I"
proof (induction rule: inst_reach.induct)
  case start
  have "dict_get (map (\<lambda>(n, k). (n, Service)) confs) n = map_option (\<lambda>_. Service) (dict_get confs n)" for n
    by (induction confs) auto
  then show ?case by (auto simp: dep_inv_def start_inst_def svc_at_def Service_def seen_deps_def deps_announced_def)
next
  case (step I m ev I')
  have "honest s" if "svc_at I n = Some s" for n s
    using inst_reach_service [OF step.hyps(1)] that honest_reach by blast
  with step show ?case by (blast intro: dep_inv_step)
qed

section \<open>A pinned group stays together\<close>

text \<open>A process that stays alive keeps its marks.\<close>

lemma bounce_of_live_helpers:
  "u_bounce (reap code s) = u_bounce s" "u_bounce (wait_exit s) = u_bounce s" "u_bounce (became_ready s) = u_bounce s"
  "u_bounce (probe_loop m d s) = u_bounce s"
proof -
  show rp: "u_bounce (reap code s) = u_bounce s" for code s by (simp add: reap_def sweep_then_drain_def goto_def emit_def)
  show we: "u_bounce (wait_exit s) = u_bounce s" for s by (simp add: wait_exit_def rp goto_def split: option.split)
  show "u_bounce (became_ready s) = u_bounce s" by (simp add: became_ready_def we set_state_def emit_def)
  show "u_bounce (probe_loop m d s) = u_bounce s" by (simp add: probe_loop_def we goto_def emit_def)
qed

lemma marks_stay:
  assumes inv: "svc_inv s" and step: "svc_step k m ev s = Some s'" and alive: "proc_alive s'"
    and ev: "\<And>pid. ev \<noteq> Run (Execed (Some pid))"
  shows "proc_alive s" and "u_bounce s \<Longrightarrow> u_bounce s'" and "u_stop s \<Longrightarrow> u_stop s'"
proof -
  have quiet_alive: "proc_alive s" if "quiet s s'"
    using that alive by (simp add: quiet_def proc_alive_def alive_def current_def)
  show "u_stop s \<Longrightarrow> u_stop s'" using stop_stays [OF step] .
  show pa: "proc_alive s"
  proof (cases "\<exists>i code. ev = ProcessExits i code")
    case True
    then show ?thesis
      using step alive
      by (auto simp: svc_step_def process_exits_def emit_def proc_alive_def alive_def current_def nth_list_update split: if_splits)
  next
    case False
    have "quiet s s'"
    proof (cases ev)
      case (Run e)
      then have rs: "run_step k m e s = Some s'" using step by (simp add: svc_step_def)
      show ?thesis
      proof (cases "idle_pc (u_pc s)")
        case True
        then show ?thesis using rs ev Run run_step_idle(1) by blast
      next
        case False
        then show ?thesis using rs
          by (cases "u_pc s"; cases e) (auto simp: run_step_def idle_pc_def split: option.splits if_splits intro!: quiet_helpers)
      qed
    qed (use step False in \<open>auto simp: svc_step_def quiet_watch_step quiet_svc_stop quiet_svc_restart quiet_killer_ends\<close>)
    then show ?thesis by (rule quiet_alive)
  qed
  show "u_bounce s'" if b: "u_bounce s"
  proof (cases "\<exists>e. ev = Run e")
    case True
    then obtain e where rs: "run_step k m e s = Some s'" using step by (auto simp: svc_step_def)
    then have "u_pc s \<noteq> Dead" by (auto simp: run_step_def split: run_event.splits)
    then have "\<not> idle_pc (u_pc s)" using inv pa by (auto simp: svc_inv_def)
    with rs b show ?thesis
      by (cases "u_pc s"; cases e)
         (auto simp: run_step_def idle_pc_def bounce_of_live_helpers goto_def split: option.splits if_splits)
  next
    case False
    with step b show ?thesis
      by (auto simp: svc_step_def watch_step_def svc_stop_def svc_restart_def killer_ends_def process_exits_def emit_def
          set_state_def terminate_group_def Let_def split: event.splits watch_event.splits killer.splits if_splits)
  qed
qed

lemma to_exec:
  assumes "svc_step k m ev s = Some s'" "u_pc s' = AtExec"
  shows "is_rendering ev \<or> u_pc s = AtExec"
proof (cases "\<exists>e. ev = Run e")
  case True
  then obtain e where "ev = Run e" "run_step k m e s = Some s'" using assms(1) by (auto simp: svc_step_def)
  with assms(2) show ?thesis
    by (cases "u_pc s"; cases e)
       (auto simp: run_step_def is_rendering_def pc_not_exec pc_not_exec_live split: option.splits if_splits)
next
  case False
  then show ?thesis using pc_others [OF assms(1)] assms(2) by auto
qed

text \<open>
  Histories in which no service is between its rendering and its process while another one renders, with
  the generation each resolver had at the last rendering.
\<close>

definition no_exec_but :: "inst \<Rightarrow> string \<Rightarrow> bool" where
  "no_exec_but I n \<longleftrightarrow> (\<forall>q s. q \<noteq> n \<longrightarrow> svc_at I q = Some s \<longrightarrow> u_pc s \<noteq> AtExec)"

definition latest_gens :: "inst_event \<Rightarrow> (string \<rightharpoonup> int) \<Rightarrow> (string \<rightharpoonup> int)" where
  "latest_gens ev L = (case ev of Rendered n gens r \<Rightarrow> L ++ map_of gens | _ \<Rightarrow> L)"

inductive orderly :: "(string, svc_conf) dict \<Rightarrow> (string, resolver_config) dict \<Rightarrow> inst \<Rightarrow> (string \<rightharpoonup> int) \<Rightarrow> bool"
    for confs resolvers where
  start: "orderly confs resolvers (start_inst confs resolvers) Map.empty"
| step: "orderly confs resolvers I L \<Longrightarrow> inst_step m ev I = Some I' \<Longrightarrow>
    (\<forall>n gens r. ev = Rendered n gens r \<longrightarrow> no_exec_but I n) \<Longrightarrow> orderly confs resolvers I' (latest_gens ev L)"

lemma orderly_reach: "orderly confs resolvers I L \<Longrightarrow> inst_reach confs resolvers I"
  by (induction rule: orderly.induct) (auto intro: inst_reach.intros)

definition generation_at :: "inst \<Rightarrow> string \<Rightarrow> string \<Rightarrow> int option" where
  "generation_at I n r = (case dict_get (i_spawn_gens I) n of None \<Rightarrow> None | Some g \<Rightarrow> dict_get g r)"

definition is_pinned :: "inst \<Rightarrow> string \<Rightarrow> bool" where
  "is_pinned I r \<longleftrightarrow> (\<exists>cfg. dict_get (i_resolvers I) r = Some cfg \<and> pins_group cfg)"

definition leaving :: "service \<Rightarrow> bool" where
  "leaving s \<longleftrightarrow> u_bounce s \<or> u_stop s"

definition pin_inv :: "inst \<Rightarrow> (string \<rightharpoonup> int) \<Rightarrow> bool" where
  "pin_inv I L \<longleftrightarrow> (\<forall>n s r g. svc_at I n = Some s \<longrightarrow> is_pinned I r \<longrightarrow> generation_at I n r = Some g \<longrightarrow>
     (u_pc s = AtExec \<longrightarrow> L r = Some g) \<and>
     (proc_alive s \<longrightarrow> L r = Some g \<or> n \<in> set (i_bounces I) \<or> leaving s))"

lemma bounced_others:
  assumes "is_pinned I r" "dict_get sg q = Some og" "dict_get og r = Some g" "q \<noteq> n"
    "(r, g') \<in> set gens" "g \<noteq> g'"
  shows "q \<in> set (concat (map (bounced_by (i_resolvers I) n sg) gens))"
proof -
  have "(q, og) \<in> set sg" using assms(2) by (rule map_of_SomeD)
  moreover from assms(1) obtain cfg where "dict_get (i_resolvers I) r = Some cfg" "pins_group cfg" by (auto simp: is_pinned_def)
  ultimately have "q \<in> set (bounced_by (i_resolvers I) n sg (r, g'))"
    using assms by (force simp: bounced_by_def dict_get_or_def)
  with assms(5) show ?thesis by auto
qed

lemma pin_inv_step:
  assumes inv: "pin_inv I L" and reach: "\<And>n s. svc_at I n = Some s \<Longrightarrow> svc_inv s"
    and step: "inst_step m ev I = Some I'" and order: "\<forall>n gens r. ev = Rendered n gens r \<longrightarrow> no_exec_but I n"
  shows "pin_inv I' (latest_gens ev L)"
proof (cases rule: inst_step_service [OF step])
  case (1 n k e s s')
  have pin: "is_pinned I' r = is_pinned I r" for r by (simp add: is_pinned_def 1)
  have old: "(u_pc t = AtExec \<longrightarrow> L r = Some g) \<and> (proc_alive t \<longrightarrow> L r = Some g \<or> q \<in> set (i_bounces I) \<or> leaving t)"
    if "svc_at I q = Some t" "is_pinned I r" "generation_at I q r = Some g" for q t r g
    using inv that by (auto simp: pin_inv_def)
  from 1(8) show ?thesis
  proof (elim disjE exE conjE)
    assume c: "ev = Svc n e" "\<not> is_rendering e" "e \<noteq> Restart" "i_spawn_gens I' = i_spawn_gens I" "i_bounces I' = i_bounces I"
    have gen: "generation_at I' q r = generation_at I q r" for q r by (simp add: generation_at_def c)
    have own: "(u_pc s' = AtExec \<longrightarrow> L r = Some g) \<and> (proc_alive s' \<longrightarrow> L r = Some g \<or> n \<in> set (i_bounces I) \<or> leaving s')"
      if "is_pinned I r" "generation_at I n r = Some g" for r g
    proof
      note o = old [OF 1(2) that]
      show "u_pc s' = AtExec \<longrightarrow> L r = Some g" using to_exec [OF 1(3)] c(2) o by blast
      show "proc_alive s' \<longrightarrow> L r = Some g \<or> n \<in> set (i_bounces I) \<or> leaving s'"
      proof (cases "\<exists>pid. e = Run (Execed (Some pid))")
        case True
        then have "u_pc s = AtExec" using 1(3) by (auto simp: svc_step_def run_step_def split: pc.splits)
        then show ?thesis using o by blast
      next
        case False
        then show ?thesis using marks_stay [OF reach [OF 1(2)] 1(3)] o by (auto simp: leaving_def)
      qed
    qed
    show ?thesis
      unfolding pin_inv_def latest_gens_def c(1) inst_event.case pin gen c(5) 1(5)
      using own old by (auto split: if_splits)
  next
    fix gens rd assume c: "ev = Rendered n gens rd" "i_spawn_gens I' = dict_set n gens (i_spawn_gens I)"
      "i_bounces I' = i_bounces I @ concat (map (bounced_by (i_resolvers I) n (dict_set n gens (i_spawn_gens I))) gens)"
    let ?L = "L ++ map_of gens"
    have gen: "generation_at I' q r = (if q = n then dict_get gens r else generation_at I q r)" for q r
      by (simp add: generation_at_def c(2))
    have own: "?L r = Some g" if "dict_get gens r = Some g" for r g using that by simp
    have others: "(u_pc t = AtExec \<longrightarrow> ?L r = Some g) \<and> (proc_alive t \<longrightarrow> ?L r = Some g \<or> q \<in> set (i_bounces I') \<or> leaving t)"
      if q: "q \<noteq> n" "svc_at I q = Some t" "is_pinned I r" "generation_at I q r = Some g" for q t r g
    proof
      show "u_pc t = AtExec \<longrightarrow> ?L r = Some g" using order c(1) q(1,2) by (auto simp: no_exec_but_def)
      show "proc_alive t \<longrightarrow> ?L r = Some g \<or> q \<in> set (i_bounces I') \<or> leaving t"
      proof (cases "dict_get gens r")
        case None
        then have "?L r = L r" by (simp add: map_add_dom_app_simps domIff)
        then show ?thesis using old [OF q(2-4)] by (auto simp: c(3))
      next
        case (Some g')
        from q(4) obtain og where og: "dict_get (i_spawn_gens I) q = Some og" "dict_get og r = Some g"
          by (auto simp: generation_at_def split: option.splits)
        show ?thesis
        proof (cases "g = g'")
          case True
          with Some show ?thesis by simp
        next
          case False
          have "q \<in> set (concat (map (bounced_by (i_resolvers I) n (dict_set n gens (i_spawn_gens I))) gens))"
            using bounced_others [OF q(3) _ og(2) q(1) map_of_SomeD [OF Some] False] og(1) q(1) by simp
          then show ?thesis by (simp add: c(3))
        qed
      qed
    qed
    show ?thesis
      unfolding pin_inv_def latest_gens_def c(1) inst_event.case pin gen 1(5)
      using own others by (auto split: if_splits)
  next
    assume c: "ev = BounceRuns n" "e = Restart" "i_spawn_gens I' = i_spawn_gens I" "i_bounces I' = remove1 n (i_bounces I)"
    have gen: "generation_at I' q r = generation_at I q r" for q r by (simp add: generation_at_def c)
    have s': "s' = svc_restart k s" using 1(3) by (simp add: c(2) svc_step_def)
    have pc: "u_pc s' = u_pc s" using s' pc_svc_restart by simp
    have "leaving s'" if "proc_alive s'"
    proof -
      have "proc_alive s" using that quiet_svc_restart [of s k] s' by (auto simp: quiet_def proc_alive_def alive_def current_def)
      then show ?thesis by (auto simp: s' svc_restart_def leaving_def terminate_group_def emit_def Let_def)
    qed
    then show ?thesis
      unfolding pin_inv_def latest_gens_def c(1) inst_event.case pin gen 1(5)
      using old 1(2) pc by (auto simp: c(4) split: if_splits)
  qed
qed

lemma pin_inv_orderly: "orderly confs resolvers I L \<Longrightarrow> pin_inv I L"
proof (induction rule: orderly.induct)
  case start
  show ?case by (simp add: pin_inv_def start_inst_def generation_at_def)
next
  case (step I L m ev I')
  have "svc_inv s" if "svc_at I n = Some s" for n s
    using inst_reach_service [OF orderly_reach [OF step.hyps(1)]] that svc_inv_reach by blast
  with step show ?case by (blast intro: pin_inv_step)
qed

section \<open>Properties\<close>

text \<open>
  C21: whatever the order of events, a service has spawned a process only if every service it is declared
  to start after has been running before.
\<close>

theorem dependencies_first:
  assumes "inst_reach confs resolvers I" and "dict_get confs n = Some k" and "dict_get (i_services I) n = Some s"
    and "Spawn i \<in> set (u_acts s)" and "d \<in> set (k_deps k)"
  shows "\<exists>t. dict_get (i_services I) d = Some t \<and> Notify ''running'' \<in> set (u_acts t)"
proof -
  have "dep_inv I" "i_confs I = confs" using dep_inv_reach [OF assms(1)] inst_reach_service [OF assms(1)] by simp_all
  then have "deps_announced I k (length (k_deps k))" using assms(2-4) unfolding dep_inv_def svc_at_def by blast
  with assms(5) show ?thesis by (auto simp: deps_announced_def svc_at_def announced_def in_set_conv_nth)
qed

text \<open>
  C22: when no service is between its rendering and its process while another one renders, two live
  processes never stay on different generations of a resolver that pins several binaries: as soon as no
  restart is pending, one of the two is being restarted or stopped.
\<close>

theorem pinned_group_stays_together:
  assumes "orderly confs resolvers I L" and "i_bounces I = []" and "is_pinned I r"
    and "dict_get (i_services I) a = Some s" and "generation_at I a r = Some ga" and "proc_alive s"
    and "dict_get (i_services I) b = Some t" and "generation_at I b r = Some gb" and "proc_alive t"
    and "ga \<noteq> gb"
  shows "u_bounce s \<or> u_stop s \<or> u_bounce t \<or> u_stop t"
proof -
  have inv: "pin_inv I L" using assms(1) by (rule pin_inv_orderly)
  have "L r = Some ga \<or> leaving s" "L r = Some gb \<or> leaving t"
    using inv assms unfolding pin_inv_def svc_at_def by auto
  with assms(10) show ?thesis by (auto simp: leaving_def)
qed

section \<open>A concrete instance\<close>

text \<open>Histories run from their events.\<close>

fun orderly_exec :: "(moment \<times> inst_event) list \<Rightarrow> inst \<Rightarrow> inst option" where
  "orderly_exec [] I = Some I"
| "orderly_exec ((m, ev) # es) I =
     (if (case ev of Rendered n _ _ \<Rightarrow> list_all (\<lambda>(q, s). q = n \<or> u_pc s \<noteq> AtExec) (i_services I) | _ \<Rightarrow> True)
      then (case inst_step m ev I of None \<Rightarrow> None | Some I' \<Rightarrow> orderly_exec es I')
      else None)"

lemma orderly_exec_ok:
  "orderly confs resolvers I L \<Longrightarrow> orderly_exec es I = Some I' \<Longrightarrow> \<exists>L'. orderly confs resolvers I' L'"
proof (induction es I arbitrary: L rule: orderly_exec.induct)
  case (1 I)
  then show ?case by auto
next
  case (2 m ev es I)
  let ?ok = "case ev of Rendered n _ _ \<Rightarrow> list_all (\<lambda>(q, s). q = n \<or> u_pc s \<noteq> AtExec) (i_services I) | _ \<Rightarrow> True"
  from "2.prems"(2) obtain J where ok: ?ok and J: "inst_step m ev I = Some J" "orderly_exec es J = Some I'"
    by (auto split: if_splits option.splits)
  have "no_exec_but I n" if "ev = Rendered n gens r" for n gens r
    using ok that by (fastforce simp: no_exec_but_def svc_at_def list_all_iff dest: map_of_SomeD)
  then have "orderly confs resolvers J (latest_gens ev L)" using orderly.step [OF "2.prems"(1) J(1)] by blast
  with "2.IH" [OF ok J(1)] J(2) show ?case by blast
qed

lemma inst_exec_reach: "inst_reach confs resolvers I \<Longrightarrow> inst_exec es I = Some I' \<Longrightarrow> inst_reach confs resolvers I'"
proof (induction es I rule: inst_exec.induct)
  case (2 m ev es I)
  then show ?case by (cases "inst_step m ev I") (auto intro: inst_reach.step)
qed simp

definition free_conf :: "string list \<Rightarrow> svc_conf" where
  "free_conf deps = \<lparr>k_cfg = demo_service, k_deps = deps, k_requires = [], k_continuous = []\<rparr>"

definition demo_resolvers :: "(string, resolver_config) dict" where
  "demo_resolvers = [(''rel'', \<lparr>r_cmd = [''which''], r_provides = [''api'', ''web''], r_timeout = Fin 30, r_refresh = ''spawn'',
     r_cache = Fin 5, r_copy = False, r_keep_days = Fin 7, r_requires = []\<rparr>)]"

definition demo_confs :: "(string, svc_conf) dict" where
  "demo_confs = [(''api'', free_conf []), (''web'', free_conf [''api''])]"

definition demo_start :: inst where
  "demo_start = start_inst demo_confs demo_resolvers"

text \<open>The first service runs, then the second starts on a new release of the same resolver.\<close>

definition demo_orderly :: "(moment \<times> inst_event) list" where
  "demo_orderly = map (Pair (moment_at 1))
     [Svc ''api'' (Run Resume), Rendered ''api'' [(''rel'', 1)] demo_rendered, Svc ''api'' (Run (Execed (Some 100))),
      Svc ''web'' (Run Resume), Svc ''web'' (Run Resume), Rendered ''web'' [(''rel'', 2)] demo_rendered,
      Svc ''web'' (Run (Execed (Some 101))), BounceRuns ''api'']"

definition demo_inst :: inst where
  "demo_inst = the (orderly_exec demo_orderly demo_start)"

lemma demo_inst_orderly: "\<exists>L. orderly demo_confs demo_resolvers demo_inst L"
proof -
  have "orderly_exec demo_orderly demo_start \<noteq> None" by code_simp
  then have "orderly_exec demo_orderly demo_start = Some demo_inst" by (auto simp: demo_inst_def)
  then show ?thesis using orderly_exec_ok [OF orderly.start] unfolding demo_start_def by blast
qed

theorem dependencies_first_witness:
  "\<exists>t. dict_get (i_services demo_inst) ''api'' = Some t \<and> Notify ''running'' \<in> set (u_acts t)"
proof -
  obtain L where "orderly demo_confs demo_resolvers demo_inst L" using demo_inst_orderly by blast
  then have r: "inst_reach demo_confs demo_resolvers demo_inst" by (rule orderly_reach)
  let ?s = "the (dict_get (i_services demo_inst) ''web'')"
  have "dict_get demo_confs ''web'' = Some (free_conf [''api''])" by (simp add: demo_confs_def)
  moreover have "dict_get (i_services demo_inst) ''web'' = Some ?s" "Spawn 0 \<in> set (u_acts ?s)" by code_simp+
  moreover have "''api'' \<in> set (k_deps (free_conf [''api'']))" by (simp add: free_conf_def)
  ultimately show ?thesis using dependencies_first [OF r] by blast
qed

theorem pinned_group_stays_together_witness:
  "u_bounce (the (dict_get (i_services demo_inst) ''api''))"
proof -
  obtain L where o: "orderly demo_confs demo_resolvers demo_inst L" using demo_inst_orderly by blast
  let ?s = "the (dict_get (i_services demo_inst) ''api'')" and ?t = "the (dict_get (i_services demo_inst) ''web'')"
  have "i_bounces demo_inst = []" "dict_get (i_services demo_inst) ''api'' = Some ?s" "proc_alive ?s" "\<not> u_stop ?s"
    "dict_get (i_services demo_inst) ''web'' = Some ?t" "proc_alive ?t" "\<not> u_bounce ?t" "\<not> u_stop ?t"
    "generation_at demo_inst ''api'' ''rel'' = Some 1" "generation_at demo_inst ''web'' ''rel'' = Some 2"
    by code_simp+
  moreover have "is_pinned demo_inst ''rel''"
  proof -
    have "i_resolvers demo_inst = demo_resolvers" using inst_reach_service [OF orderly_reach [OF o]] by simp
    then show ?thesis by (simp add: is_pinned_def demo_resolvers_def pins_group_def)
  qed
  ultimately show ?thesis
    using pinned_group_stays_together [OF o, of "''rel''" "''api''" ?s 1 "''web''" ?t 2] by auto
qed

text \<open>
  The same two services when the second renders while the first is between its rendering and its process.
\<close>

definition demo_split :: "(moment \<times> inst_event) list" where
  "demo_split = map (Pair (moment_at 1))
     [Svc ''api'' (Run Resume), Svc ''web'' (Run Resume), Rendered ''api'' [(''rel'', 1)] demo_rendered,
      Rendered ''web'' [(''rel'', 2)] demo_rendered, BounceRuns ''api'',
      Svc ''api'' (Run (Execed (Some 100))), Svc ''web'' (Run (Execed (Some 101)))]"

definition split_inst :: inst where
  "split_inst = the (inst_exec demo_split (start_inst [(''api'', free_conf []), (''web'', free_conf [])] demo_resolvers))"

text \<open>
  C38: the restart of a sibling is lost when the sibling has rendered but its process does not exist yet:
  both services then run, on different generations of the resolver that pins their binaries, with no
  restart pending or requested.
\<close>

theorem pinned_group_can_split:
  "inst_reach [(''api'', free_conf []), (''web'', free_conf [])] demo_resolvers split_inst \<and> i_bounces split_inst = [] \<and>
   (\<exists>s t. dict_get (i_services split_inst) ''api'' = Some s \<and> dict_get (i_services split_inst) ''web'' = Some t \<and>
      proc_alive s \<and> proc_alive t \<and> \<not> u_bounce s \<and> \<not> u_bounce t \<and> \<not> u_stop s \<and> \<not> u_stop t \<and>
      generation_at split_inst ''api'' ''rel'' = Some 1 \<and> generation_at split_inst ''web'' ''rel'' = Some 2)"
proof -
  let ?I = "start_inst [(''api'', free_conf []), (''web'', free_conf [])] demo_resolvers"
  have "inst_exec demo_split ?I \<noteq> None" by code_simp
  then have "inst_exec demo_split ?I = Some split_inst" by (auto simp: split_inst_def)
  then have "inst_reach [(''api'', free_conf []), (''web'', free_conf [])] demo_resolvers split_inst"
    by (rule inst_exec_reach [OF inst_reach.start])
  moreover let ?s = "the (dict_get (i_services split_inst) ''api'')" and ?t = "the (dict_get (i_services split_inst) ''web'')"
  have "i_bounces split_inst = []" "dict_get (i_services split_inst) ''api'' = Some ?s" "proc_alive ?s" "\<not> u_stop ?s" "\<not> u_bounce ?s"
    "dict_get (i_services split_inst) ''web'' = Some ?t" "proc_alive ?t" "\<not> u_bounce ?t" "\<not> u_stop ?t"
    "generation_at split_inst ''api'' ''rel'' = Some 1" "generation_at split_inst ''web'' ''rel'' = Some 2"
    by code_simp+
  ultimately show ?thesis by blast
qed

end
