(* ===== verification/Py_Format.thy ===== *)
theory Py_Format
  imports Py_Text
begin

text \<open>
  \<open>string.Formatter\<close>, whose methods the orchestrator overrides: the fields of a format string with their
  conversions and specifications, the loop of \<open>vformat\<close>, and \<open>format(s, spec)\<close> for a string.
\<close>

section \<open>Fields with their conversions and specifications\<close>

fun take_spec :: "nat \<Rightarrow> string \<Rightarrow> (string \<times> string) option" where
  "take_spec n [] = None"
| "take_spec n (c # cs) =
     (if c = CHR ''{'' then map_option (apfst (Cons c)) (take_spec (Suc n) cs)
      else if c = CHR ''}'' then (if n = 0 then Some ([], cs) else map_option (apfst (Cons c)) (take_spec (n - 1) cs))
      else map_option (apfst (Cons c)) (take_spec n cs))"

text \<open>A conversion is one character; the parser reports the character zero as no conversion.\<close>

definition take_conversion :: "string \<Rightarrow> (char option \<times> string \<times> string) option" where
  "take_conversion s =
     (case s of
        v # c # cs \<Rightarrow>
          let conv = (if v = CHR 0x00 then None else Some v)
          in if c = CHR ''}'' then Some (conv, [], cs)
             else if c = CHR '':'' then map_option (Pair conv) (take_spec 0 cs)
             else None
      | _ \<Rightarrow> None)"

fun take_field :: "bool \<Rightarrow> string \<Rightarrow> string \<Rightarrow> (string \<times> char option \<times> string \<times> string) option" where
  "take_field inb acc [] = None"
| "take_field inb acc (c # cs) =
     (if inb then take_field (c \<noteq> CHR '']'') (acc @ [c]) cs
      else if c = CHR ''{'' then None
      else if c = CHR ''['' then take_field True (acc @ [c]) cs
      else if c = CHR ''}'' then Some (acc, None, [], cs)
      else if c = CHR '':'' then map_option (\<lambda>r. (acc, None, r)) (take_spec 0 cs)
      else if c = CHR ''!'' then map_option (Pair acc) (take_conversion cs)
      else take_field False (acc @ [c]) cs)"

text \<open>One step of \<open>Formatter.parse\<close>: an ordinary character, a field, the end, or a \<open>ValueError\<close>.\<close>

datatype markup = Finished | Literal char string | Field string "char option" string string | Malformed

definition next_markup :: "string \<Rightarrow> markup" where
  "next_markup s =
     (case s of
        [] \<Rightarrow> Finished
      | c # cs \<Rightarrow>
          if c = CHR ''}'' then (case cs of d # ds \<Rightarrow> if d = c then Literal c ds else Malformed | [] \<Rightarrow> Malformed)
          else if c = CHR ''{'' then
            (case cs of
               [] \<Rightarrow> Malformed
             | d # ds \<Rightarrow>
                 if d = c then Literal c ds
                 else (case take_field False [] cs of
                         None \<Rightarrow> Malformed
                       | Some (f, conv, spec, rest) \<Rightarrow> Field f conv spec rest))
          else Literal c cs)"

lemma take_spec_skip: "map_option snd (take_spec n s) = skip_spec n s"
  by (induction n s rule: take_spec.induct) (auto simp: option.map_comp comp_def)

lemma take_conversion_skip: "map_option (snd \<circ> snd) (take_conversion s) = skip_conversion s"
  by (auto simp: take_conversion_def skip_conversion_def Let_def option.map_comp comp_def take_spec_skip [unfolded comp_def]
      split: list.splits)

lemma take_field_name: "map_option (\<lambda>(f, _, _, r). (f, r)) (take_field inb acc s) = field_name inb acc s"
proof (induction inb acc s rule: take_field.induct)
  case (2 inb acc c cs)
  have spec: "map_option (\<lambda>x. (acc, snd x)) (take_spec 0 cs) = map_option (Pair acc) (skip_spec 0 cs)"
    by (simp add: take_spec_skip [symmetric] option.map_comp comp_def)
  have conv: "map_option (\<lambda>x. (acc, snd (snd x))) (take_conversion cs) = map_option (Pair acc) (skip_conversion cs)"
    by (simp add: take_conversion_skip [symmetric] option.map_comp comp_def)
  from 2 show ?case by (simp add: option.map_comp comp_def case_prod_unfold spec conv)
qed simp

lemma take_spec_shorter: "take_spec n s = Some (sp, r) \<Longrightarrow> length sp + length r < length s"
  by (induction n s arbitrary: sp rule: take_spec.induct) (fastforce split: if_splits)+

lemma next_markup_shorter:
  "next_markup s = Literal c rest \<Longrightarrow> length rest < length s"
  "next_markup s = Field f conv spec rest \<Longrightarrow> length rest < length s"
proof -
  show "next_markup s = Literal c rest \<Longrightarrow> length rest < length s"
    by (auto simp: next_markup_def split: list.splits if_splits option.splits)
  assume "next_markup s = Field f conv spec rest"
  then obtain cs where s: "s = CHR ''{'' # cs" and "take_field False [] cs = Some (f, conv, spec, rest)"
    by (auto simp: next_markup_def split: list.splits if_splits option.splits simp del: take_field.simps)
  then have "field_name False [] cs = Some (f, rest)" by (simp flip: take_field_name)
  with s show "length rest < length s" by (auto dest!: field_name_shorter simp del: field_name.simps)
qed

section \<open>The loop of vformat\<close>

text \<open>
  Automatic numbering: the counter is \<open>None\<close> once a field was numbered by hand.
\<close>

definition number_field :: "nat option \<Rightarrow> string \<Rightarrow> (string \<times> nat option) option" where
  "number_field auto f =
     (if f = [] then (case auto of None \<Rightarrow> None | Some n \<Rightarrow> Some (str_nat n, Some (Suc n)))
      else if py_isdigit f then (case auto of Some (Suc n) \<Rightarrow> None | _ \<Rightarrow> Some (f, None))
      else Some (f, auto))"

text \<open>
  The methods a subclass may override are arguments: \<open>get_field\<close>, \<open>convert_field\<close> and \<open>format_field\<close>; the
  error of the base class is \<open>err\<close> (a \<open>ValueError\<close>). The depth is how often a specification may still
  contain fields.
\<close>

record ('v, 'e) fmt_methods =
  fm_get :: "string \<Rightarrow> 'e + 'v"
  fm_convert :: "'v \<Rightarrow> char option \<Rightarrow> 'e + 'v"
  fm_format :: "'v \<Rightarrow> string \<Rightarrow> 'e + string"
  fm_err :: 'e

function vformat :: "('v, 'e) fmt_methods \<Rightarrow> nat \<Rightarrow> nat option \<Rightarrow> string \<Rightarrow> 'e + string \<times> nat option" where
  "vformat F d auto s =
     (case next_markup s of
        Finished \<Rightarrow> Inr ([], auto)
      | Malformed \<Rightarrow> Inl (fm_err F)
      | Literal c rest \<Rightarrow> rbind (vformat F d auto rest) (\<lambda>(t, a). Inr (c # t, a))
      | Field f conv spec rest \<Rightarrow>
          (case number_field auto f of
             None \<Rightarrow> Inl (fm_err F)
           | Some (g, auto1) \<Rightarrow>
               rbind (fm_get F g) (\<lambda>v.
               rbind (fm_convert F v conv) (\<lambda>w.
               case d of
                 0 \<Rightarrow> Inl (fm_err F)
               | Suc d' \<Rightarrow>
                   rbind (vformat F d' auto1 spec) (\<lambda>(sp, auto2).
                   rbind (fm_format F w sp) (\<lambda>t.
                   rbind (vformat F d auto2 rest) (\<lambda>(u, a). Inr (t @ u, a))))))))"
  by pat_completeness auto
termination
  by (relation "measures [\<lambda>(F, d, auto, s). d, \<lambda>(F, d, auto, s). length s]") (auto dest: next_markup_shorter)

declare vformat.simps [simp del]

section \<open>format(s, spec)\<close>

definition is_align :: "char \<Rightarrow> bool" where
  "is_align c \<longleftrightarrow> c \<in> {CHR ''<'', CHR ''>'', CHR ''='', CHR ''^''}"

text \<open>The fill character if it is given, the alignment, and what follows.\<close>

definition take_align :: "string \<Rightarrow> char option \<times> char \<times> string" where
  "take_align spec =
     (case spec of
        f # a # r \<Rightarrow>
          if is_align a then (Some f, a, r) else if is_align f then (None, f, a # r) else (None, CHR ''<'', spec)
      | [f] \<Rightarrow> if is_align f then (None, f, []) else (None, CHR ''<'', spec)
      | [] \<Rightarrow> (None, CHR ''<'', []))"

definition ssize_max :: int where
  "ssize_max = 2 ^ 63 - 1"

definition take_count :: "string \<Rightarrow> (int \<times> string) option" where
  "take_count s =
     (let n = int_of_digits (takeWhile is_ascii_digit s)
      in if ssize_max < n then None else Some (n, dropWhile is_ascii_digit s))"

text \<open>The width, the precision (none if it is not given), and the type that may follow them.\<close>

definition take_precision :: "string \<Rightarrow> (int option \<times> string) option" where
  "take_precision s =
     (case s of
        c # r \<Rightarrow>
          if c = CHR ''.'' then
            (if takeWhile is_ascii_digit r = [] then None else map_option (apfst Some) (take_count r))
          else Some (None, s)
      | [] \<Rightarrow> Some (None, []))"

record str_spec =
  ss_fill :: char
  ss_align :: char
  ss_width :: int
  ss_precision :: "int option"

text \<open>
  A sign, \<open>z\<close>, \<open>#\<close>, a thousands separator, the alignment \<open>=\<close> and every type but \<open>s\<close> are errors for strings.
\<close>

definition parse_str_spec :: "string \<Rightarrow> str_spec option" where
  "parse_str_spec spec =
     (case take_align spec of
        (fill, align, r0) \<Rightarrow>
          let zero = (fill = None \<and> r0 \<noteq> [] \<and> hd r0 = CHR ''0'');
              r1 = (if zero then tl r0 else r0)
          in case take_count r1 of
               None \<Rightarrow> None
             | Some (width, r2) \<Rightarrow>
                 (case take_precision r2 of
                    None \<Rightarrow> None
                  | Some (prec, r3) \<Rightarrow>
                      if (r3 = [] \<or> r3 = ''s'') \<and> align \<noteq> CHR ''=''
                      then Some \<lparr>ss_fill = (case fill of Some f \<Rightarrow> f | None \<Rightarrow> if zero then CHR ''0'' else CHR '' ''),
                                 ss_align = align, ss_width = width, ss_precision = prec\<rparr>
                      else None))"

definition pad_str :: "str_spec \<Rightarrow> string \<Rightarrow> string" where
  "pad_str p v =
     (let t = (case ss_precision p of None \<Rightarrow> v | Some n \<Rightarrow> take (nat n) v);
          missing = nat (ss_width p) - length t;
          left = (if ss_align p = CHR ''>'' then missing else if ss_align p = CHR ''^'' then missing div 2 else 0)
      in replicate left (ss_fill p) @ t @ replicate (missing - left) (ss_fill p))"

definition format_str :: "string \<Rightarrow> string \<Rightarrow> string option" where
  "format_str v spec = (if spec = [] then Some v else map_option (\<lambda>p. pad_str p v) (parse_str_spec spec))"

text \<open>\<open>ascii(s)\<close>: the characters of \<open>repr(s)\<close> beyond ASCII are escaped.\<close>

definition py_ascii :: "string \<Rightarrow> string" where
  "py_ascii s = concat (map (\<lambda>c. let n = (of_char c :: nat)
     in if n < 128 then [c] else [CHR 0x5C, CHR ''x'', hex_digit (n div 16), hex_digit (n mod 16)]) (py_repr s))"

lemma format_str_examples:
  "format_str ''ab'' ''>5'' = Some ''   ab''"
  "format_str ''ab'' ''*^5.1s'' = Some ''**a**''"
  "format_str ''ab'' ''05'' = Some ''ab000''"
  "format_str ''ab'' ''=5'' = None"
  "format_str ''ab'' '','' = None"
  "format_str ''ab'' ''.'' = None"
  by code_simp+

end
