(* ===== verification/Orc_Render.thy ===== *)
theory Orc_Render
  imports Py_Format Orc_Validate Orc_Service
begin

text \<open>
  \<^verbatim>\<open>src/jetty/orchestrator/render.py\<close>: the templates of a configuration, rendered against the ports, the
  directories and the resolved binaries of an instance. What the process finds around it is a parameter:
  the environment, \<open>os.path.expanduser\<close>, \<open>os.path.realpath\<close>, and the text an \<open>_EnvValue\<close> object converts
  to (its address appears in it).
\<close>

section \<open>Definitions\<close>

datatype render_exn =
  UnknownPlaceholder string
| BadEnvSpec string string
| EnvUnset string
| BadTemplate string
| OutsideTree string string
| BadElement string string
| EmptyCommand string
| SunPathTooLong string
| BadPortTemplate string string
| RenderPy py_exn

record surroundings =
  sr_env :: "(string, string) dict"
  sr_expanduser :: "string \<Rightarrow> string"
  sr_realpath :: "string \<Rightarrow> string"
  sr_object_text :: "string \<Rightarrow> string"

definition env_name :: "string \<Rightarrow> bool" where
  "env_name n \<longleftrightarrow>
     (case n of
        [] \<Rightarrow> False
      | c # cs \<Rightarrow> (is_lower_az c \<or> is_upper_az c \<or> c = CHR ''_'') \<and>
          list_all (\<lambda>d. is_lower_az d \<or> is_upper_az d \<or> is_ascii_digit d \<or> d = CHR ''_'') cs)"

text \<open>\<open>_ENV_FIELD.match\<close>: the captured name. Its \<open>$\<close> also matches before a final newline.\<close>

definition env_field :: "string \<Rightarrow> string option" where
  "env_field f =
     (if \<not> prefix ''env.'' f then None
      else let n = drop 4 f
           in if env_name n then Some n
              else if n \<noteq> [] \<and> last n = ch_newline \<and> env_name (butlast n) then Some (butlast n)
              else None)"

definition braces_free :: "string \<Rightarrow> bool" where
  "braces_free s \<longleftrightarrow> CHR ''{'' \<notin> set s \<and> CHR ''}'' \<notin> set s"

definition env_standalone :: "string \<Rightarrow> bool" where
  "env_standalone = re_dollar (\<lambda>e.
     prefix ''{env.'' e \<and> last e = CHR ''}'' \<and>
     (let body = butlast (drop 5 e); name = takeWhile (\<lambda>c. c \<noteq> CHR '':'') body; tail = dropWhile (\<lambda>c. c \<noteq> CHR '':'') body
      in env_name name \<and> (tail = [] \<or> (prefix '':-'' tail \<and> braces_free tail))))"

text \<open>A value between \<open>get_field\<close> and \<open>format_field\<close>: a string, or an \<open>_EnvValue\<close>.\<close>

datatype field_value = Str string | EnvValue string "string option"

definition get_field :: "surroundings \<Rightarrow> (string, string) dict \<Rightarrow> string \<Rightarrow> (render_exn option) + field_value" where
  "get_field E ctx f =
     (case env_field f of
        Some name \<Rightarrow> Inr (EnvValue name (dict_get (sr_env E) name))
      | None \<Rightarrow> (case dict_get ctx f of None \<Rightarrow> Inl (Some (UnknownPlaceholder f)) | Some v \<Rightarrow> Inr (Str v)))"

definition convert_field :: "surroundings \<Rightarrow> field_value \<Rightarrow> char option \<Rightarrow> (render_exn option) + field_value" where
  "convert_field E v conv =
     (case conv of
        None \<Rightarrow> Inr v
      | Some c \<Rightarrow>
          if c \<in> {CHR ''s'', CHR ''r'', CHR ''a''} then
            Inr (Str (case v of
              EnvValue n _ \<Rightarrow> sr_object_text E n
            | Str t \<Rightarrow> if c = CHR ''s'' then t else if c = CHR ''r'' then py_repr t else py_ascii t))
          else Inl None)"

definition format_field :: "field_value \<Rightarrow> string \<Rightarrow> (render_exn option) + string" where
  "format_field v spec =
     (case v of
        EnvValue name val \<Rightarrow>
          if prefix ''-'' spec then
            Inr (case val of Some (c # cs) \<Rightarrow> c # cs | _ \<Rightarrow> tl spec)
          else if spec \<noteq> [] then Inl (Some (BadEnvSpec name spec))
          else (case val of None \<Rightarrow> Inl (Some (EnvUnset name)) | Some t \<Rightarrow> Inr t)
      | Str t \<Rightarrow> (case format_str t spec of None \<Rightarrow> Inl None | Some u \<Rightarrow> Inr u))"

definition Formatter :: "surroundings \<Rightarrow> (string, string) dict \<Rightarrow> (field_value, render_exn option) fmt_methods" where
  "Formatter E ctx =
     \<lparr>fm_get = get_field E ctx, fm_convert = convert_field E, fm_format = format_field, fm_err = None\<rparr>"

text \<open>
  The error \<open>None\<close> is a \<open>ValueError\<close> of the base class, which becomes a \<open>RenderError\<close> naming the template.
\<close>

definition render_str :: "surroundings \<Rightarrow> (string, string) dict \<Rightarrow> string \<Rightarrow> render_exn + string" where
  "render_str E ctx template =
     (case vformat (Formatter E ctx) 2 (Some 0) template of
        Inr (t, _) \<Rightarrow> Inr t
      | Inl (Some e) \<Rightarrow> Inl e
      | Inl None \<Rightarrow> Inl (BadTemplate template))"

definition build_context :: "surroundings \<Rightarrow> string \<Rightarrow> (string, int) dict \<Rightarrow> string \<Rightarrow> string \<Rightarrow> (string, string) dict" where
  "build_context E inst ports state_dir logs_dir =
     foldl (\<lambda>ctx (name, port). dict_set (''ports.'' @ name) (str_int port) ctx)
       [(''instance.name'', inst), (''state_dir'', state_dir), (''logs_dir'', logs_dir), (''home'', sr_expanduser E ''~'')]
       ports"

definition resolve_config_path :: "surroundings \<Rightarrow> string \<Rightarrow> string \<Rightarrow> string \<Rightarrow> render_exn + string" where
  "resolve_config_path E config_dir what value =
     (let value1 = (if prefix ''~'' value \<and> path_isabs (sr_expanduser E value) then sr_expanduser E value else value)
      in if path_isabs value1 then Inr value1
         else let base = sr_realpath E config_dir; resolved = sr_realpath E (path_join base value1)
              in if resolved \<noteq> base \<and> \<not> prefix (base @ ''/'') resolved then Inl (OutsideTree what value1)
                 else Inr resolved)"

definition resolve_command :: "surroundings \<Rightarrow> string \<Rightarrow> string \<Rightarrow> string list \<Rightarrow> render_exn + string list" where
  "resolve_command E config_dir what argv =
     (case argv of
        [] \<Rightarrow> Inl (RenderPy IndexError)
      | a # as \<Rightarrow>
          if CHR ''/'' \<in> set a then rbind (resolve_config_path E config_dir what a) (\<lambda>r. Inr (r # as))
          else Inr argv)"

text \<open>A \<open>RenderError\<close> is a \<open>ValueError\<close>, so both end as the error of the element.\<close>

definition render_element :: "surroundings \<Rightarrow> (string, string) dict \<Rightarrow> string \<Rightarrow> string \<Rightarrow> render_exn + string list" where
  "render_element E ctx what element =
     (if env_standalone element then
        (case render_str E ctx element of
           Inl _ \<Rightarrow> Inl (BadElement what element)
         | Inr t \<Rightarrow> (case shlex_split t of Inl _ \<Rightarrow> Inl (BadElement what element) | Inr ws \<Rightarrow> Inr ws))
      else rbind (render_str E ctx element) (\<lambda>t. Inr [t]))"

definition render_argv :: "surroundings \<Rightarrow> (string, string) dict \<Rightarrow> string \<Rightarrow> string \<Rightarrow> string list \<Rightarrow> render_exn + string list" where
  "render_argv E ctx config_dir what elements =
     rbind (rmap (render_element E ctx what) elements) (\<lambda>parts.
       if concat parts = [] then Inl (EmptyCommand what)
       else resolve_command E config_dir what (concat parts))"

definition SUN_PATH_MAX :: nat where
  "SUN_PATH_MAX = 107"

definition render_opt :: "surroundings \<Rightarrow> (string, string) dict \<Rightarrow> string option \<Rightarrow> render_exn + string option" where
  "render_opt E ctx v = (case v of Some (c # cs) \<Rightarrow> rbind (render_str E ctx (c # cs)) (\<lambda>t. Inr (Some t)) | _ \<Rightarrow> Inr None)"

definition resolve_opt :: "surroundings \<Rightarrow> string \<Rightarrow> string \<Rightarrow> string option \<Rightarrow> render_exn + string option" where
  "resolve_opt E config_dir what v =
     (case v of None \<Rightarrow> Inr None | Some p \<Rightarrow> rbind (resolve_config_path E config_dir what p) (\<lambda>r. Inr (Some r)))"

definition check_sun_path :: "string option \<Rightarrow> render_exn + unit" where
  "check_sun_path v =
     (case v of None \<Rightarrow> Inr () | Some p \<Rightarrow> if SUN_PATH_MAX < utf8_len p then Inl (SunPathTooLong p) else Inr ())"

definition render_service :: "surroundings \<Rightarrow> service_config \<Rightarrow> (string, string) dict \<Rightarrow> string \<Rightarrow> string option \<Rightarrow>
    render_exn + rendered_service" where
  "render_service E svc ctx config_dir default_cwd =
     rbind (render_argv E ctx config_dir ''cmd'' (sv_cmd svc)) (\<lambda>cmd.
     rbind (case sv_cwd svc of
              Some w \<Rightarrow> render_str E ctx w
            | None \<Rightarrow> Inr (case default_cwd of Some w \<Rightarrow> w | None \<Rightarrow> config_dir)) (\<lambda>cwd0.
     rbind (resolve_config_path E config_dir ''cwd'' cwd0) (\<lambda>cwd.
     rbind (render_opt E ctx (rd_path (sv_ready svc))) (\<lambda>path0.
     rbind (resolve_opt E config_dir ''ready.path'' path0) (\<lambda>path.
     rbind (render_opt E ctx (rd_uds (sv_ready svc))) (\<lambda>uds0.
     rbind (resolve_opt E config_dir ''ready.uds'' uds0) (\<lambda>uds.
     rbind (check_sun_path uds) (\<lambda>_.
     rbind (rmap (\<lambda>(k, v). rbind (render_str E ctx v) (\<lambda>t. Inr (k, t))) (sv_env svc)) (\<lambda>env.
     rbind (render_opt E ctx (rd_http (sv_ready svc))) (\<lambda>http.
     rbind (render_opt E ctx (rd_tcp (sv_ready svc))) (\<lambda>tcp.
     rbind (rmap (\<lambda>w. rbind (render_str E ctx w) (resolve_config_path E config_dir ''watch'')) (sv_watch svc)) (\<lambda>watch.
       Inr \<lparr>re_cmd = cmd, re_cwd = Some cwd, re_env = env, re_http = http, re_tcp = tcp, re_uds = uds,
            re_path = path, re_watch = watch\<rparr>))))))))))))"

definition render_gate_argv :: "surroundings \<Rightarrow> gate_config \<Rightarrow> (string, string) dict \<Rightarrow> string \<Rightarrow> render_exn + string list" where
  "render_gate_argv E g ctx config_dir = render_argv E ctx config_dir ''gate check'' (g_check g)"

definition render_port :: "surroundings \<Rightarrow> (string, string) dict \<Rightarrow> string \<times> pyval \<Rightarrow> render_exn + string \<times> pyval" where
  "render_port E ctx nw =
     (case snd nw of
        PStr want \<Rightarrow>
          if CHR ''{'' \<in> set want then
            rbind (render_str E ctx want) (\<lambda>r.
              case parse_port_spec (PStr r) of
                Inl e \<Rightarrow> Inl (RenderPy e)
              | Inr None \<Rightarrow> Inl (BadPortTemplate (fst nw) r)
              | Inr (Some _) \<Rightarrow> Inr (fst nw, PStr r))
          else Inr nw
      | _ \<Rightarrow> Inr nw)"

definition render_port_specs :: "surroundings \<Rightarrow> orc_config \<Rightarrow> (string, string) dict \<Rightarrow> render_exn + (string, pyval) dict" where
  "render_port_specs E cfg ctx = rmap (render_port E ctx) (oc_ports cfg)"

text \<open>The context of \<open>validate_templates\<close>: dummy ports, directories and binaries.\<close>

definition with_bins :: "string \<Rightarrow> string list \<Rightarrow> (string, string) dict \<Rightarrow> (string, string) dict" where
  "with_bins v bins ctx = foldl (\<lambda>ctx b. dict_set (''bin.'' @ b) v ctx) ctx bins"

definition check_context :: "surroundings \<Rightarrow> orc_config \<Rightarrow> (string, string) dict" where
  "check_context E cfg =
     with_bins ''/dev/null'' (concat (map r_provides (dict_values (oc_resolvers cfg))))
       (build_context E (in_name (oc_instance cfg)) (map (\<lambda>(n, _). (n, 1)) (oc_ports cfg)) ''/dev/null'' ''/dev/null'')"

definition validate_templates :: "surroundings \<Rightarrow> orc_config \<Rightarrow> string \<Rightarrow> render_exn + unit" where
  "validate_templates E cfg config_dir =
     (let ctx = check_context E cfg in
      rbind (render_port_specs E cfg (build_context E (in_name (oc_instance cfg)) [] ''/dev/null'' ''/dev/null'')) (\<lambda>_.
      rbind (case in_workdir (oc_instance cfg) of
               None \<Rightarrow> Inr ''''
             | Some w \<Rightarrow> rbind (render_str E ctx w) (resolve_config_path E config_dir ''instance.workdir'')) (\<lambda>_.
      rbind (rmap (\<lambda>(n, svc). render_service E svc ctx config_dir None) (oc_services cfg)) (\<lambda>_.
      rbind (rmap (\<lambda>(n, g). render_gate_argv E g ctx config_dir) (oc_gates cfg)) (\<lambda>_.
      rbind (rmap (\<lambda>(n, r). render_argv E ctx config_dir (''resolvers.'' @ n @ '' cmd'') (r_cmd r)) (oc_resolvers cfg)) (\<lambda>_.
        Inr ()))))))"

text \<open>The context of a spawn: the instance's own, updated with the resolved binaries.\<close>

definition spawn_context :: "(string, string) dict \<Rightarrow> (string, string) dict \<Rightarrow> (string, string) dict" where
  "spawn_context ctx bin_ctx = foldl (\<lambda>c (k, v). dict_set k v c) ctx bin_ctx"

end
