(* ===== verification/Orc_Template.thy ===== *)
theory Orc_Template
  imports Orc_Render
begin

text \<open>
  Properties of \<^verbatim>\<open>src/jetty/orchestrator/render.py\<close>: what a template means, that a configuration which
  passed the check has no placeholder that fails at launch, and inputs on which the code does something
  it does not mean to.
\<close>

section \<open>What a template means\<close>

text \<open>
  A template as its author sees it: literal text, a context key, an environment variable, and an
  environment variable with a default.
\<close>

datatype piece = Text string | Slot string | EnvSlot string | EnvDefault string string

definition escape_ch :: "char \<Rightarrow> string" where
  "escape_ch c = (if c = CHR ''{'' \<or> c = CHR ''}'' then [c, c] else [c])"

fun print_piece :: "piece \<Rightarrow> string" where
  "print_piece (Text t) = concat (map escape_ch t)"
| "print_piece (Slot k) = ''{'' @ k @ ''}''"
| "print_piece (EnvSlot n) = ''{env.'' @ n @ ''}''"
| "print_piece (EnvDefault n d) = ''{env.'' @ n @ '':-'' @ d @ ''}''"

definition plain_key :: "string \<Rightarrow> bool" where
  "plain_key k \<longleftrightarrow> k \<noteq> [] \<and> \<not> py_isdigit k \<and> list_all (\<lambda>c. c \<notin> set ''{}[:!'') k"

fun piece_ok :: "piece \<Rightarrow> bool" where
  "piece_ok (Text t) = True"
| "piece_ok (Slot k) = (plain_key k \<and> env_field k = None)"
| "piece_ok (EnvSlot n) = env_name n"
| "piece_ok (EnvDefault n d) = (env_name n \<and> braces_free d)"

fun piece_value :: "surroundings \<Rightarrow> (string, string) dict \<Rightarrow> piece \<Rightarrow> render_exn + string" where
  "piece_value E ctx (Text t) = Inr t"
| "piece_value E ctx (Slot k) = (case dict_get ctx k of None \<Rightarrow> Inl (UnknownPlaceholder k) | Some v \<Rightarrow> Inr v)"
| "piece_value E ctx (EnvSlot n) = (case dict_get (sr_env E) n of None \<Rightarrow> Inl (EnvUnset n) | Some v \<Rightarrow> Inr v)"
| "piece_value E ctx (EnvDefault n d) =
     Inr (case dict_get (sr_env E) n of None \<Rightarrow> d | Some v \<Rightarrow> if v = [] then d else v)"

lemma take_spec_plain: "braces_free sp \<Longrightarrow> take_spec 0 (sp @ CHR ''}'' # r) = Some (sp, r)"
  by (induction sp) (auto simp: braces_free_def)

lemma take_field_plain:
  assumes "list_all (\<lambda>c. c \<notin> set ''{}[:!'') k"
  shows "take_field False acc (k @ CHR ''}'' # r) = Some (acc @ k, None, [], r)"
    and "braces_free sp \<Longrightarrow> take_field False acc (k @ CHR '':'' # sp @ CHR ''}'' # r) = Some (acc @ k, None, sp, r)"
  using assms by (induction k arbitrary: acc) (auto simp: take_spec_plain)

lemma next_markup_field:
  assumes "plain_key k"
  shows "next_markup (CHR ''{'' # k @ CHR ''}'' # r) = Field k None [] r"
    and "braces_free sp \<Longrightarrow> next_markup (CHR ''{'' # k @ CHR '':'' # sp @ CHR ''}'' # r) = Field k None sp r"
proof -
  obtain c cs where k: "k = c # cs" using assms by (cases k) (auto simp: plain_key_def)
  have pl: "list_all (\<lambda>c. c \<notin> set ''{}[:!'') k" and c: "c \<noteq> CHR ''{''" using assms k by (auto simp: plain_key_def)
  show "next_markup (CHR ''{'' # k @ CHR ''}'' # r) = Field k None [] r"
    using take_field_plain(1) [OF pl, of "[]" r] c unfolding k by (simp add: next_markup_def del: take_field.simps)
  show "next_markup (CHR ''{'' # k @ CHR '':'' # sp @ CHR ''}'' # r) = Field k None sp r" if "braces_free sp"
    using take_field_plain(2) [OF pl that, of "[]" r] c unfolding k by (simp add: next_markup_def del: take_field.simps)
qed

lemma vformat_literal:
  "vformat F d auto (escape_ch c @ rest) = rbind (vformat F d auto rest) (\<lambda>(t, a). Inr (c # t, a))"
  by (subst vformat.simps) (simp add: escape_ch_def next_markup_def)

lemma vformat_plain: "braces_free sp \<Longrightarrow> vformat F d auto sp = Inr (sp, auto)"
proof (induction sp)
  case Nil
  show ?case by (subst vformat.simps) (simp add: next_markup_def)
next
  case (Cons c sp)
  then have "escape_ch c = [c]" "braces_free sp" by (auto simp: braces_free_def escape_ch_def)
  with Cons.IH vformat_literal [of F d auto c sp] show ?case by simp
qed

lemma vformat_text:
  "vformat F d auto (concat (map escape_ch t) @ rest) = rbind (vformat F d auto rest) (\<lambda>(u, a). Inr (t @ u, a))"
proof (induction t)
  case Nil
  show ?case by (cases "vformat F d auto rest") auto
next
  case (Cons c t)
  then show ?case by (cases "vformat F d auto rest") (auto simp: vformat_literal)
qed

lemma vformat_field:
  assumes "next_markup s = Field k None sp rest" and "k \<noteq> []" and "\<not> py_isdigit k" and "braces_free sp"
  shows "vformat (Formatter E ctx) (Suc d) auto s =
    rbind (get_field E ctx k) (\<lambda>v. rbind (format_field v sp) (\<lambda>t.
    rbind (vformat (Formatter E ctx) (Suc d) auto rest) (\<lambda>(u, a). Inr (t @ u, a))))"
  using assms by (subst vformat.simps) (simp add: number_field_def Formatter_def convert_field_def vformat_plain)

lemma env_key: 
  assumes "env_name n"
  shows "plain_key (''env.'' @ n)" and "env_field (''env.'' @ n) = Some n"
proof -
  obtain c cs where n: "n = c # cs" using assms by (cases n) (auto simp: env_name_def)
  have ch: "d \<notin> set ''{}[:!''" if "is_lower_az d \<or> is_upper_az d \<or> is_ascii_digit d \<or> d = CHR ''_''" for d
    using that by (auto simp: is_lower_az_def is_upper_az_def is_ascii_digit_def)
  have "list_all (\<lambda>c. c \<notin> set ''{}[:!'') n"
    unfolding n list_all_iff using assms ch by (auto simp: n env_name_def list_all_iff)
  then show "plain_key (''env.'' @ n)" by (simp add: plain_key_def py_isdigit_def is_digit_ch_def is_ascii_digit_def)
  show "env_field (''env.'' @ n) = Some n" using assms by (simp add: env_field_def)
qed

lemma vformat_piece:
  assumes "piece_ok p"
  shows "vformat (Formatter E ctx) (Suc d) auto (print_piece p @ rest) =
    rbind (case piece_value E ctx p of Inl e \<Rightarrow> Inl (Some e) | Inr t \<Rightarrow> Inr t) (\<lambda>t.
    rbind (vformat (Formatter E ctx) (Suc d) auto rest) (\<lambda>(u, a). Inr (t @ u, a)))"
proof (cases p)
  case (Text t)
  then show ?thesis by (simp add: vformat_text)
next
  case (Slot k)
  with assms have k: "plain_key k" "env_field k = None" by simp_all
  show ?thesis
    using vformat_field [OF next_markup_field(1) [OF k(1), of rest]] k Slot
    by (auto simp: plain_key_def braces_free_def get_field_def format_field_def format_str_def split: option.splits)
next
  case (EnvSlot n)
  with assms have n: "env_name n" by simp
  show ?thesis
    using vformat_field [OF next_markup_field(1) [OF env_key(1) [OF n], of rest]] env_key [OF n] EnvSlot
    by (auto simp: plain_key_def braces_free_def get_field_def format_field_def split: option.splits)
next
  case (EnvDefault n df)
  with assms have n: "env_name n" and "braces_free df" by simp_all
  then have d: "braces_free (CHR ''-'' # df)" by (simp add: braces_free_def)
  show ?thesis
    using vformat_field [OF next_markup_field(2) [OF env_key(1) [OF n] d, of rest]] env_key [OF n] EnvDefault d
    by (auto simp: plain_key_def get_field_def format_field_def split: option.splits list.splits)
qed

lemma vformat_pieces:
  "list_all piece_ok ps \<Longrightarrow> vformat (Formatter E ctx) (Suc d) auto (concat (map print_piece ps)) =
     (case rmap (piece_value E ctx) ps of Inl e \<Rightarrow> Inl (Some e) | Inr ts \<Rightarrow> Inr (concat ts, auto))"
proof (induction ps)
  case Nil
  show ?case by (subst vformat.simps) (simp add: next_markup_def)
next
  case (Cons p ps)
  then show ?case by (simp add: vformat_piece split: sum.splits)
qed

text \<open>
  C27: a template that is written as text (with its braces doubled), context keys and environment variables
  with or without a default renders to the concatenation of their values; a default stands in for a
  variable that is unset or empty. The first key that is not in the context, or variable that is unset and
  has no default, is the error.
\<close>

theorem template_meaning:
  assumes "list_all piece_ok ps"
  shows "render_str E ctx (concat (map print_piece ps)) = rbind (rmap (piece_value E ctx) ps) (\<lambda>ts. Inr (concat ts))"
  using vformat_pieces [OF assms, of E ctx 1 "Some 0"] by (simp add: render_str_def numeral_2_eq_2 split: sum.splits)

theorem template_meaning_witness:
  "render_str \<lparr>sr_env = [(''PORT'', '''')], sr_expanduser = id, sr_realpath = id, sr_object_text = id\<rparr> [(''home'', ''/root'')]
     ''{home}/{{x}}:{env.PORT:-80}'' = Inr ''/root/{x}:80''"
proof -
  let ?ps = "[Slot ''home'', Text ''/{x}:'', EnvDefault ''PORT'' ''80'']"
  have "list_all piece_ok ?ps" by code_simp
  from template_meaning [OF this] show ?thesis by (simp add: escape_ch_def)
qed

section \<open>What the check promises for the launch\<close>

text \<open>The fields of a template with their conversions and specifications.\<close>

function fmt_parts :: "string \<Rightarrow> (string \<times> char option \<times> string) list option" where
  "fmt_parts s =
     (case next_markup s of
        Finished \<Rightarrow> Some []
      | Malformed \<Rightarrow> None
      | Literal c rest \<Rightarrow> fmt_parts rest
      | Field f conv spec rest \<Rightarrow> map_option (Cons (f, conv, spec)) (fmt_parts rest))"
  by pat_completeness auto
termination
  by (relation "measure length") (auto dest: next_markup_shorter)

declare fmt_parts.simps [simp del]

lemma fmt_fields_markup:
  "fmt_fields s =
     (case next_markup s of
        Finished \<Rightarrow> Some []
      | Malformed \<Rightarrow> None
      | Literal c rest \<Rightarrow> fmt_fields rest
      | Field f conv spec rest \<Rightarrow> map_option (Cons f) (fmt_fields rest))"
  by (subst fmt_fields.simps)
    (auto simp: next_markup_def take_field_name [symmetric] split: list.splits option.splits
      simp del: take_field.simps field_name.simps)

lemma fmt_fields_parts: "fmt_fields s = map_option (map fst) (fmt_parts s)"
proof (induction s rule: fmt_parts.induct)
  case (1 s)
  then show ?case
    by (subst fmt_fields_markup, subst fmt_parts.simps) (auto simp: option.map_comp comp_def split: markup.splits)
qed

text \<open>A template none of whose specifications contains a field.\<close>

definition flat :: "string \<Rightarrow> bool" where
  "flat s \<longleftrightarrow> (case fmt_parts s of None \<Rightarrow> True | Some ps \<Rightarrow> list_all (\<lambda>(f, conv, spec). braces_free spec) ps)"

fun same_kind :: "field_value \<Rightarrow> field_value \<Rightarrow> bool" where
  "same_kind (Str _) (Str _) = True"
| "same_kind v w = (v = w)"

lemma same_kind_convert:
  "same_kind v w \<Longrightarrow> convert_field E v conv = Inr v' \<Longrightarrow> \<exists>w'. convert_field E w conv = Inr w' \<and> same_kind v' w'"
  by (cases v; cases w) (auto simp: convert_field_def split: option.splits if_splits)

lemma same_kind_format: "same_kind v w \<Longrightarrow> format_field v sp = Inr t \<Longrightarrow> \<exists>u. format_field w sp = Inr u"
  by (cases v; cases w) (auto simp: format_field_def format_str_def split: option.splits if_splits)

definition unnumbered :: "(string, string) dict \<Rightarrow> bool" where
  "unnumbered ctx \<longleftrightarrow> (\<forall>f \<in> set (dict_keys ctx). \<not> py_isdigit f)"

lemma digit_key: 
  assumes "unnumbered ctx" and "py_isdigit f"
  shows "get_field E ctx f = Inl (Some (UnknownPlaceholder f))"
proof -
  have "\<not> prefix ''env.'' f" using assms(2) by (auto simp: prefix_def py_isdigit_def is_digit_ch_def is_ascii_digit_def)
  moreover have "dict_get ctx f = None" using assms by (metis unnumbered_def map_of_eq_None_iff set_map)
  ultimately show ?thesis by (simp add: get_field_def env_field_def)
qed

lemma isdigit_str_nat: "py_isdigit (str_nat n)"
  using str_nat_digits [of n] by (auto simp: py_isdigit_def is_digit_ch_def list_all_iff)

lemma named_field:
  assumes "unnumbered ctx" and "number_field auto f = Some (g, auto1)" and "get_field E ctx g = Inr v"
  shows "g = f \<and> auto1 = auto"
  using assms digit_key [OF assms(1)] isdigit_str_nat
  by (fastforce simp: number_field_def split: if_splits option.splits nat.splits)

lemma get_field_more:
  "get_field E c1 f = Inr v \<Longrightarrow> (dict_in f c1 \<Longrightarrow> dict_in f c2) \<Longrightarrow> \<exists>w. get_field E c2 f = Inr w \<and> same_kind v w"
  by (auto simp: get_field_def dict_in_def split: option.splits)

lemma vformat_FieldE:
  assumes "next_markup s = Field f conv spec rest" and "vformat F d auto s = Inr r"
  obtains d' g auto1 v w sp auto2 t u where "d = Suc d'" "number_field auto f = Some (g, auto1)" "fm_get F g = Inr v"
    "fm_convert F v conv = Inr w" "vformat F d' auto1 spec = Inr (sp, auto2)" "fm_format F w sp = Inr t"
    "vformat F d auto2 rest = Inr (u, snd r)"
proof (cases d)
  case 0
  with assms show thesis by (auto simp: vformat.simps [of _ _ _ s] rbind_Inr_iff split: option.splits)
next
  case (Suc d')
  with assms that [of d'] show thesis by (auto simp: vformat.simps [of _ _ _ s] rbind_Inr_iff split: option.splits)
qed

lemma vformat_more:
  assumes "vformat (Formatter E c1) (Suc d) auto s = Inr (t, a)" and "fmt_parts s = Some ps"
    and "list_all (\<lambda>(f, conv, spec). braces_free spec) ps" and "unnumbered c1"
    and "\<forall>f \<in> set (map fst ps). dict_in f c1 \<longrightarrow> dict_in f c2"
  shows "\<exists>u. vformat (Formatter E c2) (Suc d) auto s = Inr (u, a)"
  using assms
proof (induction s arbitrary: t ps rule: fmt_parts.induct)
  case (1 s)
  show ?case
  proof (cases "next_markup s")
    case Finished
    with 1 show ?thesis by (simp add: vformat.simps [of _ _ _ s])
  next
    case Malformed
    with 1 show ?thesis by (simp add: vformat.simps [of _ _ _ s])
  next
    case (Literal c rest)
    then have "fmt_parts rest = Some ps" using "1.prems"(2) by (simp add: fmt_parts.simps [of s])
    with 1 Literal show ?thesis by (fastforce simp: vformat.simps [of _ _ _ s] rbind_Inr_iff)
  next
    case (Field f conv spec rest)
    then obtain qs where qs: "fmt_parts rest = Some qs" "ps = (f, conv, spec) # qs"
      using "1.prems"(2) by (auto simp: fmt_parts.simps [of s])
    with "1.prems"(3) have sp: "braces_free spec" and fl: "list_all (\<lambda>(f, conv, spec). braces_free spec) qs" by simp_all
    obtain g auto1 v w u' u where st: "number_field auto f = Some (g, auto1)" "get_field E c1 g = Inr v"
      "convert_field E v conv = Inr w" "format_field w spec = Inr u'"
      "vformat (Formatter E c1) (Suc d) auto1 rest = Inr (u, a)"
      by (rule vformat_FieldE [OF Field "1.prems"(1)]) (use sp in \<open>auto simp: vformat_plain Formatter_def\<close>)
    have g: "g = f" "auto1 = auto" using named_field [OF "1.prems"(4) st(1,2)] by simp_all
    have "dict_in f c1 \<Longrightarrow> dict_in f c2" using "1.prems"(5) qs(2) by simp
    with st(2) g(1) obtain v2 where v2: "get_field E c2 f = Inr v2" "same_kind v v2" using get_field_more by metis
    from same_kind_convert [OF v2(2) st(3)] obtain w2 where w2: "convert_field E v2 conv = Inr w2" "same_kind w w2" by blast
    from same_kind_format [OF w2(2) st(4)] obtain t2 where t2: "format_field w2 spec = Inr t2" by blast
    have "\<exists>u. vformat (Formatter E c2) (Suc d) auto rest = Inr (u, a)"
      using "1.IH"(2) [OF Field st(5) [unfolded g(2)] qs(1) fl "1.prems"(4)] "1.prems"(5) qs(2) by simp
    with Field sp st(1) g v2(1) w2(1) t2 show ?thesis
      by (auto simp: vformat.simps [of _ _ _ s] vformat_plain Formatter_def)
  qed
qed

lemma vformat_parts: "vformat F d auto s = Inr r \<Longrightarrow> \<exists>ps. fmt_parts s = Some ps"
proof (induction s arbitrary: r auto rule: fmt_parts.induct)
  case (1 s)
  show ?case
  proof (cases "next_markup s")
    case (Literal c rest)
    then have "\<exists>r. vformat F d auto rest = Inr r" using "1.prems" by (auto simp: vformat.simps [of _ _ _ s] rbind_Inr_iff)
    then show ?thesis using "1.IH"(1) [OF Literal] Literal by (auto simp: fmt_parts.simps [of s])
  next
    case (Field f conv spec rest)
    from vformat_FieldE [OF Field "1.prems"] have "\<exists>auto r. vformat F d auto rest = Inr r" by metis
    then show ?thesis using "1.IH"(2) [OF Field] Field by (fastforce simp: fmt_parts.simps [of s])
  qed (use "1.prems" in \<open>auto simp: vformat.simps [of _ _ _ s] fmt_parts.simps [of s]\<close>)
qed

lemma render_str_more:
  assumes "render_str E c1 s = Inr t" and "flat s" and "unnumbered c1"
    and "\<And>f. f \<in> set (the (fmt_fields s)) \<Longrightarrow> dict_in f c1 \<Longrightarrow> dict_in f c2"
  shows "\<exists>u. render_str E c2 s = Inr u"
proof -
  obtain a where v: "vformat (Formatter E c1) 2 (Some 0) s = Inr (t, a)"
    using assms(1) by (auto simp: render_str_def split: sum.splits option.splits prod.splits)
  then obtain ps where ps: "fmt_parts s = Some ps" using vformat_parts by blast
  with assms(2) have "list_all (\<lambda>(f, conv, spec). braces_free spec) ps" by (simp add: flat_def)
  moreover have "\<forall>f \<in> set (map fst ps). dict_in f c1 \<longrightarrow> dict_in f c2" using assms(4) ps by (simp add: fmt_fields_parts)
  ultimately have "\<exists>u. vformat (Formatter E c2) 2 (Some 0) s = Inr (u, a)"
    using vformat_more [of E c1 1 "Some 0" s t a ps c2] v ps assms(3) by (simp add: numeral_2_eq_2)
  then show ?thesis by (auto simp: render_str_def)
qed

text \<open>The strings of a service that are rendered; one that is not given is the empty template.\<close>

definition service_strings :: "service_config \<Rightarrow> string list" where
  "service_strings svc =
     sv_cmd svc @ sv_watch svc @ dict_values (sv_env svc) @
     [or_empty (sv_cwd svc), or_empty (rd_http (sv_ready svc)), or_empty (rd_tcp (sv_ready svc)),
      or_empty (rd_uds (sv_ready svc)), or_empty (rd_path (sv_ready svc))]"

lemma render_empty [simp]: "render_str E ctx [] = Inr []"
  by (simp add: render_str_def vformat_plain braces_free_def)

lemma render_opt_string: "render_opt E ctx v = Inr r \<Longrightarrow> \<exists>t. render_str E ctx (or_empty v) = Inr t"
  by (auto simp: render_opt_def or_empty_def rbind_Inr_iff split: option.splits list.splits)

lemma rmap_ok: "rmap f xs = Inr ys \<Longrightarrow> x \<in> set xs \<Longrightarrow> \<exists>y. f x = Inr y"
  by (auto simp: rmap_Inr_iff in_set_conv_nth list_all2_conv_all_nth)

lemma render_argv_strings:
  assumes "render_argv E ctx dir what es = Inr r" and "e \<in> set es"
  shows "\<exists>t. render_str E ctx e = Inr t"
proof -
  obtain parts where "rmap (render_element E ctx what) es = Inr parts" using assms(1) by (auto simp: render_argv_def rbind_Inr_iff)
  then have "\<exists>ws. render_element E ctx what e = Inr ws" using assms(2) by (rule rmap_ok)
  then show ?thesis by (auto simp: render_element_def rbind_Inr_iff split: if_splits sum.splits)
qed

lemma render_service_strings:
  assumes "render_service E svc ctx dir cwd = Inr r" and "s \<in> set (service_strings svc)"
  shows "\<exists>t. render_str E ctx s = Inr t"
proof -
  have cmd: "\<exists>r. render_argv E ctx dir ''cmd'' (sv_cmd svc) = Inr r"
    and cw: "\<exists>t. render_str E ctx (or_empty (sv_cwd svc)) = Inr t"
    and opts: "\<exists>r. render_opt E ctx (rd_path (sv_ready svc)) = Inr r" "\<exists>r. render_opt E ctx (rd_uds (sv_ready svc)) = Inr r"
      "\<exists>r. render_opt E ctx (rd_http (sv_ready svc)) = Inr r" "\<exists>r. render_opt E ctx (rd_tcp (sv_ready svc)) = Inr r"
    and env: "\<exists>r. rmap (\<lambda>(k, v). rbind (render_str E ctx v) (\<lambda>t. Inr (k, t))) (sv_env svc) = Inr r"
    and watch: "\<exists>r. rmap (\<lambda>w. rbind (render_str E ctx w) (resolve_config_path E dir ''watch'')) (sv_watch svc) = Inr r"
    using assms(1) by (auto simp: render_service_def rbind_Inr_iff or_empty_def split: option.splits)
  have "\<exists>t. render_str E ctx v = Inr t" if kv: "(k, v) \<in> set (sv_env svc)" for k v
    using env rmap_ok [OF _ kv] by (fastforce simp: rbind_Inr_iff)
  moreover have "\<exists>t. render_str E ctx w = Inr t" if w: "w \<in> set (sv_watch svc)" for w
    using watch rmap_ok [OF _ w] by (fastforce simp: rbind_Inr_iff)
  ultimately show ?thesis
    using assms(2) cmd cw opts unfolding service_strings_def
    by (auto dest: render_argv_strings render_opt_string)
qed

definition static_keys :: "string set" where
  "static_keys = {''instance.name'', ''state_dir'', ''logs_dir'', ''home''}"

lemma foldl_dict_keys:
  "set (dict_keys (foldl (\<lambda>c x. dict_set (key x) (v x) c) ctx xs)) = set (dict_keys ctx) \<union> key ` set xs"
  by (induction xs arbitrary: ctx) (auto simp: dict_keys_set simp del: set_map)

lemma context_keys:
  "set (dict_keys (build_context E inst ports sd ld)) = static_keys \<union> (@) ''ports.'' ` set (dict_keys ports)"
  "set (dict_keys (with_bins v bins ctx)) = set (dict_keys ctx) \<union> (@) ''bin.'' ` set bins"
  "set (dict_keys (spawn_context ctx bs)) = set (dict_keys ctx) \<union> set (dict_keys bs)"
proof -
  let ?own = "[(''instance.name'', inst), (''state_dir'', sd), (''logs_dir'', ld), (''home'', sr_expanduser E ''~'')]"
  have "build_context E inst ports sd ld = foldl (\<lambda>c x. dict_set (''ports.'' @ fst x) (str_int (snd x)) c) ?own ports"
    by (simp add: build_context_def case_prod_unfold)
  moreover have "set (dict_keys ?own) = static_keys" unfolding static_keys_def by simp
  moreover have "(\<lambda>x. ''ports.'' @ fst x) ` set ports = (@) ''ports.'' ` set (dict_keys ports)" by (simp add: image_image)
  ultimately show "set (dict_keys (build_context E inst ports sd ld)) = static_keys \<union> (@) ''ports.'' ` set (dict_keys ports)"
    using foldl_dict_keys [of "\<lambda>x. ''ports.'' @ fst x" "\<lambda>x. str_int (snd x)" ?own ports] by simp
  show "set (dict_keys (with_bins v bins ctx)) = set (dict_keys ctx) \<union> (@) ''bin.'' ` set bins"
    unfolding with_bins_def by (rule foldl_dict_keys)
  show "set (dict_keys (spawn_context ctx bs)) = set (dict_keys ctx) \<union> set (dict_keys bs)"
    using foldl_dict_keys [of fst snd ctx bs] by (simp add: spawn_context_def case_prod_unfold)
qed

lemma check_context_keys:
  "set (dict_keys (check_context E cfg)) =
     static_keys \<union> (@) ''ports.'' ` set (dict_keys (oc_ports cfg)) \<union>
     (@) ''bin.'' ` set (concat (map r_provides (dict_values (oc_resolvers cfg))))"
  unfolding check_context_def context_keys by (auto simp: image_iff case_prod_unfold comp_def)

lemma check_context_unnumbered: "unnumbered (check_context E cfg)"
  unfolding unnumbered_def check_context_keys
  by (auto simp: static_keys_def py_isdigit_def is_digit_ch_def is_ascii_digit_def)

lemma bin_refs_field:
  assumes "s \<in> set ss" and "fmt_fields s = Some fs" and "''bin.'' @ b \<in> set fs"
  shows "b \<in> set (bin_refs ss)"
  using assms unfolding bin_refs_def by (force simp: image_iff)


text \<open>One service of a resolver's binary, started with a given first argument.\<close>

definition launch_config :: "string \<Rightarrow> orc_config" where
  "launch_config arg =
     \<lparr>oc_instance = \<lparr>in_name = ''dev'', in_containment = ''auto'', in_workdir = None\<rparr>,
      oc_ports = [(''http'', PInt 8000)], oc_gates = [],
      oc_resolvers = [(''rel'', \<lparr>r_cmd = [''which''], r_provides = [''api''], r_timeout = Fin 30, r_refresh = ''spawn'',
        r_cache = Fin 5, r_copy = False, r_keep_days = Fin 7, r_requires = []\<rparr>)],
      oc_services = [(''web'', sample_service []\<lparr>sv_cmd := [arg, ''--port={ports.http}'']\<rparr>)]\<rparr>"

definition plain_around :: surroundings where
  "plain_around = \<lparr>sr_env = [(''USER'', ''ann'')], sr_expanduser = (\<lambda>_. ''/home/ann''), sr_realpath = id,
     sr_object_text = (\<lambda>_. ''<_EnvValue object>'')\<rparr>"


text \<open>
  Three gaps. A binary named in the default of an environment variable passes the check, but it is not
  among the binaries the service refers to, so nothing resolves it and every spawn fails on an unknown
  placeholder, even when the variable is set. An environment variable with a conversion renders to the
  text of an internal object instead of its value. And with the configuration in the root directory every
  relative path counts as outside of it.
\<close>

theorem render_gaps:
  "validate_templates plain_around (launch_config ''{env.USER:-{bin.api}}'') ''/srv'' = Inr () \<and>
   service_bin_refs (sample_service []\<lparr>sv_cmd := [''{env.USER:-{bin.api}}'', ''--port={ports.http}'']\<rparr>) = [] \<and>
   render_str plain_around (build_context plain_around ''dev'' [(''http'', 8003)] ''/run/dev'' ''/log'') ''{env.USER:-{bin.api}}'' =
     Inl (UnknownPlaceholder ''bin.api'') \<and>
   render_str plain_around [] ''{env.USER}'' = Inr ''ann'' \<and>
   render_str plain_around [] ''{env.USER!s}'' = Inr ''<_EnvValue object>'' \<and>
   resolve_config_path plain_around ''/srv'' ''cwd'' ''data'' = Inr ''/srv/data'' \<and>
   resolve_config_path plain_around ''/'' ''cwd'' ''data'' = Inl (OutsideTree ''cwd'' ''data'')"
  by (intro conjI; code_simp)

end
