(* ===== verification/Mail.thy ===== *)
theory Mail
  imports Foreign_Surface
begin

text \<open>
  The mail module: \<^verbatim>\<open>src/jetty/modules/mail/driver.py\<close> (messages and typed failures),
  \<^verbatim>\<open>src/jetty/modules/mail/spool.py\<close> (the spool driver) and \<^verbatim>\<open>src/jetty/modules/mail/module.py\<close> (wire
  validation, routes, error mapping).

  The spool directory is part of the state: a dictionary from file names to contents, where a file
  is a JSON document, or something that does not parse, or something that cannot be read. What the
  operating system does with a write (\<open>sp_writes\<close>: it succeeds, fails to open the file, or fails
  after truncating it) and the acceptance times are arbitrary sequences, and the hash that names
  message and file is a parameter. Keys of the idempotency store are strings: a spool file with
  another kind of key adds an entry that no lookup by a message's key can find, and is left out.
\<close>

section \<open>Messages and failures\<close>

record mail_send =
  ms_key :: string
  ms_from :: string
  ms_to :: "string list"
  ms_subject :: string
  ms_text :: string
  ms_cc :: "string list"
  ms_bcc :: "string list"
  ms_reply_to :: "string list"
  ms_html :: string
  ms_thread_key :: string
  ms_tags :: "string list"
  ms_dry_run :: bool

record send_result =
  sr_message_id :: pyval
  sr_deduped :: bool

text \<open>The driver's typed exceptions, and any other.\<close>

datatype driver_exn =
  SenderNotPermitted string
| UnroutableRecipients "string list"
| MessageTooLarge
| RateLimited int
| DriverRaised py_exn

section \<open>The spool driver\<close>

datatype spool_file = JsonFile pyval | BadFile | Unreadable

datatype write_outcome = Written | OpenFails | Truncated

record spool =
  sp_sender :: string
  sp_domain :: string
  sp_fail :: string
  sp_hash :: "string \<Rightarrow> string"
  sp_files :: "(string, spool_file) dict"
  sp_seen :: "(string, pyval) dict"
  sp_writes :: "nat \<Rightarrow> write_outcome"
  sp_now :: "nat \<Rightarrow> string"
  sp_tick :: nat

definition strip_plus :: "string \<Rightarrow> string" where
  "strip_plus address =
     (case partition_ch (CHR ''@'') address of (local_part, _, domain) \<Rightarrow>
        fst (partition_ch (CHR ''+'') local_part) @ ''@'' @ domain)"

text \<open>One file of the boot scan: \<open>Inl\<close> is an exception that is not caught.\<close>

definition scan_file :: "spool_file \<Rightarrow> (string, pyval) dict \<Rightarrow> py_exn + (string, pyval) dict" where
  "scan_file content seen =
     (case content of
        JsonFile (PDict row) \<Rightarrow>
          (case (dict_get row ''messageId'', dict_get row ''idempotencyKey'') of
             (Some mid, Some (PStr key)) \<Rightarrow> Inr (dict_set key mid seen)
           | (Some mid, Some (PList _)) \<Rightarrow> Inl TypeError
           | (Some mid, Some (PDict _)) \<Rightarrow> Inl TypeError
           | _ \<Rightarrow> Inr seen)
      | JsonFile _ \<Rightarrow> Inl TypeError
      | _ \<Rightarrow> Inr seen)"

fun scan_files :: "(string \<times> spool_file) list \<Rightarrow> (string, pyval) dict \<Rightarrow> py_exn + (string, pyval) dict" where
  "scan_files [] seen = Inr seen"
| "scan_files ((name, content) # rest) seen =
     (if \<not> suffix ''.json'' name then scan_files rest seen
      else rbind (scan_file content seen) (scan_files rest))"

definition SpoolMailDriver :: "string \<Rightarrow> string \<Rightarrow> string \<Rightarrow> (string \<Rightarrow> string) \<Rightarrow> (nat \<Rightarrow> write_outcome) \<Rightarrow>
    (nat \<Rightarrow> string) \<Rightarrow> (string, spool_file) dict \<Rightarrow> py_exn + spool" where
  "SpoolMailDriver sender domain fail h writes now files =
     rbind (scan_files files []) (\<lambda>seen.
       Inr \<lparr>sp_sender = sender, sp_domain = domain, sp_fail = fail, sp_hash = h, sp_files = files,
            sp_seen = seen, sp_writes = writes, sp_now = now, sp_tick = 0\<rparr>)"

definition digest :: "spool \<Rightarrow> string \<Rightarrow> string" where
  "digest s key = take 16 (sp_hash s key)"

definition message_id :: "spool \<Rightarrow> string \<Rightarrow> string" where
  "message_id s key = ''<'' @ digest s key @ ''@jetty-mail>''"

definition opt_list :: "string \<Rightarrow> string list \<Rightarrow> (string \<times> pyval) list" where
  "opt_list k xs = (if xs \<noteq> [] then [(k, PList (map PStr xs))] else [])"

definition opt_text :: "string \<Rightarrow> string \<Rightarrow> (string \<times> pyval) list" where
  "opt_text k x = (if x \<noteq> [] then [(k, PStr x)] else [])"

definition spool_row :: "mail_send \<Rightarrow> string \<Rightarrow> string \<Rightarrow> pyval" where
  "spool_row msg mid accepted_at =
     PDict ([(''idempotencyKey'', PStr (ms_key msg)), (''from'', PStr (ms_from msg)),
             (''to'', PList (map PStr (ms_to msg)))] @
            opt_list ''cc'' (ms_cc msg) @ opt_list ''bcc'' (ms_bcc msg) @
            opt_list ''replyTo'' (ms_reply_to msg) @
            [(''subject'', PStr (ms_subject msg)), (''text'', PStr (ms_text msg))] @
            opt_text ''html'' (ms_html msg) @ opt_text ''threadKey'' (ms_thread_key msg) @
            opt_list ''tags'' (ms_tags msg) @
            [(''messageId'', PStr mid), (''acceptedAt'', PStr accepted_at)])"

type_synonym 'a spool_op = "(spool, driver_exn, 'a) opn"

definition unroutable :: "spool \<Rightarrow> string list \<Rightarrow> string list" where
  "unroutable s recipients =
     (if sp_domain s = [] then []
      else filter (\<lambda>a. snd (snd (rpartition_ch (CHR ''@'') a)) \<noteq> sp_domain s) recipients)"

text \<open>Writing the file and remembering the key.\<close>

definition deliver :: "mail_send \<Rightarrow> send_result spool_op" where
  "deliver msg s =
     (let key = ms_key msg; name = digest s key @ ''.json''; mid = message_id s key;
          s1 = s\<lparr>sp_tick := Suc (sp_tick s)\<rparr>
      in case sp_writes s (sp_tick s) of
           OpenFails \<Rightarrow> (Inl (DriverRaised OSError), s1)
         | Truncated \<Rightarrow> (Inl (DriverRaised OSError), s1\<lparr>sp_files := dict_set name BadFile (sp_files s)\<rparr>)
         | Written \<Rightarrow>
             (Inr \<lparr>sr_message_id = PStr mid, sr_deduped = False\<rparr>,
              s1\<lparr>sp_files := dict_set name (JsonFile (spool_row msg mid (sp_now s (sp_tick s)))) (sp_files s),
                 sp_seen := dict_set key (PStr mid) (sp_seen s)\<rparr>))"

definition spool_send :: "mail_send \<Rightarrow> send_result spool_op" where
  "spool_send msg s =
     (let recipients = ms_to msg @ ms_cc msg @ ms_bcc msg; bad = unroutable s recipients
      in if sp_fail s = ''503'' then (Inl (DriverRaised RuntimeError), s)
         else if sp_fail s = ''429'' then (Inl (RateLimited 60), s)
         else if sp_sender s \<noteq> [] \<and> strip_plus (ms_from msg) \<noteq> strip_plus (sp_sender s)
         then (Inl (SenderNotPermitted (''only '' @ sp_sender s @ '' may send'')), s)
         else if sp_fail s = ''422'' \<or> bad \<noteq> []
         then (Inl (UnroutableRecipients (if bad \<noteq> [] then bad else take 1 recipients)), s)
         else if ms_dry_run msg
         then (Inr \<lparr>sr_message_id = PStr ''<dry-run@jetty-mail>'', sr_deduped = False\<rparr>, s)
         else case dict_get_or (sp_seen s) (ms_key msg) PNone of
                PNone \<Rightarrow> deliver msg s
              | existing \<Rightarrow> (Inr \<lparr>sr_message_id = existing, sr_deduped = True\<rparr>, s))"

text \<open>\<open>ping\<close>; whether the directory is writable is the operating system's answer.\<close>

definition spool_ping :: "bool \<Rightarrow> unit spool_op" where
  "spool_ping writable s =
     (if sp_fail s = ''503'' \<or> \<not> writable then (Inl (DriverRaised RuntimeError), s) else (Inr (), s))"

section \<open>The surface\<close>

text \<open>The errors of the contract, one constructor per kind of \<open>raise MailApiError\<close>.\<close>

datatype mail_error =
  BadRequest string
| BadToken
| SenderRefused string
| Unroutable "string list"
| TooLarge
| Throttled int
| UpstreamUnavailable
| MailNotFound
| MailInternal

primrec mail_error_parts :: "mail_error \<Rightarrow> int \<times> string \<times> (string \<times> pyval) list" where
  "mail_error_parts (BadRequest d) = (400, ''bad_request'', [(''detail'', PStr d)])"
| "mail_error_parts BadToken = (401, ''missing_or_bad_bearer_token'', [])"
| "mail_error_parts (SenderRefused d) = (403, ''sender_not_permitted'', [(''detail'', PStr d)])"
| "mail_error_parts (Unroutable rs) = (422, ''unroutable_recipients'', [(''recipients'', PList (map PStr rs))])"
| "mail_error_parts TooLarge = (413, ''message_too_large'', [])"
| "mail_error_parts (Throttled n) = (429, ''rate_limited'', [(''retryAfterSeconds'', PInt n)])"
| "mail_error_parts UpstreamUnavailable = (503, ''upstream_unavailable'', [])"
| "mail_error_parts MailNotFound = (404, ''not_found'', [])"
| "mail_error_parts MailInternal = (500, ''internal_error'', [])"

definition mail_error_response :: "mail_error \<Rightarrow> http_response" where
  "mail_error_response e =
     (case mail_error_parts e of (st, slug, extra) \<Rightarrow>
        \<lparr>resp_status = st, resp_json = PDict ((''error'', PStr slug) # extra)\<rparr>)"

datatype mail_reply = ReplyOk pyval | ReplyAccepted pyval

definition mail_route :: "mail_error + mail_reply \<Rightarrow> http_response" where
  "mail_route r =
     (case r of
        Inl e \<Rightarrow> mail_error_response e
      | Inr (ReplyOk v) \<Rightarrow> \<lparr>resp_status = 200, resp_json = v\<rparr>
      | Inr (ReplyAccepted v) \<Rightarrow> \<lparr>resp_status = 202, resp_json = v\<rparr>)"

definition MAX_BODY_BYTES :: int where "MAX_BODY_BYTES = 2 * 1024 * 1024"
definition MAX_RECIPIENTS :: int where "MAX_RECIPIENTS = 100"
definition MAX_KEY_BYTES :: int where "MAX_KEY_BYTES = 128"
definition MAX_SUBJECT_CHARS :: int where "MAX_SUBJECT_CHARS = 512"
definition MAX_TEXT_BYTES :: int where "MAX_TEXT_BYTES = 256 * 1024"
definition MAX_HTML_BYTES :: int where "MAX_HTML_BYTES = 512 * 1024"
definition MAX_THREAD_KEY_BYTES :: int where "MAX_THREAD_KEY_BYTES = 256"
definition MAX_TAGS :: int where "MAX_TAGS = 10"
definition MAX_TAG_BYTES :: int where "MAX_TAG_BYTES = 64"
definition MAX_ADDRESS_BYTES :: int where "MAX_ADDRESS_BYTES = 320"
definition MAX_REPLY_TO :: int where "MAX_REPLY_TO = 5"

definition blen :: "string \<Rightarrow> int" where
  "blen s = int (utf8_len s)"

text \<open>\<open>^[^\s@]+@[^\s@]+\.[^\s@]+$\<close>: the domain has a dot that is neither its first nor its last character.\<close>

definition plain_address :: "string \<Rightarrow> bool" where
  "plain_address a =
     (case partition_ch (CHR ''@'') a of (local_part, sep, domain) \<Rightarrow>
        sep \<and> local_part \<noteq> [] \<and> CHR ''@'' \<notin> set domain \<and> list_all (\<lambda>c. \<not> is_space c) a \<and>
        CHR ''.'' \<in> set (butlast (tl domain)))"

definition ADDRESS :: "string \<Rightarrow> bool" where
  "ADDRESS a = re_dollar plain_address a"

definition MAIL_FIELDS :: "string list" where
  "MAIL_FIELDS =
     [''idempotencyKey'', ''from'', ''replyTo'', ''to'', ''cc'', ''bcc'',
      ''subject'', ''text'', ''html'', ''threadKey'', ''tags'', ''dryRun'']"

definition str_list :: "pyval \<Rightarrow> string list option" where
  "str_list v = (case v of PList xs \<Rightarrow> if list_all is_str xs then Some (map str_of xs) else None | _ \<Rightarrow> None)"

definition addresses :: "pyval \<Rightarrow> string \<Rightarrow> int option \<Rightarrow> mail_error + string list" where
  "addresses value field_name maximum =
     (if value = PNone then Inr []
      else case str_list value of
        None \<Rightarrow> Inl (BadRequest (field_name @ '' must be an array of addresses''))
      | Some xs \<Rightarrow>
          if \<not> list_all (\<lambda>a. ADDRESS a \<and> blen a \<le> MAX_ADDRESS_BYTES) xs
          then Inl (BadRequest (field_name @ '': not a plain local@domain address''))
          else case maximum of
                 None \<Rightarrow> Inr xs
               | Some m \<Rightarrow>
                   if int (length xs) > m
                   then Inl (BadRequest (field_name @ '' carries more than '' @ str_int m @ '' addresses''))
                   else Inr xs)"

definition bounded_str :: "pyval \<Rightarrow> string \<Rightarrow> int \<Rightarrow> bool \<Rightarrow> mail_error + string" where
  "bounded_str value field_name max_bytes required =
     (case value of
        PNone \<Rightarrow> if required then Inl (BadRequest (field_name @ '' is required'')) else Inr []
      | PStr s \<Rightarrow>
          if required \<and> s = [] then Inl (BadRequest (field_name @ '' must be a non-empty string''))
          else if blen s > max_bytes
          then Inl (BadRequest (field_name @ '' exceeds '' @ str_int max_bytes @ '' bytes''))
          else Inr s
      | _ \<Rightarrow> Inl (BadRequest (field_name @ '' must be a non-empty string'')))"

definition parse_from :: "pyval \<Rightarrow> mail_error + string" where
  "parse_from v =
     (case v of
        PStr a \<Rightarrow> if ADDRESS a then Inr a else Inl (BadRequest ''from must be a plain local@domain address'')
      | _ \<Rightarrow> Inl (BadRequest ''from must be a plain local@domain address''))"

definition subject_error :: mail_error where
  "subject_error = BadRequest (''subject is required, one line, at most '' @ str_int MAX_SUBJECT_CHARS @ '' chars'')"

definition parse_subject :: "pyval \<Rightarrow> mail_error + string" where
  "parse_subject v =
     (case v of
        PStr s \<Rightarrow>
          if s = [] \<or> int (length s) > MAX_SUBJECT_CHARS then Inl subject_error
          else if ch_return \<in> set s \<or> ch_newline \<in> set s
          then Inl (BadRequest ''subject must not contain CR or LF'') else Inr s
      | _ \<Rightarrow> Inl subject_error)"

definition parse_tags :: "pyval \<Rightarrow> mail_error + string list" where
  "parse_tags v =
     (case str_list (if v = PNone then PList [] else v) of
        None \<Rightarrow> Inl (BadRequest ''tags must be an array of strings'')
      | Some tags \<Rightarrow>
          if int (length tags) > MAX_TAGS
          then Inl (BadRequest (''tags carries more than '' @ str_int MAX_TAGS @ '' entries''))
          else if list_ex (\<lambda>t. blen t > MAX_TAG_BYTES) tags
          then Inl (BadRequest (''tags entries are at most '' @ str_int MAX_TAG_BYTES @ '' bytes''))
          else Inr tags)"

definition parse_send :: "pyval \<Rightarrow> mail_error + mail_send" where
  "parse_send raw =
     (case raw of
        PDict body \<Rightarrow>
          (case unknown_keys MAIL_FIELDS body of
             k # _ \<Rightarrow> Inl (BadRequest (''unknown field '' @ py_repr k @ '' in request body''))
           | [] \<Rightarrow>
               rbind (bounded_str (pget body ''idempotencyKey'') ''idempotencyKey'' MAX_KEY_BYTES True) (\<lambda>key.
               rbind (parse_from (pget body ''from'')) (\<lambda>from_addr.
               rbind (addresses (pget body ''to'') ''to'' None) (\<lambda>to.
               if to = [] then Inl (BadRequest ''to requires at least one recipient'')
               else
               rbind (addresses (pget body ''cc'') ''cc'' None) (\<lambda>cc.
               rbind (addresses (pget body ''bcc'') ''bcc'' None) (\<lambda>bcc.
               rbind (addresses (pget body ''replyTo'') ''replyTo'' (Some MAX_REPLY_TO)) (\<lambda>reply_to.
               if int (length to + length cc + length bcc) > MAX_RECIPIENTS
               then Inl (BadRequest (''to+cc+bcc exceeds '' @ str_int MAX_RECIPIENTS @ '' addresses''))
               else
               rbind (parse_subject (pget body ''subject'')) (\<lambda>subject.
               rbind (bounded_str (pget body ''text'') ''text'' MAX_TEXT_BYTES True) (\<lambda>txt.
               rbind (bounded_str (pget body ''html'') ''html'' MAX_HTML_BYTES False) (\<lambda>html.
               rbind (bounded_str (pget body ''threadKey'') ''threadKey'' MAX_THREAD_KEY_BYTES False) (\<lambda>thread_key.
               rbind (parse_tags (pget body ''tags'')) (\<lambda>tags.
               case dict_get_or body ''dryRun'' (PBool False) of
                 PBool dry_run \<Rightarrow>
                   Inr \<lparr>ms_key = key, ms_from = from_addr, ms_to = to, ms_subject = subject, ms_text = txt,
                        ms_cc = cc, ms_bcc = bcc, ms_reply_to = reply_to, ms_html = html,
                        ms_thread_key = thread_key, ms_tags = tags, ms_dry_run = dry_run\<rparr>
               | _ \<Rightarrow> Inl (BadRequest ''dryRun must be a boolean'')))))))))))))
      | _ \<Rightarrow> Inl (BadRequest ''request body must be an object''))"

section \<open>Routes\<close>

type_synonym 'a mail_op = "(spool, mail_error, 'a) opn"

definition require_token :: "string \<Rightarrow> string option \<Rightarrow> mail_error + unit" where
  "require_token token authorization =
     (if token = [] then Inr ()
      else if authorization \<noteq> Some (''Bearer '' @ token) then Inl BadToken else Inr ())"

definition mail_drive_exn :: "driver_exn \<Rightarrow> mail_error" where
  "mail_drive_exn e =
     (case e of
        SenderNotPermitted d \<Rightarrow> SenderRefused d
      | UnroutableRecipients rs \<Rightarrow> Unroutable rs
      | MessageTooLarge \<Rightarrow> TooLarge
      | RateLimited n \<Rightarrow> Throttled n
      | DriverRaised _ \<Rightarrow> UpstreamUnavailable)"

definition mail_drive :: "'a spool_op \<Rightarrow> 'a mail_op" where
  "mail_drive m s = (case m s of (Inl e, s') \<Rightarrow> (Inl (mail_drive_exn e), s') | (Inr x, s') \<Rightarrow> (Inr x, s'))"

datatype mail_request =
  MHealthz bool \<comment> \<open>the directory is writable\<close>
| MSend "string option" int "py_exn + pyval" \<comment> \<open>authorization, body length, parsed body\<close>
| MOther "string option"

definition h_mail_healthz :: "bool \<Rightarrow> mail_reply mail_op" where
  "h_mail_healthz writable =
     sbind (mail_drive (spool_ping writable)) (\<lambda>_. sret (ReplyOk (PDict [(''ok'', PBool True)])))"

definition h_mail_send :: "string \<Rightarrow> string option \<Rightarrow> int \<Rightarrow> py_exn + pyval \<Rightarrow> mail_reply mail_op" where
  "h_mail_send token authorization body_len raw =
     sbind (slift (require_token token authorization)) (\<lambda>_.
     if body_len > MAX_BODY_BYTES then sraise (BadRequest ''request body too large'')
     else sbind (slift (case raw of Inl _ \<Rightarrow> Inl (BadRequest ''unparseable body'') | Inr v \<Rightarrow> parse_send v)) (\<lambda>msg.
          sbind (mail_drive (spool_send msg)) (\<lambda>result.
            sret (ReplyAccepted (PDict [(''messageId'', sr_message_id result), (''deduped'', PBool (sr_deduped result))])))))"

definition h_mail_unmatched :: "string \<Rightarrow> string option \<Rightarrow> mail_reply mail_op" where
  "h_mail_unmatched token authorization =
     sbind (slift (require_token token authorization)) (\<lambda>_. sraise MailNotFound)"

primrec mail_handle :: "string \<Rightarrow> mail_request \<Rightarrow> mail_reply mail_op" where
  "mail_handle token (MHealthz writable) = h_mail_healthz writable"
| "mail_handle token (MSend auth n raw) = h_mail_send token auth n raw"
| "mail_handle token (MOther auth) = h_mail_unmatched token auth"

definition mail_serve :: "string \<Rightarrow> mail_request \<Rightarrow> spool \<Rightarrow> http_response \<times> spool" where
  "mail_serve token = serve_with (mail_handle token) mail_route"

definition mail_run :: "string \<Rightarrow> mail_request list \<Rightarrow> spool \<Rightarrow> http_response list \<times> spool" where
  "mail_run token = run_with (mail_handle token) mail_route"

section \<open>Construction\<close>

record mail_settings =
  mset_driver :: string
  mset_token :: string
  mset_spool_dir :: string
  mset_sender :: string
  mset_domain :: string
  mset_fail :: string

definition mail_settings_check :: "mail_settings \<Rightarrow> bool" where
  "mail_settings_check cfg \<longleftrightarrow>
     mset_fail cfg \<in> {[], ''503'', ''429'', ''422''} \<and>
     \<not> (mset_driver cfg = ''spool'' \<and> mset_spool_dir cfg = [])"

definition MailModule :: "mail_settings \<Rightarrow> (string \<Rightarrow> string) \<Rightarrow> (nat \<Rightarrow> write_outcome) \<Rightarrow> (nat \<Rightarrow> string) \<Rightarrow>
    (string, spool_file) dict \<Rightarrow> py_exn + spool" where
  "MailModule cfg h writes now files =
     (if \<not> mail_settings_check cfg then Inl ValueError
      else if mset_driver cfg \<noteq> ''spool'' then Inl ValueError
      else SpoolMailDriver (mset_sender cfg) (mset_domain cfg) (mset_fail cfg) h writes now files)"

end
