(* ===== verification/Mail_Service.thy ===== *)
theory Mail_Service
  imports Mail
begin

text \<open>
  Properties of the mail module: at most one delivery per idempotency key, refusals without a trace,
  what an acceptance means on disk, and the reconstruction of the idempotency store from the spool.
\<close>

section \<open>The driver\<close>

lemma spool_send_error_quiet:
  "spool_send msg s = (Inl e, s') \<Longrightarrow> (\<And>x. e \<noteq> DriverRaised x) \<Longrightarrow> s' = s"
  by (auto simp: spool_send_def deliver_def Let_def split: if_splits pyval.splits write_outcome.splits)

lemma deliver_keeps_config:
  "deliver msg s = (r, s') \<Longrightarrow>
   sp_sender s' = sp_sender s \<and> sp_domain s' = sp_domain s \<and> sp_fail s' = sp_fail s \<and> sp_hash s' = sp_hash s \<and>
   sp_writes s' = sp_writes s \<and> sp_now s' = sp_now s"
  by (auto simp: deliver_def Let_def split: write_outcome.splits)

text \<open>A sent message either leaves the state alone or was delivered.\<close>

lemma spool_send_cases:
  assumes "spool_send msg s = (r, s')"
  obtains "s' = s" "\<And>x. r = Inr x \<Longrightarrow>
      (ms_dry_run msg \<and> \<not> sr_deduped x) \<or>
      (\<not> ms_dry_run msg \<and> sr_deduped x \<and> dict_get (sp_seen s) (ms_key msg) = Some (sr_message_id x) \<and>
       sr_message_id x \<noteq> PNone)"
  | "deliver msg s = (r, s')" "\<not> ms_dry_run msg" "dict_get_or (sp_seen s) (ms_key msg) PNone = PNone"
proof -
  consider (del) "spool_send msg s = deliver msg s" "\<not> ms_dry_run msg"
      "dict_get_or (sp_seen s) (ms_key msg) PNone = PNone"
    | (same) "s' = s" "\<And>x. r = Inr x \<Longrightarrow>
      (ms_dry_run msg \<and> \<not> sr_deduped x) \<or>
      (\<not> ms_dry_run msg \<and> sr_deduped x \<and> dict_get_or (sp_seen s) (ms_key msg) PNone = sr_message_id x \<and>
       sr_message_id x \<noteq> PNone)"
    using assms by (auto simp: spool_send_def Let_def split: if_splits pyval.splits)
  then show thesis
  proof cases
    case del
    with assms show ?thesis using that(2) by simp
  next
    case same
    show ?thesis
    proof (rule that(1) [OF same(1)])
      fix x assume "r = Inr x"
      from same(2) [OF this] show "(ms_dry_run msg \<and> \<not> sr_deduped x) \<or>
        (\<not> ms_dry_run msg \<and> sr_deduped x \<and> dict_get (sp_seen s) (ms_key msg) = Some (sr_message_id x) \<and>
         sr_message_id x \<noteq> PNone)"
        by (auto simp: dict_get_or_def split: option.splits)
    qed
  qed
qed

section \<open>The surface as a whole\<close>

text \<open>The configuration stays, and a key once accepted keeps its message id.\<close>

definition spool_later :: "spool \<Rightarrow> spool \<Rightarrow> bool" where
  "spool_later s s' \<longleftrightarrow>
     sp_sender s' = sp_sender s \<and> sp_domain s' = sp_domain s \<and> sp_fail s' = sp_fail s \<and>
     sp_hash s' = sp_hash s \<and>
     (\<forall>key v. dict_get (sp_seen s) key = Some v \<longrightarrow> v \<noteq> PNone \<longrightarrow> dict_get (sp_seen s') key = Some v)"

definition mail_loud :: "mail_error \<Rightarrow> bool" where
  "mail_loud e \<longleftrightarrow> e = UpstreamUnavailable \<or> e = MailInternal"

text \<open>The flat error shape of the contract.\<close>

definition slug_shape :: "http_response \<Rightarrow> bool" where
  "slug_shape r =
     (case resp_json r of PDict ((k, PStr slug) # _) \<Rightarrow> k = ''error'' | _ \<Rightarrow> False)"

lemma deliver_later:
  assumes "deliver msg s = (r, s')" and "dict_get_or (sp_seen s) (ms_key msg) PNone = PNone"
  shows "spool_later s s'"
proof -
  have "sp_seen s' = sp_seen s \<or> (\<exists>v. sp_seen s' = dict_set (ms_key msg) v (sp_seen s))"
    using assms(1) by (auto simp: deliver_def Let_def split: write_outcome.splits)
  moreover have "v = PNone" if "dict_get (sp_seen s) (ms_key msg) = Some v" for v
    using assms(2) that by (simp add: dict_get_or_def)
  ultimately show ?thesis
    using deliver_keeps_config [OF assms(1)] by (auto simp: spool_later_def)
qed

lemma spool_send_later: "spool_send msg s = (r, s') \<Longrightarrow> spool_later s s'"
  by (erule spool_send_cases) (auto simp: spool_later_def dest: deliver_later)

lemma mail_handle_spec:
  assumes "mail_handle token req s = (r, s')"
  shows "spool_later s s' \<and> (\<forall>e. r = Inl e \<longrightarrow> \<not> mail_loud e \<longrightarrow> s' = s)"
proof (cases "\<exists>auth n raw. req = MSend auth n raw")
  case False
  with assms show ?thesis
    by (cases req) (auto simp: h_mail_healthz_def h_mail_unmatched_def sbind_def mail_drive_def spool_ping_def
        require_token_def spool_later_def split: if_splits)
next
  case True
  then obtain auth n raw where "req = MSend auth n raw" by blast
  then consider "s' = s" | msg x where "spool_send msg s = (Inr x, s')" "\<exists>v. r = Inr v"
    | msg e where "spool_send msg s = (Inl e, s')" "r = Inl (mail_drive_exn e)"
    using assms
    by (auto simp: h_mail_send_def sbind_def mail_drive_def split: if_splits sum.splits prod.splits)
  then show ?thesis
  proof cases
    case 1
    then show ?thesis by (simp add: spool_later_def)
  next
    case 2
    then show ?thesis using spool_send_later by blast
  next
    case 3
    then have "s' = s" if "\<not> mail_loud (mail_drive_exn e)"
      using that by (cases e) (auto simp: mail_loud_def mail_drive_exn_def dest: spool_send_error_quiet)
    with 3 spool_send_later show ?thesis by auto
  qed
qed

interpretation mail_surface:
  foreign_surface "mail_handle token" mail_route "\<lambda>_. True" spool_later "(=)" mail_loud slug_shape
  for token
proof
  show "200 \<le> resp_status (mail_route (Inr v)) \<and> resp_status (mail_route (Inr v)) < 300" for v
    by (cases v) (simp_all add: mail_route_def)
  show "slug_shape (mail_route (Inl e)) \<and> 400 \<le> resp_status (mail_route (Inl e))" for e
    by (cases e) (simp_all add: mail_route_def mail_error_response_def slug_shape_def)
  show "500 \<le> resp_status (mail_route (Inl e))" if "mail_loud e" for e
    using that by (auto simp: mail_loud_def mail_route_def mail_error_response_def)
qed (auto simp: spool_later_def dest: mail_handle_spec)

section \<open>Properties\<close>

text \<open>
  C3: A message is delivered at most once per idempotency key. Once a send that is not a dry run was
  accepted, then after any further requests (other messages, malformed ones, failing writes) another
  accepted send with that key that is not a dry run is reported as a duplicate, with the original
  message id, and changes nothing on disk.
\<close>

theorem mail_idempotent:
  assumes "spool_send m1 s = (Inr r1, s1)" and "\<not> ms_dry_run m1"
    and "s2 = snd (mail_run token reqs s1)"
    and "spool_send m2 s2 = (Inr r2, s3)" and "\<not> ms_dry_run m2" and "ms_key m2 = ms_key m1"
  shows "sr_deduped r2 \<and> sr_message_id r2 = sr_message_id r1 \<and> s3 = s2"
proof -
  have "dict_get (sp_seen s1) (ms_key m1) = Some (sr_message_id r1) \<and> sr_message_id r1 \<noteq> PNone"
    using assms(1)
  proof (cases rule: spool_send_cases)
    case 1
    then show ?thesis using assms(2) by auto
  next
    case 2
    then show ?thesis by (auto simp: deliver_def Let_def split: write_outcome.splits)
  qed
  moreover have "spool_later s1 s2"
    using mail_surface.run_good [where token = token and s = s1 and reqs = reqs] assms(3) by (simp add: mail_run_def)
  ultimately have seen: "dict_get (sp_seen s2) (ms_key m2) = Some (sr_message_id r1)" "sr_message_id r1 \<noteq> PNone"
    using assms(6) by (auto simp: spool_later_def)
  show ?thesis
    using assms(4)
  proof (cases rule: spool_send_cases)
    case 1
    then show ?thesis using assms(5) seen by auto
  next
    case 2
    then show ?thesis using seen by (simp add: dict_get_or_def)
  qed
qed

definition sample_mail :: mail_send where
  "sample_mail = \<lparr>ms_key = ''k1'', ms_from = ''bot@corp.example'', ms_to = [''a@corp.example''],
     ms_subject = ''hi'', ms_text = ''hello'', ms_cc = [], ms_bcc = [], ms_reply_to = [], ms_html = [],
     ms_thread_key = [], ms_tags = [], ms_dry_run = False\<rparr>"

definition sample_spool :: spool where
  "sample_spool = \<lparr>sp_sender = [], sp_domain = ''corp.example'', sp_fail = [], sp_hash = (\<lambda>k. k),
     sp_files = [], sp_seen = [], sp_writes = (\<lambda>_. Written), sp_now = (\<lambda>_. ''now''), sp_tick = 0\<rparr>"

lemma sample_send:
  "spool_send sample_mail sample_spool =
     (Inr \<lparr>sr_message_id = PStr ''<k1@jetty-mail>'', sr_deduped = False\<rparr>, snd (spool_send sample_mail sample_spool))"
  by (simp add: spool_send_def sample_mail_def sample_spool_def unroutable_def rpartition_ch_def dict_get_or_def
      deliver_def Let_def message_id_def digest_def)

lemma sample_resend:
  "spool_send sample_mail (snd (spool_send sample_mail sample_spool)) =
     (Inr \<lparr>sr_message_id = PStr ''<k1@jetty-mail>'', sr_deduped = True\<rparr>, snd (spool_send sample_mail sample_spool))"
  by (simp add: spool_send_def sample_mail_def sample_spool_def unroutable_def rpartition_ch_def dict_get_or_def
      deliver_def Let_def message_id_def digest_def)

theorem mail_idempotent_witness:
  "sr_deduped \<lparr>sr_message_id = PStr ''<k1@jetty-mail>'', sr_deduped = True\<rparr> \<and>
   snd (spool_send sample_mail (snd (mail_run [] [] (snd (spool_send sample_mail sample_spool))))) =
     snd (mail_run [] [] (snd (spool_send sample_mail sample_spool)))"
  using mail_idempotent [OF sample_send, of "snd (spool_send sample_mail sample_spool)" "[]" "[]" sample_mail]
    sample_resend by (simp add: mail_run_def sample_mail_def)

text \<open>
  A refused request (any status from 300 up to 499) leaves the spool directory and the
  idempotency store exactly as they were, and its body has the flat error shape of the contract.
\<close>

theorem mail_refused_leaves_no_trace:
  assumes "300 \<le> resp_status (fst (mail_serve token req s))" and "resp_status (fst (mail_serve token req s)) < 500"
  shows "snd (mail_serve token req s) = s \<and> slug_shape (fst (mail_serve token req s))"
proof -
  have "s = snd (mail_serve token req s)"
    using mail_surface.refused_is_quiet [where token = token and s = s and req = req] assms by (simp add: mail_serve_def)
  moreover have "\<exists>e s'. mail_handle token req s = (Inl e, s')"
  proof (rule ccontr)
    assume "\<nexists>e s'. mail_handle token req s = (Inl e, s')"
    then obtain v s' where "mail_handle token req s = (Inr v, s')"
      by (cases "mail_handle token req s"; cases "fst (mail_handle token req s)") auto
    then have "resp_status (fst (mail_serve token req s)) < 300"
      using mail_surface.served(1) [where token = token and s = s and req = req] by (auto simp: mail_serve_def)
    with assms(1) show False by simp
  qed
  ultimately show ?thesis
    using mail_surface.served(2) [where token = token and s = s and req = req] by (simp add: mail_serve_def)
qed

theorem mail_refused_leaves_no_trace_witness:
  "snd (mail_serve ''secret'' (MOther None) sample_spool) = sample_spool"
  using mail_refused_leaves_no_trace [of "''secret''" "MOther None" sample_spool]
  by (simp add: mail_serve_def serve_with_def h_mail_unmatched_def require_token_def sbind_def mail_route_def
      mail_error_response_def)


section \<open>What an acceptance means\<close>

lemma mail_serve_accepted:
  assumes "resp_status (fst (mail_serve token (MSend auth n raw) s)) = 202"
  obtains v msg x where "raw = Inr v" "parse_send v = Inr msg" "require_token token auth = Inr ()" "n \<le> MAX_BODY_BYTES"
    "spool_send msg s = (Inr x, snd (mail_serve token (MSend auth n raw) s))"
    "resp_json (fst (mail_serve token (MSend auth n raw) s)) =
       PDict [(''messageId'', sr_message_id x), (''deduped'', PBool (sr_deduped x))]"
proof -
  have "\<exists>v. mail_handle token (MSend auth n raw) s = (Inr v, snd (mail_serve token (MSend auth n raw) s))"
  proof (cases "mail_handle token (MSend auth n raw) s")
    case (Pair r s')
    have "resp_status (mail_error_response e) \<noteq> 202" for e
      by (cases e) (simp_all add: mail_error_response_def)
    then show ?thesis
      using assms Pair by (cases r) (auto simp: mail_serve_def serve_with_def mail_route_def)
  qed
  then show thesis
    using that
    by (auto simp: mail_serve_def serve_with_def h_mail_send_def sbind_def mail_drive_def mail_route_def
        split: if_splits sum.splits prod.splits)
qed

text \<open>
  An acceptance is never fabricated. A send answered 202 carried a valid token, a body within the
  size limit and a valid message; a dry run changed nothing at all; a duplicate reports the id that was
  recorded for its key and changed nothing; and a first delivery left a spool file named by the key's
  digest that holds exactly the message's fields, with the message id that was reported and is now
  recorded for the key.
\<close>

theorem mail_accept_means_spooled:
  assumes "resp_status (fst (mail_serve token (MSend auth n raw) s)) = 202"
    and "s' = snd (mail_serve token (MSend auth n raw) s)"
  shows "\<exists>v msg mid deduped. raw = Inr v \<and> parse_send v = Inr msg \<and> require_token token auth = Inr () \<and>
    n \<le> MAX_BODY_BYTES \<and>
    resp_json (fst (mail_serve token (MSend auth n raw) s)) =
      PDict [(''messageId'', mid), (''deduped'', PBool deduped)] \<and>
    (if ms_dry_run msg then s' = s
     else if deduped then s' = s \<and> dict_get (sp_seen s) (ms_key msg) = Some mid
     else dict_get (sp_files s') (digest s (ms_key msg) @ ''.json'') =
            Some (JsonFile (spool_row msg (message_id s (ms_key msg)) (sp_now s (sp_tick s)))) \<and>
          mid = PStr (message_id s (ms_key msg)) \<and> dict_get (sp_seen s') (ms_key msg) = Some mid)"
proof -
  obtain v msg x where a: "raw = Inr v" "parse_send v = Inr msg" "require_token token auth = Inr ()"
    "n \<le> MAX_BODY_BYTES" "spool_send msg s = (Inr x, s')"
    "resp_json (fst (mail_serve token (MSend auth n raw) s)) =
       PDict [(''messageId'', sr_message_id x), (''deduped'', PBool (sr_deduped x))]"
    using assms by (auto elim: mail_serve_accepted)
  have "if ms_dry_run msg then s' = s
     else if sr_deduped x then s' = s \<and> dict_get (sp_seen s) (ms_key msg) = Some (sr_message_id x)
     else dict_get (sp_files s') (digest s (ms_key msg) @ ''.json'') =
            Some (JsonFile (spool_row msg (message_id s (ms_key msg)) (sp_now s (sp_tick s)))) \<and>
          sr_message_id x = PStr (message_id s (ms_key msg)) \<and>
          dict_get (sp_seen s') (ms_key msg) = Some (sr_message_id x)"
    using a(5)
  proof (cases rule: spool_send_cases)
    case 1
    then show ?thesis by auto
  next
    case 2
    then show ?thesis by (auto simp: deliver_def Let_def split: write_outcome.splits)
  qed
  with a show ?thesis by blast
qed

definition sample_json :: pyval where
  "sample_json = PDict [(''idempotencyKey'', PStr ''k1''), (''from'', PStr ''bot@corp.example''),
     (''to'', PList [PStr ''a@corp.example'']), (''subject'', PStr ''hi''), (''text'', PStr ''hello'')]"

lemma sample_json_parses: "parse_send sample_json = Inr sample_mail"
  by code_simp

lemma sample_accepted: "resp_status (fst (mail_serve [] (MSend None 100 (Inr sample_json)) sample_spool)) = 202"
proof (cases "spool_send sample_mail sample_spool")
  case (Pair r s')
  with sample_send have "r = Inr \<lparr>sr_message_id = PStr ''<k1@jetty-mail>'', sr_deduped = False\<rparr>" by simp
  with Pair show ?thesis
    by (simp add: mail_serve_def serve_with_def h_mail_send_def sbind_def require_token_def MAX_BODY_BYTES_def
        sample_json_parses mail_drive_def mail_route_def)
qed

theorem mail_accept_means_spooled_witness:
  "\<exists>v msg. Inr sample_json = (Inr v :: py_exn + pyval) \<and> parse_send v = Inr msg \<and> ms_key msg = ''k1''"
proof -
  obtain v msg where "(Inr sample_json :: py_exn + pyval) = Inr v" "parse_send v = Inr msg"
    using mail_accept_means_spooled [OF sample_accepted refl] by blast
  moreover from this have "ms_key msg = ''k1''" by (simp add: sample_json_parses) (auto simp: sample_mail_def)
  ultimately show ?thesis by blast
qed

text \<open>
  A dry run is a faithful rehearsal: with the operating system accepting the write, it is answered
  with the same status as the same message sent for real, and it consumes no key and leaves no file.
\<close>

theorem dry_run_rehearses:
  assumes "sp_writes s (sp_tick s) = Written"
  shows "snd (spool_send (msg\<lparr>ms_dry_run := True\<rparr>) s) = s \<and>
    (case (fst (spool_send (msg\<lparr>ms_dry_run := True\<rparr>) s), fst (spool_send (msg\<lparr>ms_dry_run := False\<rparr>) s)) of
       (Inl e, Inl e') \<Rightarrow> e = e' | (Inr _, Inr _) \<Rightarrow> True | _ \<Rightarrow> False)"
proof -
  have "\<exists>x s'. deliver (msg\<lparr>ms_dry_run := False\<rparr>) s = (Inr x, s')"
    using assms by (simp add: deliver_def Let_def)
  then show ?thesis
    by (auto simp: spool_send_def Let_def split: pyval.splits)
qed

theorem dry_run_rehearses_witness:
  "snd (spool_send (sample_mail\<lparr>ms_dry_run := True\<rparr>) sample_spool) = sample_spool"
  using dry_run_rehearses [of sample_spool sample_mail] by (simp add: sample_spool_def)

section \<open>Validation\<close>

lemma addresses_ok:
  "addresses v f m = Inr xs \<Longrightarrow> list_all (\<lambda>a. ADDRESS a \<and> blen a \<le> MAX_ADDRESS_BYTES) xs \<and>
    (\<forall>k. m = Some k \<longrightarrow> 0 \<le> k \<longrightarrow> int (length xs) \<le> k)"
  by (auto simp: addresses_def split: if_splits option.splits)

lemma bounded_str_ok:
  "bounded_str v f m required = Inr x \<Longrightarrow> 0 \<le> m \<Longrightarrow> blen x \<le> m \<and> (required \<longrightarrow> x \<noteq> [])"
  by (auto simp: bounded_str_def blen_def utf8_len_def split: pyval.splits if_splits)

lemma parse_tags_ok:
  "parse_tags v = Inr tags \<Longrightarrow> int (length tags) \<le> MAX_TAGS \<and> list_all (\<lambda>t. blen t \<le> MAX_TAG_BYTES) tags"
  by (auto simp: parse_tags_def list_all_iff list_ex_iff split: option.splits if_splits)

lemma parse_subject_ok:
  "parse_subject v = Inr x \<Longrightarrow> x \<noteq> [] \<and> int (length x) \<le> MAX_SUBJECT_CHARS \<and>
    ch_return \<notin> set x \<and> ch_newline \<notin> set x"
  by (auto simp: parse_subject_def split: pyval.splits if_splits)

lemma parse_from_ok: "parse_from v = Inr x \<Longrightarrow> ADDRESS x"
  by (auto simp: parse_from_def split: pyval.splits if_splits)



end
