(* ===== verification/Mail_Restart.thy ===== *)
theory Mail_Restart
  imports Mail_Service
begin

text \<open>
  The idempotency store is rebuilt from the spool directory at boot. This theory shows that nothing
  is lost or invented: from an empty directory, after any requests and whatever the writes did, a
  restart that lists the directory in any order finds the same store, provided that the truncated
  hash does not collide on the keys in use.
\<close>

section \<open>What the directory holds\<close>

definition entry_ok :: "spool \<Rightarrow> string \<times> spool_file \<Rightarrow> bool" where
  "entry_ok s p \<longleftrightarrow> suffix ''.json'' (fst p) \<and>
     (snd p = BadFile \<or> (\<exists>msg t. snd p = JsonFile (spool_row msg (message_id s (ms_key msg)) t)))"

definition row_for :: "spool \<Rightarrow> string \<Rightarrow> spool_file \<Rightarrow> bool" where
  "row_for s key c \<longleftrightarrow> (\<exists>msg t. ms_key msg = key \<and> c = JsonFile (spool_row msg (message_id s key) t))"

text \<open>
  Every file is a spooled message or the remains of a failed write; and the store knows exactly the
  keys whose file, under its own digest, holds their message.
\<close>

definition disk_inv :: "string set \<Rightarrow> spool \<Rightarrow> bool" where
  "disk_inv K s \<longleftrightarrow>
     distinct (dict_keys (sp_files s)) \<and> list_all (entry_ok s) (sp_files s) \<and>
     (\<forall>key v. dict_get (sp_seen s) key = Some v \<longrightarrow> key \<in> K \<and> v = PStr (message_id s key)) \<and>
     (\<forall>key. dict_in key (sp_seen s) \<longleftrightarrow> (\<exists>name c. (name, c) \<in> set (sp_files s) \<and> row_for s key c)) \<and>
     (\<forall>name c key. (name, c) \<in> set (sp_files s) \<longrightarrow> row_for s key c \<longrightarrow> name = digest s key @ ''.json'')"

lemma scan_spool_row [simp]:
  "scan_file (JsonFile (spool_row msg mid t)) seen = Inr (dict_set (ms_key msg) (PStr mid) seen)"
  by (simp add: scan_file_def spool_row_def opt_list_def opt_text_def)

lemma spool_row_key: "spool_row m1 mid1 t1 = spool_row m2 mid2 t2 \<Longrightarrow> ms_key m1 = ms_key m2"
  by (simp add: spool_row_def)

section \<open>The scan\<close>

lemma scan_files_ok:
  assumes "list_all (entry_ok s) fs"
  shows "\<exists>seen. scan_files fs acc = Inr seen \<and>
    (\<forall>key. dict_get seen key =
       (if \<exists>p \<in> set fs. row_for s key (snd p) then Some (PStr (message_id s key)) else dict_get acc key))"
  using assms
proof (induction fs arbitrary: acc)
  case Nil
  then show ?case by simp
next
  case (Cons p fs)
  obtain name c where p: "p = (name, c)" by (cases p)
  from Cons.prems p have suf: "suffix ''.json'' name" and rest: "list_all (entry_ok s) fs"
    by (simp_all add: entry_ok_def [of s "(name, c)"])
  show ?case
  proof (cases "c = BadFile")
    case True
    then have "\<not> row_for s key c" for key by (simp add: row_for_def)
    moreover obtain seen where "scan_files fs acc = Inr seen" "\<forall>key. dict_get seen key =
       (if \<exists>p \<in> set fs. row_for s key (snd p) then Some (PStr (message_id s key)) else dict_get acc key)"
      using Cons.IH [OF rest, of acc] by blast
    ultimately show ?thesis using True p suf by (auto simp: scan_file_def)
  next
    case False
    with Cons.prems p obtain msg t where c: "c = JsonFile (spool_row msg (message_id s (ms_key msg)) t)"
      by (auto simp: entry_ok_def)
    let ?acc = "dict_set (ms_key msg) (PStr (message_id s (ms_key msg))) acc"
    have row: "row_for s key c \<longleftrightarrow> key = ms_key msg" for key
      by (auto simp: row_for_def c dest: spool_row_key)
    obtain seen where "scan_files fs ?acc = Inr seen" "\<forall>key. dict_get seen key =
       (if \<exists>p \<in> set fs. row_for s key (snd p) then Some (PStr (message_id s key)) else dict_get ?acc key)"
      using Cons.IH [OF rest, of ?acc] by blast
    moreover have "scan_files (p # fs) acc = scan_files fs ?acc" using suf by (simp add: p c)
    ultimately show ?thesis using row by (intro exI [of _ seen]) (simp add: p)
  qed
qed

section \<open>Every request keeps the correspondence\<close>

lemma digest_eq: "sp_hash s' = sp_hash s \<Longrightarrow> digest s' = digest s"
  by (rule ext) (simp add: digest_def)

lemma message_id_eq: "sp_hash s' = sp_hash s \<Longrightarrow> message_id s' = message_id s"
  by (rule ext) (simp add: message_id_def digest_def)

lemma entry_row_for_eq:
  "sp_hash s' = sp_hash s \<Longrightarrow> entry_ok s' = entry_ok s"
  "sp_hash s' = sp_hash s \<Longrightarrow> row_for s' = row_for s"
  by (intro ext; simp add: entry_ok_def row_for_def message_id_def digest_def)+

text \<open>Overwriting one file whose old contents belong to no recorded key.\<close>

lemma in_set_update:
  assumes "distinct (dict_keys d)"
  shows "(n, c) \<in> set (dict_set k v d) \<longleftrightarrow> (if n = k then c = v else (n, c) \<in> set d)"
proof -
  have "(n, c) \<in> set (dict_set k v d) \<longleftrightarrow> dict_get (dict_set k v d) n = Some c"
    using distinct_dict_set [OF assms] by (simp only: map_of_eq_Some_iff)
  also have "\<dots> \<longleftrightarrow> (if n = k then c = v else dict_get d n = Some c)" by auto
  finally show ?thesis using assms by (simp add: map_of_eq_Some_iff)
qed

lemma disk_inv_write:
  assumes inv: "disk_inv K s" and key: "key \<in> K" "dict_get (sp_seen s) key = None"
    and inj: "inj_on (digest s) K"
    and s': "sp_hash s' = sp_hash s" "sp_files s' = dict_set (digest s key @ ''.json'') c (sp_files s)"
    and c: "(c = BadFile \<and> sp_seen s' = sp_seen s) \<or>
      (row_for s key c \<and> sp_seen s' = dict_set key (PStr (message_id s key)) (sp_seen s))"
  shows "disk_inv K s'"
proof -
  let ?name = "digest s key @ ''.json''"
  have d: "distinct (dict_keys (sp_files s))" using inv by (simp add: disk_inv_def)
  have named: "name = digest s k @ ''.json''" "k \<in> K" if "(name, f) \<in> set (sp_files s)" "row_for s k f" for name f k
  proof -
    show "name = digest s k @ ''.json''" using inv that by (auto simp: disk_inv_def)
    have "dict_in k (sp_seen s)" using inv that by (auto simp: disk_inv_def)
    then obtain v where "dict_get (sp_seen s) k = Some v" by (auto simp: dict_in_def)
    then show "k \<in> K" using inv by (simp add: disk_inv_def)
  qed
  have free: "\<not> row_for s k f" if "(?name, f) \<in> set (sp_files s)" for f k
  proof
    assume r: "row_for s k f"
    from named [OF that r] inj key(1) have "k = key" by (auto dest: inj_onD)
    with that r inv have "dict_in key (sp_seen s)" by (auto simp: disk_inv_def)
    with key(2) show False by (simp add: dict_in_def)
  qed
  have row: "row_for s k c \<longleftrightarrow> c \<noteq> BadFile \<and> k = key" for k
    using c by (auto simp: row_for_def dest: spool_row_key)
  have seen: "dict_in k (sp_seen s') \<longleftrightarrow> dict_in k (sp_seen s) \<or> (c \<noteq> BadFile \<and> k = key)" for k
    using c row [of key] by (auto simp: dict_in_def)
  have ok: "entry_ok s (?name, c)" using c by (auto simp: entry_ok_def row_for_def suffix_def)
  note eqs = entry_row_for_eq [OF s'(1)] digest_eq [OF s'(1)] message_id_eq [OF s'(1)]
  have "list_all (entry_ok s) (sp_files s')"
    using inv ok by (auto simp: disk_inv_def s'(2) list_all_iff in_set_update [OF d] split: if_splits)
  moreover have "k \<in> K \<and> v = PStr (message_id s k)" if "dict_get (sp_seen s') k = Some v" for k v
    using that inv c key(1) by (auto simp: disk_inv_def split: if_splits)
  moreover have "dict_in k (sp_seen s') \<longleftrightarrow> (\<exists>name f. (name, f) \<in> set (sp_files s') \<and> row_for s k f)" for k
  proof -
    have "dict_in k (sp_seen s) \<longleftrightarrow> (\<exists>name f. (name, f) \<in> set (sp_files s) \<and> row_for s k f)"
      using inv by (simp add: disk_inv_def)
    with free row show ?thesis unfolding seen s'(2) in_set_update [OF d] by metis
  qed
  moreover have "name = digest s k @ ''.json''" if "(name, f) \<in> set (sp_files s')" "row_for s k f" for name f k
    using that named(1) row by (auto simp: s'(2) in_set_update [OF d] split: if_splits)
  ultimately show ?thesis
    using distinct_dict_set [OF d] by (simp add: disk_inv_def eqs s'(2))
qed


lemma deliver_disk:
  assumes inv: "disk_inv K s" and key: "ms_key msg \<in> K" "dict_get_or (sp_seen s) (ms_key msg) PNone = PNone"
    and inj: "inj_on (digest s) K" and del: "deliver msg s = (r, s')"
  shows "disk_inv K s'"
proof -
  have none: "dict_get (sp_seen s) (ms_key msg) = None"
    using key(2) inv by (auto simp: dict_get_or_def disk_inv_def split: option.splits)
  show ?thesis
  proof (cases "sp_writes s (sp_tick s)")
    case Written
    have "row_for s (ms_key msg) (JsonFile (spool_row msg (message_id s (ms_key msg)) (sp_now s (sp_tick s))))"
      by (auto simp: row_for_def)
    with Written del show ?thesis
      by (intro disk_inv_write [OF inv key(1) none inj]) (auto simp: deliver_def Let_def)
  next
    case OpenFails
    with del have s': "s' = s\<lparr>sp_tick := Suc (sp_tick s)\<rparr>" by (simp add: deliver_def Let_def)
    have "sp_hash s' = sp_hash s" by (simp add: s')
    note eqs = entry_row_for_eq [OF this] digest_eq [OF this] message_id_eq [OF this]
    show ?thesis using inv by (simp add: disk_inv_def eqs) (simp add: s')
  next
    case Truncated
    with del show ?thesis
      by (intro disk_inv_write [OF inv key(1) none inj, of _ BadFile]) (auto simp: deliver_def Let_def)
  qed
qed

definition request_keys :: "mail_request \<Rightarrow> string set" where
  "request_keys req =
     (case req of
        MSend _ _ (Inr v) \<Rightarrow> (case parse_send v of Inr msg \<Rightarrow> {ms_key msg} | Inl _ \<Rightarrow> {})
      | _ \<Rightarrow> {})"

lemma mail_handle_disk:
  assumes inv: "disk_inv K s" and inj: "inj_on (digest s) K" and keys: "request_keys req \<subseteq> K"
    and h: "mail_handle token req s = (r, s')"
  shows "disk_inv K s'"
proof -
  have "s' = s \<or> (\<exists>auth n v msg r1. req = MSend auth n (Inr v) \<and> parse_send v = Inr msg \<and> spool_send msg s = (r1, s'))"
    using h by (cases req)
      (auto simp: h_mail_healthz_def h_mail_unmatched_def h_mail_send_def sbind_def mail_drive_def spool_ping_def
        require_token_def split: if_splits sum.splits prod.splits)
  then show ?thesis
  proof
    assume "\<exists>auth n v msg r1. req = MSend auth n (Inr v) \<and> parse_send v = Inr msg \<and> spool_send msg s = (r1, s')"
    then obtain msg r1 where m: "spool_send msg s = (r1, s')" "ms_key msg \<in> K"
      using keys by (auto simp: request_keys_def)
    from m(1) show ?thesis
      by (cases rule: spool_send_cases) (auto simp: inv intro: deliver_disk [OF inv m(2) _ inj])
  qed (simp add: inv)
qed

lemma mail_run_disk:
  "disk_inv K s \<Longrightarrow> inj_on (digest s) K \<Longrightarrow> \<forall>req \<in> set reqs. request_keys req \<subseteq> K \<Longrightarrow>
   disk_inv K (snd (mail_run token reqs s)) \<and> sp_hash (snd (mail_run token reqs s)) = sp_hash s"
proof (induction reqs arbitrary: s)
  case Nil
  then show ?case by (simp add: mail_run_def)
next
  case (Cons req reqs)
  obtain r s1 where s1: "mail_handle token req s = (r, s1)" by (cases "mail_handle token req s")
  have h: "sp_hash s1 = sp_hash s" using mail_handle_spec [OF s1] by (simp add: spool_later_def)
  have "disk_inv K s1" using mail_handle_disk [OF Cons.prems(1,2) _ s1] Cons.prems(3) by simp
  with Cons.IH [of s1] Cons.prems(2,3) h digest_eq [OF h] show ?case
    by (cases "run_with (mail_handle token) mail_route reqs s1") (simp add: mail_run_def serve_with_def s1)
qed

section \<open>Restart\<close>

text \<open>
  Deduplication survives a restart. Start from an empty spool directory, serve any requests, and
  let the writes fail or be cut short as they may; if the sixteen-digit digests of the keys in use do
  not collide, a module constructed afresh on that directory, listed in any order, boots and holds
  exactly the same idempotency store.
\<close>

theorem restart_keeps_dedup:
  assumes "MailModule cfg h writes now [] = Inr s0" and "s = snd (mail_run token reqs s0)"
    and "\<forall>req \<in> set reqs. request_keys req \<subseteq> K" and "inj_on (\<lambda>k. take 16 (h k)) K"
    and "set files = set (sp_files s)"
  shows "\<exists>s1. MailModule cfg h writes' now' files = Inr s1 \<and>
    (\<forall>key. dict_get (sp_seen s1) key = dict_get (sp_seen s) key)"
proof -
  have s0: "sp_files s0 = []" "sp_seen s0 = []" "sp_hash s0 = h"
    and cfg: "mail_settings_check cfg" "mset_driver cfg = ''spool''"
    using assms(1) by (auto simp: MailModule_def SpoolMailDriver_def split: if_splits)
  have "disk_inv K s0" by (simp add: disk_inv_def s0 dict_in_def)
  moreover have "inj_on (digest s0) K" using assms(4) by (simp add: digest_def [abs_def] s0)
  ultimately have inv: "disk_inv K s" using mail_run_disk assms(2,3) by blast
  then have "list_all (entry_ok s) files" using assms(5) by (simp add: disk_inv_def list_all_iff)
  then obtain seen where seen: "scan_files files [] = Inr seen" "\<And>key. dict_get seen key =
      (if \<exists>p \<in> set files. row_for s key (snd p) then Some (PStr (message_id s key)) else None)"
    using scan_files_ok [of s files "[]"] by auto
  have seen_iff: "dict_in key (sp_seen s) \<longleftrightarrow> (\<exists>name c. (name, c) \<in> set (sp_files s) \<and> row_for s key c)" for key
    using inv by (simp add: disk_inv_def)
  have vals: "dict_get (sp_seen s) key = Some v \<Longrightarrow> v = PStr (message_id s key)" for key v
    using inv by (simp add: disk_inv_def)
  have "dict_get seen key = dict_get (sp_seen s) key" for key
  proof -
    have "(\<exists>p \<in> set files. row_for s key (snd p)) \<longleftrightarrow> dict_in key (sp_seen s)"
      unfolding seen_iff assms(5) by force
    moreover have "dict_in key (sp_seen s) \<Longrightarrow> dict_get (sp_seen s) key = Some (PStr (message_id s key))"
      using vals by (auto simp: dict_in_def)
    ultimately show ?thesis using seen(2) by (auto simp: dict_in_def)
  qed
  with seen(1) cfg show ?thesis by (simp add: MailModule_def SpoolMailDriver_def)
qed

definition sample_mail_settings :: mail_settings where
  "sample_mail_settings = \<lparr>mset_driver = ''spool'', mset_token = [], mset_spool_dir = ''/tmp/spool'', mset_sender = [],
     mset_domain = ''corp.example'', mset_fail = []\<rparr>"

lemma sample_mail_module:
  "MailModule sample_mail_settings (\<lambda>k. k) (\<lambda>_. Written) (\<lambda>_. ''now'') [] = Inr sample_spool"
  by (simp add: MailModule_def SpoolMailDriver_def mail_settings_check_def sample_mail_settings_def sample_spool_def)

theorem restart_keeps_dedup_witness:
  "\<exists>s1. MailModule sample_mail_settings (\<lambda>k. k) (\<lambda>_. OpenFails) (\<lambda>_. ''later'')
       (rev (sp_files (snd (mail_run [] [MSend None 100 (Inr sample_json)] sample_spool)))) = Inr s1 \<and>
     dict_get (sp_seen s1) ''k1'' = dict_get (sp_seen (snd (mail_run [] [MSend None 100 (Inr sample_json)] sample_spool))) ''k1''"
proof -
  let ?s = "snd (mail_run [] [MSend None 100 (Inr sample_json)] sample_spool)"
  have "\<forall>req \<in> set [MSend None 100 (Inr sample_json)]. request_keys req \<subseteq> {''k1''}"
    by (simp add: request_keys_def sample_json_parses) (simp add: sample_mail_def)
  then show ?thesis
    using restart_keeps_dedup [OF sample_mail_module refl, of "[MSend None 100 (Inr sample_json)]" "{''k1''}"
        "rev (sp_files ?s)" "[]" "\<lambda>_. OpenFails" "\<lambda>_. ''later''"] by auto
qed


text \<open>
  Plus-addressing: when the configured sender is \<open>local@domain\<close>, the driver treats
  \<open>local+tag@domain\<close> as that sender, for every tag, and no address with another local part or another
  domain.
\<close>

theorem plus_addressing:
  assumes "CHR ''@'' \<notin> set local_part" and "CHR ''+'' \<notin> set local_part" and "CHR ''@'' \<notin> set tag"
    and "CHR ''@'' \<notin> set other" and "CHR ''+'' \<notin> set other"
  shows "strip_plus (local_part @ ''+'' @ tag @ ''@'' @ domain) = strip_plus (local_part @ ''@'' @ domain) \<and>
    (strip_plus (other @ ''+'' @ tag @ ''@'' @ d) = strip_plus (local_part @ ''@'' @ domain) \<longleftrightarrow>
       other = local_part \<and> d = domain)"
proof -
  have part: "partition_ch c (xs @ c # ys) = (xs, True, ys)" if "c \<notin> set xs" for c xs ys
    using that by (induction xs) (auto simp: partition_ch_def)
  have absent: "fst (partition_ch c xs) = xs" if "c \<notin> set xs" for c xs
    using that by (induction xs) (auto simp: partition_ch_def)
  have plus: "strip_plus (l @ ''+'' @ tag @ ''@'' @ e) = l @ ''@'' @ e"
    if "CHR ''@'' \<notin> set l" "CHR ''+'' \<notin> set l" for l e
    using part [of "CHR ''@''" "l @ ''+'' @ tag" e] part [of "CHR ''+''" l tag] that assms(3)
    by (simp add: strip_plus_def)
  have plain: "strip_plus (local_part @ ''@'' @ domain) = local_part @ ''@'' @ domain"
    using part [of "CHR ''@''" local_part domain] absent [of "CHR ''+''" local_part] assms(1,2)
    by (simp add: strip_plus_def)
  have "other @ ''@'' @ d = local_part @ ''@'' @ domain \<longleftrightarrow> other = local_part \<and> d = domain"
    (is "?l = ?r \<longleftrightarrow> _")
  proof
    assume "?l = ?r"
    then have "partition_ch (CHR ''@'') ?l = partition_ch (CHR ''@'') ?r" by (rule arg_cong)
    then show "other = local_part \<and> d = domain"
      using part [OF assms(4), of d] part [OF assms(1), of domain] by simp
  qed simp
  with plus [OF assms(1,2)] plus [OF assms(4,5)] plain show ?thesis by simp
qed

theorem plus_addressing_witness:
  "strip_plus (''bot'' @ ''+'' @ ''reviews'' @ ''@'' @ ''corp.example'') = strip_plus (''bot'' @ ''@'' @ ''corp.example'')"
  using plus_addressing [of "''bot''" "''reviews''" "''eve''" "''corp.example''"] by simp

definition long_sender :: string where
  "long_sender = replicate 400 (CHR ''a'') @ ''@corp.example''"

text \<open>
  Two gaps in the address checks: an address followed by a newline passes them (the pattern's
  final dollar also matches before a trailing newline), and the sender's address is not bounded in
  length, unlike every other address.
\<close>

theorem address_gaps:
  "ADDRESS (''a@corp.example'' @ [ch_newline]) \<and>
   parse_from (PStr long_sender) = Inr long_sender \<and> blen long_sender > MAX_ADDRESS_BYTES \<and>
   (\<exists>e. addresses (PList [PStr long_sender]) ''to'' None = Inl e)"
proof -
  have rep: "list_all (\<lambda>c. \<not> is_space c) (replicate n (CHR ''a''))" "CHR ''@'' \<notin> set (replicate n (CHR ''a''))" for n
    by (simp_all add: list_all_iff is_space_def)
  have "partition_ch (CHR ''@'') long_sender = (replicate 400 (CHR ''a''), True, ''corp.example'')"
  proof -
    have "takeWhile (\<lambda>x. x \<noteq> CHR ''@'') (replicate n (CHR ''a'') @ ''@corp.example'') = replicate n (CHR ''a'')"
      "dropWhile (\<lambda>x. x \<noteq> CHR ''@'') (replicate n (CHR ''a'') @ ''@corp.example'') = ''@corp.example''" for n
      by (induction n) simp_all
    then show ?thesis by (simp add: partition_ch_def long_sender_def)
  qed
  then have addr: "ADDRESS long_sender"
    using rep(1) [of 400] by (simp add: ADDRESS_def re_dollar_def plain_address_def) (simp add: long_sender_def is_space_def)
  have "utf8_len (replicate n (CHR ''a'') @ s) = n + utf8_len s" for n s
    by (induction n) (simp_all add: utf8_len_def)
  then have len: "blen long_sender > MAX_ADDRESS_BYTES"
    by (simp add: blen_def long_sender_def MAX_ADDRESS_BYTES_def)
  have "ADDRESS (''a@corp.example'' @ [ch_newline])" by code_simp
  moreover have "addresses (PList [PStr long_sender]) ''to'' None =
      Inl (BadRequest (''to'' @ '': not a plain local@domain address''))"
    using len by (simp add: addresses_def str_list_def is_str_def str_of_def)
  ultimately show ?thesis using addr len by (simp add: parse_from_def)
qed

end
