(* ===== verification/Py_Iso.thy ===== *)
theory Py_Iso
  imports Py_Time
begin

text \<open>
  Reading time stamps: \<open>datetime.fromisoformat(s).timestamp()\<close>. The printed UTC forms
  \<open>YYYY-MM-DDThh:mm:ss[.ffffff]+00:00\<close> are read here (\<open>utc_instant\<close>, in microseconds); what the
  interpreter makes of any other string (other ISO 8601 forms, whose set depends on its version, and
  times without an offset, which depend on the host's time zone) is a parameter, \<open>other\<close>. The time
  stamp of an instant is the nearest double (\<open>ticks_of_us\<close>).
\<close>

section \<open>Instants and time stamps\<close>

definition ticks_of_us :: "int \<Rightarrow> int" where
  "ticks_of_us us = round_half_even (us * 65536) 15625"

lemma round_half_even_bounds:
  assumes "0 < b"
  shows "2 * a - b \<le> 2 * b * round_half_even a b" "2 * b * round_half_even a b \<le> 2 * a + b"
proof -
  have *: "a = b * (a div b) + a mod b" "0 \<le> a mod b" "a mod b < b" using assms by simp_all
  let ?q = "a div b" and ?r = "a mod b"
  have "2 * a = 2 * (b * ?q) + 2 * ?r" using *(1) by linarith
  moreover have "2 * b * round_half_even a b = 2 * (b * ?q) \<and> 2 * ?r \<le> b \<or>
      2 * b * round_half_even a b = 2 * (b * ?q) + 2 * b \<and> b \<le> 2 * ?r"
    unfolding round_half_even_def by (auto simp: algebra_simps)
  ultimately show "2 * a - b \<le> 2 * b * round_half_even a b" "2 * b * round_half_even a b \<le> 2 * a + b"
    using *(2,3) assms by linarith+
qed

text \<open>A microsecond survives the passage through a float.\<close>

lemma ticks_us_of_us [simp]: "ticks_us (ticks_of_us us) = us"
proof -
  have 1: "2 * (us * 65536) - 15625 \<le> 2 * 15625 * ticks_of_us us" "2 * 15625 * ticks_of_us us \<le> 2 * (us * 65536) + 15625"
    using round_half_even_bounds [of 15625 "us * 65536"] by (simp_all add: ticks_of_us_def)
  have 2: "2 * (ticks_of_us us * 15625) - 65536 \<le> 2 * 65536 * ticks_us (ticks_of_us us)"
    "2 * 65536 * ticks_us (ticks_of_us us) \<le> 2 * (ticks_of_us us * 15625) + 65536"
    using round_half_even_bounds [of 65536 "ticks_of_us us * 15625"] by (simp_all add: ticks_us_def)
  from 1 2 show ?thesis by linarith
qed

lemma ticks_of_us_mono: "u < v \<Longrightarrow> ticks_of_us u < ticks_of_us v"
  using round_half_even_bounds [of 15625 "u * 65536"] round_half_even_bounds [of 15625 "v * 65536"]
  by (simp add: ticks_of_us_def)

lemma ticks_of_us_less_iff [simp]: "ticks_of_us u < ticks_of_us v \<longleftrightarrow> u < v"
  using ticks_of_us_mono [of u v] ticks_of_us_mono [of v u] by (cases u v rule: linorder_cases) auto

section \<open>Dates\<close>

definition days_from_civil :: "int \<times> int \<times> int \<Rightarrow> int" where
  "days_from_civil ymd =
     (case ymd of (y, m, d) \<Rightarrow>
        (let y' = (if m \<le> 2 then y - 1 else y); mp = (m + 9) mod 12
         in 365 * y' + y' div 4 - y' div 100 + y' div 400 + (153 * mp + 2) div 5 + d - 1 - 719468))"

lemma days_of_month:
  assumes "0 \<le> mp" "mp < 12"
  shows "days_from_civil (civil_of_month y doy mp) = 365 * y + y div 4 - y div 100 + y div 400 + doy - 719468"
proof (cases "mp < 10")
  case True
  with assms have "(mp + 3 + 9) mod 12 = mp" by presburger
  with True assms show ?thesis by (simp add: civil_of_month_def days_from_civil_def Let_def)
next
  case False
  with assms have "(mp - 9 + 9) mod 12 = mp" by simp
  with False assms show ?thesis by (simp add: civil_of_month_def days_from_civil_def Let_def)
qed

lemma days_of_doy:
  assumes "0 \<le> doy" "doy < 366"
  shows "days_from_civil (civil_of_doy y doy) = 365 * y + y div 4 - y div 100 + y div 400 + doy - 719468"
  unfolding civil_of_doy_def using assms by (intro days_of_month) linarith+

lemma civil_of_doe_doy:
  assumes "0 \<le> doe" "doe < 146097"
  obtains y doy where "civil_of_doe era doe = civil_of_doy y doy" "0 \<le> doy" "doy < 366"
    "365 * y + y div 4 - y div 100 + y div 400 + doy = 146097 * era + doe"
proof -
  define c where "c = min 3 (doe div 36524)"
  define r where "r = doe - 36524 * c"
  define q where "q = r div 1461"
  define s where "s = r mod 1461"
  define k where "k = min 3 (s div 365)"
  have c: "0 \<le> c" "c \<le> 3" using assms by (auto simp: c_def)
  have r: "0 \<le> r" "r < 36525" using assms by (auto simp: r_def c_def min_def)
  have rs: "r = 1461 * q + s" "0 \<le> s" "s < 1461" by (simp_all add: q_def s_def)
  have q: "0 \<le> q" "q \<le> 24" using r rs by linarith+
  have k: "0 \<le> k" "k \<le> 3" using rs(2) by (simp_all add: k_def)
  have doy: "0 \<le> s - 365 * k" "s - 365 * k < 366" using rs(2,3) by (auto simp: k_def min_def)
  let ?y = "400 * era + 100 * c + 4 * q + k"
  have div: "?y div 4 = 100 * era + 25 * c + q" "?y div 100 = 4 * era + c" "?y div 400 = era"
    using k q c by linarith+
  have c: "civil_of_doe era doe = civil_of_doy ?y (s - 365 * k)"
    by (simp add: civil_of_doe_def civil_of_100y_def civil_of_4y_def c_def r_def q_def s_def k_def)
  have "doe = 36524 * c + 1461 * q + s" using rs(1) by (simp add: r_def)
  then have "365 * ?y + ?y div 4 - ?y div 100 + ?y div 400 + (s - 365 * k) = 146097 * era + doe"
    unfolding div by (simp add: algebra_simps)
  with c doy show thesis by (rule that)
qed

lemma civil_from_days_doy:
  obtains y doy where "civil_from_days z = civil_of_doy y doy" "0 \<le> doy" "doy < 366"
    "365 * y + y div 4 - y div 100 + y div 400 + doy = z + 719468"
proof -
  have "0 \<le> (z + 719468) mod 146097" "(z + 719468) mod 146097 < 146097" by simp_all
  from civil_of_doe_doy [OF this, of "(z + 719468) div 146097"] obtain y doy where
    *: "civil_from_days z = civil_of_doy y doy" "0 \<le> doy" "doy < 366"
    "365 * y + y div 4 - y div 100 + y div 400 + doy = 146097 * ((z + 719468) div 146097) + (z + 719468) mod 146097"
    by (auto simp: civil_from_days_def)
  show thesis by (rule that [OF *(1-3)]) (simp add: *(4))
qed

lemma days_roundtrip [simp]: "days_from_civil (civil_from_days z) = z"
  by (rule civil_from_days_doy [of z]) (simp add: days_of_doy)

lemma civil_bounds:
  assumes "civil_from_days z = (y, m, d)"
  shows "1 \<le> m \<and> m \<le> 12" "1 \<le> d \<and> d \<le> 31"
proof -
  obtain y' doy where c: "civil_from_days z = civil_of_doy y' doy" and doy: "0 \<le> doy" "doy < 366"
    by (rule civil_from_days_doy)
  define mp where "mp = (5 * doy + 2) div 153"
  have mp: "0 \<le> mp" "mp < 12" using doy unfolding mp_def by linarith+
  have d: "d = doy - (153 * mp + 2) div 5 + 1" and m: "m = (if mp < 10 then mp + 3 else mp - 9)"
    using assms by (auto simp: c civil_of_doy_def civil_of_month_def mp_def [symmetric] split: if_splits)
  have mp2: "153 * mp \<le> 5 * doy + 2" "5 * doy + 2 < 153 * mp + 153"
    unfolding mp_def by linarith+
  show "1 \<le> m \<and> m \<le> 12" using mp by (simp add: m)
  show "1 \<le> d \<and> d \<le> 31" using mp2 unfolding d by linarith
qed

text \<open>A date exists if it is the date of its own day number.\<close>

definition date_exists :: "int \<times> int \<times> int \<Rightarrow> bool" where
  "date_exists ymd \<longleftrightarrow> civil_from_days (days_from_civil ymd) = ymd \<and> 1 \<le> fst ymd \<and> fst ymd \<le> 9999"

section \<open>Reading the printed form\<close>

text \<open>Numbers of fixed width, each followed by its separator.\<close>

fun take_fields :: "(nat \<times> char) list \<Rightarrow> string \<Rightarrow> (int list \<times> string) option" where
  "take_fields [] s = Some ([], s)"
| "take_fields ((w, c) # fs) s =
     (if w < length s \<and> list_all is_ascii_digit (take w s) \<and> s ! w = c
      then map_option (apfst (Cons (int_of_digits (take w s)))) (take_fields fs (drop (Suc w) s))
      else None)"

definition UTC_FORM :: "(nat \<times> char) list" where
  "UTC_FORM = [(4, CHR ''-''), (2, CHR ''-''), (2, CHR ''T''), (2, CHR '':''), (2, CHR '':'')]"

definition instant_of :: "int list \<Rightarrow> int option" where
  "instant_of fields =
     (case fields of
        [y, m, d, h, mi, sec, us] \<Rightarrow>
          if date_exists (y, m, d) \<and> h < 24 \<and> mi < 60 \<and> sec < 60
          then Some ((days_from_civil (y, m, d) * 86400 + h * 3600 + mi * 60 + sec) * 1000000 + us)
          else None
      | _ \<Rightarrow> None)"

definition utc_instant :: "string \<Rightarrow> int option" where
  "utc_instant s =
     (case take_fields (UTC_FORM @ [(2, CHR ''.''), (6, CHR ''+'')]) s of
        Some (fields, rest) \<Rightarrow> if rest = ''00:00'' then instant_of fields else None
      | None \<Rightarrow>
          (case take_fields (UTC_FORM @ [(2, CHR ''+'')]) s of
             Some (fields, rest) \<Rightarrow> if rest = ''00:00'' then instant_of (fields @ [0]) else None
           | None \<Rightarrow> None))"

definition fromisoformat :: "(string \<Rightarrow> py_exn + int) \<Rightarrow> string \<Rightarrow> py_exn + int" where
  "fromisoformat other s = (case utc_instant s of Some us \<Rightarrow> Inr us | None \<Rightarrow> other s)"

text \<open>\<open>s.replace("Z", "+00:00")\<close>.\<close>

definition replace_ch :: "char \<Rightarrow> string \<Rightarrow> string \<Rightarrow> string" where
  "replace_ch c new s = concat (map (\<lambda>x. if x = c then new else [x]) s)"

lemma replace_ch_append: "replace_ch c new (s @ t) = replace_ch c new s @ replace_ch c new t"
  by (simp add: replace_ch_def)

lemma replace_ch_none: "c \<notin> set s \<Longrightarrow> replace_ch c new s = s"
  by (induction s) (auto simp: replace_ch_def)

lemma pad_facts:
  assumes "0 \<le> n" "n < 10 ^ w" "0 < w"
  shows "length (pad w n) = w" "list_all is_ascii_digit (pad w n)" "int_of_digits (pad w n) = n"
proof -
  obtain k where k: "n = int k" using assms(1) nonneg_int_cases by blast
  have "k < 10 ^ w" using assms(2) unfolding k by (metis of_nat_less_iff of_nat_numeral of_nat_power)
  then have len: "length (str_nat k) \<le> w" using assms(3) by (rule length_str_nat)
  have pad: "pad w n = replicate (w - length (str_nat k)) (CHR ''0'') @ str_nat k"
    by (simp add: pad_def k str_nat_def Let_def)
  have zeros: "int_of_digits (replicate j (CHR ''0'') @ s) = int_of_digits s" for j s
    by (induction j) (simp_all add: int_of_digits_def digit_val_def)
  show "length (pad w n) = w" "int_of_digits (pad w n) = n"
    using len unfolding pad by (simp_all add: zeros k)
  show "list_all is_ascii_digit (pad w n)"
    using str_nat_digits [of k] by (auto simp: pad list_all_iff is_ascii_digit_def)
qed

lemma take_fields_pad:
  assumes "0 \<le> n" "n < 10 ^ w" "0 < w"
  shows "take_fields ((w, c) # fs) (pad w n @ c # s) = map_option (apfst (Cons n)) (take_fields fs s)"
  using pad_facts [OF assms] by (simp add: nth_append)

lemma pad_no_Z: "0 \<le> n \<Longrightarrow> n < 10 ^ w \<Longrightarrow> 0 < w \<Longrightarrow> CHR ''Z'' \<notin> set (pad w n)"
  using pad_facts(2) [of n w] by (auto simp: list_all_iff is_ascii_digit_def)

lemma utc_fields:
  assumes "0 \<le> y" "y < 10 ^ 4" "0 \<le> m" "m < 10 ^ 2" "0 \<le> d" "d < 10 ^ 2" "0 \<le> h" "h < 10 ^ 2"
    "0 \<le> mi" "mi < 10 ^ 2" "0 \<le> sec" "sec < 10 ^ 2" "0 \<le> f" "f < 10 ^ 6"
  shows "utc_instant (replace_ch (CHR ''Z'') ''+00:00''
      (pad 4 y @ ''-'' @ pad 2 m @ ''-'' @ pad 2 d @ ''T'' @ pad 2 h @ '':'' @ pad 2 mi @ '':'' @
       pad 2 sec @ ''.'' @ pad 6 f @ ''Z'')) = instant_of [y, m, d, h, mi, sec, f]"
proof -
  have noZ: "replace_ch (CHR ''Z'') t (pad 4 y) = pad 4 y" "replace_ch (CHR ''Z'') t (pad 2 m) = pad 2 m"
    "replace_ch (CHR ''Z'') t (pad 2 d) = pad 2 d" "replace_ch (CHR ''Z'') t (pad 2 h) = pad 2 h"
    "replace_ch (CHR ''Z'') t (pad 2 mi) = pad 2 mi" "replace_ch (CHR ''Z'') t (pad 2 sec) = pad 2 sec"
    "replace_ch (CHR ''Z'') t (pad 6 f) = pad 6 f" for t
    using assms by (intro replace_ch_none pad_no_Z; simp)+
  have lits: "replace_ch (CHR ''Z'') t ''-'' = ''-''" "replace_ch (CHR ''Z'') t ''T'' = ''T''"
    "replace_ch (CHR ''Z'') t '':'' = '':''" "replace_ch (CHR ''Z'') t ''.'' = ''.''"
    "replace_ch (CHR ''Z'') t ''Z'' = t" for t
    by (simp_all add: replace_ch_def)
  have fields: "take_fields (UTC_FORM @ [(2, CHR ''.''), (6, CHR ''+'')])
     (pad 4 y @ CHR ''-'' # pad 2 m @ CHR ''-'' # pad 2 d @ CHR ''T'' # pad 2 h @ CHR '':'' # pad 2 mi @ CHR '':'' #
       pad 2 sec @ CHR ''.'' # pad 6 f @ CHR ''+'' # ''00:00'') = Some ([y, m, d, h, mi, sec, f], ''00:00'')"
    unfolding UTC_FORM_def append_Cons append_Nil
    by (simp only: take_fields_pad [OF assms(1,2)] take_fields_pad [OF assms(3,4)] take_fields_pad [OF assms(5,6)]
        take_fields_pad [OF assms(7,8)] take_fields_pad [OF assms(9,10)] take_fields_pad [OF assms(11,12)]
        take_fields_pad [OF assms(13,14)] zero_less_numeral take_fields.simps(1) option.map apfst_conv)
  show ?thesis
    unfolding utc_instant_def replace_ch_append noZ lits
    unfolding append_Cons append_Nil fields by simp
qed

text \<open>Reading back what was printed.\<close>

lemma sod_parts:
  fixes n :: int
  assumes "0 \<le> n" "n < 86400"
  shows "0 \<le> n div 3600" "n div 3600 < 24" "0 \<le> n mod 3600 div 60" "n mod 3600 div 60 < 60"
    "0 \<le> n mod 60" "n mod 60 < 60" "n div 3600 * 3600 + n mod 3600 div 60 * 60 + n mod 60 = n"
proof -
  have "n mod 60 = n mod 3600 mod 60" by (simp add: mod_mod_cancel)
  then show "n div 3600 * 3600 + n mod 3600 div 60 * 60 + n mod 60 = n"
    using div_mult_mod_eq [of n 3600] div_mult_mod_eq [of "n mod 3600" 60] by linarith
  have "n mod 3600 < 3600" "0 \<le> n mod 3600" by simp_all
  then show "n mod 3600 div 60 < 60" "0 \<le> n mod 3600 div 60" by linarith+
qed (use assms in linarith)+

lemma us_parts:
  fixes us :: int
  shows "(us div 86400000000 * 86400 + us div 1000000 mod 86400) * 1000000 + us mod 1000000 = us"
proof -
  have "us div 86400000000 = us div 1000000 div 86400" by (simp add: zdiv_zmult2_eq [symmetric])
  then show ?thesis
    using div_mult_mod_eq [of "us div 1000000" 86400] div_mult_mod_eq [of us 1000000] by simp
qed

lemma utc_roundtrip:
  assumes "rfc3339 us = Inr s"
  shows "utc_instant (replace_ch (CHR ''Z'') ''+00:00'' s) = Some us"
proof -
  define z where "z = us div 86400000000"
  define sod where "sod = us div 1000000 mod 86400"
  define f where "f = us mod 1000000"
  obtain y m d where ymd: "civil_from_days z = (y, m, d)" by (metis prod_cases3)
  with assms have y: "1 \<le> y" "y \<le> 9999"
    and s: "s = pad 4 y @ ''-'' @ pad 2 m @ ''-'' @ pad 2 d @ ''T'' @ pad 2 (sod div 3600) @ '':'' @
      pad 2 (sod mod 3600 div 60) @ '':'' @ pad 2 (sod mod 60) @ ''.'' @ pad 6 f @ ''Z''"
    by (auto simp: rfc3339_def stamp_def z_def sod_def f_def split: if_splits)
  have sf: "0 \<le> sod" "sod < 86400" "0 \<le> f" "f < 1000000" by (simp_all add: sod_def f_def)
  have p: "(10 :: int) ^ 2 = 100" "(10 :: int) ^ 4 = 10000" "(10 :: int) ^ 6 = 1000000" by simp_all
  note b = sod_parts [OF sf(1,2)] sf(3,4) civil_bounds [OF ymd] y
  have days: "days_from_civil (y, m, d) = z" by (simp flip: ymd)
  have "date_exists (y, m, d)" using y by (simp add: date_exists_def days ymd)
  then have "instant_of [y, m, d, sod div 3600, sod mod 3600 div 60, sod mod 60, f] =
      Some ((z * 86400 + (sod div 3600 * 3600 + sod mod 3600 div 60 * 60 + sod mod 60)) * 1000000 + f)"
    using b(2,4,6) by (simp add: instant_of_def days add.assoc)
  also have "\<dots> = Some us" unfolding b(7) using us_parts [of us] by (simp add: z_def sod_def f_def)
  finally have i: "instant_of [y, m, d, sod div 3600, sod mod 3600 div 60, sod mod 60, f] = Some us" .
  show ?thesis unfolding s
    by (rule trans [OF utc_fields i]) (use b p in linarith)+
qed

end
