(* ===== verification/Chat_Mock.thy ===== *)
theory Chat_Mock
  imports Pagination Py_Iso Foreign_Surface
begin

text \<open>
  \<^verbatim>\<open>src/jetty/modules/chat/driver.py\<close> (the driver's vocabulary) and \<^verbatim>\<open>src/jetty/modules/chat/mock.py\<close> (the
  in-memory chat). The object's attributes are the record \<open>chat\<close>; dictionaries are association lists
  in insertion order. The surface hands several JSON values to the driver without checking their
  type (a thread, a key, a quoted name, an attachment reference, a page token), so those are \<open>pyval\<close>
  here, and looking one up is what Python does with it: lists and objects are not hashable.

  The wall clock is a parameter of the state: \<open>ch_clock k\<close> is the \<open>k\<close>-th reading in microseconds, and
  the stored time stamp, \<open>round(time.time(), 6)\<close>, is the float nearest to it (\<open>ticks_of_us\<close>). So is
  the text Python prints for a float inside an error message (\<open>ch_float\<close>).
\<close>

section \<open>Vocabulary\<close>

datatype chat_status = C_INVALID_ARGUMENT | C_NOT_FOUND | C_UNIMPLEMENTED | C_UNAVAILABLE | C_INTERNAL

text \<open>The driver's typed exceptions, the surface's, and any other.\<close>

datatype chat_exn =
  ChatRejects string
| ThreadNotFound string
| ChatApiError chat_status string
| ChatValidation string
| ChatRaised py_exn

record chat_page =
  pg_size :: int
  pg_token :: pyval

record message_query =
  mq_page :: chat_page
  mq_after :: int
  mq_before :: int
  mq_thread :: string
  mq_descending :: bool

record message_search =
  se_filter :: string
  se_page :: chat_page
  se_descending :: bool

record space =
  spc_name :: string
  spc_display :: pyval
  spc_type :: pyval

record space_create =
  sc_display :: pyval
  sc_type :: pyval

record member =
  mb_name :: string
  mb_user :: string
  mb_type :: string

record cattachment =
  ca_name :: string
  ca_type :: string

record quote =
  qt_name :: string
  qt_updated :: int
  qt_text :: string

record quote_request =
  qr_name :: pyval
  qr_updated :: int

record message =
  msg_name :: string
  msg_sender :: string
  msg_sender_type :: string
  msg_thread :: string
  msg_text :: string
  msg_created :: int
  msg_updated :: int
  msg_attachments :: "cattachment list"
  msg_quoted :: "quote option"

datatype reply = REPLY_NEW | REPLY_FALLBACK | REPLY_OR_FAIL

record message_create =
  mc_text :: string
  mc_thread :: pyval
  mc_thread_key :: pyval
  mc_reply :: reply
  mc_quote :: "quote_request option"
  mc_attachments :: "pyval list"

record reaction =
  rx_name :: string
  rx_user :: string
  rx_emoji :: string

record upload =
  ul_filename :: string
  ul_type :: string
  ul_size :: int
  ul_content :: string

text \<open>A page of any resource: its rows and the next token.\<close>

type_synonym 'a chat_rows = "'a list \<times> string"

section \<open>Python values as keys and in messages\<close>

text \<open>
  The key a value is in a dictionary: \<open>True\<close>, \<open>1\<close> and \<open>1.0\<close> are the same key. A list or an object
  has none. A lookup of NaN finds nothing, not even an earlier NaN.
\<close>

datatype hkey = HNone | HStr string | HInt int | HFloat pyfloat

definition hash_key :: "pyval \<Rightarrow> py_exn + hkey" where
  "hash_key v =
     (case v of
        PNone \<Rightarrow> Inr HNone
      | PStr s \<Rightarrow> Inr (HStr s)
      | PInt i \<Rightarrow> Inr (HInt i)
      | PBool b \<Rightarrow> Inr (HInt (if b then 1 else 0))
      | PFloat (Fin r) \<Rightarrow>
          Inr (if snd (quotient_of r) = 1 then HInt (fst (quotient_of r)) else HFloat (Fin r))
      | PFloat f \<Rightarrow> Inr (HFloat f)
      | _ \<Rightarrow> Inl TypeError)"

text \<open>\<open>d.get(v)\<close> for a dictionary whose keys are strings.\<close>

definition get_by_val :: "(string, 'v) dict \<Rightarrow> pyval \<Rightarrow> chat_exn + 'v option" where
  "get_by_val d v =
     (case hash_key v of
        Inl e \<Rightarrow> Inl (ChatRaised e)
      | Inr (HStr s) \<Rightarrow> Inr (dict_get d s)
      | Inr _ \<Rightarrow> Inr None)"

text \<open>\<open>repr(v)\<close> and \<open>str(v)\<close>.\<close>

fun repr_val :: "(pyfloat \<Rightarrow> string) \<Rightarrow> pyval \<Rightarrow> string" where
  "repr_val fl PNone = ''None''"
| "repr_val fl (PBool b) = (if b then ''True'' else ''False'')"
| "repr_val fl (PInt i) = str_int i"
| "repr_val fl (PFloat f) = fl f"
| "repr_val fl (PStr s) = py_repr s"
| "repr_val fl (PList vs) = ''['' @ py_join '', '' (map (repr_val fl) vs) @ '']''"
| "repr_val fl (PDict d) = ''{'' @ py_join '', '' (map (\<lambda>kv. py_repr (fst kv) @ '': '' @ repr_val fl (snd kv)) d) @ ''}''"

definition str_val :: "(pyfloat \<Rightarrow> string) \<Rightarrow> pyval \<Rightarrow> string" where
  "str_val fl v = (case v of PStr s \<Rightarrow> s | _ \<Rightarrow> repr_val fl v)"

text \<open>\<open>int(v)\<close>.\<close>

definition int_of_val :: "pyval \<Rightarrow> py_exn + int" where
  "int_of_val v =
     (case v of
        PStr s \<Rightarrow> (case py_int s of None \<Rightarrow> Inl ValueError | Some i \<Rightarrow> Inr i)
      | PInt i \<Rightarrow> Inr i
      | PBool b \<Rightarrow> Inr (if b then 1 else 0)
      | PFloat (Fin r) \<Rightarrow> Inr (if r < 0 then - \<lfloor>- r\<rfloor> else \<lfloor>r\<rfloor>)
      | PFloat NaN \<Rightarrow> Inl ValueError
      | PFloat _ \<Rightarrow> Inl OverflowError
      | _ \<Rightarrow> Inl TypeError)"

section \<open>State\<close>

record chat =
  ch_identity :: string
  ch_counter :: nat
  ch_spaces :: "(string, space) dict"
  ch_members :: "(string, member list) dict"
  ch_messages :: "(string, message) dict"
  ch_order :: "(string, string list) dict"
  ch_threads :: "string list"
  ch_thread_keys :: "(string \<times> hkey, string) dict"
  ch_thread_roots :: "(string, string) dict"
  ch_reactions :: "(string, reaction list) dict"
  ch_uploads :: "(string, upload) dict"
  ch_clock :: "nat \<Rightarrow> int"
  ch_reads :: nat
  ch_float :: "pyfloat \<Rightarrow> string"

type_synonym 'a chat_op = "(chat, chat_exn, 'a) opn"

text \<open>\<open>next(self._counter)\<close> and \<open>round(time.time(), 6)\<close>.\<close>

definition next_count :: "nat chat_op" where
  "next_count s = (Inr (ch_counter s), s\<lparr>ch_counter := Suc (ch_counter s)\<rparr>)"

definition chat_now :: "int chat_op" where
  "chat_now s = (Inr (ticks_of_us (ch_clock s (ch_reads s))), s\<lparr>ch_reads := Suc (ch_reads s)\<rparr>)"

section \<open>Paging\<close>

definition chat_paginate :: "(pyfloat \<Rightarrow> string) \<Rightarrow> 'a list \<Rightarrow> chat_page \<Rightarrow> chat_exn + 'a chat_rows" where
  "chat_paginate fl rows pg =
     (let bad = Inl (ChatRejects (''invalid pageToken '' @ repr_val fl (pg_token pg)))
      in rbind (if \<not> truthy (pg_token pg) then Inr 0
                else case int_of_val (pg_token pg) of
                       Inl ValueError \<Rightarrow> bad
                     | Inl e \<Rightarrow> Inl (ChatRaised e)
                     | Inr i \<Rightarrow> Inr i)
           (\<lambda>offset.
              if offset < 0 then Inl (ChatRejects (''invalid pageToken '' @ repr_val fl (pg_token pg)))
              else let n = (if pg_size pg > 0 then pg_size pg else 25)
                   in Inr (take (nat n) (drop (nat offset) rows),
                           if offset + n < int (length rows) then str_int (offset + n) else [])))"

definition paged :: "'a list \<Rightarrow> chat_page \<Rightarrow> 'a chat_rows chat_op" where
  "paged rows pg s = (chat_paginate (ch_float s) rows pg, s)"

text \<open>\<open>[d[k] for k in ks]\<close>.\<close>

definition dict_index :: "(string, 'v) dict \<Rightarrow> string \<Rightarrow> chat_exn + 'v" where
  "dict_index d k = (case dict_get d k of None \<Rightarrow> Inl (ChatRaised KeyError) | Some v \<Rightarrow> Inr v)"

section \<open>Internals\<close>

definition new_thread :: "string \<Rightarrow> string chat_op" where
  "new_thread space =
     sbind next_count (\<lambda>n.
     let thread = space @ ''/threads/t'' @ str_nat n
     in sbind (smod (\<lambda>s. s\<lparr>ch_threads := List.insert thread (ch_threads s)\<rparr>)) (\<lambda>_. sret thread))"

definition insert_message :: "string \<Rightarrow> string \<Rightarrow> string \<Rightarrow> string \<Rightarrow> string \<Rightarrow> cattachment list \<Rightarrow> quote option \<Rightarrow>
    message chat_op" where
  "insert_message space sender txt thread sender_type attachments quoted =
     sbind (if thread = [] then new_thread space else sret thread) (\<lambda>thread.
     sbind next_count (\<lambda>n.
     sbind chat_now (\<lambda>now.
     let name = space @ ''/messages/m'' @ str_nat n;
         m = \<lparr>msg_name = name, msg_sender = sender, msg_sender_type = sender_type, msg_thread = thread,
              msg_text = txt, msg_created = now, msg_updated = 0, msg_attachments = attachments,
              msg_quoted = quoted\<rparr>
     in sbind (smod (\<lambda>s. s\<lparr>ch_messages := dict_set name m (ch_messages s),
                         ch_order := dict_set space (dict_get_or (ch_order s) space [] @ [name]) (ch_order s),
                         ch_thread_roots := dict_set thread (dict_get_or (ch_thread_roots s) thread name) (ch_thread_roots s)\<rparr>))
          (\<lambda>_. sret m))))"

definition space_of :: "string \<Rightarrow> string" where
  "space_of resource = py_join ''/'' (take 2 (split_ch (CHR ''/'') resource))"

section \<open>Construction\<close>

record seed_space =
  sds_id :: string
  sds_display :: string
  sds_type :: string
  sds_members :: "string list"

record seed_message =
  sdm_space :: string
  sdm_text :: string
  sdm_sender :: string

definition seed_space_row :: "seed_space \<Rightarrow> chat \<Rightarrow> chat" where
  "seed_space_row row s =
     (let name = ''spaces/'' @ sds_id row
      in s\<lparr>ch_spaces := dict_set name \<lparr>spc_name = name, spc_display = PStr (sds_display row),
                                     spc_type = PStr (sds_type row)\<rparr> (ch_spaces s),
           ch_members := dict_set name
             (map (\<lambda>(i, user). \<lparr>mb_name = name @ ''/members/'' @ str_nat (i + 1), mb_user = user, mb_type = ''HUMAN''\<rparr>)
               (enumerate 0 (sds_members row))) (ch_members s)\<rparr>)"

fun seed_messages :: "seed_message list \<Rightarrow> unit chat_op" where
  "seed_messages [] = sret ()"
| "seed_messages (row # rows) =
     (let space = ''spaces/'' @ sdm_space row
      in sbind (sget (\<lambda>s. dict_in space (ch_spaces s))) (\<lambda>known.
         if \<not> known then sraise (ChatRaised ValueError)
         else sbind (insert_message space (sdm_sender row) (sdm_text row) [] ''HUMAN'' [] None) (\<lambda>_.
              seed_messages rows)))"

definition empty_chat :: "string \<Rightarrow> (nat \<Rightarrow> int) \<Rightarrow> (pyfloat \<Rightarrow> string) \<Rightarrow> chat" where
  "empty_chat identity clock fl =
     \<lparr>ch_identity = identity, ch_counter = 1, ch_spaces = [], ch_members = [], ch_messages = [], ch_order = [],
      ch_threads = [], ch_thread_keys = [], ch_thread_roots = [], ch_reactions = [], ch_uploads = [],
      ch_clock = clock, ch_reads = 0, ch_float = fl\<rparr>"

definition MockChatDriver :: "string \<Rightarrow> seed_space list \<Rightarrow> seed_message list \<Rightarrow> (nat \<Rightarrow> int) \<Rightarrow> (pyfloat \<Rightarrow> string) \<Rightarrow>
    chat_exn + chat" where
  "MockChatDriver identity spaces messages clock fl =
     (case seed_messages messages (fold seed_space_row spaces (empty_chat identity clock fl)) of
        (Inl e, _) \<Rightarrow> Inl e
      | (Inr _, s) \<Rightarrow> Inr s)"

section \<open>Spaces\<close>

definition list_spaces :: "chat_page \<Rightarrow> space chat_rows chat_op" where
  "list_spaces pg s =
     (case rmap (dict_index (ch_spaces s)) (sort (dict_keys (ch_spaces s))) of
        Inl e \<Rightarrow> (Inl e, s)
      | Inr rows \<Rightarrow> paged rows pg s)"

definition get_space :: "string \<Rightarrow> space option chat_op" where
  "get_space space s = (Inr (dict_get (ch_spaces s) space), s)"

definition create_space :: "space_create \<Rightarrow> space chat_op" where
  "create_space req =
     sbind next_count (\<lambda>n.
     let name = ''spaces/mock'' @ str_nat n;
         created = \<lparr>spc_name = name, spc_display = sc_display req, spc_type = sc_type req\<rparr>
     in sbind (smod (\<lambda>s. s\<lparr>ch_spaces := dict_set name created (ch_spaces s),
                         ch_members := dict_set name
                           [\<lparr>mb_name = name @ ''/members/1'', mb_user = ch_identity s, mb_type = ''HUMAN''\<rparr>] (ch_members s)\<rparr>))
          (\<lambda>_. sret created))"

definition dm_with :: "chat \<Rightarrow> string \<Rightarrow> string \<Rightarrow> bool" where
  "dm_with s user name \<longleftrightarrow>
     (case dict_get (ch_spaces s) name of
        None \<Rightarrow> False
      | Some sp \<Rightarrow> spc_type sp = PStr ''DIRECT_MESSAGE'' \<and>
          list_ex (\<lambda>m. mb_user m = user) (dict_get_or (ch_members s) name []))"

definition find_direct_message :: "string \<Rightarrow> space option chat_op" where
  "find_direct_message user s =
     (Inr (case find (dm_with s user) (sort (dict_keys (ch_spaces s))) of
             None \<Rightarrow> None
           | Some name \<Rightarrow> dict_get (ch_spaces s) name), s)"

definition list_members :: "string \<Rightarrow> chat_page \<Rightarrow> member chat_rows chat_op" where
  "list_members space pg s = paged (dict_get_or (ch_members s) space []) pg s"

section \<open>Messages\<close>

text \<open>The conditions of a query on one row; a bound of zero and an empty thread do not constrain.\<close>

definition query_row :: "message_query \<Rightarrow> message \<Rightarrow> bool" where
  "query_row q m \<longleftrightarrow>
     (mq_thread q \<noteq> [] \<longrightarrow> msg_thread m = mq_thread q) \<and>
     (mq_after q \<noteq> 0 \<longrightarrow> msg_created m > mq_after q) \<and>
     (mq_before q \<noteq> 0 \<longrightarrow> msg_created m < mq_before q)"

definition list_messages :: "string \<Rightarrow> message_query \<Rightarrow> message chat_rows chat_op" where
  "list_messages space q s =
     (case rmap (dict_index (ch_messages s)) (dict_get_or (ch_order s) space []) of
        Inl e \<Rightarrow> (Inl e, s)
      | Inr rows \<Rightarrow> paged (py_sort msg_created (mq_descending q) (filter (query_row q) rows)) (mq_page q) s)"

definition get_message :: "string \<Rightarrow> message option chat_op" where
  "get_message name s = (Inr (dict_get (ch_messages s) name), s)"

text \<open>The thread a message goes to; the empty name makes \<open>insert_message\<close> start one.\<close>

definition key_thread :: "string \<Rightarrow> message_create \<Rightarrow> hkey \<Rightarrow> string chat_op" where
  "key_thread space req k =
     sbind (sget (\<lambda>s. if k = HFloat NaN then None else dict_get (ch_thread_keys s) (space, k))) (\<lambda>known.
       case known of
         Some thread \<Rightarrow> sret thread
       | None \<Rightarrow>
           if mc_reply req = REPLY_OR_FAIL
           then (\<lambda>s. (Inl (ThreadNotFound (''threadKey '' @ repr_val (ch_float s) (mc_thread_key req))), s))
           else sbind (new_thread space) (\<lambda>thread.
                sbind (smod (\<lambda>s. s\<lparr>ch_thread_keys := dict_set (space, k) thread (ch_thread_keys s)\<rparr>)) (\<lambda>_.
                  sret thread)))"

definition resolve_thread :: "string \<Rightarrow> message_create \<Rightarrow> string chat_op" where
  "resolve_thread space req s =
     (if mc_reply req = REPLY_NEW \<or> \<not> (truthy (mc_thread req) \<or> truthy (mc_thread_key req)) then (Inr [], s)
      else if truthy (mc_thread req)
      then case hash_key (mc_thread req) of
             Inl e \<Rightarrow> (Inl (ChatRaised e), s)
           | Inr k \<Rightarrow>
               if \<exists>t \<in> set (ch_threads s). k = HStr t then (Inr (str_of (mc_thread req)), s)
               else if mc_reply req = REPLY_OR_FAIL
               then (Inl (ThreadNotFound (str_val (ch_float s) (mc_thread req))), s)
               else (Inr [], s)
      else case hash_key (mc_thread_key req) of
             Inl e \<Rightarrow> (Inl (ChatRaised e), s)
           | Inr k \<Rightarrow> key_thread space req k s)"

text \<open>\<open>1e-6\<close> seconds are 4.194304 ticks, so a difference above it is one of five ticks or more.\<close>

definition resolve_quote :: "quote_request \<Rightarrow> string \<Rightarrow> quote chat_op" where
  "resolve_quote qr thread s =
     (rbind (get_by_val (ch_messages s) (qr_name qr)) (\<lambda>found.
        case found of
          None \<Rightarrow> Inl (ChatRejects (''quotedMessageMetadata.name: no such message '' @ repr_val (ch_float s) (qr_name qr)))
        | Some quoted \<Rightarrow>
            let current = (if msg_updated quoted \<noteq> 0 then msg_updated quoted else msg_created quoted);
                is_root = (dict_get (ch_thread_roots s) (msg_thread quoted) = Some (msg_name quoted))
            in if 4 < \<bar>current - qr_updated qr\<bar>
               then Inl (ChatRejects ''quotedMessageMetadata.lastUpdateTime does not match the latest version of the quoted message'')
               else if msg_thread quoted \<noteq> thread \<and> \<not> is_root
               then Inl (ChatRejects ''quotedMessageMetadata.name: a message may only quote a message in the same thread or a root message'')
               else Inr \<lparr>qt_name = msg_name quoted, qt_updated = current, qt_text = msg_text quoted\<rparr>), s)"

definition resolve_attachment :: "chat \<Rightarrow> pyval \<Rightarrow> chat_exn + cattachment" where
  "resolve_attachment s ref =
     rbind (get_by_val (ch_uploads s) ref) (\<lambda>found.
       case found of
         None \<Rightarrow> Inl (ChatRejects (''attachmentDataRef: no such upload '' @ repr_val (ch_float s) ref))
       | Some up \<Rightarrow> Inr \<lparr>ca_name = ul_filename up, ca_type = ul_type up\<rparr>)"

definition create_message :: "string \<Rightarrow> message_create \<Rightarrow> message chat_op" where
  "create_message space req =
     sbind (resolve_thread space req) (\<lambda>thread.
     sbind (case mc_quote req of
              None \<Rightarrow> sret None
            | Some qr \<Rightarrow> sbind (resolve_quote qr thread) (\<lambda>q. sret (Some q))) (\<lambda>quoted.
     sbind (\<lambda>s. (rmap (resolve_attachment s) (mc_attachments req), s)) (\<lambda>attachments.
     sbind (sget ch_identity) (\<lambda>identity.
       insert_message space identity (mc_text req) thread ''HUMAN'' attachments quoted))))"

text \<open>The patch is the text of the update mask, if it names one.\<close>

definition patch_message :: "string \<Rightarrow> string option \<Rightarrow> message option chat_op" where
  "patch_message name patch =
     sbind (sget (\<lambda>s. dict_get (ch_messages s) name)) (\<lambda>found.
       case found of
         None \<Rightarrow> sret None
       | Some m \<Rightarrow>
           (case patch of
              None \<Rightarrow> sret (Some m)
            | Some txt \<Rightarrow>
                sbind chat_now (\<lambda>now.
                let m' = m\<lparr>msg_text := txt, msg_updated := now\<rparr>
                in sbind (smod (\<lambda>s. s\<lparr>ch_messages := dict_set name m' (ch_messages s)\<rparr>)) (\<lambda>_. sret (Some m')))))"

text \<open>\<open>self._order[space].remove(name)\<close> raises when the space or the name is missing.\<close>

definition delete_message :: "string \<Rightarrow> bool chat_op" where
  "delete_message name s =
     (case dict_get (ch_messages s) name of
        None \<Rightarrow> (Inr False, s)
      | Some _ \<Rightarrow>
          let s1 = s\<lparr>ch_messages := dict_del name (ch_messages s)\<rparr>; sp = space_of name
          in case dict_get (ch_order s1) sp of
               None \<Rightarrow> (Inl (ChatRaised KeyError), s1)
             | Some names \<Rightarrow>
                 if name \<notin> set names then (Inl (ChatRaised ValueError), s1)
                 else (Inr True, s1\<lparr>ch_order := dict_set sp (remove1 name names) (ch_order s1),
                                   ch_reactions := dict_del name (ch_reactions s1)\<rparr>))"

definition search_messages :: "message_search \<Rightarrow> message chat_rows chat_op" where
  "search_messages req s =
     (let needle = py_lower (se_filter req);
          rows = filter (\<lambda>m. py_in needle (py_lower (msg_text m))) (dict_values (ch_messages s))
      in paged (py_sort msg_created (se_descending req) rows) (se_page req) s)"

section \<open>Reactions and media\<close>

definition create_reaction :: "string \<Rightarrow> string \<Rightarrow> reaction chat_op" where
  "create_reaction message emoji =
     sbind next_count (\<lambda>n.
     sbind (sget ch_identity) (\<lambda>identity.
     let r = \<lparr>rx_name = message @ ''/reactions/r'' @ str_nat n, rx_user = identity, rx_emoji = emoji\<rparr>
     in sbind (smod (\<lambda>s. s\<lparr>ch_reactions :=
              dict_set message (dict_get_or (ch_reactions s) message [] @ [r]) (ch_reactions s)\<rparr>)) (\<lambda>_. sret r)))"

definition list_reactions :: "string \<Rightarrow> chat_page \<Rightarrow> reaction chat_rows chat_op" where
  "list_reactions message pg s = paged (dict_get_or (ch_reactions s) message []) pg s"

text \<open>Deletes the first reaction of that name from its message's list.\<close>

fun drop_reaction :: "string \<Rightarrow> reaction list \<Rightarrow> reaction list option" where
  "drop_reaction name [] = None"
| "drop_reaction name (r # rs) =
     (if rx_name r = name then Some rs else map_option (Cons r) (drop_reaction name rs))"

definition delete_reaction :: "string \<Rightarrow> bool chat_op" where
  "delete_reaction name s =
     (let message = rsplit1_head ''/reactions/'' name
      in case drop_reaction name (dict_get_or (ch_reactions s) message []) of
           None \<Rightarrow> (Inr False, s)
         | Some rows \<Rightarrow> (Inr True, s\<lparr>ch_reactions := dict_set message rows (ch_reactions s)\<rparr>))"

definition upload_attachment :: "string \<Rightarrow> upload \<Rightarrow> string chat_op" where
  "upload_attachment space up =
     sbind (sget (\<lambda>s. dict_in space (ch_spaces s))) (\<lambda>known.
       if \<not> known then sraise (ChatRejects (''no such space '' @ py_repr space))
       else sbind next_count (\<lambda>n.
            let ref = space @ ''/attachments/up'' @ str_nat n
            in sbind (smod (\<lambda>s. s\<lparr>ch_uploads := dict_set ref up (ch_uploads s)\<rparr>)) (\<lambda>_. sret ref)))"

definition chat_ping :: "unit chat_op" where
  "chat_ping = sret ()"

end
