(* ===== verification/Chat_Surface.thy ===== *)
theory Chat_Surface
  imports Chat_Mock
begin

text \<open>
  \<^verbatim>\<open>src/jetty/modules/chat/module.py\<close>: the emulated chat surface. Rendering, the request parsers
  (including the list filter's little grammar), the mapping of driver failures, one handler per
  route, the route class and construction. Path and query parameters arrive as FastAPI hands them
  over; a JSON body is \<open>Inl\<close> when \<open>request.json()\<close> raised. \<open>chat_env\<close> holds what the handlers take
  from outside the driver: the upload limit, and how the interpreter reads time stamps that are not
  in the printed UTC form (theory \<open>Py_Iso\<close>).
\<close>

section \<open>Errors\<close>

primrec chat_status_str :: "chat_status \<Rightarrow> string" where
  "chat_status_str C_INVALID_ARGUMENT = ''INVALID_ARGUMENT''"
| "chat_status_str C_NOT_FOUND = ''NOT_FOUND''"
| "chat_status_str C_UNIMPLEMENTED = ''UNIMPLEMENTED''"
| "chat_status_str C_UNAVAILABLE = ''UNAVAILABLE''"
| "chat_status_str C_INTERNAL = ''INTERNAL''"

primrec CHAT_STATUS_HTTP :: "chat_status \<Rightarrow> int" where
  "CHAT_STATUS_HTTP C_INVALID_ARGUMENT = 400"
| "CHAT_STATUS_HTTP C_NOT_FOUND = 404"
| "CHAT_STATUS_HTTP C_UNIMPLEMENTED = 501"
| "CHAT_STATUS_HTTP C_UNAVAILABLE = 503"
| "CHAT_STATUS_HTTP C_INTERNAL = 500"

definition chat_error_response :: "chat_status \<Rightarrow> string \<Rightarrow> http_response" where
  "chat_error_response st msg =
     \<lparr>resp_status = CHAT_STATUS_HTTP st,
      resp_json = PDict [(''error'',
        PDict [(''code'', PInt (CHAT_STATUS_HTTP st)), (''message'', PStr msg),
               (''status'', PStr (chat_status_str st))])]\<rparr>"

definition chat_route :: "chat_exn + pyval \<Rightarrow> http_response" where
  "chat_route r =
     (case r of
        Inr v \<Rightarrow> \<lparr>resp_status = 200, resp_json = v\<rparr>
      | Inl (ChatApiError st msg) \<Rightarrow> chat_error_response st msg
      | Inl (ChatValidation loc) \<Rightarrow> chat_error_response C_INVALID_ARGUMENT (''invalid request: '' @ loc)
      | Inl _ \<Rightarrow> chat_error_response C_INTERNAL ''internal error'')"

definition chat_invalid :: "string \<Rightarrow> chat_exn" where
  "chat_invalid msg = ChatApiError C_INVALID_ARGUMENT msg"

record chat_env =
  ce_upload_max :: int
  ce_iso :: "string \<Rightarrow> py_exn + int"

section \<open>Time\<close>

definition chat_rfc3339 :: "int \<Rightarrow> chat_exn + string" where
  "chat_rfc3339 t = (case rfc3339_ticks t of Inl e \<Rightarrow> Inl (ChatRaised e) | Inr s \<Rightarrow> Inr s)"

definition parse_time :: "chat_env \<Rightarrow> pyval \<Rightarrow> string \<Rightarrow> chat_exn + int" where
  "parse_time env value field_name =
     (case value of
        PStr v \<Rightarrow>
          (case fromisoformat (ce_iso env) (replace_ch (CHR ''Z'') ''+00:00'' v) of
             Inr us \<Rightarrow> Inr (ticks_of_us us)
           | Inl ValueError \<Rightarrow> Inl (chat_invalid (field_name @ '': invalid timestamp '' @ py_repr v))
           | Inl e \<Rightarrow> Inl (ChatRaised e))
      | _ \<Rightarrow> Inl (ChatRaised AttributeError))"

section \<open>Wire rendering\<close>

definition space_json :: "space \<Rightarrow> pyval" where
  "space_json sp =
     PDict [(''name'', PStr (spc_name sp)), (''displayName'', spc_display sp), (''spaceType'', spc_type sp)]"

definition member_json :: "member \<Rightarrow> pyval" where
  "member_json m =
     PDict [(''name'', PStr (mb_name m)),
            (''member'', PDict [(''name'', PStr (mb_user m)), (''type'', PStr (mb_type m))])]"

definition quote_json :: "quote \<Rightarrow> chat_exn + pyval" where
  "quote_json q =
     rbind (chat_rfc3339 (qt_updated q)) (\<lambda>t.
       Inr (PDict [(''name'', PStr (qt_name q)), (''lastUpdateTime'', PStr t),
                   (''quotedMessageSnapshot'', PDict [(''text'', PStr (qt_text q))])]))"

definition message_json :: "message \<Rightarrow> chat_exn + pyval" where
  "message_json m =
     rbind (chat_rfc3339 (msg_created m)) (\<lambda>created.
     rbind (if msg_updated m \<noteq> 0
            then rbind (chat_rfc3339 (msg_updated m)) (\<lambda>t. Inr [(''lastUpdateTime'', PStr t)])
            else Inr []) (\<lambda>updated.
     rbind (case msg_quoted m of
              None \<Rightarrow> Inr []
            | Some q \<Rightarrow> rbind (quote_json q) (\<lambda>j. Inr [(''quotedMessageMetadata'', j)])) (\<lambda>quoted.
       Inr (PDict ([(''name'', PStr (msg_name m)),
                    (''sender'', PDict [(''name'', PStr (msg_sender m)), (''type'', PStr (msg_sender_type m))]),
                    (''thread'', PDict [(''name'', PStr (msg_thread m))]),
                    (''text'', PStr (msg_text m)), (''createTime'', PStr created)] @
                   updated @
                   (if msg_attachments m \<noteq> []
                    then [(''attachment'', PList (map (\<lambda>a.
                            PDict [(''contentName'', PStr (ca_name a)), (''contentType'', PStr (ca_type a))])
                            (msg_attachments m)))]
                    else []) @
                   quoted)))))"

definition reaction_json :: "reaction \<Rightarrow> pyval" where
  "reaction_json r =
     PDict [(''name'', PStr (rx_name r)), (''user'', PDict [(''name'', PStr (rx_user r))]),
            (''emoji'', PDict [(''unicode'', PStr (rx_emoji r))])]"

section \<open>Request parsing\<close>

definition chat_json_body :: "py_exn + pyval \<Rightarrow> string list \<Rightarrow> chat_exn + (string \<times> pyval) list" where
  "chat_json_body raw allowed =
     (case raw of
        Inl _ \<Rightarrow> Inl (chat_invalid ''request body is not JSON'')
      | Inr (PDict body) \<Rightarrow>
          (case unknown_keys allowed body of
             [] \<Rightarrow> Inr body
           | k # _ \<Rightarrow> Inl (chat_invalid (''unknown field '' @ py_repr k @ '' in request body'')))
      | Inr _ \<Rightarrow> Inl (chat_invalid ''request body must be an object''))"

definition chat_mk_page :: "int option \<Rightarrow> pyval \<Rightarrow> chat_exn + chat_page" where
  "chat_mk_page psize ptoken =
     (let n = (case psize of None \<Rightarrow> 0 | Some k \<Rightarrow> k)
      in if n < 0 then Inl (chat_invalid ''pageSize must not be negative'')
         else Inr \<lparr>pg_size = (if min n 1000 = 0 then 25 else min n 1000),
                   pg_token = (if truthy ptoken then ptoken else PStr [])\<rparr>)"

text \<open>
  \<open>re.split(r"\s+AND\s+", s, flags=re.IGNORECASE)\<close>: the first run of white space that is followed by
  the word and more white space separates, and the white space after the word goes with it.
\<close>

definition and_after :: "string \<Rightarrow> string option" where
  "and_after s =
     (let t = dropWhile is_space s; rest = drop 3 t
      in if py_lower (take 3 t) = ''and'' \<and> rest \<noteq> [] \<and> is_space (hd rest)
         then Some (dropWhile is_space rest) else None)"

fun find_and :: "string \<Rightarrow> (string \<times> string) option" where
  "find_and [] = None"
| "find_and (c # s) =
     (case (if is_space c then and_after s else None) of
        Some rest \<Rightarrow> Some ([], rest)
      | None \<Rightarrow> map_option (apfst (Cons c)) (find_and s))"

lemma and_after_shorter: "and_after s = Some r \<Longrightarrow> length r < length s"
proof -
  assume "and_after s = Some r"
  then have r: "r = dropWhile is_space (drop 3 (dropWhile is_space s))" "drop 3 (dropWhile is_space s) \<noteq> []"
    by (auto simp: and_after_def Let_def split: if_splits)
  have "length r \<le> length (drop 3 (dropWhile is_space s))" unfolding r(1) by (rule length_dropWhile_le)
  also have "\<dots> < length (dropWhile is_space s)" using r(2) by (simp only: length_drop) simp
  also have "\<dots> \<le> length s" by (rule length_dropWhile_le)
  finally show ?thesis .
qed

lemma find_and_shorter: "find_and s = Some (a, r) \<Longrightarrow> length r < length s"
  by (induction s arbitrary: a r)
    (auto split: option.splits if_splits dest: and_after_shorter intro: less_SucI)

function split_and :: "string \<Rightarrow> string list" where
  "split_and s = (case find_and s of None \<Rightarrow> [s] | Some (term, rest) \<Rightarrow> term # split_and rest)"
  by pat_completeness auto
termination by (relation "measure length") (auto dest: find_and_shorter)

declare split_and.simps [simp del]

text \<open>\<open>[\w.]\<close> on Latin-1.\<close>

definition is_word_dot :: "char \<Rightarrow> bool" where
  "is_word_dot c \<longleftrightarrow>
     (let n = (of_char c :: nat)
      in is_lower_az c \<or> is_upper_az c \<or> is_digit_ch c \<or> c = CHR ''_'' \<or> c = CHR ''.'' \<or>
         n \<in> {170, 181, 186, 188, 189, 190} \<or> (192 \<le> n \<and> n \<noteq> 215 \<and> n \<noteq> 247))"

text \<open>
  The value part of \<open>_FILTER_TERM\<close>, \<open>\s*"?([^"]*?)"?\s*$\<close>: with a quote in it the value ends there and
  only white space may follow; otherwise trailing white space is cut.
\<close>

definition filter_value :: "string \<Rightarrow> string option" where
  "filter_value r =
     (let t = dropWhile is_space r;
          u = (case t of c # t' \<Rightarrow> if c = CHR 0x22 then t' else t | [] \<Rightarrow> [])
      in case partition_ch (CHR 0x22) u of (v, quoted, after) \<Rightarrow>
           if \<not> quoted then Some (py_rstrip u)
           else if list_all is_space after then Some v else None)"

definition filter_term :: "string \<Rightarrow> (string \<times> char \<times> string) option" where
  "filter_term term =
     (let t = dropWhile is_space term; f = takeWhile is_word_dot t;
          r = dropWhile is_space (dropWhile is_word_dot t)
      in if f = [] then None
         else case r of
                [] \<Rightarrow> None
              | op # v \<Rightarrow>
                  if op \<in> {CHR ''>'', CHR ''<'', CHR ''=''}
                  then map_option (\<lambda>value. (f, op, value)) (filter_value v) else None)"

fun filter_terms :: "chat_env \<Rightarrow> string list \<Rightarrow> int \<times> int \<times> string \<Rightarrow> chat_exn + int \<times> int \<times> string" where
  "filter_terms env [] acc = Inr acc"
| "filter_terms env (t # ts) (after, before, thread) =
     (if t = [] then filter_terms env ts (after, before, thread)
      else case filter_term t of
        None \<Rightarrow> Inl (chat_invalid (''filter: cannot parse '' @ py_repr t))
      | Some (f, op, value) \<Rightarrow>
          if f = ''createTime'' \<and> op = CHR ''>''
          then rbind (parse_time env (PStr value) ''filter createTime'') (\<lambda>x.
                 filter_terms env ts (x, before, thread))
          else if f = ''createTime'' \<and> op = CHR ''<''
          then rbind (parse_time env (PStr value) ''filter createTime'') (\<lambda>x.
                 filter_terms env ts (after, x, thread))
          else if f = ''thread.name'' \<and> op = CHR ''=''
          then if thread \<noteq> [] then Inl (chat_invalid ''filter: only one thread.name per query'')
               else filter_terms env ts (after, before, value)
          else Inl (chat_invalid (''filter: unsupported field or operator in '' @ py_repr t)))"

definition parse_list_filter :: "chat_env \<Rightarrow> string \<Rightarrow> chat_exn + int \<times> int \<times> string" where
  "parse_list_filter env filter_str = filter_terms env (split_and (py_strip filter_str)) (0, 0, [])"

definition chat_parse_order_by :: "pyval \<Rightarrow> chat_exn + bool" where
  "chat_parse_order_by order_by =
     (if \<not> truthy order_by then Inr False
      else case order_by of
        PStr s \<Rightarrow>
          (let parts = py_split s; bad = Inl (chat_invalid (''orderBy: unsupported '' @ py_repr s))
           in if length parts > 2 then bad
              else case parts of
                [] \<Rightarrow> Inl (ChatRaised IndexError)
              | f # rest \<Rightarrow>
                  if f \<noteq> ''createTime'' then bad
                  else let direction = (case rest of [d] \<Rightarrow> py_upper d | _ \<Rightarrow> ''ASC'')
                       in if direction \<notin> {''ASC'', ''DESC''} then bad else Inr (direction = ''DESC''))
      | _ \<Rightarrow> Inl (ChatRaised AttributeError))"

definition REPLY_OPTIONS :: "(string option \<times> reply) list" where
  "REPLY_OPTIONS =
     [(None, REPLY_NEW), (Some ''MESSAGE_REPLY_OPTION_UNSPECIFIED'', REPLY_NEW),
      (Some ''REPLY_MESSAGE_FALLBACK_TO_NEW_THREAD'', REPLY_FALLBACK), (Some ''REPLY_MESSAGE_OR_FAIL'', REPLY_OR_FAIL)]"

text \<open>\<open>v.get(key, default)\<close> on any value: only an object has \<open>get\<close>.\<close>

definition val_get :: "pyval \<Rightarrow> string \<Rightarrow> pyval \<Rightarrow> chat_exn + pyval" where
  "val_get v key dflt =
     (case v of PDict d \<Rightarrow> Inr (dict_get_or d key dflt) | _ \<Rightarrow> Inl (ChatRaised AttributeError))"

definition parse_quote :: "chat_env \<Rightarrow> pyval \<Rightarrow> chat_exn + quote_request option" where
  "parse_quote env meta =
     (let bad = Inl (chat_invalid ''quotedMessageMetadata.name is required'')
      in case meta of
        PNone \<Rightarrow> Inr None
      | PDict d \<Rightarrow>
          if \<not> truthy (pget d ''name'') then bad
          else if \<not> truthy (pget d ''lastUpdateTime'')
          then Inl (chat_invalid ''quotedMessageMetadata.lastUpdateTime is required'')
          else rbind (parse_time env (pget d ''lastUpdateTime'') ''quotedMessageMetadata.lastUpdateTime'') (\<lambda>t.
                 Inr (Some \<lparr>qr_name = pget d ''name'', qr_updated = t\<rparr>))
      | _ \<Rightarrow> bad)"

definition parse_attachment_row :: "pyval \<Rightarrow> chat_exn + pyval" where
  "parse_attachment_row row =
     rbind (val_get (if truthy row then row else PDict []) ''attachmentDataRef'' (PDict [])) (\<lambda>r.
     rbind (val_get r ''resourceName'' (PStr [])) (\<lambda>ref.
       if truthy ref then Inr ref
       else Inl (chat_invalid ''attachment.attachmentDataRef.resourceName is required'')))"

text \<open>What a \<open>for\<close> loop over a JSON value visits: strings yield characters, objects their keys.\<close>

definition iterate :: "pyval \<Rightarrow> chat_exn + pyval list" where
  "iterate v =
     (case v of
        PList vs \<Rightarrow> Inr vs
      | PStr s \<Rightarrow> Inr (map (\<lambda>c. PStr [c]) s)
      | PDict d \<Rightarrow> Inr (map (\<lambda>k. PStr k) (dict_keys d))
      | _ \<Rightarrow> Inl (ChatRaised TypeError))"

definition chat_parse_create :: "chat_env \<Rightarrow> (string \<times> pyval) list \<Rightarrow> string option \<Rightarrow> chat_exn + message_create" where
  "chat_parse_create env body reply_option =
     rbind (case dict_get_or body ''text'' (PStr []) of
              PStr (c # cs) \<Rightarrow> Inr (c # cs)
            | _ \<Rightarrow> Inl (chat_invalid ''text is required'')) (\<lambda>txt.
     case map_of REPLY_OPTIONS reply_option of
       None \<Rightarrow> Inl (chat_invalid (''messageReplyOption: unsupported '' @ py_repr (case reply_option of Some o' \<Rightarrow> o' | None \<Rightarrow> [])))
     | Some reply \<Rightarrow>
         (case (if truthy (pget body ''thread'') then pget body ''thread'' else PDict []) of
            PDict thread \<Rightarrow>
              rbind (parse_quote env (pget body ''quotedMessageMetadata'')) (\<lambda>quote.
              rbind (iterate (if truthy (pget body ''attachment'') then pget body ''attachment'' else PList [])) (\<lambda>rows.
              rbind (rmap parse_attachment_row rows) (\<lambda>attachments.
                Inr \<lparr>mc_text = txt, mc_thread = dict_get_or thread ''name'' (PStr []),
                     mc_thread_key = dict_get_or thread ''threadKey'' (PStr []), mc_reply = reply,
                     mc_quote = quote, mc_attachments = attachments\<rparr>)))
          | _ \<Rightarrow> Inl (chat_invalid ''thread must be an object'')))"

section \<open>The module\<close>

definition chat_drive_exn :: "chat_exn \<Rightarrow> chat_exn" where
  "chat_drive_exn e =
     (case e of
        ChatRejects m \<Rightarrow> ChatApiError C_INVALID_ARGUMENT m
      | ThreadNotFound m \<Rightarrow> ChatApiError C_NOT_FOUND (''thread not found: '' @ m)
      | ChatApiError st m \<Rightarrow> ChatApiError st m
      | _ \<Rightarrow> ChatApiError C_UNAVAILABLE ''chat upstream unavailable'')"

definition chat_drive :: "'a chat_op \<Rightarrow> 'a chat_op" where
  "chat_drive m s = (case m s of (Inl e, s') \<Rightarrow> (Inl (chat_drive_exn e), s') | (Inr x, s') \<Rightarrow> (Inr x, s'))"

definition not_found_unless :: "'a option \<Rightarrow> string \<Rightarrow> 'a chat_op" where
  "not_found_unless r msg = (case r of None \<Rightarrow> sraise (ChatApiError C_NOT_FOUND msg) | Some x \<Rightarrow> sret x)"

definition require_message :: "string \<Rightarrow> message chat_op" where
  "require_message name =
     sbind (chat_drive (get_message name)) (\<lambda>r. not_found_unless r (''message not found: '' @ name))"

definition require_space :: "string \<Rightarrow> space chat_op" where
  "require_space space_id =
     sbind (chat_drive (get_space (''spaces/'' @ space_id))) (\<lambda>r.
       not_found_unless r (''space not found: spaces/'' @ space_id))"

definition message_path :: "string \<Rightarrow> string \<Rightarrow> string" where
  "message_path space_id message_id = ''spaces/'' @ space_id @ ''/messages/'' @ message_id"

definition rows_json :: "string \<Rightarrow> pyval list \<Rightarrow> string \<Rightarrow> pyval" where
  "rows_json key rows token =
     PDict ((key, PList rows) # (if token \<noteq> [] then [(''nextPageToken'', PStr token)] else []))"

definition opt_val :: "string option \<Rightarrow> pyval" where
  "opt_val v = (case v of None \<Rightarrow> PNone | Some s \<Rightarrow> PStr s)"

definition hc_list_spaces :: "int option \<Rightarrow> string option \<Rightarrow> pyval chat_op" where
  "hc_list_spaces pageSize pageToken =
     sbind (slift (chat_mk_page pageSize (opt_val pageToken))) (\<lambda>pg.
     sbind (chat_drive (list_spaces pg)) (\<lambda>(rows, token).
       sret (rows_json ''spaces'' (map space_json rows) token)))"

definition hc_find_direct_message :: "string option \<Rightarrow> pyval chat_op" where
  "hc_find_direct_message name =
     (case name of
        None \<Rightarrow> sraise (chat_invalid ''name is required'')
      | Some n \<Rightarrow>
          if n = [] then sraise (chat_invalid ''name is required'')
          else sbind (chat_drive (find_direct_message n)) (\<lambda>r.
               sbind (not_found_unless r (''no direct message with '' @ n)) (\<lambda>sp. sret (space_json sp))))"

definition hc_create_space :: "py_exn + pyval \<Rightarrow> pyval chat_op" where
  "hc_create_space raw =
     sbind (slift (chat_json_body raw [''displayName'', ''spaceType''])) (\<lambda>body.
     sbind (chat_drive (create_space
              \<lparr>sc_display = dict_get_or body ''displayName'' (PStr []),
               sc_type = dict_get_or body ''spaceType'' (PStr ''SPACE'')\<rparr>)) (\<lambda>sp.
       sret (space_json sp)))"

definition hc_get_space :: "string \<Rightarrow> pyval chat_op" where
  "hc_get_space space_id = sbind (require_space space_id) (\<lambda>sp. sret (space_json sp))"

definition hc_list_members :: "string \<Rightarrow> int option \<Rightarrow> string option \<Rightarrow> pyval chat_op" where
  "hc_list_members space_id pageSize pageToken =
     sbind (require_space space_id) (\<lambda>sp.
     sbind (slift (chat_mk_page pageSize (opt_val pageToken))) (\<lambda>pg.
     sbind (chat_drive (list_members (spc_name sp) pg)) (\<lambda>(rows, token).
       sret (rows_json ''memberships'' (map member_json rows) token))))"

definition hc_list_messages ::
    "chat_env \<Rightarrow> string \<Rightarrow> int option \<Rightarrow> string option \<Rightarrow> string option \<Rightarrow> string option \<Rightarrow> pyval chat_op" where
  "hc_list_messages env space_id pageSize pageToken fltr orderBy =
     sbind (require_space space_id) (\<lambda>sp.
     sbind (slift (parse_list_filter env (case fltr of None \<Rightarrow> [] | Some f \<Rightarrow> f))) (\<lambda>(after, before, thread).
     sbind (slift (chat_mk_page pageSize (opt_val pageToken))) (\<lambda>pg.
     sbind (slift (chat_parse_order_by (opt_val orderBy))) (\<lambda>descending.
     sbind (chat_drive (list_messages (spc_name sp)
              \<lparr>mq_page = pg, mq_after = after, mq_before = before, mq_thread = thread, mq_descending = descending\<rparr>))
       (\<lambda>(rows, token).
     sbind (slift (rmap message_json rows)) (\<lambda>js.
       sret (rows_json ''messages'' js token)))))))"

definition hc_create_message :: "chat_env \<Rightarrow> string \<Rightarrow> py_exn + pyval \<Rightarrow> string option \<Rightarrow> pyval chat_op" where
  "hc_create_message env space_id raw messageReplyOption =
     sbind (require_space space_id) (\<lambda>sp.
     sbind (slift (chat_json_body raw [''text'', ''thread'', ''quotedMessageMetadata'', ''attachment''])) (\<lambda>body.
     sbind (slift (chat_parse_create env body messageReplyOption)) (\<lambda>req.
     sbind (chat_drive (create_message (spc_name sp) req)) (\<lambda>m.
       slift (message_json m)))))"

definition hc_get_message :: "string \<Rightarrow> string \<Rightarrow> pyval chat_op" where
  "hc_get_message space_id message_id =
     (let name = message_path space_id message_id
      in sbind (chat_drive (get_message name)) (\<lambda>r.
         sbind (not_found_unless r (''message not found: '' @ name)) (\<lambda>m. slift (message_json m))))"

definition patch_paths :: "string \<Rightarrow> chat_exn + unit" where
  "patch_paths updateMask =
     (case filter (\<lambda>p. p \<noteq> []) (map py_strip (split_ch (CHR '','') updateMask)) of
        [] \<Rightarrow> Inl (chat_invalid ''updateMask is required'')
      | paths \<Rightarrow>
          (case filter (\<lambda>p. p \<noteq> ''text'') paths of
             [] \<Rightarrow> Inr ()
           | p # _ \<Rightarrow> Inl (chat_invalid (''updateMask path '' @ py_repr p @ '' is not supported''))))"

definition hc_patch_message :: "string \<Rightarrow> string \<Rightarrow> py_exn + pyval \<Rightarrow> string \<Rightarrow> pyval chat_op" where
  "hc_patch_message space_id message_id raw updateMask =
     (let name = message_path space_id message_id
      in sbind (slift (patch_paths updateMask)) (\<lambda>_.
         sbind (slift (chat_json_body raw [''text''])) (\<lambda>body.
         sbind (slift (case dict_get_or body ''text'' (PStr []) of
                         PStr t \<Rightarrow> Inr t | _ \<Rightarrow> Inl (chat_invalid ''text must be a string''))) (\<lambda>txt.
         sbind (chat_drive (patch_message name (Some txt))) (\<lambda>r.
         sbind (not_found_unless r (''message not found: '' @ name)) (\<lambda>m. slift (message_json m)))))))"

definition hc_delete_message :: "string \<Rightarrow> string \<Rightarrow> pyval chat_op" where
  "hc_delete_message space_id message_id =
     (let name = message_path space_id message_id
      in sbind (chat_drive (delete_message name)) (\<lambda>deleted.
         if \<not> deleted then sraise (ChatApiError C_NOT_FOUND (''message not found: '' @ name)) else sret (PDict [])))"

text \<open>\<open>pageSize\<close> of a search: an integer, and Python's booleans are integers.\<close>

definition search_page_size :: "pyval \<Rightarrow> chat_exn + int option" where
  "search_page_size v =
     (case v of
        PNone \<Rightarrow> Inr None
      | PInt i \<Rightarrow> Inr (Some i)
      | PBool b \<Rightarrow> Inr (Some (if b then 1 else 0))
      | _ \<Rightarrow> Inl (chat_invalid ''pageSize must be an integer''))"

definition hc_search_messages :: "string \<Rightarrow> py_exn + pyval \<Rightarrow> pyval chat_op" where
  "hc_search_messages space_id raw =
     (if space_id \<noteq> ''-'' then sraise (chat_invalid ''search parent must be spaces/-'')
      else
        sbind (slift (chat_json_body raw [''filter'', ''pageSize'', ''pageToken'', ''orderBy''])) (\<lambda>body.
        sbind (slift (case dict_get_or body ''filter'' (PStr []) of
                        PStr (c # cs) \<Rightarrow> Inr (c # cs) | _ \<Rightarrow> Inl (chat_invalid ''filter is required''))) (\<lambda>filter_str.
        sbind (slift (search_page_size (pget body ''pageSize''))) (\<lambda>page_size.
        sbind (slift (chat_mk_page page_size (pget body ''pageToken''))) (\<lambda>pg.
        sbind (slift (chat_parse_order_by (pget body ''orderBy''))) (\<lambda>descending.
        sbind (chat_drive (search_messages \<lparr>se_filter = filter_str, se_page = pg, se_descending = descending\<rparr>))
          (\<lambda>(rows, token).
        sbind (slift (rmap message_json rows)) (\<lambda>js.
          sret (rows_json ''messages'' js token)))))))))"

text \<open>\<open>((body.get("emoji") or {}).get("unicode") or "").strip()\<close>.\<close>

definition parse_emoji :: "(string \<times> pyval) list \<Rightarrow> chat_exn + string" where
  "parse_emoji body =
     rbind (val_get (if truthy (pget body ''emoji'') then pget body ''emoji'' else PDict []) ''unicode'' PNone) (\<lambda>u.
     rbind (if \<not> truthy u then Inr []
            else case u of PStr s \<Rightarrow> Inr (py_strip s) | _ \<Rightarrow> Inl (ChatRaised AttributeError)) (\<lambda>emoji.
       if emoji = [] then Inl (chat_invalid ''emoji.unicode is required'') else Inr emoji))"

definition hc_create_reaction :: "string \<Rightarrow> string \<Rightarrow> py_exn + pyval \<Rightarrow> pyval chat_op" where
  "hc_create_reaction space_id message_id raw =
     (let name = message_path space_id message_id
      in sbind (slift (chat_json_body raw [''emoji''])) (\<lambda>body.
         sbind (slift (parse_emoji body)) (\<lambda>emoji.
         sbind (require_message name) (\<lambda>_.
         sbind (chat_drive (create_reaction name emoji)) (\<lambda>r. sret (reaction_json r))))))"

definition hc_list_reactions :: "string \<Rightarrow> string \<Rightarrow> int option \<Rightarrow> string option \<Rightarrow> pyval chat_op" where
  "hc_list_reactions space_id message_id pageSize pageToken =
     (let name = message_path space_id message_id
      in sbind (require_message name) (\<lambda>_.
         sbind (slift (chat_mk_page pageSize (opt_val pageToken))) (\<lambda>pg.
         sbind (chat_drive (list_reactions name pg)) (\<lambda>(rows, token).
           sret (rows_json ''reactions'' (map reaction_json rows) token)))))"

definition hc_delete_reaction :: "string \<Rightarrow> string \<Rightarrow> string \<Rightarrow> pyval chat_op" where
  "hc_delete_reaction space_id message_id reaction_id =
     (let name = message_path space_id message_id @ ''/reactions/'' @ reaction_id
      in sbind (chat_drive (delete_reaction name)) (\<lambda>deleted.
         if \<not> deleted then sraise (ChatApiError C_NOT_FOUND (''reaction not found: '' @ name)) else sret (PDict [])))"

text \<open>The body, the \<open>filename\<close> parameter and the two headers of an upload.\<close>

definition hc_upload_attachment ::
    "chat_env \<Rightarrow> string \<Rightarrow> string \<Rightarrow> string option \<Rightarrow> string option \<Rightarrow> string option \<Rightarrow> pyval chat_op" where
  "hc_upload_attachment env space_id content filename_param name_header type_header =
     sbind (require_space space_id) (\<lambda>sp.
     if int (length content) > ce_upload_max env
     then sraise (chat_invalid (''upload exceeds chat.upload_max_bytes ('' @ str_int (ce_upload_max env) @ '')''))
     else
       let param = (case filename_param of None \<Rightarrow> [] | Some f \<Rightarrow> f);
           filename = (if param \<noteq> [] then param else case name_header of None \<Rightarrow> [] | Some f \<Rightarrow> f);
           up = \<lparr>ul_filename = filename,
                 ul_type = (case type_header of None \<Rightarrow> ''application/octet-stream'' | Some t \<Rightarrow> t),
                 ul_size = int (length content), ul_content = content\<rparr>
       in sbind (chat_drive (upload_attachment (spc_name sp) up)) (\<lambda>ref.
            sret (PDict [(''attachmentDataRef'', PDict [(''resourceName'', PStr ref)])])))"

text \<open>\<open>(upload/)?v1/(spaces|users|media)(/|$|:)\<close>, matched at the start.\<close>

definition in_layout :: "string \<Rightarrow> bool" where
  "in_layout path =
     (let p = (if prefix ''upload/'' path then drop 7 path else path)
      in list_ex (\<lambda>w. prefix w p \<and>
           (case drop (length w) p of
              [] \<Rightarrow> True
            | c # rest \<Rightarrow> c = CHR ''/'' \<or> c = CHR '':'' \<or> (c = ch_newline \<and> rest = [])))
         [''v1/spaces'', ''v1/users'', ''v1/media''])"

definition hc_unmatched :: "string \<Rightarrow> pyval chat_op" where
  "hc_unmatched path =
     (if in_layout path then sraise (ChatApiError C_UNIMPLEMENTED (''not implemented by this subset: /'' @ path))
      else sraise (ChatApiError C_NOT_FOUND (''no such route: /'' @ path)))"

section \<open>Dispatch and construction\<close>

datatype chat_request =
  ListSpaces "int option" "string option"
| FindDirectMessage "string option"
| CreateSpace "py_exn + pyval"
| GetSpace string
| ListMembers string "int option" "string option"
| ListMessages string "int option" "string option" "string option" "string option"
| CreateMessage string "py_exn + pyval" "string option"
| GetMessage string string
| PatchMessage string string "py_exn + pyval" string
| DeleteMessage string string
| SearchMessages string "py_exn + pyval"
| CreateReaction string string "py_exn + pyval"
| ListReactions string string "int option" "string option"
| DeleteReaction string string string
| UploadAttachment string string "string option" "string option" "string option"
| ChatUnmatched string
| ChatMalformed string \<comment> \<open>a parameter FastAPI refuses, with its location\<close>

primrec chat_handle :: "chat_env \<Rightarrow> chat_request \<Rightarrow> pyval chat_op" where
  "chat_handle env (ListSpaces ps pt) = hc_list_spaces ps pt"
| "chat_handle env (FindDirectMessage n) = hc_find_direct_message n"
| "chat_handle env (CreateSpace raw) = hc_create_space raw"
| "chat_handle env (GetSpace sid) = hc_get_space sid"
| "chat_handle env (ListMembers sid ps pt) = hc_list_members sid ps pt"
| "chat_handle env (ListMessages sid ps pt fltr ob) = hc_list_messages env sid ps pt fltr ob"
| "chat_handle env (CreateMessage sid raw opt) = hc_create_message env sid raw opt"
| "chat_handle env (GetMessage sid mid) = hc_get_message sid mid"
| "chat_handle env (PatchMessage sid mid raw msk) = hc_patch_message sid mid raw msk"
| "chat_handle env (DeleteMessage sid mid) = hc_delete_message sid mid"
| "chat_handle env (SearchMessages sid raw) = hc_search_messages sid raw"
| "chat_handle env (CreateReaction sid mid raw) = hc_create_reaction sid mid raw"
| "chat_handle env (ListReactions sid mid ps pt) = hc_list_reactions sid mid ps pt"
| "chat_handle env (DeleteReaction sid mid rid) = hc_delete_reaction sid mid rid"
| "chat_handle env (UploadAttachment sid content fn nh th) = hc_upload_attachment env sid content fn nh th"
| "chat_handle env (ChatUnmatched path) = hc_unmatched path"
| "chat_handle env (ChatMalformed loc) = sraise (ChatValidation loc)"

definition chat_serve :: "chat_env \<Rightarrow> chat_request \<Rightarrow> chat \<Rightarrow> http_response \<times> chat" where
  "chat_serve env = serve_with (chat_handle env) chat_route"

definition chat_run :: "chat_env \<Rightarrow> chat_request list \<Rightarrow> chat \<Rightarrow> http_response list \<times> chat" where
  "chat_run env = run_with (chat_handle env) chat_route"

record chat_settings =
  cset_driver :: string
  cset_upload_max :: int
  cset_identity :: string
  cset_spaces :: "seed_space list"
  cset_messages :: "seed_message list"

definition ChatModule :: "chat_settings \<Rightarrow> (nat \<Rightarrow> int) \<Rightarrow> (pyfloat \<Rightarrow> string) \<Rightarrow> chat_exn + chat" where
  "ChatModule cfg clock fl =
     (if cset_driver cfg \<noteq> ''mock'' then Inl (ChatRaised ValueError)
      else MockChatDriver (cset_identity cfg) (cset_spaces cfg) (cset_messages cfg) clock fl)"

lemma filter_examples:
  "split_and ''a = b  and  c AND AND d'' = [''a = b'', ''c'', ''AND d'']"
  "filter_term '' createTime>  \"2024\" '' = Some (''createTime'', CHR ''>'', ''2024'')"
  "filter_term ''thread.name = spaces/A/threads/t1 '' = Some (''thread.name'', CHR ''='', ''spaces/A/threads/t1'')"
  "filter_term ''createTime > \"a\" b'' = None"
  by code_simp+

end
