(* ===== verification/Chat_Invariant.thy ===== *)
theory Chat_Invariant
  imports Chat_Surface
begin

text \<open>
  The invariant of the chat's state, that every driver operation keeps it, how a state may evolve,
  and which part of it a refused operation leaves alone.
\<close>

section \<open>Resource names\<close>

definition space_name :: "string \<Rightarrow> bool" where
  "space_name sp \<longleftrightarrow> prefix ''spaces/'' sp \<and> CHR ''/'' \<notin> set (drop 7 sp)"

definition message_name :: "string \<Rightarrow> nat \<Rightarrow> string" where
  "message_name sp n = sp @ ''/messages/m'' @ str_nat n"

lemma space_name_iff: "space_name sp \<longleftrightarrow> (\<exists>i. sp = ''spaces/'' @ i \<and> CHR ''/'' \<notin> set i)"
  by (auto simp: space_name_def prefix_def)

lemma space_of_message [simp]:
  assumes "space_name sp"
  shows "space_of (message_name sp n) = sp"
proof -
  obtain i where i: "sp = ''spaces/'' @ i" "CHR ''/'' \<notin> set i" using assms by (auto simp: space_name_iff)
  have "message_name sp n = ''spaces'' @ CHR ''/'' # i @ CHR ''/'' # ''messages/m'' @ str_nat n"
    by (simp add: message_name_def i)
  moreover have "split_ch (CHR ''/'') \<dots> = ''spaces'' # i # split_ch (CHR ''/'') (''messages/m'' @ str_nat n)"
    using i(2) by (subst split_ch_append; simp)+
  ultimately show ?thesis by (simp add: space_of_def i(1))
qed

lemma message_name_inject:
  assumes "space_name sp" "space_name sp'" "message_name sp n = message_name sp' n'"
  shows "sp = sp' \<and> n = n'"
proof -
  from assms have "sp = sp'" by (metis space_of_message)
  with assms(3) show ?thesis by (simp add: message_name_def)
qed

section \<open>The invariant\<close>

definition space_order :: "chat \<Rightarrow> string \<Rightarrow> string list" where
  "space_order s sp = dict_get_or (ch_order s) sp []"

definition message_ok :: "chat \<Rightarrow> string \<Rightarrow> message \<Rightarrow> bool" where
  "message_ok s k m \<longleftrightarrow>
     msg_name m = k \<and> msg_thread m \<in> set (ch_threads s) \<and>
     (\<exists>sp n. k = message_name sp n \<and> sp \<in> set (dict_keys (ch_spaces s)) \<and> n < ch_counter s)"

definition reactions_ok :: "chat \<Rightarrow> string \<Rightarrow> reaction list \<Rightarrow> bool" where
  "reactions_ok s k rows \<longleftrightarrow>
     dict_in k (ch_messages s) \<and> distinct (map rx_name rows) \<and>
     (\<forall>r \<in> set rows. \<exists>n < ch_counter s. rx_name r = k @ ''/reactions/r'' @ str_nat n)"

definition chat_inv :: "chat \<Rightarrow> bool" where
  "chat_inv s \<longleftrightarrow>
     (\<forall>k sp. dict_get (ch_spaces s) k = Some sp \<longrightarrow> spc_name sp = k \<and> space_name k) \<and>
     distinct (dict_keys (ch_messages s)) \<and>
     (\<forall>k m. dict_get (ch_messages s) k = Some m \<longrightarrow> message_ok s k m) \<and>
     (\<forall>sp. distinct (space_order s sp) \<and>
           set (space_order s sp) = {k. dict_in k (ch_messages s) \<and> space_of k = sp}) \<and>
     (\<forall>k rows. dict_get (ch_reactions s) k = Some rows \<longrightarrow> reactions_ok s k rows) \<and>
     (\<forall>k t. dict_get (ch_thread_keys s) k = Some t \<longrightarrow> t \<in> set (ch_threads s)) \<and>
     [] \<notin> set (ch_threads s)"

text \<open>Parts of a message that nothing changes.\<close>

definition fixed_parts :: "message \<Rightarrow> message \<Rightarrow> bool" where
  "fixed_parts m m' \<longleftrightarrow> m' = m\<lparr>msg_text := msg_text m', msg_updated := msg_updated m'\<rparr>"

definition fresh_since :: "nat \<Rightarrow> string \<Rightarrow> bool" where
  "fresh_since c k \<longleftrightarrow> (\<exists>sp n. k = message_name sp n \<and> c \<le> n)"

definition chat_later :: "chat \<Rightarrow> chat \<Rightarrow> bool" where
  "chat_later s s' \<longleftrightarrow>
     ch_identity s' = ch_identity s \<and> ch_counter s \<le> ch_counter s' \<and>
     set (dict_keys (ch_spaces s)) \<subseteq> set (dict_keys (ch_spaces s')) \<and>
     set (ch_threads s) \<subseteq> set (ch_threads s') \<and>
     (\<forall>k m'. dict_get (ch_messages s') k = Some m' \<longrightarrow>
        (\<exists>m. dict_get (ch_messages s) k = Some m \<and> fixed_parts m m') \<or> fresh_since (ch_counter s) k)"

text \<open>Everything a client can read.\<close>

definition chat_same :: "chat \<Rightarrow> chat \<Rightarrow> bool" where
  "chat_same s s' \<longleftrightarrow>
     ch_identity s' = ch_identity s \<and> ch_spaces s' = ch_spaces s \<and> ch_members s' = ch_members s \<and>
     ch_messages s' = ch_messages s \<and> ch_order s' = ch_order s \<and> ch_reactions s' = ch_reactions s \<and>
     ch_uploads s' = ch_uploads s"

lemma chat_same_refl [simp]: "chat_same s s"
  by (simp add: chat_same_def)

lemma fixed_parts_refl [simp]: "fixed_parts m m"
  by (simp add: fixed_parts_def)

lemma fixed_parts_trans: "fixed_parts a b \<Longrightarrow> fixed_parts b c \<Longrightarrow> fixed_parts a c"
  unfolding fixed_parts_def by (cases a; cases b; cases c) simp

lemma chat_later_refl [simp]: "chat_later s s"
  by (auto simp: chat_later_def)

lemma chat_later_trans:
  assumes "chat_later s1 s2" and "chat_later s2 s3"
  shows "chat_later s1 s3"
proof -
  have msgs: "(\<exists>m. dict_get (ch_messages s1) k = Some m \<and> fixed_parts m m3) \<or> fresh_since (ch_counter s1) k"
    if "dict_get (ch_messages s3) k = Some m3" for k m3
  proof -
    from assms(2) that consider m2 where "dict_get (ch_messages s2) k = Some m2" "fixed_parts m2 m3"
      | "fresh_since (ch_counter s2) k" unfolding chat_later_def by blast
    then show ?thesis
    proof cases
      case 1
      with assms(1) show ?thesis unfolding chat_later_def by (meson fixed_parts_trans)
    next
      case 2
      with assms(1) show ?thesis by (fastforce simp: chat_later_def fresh_since_def)
    qed
  qed
  from assms have "ch_identity s3 = ch_identity s1" "ch_counter s1 \<le> ch_counter s3"
    by (simp_all add: chat_later_def)
  moreover from assms have "set (dict_keys (ch_spaces s1)) \<subseteq> set (dict_keys (ch_spaces s3))"
    "set (ch_threads s1) \<subseteq> set (ch_threads s3)"
    unfolding chat_later_def by (meson order_trans)+
  ultimately show ?thesis unfolding chat_later_def using msgs by blast
qed

text \<open>What the proofs take from the invariant.\<close>

lemma chat_invD:
  assumes "chat_inv s"
  shows "\<And>k sp. dict_get (ch_spaces s) k = Some sp \<Longrightarrow> spc_name sp = k"
    and "\<And>k. k \<in> set (dict_keys (ch_spaces s)) \<Longrightarrow> space_name k"
    and "distinct (dict_keys (ch_messages s))"
    and "\<And>k m. dict_get (ch_messages s) k = Some m \<Longrightarrow> message_ok s k m"
    and "\<And>sp. distinct (space_order s sp)"
    and "\<And>sp. set (space_order s sp) = {k. dict_in k (ch_messages s) \<and> space_of k = sp}"
    and "\<And>k rows. dict_get (ch_reactions s) k = Some rows \<Longrightarrow> reactions_ok s k rows"
    and "\<And>k t. dict_get (ch_thread_keys s) k = Some t \<Longrightarrow> t \<in> set (ch_threads s)"
    and "[] \<notin> set (ch_threads s)"
proof -
  note inv = assms [unfolded chat_inv_def]
  show "space_name k" if "k \<in> set (dict_keys (ch_spaces s))" for k
  proof -
    from that obtain sp where "dict_get (ch_spaces s) k = Some sp"
      unfolding dict_in_iff [symmetric] dict_in_def by blast
    with inv show ?thesis by blast
  qed
qed (use assms [unfolded chat_inv_def] in blast)+

lemma chat_inv_numbered:
  assumes "chat_inv s" "dict_in (message_name sp n) (ch_messages s)" "space_name sp"
  shows "n < ch_counter s"
proof -
  obtain m where "dict_get (ch_messages s) (message_name sp n) = Some m" using assms(2) by (auto simp: dict_in_def)
  from chat_invD(4) [OF assms(1) this] obtain sp' n' where
    "message_name sp n = message_name sp' n'" "sp' \<in> set (dict_keys (ch_spaces s))" "n' < ch_counter s"
    by (auto simp: message_ok_def)
  with chat_invD(2) [OF assms(1)] assms(3) message_name_inject show ?thesis by blast
qed

lemma fresh_message_name:
  "chat_inv s \<Longrightarrow> space_name sp \<Longrightarrow> ch_counter s \<le> n \<Longrightarrow> \<not> dict_in (message_name sp n) (ch_messages s)"
  using chat_inv_numbered by fastforce

lemma message_ok_mono:
  assumes "message_ok s k m" "set (dict_keys (ch_spaces s)) \<subseteq> set (dict_keys (ch_spaces s'))"
    "ch_counter s \<le> ch_counter s'" "set (ch_threads s) \<subseteq> set (ch_threads s')"
  shows "message_ok s' k m"
proof -
  from assms(1) obtain sp n where "msg_name m = k" "msg_thread m \<in> set (ch_threads s)" "k = message_name sp n"
    "sp \<in> set (dict_keys (ch_spaces s))" "n < ch_counter s" by (auto simp: message_ok_def)
  moreover from this assms(2-4) have "sp \<in> set (dict_keys (ch_spaces s'))" "n < ch_counter s'"
    "msg_thread m \<in> set (ch_threads s')" by (blast, simp, blast)
  ultimately show ?thesis unfolding message_ok_def by blast
qed

text \<open>Growing the counter, the threads and the keys keeps the invariant.\<close>

lemma chat_inv_grow:
  assumes "chat_inv s" and "chat_same s s'" and "ch_counter s \<le> ch_counter s'"
    and "set (ch_threads s) \<subseteq> set (ch_threads s')" and "[] \<notin> set (ch_threads s')"
    and "\<And>k t. dict_get (ch_thread_keys s') k = Some t \<Longrightarrow> t \<in> set (ch_threads s')"
  shows "chat_inv s' \<and> chat_later s s'"
proof
  have "message_ok s' k m" if "message_ok s k m" for k m
    using that assms(2-4) by (force simp: message_ok_def chat_same_def)
  moreover have "reactions_ok s' k rows" if "reactions_ok s k rows" for k rows
    using that assms(2,3) by (force simp: reactions_ok_def chat_same_def)
  ultimately show "chat_inv s'"
    using assms(1,2,5,6) unfolding chat_inv_def chat_same_def space_order_def by auto
  show "chat_later s s'" using assms(2-4) by (auto simp: chat_later_def chat_same_def)
qed

section \<open>Operations\<close>

text \<open>
  An operation is good in a state if it keeps the invariant, moves the state forward, and leaves
  everything readable alone when it raises or returns a result that says it did nothing (\<open>quiet\<close>).
\<close>

definition ogood :: "('a \<Rightarrow> bool) \<Rightarrow> chat \<Rightarrow> 'a chat_op \<Rightarrow> bool" where
  "ogood quiet s m \<longleftrightarrow> (chat_inv s \<longrightarrow>
     (case m s of (r, s') \<Rightarrow> chat_inv s' \<and> chat_later s s' \<and>
        (case r of Inl _ \<Rightarrow> chat_same s s' | Inr x \<Rightarrow> quiet x \<longrightarrow> chat_same s s')))"

lemma new_thread_eq:
  "new_thread sp s =
     (Inr (sp @ ''/threads/t'' @ str_nat (ch_counter s)),
      s\<lparr>ch_counter := Suc (ch_counter s),
        ch_threads := List.insert (sp @ ''/threads/t'' @ str_nat (ch_counter s)) (ch_threads s)\<rparr>)"
  by (simp add: new_thread_def next_count_def sbind_def Let_def)

lemma new_thread_good:
  assumes "chat_inv s" "new_thread sp s = (r, s')"
  shows "chat_inv s' \<and> chat_later s s' \<and> chat_same s s' \<and> (\<exists>t. r = Inr t \<and> t \<in> set (ch_threads s') \<and> t \<noteq> [])"
proof -
  from assms(2) have s': "s' = s\<lparr>ch_counter := Suc (ch_counter s),
        ch_threads := List.insert (sp @ ''/threads/t'' @ str_nat (ch_counter s)) (ch_threads s)\<rparr>"
    and r: "r = Inr (sp @ ''/threads/t'' @ str_nat (ch_counter s))"
    by (simp_all add: new_thread_eq)
  have "chat_inv s' \<and> chat_later s s'"
    by (rule chat_inv_grow [OF assms(1)])
      (use chat_invD(8,9) [OF assms(1)] in \<open>auto simp: s' chat_same_def\<close>)
  then show ?thesis by (auto simp: s' r chat_same_def)
qed

lemma key_thread_good:
  assumes "chat_inv s" "key_thread sp req k s = (r, s')"
  shows "chat_inv s' \<and> chat_later s s' \<and> chat_same s s' \<and> (\<forall>t. r = Inr t \<longrightarrow> t \<in> set (ch_threads s'))"
proof (cases "if k = HFloat NaN then None else dict_get (ch_thread_keys s) (sp, k)")
  case (Some t)
  with assms have "r = Inr t" "s' = s" by (simp_all add: key_thread_def sbind_def)
  moreover from Some have "dict_get (ch_thread_keys s) (sp, k) = Some t" by (simp split: if_splits)
  ultimately show ?thesis using assms(1) chat_invD(8) [OF assms(1)] by auto
next
  case None
  show ?thesis
  proof (cases "mc_reply req = REPLY_OR_FAIL")
    case True
    with None assms show ?thesis by (auto simp: key_thread_def sbind_def)
  next
    case False
    obtain t s1 where t: "new_thread sp s = (Inr t, s1)" by (simp add: new_thread_eq)
    from new_thread_good [OF assms(1) t] have
      1: "chat_inv s1" "chat_later s s1" "chat_same s s1" "t \<in> set (ch_threads s1)" by auto
    from None False assms(2) t have
      s': "s' = s1\<lparr>ch_thread_keys := dict_set (sp, k) t (ch_thread_keys s1)\<rparr>" and r: "r = Inr t"
      by (simp_all add: key_thread_def sbind_def)
    have "chat_inv s' \<and> chat_later s1 s'"
      by (rule chat_inv_grow [OF 1(1)])
        (use chat_invD(8,9) [OF 1(1)] 1(4) in \<open>auto simp: s' chat_same_def split: if_splits\<close>)
    with 1 show ?thesis by (auto simp: s' r chat_same_def intro: chat_later_trans)
  qed
qed

lemma resolve_thread_good:
  assumes "chat_inv s" "resolve_thread sp req s = (r, s')"
  shows "chat_inv s' \<and> chat_later s s' \<and> chat_same s s' \<and>
    (\<forall>t. r = Inr t \<longrightarrow> t = [] \<or> t \<in> set (ch_threads s'))"
proof (cases "s' = s")
  case True
  have "hash_key v = Inr (HStr t) \<Longrightarrow> str_of v = t" for v t
    by (auto simp: hash_key_def str_of_def split: pyval.splits pyfloat.splits if_splits)
  with True assms show ?thesis
    by (auto simp: resolve_thread_def split: if_splits sum.splits dest: key_thread_good)
next
  case False
  then obtain k where "key_thread sp req k s = (r, s')"
    using assms(2) by (auto simp: resolve_thread_def split: if_splits sum.splits)
  from key_thread_good [OF assms(1) this] show ?thesis by auto
qed

section \<open>New messages\<close>

text \<open>The message \<open>insert_message\<close> builds and the state it leaves, for a given thread.\<close>

definition built_message :: "chat \<Rightarrow> string \<Rightarrow> string \<Rightarrow> string \<Rightarrow> string \<Rightarrow> string \<Rightarrow> cattachment list \<Rightarrow> quote option \<Rightarrow> message" where
  "built_message s sp sender txt thread sender_type attachments quoted =
     \<lparr>msg_name = message_name sp (ch_counter s), msg_sender = sender, msg_sender_type = sender_type,
      msg_thread = thread, msg_text = txt, msg_created = ticks_of_us (ch_clock s (ch_reads s)), msg_updated = 0,
      msg_attachments = attachments, msg_quoted = quoted\<rparr>"

definition with_message :: "string \<Rightarrow> message \<Rightarrow> chat \<Rightarrow> chat" where
  "with_message sp m s =
     s\<lparr>ch_counter := Suc (ch_counter s), ch_reads := Suc (ch_reads s),
       ch_messages := dict_set (msg_name m) m (ch_messages s),
       ch_order := dict_set sp (space_order s sp @ [msg_name m]) (ch_order s),
       ch_thread_roots := dict_set (msg_thread m) (dict_get_or (ch_thread_roots s) (msg_thread m) (msg_name m)) (ch_thread_roots s)\<rparr>"

lemma insert_message_eq:
  "thread \<noteq> [] \<Longrightarrow> insert_message sp sender txt thread st atts q s =
     (Inr (built_message s sp sender txt thread st atts q),
      with_message sp (built_message s sp sender txt thread st atts q) s)"
  by (simp add: insert_message_def sbind_def next_count_def chat_now_def built_message_def with_message_def
      message_name_def space_order_def Let_def)

lemma insert_message_new:
  "insert_message sp sender txt [] st atts q s =
     insert_message sp sender txt (sp @ ''/threads/t'' @ str_nat (ch_counter s)) st atts q (snd (new_thread sp s))"
  by (simp add: insert_message_def sbind_def new_thread_eq)

lemma with_message_good:
  assumes inv: "chat_inv s" and sp: "sp \<in> set (dict_keys (ch_spaces s))"
    and m: "msg_name m = message_name sp (ch_counter s)" "msg_thread m \<in> set (ch_threads s)"
  shows "chat_inv (with_message sp m s) \<and> chat_later s (with_message sp m s)"
proof
  let ?s = "with_message sp m s" and ?k = "message_name sp (ch_counter s)"
  note d = chat_invD [OF inv]
  have name: "space_name sp" using d(2) sp .
  have fresh: "\<not> dict_in ?k (ch_messages s)" using fresh_message_name [OF inv name] by simp
  have in': "dict_in k (ch_messages ?s) \<longleftrightarrow> k = ?k \<or> dict_in k (ch_messages s)" for k
    by (simp add: with_message_def m(1) dict_in_def)
  have msgs: "message_ok ?s k m'" if "dict_get (ch_messages ?s) k = Some m'" for k m'
  proof (cases "k = ?k")
    case True
    with that have "m' = m" by (simp add: with_message_def m(1))
    with True m sp show ?thesis by (auto simp: message_ok_def with_message_def)
  next
    case False
    with that have "dict_get (ch_messages s) k = Some m'" by (simp add: with_message_def m(1))
    from d(4) [OF this] show ?thesis by (force simp: message_ok_def with_message_def)
  qed
  have ord: "space_order ?s sp' = (if sp' = sp then space_order s sp @ [?k] else space_order s sp')" for sp'
    by (simp add: space_order_def with_message_def m(1))
  have order: "distinct (space_order ?s sp') \<and> set (space_order ?s sp') = {k. dict_in k (ch_messages ?s) \<and> space_of k = sp'}" for sp'
  proof -
    have mem: "k \<in> set (space_order s sp') \<longleftrightarrow> dict_in k (ch_messages s) \<and> space_of k = sp'" for k sp'
      by (simp add: d(6))
    have k: "space_of ?k = sp" using name by simp
    have "distinct (space_order ?s sp')" using d(5) by (simp add: ord mem fresh)
    moreover have "k \<in> set (space_order ?s sp') \<longleftrightarrow> dict_in k (ch_messages ?s) \<and> space_of k = sp'" for k
      unfolding ord in' using k by (cases "sp' = sp"; cases "k = ?k") (simp_all add: mem fresh)
    ultimately show ?thesis by blast
  qed
  have reacts: "reactions_ok ?s k rows" if "dict_get (ch_reactions ?s) k = Some rows" for k rows
  proof -
    have "reactions_ok s k rows" using d(7) that by (simp add: with_message_def)
    then show ?thesis using in' [of k] by (force simp: reactions_ok_def with_message_def)
  qed
  have "distinct (dict_keys (ch_messages ?s))"
    unfolding with_message_def using distinct_dict_set [OF d(3)] by simp
  moreover have "spc_name sp' = k \<and> space_name k" if "dict_get (ch_spaces ?s) k = Some sp'" for k sp'
    using inv that unfolding chat_inv_def with_message_def by simp
  moreover have "ch_thread_keys ?s = ch_thread_keys s" "ch_threads ?s = ch_threads s"
    by (simp_all add: with_message_def)
  ultimately show "chat_inv ?s"
    unfolding chat_inv_def using msgs order reacts d(8,9) by simp
  show "chat_later s ?s"
    by (auto simp: chat_later_def with_message_def m(1) fresh_since_def)
qed

lemma insert_message_good:
  assumes "chat_inv s" "sp \<in> set (dict_keys (ch_spaces s))" "thread = [] \<or> thread \<in> set (ch_threads s)"
    and "insert_message sp sender txt thread st atts q s = (r, s')"
  obtains m th s1 where "r = Inr m" "s' = with_message sp m s1" "m = built_message s1 sp sender txt th st atts q"
    "chat_inv s1" "chat_same s s1" "chat_later s s1" "th \<in> set (ch_threads s1)" "thread \<noteq> [] \<longrightarrow> th = thread \<and> s1 = s"
    "chat_inv s'" "chat_later s s'"
proof -
  obtain th s1 where 1: "insert_message sp sender txt th st atts q s1 = (r, s')" "chat_inv s1" "chat_same s s1"
    "chat_later s s1" "th \<in> set (ch_threads s1)" "th \<noteq> []" "thread \<noteq> [] \<longrightarrow> th = thread \<and> s1 = s"
  proof (cases "thread = []")
    case True
    obtain t s1 where t: "new_thread sp s = (Inr t, s1)" by (simp add: new_thread_eq)
    from new_thread_good [OF assms(1) t] have
      g: "chat_inv s1" "chat_same s s1" "chat_later s s1" "t \<in> set (ch_threads s1)" "t \<noteq> []" by auto
    have "snd (new_thread sp s) = s1" by (simp add: t)
    moreover have "t = sp @ ''/threads/t'' @ str_nat (ch_counter s)" using t by (simp add: new_thread_eq)
    ultimately have "insert_message sp sender txt t st atts q s1 = (r, s')" using assms(4) True
      by (simp only: insert_message_new)
    with g True show ?thesis by (intro that [of t s1]) simp_all
  next
    case False
    with assms(1,3,4) show ?thesis by (intro that [of thread s]) simp_all
  qed
  let ?m = "built_message s1 sp sender txt th st atts q"
  have eq: "r = Inr ?m" "s' = with_message sp ?m s1" using 1(1) by (simp_all add: insert_message_eq 1(6))
  have "chat_inv (with_message sp ?m s1) \<and> chat_later s1 (with_message sp ?m s1)"
    by (rule with_message_good) (use 1 assms(2) in \<open>auto simp: built_message_def chat_same_def\<close>)
  with eq 1(4) have "chat_inv s'" "chat_later s s'" by (auto intro: chat_later_trans)
  with eq 1 show thesis by (intro that [of ?m s1 th]) simp_all
qed

section \<open>The driver's writes\<close>

text \<open>
  What an accepted message is: it went to the resolved thread or a new one, its quote and attachments
  were resolved in the state before, and it was appended under a fresh name.
\<close>

lemma create_message_cases:
  assumes "chat_inv s" "sp \<in> set (dict_keys (ch_spaces s))" "create_message sp req s = (r, s')"
  obtains (refused) e where "r = Inl e" "chat_inv s'" "chat_later s s'" "chat_same s s'"
  | (made) thread s1 quoted atts m th s2 where "resolve_thread sp req s = (Inr thread, s1)" "chat_same s s1"
    "mc_quote req = None \<and> quoted = None \<or>
      (\<exists>qr q. mc_quote req = Some qr \<and> quoted = Some q \<and> fst (resolve_quote qr thread s1) = Inr q)"
    "rmap (resolve_attachment s1) (mc_attachments req) = Inr atts"
    "r = Inr m" "m = built_message s2 sp (ch_identity s) (mc_text req) th ''HUMAN'' atts quoted"
    "s' = with_message sp m s2" "chat_inv s2" "chat_same s s2" "chat_later s s2" "chat_later s1 s2" "thread \<noteq> [] \<longrightarrow> th = thread"
    "chat_inv s'" "chat_later s s'"
proof -
  obtain r1 s1 where t: "resolve_thread sp req s = (r1, s1)" by (cases "resolve_thread sp req s")
  from resolve_thread_good [OF assms(1) t] have g: "chat_inv s1" "chat_later s s1" "chat_same s s1"
    "\<And>th. r1 = Inr th \<Longrightarrow> th = [] \<or> th \<in> set (ch_threads s1)" by auto
  let ?quote = "\<lambda>thread. case mc_quote req of None \<Rightarrow> sret None
      | Some qr \<Rightarrow> sbind (resolve_quote qr thread) (\<lambda>q. sret (Some q))"
  have quote: "\<exists>rq. ?quote thread s1 = (rq, s1)" for thread
    by (simp add: resolve_quote_def sbind_def split: option.splits sum.splits)
  show thesis
  proof (cases "\<exists>e. r = Inl e \<and> s' = s1")
    case True
    then show ?thesis using refused g by blast
  next
    case False
    have r1: "\<And>e. r1 \<noteq> Inl e" using False assms(3) t by (auto simp: create_message_def)
    then obtain thread where th: "r1 = Inr thread" by (cases r1) auto
    obtain rq where rq: "?quote thread s1 = (rq, s1)" using quote by blast
    have eq: "create_message sp req s = (case rq of Inl e \<Rightarrow> (Inl e, s1) | Inr quoted \<Rightarrow>
        (case rmap (resolve_attachment s1) (mc_attachments req) of Inl e \<Rightarrow> (Inl e, s1)
         | Inr atts \<Rightarrow> insert_message sp (ch_identity s1) (mc_text req) thread ''HUMAN'' atts quoted s1))"
      unfolding create_message_def sbind_def [of "resolve_thread sp req"] t th
      unfolding prod.case sum.case sbind_def [of "?quote thread"] rq
      by (simp add: sbind_def split: sum.splits)
    obtain quoted atts where ok: "r1 = Inr thread" "rq = Inr quoted"
      "rmap (resolve_attachment s1) (mc_attachments req) = Inr atts"
      and ins: "insert_message sp (ch_identity s1) (mc_text req) thread ''HUMAN'' atts quoted s1 = (r, s')"
      using False assms(3) eq th by (auto split: sum.splits)
    have sp1: "sp \<in> set (dict_keys (ch_spaces s1))" using assms(2) g(3) by (simp add: chat_same_def)
    have id: "ch_identity s1 = ch_identity s" using g(3) by (simp add: chat_same_def)
    from insert_message_good [OF g(1) sp1 g(4) [OF ok(1)] ins] obtain m th s2 where
      i: "r = Inr m" "s' = with_message sp m s2" "m = built_message s2 sp (ch_identity s1) (mc_text req) th ''HUMAN'' atts quoted"
      "chat_inv s2" "chat_same s1 s2" "chat_later s1 s2" "thread \<noteq> [] \<longrightarrow> th = thread" "chat_inv s'" "chat_later s1 s'"
      by metis
    have "chat_same s s2" using g(3) i(5) by (simp add: chat_same_def)
    moreover have "mc_quote req = None \<and> quoted = None \<or>
        (\<exists>qr q. mc_quote req = Some qr \<and> quoted = Some q \<and> fst (resolve_quote qr thread s1) = Inr q)"
      using ok(2) rq by (auto simp: sbind_def split: option.splits sum.splits prod.splits)
    ultimately show ?thesis
      using i ok t g(2,3) id by (intro made [of thread s1 quoted atts m s2 th]) (auto intro: chat_later_trans)
  qed
qed

lemma create_message_good: "sp \<in> set (dict_keys (ch_spaces s)) \<Longrightarrow> ogood (\<lambda>_. False) s (create_message sp req)"
  unfolding ogood_def
proof
  assume sp: "sp \<in> set (dict_keys (ch_spaces s))" and inv: "chat_inv s"
  obtain r s' where c: "create_message sp req s = (r, s')" by (cases "create_message sp req s")
  show "case create_message sp req s of (r, s') \<Rightarrow> chat_inv s' \<and> chat_later s s' \<and>
      (case r of Inl _ \<Rightarrow> chat_same s s' | Inr x \<Rightarrow> False \<longrightarrow> chat_same s s')"
    unfolding c by (rule create_message_cases [OF inv sp c]) simp_all
qed

lemma patch_message_good: "ogood (\<lambda>r. r = None) s (patch_message name (Some txt))"
  unfolding ogood_def
proof
  assume inv: "chat_inv s"
  note d = chat_invD [OF inv]
  show "case patch_message name (Some txt) s of (r, s') \<Rightarrow> chat_inv s' \<and> chat_later s s' \<and>
      (case r of Inl _ \<Rightarrow> chat_same s s' | Inr x \<Rightarrow> x = None \<longrightarrow> chat_same s s')"
  proof (cases "dict_get (ch_messages s) name")
    case None
    with inv show ?thesis by (simp add: patch_message_def sbind_def)
  next
    case (Some m)
    let ?m = "m\<lparr>msg_text := txt, msg_updated := ticks_of_us (ch_clock s (ch_reads s))\<rparr>"
    let ?s = "s\<lparr>ch_reads := Suc (ch_reads s), ch_messages := dict_set name ?m (ch_messages s)\<rparr>"
    have "patch_message name (Some txt) s = (Inr (Some ?m), ?s)"
      using Some by (simp add: patch_message_def sbind_def chat_now_def Let_def)
    moreover have in': "dict_in k (ch_messages ?s) \<longleftrightarrow> dict_in k (ch_messages s)" for k
      using Some by (simp add: dict_in_def)
    have "message_ok ?s k m'" if "dict_get (ch_messages ?s) k = Some m'" for k m'
      using that d(4) [OF Some] d(4) [of k m'] by (auto simp: message_ok_def split: if_splits)
    moreover have "reactions_ok ?s k rows" if "reactions_ok s k rows" for k rows
      using that in' by (simp add: reactions_ok_def)
    ultimately have "chat_inv ?s"
      using inv in' distinct_dict_set [OF d(3)] unfolding chat_inv_def space_order_def by simp
    moreover have "fixed_parts m ?m" by (simp add: fixed_parts_def)
    then have "chat_later s ?s" using Some by (auto simp: chat_later_def)
    ultimately show ?thesis using \<open>patch_message name (Some txt) s = _\<close> by simp
  qed
qed

lemma delete_message_eq:
  assumes inv: "chat_inv s" and m: "dict_get (ch_messages s) name = Some m"
  shows "delete_message name s =
    (Inr True, s\<lparr>ch_messages := dict_del name (ch_messages s),
       ch_order := dict_set (space_of name) (remove1 name (space_order s (space_of name))) (ch_order s),
       ch_reactions := dict_del name (ch_reactions s)\<rparr>)"
proof -
  have "name \<in> set (space_order s (space_of name))"
    using m by (simp add: chat_invD(6) [OF inv] dict_in_def)
  then have "dict_get (ch_order s) (space_of name) = Some (space_order s (space_of name))"
    by (cases "dict_get (ch_order s) (space_of name)") (simp_all add: space_order_def dict_get_or_def)
  with m \<open>name \<in> _\<close> show ?thesis by (simp add: delete_message_def Let_def)
qed

lemma delete_message_good: "ogood (\<lambda>b. \<not> b) s (delete_message name)"
  unfolding ogood_def
proof
  assume inv: "chat_inv s"
  note d = chat_invD [OF inv]
  show "case delete_message name s of (r, s') \<Rightarrow> chat_inv s' \<and> chat_later s s' \<and>
      (case r of Inl _ \<Rightarrow> chat_same s s' | Inr x \<Rightarrow> \<not> x \<longrightarrow> chat_same s s')"
  proof (cases "dict_get (ch_messages s) name")
    case None
    with inv show ?thesis by (simp add: delete_message_def)
  next
    case (Some m)
    let ?s = "s\<lparr>ch_messages := dict_del name (ch_messages s),
       ch_order := dict_set (space_of name) (remove1 name (space_order s (space_of name))) (ch_order s),
       ch_reactions := dict_del name (ch_reactions s)\<rparr>"
    have ord: "space_order ?s sp = (if sp = space_of name then remove1 name (space_order s sp) else space_order s sp)" for sp
      by (simp add: space_order_def)
    have in': "dict_in k (ch_messages ?s) \<longleftrightarrow> k \<noteq> name \<and> dict_in k (ch_messages s)" for k
      by (simp add: dict_in_def)
    have "message_ok ?s k m'" if "dict_get (ch_messages ?s) k = Some m'" for k m'
      using that d(4) [of k m'] by (auto simp: message_ok_def split: if_splits)
    moreover have "reactions_ok ?s k rows" if "dict_get (ch_reactions ?s) k = Some rows" for k rows
      using that d(7) [of k rows] in' [of k] by (auto simp: reactions_ok_def split: if_splits)
    moreover have "distinct (space_order ?s sp) \<and> set (space_order ?s sp) = {k. dict_in k (ch_messages ?s) \<and> space_of k = sp}" for sp
      unfolding ord in' using d(5) [of sp] by (auto simp: d(6) set_remove1_eq)
    moreover have "distinct (dict_keys (ch_messages ?s))" using distinct_dict_del [OF d(3)] by simp
    moreover have "spc_name sp = k \<and> space_name k" if "dict_get (ch_spaces s) k = Some sp" for k sp
      using inv that unfolding chat_inv_def by blast
    ultimately have "chat_inv ?s" using d(8,9) unfolding chat_inv_def by simp
    moreover have "chat_later s ?s" by (auto simp: chat_later_def split: if_splits)
    ultimately show ?thesis by (simp add: delete_message_eq [OF inv Some])
  qed
qed

text \<open>Replacing one message's reactions.\<close>

lemma set_reactions_good:
  assumes inv: "chat_inv s" and c: "ch_counter s \<le> c" and k: "dict_in k (ch_messages s)"
    and "distinct (map rx_name rows)"
    and "\<And>r. r \<in> set rows \<Longrightarrow> \<exists>n < c. rx_name r = k @ ''/reactions/r'' @ str_nat n"
  shows "chat_inv (s\<lparr>ch_counter := c, ch_reactions := dict_set k rows (ch_reactions s)\<rparr>) \<and>
    chat_later s (s\<lparr>ch_counter := c, ch_reactions := dict_set k rows (ch_reactions s)\<rparr>)"
proof
  let ?s = "s\<lparr>ch_counter := c, ch_reactions := dict_set k rows (ch_reactions s)\<rparr>"
  note d = chat_invD [OF inv]
  have "message_ok ?s k' m" if "message_ok s k' m" for k' m
    using that c by (force simp: message_ok_def)
  moreover have "reactions_ok ?s k' rows'" if "dict_get (ch_reactions ?s) k' = Some rows'" for k' rows'
  proof (cases "k' = k")
    case True
    with that have "rows' = rows" by simp
    with True assms show ?thesis by (auto simp: reactions_ok_def)
  next
    case False
    with that have "reactions_ok s k' rows'" using d(7) by simp
    with c show ?thesis by (force simp: reactions_ok_def)
  qed
  ultimately show "chat_inv ?s" using inv unfolding chat_inv_def space_order_def by simp
  show "chat_later s ?s" using c by (auto simp: chat_later_def)
qed

lemma create_reaction_eq:
  "create_reaction k emoji s =
     (let r = \<lparr>rx_name = k @ ''/reactions/r'' @ str_nat (ch_counter s), rx_user = ch_identity s, rx_emoji = emoji\<rparr>
      in (Inr r, s\<lparr>ch_counter := Suc (ch_counter s),
                   ch_reactions := dict_set k (dict_get_or (ch_reactions s) k [] @ [r]) (ch_reactions s)\<rparr>))"
  by (simp add: create_reaction_def sbind_def next_count_def Let_def)

text \<open>The reactions of a message, also when it has no entry.\<close>

lemma reactions_rows:
  assumes "chat_inv s"
  shows "distinct (map rx_name (dict_get_or (ch_reactions s) k []))"
    and "r \<in> set (dict_get_or (ch_reactions s) k []) \<Longrightarrow> \<exists>n < ch_counter s. rx_name r = k @ ''/reactions/r'' @ str_nat n"
  using chat_invD(7) [OF assms, of k]
  by (cases "dict_get (ch_reactions s) k"; simp add: dict_get_or_def reactions_ok_def)+

lemma create_reaction_good: "dict_in k (ch_messages s) \<Longrightarrow> ogood (\<lambda>_. False) s (create_reaction k emoji)"
  unfolding ogood_def
proof
  assume k: "dict_in k (ch_messages s)" and inv: "chat_inv s"
  let ?r = "\<lparr>rx_name = k @ ''/reactions/r'' @ str_nat (ch_counter s), rx_user = ch_identity s, rx_emoji = emoji\<rparr>"
  let ?rows = "dict_get_or (ch_reactions s) k [] @ [?r]"
  note rows = reactions_rows(1) [OF inv, of k] reactions_rows(2) [OF inv, of _ k]
  have "distinct (map rx_name ?rows)" using rows(1) rows(2) by force
  moreover have "\<exists>n < Suc (ch_counter s). rx_name r = k @ ''/reactions/r'' @ str_nat n" if "r \<in> set ?rows" for r
    using that rows(2) [of r] less_SucI by fastforce
  ultimately have "chat_inv (s\<lparr>ch_counter := Suc (ch_counter s), ch_reactions := dict_set k ?rows (ch_reactions s)\<rparr>) \<and>
    chat_later s (s\<lparr>ch_counter := Suc (ch_counter s), ch_reactions := dict_set k ?rows (ch_reactions s)\<rparr>)"
    using set_reactions_good [OF inv _ k, of "Suc (ch_counter s)" ?rows] by simp
  then show "case create_reaction k emoji s of (r, s') \<Rightarrow> chat_inv s' \<and> chat_later s s' \<and>
      (case r of Inl _ \<Rightarrow> chat_same s s' | Inr x \<Rightarrow> False \<longrightarrow> chat_same s s')"
    by (simp add: create_reaction_eq Let_def)
qed

lemma drop_reaction_Some:
  "drop_reaction name rows = Some rows' \<Longrightarrow> set rows' \<subseteq> set rows \<and> (distinct (map rx_name rows) \<longrightarrow> distinct (map rx_name rows'))"
proof (induction rows arbitrary: rows')
  case (Cons r rows)
  then show ?case
  proof (cases "rx_name r = name")
    case False
    with Cons.prems obtain z where "drop_reaction name rows = Some z" "rows' = r # z" by auto
    with Cons.IH [of z] show ?thesis by fastforce
  qed auto
qed simp

lemma delete_reaction_good: "ogood (\<lambda>b. \<not> b) s (delete_reaction name)"
  unfolding ogood_def
proof
  assume inv: "chat_inv s"
  let ?k = "rsplit1_head ''/reactions/'' name"
  show "case delete_reaction name s of (r, s') \<Rightarrow> chat_inv s' \<and> chat_later s s' \<and>
      (case r of Inl _ \<Rightarrow> chat_same s s' | Inr x \<Rightarrow> \<not> x \<longrightarrow> chat_same s s')"
  proof (cases "drop_reaction name (dict_get_or (ch_reactions s) ?k [])")
    case None
    with inv show ?thesis by (simp add: delete_reaction_def Let_def)
  next
    case (Some rows)
    then obtain old where old: "dict_get (ch_reactions s) ?k = Some old" "dict_get_or (ch_reactions s) ?k [] = old"
      by (cases "dict_get (ch_reactions s) ?k") (auto simp: dict_get_or_def)
    have ok: "reactions_ok s ?k old" using chat_invD(7) [OF inv old(1)] .
    have "chat_inv (s\<lparr>ch_counter := ch_counter s, ch_reactions := dict_set ?k rows (ch_reactions s)\<rparr>) \<and>
      chat_later s (s\<lparr>ch_counter := ch_counter s, ch_reactions := dict_set ?k rows (ch_reactions s)\<rparr>)"
      by (rule set_reactions_good [OF inv])
        (use ok drop_reaction_Some [OF Some] in \<open>auto simp: reactions_ok_def old(2)\<close>)
    with Some show ?thesis by (simp add: delete_reaction_def Let_def)
  qed
qed

lemma upload_attachment_good: "ogood (\<lambda>_. False) s (upload_attachment sp up)"
  unfolding ogood_def
proof
  assume inv: "chat_inv s"
  have "chat_inv s' \<and> chat_later s s'" if "s' = s\<lparr>ch_counter := Suc (ch_counter s), ch_uploads := u\<rparr>" for s' u
  proof -
    have "chat_inv (s\<lparr>ch_counter := Suc (ch_counter s)\<rparr>) \<and> chat_later s (s\<lparr>ch_counter := Suc (ch_counter s)\<rparr>)"
      by (rule chat_inv_grow [OF inv]) (use chat_invD(8,9) [OF inv] in \<open>auto simp: chat_same_def\<close>)
    then show ?thesis
      unfolding that chat_inv_def chat_later_def space_order_def message_ok_def reactions_ok_def by simp
  qed
  with inv show "case upload_attachment sp up s of (r, s') \<Rightarrow> chat_inv s' \<and> chat_later s s' \<and>
      (case r of Inl _ \<Rightarrow> chat_same s s' | Inr x \<Rightarrow> False \<longrightarrow> chat_same s s')"
    by (simp add: upload_attachment_def sbind_def next_count_def Let_def)
qed

lemma create_space_good: "ogood (\<lambda>_. False) s (create_space req)"
  unfolding ogood_def
proof
  assume inv: "chat_inv s"
  note d = chat_invD [OF inv]
  let ?k = "''spaces/mock'' @ str_nat (ch_counter s)"
  let ?sp = "\<lparr>spc_name = ?k, spc_display = sc_display req, spc_type = sc_type req\<rparr>"
  let ?s = "s\<lparr>ch_counter := Suc (ch_counter s), ch_spaces := dict_set ?k ?sp (ch_spaces s),
    ch_members := dict_set ?k [\<lparr>mb_name = ?k @ ''/members/1'', mb_user = ch_identity s, mb_type = ''HUMAN''\<rparr>] (ch_members s)\<rparr>"
  have eq: "create_space req s = (Inr ?sp, ?s)"
    by (simp add: create_space_def sbind_def next_count_def Let_def)
  have "CHR ''/'' \<notin> set (''mock'' @ str_nat (ch_counter s))"
    using str_nat_digits [of "ch_counter s"] by (auto simp: list_all_iff is_ascii_digit_def)
  then have "space_name ?k" unfolding space_name_iff by (intro exI [of _ "''mock'' @ str_nat (ch_counter s)"]) simp
  then have sp: "spc_name sp = k \<and> space_name k" if "dict_get (ch_spaces ?s) k = Some sp" for k sp
    using inv that unfolding chat_inv_def by (auto split: if_splits)
  have keys: "set (dict_keys (ch_spaces s)) \<subseteq> set (dict_keys (ch_spaces ?s))"
    by (simp add: dict_keys_set del: set_map) blast
  have "message_ok ?s k m" if "message_ok s k m" for k m
    using that keys by (rule message_ok_mono) simp_all
  moreover have "reactions_ok ?s k rows" if "reactions_ok s k rows" for k rows
    using that unfolding reactions_ok_def by (simp add: less_Suc_eq) blast
  ultimately have "chat_inv ?s" using inv sp unfolding chat_inv_def space_order_def by simp
  moreover have "chat_later s ?s" unfolding chat_later_def using keys by (simp del: set_map)
  ultimately show "case create_space req s of (r, s') \<Rightarrow> chat_inv s' \<and> chat_later s s' \<and>
      (case r of Inl _ \<Rightarrow> chat_same s s' | Inr x \<Rightarrow> False \<longrightarrow> chat_same s s')"
    by (simp add: eq)
qed

end
