(* ===== verification/Chat_Service.thy ===== *)
theory Chat_Service
  imports Chat_Invariant
begin

text \<open>
  The chat as a service: every route keeps the invariant, so the surface satisfies the contract of
  \<open>foreign_surface\<close>; messages behave as a map from names (\<open>board_step\<close>); listings are complete; quotes
  are current; and a printed time stamp works as a filter bound.
\<close>

section \<open>Every route keeps the invariant\<close>

definition chat_internal :: "chat_exn \<Rightarrow> bool" where
  "chat_internal e =
     (case e of ChatApiError st _ \<Rightarrow> st = C_INTERNAL | ChatValidation _ \<Rightarrow> False | _ \<Rightarrow> True)"

definition hgood :: "chat \<Rightarrow> pyval chat_op \<Rightarrow> bool" where
  "hgood s h \<longleftrightarrow> (chat_inv s \<longrightarrow>
     (case h s of (r, s') \<Rightarrow> chat_inv s' \<and> chat_later s s' \<and> (\<forall>e. r = Inl e \<longrightarrow> chat_internal e \<or> chat_same s s')))"

lemma hgood_read: "snd (h s) = s \<Longrightarrow> hgood s h"
  by (cases "h s") (simp add: hgood_def)

lemma hgood_raise: "hgood s (sraise e)"
  by (simp add: hgood_def)

lemma hgood_if: "hgood s a \<Longrightarrow> hgood s b \<Longrightarrow> hgood s (if c then a else b)"
  by simp

lemma hgood_parse: "(\<And>x. p = Inr x \<Longrightarrow> hgood s (k x)) \<Longrightarrow> hgood s (sbind (slift p) k)"
  by (cases p) (simp_all add: hgood_def sbind_def)

lemma require_space_eq:
  "require_space sid s =
     (case dict_get (ch_spaces s) (''spaces/'' @ sid) of
        None \<Rightarrow> (Inl (ChatApiError C_NOT_FOUND (''space not found: spaces/'' @ sid)), s)
      | Some sp \<Rightarrow> (Inr sp, s))"
  by (simp add: require_space_def sbind_def chat_drive_def get_space_def not_found_unless_def split: option.splits)

lemma require_message_eq:
  "require_message name s =
     (case dict_get (ch_messages s) name of
        None \<Rightarrow> (Inl (ChatApiError C_NOT_FOUND (''message not found: '' @ name)), s)
      | Some m \<Rightarrow> (Inr m, s))"
  by (simp add: require_message_def sbind_def chat_drive_def get_message_def not_found_unless_def split: option.splits)

lemma hgood_space:
  assumes "\<And>sp. chat_inv s \<Longrightarrow> spc_name sp \<in> set (dict_keys (ch_spaces s)) \<Longrightarrow> hgood s (k sp)"
  shows "hgood s (sbind (require_space sid) k)"
proof (cases "dict_get (ch_spaces s) (''spaces/'' @ sid)")
  case None
  then show ?thesis by (simp add: hgood_def sbind_def require_space_eq)
next
  case (Some sp)
  then have run: "sbind (require_space sid) k s = k sp s" by (simp add: sbind_def require_space_eq)
  show ?thesis
  proof (cases "chat_inv s")
    case True
    from chat_invD(1) [OF True Some] map_of_SomeD [OF Some] have "spc_name sp \<in> set (dict_keys (ch_spaces s))"
      by force
    with assms True show ?thesis by (simp add: hgood_def run)
  qed (simp add: hgood_def)
qed

lemma hgood_message:
  assumes "\<And>m. dict_in name (ch_messages s) \<Longrightarrow> hgood s (k m)"
  shows "hgood s (sbind (require_message name) k)"
proof (cases "dict_get (ch_messages s) name")
  case None
  then show ?thesis by (simp add: hgood_def sbind_def require_message_eq)
next
  case (Some m)
  with assms [of m] show ?thesis by (simp add: hgood_def sbind_def require_message_eq dict_in_def)
qed

text \<open>A driver call and the computation of the response from its result.\<close>

lemma hgood_drive:
  assumes "ogood quiet s m" and "\<And>x t. snd (k x t) = t"
    and "\<And>x t e. fst (k x t) = Inl e \<Longrightarrow> \<not> quiet x \<Longrightarrow> chat_internal e"
  shows "hgood s (sbind (chat_drive m) k)"
proof (cases "m s")
  case (Pair r s1)
  show ?thesis
  proof (cases r)
    case (Inl e)
    with Pair assms(1) show ?thesis by (simp add: hgood_def ogood_def sbind_def chat_drive_def)
  next
    case (Inr x)
    obtain r2 where k: "k x s1 = (r2, s1)" using assms(2) [of x s1] by (cases "k x s1") simp
    with assms(3) [of x s1] have "r2 = Inl e \<Longrightarrow> \<not> quiet x \<Longrightarrow> chat_internal e" for e by simp
    with Pair Inr k assms(1) show ?thesis by (auto simp: hgood_def ogood_def sbind_def chat_drive_def)
  qed
qed

lemma chat_internal_simps [simp]:
  "chat_internal (ChatRaised e)" "\<not> chat_internal (chat_invalid m)" "\<not> chat_internal (ChatApiError C_NOT_FOUND m)"
  by (simp_all add: chat_internal_def chat_invalid_def)

lemma chat_rfc3339_err: "chat_rfc3339 t = Inl e \<Longrightarrow> chat_internal e"
  by (auto simp: chat_rfc3339_def split: sum.splits)

lemma message_json_err: "message_json m = Inl e \<Longrightarrow> chat_internal e"
  by (auto simp: message_json_def quote_json_def result_simps split: if_splits option.splits dest: chat_rfc3339_err)

text \<open>The routes that only read.\<close>

lemma paged_state: "snd (paged rows pg s) = s"
  by (simp add: paged_def)

lemma drive_state: "snd (chat_drive m s) = snd (m s)"
  by (simp add: chat_drive_def split: prod.splits sum.splits)

lemma sbind_state: "snd (m s) = s \<Longrightarrow> (\<And>x. snd (k x s) = s) \<Longrightarrow> snd (sbind m k s) = s"
  by (cases "m s"; cases "fst (m s)") (simp_all add: sbind_def)

lemma driver_reads:
  "snd (list_spaces pg s) = s" "snd (get_space sp s) = s" "snd (find_direct_message u s) = s"
  "snd (list_members sp pg s) = s" "snd (list_messages sp q s) = s" "snd (get_message n s) = s"
  "snd (search_messages sr s) = s" "snd (list_reactions n pg s) = s"
  by (simp_all add: list_spaces_def get_space_def find_direct_message_def list_members_def list_messages_def
      get_message_def search_messages_def list_reactions_def paged_state Let_def split: sum.splits)

lemma require_reads: "snd (require_space sid s) = s" "snd (require_message n s) = s" "snd (not_found_unless r m s) = s"
  by (simp_all add: require_space_eq require_message_eq not_found_unless_def split: option.splits)

lemmas read_rules = sbind_state drive_state [THEN trans] driver_reads require_reads

lemma read_routes:
  "snd (hc_list_spaces ps pt s) = s" "snd (hc_find_direct_message nm s) = s" "snd (hc_get_space sid s) = s"
  "snd (hc_list_members sid ps pt s) = s" "snd (hc_list_messages env sid ps pt f ob s) = s"
  "snd (hc_get_message sid mid s) = s" "snd (hc_search_messages sid raw s) = s"
  "snd (hc_list_reactions sid mid ps pt s) = s" "snd (hc_unmatched path s) = s"
  unfolding hc_list_spaces_def hc_get_space_def hc_list_members_def hc_list_messages_def hc_get_message_def
    hc_search_messages_def hc_list_reactions_def hc_unmatched_def hc_find_direct_message_def Let_def
  by (auto intro!: read_rules split: option.splits prod.splits if_splits)

text \<open>The routes that write.\<close>

lemma rest_found:
  "snd (sbind (not_found_unless r m) (\<lambda>x. slift (f x)) t) = t"
  "fst (sbind (not_found_unless r m) (\<lambda>x. slift (f x)) t) = Inl e \<Longrightarrow>
     r \<noteq> None \<Longrightarrow> (\<And>x e. f x = Inl e \<Longrightarrow> chat_internal e) \<Longrightarrow> chat_internal e"
  by (auto simp: sbind_def not_found_unless_def split: option.splits)

lemma write_routes:
  "hgood s (hc_create_space raw)" "hgood s (hc_create_message env sid raw opt)"
  "hgood s (hc_patch_message sid mid raw msk)" "hgood s (hc_delete_message sid mid)"
  "hgood s (hc_create_reaction sid mid raw)" "hgood s (hc_delete_reaction sid mid rid)"
  "hgood s (hc_upload_attachment env sid content fn nh th)"
  subgoal unfolding hc_create_space_def
    by (intro hgood_parse hgood_drive [OF create_space_good]) simp_all
  subgoal unfolding hc_create_message_def
    by (intro hgood_space hgood_parse hgood_drive [OF create_message_good]) (simp_all add: message_json_err)
  subgoal unfolding hc_patch_message_def Let_def
    by (intro hgood_parse hgood_drive [OF patch_message_good]) (auto simp: rest_found(1) dest: rest_found(2) message_json_err)
  subgoal unfolding hc_delete_message_def Let_def
    by (intro hgood_drive [OF delete_message_good]) auto
  subgoal unfolding hc_create_reaction_def Let_def
    by (intro hgood_parse hgood_message hgood_drive [OF create_reaction_good]) simp_all
  subgoal unfolding hc_delete_reaction_def Let_def
    by (intro hgood_drive [OF delete_reaction_good]) auto
  subgoal unfolding hc_upload_attachment_def Let_def
    by (intro hgood_space hgood_if hgood_raise hgood_drive [OF upload_attachment_good]) simp_all
  done

lemma chat_handle_good: "hgood s (chat_handle env req)"
  by (cases req) (auto intro: hgood_read read_routes write_routes)

lemma chat_handle_step:
  assumes "chat_inv s" "chat_handle env req s = (r, s')"
  shows "chat_inv s'" "chat_later s s'" "\<And>e. r = Inl e \<Longrightarrow> \<not> chat_internal e \<Longrightarrow> chat_same s s'"
  using chat_handle_good [of s env req] assms by (auto simp: hgood_def)

interpretation chat_surface:
  foreign_surface "chat_handle env" chat_route chat_inv chat_later chat_same chat_internal error_envelope
  for env
proof
  show "200 \<le> resp_status (chat_route (Inr v)) \<and> resp_status (chat_route (Inr v)) < 300" for v
    by (simp add: chat_route_def)
  show "error_envelope (chat_route (Inl e)) \<and> 400 \<le> resp_status (chat_route (Inl e))" for e
  proof -
    have "error_envelope (chat_error_response st m) \<and> 400 \<le> resp_status (chat_error_response st m)" for st m
      by (cases st) (simp_all add: error_envelope_def chat_error_response_def pget_def dict_get_or_def)
    then show ?thesis by (cases e) (simp_all add: chat_route_def)
  qed
  show "500 \<le> resp_status (chat_route (Inl e))" if "chat_internal e" for e
    using that by (cases e) (auto simp: chat_internal_def chat_route_def chat_error_response_def split: chat_status.splits)
qed (auto intro: chat_later_trans dest: chat_handle_step)

section \<open>Boot\<close>

definition seeds_plain :: "chat_settings \<Rightarrow> bool" where
  "seeds_plain cfg = list_all (\<lambda>row. CHR ''/'' \<notin> set (sds_id row)) (cset_spaces cfg)"

lemma seed_space_inv:
  assumes inv: "chat_inv s" and "CHR ''/'' \<notin> set (sds_id row)"
  shows "chat_inv (seed_space_row row s)"
proof -
  let ?s = "seed_space_row row s"
  have spaces: "set (dict_keys (ch_spaces s)) \<subseteq> set (dict_keys (ch_spaces ?s))"
    by (simp add: seed_space_row_def Let_def dict_keys_set del: set_map) blast
  have same: "ch_messages ?s = ch_messages s" "ch_order ?s = ch_order s" "ch_threads ?s = ch_threads s"
    "ch_counter ?s = ch_counter s" "ch_reactions ?s = ch_reactions s" "ch_thread_keys ?s = ch_thread_keys s"
    by (simp_all add: seed_space_row_def Let_def)
  have name: "space_name (''spaces/'' @ sds_id row)" using assms(2) by (auto simp: space_name_iff)
  have "spc_name sp = k \<and> space_name k" if "dict_get (ch_spaces ?s) k = Some sp" for k sp
    using inv that name unfolding chat_inv_def by (auto simp: seed_space_row_def Let_def split: if_splits)
  moreover have "message_ok ?s k m" if "message_ok s k m" for k m
    using that spaces by (rule message_ok_mono) (simp_all add: same)
  ultimately show ?thesis
    using inv unfolding chat_inv_def space_order_def reactions_ok_def by (simp add: same)
qed

lemma seed_spaces_inv:
  "chat_inv s \<Longrightarrow> list_all (\<lambda>row. CHR ''/'' \<notin> set (sds_id row)) rows \<Longrightarrow> chat_inv (fold seed_space_row rows s)"
  by (induction rows arbitrary: s) (simp_all add: seed_space_inv)

lemma seed_messages_inv: "chat_inv s \<Longrightarrow> seed_messages rows s = (r, s') \<Longrightarrow> chat_inv s'"
proof (induction rows arbitrary: s)
  case Nil
  then show ?case by simp
next
  case (Cons row rows)
  let ?sp = "''spaces/'' @ sdm_space row"
  obtain r1 s1 where i: "insert_message ?sp (sdm_sender row) (sdm_text row) [] ''HUMAN'' [] None s = (r1, s1)"
    by (cases "insert_message ?sp (sdm_sender row) (sdm_text row) [] ''HUMAN'' [] None s")
  show ?case
  proof (cases "dict_in ?sp (ch_spaces s)")
    case True
    then have "?sp \<in> set (dict_keys (ch_spaces s))" by (simp only: dict_in_iff)
    from insert_message_good [OF Cons.prems(1) this _ i] have "chat_inv s1" "\<exists>m. r1 = Inr m" by auto
    with Cons i True show ?thesis by (auto simp: Let_def sbind_def)
  next
    case False
    with Cons.prems show ?thesis by (simp add: Let_def sbind_def)
  qed
qed

lemma empty_chat_inv: "chat_inv (empty_chat i c fl)"
  by (simp add: chat_inv_def empty_chat_def space_order_def dict_get_or_def dict_in_def)

lemma ChatModule_inv: "ChatModule cfg clock fl = Inr s \<Longrightarrow> seeds_plain cfg \<Longrightarrow> chat_inv s"
  by (auto simp: ChatModule_def MockChatDriver_def seeds_plain_def split: if_splits prod.splits sum.splits
      intro: seed_messages_inv seed_spaces_inv empty_chat_inv)

text \<open>The state after boot and any requests.\<close>

definition chat_reachable :: "chat_env \<Rightarrow> chat_settings \<Rightarrow> chat \<Rightarrow> bool" where
  "chat_reachable env cfg s \<longleftrightarrow>
     seeds_plain cfg \<and> (\<exists>clock fl s0 reqs. ChatModule cfg clock fl = Inr s0 \<and> s = snd (chat_run env reqs s0))"

lemma chat_reachable_inv: "chat_reachable env cfg s \<Longrightarrow> chat_inv s"
  by (auto simp: chat_reachable_def chat_run_def dest: ChatModule_inv chat_surface.run_good)

section \<open>Messages as a map\<close>

text \<open>
  The abstract service: a board maps message names to messages. A request may post one message under
  an unused name of its space, edit the text of one, remove one, or do nothing to the board.
\<close>

definition writes_board :: "chat_request \<Rightarrow> bool" where
  "writes_board req =
     (case req of CreateMessage _ _ _ \<Rightarrow> True | PatchMessage _ _ _ _ \<Rightarrow> True | DeleteMessage _ _ \<Rightarrow> True | _ \<Rightarrow> False)"

inductive board_step :: "chat_request \<Rightarrow> (string \<Rightarrow> message option) \<Rightarrow> (string \<Rightarrow> message option) \<Rightarrow> bool" where
  post: "board_step (CreateMessage sid (Inr (PDict body)) opt) b (b(k := Some m))"
  if "b k = None" and "space_of k = ''spaces/'' @ sid" and "msg_name m = k"
    and "dict_get body ''text'' = Some (PStr (msg_text m))" and "msg_updated m = 0"
| edit: "board_step (PatchMessage sid mid (Inr (PDict body)) msk) b (b(k := Some (m\<lparr>msg_text := txt, msg_updated := now\<rparr>)))"
  if "k = message_path sid mid" and "b k = Some m" and "dict_get_or body ''text'' (PStr []) = PStr txt"
| remove: "board_step (DeleteMessage sid mid) b (b(k := None))"
  if "k = message_path sid mid" and "b k = Some m"
| idle: "board_step req b b" if "\<not> writes_board req"

inductive_cases board_post: "board_step (CreateMessage sid raw opt) b b'"
inductive_cases board_remove: "board_step (DeleteMessage sid mid) b b'"

abbreviation board :: "chat \<Rightarrow> string \<Rightarrow> message option" where
  "board s \<equiv> map_of (ch_messages s)"

lemma chat_json_body_Inr: "chat_json_body raw allowed = Inr body \<Longrightarrow> raw = Inr (PDict body)"
  by (auto simp: chat_json_body_def split: sum.splits pyval.splits list.splits)

lemma chat_parse_create_text:
  "chat_parse_create env body opt = Inr req \<Longrightarrow> dict_get body ''text'' = Some (PStr (mc_text req))"
  by (auto simp: chat_parse_create_def result_simps dict_get_or_def split: pyval.splits list.splits option.splits)

lemma board_with_message: "board (with_message sp m s) = (board s)(msg_name m := Some m)"
  by (simp add: with_message_def fun_eq_iff)

lemma create_route_board:
  assumes inv: "chat_inv s" and run: "hc_create_message env sid raw opt s = (Inr v, s')"
  shows "board_step (CreateMessage sid raw opt) (board s) (board s')"
proof -
  from run obtain sp body req m where sp: "dict_get (ch_spaces s) (''spaces/'' @ sid) = Some sp"
    and body: "chat_json_body raw [''text'', ''thread'', ''quotedMessageMetadata'', ''attachment''] = Inr body"
    and req: "chat_parse_create env body opt = Inr req" and c: "create_message (spc_name sp) req s = (Inr m, s')"
    by (auto simp: hc_create_message_def sbind_def require_space_eq chat_drive_def
        split: option.splits sum.splits prod.splits)
  have name: "spc_name sp = ''spaces/'' @ sid" using chat_invD(1) [OF inv sp] .
  have key: "spc_name sp \<in> set (dict_keys (ch_spaces s))" using map_of_SomeD [OF sp] name by force
  obtain th atts quoted s2 where
    m: "m = built_message s2 (spc_name sp) (ch_identity s) (mc_text req) th ''HUMAN'' atts quoted"
    "s' = with_message (spc_name sp) m s2" "chat_inv s2" "chat_same s s2"
  proof (rule create_message_cases [OF inv key c])
    fix e assume "(Inr m :: chat_exn + message) = Inl e"
    then show thesis by simp
  next
    fix quoted atts m' th s2
    assume "(Inr m :: chat_exn + message) = Inr m'"
      "m' = built_message s2 (spc_name sp) (ch_identity s) (mc_text req) th ''HUMAN'' atts quoted"
      "s' = with_message (spc_name sp) m' s2" "chat_inv s2" "chat_same s s2"
    then show thesis by (intro that) simp_all
  qed
  have plain: "space_name (spc_name sp)" using chat_invD(2) [OF inv key] .
  have b: "board s2 = board s" using m(4) by (simp add: chat_same_def)
  have k: "msg_name m = message_name (spc_name sp) (ch_counter s2)" by (simp add: m(1) built_message_def)
  have "board s (msg_name m) = None"
    using fresh_message_name [OF m(3) plain, of "ch_counter s2"] unfolding dict_in_def b k by simp
  moreover have "space_of (msg_name m) = ''spaces/'' @ sid" using plain by (simp add: k name)
  moreover have "dict_get body ''text'' = Some (PStr (msg_text m))"
    using chat_parse_create_text [OF req] by (simp add: m(1) built_message_def)
  moreover have "msg_updated m = 0" by (simp add: m(1) built_message_def)
  ultimately show ?thesis
    unfolding chat_json_body_Inr [OF body] m(2) board_with_message b by (intro board_step.post) simp_all
qed

lemma patch_route_board:
  assumes "hc_patch_message sid mid raw msk s = (Inr v, s')"
  shows "board_step (PatchMessage sid mid raw msk) (board s) (board s')"
proof -
  let ?k = "message_path sid mid"
  from assms obtain body tx m where body: "chat_json_body raw [''text''] = Inr body"
    and tx: "dict_get_or body ''text'' (PStr []) = PStr tx" and p: "patch_message ?k (Some tx) s = (Inr (Some m), s')"
    by (auto simp: hc_patch_message_def Let_def sbind_def chat_drive_def not_found_unless_def
        split: option.splits sum.splits prod.splits pyval.splits)
  from p obtain m0 where m0: "board s ?k = Some m0"
    and s': "s' = s\<lparr>ch_reads := Suc (ch_reads s), ch_messages := dict_set ?k
      (m0\<lparr>msg_text := tx, msg_updated := ticks_of_us (ch_clock s (ch_reads s))\<rparr>) (ch_messages s)\<rparr>"
    by (auto simp: patch_message_def sbind_def chat_now_def Let_def split: option.splits)
  have "board s' = (board s)(?k := Some (m0\<lparr>msg_text := tx, msg_updated := ticks_of_us (ch_clock s (ch_reads s))\<rparr>))"
    by (simp add: s' fun_eq_iff)
  with m0 tx show ?thesis unfolding chat_json_body_Inr [OF body] by (auto intro: board_step.edit)
qed

lemma delete_route_board:
  assumes "chat_inv s" "hc_delete_message sid mid s = (Inr v, s')"
  shows "board_step (DeleteMessage sid mid) (board s) (board s')"
proof -
  let ?k = "message_path sid mid"
  from assms(2) have d: "delete_message ?k s = (Inr True, s')"
    by (auto simp: hc_delete_message_def Let_def sbind_def chat_drive_def split: sum.splits prod.splits if_splits)
  then obtain m where m: "board s ?k = Some m" by (auto simp: delete_message_def split: option.splits)
  have "board s' = (board s)(?k := None)"
    using d unfolding delete_message_eq [OF assms(1) m] by (auto simp: fun_eq_iff)
  with m show ?thesis by (auto intro: board_step.remove)
qed

text \<open>The other routes do not touch the messages.\<close>

lemma other_writes_keep_messages:
  "ch_messages (snd (create_space q s)) = ch_messages s"
  "ch_messages (snd (create_reaction k emoji s)) = ch_messages s"
  "ch_messages (snd (delete_reaction nm s)) = ch_messages s"
  "ch_messages (snd (upload_attachment sp up s)) = ch_messages s"
  by (simp_all add: create_space_def create_reaction_def delete_reaction_def upload_attachment_def sbind_def
      next_count_def Let_def split: option.splits)

lemma keeps_messages_sbind:
  "ch_messages (snd (m s)) = ch_messages s \<Longrightarrow> (\<And>x t. ch_messages (snd (k x t)) = ch_messages t) \<Longrightarrow>
   ch_messages (snd (sbind m k s)) = ch_messages s"
  by (cases "m s"; cases "fst (m s)") (simp_all add: sbind_def)

lemma keeps_messages_basic:
  "ch_messages (snd (chat_drive m s)) = ch_messages (snd (m s))" "ch_messages (snd (require_space sid s)) = ch_messages s"
  "ch_messages (snd (require_message n s)) = ch_messages s"
  by (simp_all add: drive_state require_reads)

lemma write_board_only:
  "\<not> writes_board req \<Longrightarrow> chat_handle env req s = (r, s') \<Longrightarrow> ch_messages s' = ch_messages s"
proof -
  assume w: "\<not> writes_board req" and h: "chat_handle env req s = (r, s')"
  have "ch_messages (snd (chat_handle env req s)) = ch_messages s"
  proof (cases req)
    case (CreateSpace raw)
    show ?thesis unfolding CreateSpace chat_handle.simps hc_create_space_def
      by (auto intro!: keeps_messages_sbind simp: keeps_messages_basic other_writes_keep_messages)
  next
    case (CreateReaction sid mid raw)
    show ?thesis unfolding CreateReaction chat_handle.simps hc_create_reaction_def Let_def
      by (auto intro!: keeps_messages_sbind simp: keeps_messages_basic other_writes_keep_messages)
  next
    case (DeleteReaction sid mid rid)
    show ?thesis unfolding DeleteReaction chat_handle.simps hc_delete_reaction_def Let_def
      by (auto intro!: keeps_messages_sbind simp: keeps_messages_basic other_writes_keep_messages)
  next
    case (UploadAttachment sid content fn nh th)
    show ?thesis unfolding UploadAttachment chat_handle.simps hc_upload_attachment_def Let_def
      by (auto intro!: keeps_messages_sbind simp: keeps_messages_basic other_writes_keep_messages)
  qed (use w read_routes in \<open>auto simp: writes_board_def\<close>)
  with h show ?thesis by simp
qed

definition sample_chat_settings :: chat_settings where
  "sample_chat_settings =
     \<lparr>cset_driver = ''mock'', cset_upload_max = 100, cset_identity = ''users/jetty'',
      cset_spaces = [\<lparr>sds_id = ''A'', sds_display = ''Alpha'', sds_type = ''SPACE'', sds_members = [''users/u'']\<rparr>],
      cset_messages = [\<lparr>sdm_space = ''A'', sdm_text = ''hello'', sdm_sender = ''users/seed''\<rparr>]\<rparr>"

definition sample_env :: chat_env where
  "sample_env = \<lparr>ce_upload_max = 100, ce_iso = (\<lambda>_. Inl ValueError)\<rparr>"

definition sample_chat :: chat where
  "sample_chat = projr (ChatModule sample_chat_settings (\<lambda>k. 1700000000000000 + int k) (\<lambda>_. ''0.5''))"

lemma sample_chat_boot: "ChatModule sample_chat_settings (\<lambda>k. 1700000000000000 + int k) (\<lambda>_. ''0.5'') = Inr sample_chat"
proof -
  have "isl (ChatModule sample_chat_settings (\<lambda>k. 1700000000000000 + int k) (\<lambda>_. ''0.5'')) = False"
    by code_simp
  then show ?thesis by (simp add: sample_chat_def sum.collapse(2))
qed

lemma sample_chat_reachable: "chat_reachable sample_env sample_chat_settings sample_chat"
proof -
  have "seeds_plain sample_chat_settings" by code_simp
  moreover have "sample_chat = snd (chat_run sample_env [] sample_chat)" by (simp add: chat_run_def)
  ultimately show ?thesis using sample_chat_boot unfolding chat_reachable_def by metis
qed

text \<open>
  C4: The chat service implements the board of \<open>board_step\<close>. In every state reachable from a boot
  (with plain space ids) by any requests, an accepted request changes the messages exactly as the
  board allows it: creating posts one message under a name never used before in the addressed
  space, patching changes one message's text and update time, deleting removes one message, and
  nothing else touches the messages. A refused request (a 3xx or 4xx answer) leaves everything a
  client can read as it was and is answered in the emulated error shape. In no case does an existing
  message change its sender, thread, creation time, attachments or quote, nor is a name reused.
\<close>

theorem chat_refines_board:
  assumes "chat_reachable env cfg s" and "chat_serve env req s = (resp, s')"
  shows "(resp_status resp < 300 \<longrightarrow> board_step req (board s) (board s')) \<and>
    (300 \<le> resp_status resp \<and> resp_status resp < 500 \<longrightarrow> chat_same s s' \<and> error_envelope resp) \<and>
    chat_later s s'"
proof -
  have inv: "chat_inv s" using assms(1) by (rule chat_reachable_inv)
  obtain r where r: "chat_handle env req s = (r, s')" and resp: "resp = chat_route r"
    using assms(2) by (auto simp: chat_serve_def serve_with_def split: prod.splits)
  have board: "board_step req (board s) (board s')" if "r = Inr v" for v
  proof (cases "writes_board req")
    case True
    with r that inv show ?thesis
      by (cases req) (auto simp: writes_board_def intro: create_route_board patch_route_board delete_route_board)
  next
    case False
    have "ch_messages s' = ch_messages s"
      using r that False write_board_only by blast
    with False show ?thesis by (simp add: board_step.idle)
  qed
  have "\<not> resp_status resp < 300 \<and> error_envelope resp" if "r = Inl e" for e
    using chat_surface.route_error [of e] that resp by auto
  moreover have "resp_status resp < 300" if "r = Inr v" for v
    using chat_surface.route_ok [of v] that resp by simp
  moreover have "chat_same s s'" if "300 \<le> resp_status resp" "resp_status resp < 500"
    using chat_surface.refused_is_quiet [OF inv, of env req] that assms(2) by (simp add: chat_serve_def)
  ultimately show ?thesis using board chat_handle_step(2) [OF inv r] by (cases r) auto
qed

theorem chat_refines_board_witness:
  "board_step (DeleteMessage ''A'' ''m2'') (board sample_chat)
     (board (snd (chat_serve sample_env (DeleteMessage ''A'' ''m2'') sample_chat)))"
proof -
  have "resp_status (fst (chat_serve sample_env (DeleteMessage ''A'' ''m2'') sample_chat)) < 300" by code_simp
  then show ?thesis
    using chat_refines_board [OF sample_chat_reachable, of "DeleteMessage ''A'' ''m2''"] by (metis prod.collapse)
qed

end
