(* ===== verification/Chat_Listing.thy ===== *)
theory Chat_Listing
  imports Chat_Service
begin

text \<open>
  Reading the chat: what a client that follows the page tokens of a message listing receives, that
  a message's own printed time works as a filter bound, which messages can be quoted, and inputs on
  which the code does something it does not mean to.
\<close>

section \<open>Listing\<close>

definition chat_paged :: "(pyfloat \<Rightarrow> string) \<Rightarrow> 'a list \<Rightarrow> int \<Rightarrow> string \<Rightarrow> chat_exn + 'a chat_rows" where
  "chat_paged fl rows sz tok = chat_paginate fl rows \<lparr>pg_size = sz, pg_token = PStr tok\<rparr>"

interpretation chat_pages: offset_paginator "chat_paged fl" for fl
proof
  fix k :: nat and rows :: "'a list" and sz
  assume "k < int_str_bound"
  then have off: "(if \<not> truthy (PStr (offset_token k)) then Inr 0
      else case int_of_val (PStr (offset_token k)) of Inl ValueError \<Rightarrow> bad | Inl e \<Rightarrow> Inl (ChatRaised e) | Inr i \<Rightarrow> Inr i) =
      Inr (int k)" for bad
    by (simp add: offset_token_def truthy_def int_of_val_def)
  have n: "(if 0 < sz then sz else 25) = int (page_len sz)" by (simp add: page_len_def)
  have str: "str_int (int k + int (page_len sz)) = str_nat (k + page_len sz)"
    by (simp add: str_int_def str_nat_def)
  show "chat_paged fl rows sz (offset_token k) = Inr (take (page_len sz) (drop k rows),
      if k + page_len sz < length rows then str_nat (k + page_len sz) else [])"
    unfolding chat_paged_def chat_paginate_def Let_def chat_page.simps off n by (simp add: str)
qed

text \<open>One page of a listing as the client of the driver sees it.\<close>

definition message_page :: "chat \<Rightarrow> string \<Rightarrow> message_query \<Rightarrow> int \<Rightarrow> string \<Rightarrow> chat_exn + message chat_rows" where
  "message_page s sp q sz tok = fst (list_messages sp (q\<lparr>mq_page := \<lparr>pg_size = sz, pg_token = PStr tok\<rparr>\<rparr>) s)"

lemma query_row_page [simp]: "query_row (q\<lparr>mq_page := pg\<rparr>) = query_row q"
  by (simp add: query_row_def fun_eq_iff)

lemma space_rows:
  assumes "chat_inv s"
  obtains rows where "rmap (dict_index (ch_messages s)) (dict_get_or (ch_order s) sp []) = Inr rows"
    "mset rows = mset (filter (\<lambda>m. space_of (msg_name m) = sp) (dict_values (ch_messages s)))"
proof -
  note d = chat_invD [OF assms]
  let ?names = "space_order s sp" and ?get = "\<lambda>k. the (dict_get (ch_messages s) k)"
  have idx: "dict_index (ch_messages s) k = Inr (?get k)" if "k \<in> set ?names" for k
    using that d(6) [of sp] by (auto simp: dict_index_def dict_in_def)
  have rows: "rmap (dict_index (ch_messages s)) ?names = Inr (map ?get ?names)"
    using idx by (simp add: rmap_Inr_iff list_all2_conv_all_nth)
  have "inj_on ?get (set ?names)"
  proof (rule inj_onI)
    fix k k' assume "k \<in> set ?names" "k' \<in> set ?names" "?get k = ?get k'"
    then show "k = k'" using d(4) [of k] d(4) [of k'] by (force simp: d(6) dict_in_def message_ok_def)
  qed
  then have dist: "distinct (map ?get ?names)" using d(5) by (simp add: distinct_map)
  have vals: "m \<in> set (dict_values (ch_messages s)) \<longleftrightarrow> dict_get (ch_messages s) (msg_name m) = Some m" for m
  proof
    assume "m \<in> set (dict_values (ch_messages s))"
    then obtain k where "(k, m) \<in> set (ch_messages s)" by auto
    then have "dict_get (ch_messages s) k = Some m" using d(3) by simp
    with d(4) [OF this] show "dict_get (ch_messages s) (msg_name m) = Some m" by (simp add: message_ok_def)
  qed (force dest: map_of_SomeD)
  have dvals: "distinct (dict_values (ch_messages s))"
  proof -
    have "inj_on snd (set (ch_messages s))"
    proof (rule inj_onI, clarify)
      fix k m k' m' assume "(k, m) \<in> set (ch_messages s)" "(k', m') \<in> set (ch_messages s)" "snd (k, m) = snd (k', m')"
      then show "k = k' \<and> m = m'" using d(3,4) by (auto simp: message_ok_def)
    qed
    then show ?thesis using d(3) by (simp add: distinct_map)
  qed
  have "m \<in> set (map ?get ?names) \<longleftrightarrow> m \<in> set (dict_values (ch_messages s)) \<and> space_of (msg_name m) = sp" for m
  proof
    assume "m \<in> set (map ?get ?names)"
    then obtain k where "dict_get (ch_messages s) k = Some m" "space_of k = sp" by (auto simp: d(6) dict_in_def)
    moreover from this have "msg_name m = k" using d(4) by (auto simp: message_ok_def)
    ultimately show "m \<in> set (dict_values (ch_messages s)) \<and> space_of (msg_name m) = sp" by (simp only: vals)
  next
    assume "m \<in> set (dict_values (ch_messages s)) \<and> space_of (msg_name m) = sp"
    then have "dict_get (ch_messages s) (msg_name m) = Some m" "msg_name m \<in> set ?names"
      by (auto simp only: vals d(6) dict_in_def)
    then show "m \<in> set (map ?get ?names)" by force
  qed
  then have "mset (map ?get ?names) = mset (filter (\<lambda>m. space_of (msg_name m) = sp) (dict_values (ch_messages s)))"
    using dist dvals by (intro set_eq_iff_mset_eq_distinct [THEN iffD1]) (auto simp del: set_map)
  with rows show thesis by (intro that [of "map ?get ?names"]) (simp_all only: space_order_def)
qed

text \<open>
  A client that lists the messages of a space and follows the page tokens, with whatever filter,
  direction and page size, while nothing is written, gets through (one request per message is
  enough) and receives exactly the messages of that space that the filter selects, each once,
  ordered by creation time in the direction asked for; messages created at the same time keep one
  order across the pages.
\<close>

theorem chat_listing_walk:
  assumes "chat_reachable env cfg s" and "length (ch_messages s) < int_str_bound"
  shows "\<exists>pages. walk_pages (message_page s sp q sz) (Suc (length (ch_messages s))) [] = Some pages \<and>
    mset (concat pages) =
      mset (filter (\<lambda>m. space_of (msg_name m) = sp \<and> query_row q m) (dict_values (ch_messages s))) \<and>
    (if mq_descending q then sorted (rev (map msg_created (concat pages))) else sorted (map msg_created (concat pages))) \<and>
    list_all (\<lambda>p. length p \<le> page_len sz) pages"
proof -
  have inv: "chat_inv s" using assms(1) by (rule chat_reachable_inv)
  from space_rows [OF inv, of sp] obtain rows where
    rows: "rmap (dict_index (ch_messages s)) (dict_get_or (ch_order s) sp []) = Inr rows"
    "mset rows = mset (filter (\<lambda>m. space_of (msg_name m) = sp) (dict_values (ch_messages s)))" .
  let ?rows = "py_sort msg_created (mq_descending q) (filter (query_row q) rows)"
  have page: "message_page s sp q sz = chat_paged (ch_float s) ?rows sz"
    by (rule ext) (simp add: message_page_def list_messages_def rows(1) paged_def chat_paged_def)
  have "mset (filter (query_row q) rows) = filter_mset (query_row q) (mset rows)" by simp
  also have "\<dots> = mset (filter (\<lambda>m. space_of (msg_name m) = sp \<and> query_row q m) (dict_values (ch_messages s)))"
    by (simp add: rows(2) filter_filter_mset conj_commute)
  finally have m: "mset (filter (query_row q) rows) =
    mset (filter (\<lambda>m. space_of (msg_name m) = sp \<and> query_row q m) (dict_values (ch_messages s)))" .
  have "length ?rows \<le> length (ch_messages s)"
    using mset_eq_length [OF m] length_filter_le [of _ "dict_values (ch_messages s)"] by (simp del: filter_filter)
  moreover from this assms(2) have "length ?rows < int_str_bound" by simp
  ultimately obtain pages where w: "walk_pages (chat_paged (ch_float s) ?rows sz) (Suc (length (ch_messages s))) [] = Some pages"
    "concat pages = ?rows" "list_all (\<lambda>p. length p \<le> page_len sz) pages"
    using chat_pages.walk_from [of ?rows 0 "Suc (length (ch_messages s))" "ch_float s" sz]
    by (auto simp: offset_token_def simp del: walk_pages.simps)
  show ?thesis
    unfolding page using w m by (auto simp: py_sort_asc py_sort_desc simp del: walk_pages.simps)
qed

theorem chat_listing_walk_witness:
  "\<exists>pages. walk_pages (message_page sample_chat ''spaces/A''
      \<lparr>mq_page = \<lparr>pg_size = 1, pg_token = PStr []\<rparr>, mq_after = 0, mq_before = 0, mq_thread = [], mq_descending = True\<rparr> 1) 2 [] = Some pages"
proof -
  have len: "length (ch_messages sample_chat) = 1" by code_simp
  have "length (ch_messages sample_chat) < int_str_bound"
    by (rule small_lt_int_str_bound) (simp add: len)
  from chat_listing_walk [OF sample_chat_reachable this] show ?thesis
    unfolding len One_nat_def [symmetric] Suc_1 by blast
qed

section \<open>A message's own time as a filter bound\<close>

lemma parse_time_printed:
  assumes "chat_rfc3339 (ticks_of_us us) = Inr t"
  shows "parse_time env (PStr t) field_name = Inr (ticks_of_us us)"
proof -
  have "rfc3339 us = Inr t"
    using assms by (auto simp: chat_rfc3339_def rfc3339_ticks_def split: sum.splits)
  from utc_roundtrip [OF this] show ?thesis by (simp add: parse_time_def fromisoformat_def)
qed

lemma stamp_chars:
  assumes "rfc3339 us = Inr t"
  shows "list_all (\<lambda>c. \<not> is_space c \<and> c \<noteq> CHR 0x22) t"
proof -
  have pads: "list_all (\<lambda>c. \<not> is_space c \<and> c \<noteq> CHR 0x22) (pad w n)" if n: "0 \<le> n" for w n
  proof -
    obtain k where "n = int k" using n by (rule nonneg_int_cases)
    then have "pad w n = replicate (w - length (str_nat k)) (CHR ''0'') @ str_nat k"
      by (simp add: pad_def str_nat_def Let_def)
    then have "set (pad w n) \<subseteq> insert (CHR ''0'') (set (str_nat k))" by auto
    moreover have "c \<in> set (str_nat k) \<Longrightarrow> \<not> is_space c \<and> c \<noteq> CHR 0x22" for c
    proof -
      assume "c \<in> set (str_nat k)"
      then have "is_ascii_digit c" using str_nat_digits [of k] by (simp add: list_all_iff)
      then show ?thesis using digit_not_space [of c] by (auto simp: is_ascii_digit_def)
    qed
    moreover have "\<not> is_space (CHR ''0'') \<and> CHR ''0'' \<noteq> CHR 0x22" by (simp add: is_space_def)
    ultimately show ?thesis unfolding list_all_iff by blast
  qed
  obtain y m d where ymd: "civil_from_days (us div 86400000000) = (y, m, d)" by (metis prod_cases3)
  let ?sod = "us div 1000000 mod 86400"
  have "0 \<le> ?sod" by simp
  then have nn: "0 \<le> ?sod div 3600" "0 \<le> ?sod mod 3600 div 60" "0 \<le> ?sod mod 60" "0 \<le> us mod 1000000"
    by (simp_all add: pos_imp_zdiv_nonneg_iff)
  from assms ymd have y: "1 \<le> y"
    and t: "t = pad 4 y @ ''-'' @ pad 2 m @ ''-'' @ pad 2 d @ ''T'' @ pad 2 (?sod div 3600) @ '':'' @
      pad 2 (?sod mod 3600 div 60) @ '':'' @ pad 2 (?sod mod 60) @ ''.'' @ pad 6 (us mod 1000000) @ ''Z''"
    by (simp_all add: rfc3339_def stamp_def split: if_splits)
  have ymd0: "0 \<le> y" "0 \<le> m" "0 \<le> d" using y civil_bounds [OF ymd] by linarith+
  have lits: "list_all (\<lambda>c. \<not> is_space c \<and> c \<noteq> CHR 0x22) ''-''" "list_all (\<lambda>c. \<not> is_space c \<and> c \<noteq> CHR 0x22) ''T''"
    "list_all (\<lambda>c. \<not> is_space c \<and> c \<noteq> CHR 0x22) '':''" "list_all (\<lambda>c. \<not> is_space c \<and> c \<noteq> CHR 0x22) ''.''"
    "list_all (\<lambda>c. \<not> is_space c \<and> c \<noteq> CHR 0x22) ''Z''"
    by (simp_all add: is_space_def)
  show ?thesis unfolding t list_all_append by (intro conjI pads nn ymd0 lits)
qed

lemma find_and_no_space: "list_all (\<lambda>c. \<not> is_space c) s \<Longrightarrow> find_and s = None"
  by (induction s) auto

lemma filter_terms_one:
  assumes "f \<noteq> []" "filter_term f = Some (''createTime'', op, v)" "op \<in> {CHR ''>'', CHR ''<''}"
  shows "filter_terms env [f] (0, 0, []) = rbind (parse_time env (PStr v) ''filter createTime'') (\<lambda>x.
      Inr (if op = CHR ''>'' then (x, 0, []) else (0, x, [])))"
  using assms by auto

lemma filter_one_term:
  assumes t: "list_all (\<lambda>c. \<not> is_space c \<and> c \<noteq> CHR 0x22) t" and op: "op \<in> {CHR ''>'', CHR ''<''}"
  shows "parse_list_filter env (''createTime '' @ op # '' \"'' @ t @ ''\"'') =
    rbind (parse_time env (PStr t) ''filter createTime'') (\<lambda>x.
      Inr (if op = CHR ''>'' then (x, 0, []) else (0, x, [])))"
proof -
  let ?f = "''createTime '' @ op # '' \"'' @ t @ ''\"''"
  have nosp: "list_all (\<lambda>c. \<not> is_space c) (t @ ''\"'')" using t by (auto simp: list_all_iff is_space_def)
  have sp: "is_space (CHR '' '')" "\<not> is_space (CHR ''c'')" "\<not> is_space (CHR 0x22)" "\<not> is_space op"
    using op by (auto simp: is_space_def)
  have strip: "py_strip ?f = ?f"
    by (simp add: py_strip_def py_lstrip_def py_rstrip_def sp)
  have "find_and ?f = None"
    using op find_and_no_space [OF nosp] by (auto simp: is_space_def and_after_def Let_def py_lower_def lower_ch_def)
  then have split: "split_and ?f = [?f]" by (simp add: split_and.simps)
  have quote: "CHR 0x22 \<notin> set t" using t by (auto simp: list_all_iff)
  have part: "partition_ch (CHR 0x22) (t @ ''\"'') = (t, True, [])"
  proof -
    have "\<And>x. x \<in> set t \<Longrightarrow> x \<noteq> CHR 0x22" using quote by blast
    then show ?thesis by (simp add: partition_ch_def takeWhile_append2 dropWhile_append2)
  qed
  have val: "filter_value ('' \"'' @ t @ ''\"'') = Some t"
    using part by (simp add: filter_value_def Let_def sp)
  have tm: "filter_term ?f = Some (''createTime'', op, t)"
    using op val by (auto simp: filter_term_def Let_def is_space_def is_word_dot_def is_lower_az_def is_upper_az_def is_digit_ch_def is_ascii_digit_def)
  show ?thesis
    unfolding parse_list_filter_def strip split by (rule filter_terms_one [OF _ tm op]) simp
qed

text \<open>
  C33: Time stamps survive the wire exactly. Whatever instant a message was created at (in whole
  microseconds, as the driver stores it), the text a client reads in \<open>createTime\<close> parses back to
  the very same stored value: used as a bound of a list filter, in either direction, it selects
  exactly the messages created strictly later (earlier), and handed back as the version of a quote
  it is not off by a single tick.
\<close>

theorem create_time_filter_exact:
  assumes "chat_rfc3339 (ticks_of_us us) = Inr t" and "us \<noteq> 0"
  shows "parse_list_filter env (''createTime > \"'' @ t @ ''\"'') = Inr (ticks_of_us us, 0, []) \<and>
    parse_list_filter env (''createTime < \"'' @ t @ ''\"'') = Inr (0, ticks_of_us us, []) \<and>
    parse_time env (PStr t) ''quotedMessageMetadata.lastUpdateTime'' = Inr (ticks_of_us us) \<and>
    (\<forall>pg m v. msg_created m = ticks_of_us v \<longrightarrow>
      query_row \<lparr>mq_page = pg, mq_after = ticks_of_us us, mq_before = 0, mq_thread = [], mq_descending = False\<rparr> m = (us < v) \<and>
      query_row \<lparr>mq_page = pg, mq_after = 0, mq_before = ticks_of_us us, mq_thread = [], mq_descending = False\<rparr> m = (v < us))"
proof -
  have "rfc3339 us = Inr t"
    using assms(1) by (auto simp: chat_rfc3339_def rfc3339_ticks_def split: sum.splits)
  note chars = stamp_chars [OF this]
  have "ticks_of_us us \<noteq> 0"
    using assms(2) ticks_us_of_us [of us] ticks_us_of_us [of 0] by (auto simp: ticks_of_us_def round_half_even_def)
  then show ?thesis
    using filter_one_term [OF chars, of "CHR ''>''" env] filter_one_term [OF chars, of "CHR ''<''" env]
      parse_time_printed [OF assms(1)] by (simp add: query_row_def)
qed

theorem create_time_filter_exact_witness:
  "parse_list_filter sample_env (''createTime > \"2023-11-14T22:13:20.000001Z\"'') = Inr (ticks_of_us 1700000000000001, 0, [])"
proof -
  have "chat_rfc3339 (ticks_of_us 1700000000000001) = Inr ''2023-11-14T22:13:20.000001Z''" by code_simp
  from create_time_filter_exact [OF this, of sample_env] show ?thesis by simp
qed

section \<open>Quotes\<close>

definition message_version :: "message \<Rightarrow> int" where
  "message_version m = (if msg_updated m \<noteq> 0 then msg_updated m else msg_created m)"

lemma resolve_thread_roots: "ch_thread_roots (snd (resolve_thread sp req s)) = ch_thread_roots s"
  by (simp add: resolve_thread_def key_thread_def sbind_def new_thread_eq split: sum.splits option.splits)

lemma hash_key_str: "hash_key v = Inr (HStr n) \<longleftrightarrow> v = PStr n"
  by (auto simp: hash_key_def split: pyval.splits pyfloat.splits if_splits)

lemma resolve_quote_Inr:
  assumes "fst (resolve_quote qr thread s) = Inr q"
  shows "\<exists>n qm. qr_name qr = PStr n \<and> dict_get (ch_messages s) n = Some qm \<and>
    q = \<lparr>qt_name = msg_name qm, qt_updated = message_version qm, qt_text = msg_text qm\<rparr> \<and>
    \<bar>message_version qm - qr_updated qr\<bar> \<le> 4 \<and>
    (msg_thread qm = thread \<or> dict_get (ch_thread_roots s) (msg_thread qm) = Some (msg_name qm))"
proof -
  from assms obtain found where f: "get_by_val (ch_messages s) (qr_name qr) = Inr found"
    by (auto simp: resolve_quote_def result_simps)
  with assms obtain qm where qm: "found = Some qm" by (auto simp: resolve_quote_def split: option.splits)
  from f obtain n where n: "qr_name qr = PStr n" "dict_get (ch_messages s) n = Some qm"
    by (auto simp: get_by_val_def qm hash_key_str split: sum.splits hkey.splits)
  with assms f qm show ?thesis
    by (auto simp: resolve_quote_def message_version_def Let_def split: if_splits)
qed

text \<open>
  A message that quotes another is accepted only if the quoted message exists, the version the
  client names is the current one to the microsecond (at most four ticks of a float away), and the
  quoted message is in the same thread as the new message or is a thread's root; and then the stored
  quote is the quoted message's name, its current version and its current text. In every other case
  the request is refused and no message is added.
\<close>

theorem quotes_are_current:
  assumes "chat_reachable env cfg s" and "sp \<in> set (dict_keys (ch_spaces s))"
    and "mc_quote req = Some qr" and "create_message sp req s = (r, s')"
  shows "(\<exists>e. r = Inl e \<and> ch_messages s' = ch_messages s) \<or>
    (\<exists>m n qm. r = Inr m \<and> qr_name qr = PStr n \<and> dict_get (ch_messages s) n = Some qm \<and>
       msg_quoted m = Some \<lparr>qt_name = n, qt_updated = message_version qm, qt_text = msg_text qm\<rparr> \<and>
       \<bar>message_version qm - qr_updated qr\<bar> \<le> 4 \<and>
       (msg_thread qm = msg_thread m \<or> dict_get (ch_thread_roots s) (msg_thread qm) = Some n))"
proof -
  have inv: "chat_inv s" using assms(1) by (rule chat_reachable_inv)
  show ?thesis
  proof (rule create_message_cases [OF inv assms(2,4)])
    fix e assume "r = Inl e" "chat_same s s'"
    then show ?thesis by (simp add: chat_same_def)
  next
    fix thread s1 quoted atts m th s2
    assume t: "resolve_thread sp req s = (Inr thread, s1)" "chat_same s s1"
      and q: "mc_quote req = None \<and> quoted = None \<or>
        (\<exists>qr q. mc_quote req = Some qr \<and> quoted = Some q \<and> fst (resolve_quote qr thread s1) = Inr q)"
      and m: "r = Inr m" "m = built_message s2 sp (ch_identity s) (mc_text req) th ''HUMAN'' atts quoted"
        "thread \<noteq> [] \<longrightarrow> th = thread"
    from q assms(3) obtain q' where q': "quoted = Some q'" "fst (resolve_quote qr thread s1) = Inr q'" by auto
    from resolve_quote_Inr [OF q'(2)] obtain n qm where
      qm: "qr_name qr = PStr n" "dict_get (ch_messages s1) n = Some qm"
      "q' = \<lparr>qt_name = msg_name qm, qt_updated = message_version qm, qt_text = msg_text qm\<rparr>"
      "\<bar>message_version qm - qr_updated qr\<bar> \<le> 4"
      "msg_thread qm = thread \<or> dict_get (ch_thread_roots s1) (msg_thread qm) = Some (msg_name qm)" by blast
    have old: "dict_get (ch_messages s) n = Some qm" using qm(2) t(2) by (simp add: chat_same_def)
    have roots: "ch_thread_roots s1 = ch_thread_roots s" using resolve_thread_roots t(1) by (metis snd_conv)
    from chat_invD(4) [OF inv old] chat_invD(9) [OF inv] have name: "msg_name qm = n" and "msg_thread qm \<noteq> []"
      by (auto simp: message_ok_def)
    with qm m have "msg_thread qm = msg_thread m \<or> dict_get (ch_thread_roots s) (msg_thread qm) = Some n"
      by (auto simp: built_message_def roots)
    with m q' qm old name show ?thesis by (auto simp: built_message_def)
  qed
qed

definition sample_quote :: message_create where
  "sample_quote = \<lparr>mc_text = ''re'', mc_thread = PStr [], mc_thread_key = PStr [], mc_reply = REPLY_NEW,
     mc_quote = Some \<lparr>qr_name = PStr ''spaces/A/messages/m2'', qr_updated = ticks_of_us 1700000000000000\<rparr>, mc_attachments = []\<rparr>"

theorem quotes_are_current_witness:
  "\<exists>qm. dict_get (ch_messages sample_chat) ''spaces/A/messages/m2'' = Some qm \<and>
     \<bar>message_version qm - ticks_of_us 1700000000000000\<bar> \<le> 4"
proof -
  have "''spaces/A'' \<in> set (dict_keys (ch_spaces sample_chat))" by code_simp
  moreover have "\<not> isl (fst (create_message ''spaces/A'' sample_quote sample_chat))" by code_simp
  moreover have "mc_quote sample_quote = Some \<lparr>qr_name = PStr ''spaces/A/messages/m2'', qr_updated = ticks_of_us 1700000000000000\<rparr>"
    by (simp add: sample_quote_def)
  ultimately show ?thesis
    using quotes_are_current [OF sample_chat_reachable, of "''spaces/A''" sample_quote]
    by (cases "create_message ''spaces/A'' sample_quote sample_chat") force
qed

section \<open>Gaps\<close>

text \<open>A create that names a thread key and a quoted message that does not exist, and its follow-up.\<close>

definition keyed_create :: "reply \<Rightarrow> quote_request option \<Rightarrow> message_create" where
  "keyed_create how q = \<lparr>mc_text = ''x'', mc_thread = PStr [], mc_thread_key = PStr ''k'', mc_reply = how,
     mc_quote = q, mc_attachments = []\<rparr>"

definition bad_create :: message_create where
  "bad_create = keyed_create REPLY_FALLBACK (Some \<lparr>qr_name = PStr ''nope'', qr_updated = 0\<rparr>)"

definition mock1_chat :: chat where
  "mock1_chat = seed_space_row \<lparr>sds_id = ''mock1'', sds_display = ''Seeded'', sds_type = ''SPACE'', sds_members = []\<rparr>
     (empty_chat ''users/jetty'' (\<lambda>_. 0) (\<lambda>_. []))"

text \<open>
  Three inputs on which the chat does something it does not mean to. A create that is refused
  because of its quote has already registered its thread key: a reply that demands an existing
  thread, refused before, succeeds afterwards. A created space takes the name of a configured space
  called \<open>mock1\<close> and replaces it. An \<open>orderBy\<close> of white space raises an exception that is
  answered as an internal error instead of an invalid argument.
\<close>

theorem chat_gaps:
  "isl (fst (create_message ''spaces/A'' (keyed_create REPLY_OR_FAIL None) sample_chat)) \<and>
   isl (fst (create_message ''spaces/A'' bad_create sample_chat)) \<and>
   \<not> isl (fst (create_message ''spaces/A'' (keyed_create REPLY_OR_FAIL None)
       (snd (create_message ''spaces/A'' bad_create sample_chat)))) \<and>
   map_option spc_display (dict_get (ch_spaces mock1_chat) ''spaces/mock1'') = Some (PStr ''Seeded'') \<and>
   map_option spc_display (dict_get (ch_spaces (snd (create_space \<lparr>sc_display = PStr ''New'', sc_type = PStr ''SPACE''\<rparr> mock1_chat)))
     ''spaces/mock1'') = Some (PStr ''New'') \<and>
   chat_parse_order_by (PStr '' '') = Inl (ChatRaised IndexError)"
  by (intro conjI; code_simp)

end
