(* ===== verification/Posix_Fs.thy ===== *)
theory Posix_Fs
  imports Py_Text
begin

text \<open>
  A file system as the drivers use it: a map from paths (lists of names, no symbolic link among the
  directories on the way) to nodes, the system calls on it, and \<open>os.path.realpath\<close> of the interpreter.
  Hard links are not represented: a node has one path. A call may also fail for reasons that are not in
  the map (permissions, a full disk, an I/O error); such failures are parameters of the operations that
  use the calls.
\<close>

section \<open>Nodes and paths\<close>

datatype errno = EPERM | EACCES | EROFS | ENOENT | ENOTDIR | EISDIR | ELOOP | ENOTEMPTY | EEXIST | EXDEV | OtherErrno int

record inode =
  ino_dev :: int
  ino_num :: int
  ino_uid :: int
  ino_mode :: int
  ino_size :: nat
  ino_mtime :: rat

text \<open>The size of a regular file is the length of its contents; \<open>ino_size\<close> is that of any other node.\<close>

datatype node = Reg inode string | Dir inode | Link string | Special inode

type_synonym names = "string list"
type_synonym file_system = "(names, node) dict"

definition path_str :: "names \<Rightarrow> string" where
  "path_str ns = ''/'' @ py_join ''/'' ns"

abbreviation split_path :: "string \<Rightarrow> names" where
  "split_path p \<equiv> split_ch (CHR ''/'') p"

definition is_dir :: "file_system \<Rightarrow> names \<Rightarrow> bool" where
  "is_dir fs p \<longleftrightarrow> (case dict_get fs p of Some (Dir _) \<Rightarrow> True | _ \<Rightarrow> False)"

section \<open>Path resolution by the kernel\<close>

text \<open>
  One name after the other, every symbolic link followed; at most 40 links are followed in all.
\<close>

definition MAXSYMLINKS :: nat where
  "MAXSYMLINKS = 40"

function walk :: "nat \<Rightarrow> file_system \<Rightarrow> names \<Rightarrow> names \<Rightarrow> errno + names" where
  "walk links fs base [] = Inr base"
| "walk links fs base (n # rest) =
     (case dict_get fs base of
        None \<Rightarrow> Inl ENOENT
      | Some (Dir _) \<Rightarrow>
          if n = [] \<or> n = ''.'' then walk links fs base rest
          else if n = ''..'' then walk links fs (butlast base) rest
          else (case dict_get fs (base @ [n]) of
                  Some (Link t) \<Rightarrow>
                    (case links of
                       0 \<Rightarrow> Inl ELOOP
                     | Suc l \<Rightarrow> walk l fs (if path_isabs t then [] else base) (split_path t @ rest))
                | _ \<Rightarrow> walk links fs (base @ [n]) rest)
      | Some _ \<Rightarrow> Inl ENOTDIR)"
  by pat_completeness auto
termination
  by (relation "measures [\<lambda>(links, fs, base, ns). links, \<lambda>(links, fs, base, ns). length ns]") auto

definition namei :: "file_system \<Rightarrow> string \<Rightarrow> errno + names" where
  "namei fs p = walk MAXSYMLINKS fs [] (split_path p)"

section \<open>System calls\<close>

definition sys_stat :: "file_system \<Rightarrow> string \<Rightarrow> errno + node" where
  "sys_stat fs p =
     rbind (namei fs p) (\<lambda>q. case dict_get fs q of None \<Rightarrow> Inl ENOENT | Some x \<Rightarrow> Inr x)"

text \<open>The entry a path names: its directory resolved, its last name as it is.\<close>

definition entry_of :: "file_system \<Rightarrow> string \<Rightarrow> errno + names" where
  "entry_of fs p =
     (if list_all (\<lambda>c. c = CHR ''/'') p then Inr []
      else rbind (namei fs (file_dirname p)) (\<lambda>q.
        case dict_get fs q of
          None \<Rightarrow> Inl ENOENT
        | Some (Dir _) \<Rightarrow> Inr (q @ [file_basename p])
        | Some _ \<Rightarrow> Inl ENOTDIR))"

definition sys_lstat :: "file_system \<Rightarrow> string \<Rightarrow> errno + node" where
  "sys_lstat fs p =
     rbind (entry_of fs p) (\<lambda>q. case dict_get fs q of None \<Rightarrow> Inl ENOENT | Some x \<Rightarrow> Inr x)"

definition sys_read :: "file_system \<Rightarrow> string \<Rightarrow> errno + string" where
  "sys_read fs p =
     rbind (sys_stat fs p) (\<lambda>x.
       case x of Reg _ content \<Rightarrow> Inr content | Dir _ \<Rightarrow> Inl EISDIR | _ \<Rightarrow> Inl (OtherErrno 6))"

definition dir_dev :: "file_system \<Rightarrow> names \<Rightarrow> int" where
  "dir_dev fs p = (case dict_get fs p of Some (Dir i) \<Rightarrow> ino_dev i | _ \<Rightarrow> 0)"

text \<open>A new entry; what is created is given its directory's device.\<close>

definition sys_create :: "(int \<Rightarrow> node) \<Rightarrow> string \<Rightarrow> file_system \<Rightarrow> errno + file_system" where
  "sys_create mk p fs =
     rbind (entry_of fs p) (\<lambda>q.
       if dict_in q fs then Inl EEXIST else Inr (dict_set q (mk (dir_dev fs (butlast q))) fs))"

definition sys_unlink :: "string \<Rightarrow> file_system \<Rightarrow> errno + file_system" where
  "sys_unlink p fs =
     rbind (entry_of fs p) (\<lambda>q.
       case dict_get fs q of
         None \<Rightarrow> Inl ENOENT
       | Some (Dir _) \<Rightarrow> Inl EISDIR
       | Some _ \<Rightarrow> Inr (dict_del q fs))"

definition has_entries :: "file_system \<Rightarrow> names \<Rightarrow> bool" where
  "has_entries fs q \<longleftrightarrow> list_ex (\<lambda>p. p \<noteq> [] \<and> butlast p = q) (dict_keys fs)"

text \<open>The root is busy.\<close>

definition sys_rmdir :: "string \<Rightarrow> file_system \<Rightarrow> errno + file_system" where
  "sys_rmdir p fs =
     rbind (entry_of fs p) (\<lambda>q.
       case dict_get fs q of
         None \<Rightarrow> Inl ENOENT
       | Some (Dir _) \<Rightarrow>
           if q = [] then Inl (OtherErrno 16) else if has_entries fs q then Inl ENOTEMPTY else Inr (dict_del q fs)
       | Some _ \<Rightarrow> Inl ENOTDIR)"

text \<open>
  A rename of something that is not a directory; the drivers rename nothing else.
\<close>

definition sys_rename :: "string \<Rightarrow> string \<Rightarrow> file_system \<Rightarrow> errno + file_system" where
  "sys_rename src dst fs =
     rbind (entry_of fs src) (\<lambda>p.
     rbind (entry_of fs dst) (\<lambda>q.
       case dict_get fs p of
         None \<Rightarrow> Inl ENOENT
       | Some (Dir _) \<Rightarrow> Inl EISDIR
       | Some x \<Rightarrow>
           if dir_dev fs (butlast p) \<noteq> dir_dev fs (butlast q) then Inl EXDEV
           else if is_dir fs q then Inl EISDIR
           else if p = q then Inr fs
           else Inr (dict_set q x (dict_del p fs))))"

section \<open>os.path.realpath\<close>

text \<open>
  \<open>posixpath._joinrealpath\<close> (not strict) of the interpreters 3.11 and 3.12 on an absolute path: the
  resolved part, the names that are left and whether everything was resolved. \<open>seen\<close> has the links met so
  far, with what they resolved to or \<open>None\<close> while that is being found out; meeting such a link again is a
  loop, and what is left then is appended as it is. The fuel bounds the links that are open at once.
\<close>

function joinrealpath :: "nat \<Rightarrow> file_system \<Rightarrow> names \<Rightarrow> names \<Rightarrow> (names, names option) dict \<Rightarrow>
    (names \<times> names \<times> bool \<times> (names, names option) dict) option" where
  "joinrealpath fuel fs path [] seen = Some (path, [], True, seen)"
| "joinrealpath fuel fs path (n # rest) seen =
     (if n = [] \<or> n = ''.'' then joinrealpath fuel fs path rest seen
      else if n = ''..'' then joinrealpath fuel fs (butlast path) rest seen
      else let newpath = path @ [n] in
        case dict_get fs newpath of
          Some (Link t) \<Rightarrow>
            (case dict_get seen newpath of
               Some (Some p) \<Rightarrow> joinrealpath fuel fs p rest seen
             | Some None \<Rightarrow> Some (newpath, rest, False, seen)
             | None \<Rightarrow>
                 (case fuel of
                    0 \<Rightarrow> None
                  | Suc f \<Rightarrow>
                      (case joinrealpath f fs (if path_isabs t then [] else path) (split_path t) (dict_set newpath None seen) of
                         None \<Rightarrow> None
                       | Some (p, left, ok, seen2) \<Rightarrow>
                           if \<not> ok then Some (p, left @ rest, False, seen2)
                           else joinrealpath fuel fs p rest (dict_set newpath (Some p) seen2))))
        | _ \<Rightarrow> joinrealpath fuel fs newpath rest seen)"
  by pat_completeness auto
termination
  by (relation "measures [\<lambda>(fuel, fs, path, ns, seen). fuel, \<lambda>(fuel, fs, path, ns, seen). length ns]") auto

text \<open>\<open>abspath\<close> removes the dots that are left.\<close>

fun normalize :: "names \<Rightarrow> names \<Rightarrow> names" where
  "normalize path [] = path"
| "normalize path (n # rest) =
     (if n = [] \<or> n = ''.'' then normalize path rest
      else if n = ''..'' then normalize (butlast path) rest
      else normalize (path @ [n]) rest)"

definition realpath_run :: "file_system \<Rightarrow> string \<Rightarrow> (names \<times> names \<times> bool \<times> (names, names option) dict) option" where
  "realpath_run fs p = joinrealpath (length fs) fs [] (split_path p) []"

definition realpath :: "file_system \<Rightarrow> string \<Rightarrow> string" where
  "realpath fs p = (case realpath_run fs p of None \<Rightarrow> p | Some (q, left, _) \<Rightarrow> path_str (normalize q left))"

end
