(* ===== verification/Fs_Local.thy ===== *)
theory Fs_Local
  imports Posix_Fs
begin

text \<open>
  \<^verbatim>\<open>src/jetty/modules/filesystem/driver.py\<close> (results and typed failures) and
  \<^verbatim>\<open>src/jetty/modules/filesystem/local.py\<close> (the driver). The driver's state is its root, the scratch
  directories it remembers by identity, and the file system. Each operation meets its surroundings: what
  the kernel refuses (a refusal may come at any call), the process's identity and mask, the clock, the
  number of a new inode, the random names that are tried. An operation runs to its end without another
  process in between; that other processes change the file system between operations is allowed.
\<close>

unbundle bit_operations_syntax

section \<open>The driver's vocabulary\<close>

datatype fs_exn = FileMissing string | PermissionDenied string | InvalidTarget string | FsOSError errno | NamesTaken

record write_result =
  wr_size :: nat
  wr_created :: bool

record stat_result =
  sr_type :: string
  sr_size :: nat
  sr_mode :: int
  sr_mtime :: rat

section \<open>The local driver\<close>

record local_fs =
  lf_root :: string
  lf_scratch :: "(string, int \<times> int) dict"
  lf_fs :: file_system

text \<open>What the kernel refuses, per call; \<open>None\<close> lets the call do its work.\<close>

record refusals =
  no_lstat :: "errno option"
  no_stat :: "errno option"
  no_stat_dst :: "errno option"
  no_open :: "errno option"
  no_create :: "errno option"
  no_write :: "errno option"
  no_chmod :: "errno option"
  no_rename :: "errno option"
  no_remove :: "errno option"
  no_cleanup :: "errno option"

record fs_moment =
  fm_refused :: refusals
  fm_euid :: int
  fm_umask :: int
  fm_now :: rat
  fm_ino :: int
  fm_dir_size :: nat
  fm_tokens :: "string list"
  fm_tmpname :: string

abbreviation (input) refusing :: "errno option \<Rightarrow> errno + 'a \<Rightarrow> errno + 'a" where
  "refusing e r \<equiv> (case e of None \<Rightarrow> r | Some n \<Rightarrow> Inl n)"

definition LocalFsDriver :: "string \<Rightarrow> file_system \<Rightarrow> local_fs" where
  "LocalFsDriver served fs = \<lparr>lf_root = served, lf_scratch = [], lf_fs = fs\<rparr>"

definition fs_translate :: "errno \<Rightarrow> string \<Rightarrow> fs_exn" where
  "fs_translate e path =
     (if e \<in> {EACCES, EPERM, EROFS} then PermissionDenied path
      else if e \<in> {ENOENT, ENOTDIR} then FileMissing path
      else if e = EISDIR then InvalidTarget path
      else if e = ELOOP then InvalidTarget path
      else FsOSError e)"

lemma dirname_shorter: "file_dirname p \<noteq> p \<Longrightarrow> length (file_dirname p) < length p"
proof -
  let ?head = "rev (dropWhile (\<lambda>c. c \<noteq> CHR ''/'') (rev p))" and ?strip = "\<lambda>h. rev (dropWhile (\<lambda>c. c = CHR ''/'') (rev h))"
  have pre: "\<exists>t. p = ?head @ t" by (metis rev_append rev_rev_ident takeWhile_dropWhile_id)
  have pre2: "\<exists>t. h = ?strip h @ t" for h by (metis rev_append rev_rev_ident takeWhile_dropWhile_id)
  assume "file_dirname p \<noteq> p"
  moreover have "\<exists>t. p = file_dirname p @ t"
    using pre pre2 [of ?head] by (auto simp: file_dirname_def Let_def)
  ultimately show ?thesis by (metis append_Nil2 length_append less_add_same_cancel1 length_greater_0_conv)
qed

function scratch_ancestor :: "(string, int \<times> int) dict \<Rightarrow> string \<Rightarrow> string option" where
  "scratch_ancestor scratch cursor =
     (if dict_in cursor scratch then Some cursor
      else let parent = file_dirname cursor
           in if parent = cursor then None else scratch_ancestor scratch parent)"
  by pat_completeness auto
termination
  by (relation "measure (\<lambda>(scratch, cursor). length cursor)") (auto dest: dirname_shorter)

declare scratch_ancestor.simps [simp del]

text \<open>Retires the record of a directory that is no longer the one that was made.\<close>

definition scratch_alive :: "fs_moment \<Rightarrow> string \<Rightarrow> local_fs \<Rightarrow> bool \<times> local_fs" where
  "scratch_alive m directory s =
     (case refusing (no_lstat (fm_refused m)) (sys_lstat (lf_fs s) directory) of
        Inr (Dir i) \<Rightarrow>
          if ino_uid i = fm_euid m \<and> dict_get (lf_scratch s) directory = Some (ino_dev i, ino_num i) then (True, s)
          else (False, s\<lparr>lf_scratch := dict_del directory (lf_scratch s)\<rparr>)
      | _ \<Rightarrow> (False, s\<lparr>lf_scratch := dict_del directory (lf_scratch s)\<rparr>))"

definition fs_resolve :: "fs_moment \<Rightarrow> string \<Rightarrow> (local_fs, fs_exn, string) opn" where
  "fs_resolve m path s =
     (let full = realpath (lf_fs s) path; base = realpath (lf_fs s) (lf_root s)
      in if full = base \<or> prefix (base @ ''/'') full then (Inr full, s)
         else case scratch_ancestor (lf_scratch s) full of
                None \<Rightarrow> (Inl (InvalidTarget path), s)
              | Some d \<Rightarrow>
                  (case scratch_alive m d s of
                     (True, s') \<Rightarrow> (Inr full, s')
                   | (False, s') \<Rightarrow> (Inl (InvalidTarget path), s')))"

definition stat_regular :: "errno option \<Rightarrow> file_system \<Rightarrow> string \<Rightarrow> string \<Rightarrow> fs_exn + (inode \<times> string) option" where
  "stat_regular refused fs full path =
     (case refusing refused (sys_stat fs full) of
        Inl ENOENT \<Rightarrow> Inr None
      | Inl e \<Rightarrow> Inl (fs_translate e path)
      | Inr (Reg i c) \<Rightarrow> Inr (Some (i, c))
      | Inr _ \<Rightarrow> Inl (InvalidTarget path))"

definition require_regular :: "errno option \<Rightarrow> file_system \<Rightarrow> string \<Rightarrow> string \<Rightarrow> fs_exn + inode \<times> string" where
  "require_regular refused fs full path =
     rbind (stat_regular refused fs full path) (\<lambda>r. case r of None \<Rightarrow> Inl (FileMissing path) | Some x \<Rightarrow> Inr x)"

text \<open>
  The first of the random names that is free. The list stands for the names the generator would give;
  the loop has no other end than a free name or an error.
\<close>

fun open_temp :: "fs_moment \<Rightarrow> string \<Rightarrow> int \<Rightarrow> string list \<Rightarrow> file_system \<Rightarrow> (errno option) + string \<times> file_system" where
  "open_temp m directory mode [] fs = Inl None"
| "open_temp m directory mode (t # ts) fs =
     (let tmp = path_join directory (''.jetty-tmp-'' @ t);
          mk = (\<lambda>dev. Reg \<lparr>ino_dev = dev, ino_num = fm_ino m, ino_uid = fm_euid m,
                          ino_mode = mode AND NOT (fm_umask m), ino_size = 0, ino_mtime = fm_now m\<rparr> [])
      in case refusing (no_create (fm_refused m)) (sys_create mk tmp fs) of
           Inr fs' \<Rightarrow> Inr (tmp, fs')
         | Inl EEXIST \<Rightarrow> open_temp m directory mode ts fs
         | Inl e \<Rightarrow> Inl (Some e))"

definition put_node :: "(inode \<Rightarrow> inode) \<Rightarrow> string \<Rightarrow> string \<Rightarrow> file_system \<Rightarrow> file_system" where
  "put_node f content p fs =
     (case entry_of fs p of
        Inr q \<Rightarrow> (case dict_get fs q of Some (Reg i _) \<Rightarrow> dict_set q (Reg (f i) content) fs | _ \<Rightarrow> fs)
      | Inl _ \<Rightarrow> fs)"

text \<open>The file is written, given the bits of the file it replaces, and moved into place. (What a failed write
  leaves in the temporary file is not represented.)\<close>

definition fill_temp :: "fs_moment \<Rightarrow> string \<Rightarrow> string \<Rightarrow> string \<Rightarrow> (inode \<times> string) option \<Rightarrow> file_system \<Rightarrow>
    (errno + unit) \<times> file_system" where
  "fill_temp m tmp full content old fs =
     (case no_write (fm_refused m) of
        Some e \<Rightarrow> (Inl e, fs)
      | None \<Rightarrow>
          let fs1 = put_node id content tmp fs
          in case (if old = None then None else no_chmod (fm_refused m)) of
               Some e \<Rightarrow> (Inl e, fs1)
             | None \<Rightarrow>
                 let fs2 = (case old of None \<Rightarrow> fs1 | Some (i, _) \<Rightarrow> put_node (\<lambda>j. j\<lparr>ino_mode := ino_mode i\<rparr>) content tmp fs1)
                 in case refusing (no_rename (fm_refused m)) (sys_rename tmp full fs2) of
                      Inl e \<Rightarrow> (Inl e, fs2)
                    | Inr fs3 \<Rightarrow> (Inr (), fs3))"

definition fs_replace :: "fs_moment \<Rightarrow> string \<Rightarrow> string \<Rightarrow> string \<Rightarrow> int \<Rightarrow> (local_fs, fs_exn, write_result) opn" where
  "fs_replace m full path content create_mode s =
     (case stat_regular (no_stat_dst (fm_refused m)) (lf_fs s) full path of
        Inl e \<Rightarrow> (Inl e, s)
      | Inr old \<Rightarrow>
          (case open_temp m (file_dirname full) (if old = None then create_mode else 384) (fm_tokens m) (lf_fs s) of
             Inl None \<Rightarrow> (Inl NamesTaken, s)
           | Inl (Some e) \<Rightarrow> (Inl (fs_translate e path), s)
           | Inr (tmp, fs1) \<Rightarrow>
               (case fill_temp m tmp full content old fs1 of
                  (Inr _, fs2) \<Rightarrow> (Inr \<lparr>wr_size = length content, wr_created = (old = None)\<rparr>, s\<lparr>lf_fs := fs2\<rparr>)
                | (Inl e, fs2) \<Rightarrow>
                    (Inl (fs_translate e path),
                     s\<lparr>lf_fs := (case refusing (no_cleanup (fm_refused m)) (sys_unlink tmp fs2) of
                                    Inl _ \<Rightarrow> fs2 | Inr fs3 \<Rightarrow> fs3)\<rparr>))))"

definition fs_read :: "fs_moment \<Rightarrow> string \<Rightarrow> (local_fs, fs_exn, string) opn" where
  "fs_read m path =
     sbind (fs_resolve m path) (\<lambda>full s.
       case require_regular (no_stat (fm_refused m)) (lf_fs s) full path of
         Inl e \<Rightarrow> (Inl e, s)
       | Inr _ \<Rightarrow>
           (case refusing (no_open (fm_refused m)) (sys_read (lf_fs s) full) of
              Inl e \<Rightarrow> (Inl (fs_translate e path), s)
            | Inr content \<Rightarrow> (Inr content, s)))"

definition fs_write :: "fs_moment \<Rightarrow> string \<Rightarrow> string \<Rightarrow> (local_fs, fs_exn, write_result) opn" where
  "fs_write m path content = sbind (fs_resolve m path) (\<lambda>full. fs_replace m full path content 438)"

definition remove_error :: "errno \<Rightarrow> string \<Rightarrow> fs_exn" where
  "remove_error e path = (if e \<in> {ENOTEMPTY, EEXIST} then InvalidTarget path else fs_translate e path)"

definition fs_delete :: "fs_moment \<Rightarrow> string \<Rightarrow> (local_fs, fs_exn, unit) opn" where
  "fs_delete m path =
     sbind (fs_resolve m path) (\<lambda>full s.
       case refusing (no_stat (fm_refused m)) (sys_stat (lf_fs s) full) of
         Inl e \<Rightarrow> (Inl (fs_translate e path), s)
       | Inr (Dir _) \<Rightarrow>
           (case refusing (no_remove (fm_refused m)) (sys_rmdir full (lf_fs s)) of
              Inl e \<Rightarrow> (Inl (remove_error e path), s)
            | Inr fs' \<Rightarrow> (Inr (), s\<lparr>lf_fs := fs', lf_scratch := dict_del full (lf_scratch s)\<rparr>))
       | Inr (Reg _ _) \<Rightarrow>
           (case refusing (no_remove (fm_refused m)) (sys_unlink full (lf_fs s)) of
              Inl e \<Rightarrow> (Inl (remove_error e path), s)
            | Inr fs' \<Rightarrow> (Inr (), s\<lparr>lf_fs := fs'\<rparr>))
       | Inr _ \<Rightarrow> (Inl (InvalidTarget path), s))"

text \<open>\<open>tempfile.mkdtemp\<close> makes the last of the names it tries.\<close>

definition fs_mkdtemp :: "fs_moment \<Rightarrow> (local_fs, fs_exn, string) opn" where
  "fs_mkdtemp m s =
     (let mk = (\<lambda>dev. Dir \<lparr>ino_dev = dev, ino_num = fm_ino m, ino_uid = fm_euid m,
                          ino_mode = 448 AND NOT (fm_umask m), ino_size = fm_dir_size m, ino_mtime = fm_now m\<rparr>)
      in case refusing (no_create (fm_refused m)) (sys_create mk (fm_tmpname m) (lf_fs s)) of
           Inl e \<Rightarrow> (Inl (fs_translate e ''tmpdir''), s)
         | Inr fs1 \<Rightarrow>
             let full = realpath fs1 (fm_tmpname m); s1 = s\<lparr>lf_fs := fs1\<rparr>
             in case refusing (no_lstat (fm_refused m)) (sys_lstat fs1 full) of
                  Inl e \<Rightarrow> (Inl (fs_translate e ''tmpdir''), s1)
                | Inr x \<Rightarrow>
                    (case x of
                       Dir i \<Rightarrow> (Inr full, s1\<lparr>lf_scratch := dict_set full (ino_dev i, ino_num i) (lf_scratch s1)\<rparr>)
                     | _ \<Rightarrow> (Inl (FsOSError ENOTDIR), s1)))"

definition fs_stat :: "fs_moment \<Rightarrow> string \<Rightarrow> (local_fs, fs_exn, stat_result) opn" where
  "fs_stat m path =
     sbind (fs_resolve m path) (\<lambda>full s.
       case refusing (no_stat (fm_refused m)) (sys_stat (lf_fs s) full) of
         Inl e \<Rightarrow> (Inl (fs_translate e path), s)
       | Inr x \<Rightarrow>
           (case x of
              Reg i c \<Rightarrow> (Inr \<lparr>sr_type = ''file'', sr_size = length c, sr_mode = ino_mode i, sr_mtime = ino_mtime i\<rparr>, s)
            | Dir i \<Rightarrow> (Inr \<lparr>sr_type = ''directory'', sr_size = ino_size i, sr_mode = ino_mode i, sr_mtime = ino_mtime i\<rparr>, s)
            | Special i \<Rightarrow> (Inr \<lparr>sr_type = ''other'', sr_size = ino_size i, sr_mode = ino_mode i, sr_mtime = ino_mtime i\<rparr>, s)
            | Link _ \<Rightarrow> (Inl (FsOSError ELOOP), s)))"

definition fs_rename :: "fs_moment \<Rightarrow> string \<Rightarrow> string \<Rightarrow> (local_fs, fs_exn, bool) opn" where
  "fs_rename m src dst =
     sbind (fs_resolve m src) (\<lambda>src_full. sbind (fs_resolve m dst) (\<lambda>dst_full s.
       case require_regular (no_stat (fm_refused m)) (lf_fs s) src_full src of
         Inl e \<Rightarrow> (Inl e, s)
       | Inr _ \<Rightarrow>
           (case stat_regular (no_stat_dst (fm_refused m)) (lf_fs s) dst_full dst of
              Inl e \<Rightarrow> (Inl e, s)
            | Inr old \<Rightarrow>
                (case refusing (no_rename (fm_refused m)) (sys_rename src_full dst_full (lf_fs s)) of
                   Inl e \<Rightarrow> (Inl (if e = EXDEV then InvalidTarget src else fs_translate e (src @ '' -> '' @ dst)), s)
                 | Inr fs' \<Rightarrow> (Inr (old = None), s\<lparr>lf_fs := fs'\<rparr>)))))"

definition fs_copy :: "fs_moment \<Rightarrow> string \<Rightarrow> string \<Rightarrow> (local_fs, fs_exn, write_result) opn" where
  "fs_copy m src dst =
     sbind (fs_resolve m src) (\<lambda>src_full. sbind (fs_resolve m dst) (\<lambda>dst_full s.
       if src_full = dst_full then (Inl (InvalidTarget src), s)
       else case require_regular (no_stat (fm_refused m)) (lf_fs s) src_full src of
              Inl e \<Rightarrow> (Inl e, s)
            | Inr (i, _) \<Rightarrow>
                (case refusing (no_open (fm_refused m)) (sys_read (lf_fs s) src_full) of
                   Inl e \<Rightarrow> (Inl (fs_translate e src), s)
                 | Inr content \<Rightarrow> fs_replace m dst_full dst content (ino_mode i) s)))"

end
