(* ===== verification/Fs_Paths.thy ===== *)
theory Fs_Paths
  imports Posix_Fs
begin

text \<open>
  Paths as strings and as lists of names, and what \<open>realpath\<close> gives: unless the path runs into a loop of
  links, a path with no link on it, on which the kernel's own resolution changes nothing.
\<close>

section \<open>Strings and names\<close>

definition proper :: "names \<Rightarrow> bool" where
  "proper ns \<longleftrightarrow> list_all (\<lambda>n. n \<noteq> [] \<and> n \<noteq> ''.'' \<and> n \<noteq> ''..'' \<and> CHR ''/'' \<notin> set n) ns"

lemma proper_simps [simp]:
  "proper []"
  "proper (n # ns) \<longleftrightarrow> n \<noteq> [] \<and> n \<noteq> ''.'' \<and> n \<noteq> ''..'' \<and> CHR ''/'' \<notin> set n \<and> proper ns"
  "proper (ns @ ms) \<longleftrightarrow> proper ns \<and> proper ms"
  by (auto simp: proper_def)

lemma proper_butlast: "proper ns \<Longrightarrow> proper (butlast ns)"
  unfolding proper_def list_all_iff by (auto dest: in_set_butlastD)

lemma proper_take: "proper ns \<Longrightarrow> proper (take k ns)"
  unfolding proper_def list_all_iff by (auto dest: in_set_takeD)

lemma path_str_snoc: "path_str (ns @ [n]) = (if ns = [] then ''/'' @ n else path_str ns @ ''/'' @ n)"
proof (cases "ns = []")
  case False
  then have "py_join ''/'' (ns @ [n]) = py_join ''/'' ns @ ''/'' @ n"
  proof (induction ns)
    case (Cons m ns)
    then show ?case by (cases "ns = []") (simp_all add: py_join_Cons)
  qed simp
  with False show ?thesis by (simp add: path_str_def)
qed (simp add: path_str_def)

lemma path_str_Nil [simp]: "path_str [] = ''/''"
  by (simp add: path_str_def)

lemma path_str_root: "path_str ns = CHR ''/'' # py_join ''/'' ns"
  by (simp add: path_str_def)

lemma split_path_str:
  assumes "proper ns"
  shows "split_path (path_str ns) = (if ns = [] then ['''', ''''] else '''' # ns)"
proof (cases "ns = []")
  case False
  then have "path_str ns = py_join ''/'' ('''' # ns)" by (simp add: path_str_def py_join_Cons)
  moreover have "\<forall>n \<in> set ('''' # ns). CHR ''/'' \<notin> set n" using assms by (auto simp: proper_def list_all_iff)
  ultimately show ?thesis using False split_join [of "'''' # ns" "CHR ''/''"] by simp
qed simp

lemma path_str_inject: "proper ns \<Longrightarrow> proper ms \<Longrightarrow> path_str ns = path_str ms \<longleftrightarrow> ns = ms"
proof
  assume "proper ns" "proper ms" "path_str ns = path_str ms"
  then have "(if ns = [] then ['''', ''''] else '''' # ns) = (if ms = [] then ['''', ''''] else '''' # ms)"
    by (metis split_path_str)
  with \<open>proper ns\<close> \<open>proper ms\<close> show "ns = ms" by (auto split: if_splits)
qed simp

lemma dropWhile_rev_slash:
  assumes "CHR ''/'' \<notin> set n"
  shows "rev (dropWhile (\<lambda>c. c \<noteq> CHR ''/'') (rev (p @ CHR ''/'' # n))) = p @ ''/''"
proof -
  have "dropWhile (\<lambda>c. c \<noteq> CHR ''/'') (rev n @ CHR ''/'' # rev p) = CHR ''/'' # rev p"
    using assms by (subst dropWhile_append2) auto
  then show ?thesis by simp
qed

lemma path_str_last: "proper ns \<Longrightarrow> ns \<noteq> [] \<Longrightarrow> last (path_str ns) \<noteq> CHR ''/''"
proof (induction ns rule: rev_induct)
  case (snoc n ns)
  then have "CHR ''/'' \<notin> set n" "n \<noteq> []" by simp_all
  then have "last n \<noteq> CHR ''/''" by (metis last_in_set)
  with \<open>n \<noteq> []\<close> show ?case by (auto simp: path_str_snoc)
qed simp

lemma dirname_path_str:
  assumes "proper (ns @ [n])"
  shows "file_dirname (path_str (ns @ [n])) = path_str ns"
proof (cases "ns = []")
  case True
  have "path_str [n] = [] @ CHR ''/'' # n" by (simp add: path_str_root)
  then have "rev (dropWhile (\<lambda>c. c \<noteq> CHR ''/'') (rev (path_str [n]))) = ''/''"
    using assms dropWhile_rev_slash [of n "[]"] by simp
  with True show ?thesis unfolding file_dirname_def Let_def by simp
next
  case False
  have h: "rev (dropWhile (\<lambda>c. c \<noteq> CHR ''/'') (rev (path_str (ns @ [n])))) = path_str ns @ ''/''"
    using assms False dropWhile_rev_slash [of n "path_str ns"] by (simp add: path_str_snoc)
  obtain a b where ab: "path_str ns = a @ [b]" "b \<noteq> CHR ''/''"
    using path_str_last [of ns] assms False by (metis append_butlast_last_id path_str_root list.distinct(1) proper_simps(3))
  then show ?thesis unfolding file_dirname_def Let_def h by simp
qed

lemma basename_path_str: "proper (ns @ [n]) \<Longrightarrow> file_basename (path_str (ns @ [n])) = n"
proof -
  assume p: "proper (ns @ [n])"
  have "path_str (ns @ [n]) = (if ns = [] then [] else path_str ns) @ CHR ''/'' # n" by (simp add: path_str_snoc)
  with p show ?thesis
    by (simp add: file_basename_def rpartition_ch_def Let_def takeWhile_append)
qed

lemma dirname_root: "file_dirname ''/'' = ''/''"
  by (simp add: file_dirname_def)

lemma path_str_not_slashes: "proper ns \<Longrightarrow> ns \<noteq> [] \<Longrightarrow> \<not> list_all (\<lambda>c. c = CHR ''/'') (path_str ns)"
  using path_str_last [of ns] last_in_set [of "path_str ns"] by (auto simp: list_all_iff path_str_root)

text \<open>A directory's path with a slash is a prefix exactly of the paths below it.\<close>

lemma prefix_path_str:
  assumes "proper r" and "proper f" and "prefix (path_str r @ ''/'') (path_str f)"
  shows "strict_prefix r f"
proof -
  obtain t where t: "path_str f = path_str r @ CHR ''/'' # t" using assms(3) by (auto simp: prefix_def)
  have f: "f \<noteq> []" using t by (cases f) (auto simp: path_str_root)
  have "split_path (path_str f) = split_path (path_str r @ CHR ''/'' # t)" by (simp add: t)
  moreover have "split_path (path_str r @ CHR ''/'' # t) = split_path (path_str r) @ split_path t"
  proof -
    have "split_path (a @ CHR ''/'' # t) = split_path a @ split_path t" for a
    proof (induction a)
      case (Cons c a)
      then show ?case by (cases "c = CHR ''/''") (auto split: list.splits)
    qed simp
    then show ?thesis .
  qed
  ultimately have "'''' # f = split_path (path_str r) @ split_path t" using split_path_str [OF assms(2)] f by simp
  then show ?thesis using split_path_str [OF assms(1)] split_ch_not_Nil [of "CHR ''/''" t] assms(2)
    by (cases "r = []") (auto simp: strict_prefix_def)
qed

section \<open>Paths without links\<close>

definition fs_wf :: "file_system \<Rightarrow> bool" where
  "fs_wf fs \<longleftrightarrow> is_dir fs [] \<and> (\<forall>p. dict_get fs p \<noteq> None \<longrightarrow> proper p \<and> (p \<noteq> [] \<longrightarrow> is_dir fs (butlast p)))"

definition is_link :: "file_system \<Rightarrow> names \<Rightarrow> bool" where
  "is_link fs p \<longleftrightarrow> (case dict_get fs p of Some (Link _) \<Rightarrow> True | _ \<Rightarrow> False)"

definition clean :: "file_system \<Rightarrow> names \<Rightarrow> bool" where
  "clean fs p \<longleftrightarrow> (\<forall>a. prefix a p \<longrightarrow> \<not> is_link fs a)"

lemma fs_wf_root: "fs_wf fs \<Longrightarrow> is_dir fs []"
  by (simp add: fs_wf_def)

lemma is_dirE: 
  assumes "is_dir fs p"
  obtains i where "dict_get fs p = Some (Dir i)"
  using assms by (auto simp: is_dir_def split: option.splits node.splits)

lemma clean_Nil: "fs_wf fs \<Longrightarrow> clean fs []"
  by (auto simp: clean_def is_link_def elim!: is_dirE [OF fs_wf_root])

lemma clean_butlast: "clean fs p \<Longrightarrow> clean fs (butlast p)"
  using prefixeq_butlast prefix_order.trans unfolding clean_def by blast

lemma clean_prefix: "clean fs p \<Longrightarrow> prefix a p \<Longrightarrow> clean fs a"
  unfolding clean_def using prefix_order.trans by blast

lemma clean_snoc: "clean fs (p @ [n]) \<longleftrightarrow> clean fs p \<and> \<not> is_link fs (p @ [n])"
  by (auto simp: clean_def)

lemma ancestors_are_dirs:
  assumes "fs_wf fs" and "dict_get fs p \<noteq> None" and "strict_prefix a p"
  shows "is_dir fs a"
  using assms(2,3)
proof (induction p rule: rev_induct)
  case (snoc n p)
  have d: "is_dir fs p" using assms(1) snoc.prems(1) by (fastforce simp: fs_wf_def)
  show ?case
  proof (cases "a = p")
    case False
    then have "strict_prefix a p" using snoc.prems(2) by (auto simp: strict_prefix_def)
    moreover have "dict_get fs p \<noteq> None" using d by (auto elim: is_dirE)
    ultimately show ?thesis by (rule snoc.IH [rotated])
  qed (simp add: d)
qed simp

text \<open>On such a path the kernel stays, if the directories exist.\<close>

lemma walk_clean:
  "clean fs (base @ ns) \<Longrightarrow> proper ns \<Longrightarrow>
   walk l fs base ns = Inr (base @ ns) \<or> walk l fs base ns \<in> {Inl ENOENT, Inl ENOTDIR}"
proof (induction ns arbitrary: base)
  case (Cons n ns)
  have "\<not> is_link fs (base @ [n])" using Cons.prems(1) by (auto simp: clean_def)
  with Cons.IH [of "base @ [n]"] Cons.prems show ?case
    by (auto simp: is_link_def split: option.splits node.splits)
qed simp

lemma walk_dirs:
  "clean fs (base @ ns) \<Longrightarrow> proper ns \<Longrightarrow> (\<And>a. prefix base a \<Longrightarrow> strict_prefix a (base @ ns) \<Longrightarrow> is_dir fs a) \<Longrightarrow>
   walk l fs base ns = Inr (base @ ns)"
proof (induction ns arbitrary: base)
  case (Cons n ns)
  have nl: "\<not> is_link fs (base @ [n])" using Cons.prems(1) by (auto simp: clean_def)
  have "is_dir fs base" using Cons.prems(3) [of base] by (simp add: strict_prefix_def)
  then obtain i where i: "dict_get fs base = Some (Dir i)" by (rule is_dirE)
  have "walk l fs (base @ [n]) ns = Inr (base @ n # ns)"
    using Cons.IH [of "base @ [n]"] Cons.prems by (auto simp: prefix_def strict_prefix_def)
  with nl i Cons.prems(2) show ?case by (auto simp: is_link_def split: option.splits node.splits)
qed simp

lemma namei_start:
  assumes "fs_wf fs" and "proper p"
  shows "namei fs (path_str p) = walk MAXSYMLINKS fs [] p"
proof -
  obtain i where "dict_get fs [] = Some (Dir i)" using fs_wf_root [OF assms(1)] by (rule is_dirE)
  then show ?thesis by (simp add: namei_def split_path_str [OF assms(2)])
qed

lemma namei_clean:
  assumes "fs_wf fs" and "proper p" and "clean fs p"
  shows "namei fs (path_str p) = Inr p \<or> namei fs (path_str p) \<in> {Inl ENOENT, Inl ENOTDIR}"
  using walk_clean [of fs "[]" p] assms by (simp add: namei_start)

lemma namei_present:
  assumes "fs_wf fs" and "proper p" and "clean fs p" and "dict_get fs p \<noteq> None"
  shows "namei fs (path_str p) = Inr p"
  unfolding namei_start [OF assms(1,2)]
  using walk_dirs [of fs "[]" p] ancestors_are_dirs [OF assms(1,4)] assms(2,3) by simp

lemma sys_stat_clean:
  assumes "fs_wf fs" and "proper p" and "clean fs p"
  shows "case dict_get fs p of
    Some x \<Rightarrow> sys_stat fs (path_str p) = Inr x
  | None \<Rightarrow> sys_stat fs (path_str p) \<in> {Inl ENOENT, Inl ENOTDIR}"
proof (cases "dict_get fs p")
  case None
  then show ?thesis using namei_clean [OF assms] by (auto simp: sys_stat_def)
next
  case (Some x)
  then show ?thesis using namei_present [OF assms] by (simp add: sys_stat_def)
qed

lemma entry_of_snoc:
  assumes "proper (b @ [n])"
  shows "entry_of fs (path_str (b @ [n])) = rbind (namei fs (path_str b)) (\<lambda>q. case dict_get fs q of
      None \<Rightarrow> Inl ENOENT | Some (Dir _) \<Rightarrow> Inr (q @ [n]) | Some _ \<Rightarrow> Inl ENOTDIR)"
  using path_str_not_slashes [OF assms]
  unfolding entry_of_def dirname_path_str [OF assms] basename_path_str [OF assms] by simp

lemma entry_dir:
  assumes "fs_wf fs" and "proper (b @ [n])" and "clean fs b" and "is_dir fs b"
  shows "entry_of fs (path_str (b @ [n])) = Inr (b @ [n])"
proof -
  obtain i where "dict_get fs b = Some (Dir i)" using assms(4) by (rule is_dirE)
  then show ?thesis using namei_present [OF assms(1) _ assms(3)] assms(2) by (simp add: entry_of_snoc)
qed

lemma entry_no_dir:
  assumes "fs_wf fs" and "proper (b @ [n])" and "clean fs b" and "\<not> is_dir fs b"
  shows "entry_of fs (path_str (b @ [n])) \<in> {Inl ENOENT, Inl ENOTDIR}"
  using namei_clean [OF assms(1) _ assms(3)] assms(2,4)
  by (auto simp: entry_of_snoc is_dir_def split: option.splits node.splits)

section \<open>realpath\<close>

text \<open>What \<open>seen\<close> records, and the cases of one name.\<close>

definition seen_ok :: "file_system \<Rightarrow> (names, names option) dict \<Rightarrow> bool" where
  "seen_ok fs seen \<longleftrightarrow> (\<forall>k v. dict_get seen k = Some (Some v) \<longrightarrow> proper v \<and> clean fs v)"

lemma seen_ok_set: "seen_ok fs seen \<Longrightarrow> (case v of None \<Rightarrow> True | Some q \<Rightarrow> proper q \<and> clean fs q) \<Longrightarrow> seen_ok fs (dict_set k v seen)"
  by (auto simp: seen_ok_def split: if_splits)

lemma joinrealpath_Cons:
  assumes "joinrealpath fuel fs path (n # rest) seen = Some (p, left, ok, seen')"
  obtains "n = [] \<or> n = ''.''" "joinrealpath fuel fs path rest seen = Some (p, left, ok, seen')"
  | "n = ''..''" "joinrealpath fuel fs (butlast path) rest seen = Some (p, left, ok, seen')"
  | "n \<notin> {[], ''.'', ''..''}" "\<not> is_link fs (path @ [n])" "joinrealpath fuel fs (path @ [n]) rest seen = Some (p, left, ok, seen')"
  | t q where "n \<notin> {[], ''.'', ''..''}" "dict_get fs (path @ [n]) = Some (Link t)" "dict_get seen (path @ [n]) = Some (Some q)"
      "joinrealpath fuel fs q rest seen = Some (p, left, ok, seen')"
  | t where "n \<notin> {[], ''.'', ''..''}" "dict_get fs (path @ [n]) = Some (Link t)" "dict_get seen (path @ [n]) = Some None"
      "p = path @ [n]" "left = rest" "\<not> ok" "seen' = seen"
  | t f q left1 seen1 where "n \<notin> {[], ''.'', ''..''}" "dict_get fs (path @ [n]) = Some (Link t)" "dict_get seen (path @ [n]) = None"
      "fuel = Suc f"
      "joinrealpath f fs (if path_isabs t then [] else path) (split_path t) (dict_set (path @ [n]) None seen) = Some (q, left1, False, seen1)"
      "p = q" "\<not> ok" "left = left1 @ rest" "seen' = seen1"
  | t f q left1 seen1 where "n \<notin> {[], ''.'', ''..''}" "dict_get fs (path @ [n]) = Some (Link t)" "dict_get seen (path @ [n]) = None"
      "fuel = Suc f"
      "joinrealpath f fs (if path_isabs t then [] else path) (split_path t) (dict_set (path @ [n]) None seen) = Some (q, left1, True, seen1)"
      "joinrealpath fuel fs q rest (dict_set (path @ [n]) (Some q) seen1) = Some (p, left, ok, seen')"
proof -
  have "is_link fs (path @ [n]) \<longleftrightarrow> (\<exists>t. dict_get fs (path @ [n]) = Some (Link t))"
    by (auto simp: is_link_def split: option.splits node.splits)
  then consider "n = [] \<or> n = ''.''" | "n = ''..''" | "n \<notin> {[], ''.'', ''..''}" "\<not> is_link fs (path @ [n])"
    | t where "n \<notin> {[], ''.'', ''..''}" "dict_get fs (path @ [n]) = Some (Link t)"
    by blast
  then show thesis
  proof cases
    case 1
    with assms that(1) show thesis by simp
  next
    case 2
    with assms that(2) show thesis by simp
  next
    case 3
    with assms have "joinrealpath fuel fs (path @ [n]) rest seen = Some (p, left, ok, seen')"
      by (auto simp: is_link_def Let_def split: option.splits node.splits)
    with 3 that(3) show thesis by simp
  next
    case (4 t)
    show thesis
    proof (cases "dict_get seen (path @ [n])")
      case None
      with assms 4 obtain f where f: "fuel = Suc f" by (cases fuel) (auto simp: Let_def)
      let ?in = "joinrealpath f fs (if path_isabs t then [] else path) (split_path t) (dict_set (path @ [n]) None seen)"
      obtain q left1 ok1 seen1 where r: "?in = Some (q, left1, ok1, seen1)"
        using assms 4 None f by (cases ?in) (auto simp: Let_def)
      with assms 4 None f that(6,7) show thesis by (cases ok1) (auto simp: Let_def)
    next
      case (Some v)
      with assms 4 that(4,5) show thesis by (cases v) (auto simp: Let_def)
    qed
  qed
qed

lemma joinrealpath_clean:
  assumes "fs_wf fs"
  shows "joinrealpath fuel fs path ns seen = Some (p, left, ok, seen') \<Longrightarrow>
    proper path \<Longrightarrow> clean fs path \<Longrightarrow> \<forall>n \<in> set ns. CHR ''/'' \<notin> set n \<Longrightarrow> seen_ok fs seen \<Longrightarrow>
    proper p \<and> (\<forall>n \<in> set left. CHR ''/'' \<notin> set n) \<and> (ok \<longrightarrow> clean fs p \<and> left = []) \<and> seen_ok fs seen'"
proof (induction fuel arbitrary: path ns seen p left ok seen' rule: less_induct)
  case (less fuel)
  note outer = less.IH
  from less.prems show ?case
  proof (induction ns arbitrary: path seen)
    case Nil
    then show ?case by simp
  next
    case (Cons n rest)
    have rest: "\<forall>m \<in> set rest. CHR ''/'' \<notin> set m" and n: "CHR ''/'' \<notin> set n" using Cons.prems(4) by simp_all
    show ?case using Cons.prems(1)
    proof (cases rule: joinrealpath_Cons)
      case 1
      with Cons.IH Cons.prems rest show ?thesis by blast
    next
      case 2
      with Cons.IH Cons.prems rest show ?thesis by (blast intro: proper_butlast clean_butlast)
    next
      case 3
      with Cons.prems n have "proper (path @ [n])" "clean fs (path @ [n])" by (simp_all add: clean_snoc)
      with 3 Cons.IH Cons.prems(5) rest show ?thesis by blast
    next
      case (4 t q)
      with Cons.prems(5) have "proper q" "clean fs q" by (simp_all add: seen_ok_def)
      with 4 Cons.IH Cons.prems(5) rest show ?thesis by blast
    next
      case (5 t)
      with Cons.prems n rest show ?thesis by simp
    next
      case (6 t f q left1 seen1)
      have "proper q \<and> (\<forall>n \<in> set left1. CHR ''/'' \<notin> set n) \<and> seen_ok fs seen1"
        using outer [OF _ 6(5)] 6(4) Cons.prems(2,3,5) clean_Nil [OF assms]
        by (simp add: seen_ok_set split_ch_parts)
      with 6 rest show ?thesis by auto
    next
      case (7 t f q left1 seen1)
      have "proper q \<and> clean fs q \<and> seen_ok fs seen1"
        using outer [OF _ 7(5)] 7(4) Cons.prems(2,3,5) clean_Nil [OF assms]
        by (simp add: seen_ok_set split_ch_parts)
      with Cons.IH [OF 7(6)] rest show ?thesis by (simp add: seen_ok_set)
    qed
  qed
qed

text \<open>The fuel is never used up: every link that is open is another one.\<close>

definition unseen :: "file_system \<Rightarrow> (names, names option) dict \<Rightarrow> names set" where
  "unseen fs seen = {k. is_link fs k \<and> dict_get seen k = None}"

lemma finite_links: "finite {k. is_link fs k}"
proof (rule finite_subset)
  show "{k. is_link fs k} \<subseteq> dom (map_of fs)" by (auto simp: is_link_def split: option.splits)
qed (rule finite_dom_map_of)

lemma finite_unseen: "finite (unseen fs seen)"
  by (rule finite_subset [OF _ finite_links [of fs]]) (auto simp: unseen_def)

lemma joinrealpath_fuel:
  "card (unseen fs seen) \<le> fuel \<Longrightarrow>
   \<exists>p left ok seen'. joinrealpath fuel fs path ns seen = Some (p, left, ok, seen') \<and> unseen fs seen' \<subseteq> unseen fs seen"
proof (induction fuel arbitrary: path ns seen rule: less_induct)
  case (less fuel)
  note outer = less.IH
  from less.prems show ?case
  proof (induction ns arbitrary: path seen)
    case Nil
    then show ?case by auto
  next
    case (Cons n rest)
    have go: "\<exists>p left ok seen'. joinrealpath fuel fs path' rest seen = Some (p, left, ok, seen') \<and> unseen fs seen' \<subseteq> unseen fs seen"
      for path' using Cons by blast
    show ?case
    proof (cases "n \<notin> {[], ''.'', ''..''} \<and> (\<exists>t. dict_get fs (path @ [n]) = Some (Link t)) \<and> dict_get seen (path @ [n]) = None")
      case False
      then show ?thesis using go by (auto simp: Let_def split: option.splits node.splits)
    next
      case True
      then obtain t where t: "dict_get fs (path @ [n]) = Some (Link t)" by blast
      let ?seen1 = "dict_set (path @ [n]) None seen"
      have in_u: "path @ [n] \<in> unseen fs seen" using True t by (simp add: unseen_def is_link_def)
      have smaller: "unseen fs ?seen1 = unseen fs seen - {path @ [n]}" by (auto simp: unseen_def)
      then have c: "card (unseen fs ?seen1) < card (unseen fs seen)"
        using in_u finite_unseen by (metis card_Diff1_less)
      then obtain f where f: "fuel = Suc f" "card (unseen fs ?seen1) \<le> f" using Cons.prems by (cases fuel) simp_all
      obtain q left1 ok1 seen2 where r:
        "joinrealpath f fs (if path_isabs t then [] else path) (split_path t) ?seen1 = Some (q, left1, ok1, seen2)"
        and sub: "unseen fs seen2 \<subseteq> unseen fs ?seen1"
        using outer [of f ?seen1 "if path_isabs t then [] else path" "split_path t"] f by blast
      have sub3: "unseen fs (dict_set (path @ [n]) (Some q) seen2) \<subseteq> unseen fs seen"
        using sub smaller by (auto simp: unseen_def)
      then have "card (unseen fs (dict_set (path @ [n]) (Some q) seen2)) \<le> fuel"
        using Cons.prems card_mono [OF finite_unseen] by (meson le_trans)
      then obtain p left ok seen' where
        "joinrealpath fuel fs q rest (dict_set (path @ [n]) (Some q) seen2) = Some (p, left, ok, seen')"
        "unseen fs seen' \<subseteq> unseen fs (dict_set (path @ [n]) (Some q) seen2)" using Cons.IH by blast
      then show ?thesis using True t f(1) r sub sub3 smaller by (cases ok1) (auto simp: Let_def)
    qed
  qed
qed

definition loop_free :: "file_system \<Rightarrow> string \<Rightarrow> bool" where
  "loop_free fs p \<longleftrightarrow> (case realpath_run fs p of Some (_, _, ok, _) \<Rightarrow> ok | None \<Rightarrow> False)"

lemma realpath_run_returns: "realpath_run fs p \<noteq> None"
proof -
  have "card (unseen fs []) \<le> card (dom (map_of fs))"
    by (rule card_mono [OF finite_dom_map_of]) (auto simp: unseen_def is_link_def split: option.splits)
  also have "\<dots> \<le> length fs" by (metis card_length dom_map_of_conv_image_fst length_map set_map)
  finally show ?thesis unfolding realpath_run_def using joinrealpath_fuel [of fs "[]" "length fs"] by fastforce
qed

lemma normalize_proper: "proper p \<Longrightarrow> \<forall>n \<in> set ns. CHR ''/'' \<notin> set n \<Longrightarrow> proper (normalize p ns)"
  by (induction p ns rule: normalize.induct) (auto simp: proper_butlast)

lemma realpath_proper:
  assumes "fs_wf fs"
  obtains q where "realpath fs p = path_str q" "proper q" "loop_free fs p \<longrightarrow> clean fs q"
proof -
  obtain q left ok seen where r: "realpath_run fs p = Some (q, left, ok, seen)"
    using realpath_run_returns [of fs p] by (cases "realpath_run fs p") auto
  then have "proper q \<and> (\<forall>n \<in> set left. CHR ''/'' \<notin> set n) \<and> (ok \<longrightarrow> clean fs q \<and> left = [])"
    using joinrealpath_clean [OF assms, of "length fs" "[]" "split_path p" "[]" q left ok seen] clean_Nil [OF assms]
    by (simp add: realpath_run_def seen_ok_def split_ch_parts)
  with r that [of "normalize q left"] show thesis by (auto simp: realpath_def loop_free_def normalize_proper)
qed

end
