(* ===== verification/Fs_Effects.thy ===== *)
theory Fs_Effects
  imports Fs_Local Fs_Paths
begin

text \<open>
  What the operations of the local driver do to the file system: where a resolved path leads, and which
  entries each call changes.
\<close>

section \<open>Calls on a path without links\<close>

lemma entry_clean:
  assumes "fs_wf fs" and "proper q" and "clean fs q" and "entry_of fs (path_str q) = Inr p"
  shows "p = q \<and> (q \<noteq> [] \<longrightarrow> is_dir fs (butlast q))"
proof (cases q rule: rev_cases)
  case Nil
  with assms(4) show ?thesis by (simp add: entry_of_def)
next
  case (snoc b n)
  then have b: "clean fs b" using assms(3) by (simp add: clean_snoc)
  show ?thesis
  proof (cases "is_dir fs b")
    case True
    have "entry_of fs (path_str (b @ [n])) = Inr (b @ [n])" using entry_dir [OF assms(1) _ b True, of n] assms(2) snoc by simp
    then have "p = b @ [n]" using assms(4) snoc by simp
    with snoc True show ?thesis by simp
  next
    case False
    have "entry_of fs (path_str (b @ [n])) \<in> {Inl ENOENT, Inl ENOTDIR}"
      using entry_no_dir [OF assms(1) _ b False, of n] assms(2) snoc by simp
    then show ?thesis using assms(4) snoc by simp
  qed
qed

lemma path_join_str:
  assumes "proper b" and "\<not> path_isabs x"
  shows "path_join (path_str b) x = path_str (b @ [x])"
proof (cases "b = []")
  case True
  with assms show ?thesis by (simp add: path_join_def path_str_root)
next
  case False
  have "path_str b \<noteq> []" by (simp add: path_str_root)
  with False assms path_str_last [OF assms(1) False] show ?thesis by (simp add: path_join_def path_str_snoc)
qed

lemma lstat_clean:
  assumes "fs_wf fs" and "proper q" and "clean fs q" and "sys_lstat fs (path_str q) = Inr x"
  shows "dict_get fs q = Some x"
  using assms(4) entry_clean [OF assms(1-3)] by (auto simp: sys_lstat_def rbind_Inr_iff split: option.splits)

lemma lstat_present:
  assumes "fs_wf fs" and "proper q" and "clean fs q" and "dict_get fs q = Some x"
  shows "sys_lstat fs (path_str q) = Inr x"
proof (cases q rule: rev_cases)
  case Nil
  with assms(4) show ?thesis by (simp add: sys_lstat_def entry_of_def)
next
  case (snoc b n)
  have d: "is_dir fs b" using assms(1,4) snoc by (force simp: fs_wf_def)
  show ?thesis using entry_dir [OF assms(1) _ _ d, of n] assms(2-4) snoc by (simp add: sys_lstat_def clean_snoc)
qed

lemma create_clean:
  assumes "fs_wf fs" and "proper (b @ [n])" and "clean fs b" and "sys_create mk (path_str (b @ [n])) fs = Inr fs'"
  shows "is_dir fs b \<and> dict_get fs (b @ [n]) = None \<and> fs' = dict_set (b @ [n]) (mk (dir_dev fs b)) fs"
proof (cases "is_dir fs b")
  case True
  then show ?thesis using assms(4) entry_dir [OF assms(1-3) True] by (auto simp: sys_create_def dict_in_def split: if_splits)
next
  case False
  then show ?thesis using assms(4) entry_no_dir [OF assms(1-3) False] by (auto simp: sys_create_def)
qed

section \<open>Changes that keep the file system well formed\<close>

lemma is_dir_set: "is_dir (dict_set k x fs) p \<longleftrightarrow> (if p = k then (\<exists>i. x = Dir i) else is_dir fs p)"
  by (auto simp: is_dir_def split: node.splits)

lemma is_dir_del: "is_dir (dict_del k fs) p \<longleftrightarrow> p \<noteq> k \<and> is_dir fs p"
  by (auto simp: is_dir_def)

lemma is_link_set: "is_link (dict_set k x fs) p \<longleftrightarrow> (if p = k then (\<exists>t. x = Link t) else is_link fs p)"
  by (auto simp: is_link_def split: node.splits)

lemma is_link_del: "is_link (dict_del k fs) p \<longleftrightarrow> p \<noteq> k \<and> is_link fs p"
  by (auto simp: is_link_def)

lemma fs_wf_set:
  assumes "fs_wf fs" and "proper (b @ [n])" and "is_dir fs b" and "\<not> is_dir fs (b @ [n]) \<or> (\<exists>i. x = Dir i)"
  shows "fs_wf (dict_set (b @ [n]) x fs)"
proof -
  have "is_dir (dict_set (b @ [n]) x fs) p" if "is_dir fs p" for p using that assms(4) by (auto simp: is_dir_set)
  with assms(1-3) show ?thesis by (auto simp: fs_wf_def split: if_splits)
qed

lemma fs_wf_del:
  assumes "fs_wf fs" and "p \<noteq> []" and "\<not> is_dir fs p \<or> \<not> has_entries fs p"
  shows "fs_wf (dict_del p fs)"
proof -
  have "butlast q \<noteq> p" if "dict_get fs q \<noteq> None" "q \<noteq> []" for q
  proof
    assume e: "butlast q = p"
    have "q \<in> set (dict_keys fs)" using that(1) dict_in_iff [of q fs] by (simp add: dict_in_def)
    then have "has_entries fs p" unfolding has_entries_def list_ex_iff using that(2) e by blast
    moreover have "is_dir fs p" using assms(1) that e by (auto simp: fs_wf_def)
    ultimately show False using assms(3) by blast
  qed
  with assms(1,2) show ?thesis by (auto simp: fs_wf_def is_dir_del split: if_splits)
qed

lemma clean_fewer_links: "clean fs p \<Longrightarrow> (\<And>q. is_link fs' q \<Longrightarrow> is_link fs q) \<Longrightarrow> clean fs' p"
  by (auto simp: clean_def)

section \<open>Where a path leads\<close>

definition live_scratch :: "fs_moment \<Rightarrow> local_fs \<Rightarrow> names \<Rightarrow> bool" where
  "live_scratch m s d \<longleftrightarrow>
     (\<exists>i. dict_get (lf_fs s) d = Some (Dir i) \<and> ino_uid i = fm_euid m \<and>
        dict_get (lf_scratch s) (path_str d) = Some (ino_dev i, ino_num i))"

definition authority :: "fs_moment \<Rightarrow> local_fs \<Rightarrow> names \<Rightarrow> bool" where
  "authority m s p \<longleftrightarrow>
     (\<exists>r. prefix r p \<and> proper r \<and> (path_str r = realpath (lf_fs s) (lf_root s) \<or> live_scratch m s r))"

lemma authority_below: "authority m s p \<Longrightarrow> prefix p q \<Longrightarrow> authority m s q"
  unfolding authority_def using prefix_order.trans by blast

lemma scratch_ancestor_prefix:
  "proper q \<Longrightarrow> scratch_ancestor scratch (path_str q) = Some d \<Longrightarrow> \<exists>a. d = path_str a \<and> prefix a q"
proof (induction q rule: rev_induct)
  case Nil
  then have "d = ''/''" by (subst (asm) scratch_ancestor.simps) (simp add: dirname_root split: if_splits)
  then show ?case by (intro exI [of _ "[]"]) simp
next
  case (snoc n q)
  show ?case
  proof (cases "dict_in (path_str (q @ [n])) scratch")
    case True
    then have "d = path_str (q @ [n])" using snoc.prems(2) by (subst (asm) scratch_ancestor.simps) simp
    then show ?thesis by blast
  next
    case False
    have "path_str q \<noteq> path_str (q @ [n])" using snoc.prems(1) path_str_inject [of q "q @ [n]"] by simp
    then have "scratch_ancestor scratch (path_str q) = Some d"
      using snoc.prems False
      by (subst (asm) scratch_ancestor.simps) (simp add: dirname_path_str [OF snoc.prems(1)])
    then show ?thesis using snoc.IH snoc.prems(1) by auto
  qed
qed

lemma fs_resolve_state: "fs_resolve m path s = (Inr full, s') \<Longrightarrow> s' = s"
  by (auto simp: fs_resolve_def scratch_alive_def Let_def split: if_splits option.splits sum.splits node.splits)

lemma fs_resolve_keeps: "snd (fs_resolve m path s) = s\<lparr>lf_scratch := lf_scratch (snd (fs_resolve m path s))\<rparr>"
  by (auto simp: fs_resolve_def scratch_alive_def Let_def split: option.splits sum.splits node.splits)

lemma fs_resolve_leads:
  assumes "fs_wf (lf_fs s)" and "loop_free (lf_fs s) path" and "fs_resolve m path s = (Inr full, s')"
  obtains q where "full = path_str q" "proper q" "clean (lf_fs s) q" "authority m s q"
    "realpath (lf_fs s) path = full"
proof -
  have full: "realpath (lf_fs s) path = full" using assms(3)
    by (auto simp: fs_resolve_def Let_def split: if_splits option.splits prod.splits bool.splits)
  obtain q where q: "full = path_str q" "proper q" "clean (lf_fs s) q"
    using realpath_proper [OF assms(1), of path] assms(2) full by metis
  obtain r where r: "realpath (lf_fs s) (lf_root s) = path_str r" "proper r" using realpath_proper [OF assms(1)] by metis
  have "authority m s q"
  proof (cases "full = path_str r \<or> prefix (path_str r @ ''/'') full")
    case True
    then have "prefix r q"
      using q r prefix_path_str [OF r(2) q(2)] path_str_inject [OF q(2) r(2)] by (auto simp: strict_prefix_def)
    with r show ?thesis by (auto simp: authority_def)
  next
    case False
    then obtain d where d: "scratch_ancestor (lf_scratch s) full = Some d" "fst (scratch_alive m d s)"
      using assms(3) full r(1) by (auto simp: fs_resolve_def Let_def split: option.splits prod.splits bool.splits)
    then obtain a where a: "d = path_str a" "prefix a q" using scratch_ancestor_prefix q by blast
    have pa: "proper a" using a(2) q(2) by (auto simp: prefix_def)
    have ca: "clean (lf_fs s) a" using q(3) a(2) by (rule clean_prefix)
    obtain i where i: "sys_lstat (lf_fs s) d = Inr (Dir i)" "ino_uid i = fm_euid m"
      "dict_get (lf_scratch s) d = Some (ino_dev i, ino_num i)"
      using d(2) by (auto simp: scratch_alive_def split: option.splits sum.splits node.splits if_splits)
    then have "live_scratch m s a" using lstat_clean [OF assms(1) pa ca] a(1) by (auto simp: live_scratch_def)
    with a(2) pa show ?thesis by (auto simp: authority_def)
  qed
  with q full that show thesis by blast
qed

section \<open>Replacing a file\<close>

definition temp_name :: "string \<Rightarrow> string" where
  "temp_name t = ''.jetty-tmp-'' @ t"

definition hex_tokens :: "fs_moment \<Rightarrow> bool" where
  "hex_tokens m \<longleftrightarrow> list_all (\<lambda>t. CHR ''/'' \<notin> set t) (fm_tokens m)"

lemma proper_temp: "CHR ''/'' \<notin> set t \<Longrightarrow> proper b \<Longrightarrow> proper (b @ [temp_name t])"
  by (simp add: temp_name_def)

definition fresh_inode :: "fs_moment \<Rightarrow> int \<Rightarrow> int \<Rightarrow> inode" where
  "fresh_inode m mode dev =
     \<lparr>ino_dev = dev, ino_num = fm_ino m, ino_uid = fm_euid m, ino_mode = mode AND NOT (fm_umask m), ino_size = 0, ino_mtime = fm_now m\<rparr>"

lemma open_temp_effect:
  assumes "fs_wf fs" and "proper b" and "clean fs b"
  shows "list_all (\<lambda>t. CHR ''/'' \<notin> set t) ts \<Longrightarrow> open_temp m (path_str b) mode ts fs = Inr (tmp, fs1) \<Longrightarrow>
    \<exists>t. CHR ''/'' \<notin> set t \<and> tmp = path_str (b @ [temp_name t]) \<and> is_dir fs b \<and> dict_get fs (b @ [temp_name t]) = None \<and>
      fs1 = dict_set (b @ [temp_name t]) (Reg (fresh_inode m mode (dir_dev fs b)) []) fs"
proof (induction ts)
  case (Cons t ts)
  let ?mk = "\<lambda>dev. Reg \<lparr>ino_dev = dev, ino_num = fm_ino m, ino_uid = fm_euid m,
    ino_mode = mode AND NOT (fm_umask m), ino_size = 0, ino_mtime = fm_now m\<rparr> []"
  have j: "path_join (path_str b) (''.jetty-tmp-'' @ t) = path_str (b @ [temp_name t])"
    using path_join_str [OF assms(2)] by (simp add: path_isabs_def temp_name_def)
  let ?made = "case no_create (fm_refused m) of None \<Rightarrow> sys_create ?mk (path_str (b @ [temp_name t])) fs | Some e \<Rightarrow> Inl e"
  have step: "open_temp m (path_str b) mode (t # ts) fs =
      (case ?made of Inr fs' \<Rightarrow> Inr (path_str (b @ [temp_name t]), fs')
       | Inl e \<Rightarrow> if e = EEXIST then open_temp m (path_str b) mode ts fs else Inl (Some e))"
    unfolding open_temp.simps Let_def j by (auto split: sum.splits errno.splits)
  show ?case
  proof (cases "case no_create (fm_refused m) of None \<Rightarrow> sys_create ?mk (path_str (b @ [temp_name t])) fs | Some e \<Rightarrow> Inl e")
    case (Inl e)
    with Cons show ?thesis by (simp add: step del: open_temp.simps split: if_splits)
  next
    case (Inr fs')
    then have c: "sys_create ?mk (path_str (b @ [temp_name t])) fs = Inr fs'" by (auto split: option.splits)
    have "proper (b @ [temp_name t])" using Cons.prems(1) assms(2) by (simp add: temp_name_def)
    note made = create_clean [OF assms(1) this assms(3) c]
    moreover have "tmp = path_str (b @ [temp_name t])" "fs1 = fs'" using Cons.prems(2) Inr by (simp_all add: step del: open_temp.simps)
    ultimately show ?thesis using Cons.prems(1) by (intro exI [of _ t]) (simp add: fresh_inode_def)
  qed
qed simp

lemma put_node_effect:
  assumes "fs_wf fs" and "proper (b @ [x])" and "clean fs b" and "dict_get fs (b @ [x]) = Some (Reg i c0)"
  shows "put_node f c (path_str (b @ [x])) fs = dict_set (b @ [x]) (Reg (f i) c) fs"
proof -
  have "is_dir fs b" using assms(1,4) by (force simp: fs_wf_def)
  then show ?thesis using entry_dir [OF assms(1-3)] assms(4) by (simp add: put_node_def)
qed

lemma rename_effect:
  assumes "fs_wf fs" and "proper p" and "clean fs p" and "proper q" and "clean fs q"
    and "sys_rename (path_str p) (path_str q) fs = Inr fs'"
  shows "\<exists>x. dict_get fs p = Some x \<and> \<not> is_dir fs p \<and> \<not> is_dir fs q \<and> p \<noteq> [] \<and> q \<noteq> [] \<and> is_dir fs (butlast q) \<and>
    fs' = (if p = q then fs else dict_set q x (dict_del p fs))"
proof -
  from assms(6) obtain p' q' where e: "entry_of fs (path_str p) = Inr p'" "entry_of fs (path_str q) = Inr q'"
    by (auto simp: sys_rename_def rbind_Inr_iff)
  then have eq: "p' = p" "q' = q" "q \<noteq> [] \<longrightarrow> is_dir fs (butlast q)"
    using entry_clean [OF assms(1-3)] entry_clean [OF assms(1,4,5)] by simp_all
  have r: "is_dir fs []" using assms(1) by (rule fs_wf_root)
  obtain x where x: "dict_get fs p = Some x" "\<And>i. x \<noteq> Dir i" "\<not> is_dir fs q" "fs' = (if p = q then fs else dict_set q x (dict_del p fs))"
    using assms(6) e eq(1,2) by (auto simp: sys_rename_def split: option.splits node.splits if_splits)
  then have "\<not> is_dir fs p" by (simp add: is_dir_def split: node.splits)
  moreover from this x r have "p \<noteq> []" "q \<noteq> []" by auto
  ultimately show ?thesis using x eq(3) by blast
qed

text \<open>Both outcomes of writing the temporary file and moving it into place, entry by entry.\<close>

lemma fill_temp_effect:
  assumes wf: "fs_wf fs" and q: "proper q" "clean fs q" and k: "proper (b @ [x])" "clean fs (b @ [x])"
    and j: "dict_get fs (b @ [x]) = Some (Reg j [])"
    and r: "fill_temp m (path_str (b @ [x])) (path_str q) c old fs = (r, fs')"
  shows "case r of
      Inr _ \<Rightarrow> \<exists>i. ino_mode i = (case old of None \<Rightarrow> ino_mode j | Some (i0, _) \<Rightarrow> ino_mode i0) \<and> q \<noteq> [] \<and> is_dir fs (butlast q) \<and>
        \<not> is_dir fs q \<and> (\<forall>p. dict_get fs' p = (if p = q then Some (Reg i c) else if p = b @ [x] then None else dict_get fs p))
    | Inl _ \<Rightarrow> fs_wf fs' \<and> clean fs' (b @ [x]) \<and> (\<exists>i c'. dict_get fs' (b @ [x]) = Some (Reg i c')) \<and>
        (\<forall>p. p \<noteq> b @ [x] \<longrightarrow> dict_get fs' p = dict_get fs p)"
proof (cases "no_write (fm_refused m)")
  case (Some e)
  with r wf k j show ?thesis by (auto simp: fill_temp_def)
next
  case None
  let ?k = "b @ [x]"
  let ?fs1 = "dict_set ?k (Reg j c) fs"
  have b: "clean fs b" "proper b" using k by (simp_all add: clean_snoc)
  have bd: "is_dir fs b" using wf j unfolding fs_wf_def by (metis append_is_Nil_conv butlast_snoc list.distinct(1) option.distinct(1))
  have nd: "\<not> is_dir fs ?k" using j by (simp add: is_dir_def)
  have links: "is_link (dict_set ?k (Reg i c) fs) p \<Longrightarrow> is_link fs p" for i p by (auto simp: is_link_set split: if_splits)
  have put1: "put_node id c (path_str ?k) fs = ?fs1" using put_node_effect [OF wf k(1) b(1) j] by simp
  have wf1: "fs_wf ?fs1" by (rule fs_wf_set [OF wf k(1) bd]) (simp add: nd)
  have c1: "clean ?fs1 p" if "clean fs p" for p using that links by (rule clean_fewer_links)
  show ?thesis
  proof (cases "if old = None then None else no_chmod (fm_refused m)")
    case (Some e)
    then have "r = Inl e" "fs' = ?fs1" using r None put1 by (auto simp: fill_temp_def Let_def)
    with wf1 c1 k(2) show ?thesis by auto
  next
    case chmod: None
    define i where "i = (case old of None \<Rightarrow> j | Some (i0, _) \<Rightarrow> j\<lparr>ino_mode := ino_mode i0\<rparr>)"
    define fs2 where "fs2 = dict_set ?k (Reg i c) fs"
    have "put_node f c (path_str ?k) ?fs1 = dict_set ?k (Reg (f j) c) fs" for f
      using put_node_effect [OF wf1 k(1) c1 [OF b(1)], of j c f] by simp
    then have two: "(case old of None \<Rightarrow> ?fs1 | Some (i0, _) \<Rightarrow> put_node (\<lambda>j. j\<lparr>ino_mode := ino_mode i0\<rparr>) c (path_str ?k) ?fs1) = fs2"
      by (simp add: fs2_def i_def split: option.splits prod.splits)
    have wf2: "fs_wf fs2" unfolding fs2_def by (rule fs_wf_set [OF wf k(1) bd]) (simp add: nd)
    have c2: "clean fs2 p" if "clean fs p" for p unfolding fs2_def using that links by (rule clean_fewer_links)
    have res: "(r, fs') = (case (case no_rename (fm_refused m) of None \<Rightarrow> sys_rename (path_str ?k) (path_str q) fs2 | Some e \<Rightarrow> Inl e) of
        Inl e \<Rightarrow> (Inl e, fs2) | Inr fs3 \<Rightarrow> (Inr (), fs3))"
      using r unfolding fill_temp_def Let_def put1 two by (simp add: None chmod)
    show ?thesis
    proof (cases r)
      case (Inl e)
      then have "fs' = fs2" using res by (auto split: option.splits sum.splits)
      with Inl wf2 c2 k(2) show ?thesis by (auto simp: fs2_def)
    next
      case (Inr u)
      then have "sys_rename (path_str ?k) (path_str q) fs2 = Inr fs'" using res by (auto split: option.splits sum.splits)
      from rename_effect [OF wf2 k(1) c2 [OF k(2)] q(1) c2 [OF q(2)] this]
      have e: "\<not> is_dir fs2 q" "q \<noteq> []" "is_dir fs2 (butlast q)"
        "fs' = (if ?k = q then fs2 else dict_set q (Reg i c) (dict_del ?k fs2))" by (auto simp: fs2_def)
      have m: "ino_mode i = (case old of None \<Rightarrow> ino_mode j | Some (i0, _) \<Rightarrow> ino_mode i0)"
        by (simp add: i_def split: option.splits prod.splits)
      show ?thesis using Inr e m nd by (auto simp: fs2_def is_dir_set split: if_splits intro!: exI [of _ i])
    qed
  qed
qed

lemma stat_regular_clean:
  assumes "fs_wf fs" and "proper q" and "clean fs q" and "stat_regular e fs (path_str q) path = Inr old"
  shows "(\<forall>i c. old = Some (i, c) \<longrightarrow> dict_get fs q = Some (Reg i c)) \<and> (old = None \<longrightarrow> e = Some ENOENT \<or> dict_get fs q = None)"
  using assms(4) sys_stat_clean [OF assms(1-3)]
  by (auto simp: stat_regular_def split: option.splits sum.splits node.splits errno.splits)

lemma unlink_clean:
  assumes "fs_wf fs" and "proper q" and "clean fs q" and "dict_get fs q = Some (Reg i c)"
  shows "sys_unlink (path_str q) fs = Inr (dict_del q fs)"
proof (cases q rule: rev_cases)
  case Nil
  then show ?thesis using assms(1,4) by (auto simp: fs_wf_def is_dir_def)
next
  case (snoc b n)
  have d: "is_dir fs b" using assms(1,4) snoc by (force simp: fs_wf_def)
  show ?thesis using entry_dir [OF assms(1) _ _ d, of n] assms(2-4) snoc by (simp add: sys_unlink_def clean_snoc)
qed

text \<open>
  A replacement either puts a new file in place of the old one and touches nothing else, or leaves every
  entry as it was, the temporary file apart when even its removal is refused.
\<close>

definition replaced :: "fs_moment \<Rightarrow> names \<Rightarrow> string \<Rightarrow> int \<Rightarrow> local_fs \<Rightarrow> write_result \<Rightarrow> local_fs \<Rightarrow> bool" where
  "replaced m q c mode s w s' \<longleftrightarrow>
     q \<noteq> [] \<and> is_dir (lf_fs s) (butlast q) \<and> \<not> is_dir (lf_fs s) q \<and> wr_size w = length c \<and>
     (wr_created w \<longleftrightarrow> dict_get (lf_fs s) q = None) \<and>
     (\<exists>i. ino_mode i = (case dict_get (lf_fs s) q of Some (Reg i0 _) \<Rightarrow> ino_mode i0 | _ \<Rightarrow> mode AND NOT (fm_umask m)) \<and>
        (\<forall>p. dict_get (lf_fs s') p = (if p = q then Some (Reg i c) else dict_get (lf_fs s) p)))"

definition untouched :: "fs_moment \<Rightarrow> names \<Rightarrow> local_fs \<Rightarrow> local_fs \<Rightarrow> bool" where
  "untouched m q s s' \<longleftrightarrow>
     (\<forall>p. dict_get (lf_fs s') p = dict_get (lf_fs s) p \<or>
       (no_cleanup (fm_refused m) \<noteq> None \<and> q \<noteq> [] \<and> \<not> is_dir (lf_fs s) q \<and> is_dir (lf_fs s) (butlast q) \<and> dict_get (lf_fs s) p = None \<and>
        (\<exists>t i c. CHR ''/'' \<notin> set t \<and> p = butlast q @ [temp_name t] \<and> dict_get (lf_fs s') p = Some (Reg i c))))"

lemma fs_replace_effect:
  assumes wf: "fs_wf (lf_fs s)" and q: "proper q" "clean (lf_fs s) q" and hex: "hex_tokens m"
    and honest: "no_stat_dst (fm_refused m) \<noteq> Some ENOENT" and r: "fs_replace m (path_str q) path c mode s = (r, s')"
  shows "s' = s\<lparr>lf_fs := lf_fs s'\<rparr> \<and> (case r of Inr w \<Rightarrow> replaced m q c mode s w s' | Inl _ \<Rightarrow> untouched m q s s')"
proof (cases "stat_regular (no_stat_dst (fm_refused m)) (lf_fs s) (path_str q) path")
  case (Inl e)
  with r show ?thesis by (auto simp: fs_replace_def untouched_def)
next
  case (Inr old)
  have old: "\<And>i c. old = Some (i, c) \<Longrightarrow> dict_get (lf_fs s) q = Some (Reg i c)" "old = None \<Longrightarrow> dict_get (lf_fs s) q = None"
    using stat_regular_clean [OF wf q Inr] honest by auto
  have nd: "\<not> is_dir (lf_fs s) q" using old by (cases old) (auto simp: is_dir_def)
  from old obtain b n where bn: "q = b @ [n]" using wf by (cases q rule: rev_cases; cases old) (auto simp: fs_wf_def is_dir_def)
  let ?mode = "if old = None then mode else 384"
  have b: "proper b" "clean (lf_fs s) b" using q bn by (simp_all add: clean_snoc)
  have dn: "file_dirname (path_str q) = path_str b" using dirname_path_str q(1) bn by simp
  show ?thesis
  proof (cases "open_temp m (path_str b) ?mode (fm_tokens m) (lf_fs s)")
    case (Inl e)
    with r Inr dn show ?thesis by (auto simp: fs_replace_def untouched_def split: option.splits)
  next
    case made: (Inr a)
    obtain tmp fs1 where a: "a = (tmp, fs1)" by fastforce
    from open_temp_effect [OF wf b _ made [unfolded a]] hex obtain t where t: "CHR ''/'' \<notin> set t"
      "tmp = path_str (b @ [temp_name t])" "is_dir (lf_fs s) b" "dict_get (lf_fs s) (b @ [temp_name t]) = None"
      "fs1 = dict_set (b @ [temp_name t]) (Reg (fresh_inode m ?mode (dir_dev (lf_fs s) b)) []) (lf_fs s)"
      by (auto simp: hex_tokens_def)
    let ?k = "b @ [temp_name t]"
    have k: "proper ?k" using t(1) b(1) by (rule proper_temp)
    have wf1: "fs_wf fs1" unfolding t(5) by (rule fs_wf_set [OF wf k t(3)]) (simp add: t(4) is_dir_def)
    have links: "is_link fs1 p \<Longrightarrow> is_link (lf_fs s) p" for p by (auto simp: t(5) is_link_set split: if_splits)
    have c1: "clean fs1 p" if "clean (lf_fs s) p" for p using that links by (rule clean_fewer_links)
    have ck: "clean fs1 ?k" using c1 [OF b(2)] by (simp add: clean_snoc t(5) is_link_def)
    obtain rr fs2 where f: "fill_temp m tmp (path_str q) c old fs1 = (rr, fs2)" by fastforce
    note eff = fill_temp_effect [OF wf1 q(1) c1 [OF q(2)] k ck _ f [unfolded t(2)]]
    show ?thesis
    proof (cases rr)
      case ok: (Inr u)
      have "is_dir fs1 q \<longleftrightarrow> is_dir (lf_fs s) q" using t(4) by (auto simp: t(5) is_dir_set is_dir_def [of "lf_fs s"])
      with eff ok t(5) obtain i where i: "ino_mode i = (case old of None \<Rightarrow> ?mode AND NOT (fm_umask m) | Some (i0, _) \<Rightarrow> ino_mode i0)"
        "\<not> is_dir (lf_fs s) q"
        "\<forall>p. dict_get fs2 p = (if p = q then Some (Reg i c) else if p = ?k then None else dict_get fs1 p)"
        by (auto simp: fresh_inode_def split: option.splits prod.splits)
      have "r = Inr \<lparr>wr_size = length c, wr_created = (old = None)\<rparr>" "s' = s\<lparr>lf_fs := fs2\<rparr>"
        using r by (simp_all add: fs_replace_def dn Inr made a f ok del: open_temp.simps)
      moreover have "\<forall>p. dict_get fs2 p = (if p = q then Some (Reg i c) else dict_get (lf_fs s) p)" using i(3) t(4,5) by auto
      moreover have "old = None \<longleftrightarrow> dict_get (lf_fs s) q = None" using old by (cases old) auto
      ultimately show ?thesis using i(1,2) t(3) bn old
        by (cases old) (auto simp: replaced_def split: option.splits node.splits intro!: exI [of _ i])
    next
      case bad: (Inl e)
      with eff t(5) have fs2: "fs_wf fs2" "clean fs2 ?k" "\<exists>i c'. dict_get fs2 ?k = Some (Reg i c')"
        "\<forall>p. p \<noteq> ?k \<longrightarrow> dict_get fs2 p = dict_get (lf_fs s) p" by auto
      then have un: "sys_unlink tmp fs2 = Inr (dict_del ?k fs2)" using unlink_clean k t(2) by blast
      have "r = Inl (fs_translate e path)" "s' = s\<lparr>lf_fs := (case no_cleanup (fm_refused m) of None \<Rightarrow> dict_del ?k fs2 | Some _ \<Rightarrow> fs2)\<rparr>"
        using r by (simp_all add: fs_replace_def dn Inr made a f bad un del: open_temp.simps split: option.splits)
      note res = this
      have "dict_get (lf_fs s') p = dict_get (lf_fs s) p \<or> (no_cleanup (fm_refused m) \<noteq> None \<and> p = ?k \<and> dict_get (lf_fs s') p = dict_get fs2 p)" for p
        using res(2) fs2(4) t(4) by (cases "no_cleanup (fm_refused m)"; cases "p = ?k") simp_all
      with fs2(3) t(1,3,4) nd have "untouched m q s s'" unfolding untouched_def bn by fastforce
      with res show ?thesis by simp
    qed
  qed
qed

end
