(* ===== verification/Fs_Service.thy ===== *)
theory Fs_Service
  imports Fs_Effects
begin

text \<open>
  Properties of the local driver: what a request can reach, that writes are atomic and read back, and a
  loop of links that opens a way out of the root.
\<close>

section \<open>realpath depends on the links only\<close>

definition link_target :: "file_system \<Rightarrow> names \<Rightarrow> string option" where
  "link_target fs p = (case dict_get fs p of Some (Link t) \<Rightarrow> Some t | _ \<Rightarrow> None)"

lemma joinrealpath_step:
  "joinrealpath fuel fs path (n # rest) seen =
     (if n = [] \<or> n = ''.'' then joinrealpath fuel fs path rest seen
      else if n = ''..'' then joinrealpath fuel fs (butlast path) rest seen
      else case link_target fs (path @ [n]) of
        None \<Rightarrow> joinrealpath fuel fs (path @ [n]) rest seen
      | Some t \<Rightarrow>
          (case dict_get seen (path @ [n]) of
             Some (Some p) \<Rightarrow> joinrealpath fuel fs p rest seen
           | Some None \<Rightarrow> Some (path @ [n], rest, False, seen)
           | None \<Rightarrow>
               (case fuel of
                  0 \<Rightarrow> None
                | Suc f \<Rightarrow>
                    (case joinrealpath f fs (if path_isabs t then [] else path) (split_path t) (dict_set (path @ [n]) None seen) of
                       None \<Rightarrow> None
                     | Some (p, left, ok, seen2) \<Rightarrow>
                         if \<not> ok then Some (p, left @ rest, False, seen2)
                         else joinrealpath fuel fs p rest (dict_set (path @ [n]) (Some p) seen2)))))"
  by (simp add: Let_def link_target_def split: option.splits node.splits)

lemma joinrealpath_links:
  assumes "link_target fs = link_target fs'"
  shows "joinrealpath fuel fs path ns seen = joinrealpath fuel fs' path ns seen"
proof (induction fuel arbitrary: path ns seen rule: less_induct)
  case (less fuel)
  note outer = less.IH
  show ?case
  proof (induction ns arbitrary: path seen)
    case (Cons n rest)
    show ?case unfolding joinrealpath_step assms
      using Cons.IH outer by (auto split: option.splits nat.splits)
  qed simp
qed

lemma joinrealpath_more_fuel:
  "joinrealpath fuel fs path ns seen = Some r \<Longrightarrow> fuel \<le> fuel' \<Longrightarrow> joinrealpath fuel' fs path ns seen = Some r"
proof (induction fuel arbitrary: fuel' path ns seen r rule: less_induct)
  case (less fuel)
  note outer = less.IH and le = less.prems(2)
  from less.prems(1) show ?case
  proof (induction ns arbitrary: path seen r)
    case (Cons n rest)
    obtain p left ok seen' where r: "r = (p, left, ok, seen')" by (cases r) auto
    from Cons.prems [unfolded r] show ?case
    proof (cases rule: joinrealpath_Cons)
      case (6 t f q left1 seen1)
      then obtain f' where f': "fuel' = Suc f'" "f \<le> f'" using le by (cases fuel') simp_all
      have "joinrealpath f' fs (if path_isabs t then [] else path) (split_path t) (dict_set (path @ [n]) None seen) = Some (q, left1, False, seen1)"
        using outer [OF _ 6(5) f'(2)] 6(4) by simp
      with 6 f'(1) show ?thesis by (simp add: r Let_def)
    next
      case (7 t f q left1 seen1)
      then obtain f' where f': "fuel' = Suc f'" "f \<le> f'" using le by (cases fuel') simp_all
      have "joinrealpath f' fs (if path_isabs t then [] else path) (split_path t) (dict_set (path @ [n]) None seen) = Some (q, left1, True, seen1)"
        using outer [OF _ 7(5) f'(2)] 7(4) by simp
      moreover have "joinrealpath fuel' fs q rest (dict_set (path @ [n]) (Some q) seen1) = Some r" using Cons.IH [OF 7(6)] r by simp
      ultimately show ?thesis using 7(1-3) f'(1) by (simp add: Let_def)
    next
      case 3
      then have "joinrealpath fuel' fs (path @ [n]) rest seen = Some r" using Cons.IH r by simp
      with 3 show ?thesis by (auto simp: is_link_def Let_def split: option.splits node.splits)
    next
      case (5 t)
      then show ?thesis by (simp add: r Let_def)
    qed (use Cons.IH r in \<open>auto simp: Let_def\<close>)
  qed simp
qed

lemma realpath_run_links:
  assumes "link_target fs = link_target fs'"
  shows "realpath_run fs p = realpath_run fs' p"
proof -
  let ?n = "max (length fs) (length fs')"
  have run: "joinrealpath ?n gs [] (split_path p) [] = realpath_run gs p" if "length gs \<le> ?n" for gs
  proof -
    obtain r where r: "realpath_run gs p = Some r" using realpath_run_returns [of gs p] by auto
    then show ?thesis using joinrealpath_more_fuel [OF r [unfolded realpath_run_def] that] by simp
  qed
  show ?thesis using run [of fs] run [of fs'] joinrealpath_links [OF assms, of ?n "[]" "split_path p" "[]"] by simp
qed

lemma realpath_links: "link_target fs = link_target fs' \<Longrightarrow> realpath fs p = realpath fs' p"
  unfolding realpath_def by (drule realpath_run_links [of _ _ p]) simp

section \<open>Resolving again\<close>

lemma fs_wf_cong: "(\<And>p. dict_get fs' p = dict_get fs p) \<Longrightarrow> fs_wf fs' = fs_wf fs"
  by (simp add: fs_wf_def is_dir_def)

lemma resolve_again:
  assumes "fs_wf (lf_fs s)" and "loop_free (lf_fs s) path" and "fs_resolve m path s = (Inr full, s)"
    and "fs_wf (lf_fs s')" and "link_target (lf_fs s') = link_target (lf_fs s)"
    and "lf_root s' = lf_root s" and "lf_scratch s' = lf_scratch s"
    and "\<And>p i. dict_get (lf_fs s) p = Some (Dir i) \<Longrightarrow> dict_get (lf_fs s') p = Some (Dir i)"
    and "no_lstat (fm_refused m') = None" and "fm_euid m' = fm_euid m"
  shows "fs_resolve m' path s' = (Inr full, s')"
proof -
  obtain q where q: "full = path_str q" "proper q" "clean (lf_fs s) q" "realpath (lf_fs s) path = full"
    using fs_resolve_leads [OF assms(1-3)] by metis
  have rp: "realpath (lf_fs s') p = realpath (lf_fs s) p" for p using assms(5) by (rule realpath_links)
  let ?base = "realpath (lf_fs s) (lf_root s)"
  show ?thesis
  proof (cases "full = ?base \<or> prefix (?base @ ''/'') full")
    case True
    then show ?thesis using q(4) by (simp add: fs_resolve_def Let_def rp assms(6))
  next
    case False
    then obtain d where d: "scratch_ancestor (lf_scratch s) full = Some d" "fst (scratch_alive m d s)"
      using assms(3) q(4) by (auto simp: fs_resolve_def Let_def split: option.splits prod.splits bool.splits)
    then obtain a where a: "d = path_str a" "prefix a q" using scratch_ancestor_prefix q by blast
    have pa: "proper a" using a(2) q(2) by (auto simp: prefix_def)
    have ca: "clean (lf_fs s) a" using q(3) a(2) by (rule clean_prefix)
    obtain i where i: "sys_lstat (lf_fs s) d = Inr (Dir i)" "ino_uid i = fm_euid m"
      "dict_get (lf_scratch s) d = Some (ino_dev i, ino_num i)"
      using d(2) by (auto simp: scratch_alive_def split: option.splits sum.splits node.splits if_splits)
    have "dict_get (lf_fs s') a = Some (Dir i)" using assms(8) lstat_clean [OF assms(1) pa ca] i(1) a(1) by simp
    moreover have "clean (lf_fs s') a"
    proof (rule clean_fewer_links [OF ca])
      fix p
      assume "is_link (lf_fs s') p"
      then have "link_target (lf_fs s') p \<noteq> None" by (auto simp: is_link_def link_target_def split: option.splits node.splits)
      then show "is_link (lf_fs s) p" unfolding assms(5) by (auto simp: is_link_def link_target_def split: option.splits node.splits)
    qed
    ultimately have "sys_lstat (lf_fs s') d = Inr (Dir i)" using lstat_present [OF assms(4) pa] a(1) by simp
    then have "scratch_alive m' d s' = (True, s')" using i(2,3) assms(7,9,10) by (simp add: scratch_alive_def)
    then show ?thesis using False q(4) d(1) by (simp add: fs_resolve_def Let_def rp assms(6,7))
  qed
qed

lemma replaced_frame:
  assumes "fs_wf (lf_fs s)" and "proper q" and "clean (lf_fs s) q" and "replaced m q c mode s w s'"
  shows "fs_wf (lf_fs s')" and "link_target (lf_fs s') = link_target (lf_fs s)"
    and "dict_get (lf_fs s) p = Some (Dir i) \<Longrightarrow> dict_get (lf_fs s') p = Some (Dir i)"
proof -
  obtain j where j: "\<And>p. dict_get (lf_fs s') p = (if p = q then Some (Reg j c) else dict_get (lf_fs s) p)"
    using assms(4) by (auto simp: replaced_def)
  obtain b n where q: "q = b @ [n]" using assms(4) by (cases q rule: rev_cases) (auto simp: replaced_def)
  have "fs_wf (dict_set (b @ [n]) (Reg j c) (lf_fs s))"
    by (rule fs_wf_set) (use assms q in \<open>auto simp: replaced_def\<close>)
  moreover have "dict_get (lf_fs s') p = dict_get (dict_set (b @ [n]) (Reg j c) (lf_fs s)) p" for p by (simp add: j q)
  ultimately show "fs_wf (lf_fs s')" using fs_wf_cong by blast
  have "\<not> is_link (lf_fs s) q" using assms(3) by (auto simp: clean_def)
  then show "link_target (lf_fs s') = link_target (lf_fs s)"
    by (auto simp: link_target_def is_link_def j split: option.splits node.splits)
  show "dict_get (lf_fs s) p = Some (Dir i) \<Longrightarrow> dict_get (lf_fs s') p = Some (Dir i)"
    using assms(4) by (auto simp: j replaced_def is_dir_def)
qed

section \<open>Writes\<close>

definition unrefused :: "fs_moment \<Rightarrow> bool" where
  "unrefused m \<longleftrightarrow> no_lstat (fm_refused m) = None \<and> no_stat (fm_refused m) = None \<and> no_open (fm_refused m) = None"

lemma read_present:
  assumes "fs_wf (lf_fs s)" and "proper q" and "clean (lf_fs s) q" and "dict_get (lf_fs s) q = Some (Reg i c)"
    and "fs_resolve m path s = (Inr (path_str q), s)" and "unrefused m"
  shows "fs_read m path s = (Inr c, s)"
proof -
  have "sys_stat (lf_fs s) (path_str q) = Inr (Reg i c)" using sys_stat_clean [OF assms(1-3)] assms(4) by simp
  then show ?thesis
    using assms(5,6) by (simp add: fs_read_def sbind_unfold unrefused_def require_regular_def stat_regular_def sys_read_def)
qed

text \<open>
  C6: a write is atomic. When it succeeds, the file the path leads to has the new content, the bits of the
  file it replaced (or those of a new file), the answer says whether there was one, nothing else changed,
  and a read of the same path returns the content. When it fails, no entry changed.
\<close>

theorem write_atomic:
  assumes "fs_wf (lf_fs s)" and "loop_free (lf_fs s) path" and "hex_tokens m"
    and "no_stat_dst (fm_refused m) \<noteq> Some ENOENT" and "no_cleanup (fm_refused m) = None"
    and "fs_write m path c s = (r, s')"
  shows "case r of
      Inl e \<Rightarrow> \<forall>p. dict_get (lf_fs s') p = dict_get (lf_fs s) p
    | Inr w \<Rightarrow> \<exists>q. authority m s q \<and> replaced m q c 438 s w s' \<and>
        (\<forall>m'. unrefused m' \<and> fm_euid m' = fm_euid m \<longrightarrow> fs_read m' path s' = (Inr c, s'))"
proof (cases "fs_resolve m path s")
  case (Pair rr s1)
  show ?thesis
  proof (cases rr)
    case (Inl e)
    then have "r = Inl e" "s' = s1" using assms(6) Pair by (simp_all add: fs_write_def sbind_unfold)
    moreover have "lf_fs s1 = lf_fs s" using fs_resolve_keeps [of m path s] Pair by (metis local_fs.select_convs(3) local_fs.update_convs(2) local_fs.surjective snd_conv)
    ultimately show ?thesis by simp
  next
    case (Inr full)
    then have res: "fs_resolve m path s = (Inr full, s)" using Pair fs_resolve_state by blast
    obtain q where q: "full = path_str q" "proper q" "clean (lf_fs s) q" "authority m s q"
      using fs_resolve_leads [OF assms(1,2) res] by metis
    have "fs_replace m (path_str q) path c 438 s = (r, s')" using assms(6) res q(1) by (simp add: fs_write_def sbind_unfold)
    from fs_replace_effect [OF assms(1) q(2,3) assms(3,4) this]
    have s': "s' = s\<lparr>lf_fs := lf_fs s'\<rparr>" and eff: "case r of Inr w \<Rightarrow> replaced m q c 438 s w s' | Inl _ \<Rightarrow> untouched m q s s'"
      by simp_all
    have same: "lf_root s' = lf_root s" "lf_scratch s' = lf_scratch s" by (subst s', simp)+
    show ?thesis
    proof (cases r)
      case (Inl e)
      with eff assms(5) show ?thesis by (simp add: untouched_def)
    next
      case (Inr w)
      with eff have rep: "replaced m q c 438 s w s'" by simp
      note fr = replaced_frame [OF assms(1) q(2,3) rep]
      obtain i where i: "dict_get (lf_fs s') q = Some (Reg i c)" using rep by (auto simp: replaced_def)
      have "clean (lf_fs s') q"
      proof (rule clean_fewer_links [OF q(3)])
        show "is_link (lf_fs s) p" if "is_link (lf_fs s') p" for p
          using that fun_cong [OF fr(2), of p] by (auto simp: is_link_def link_target_def split: option.splits node.splits)
      qed
      then have "fs_read m' path s' = (Inr c, s')" if "unrefused m'" "fm_euid m' = fm_euid m" for m'
        using read_present [OF fr(1) q(2) _ i] resolve_again [OF assms(1,2) res fr(1,2) same fr(3)] that q(1)
        by (simp add: unrefused_def)
      with rep q(4) Inr show ?thesis by auto
    qed
  qed
qed

section \<open>Containment\<close>

definition rooted :: "local_fs \<Rightarrow> bool" where
  "rooted s \<longleftrightarrow> (\<exists>r. proper r \<and> realpath (lf_fs s) (lf_root s) = path_str r \<and> is_dir (lf_fs s) r)"

lemma beside_inside:
  assumes "rooted s" and "authority m s q" and "\<not> is_dir (lf_fs s) q"
  shows "authority m s (butlast q @ [x])"
proof -
  obtain r where r: "prefix r q" "proper r" "path_str r = realpath (lf_fs s) (lf_root s) \<or> live_scratch m s r"
    using assms(2) by (auto simp: authority_def)
  have "is_dir (lf_fs s) r"
    using r(2,3) assms(1) path_str_inject by (auto simp: rooted_def live_scratch_def is_dir_def)
  then have "r \<noteq> q" using assms(3) by blast
  with r(1) have "prefix r (butlast q)" by (auto simp: prefix_def butlast_append)
  then have "prefix r (butlast q @ [x])" by simp
  with r(2,3) show ?thesis by (auto simp: authority_def)
qed

definition changes_inside :: "fs_moment \<Rightarrow> local_fs \<Rightarrow> file_system \<Rightarrow> bool" where
  "changes_inside m s fs' \<longleftrightarrow> (\<forall>p. dict_get fs' p \<noteq> dict_get (lf_fs s) p \<longrightarrow> authority m s p)"

lemma replaced_inside: "replaced m q c mode s w s' \<Longrightarrow> authority m s q \<Longrightarrow> changes_inside m s (lf_fs s')"
  unfolding replaced_def changes_inside_def by (auto split: if_splits)

lemma untouched_inside: "untouched m q s s' \<Longrightarrow> rooted s \<Longrightarrow> authority m s q \<Longrightarrow> changes_inside m s (lf_fs s')"
  unfolding untouched_def changes_inside_def using beside_inside by metis

lemma replace_inside:
  assumes "fs_wf (lf_fs s)" and "rooted s" and "hex_tokens m" and "no_stat_dst (fm_refused m) \<noteq> Some ENOENT"
    and "proper q" and "clean (lf_fs s) q" and "authority m s q"
  shows "changes_inside m s (lf_fs (snd (fs_replace m (path_str q) path c mode s)))"
proof (cases "fs_replace m (path_str q) path c mode s")
  case (Pair r s')
  from fs_replace_effect [OF assms(1,5,6,3,4) Pair] show ?thesis
    unfolding Pair snd_conv using replaced_inside untouched_inside assms(2,7) by (cases r) auto
qed

lemma remove_inside:
  assumes "fs_wf (lf_fs s)" and "proper q" and "clean (lf_fs s) q" and "authority m s q"
    and "sys_unlink (path_str q) (lf_fs s) = Inr fs' \<or> sys_rmdir (path_str q) (lf_fs s) = Inr fs'"
  shows "changes_inside m s fs'"
proof -
  from assms(5) obtain p where p: "entry_of (lf_fs s) (path_str q) = Inr p"
    by (auto simp: sys_unlink_def sys_rmdir_def rbind_Inr_iff)
  have "sys_unlink (path_str q) (lf_fs s) = Inr fs' \<Longrightarrow> fs' = dict_del p (lf_fs s)"
    "sys_rmdir (path_str q) (lf_fs s) = Inr fs' \<Longrightarrow> fs' = dict_del p (lf_fs s)"
    using p by (auto simp: sys_unlink_def sys_rmdir_def split: option.splits node.splits if_splits)
  with assms(5) p entry_clean [OF assms(1-3)] have "fs' = dict_del q (lf_fs s)" by blast
  with assms(4) show ?thesis by (auto simp: changes_inside_def)
qed

lemma rename_inside:
  assumes "fs_wf (lf_fs s)" and "proper p" and "clean (lf_fs s) p" and "authority m s p"
    and "proper q" and "clean (lf_fs s) q" and "authority m s q"
    and "sys_rename (path_str p) (path_str q) (lf_fs s) = Inr fs'"
  shows "changes_inside m s fs'"
  using rename_effect [OF assms(1-3,5,6,8)] assms(4,7) by (auto simp: changes_inside_def split: if_splits)

lemma same_inside: "lf_fs s' = lf_fs s \<Longrightarrow> changes_inside m s (lf_fs s')"
  by (simp add: changes_inside_def)

lemma resolve_fs: "lf_fs (snd (fs_resolve m path s)) = lf_fs s" "lf_root (snd (fs_resolve m path s)) = lf_root s"
  using fs_resolve_keeps [of m path s] by (metis local_fs.select_convs local_fs.update_convs(2) local_fs.surjective)+

text \<open>The operations that answer about, or change, what a path names.\<close>

datatype fs_call =
  ReadCall string | WriteCall string string | DeleteCall string | RenameCall string string | CopyCall string string | StatCall string

fun call_paths :: "fs_call \<Rightarrow> string list" where
  "call_paths (ReadCall p) = [p]"
| "call_paths (WriteCall p c) = [p]"
| "call_paths (DeleteCall p) = [p]"
| "call_paths (RenameCall p q) = [p, q]"
| "call_paths (CopyCall p q) = [p, q]"
| "call_paths (StatCall p) = [p]"

fun call_state :: "fs_moment \<Rightarrow> fs_call \<Rightarrow> local_fs \<Rightarrow> local_fs" where
  "call_state m (ReadCall p) s = snd (fs_read m p s)"
| "call_state m (WriteCall p c) s = snd (fs_write m p c s)"
| "call_state m (DeleteCall p) s = snd (fs_delete m p s)"
| "call_state m (RenameCall p q) s = snd (fs_rename m p q s)"
| "call_state m (CopyCall p q) s = snd (fs_copy m p q s)"
| "call_state m (StatCall p) s = snd (fs_stat m p s)"

text \<open>An operation that goes on only with a resolved path does nothing to the files before it.\<close>

lemma after_resolve:
  assumes "\<And>full. fs_resolve m path s = (Inr full, s) \<Longrightarrow> P (snd (f full s))"
    and "\<And>s'. lf_fs s' = lf_fs s \<Longrightarrow> P s'"
  shows "P (snd (sbind (fs_resolve m path) f s))"
proof (cases "fs_resolve m path s")
  case (Pair r s1)
  show ?thesis
  proof (cases r)
    case (Inl e)
    then show ?thesis using Pair assms(2) [of s1] resolve_fs(1) [of m path s] by (simp add: sbind_unfold)
  next
    case (Inr full)
    then have "s1 = s" using Pair fs_resolve_state by blast
    then show ?thesis using Pair Inr assms(1) [of full] by (simp add: sbind_unfold)
  qed
qed

lemma call_inside:
  assumes wf: "fs_wf (lf_fs s)" and top: "rooted s" and hex: "hex_tokens m"
    and honest: "no_stat_dst (fm_refused m) \<noteq> Some ENOENT"
    and lf: "\<forall>p \<in> set (call_paths call). loop_free (lf_fs s) p"
  shows "changes_inside m s (lf_fs (call_state m call s))"
proof (cases call)
  case (ReadCall p)
  have "changes_inside m s (lf_fs (snd (fs_read m p s)))" unfolding fs_read_def
    by (rule after_resolve) (auto intro: same_inside split: option.splits sum.splits)
  with ReadCall show ?thesis by simp
next
  case (StatCall p)
  have "changes_inside m s (lf_fs (snd (fs_stat m p s)))" unfolding fs_stat_def
    by (rule after_resolve) (auto intro: same_inside split: option.splits sum.splits node.splits)
  with StatCall show ?thesis by simp
next
  case (WriteCall p c)
  have "changes_inside m s (lf_fs (snd (fs_write m p c s)))" unfolding fs_write_def
  proof (rule after_resolve [OF _ same_inside])
    fix full
    assume res: "fs_resolve m p s = (Inr full, s)"
    have "loop_free (lf_fs s) p" using lf WriteCall by simp
    from fs_resolve_leads [OF wf this res] obtain q where q: "full = path_str q" "proper q" "clean (lf_fs s) q" "authority m s q"
      by metis
    show "changes_inside m s (lf_fs (snd (fs_replace m full p c 438 s)))"
      unfolding q(1) by (rule replace_inside [OF wf top hex honest q(2-4)])
  qed
  with WriteCall show ?thesis by simp
next
  case (DeleteCall p)
  have "changes_inside m s (lf_fs (snd (fs_delete m p s)))" unfolding fs_delete_def
  proof (rule after_resolve [OF _ same_inside])
    fix full
    assume res: "fs_resolve m p s = (Inr full, s)"
    have "loop_free (lf_fs s) p" using lf DeleteCall by simp
    from fs_resolve_leads [OF wf this res] obtain q where q: "full = path_str q" "proper q" "clean (lf_fs s) q" "authority m s q"
      by metis
    note gone = remove_inside [OF wf q(2-4), folded q(1)]
    show "changes_inside m s (lf_fs (snd (case case no_stat (fm_refused m) of None \<Rightarrow> sys_stat (lf_fs s) full | Some n \<Rightarrow> Inl n of
        Inl e \<Rightarrow> (Inl (fs_translate e p), s)
      | Inr (Dir _) \<Rightarrow>
          (case case no_remove (fm_refused m) of None \<Rightarrow> sys_rmdir full (lf_fs s) | Some n \<Rightarrow> Inl n of
             Inl e \<Rightarrow> (Inl (remove_error e p), s)
           | Inr fs' \<Rightarrow> (Inr (), s\<lparr>lf_fs := fs', lf_scratch := dict_del full (lf_scratch s)\<rparr>))
      | Inr (Reg _ _) \<Rightarrow>
          (case case no_remove (fm_refused m) of None \<Rightarrow> sys_unlink full (lf_fs s) | Some n \<Rightarrow> Inl n of
             Inl e \<Rightarrow> (Inl (remove_error e p), s)
           | Inr fs' \<Rightarrow> (Inr (), s\<lparr>lf_fs := fs'\<rparr>))
      | Inr _ \<Rightarrow> (Inl (InvalidTarget p), s))))"
      by (auto intro: same_inside gone split: option.splits sum.splits node.splits)
  qed
  with DeleteCall show ?thesis by simp
next
  case (RenameCall p q)
  have "changes_inside m s (lf_fs (snd (fs_rename m p q s)))" unfolding fs_rename_def
  proof (rule after_resolve [OF _ same_inside], rule after_resolve [OF _ same_inside])
    fix src dst
    assume res: "fs_resolve m p s = (Inr src, s)" "fs_resolve m q s = (Inr dst, s)"
    have pq: "loop_free (lf_fs s) p" "loop_free (lf_fs s) q" using lf RenameCall by simp_all
    from fs_resolve_leads [OF wf pq(1) res(1)] obtain a where a: "src = path_str a" "proper a" "clean (lf_fs s) a" "authority m s a"
      by metis
    from fs_resolve_leads [OF wf pq(2) res(2)] obtain b where b: "dst = path_str b" "proper b" "clean (lf_fs s) b" "authority m s b"
      by metis
    note moved = rename_inside [OF wf a(2-4) b(2-4), folded a(1) b(1)]
    show "changes_inside m s (lf_fs (snd (case require_regular (no_stat (fm_refused m)) (lf_fs s) src p of
        Inl e \<Rightarrow> (Inl e, s)
      | Inr _ \<Rightarrow>
          (case stat_regular (no_stat_dst (fm_refused m)) (lf_fs s) dst q of
             Inl e \<Rightarrow> (Inl e, s)
           | Inr old \<Rightarrow>
               (case case no_rename (fm_refused m) of None \<Rightarrow> sys_rename src dst (lf_fs s) | Some n \<Rightarrow> Inl n of
                  Inl e \<Rightarrow> (Inl (if e = EXDEV then InvalidTarget p else fs_translate e (p @ '' -> '' @ q)), s)
                | Inr fs' \<Rightarrow> (Inr (old = None), s\<lparr>lf_fs := fs'\<rparr>))))))"
      by (auto intro: same_inside moved split: option.splits sum.splits)
  qed
  with RenameCall show ?thesis by simp
next
  case (CopyCall p q)
  have "changes_inside m s (lf_fs (snd (fs_copy m p q s)))" unfolding fs_copy_def
  proof (rule after_resolve [OF _ same_inside], rule after_resolve [OF _ same_inside])
    fix src dst
    assume res: "fs_resolve m q s = (Inr dst, s)"
    have "loop_free (lf_fs s) q" using lf CopyCall by simp
    from fs_resolve_leads [OF wf this res] obtain b where b: "dst = path_str b" "proper b" "clean (lf_fs s) b" "authority m s b"
      by metis
    note put = replace_inside [OF wf top hex honest b(2-4), folded b(1)]
    show "changes_inside m s (lf_fs (snd (if src = dst then (Inl (InvalidTarget p), s)
      else case require_regular (no_stat (fm_refused m)) (lf_fs s) src p of
        Inl e \<Rightarrow> (Inl e, s)
      | Inr (i, _) \<Rightarrow>
          (case case no_open (fm_refused m) of None \<Rightarrow> sys_read (lf_fs s) src | Some n \<Rightarrow> Inl n of
             Inl e \<Rightarrow> (Inl (fs_translate e p), s)
           | Inr content \<Rightarrow> fs_replace m dst q content (ino_mode i) s))))"
      by (auto intro: same_inside put split: option.splits sum.splits)
  qed
  with CopyCall show ?thesis by simp
qed

lemma read_inside:
  assumes "fs_wf (lf_fs s)" and "loop_free (lf_fs s) path" and "fs_read m path s = (Inr c, s')"
  shows "\<exists>p i. authority m s p \<and> dict_get (lf_fs s) p = Some (Reg i c)"
proof -
  obtain full where res: "fs_resolve m path s = (Inr full, s)" and rd: "sys_read (lf_fs s) full = Inr c"
    using assms(3) fs_resolve_state [of m path s]
    by (cases "fs_resolve m path s")
      (fastforce simp: fs_read_def sbind_unfold split: sum.splits option.splits)
  from fs_resolve_leads [OF assms(1,2) res] obtain q where q: "full = path_str q" "proper q" "clean (lf_fs s) q" "authority m s q"
    by metis
  from rd obtain x where x: "sys_stat (lf_fs s) full = Inr x" "(case x of Reg _ d \<Rightarrow> Inr d | Dir _ \<Rightarrow> Inl EISDIR | _ \<Rightarrow> Inl (OtherErrno 6)) = Inr c"
    by (auto simp: sys_read_def rbind_Inr_iff)
  then obtain i where "sys_stat (lf_fs s) full = Inr (Reg i c)" by (cases x) auto
  then have "dict_get (lf_fs s) q = Some (Reg i c)"
    using sys_stat_clean [OF assms(1) q(2,3)] q(1) by (auto split: option.splits)
  with q(4) show ?thesis by blast
qed


section \<open>A concrete file system\<close>

definition node_at :: "int \<Rightarrow> inode" where
  "node_at n = \<lparr>ino_dev = 1, ino_num = n, ino_uid = 0, ino_mode = 420, ino_size = 0, ino_mtime = 0\<rparr>"

text \<open>
  \<^verbatim>\<open>/srv\<close> is served. In it a link that loops, a link out of the tree, and a link that reaches the second
  through the first; outside, a secret.
\<close>

definition looped_fs :: file_system where
  "looped_fs =
     [([], Dir (node_at 1)), ([''secret''], Reg (node_at 2) ''s3cret''), ([''srv''], Dir (node_at 3)),
      ([''srv'', ''loop''], Link ''loop''), ([''srv'', ''out''], Link ''../secret''), ([''srv'', ''x''], Link ''loop/../out''),
      ([''srv'', ''a''], Reg (node_at 4) ''old'')]"

definition calm :: fs_moment where
  "calm = \<lparr>fm_refused = \<lparr>no_lstat = None, no_stat = None, no_stat_dst = None, no_open = None, no_create = None, no_write = None,
             no_chmod = None, no_rename = None, no_remove = None, no_cleanup = None\<rparr>,
           fm_euid = 0, fm_umask = 18, fm_now = 0, fm_ino = 9, fm_dir_size = 4096, fm_tokens = [''00''], fm_tmpname = ''/tmp/jetty-0''\<rparr>"

definition served :: local_fs where
  "served = LocalFsDriver ''/srv'' looped_fs"

lemma looped_keys: "dict_get looped_fs p \<noteq> None \<Longrightarrow> p \<in> set (dict_keys looped_fs)"
  by (simp add: map_of_eq_None_iff)

lemma served_wf: "fs_wf (lf_fs served)" and served_rooted: "rooted served"
proof -
  have "list_all (\<lambda>p. proper p \<and> (p \<noteq> [] \<longrightarrow> is_dir looped_fs (butlast p))) (dict_keys looped_fs)" by code_simp
  moreover have "is_dir looped_fs []" by code_simp
  ultimately show "fs_wf (lf_fs served)"
    using looped_keys unfolding fs_wf_def served_def LocalFsDriver_def list_all_iff by fastforce
  have "realpath (lf_fs served) (lf_root served) = path_str [''srv'']" "is_dir (lf_fs served) [''srv'']" by code_simp+
  then show "rooted served" by (auto simp: rooted_def intro!: exI [of _ "[''srv'']"])
qed

theorem write_atomic_witness:
  "fs_read calm ''/srv/a'' (snd (fs_write calm ''/srv/a'' ''new'' served)) = (Inr ''new'', snd (fs_write calm ''/srv/a'' ''new'' served))"
proof -
  let ?w = "fs_write calm ''/srv/a'' ''new'' served"
  have "fst ?w = Inr \<lparr>wr_size = 3, wr_created = False\<rparr>" by code_simp
  then have r: "?w = (Inr \<lparr>wr_size = 3, wr_created = False\<rparr>, snd ?w)" by (simp add: prod_eq_iff)
  have "loop_free (lf_fs served) ''/srv/a''" "hex_tokens calm" "unrefused calm" by code_simp+
  moreover have "no_stat_dst (fm_refused calm) \<noteq> Some ENOENT" "no_cleanup (fm_refused calm) = None" by (simp_all add: calm_def)
  ultimately show ?thesis using write_atomic [OF served_wf _ _ _ _ r] by auto
qed


text \<open>
  C37: a loop of links is a door out of the root. The path \<^verbatim>\<open>/srv/x\<close> leads into a loop, so the kernel itself
  refuses it; but \<open>realpath\<close> appends the rest behind a loop without looking at it and removes the dots, the
  result lies below the root, and it is a link out of it: the driver returns the secret.
\<close>

theorem loop_escapes_root:
  "fs_wf (lf_fs served) \<and> rooted served \<and> \<not> authority calm served [''secret''] \<and>
   sys_read (lf_fs served) ''/srv/x'' = Inl ELOOP \<and> fst (fs_read calm ''/srv/out'' served) = Inl (InvalidTarget ''/srv/out'') \<and>
   dict_get (lf_fs served) [''secret''] = Some (Reg (node_at 2) ''s3cret'') \<and> fst (fs_read calm ''/srv/x'' served) = Inr ''s3cret''"
proof -
  have "realpath (lf_fs served) (lf_root served) = ''/srv''" "lf_scratch served = []" by code_simp+
  then have "\<not> authority calm served [''secret'']"
    by (auto simp: authority_def live_scratch_def prefix_Cons path_str_root)
  moreover have "sys_read (lf_fs served) ''/srv/x'' = Inl ELOOP" "fst (fs_read calm ''/srv/out'' served) = Inl (InvalidTarget ''/srv/out'')"
    "dict_get (lf_fs served) [''secret''] = Some (Reg (node_at 2) ''s3cret'')" "fst (fs_read calm ''/srv/x'' served) = Inr ''s3cret''"
    by code_simp+
  ultimately show ?thesis using served_wf served_rooted by blast
qed

end
