(* ===== verification/Fs_Surface.thy ===== *)
theory Fs_Surface
  imports Fs_Service Errors
begin

text \<open>
  \<^verbatim>\<open>src/jetty/modules/filesystem/module.py\<close>: path syntax, the mapping of the driver's failures, the routes
  and construction. The guess of a media type from a file name and the printing of a time are parameters.
  A message is reduced to the path it names.
\<close>

section \<open>Errors\<close>

datatype fs_api_exn = FsJetty jetty_error | FsApiError string string | FsPy py_exn | FsHangs

definition FS_SEMANTICS :: "(string, int \<times> bool) dict" where
  "FS_SEMANTICS = [(''permission_denied'', 403, False)]"

definition fs_api_response :: "string \<Rightarrow> string \<Rightarrow> http_response" where
  "fs_api_response code message =
     (case dict_get FS_SEMANTICS code of
        Some (status, retryable) \<Rightarrow>
          \<lparr>resp_status = status,
           resp_json = PDict [(''error'', PDict [(''code'', PStr code), (''message'', PStr message), (''retryable'', PBool retryable)])]\<rparr>
      | None \<Rightarrow> unhandled_error_handler KeyError)"

datatype fs_reply = RawReply string string | HeadReply string nat | JsonReply pyval

datatype fs_response = RawResponse string string | HeadResponse string nat | JsonResponse http_response | NoResponse

definition fs_route :: "fs_api_exn + fs_reply \<Rightarrow> fs_response" where
  "fs_route r =
     (case r of
        Inr (RawReply content media) \<Rightarrow> RawResponse content media
      | Inr (HeadReply media len) \<Rightarrow> HeadResponse media len
      | Inr (JsonReply j) \<Rightarrow> JsonResponse \<lparr>resp_status = 200, resp_json = j\<rparr>
      | Inl (FsApiError code message) \<Rightarrow> JsonResponse (fs_api_response code message)
      | Inl (FsJetty e) \<Rightarrow> JsonResponse (jetty_error_handler e)
      | Inl (FsPy e) \<Rightarrow> JsonResponse (unhandled_error_handler e)
      | Inl FsHangs \<Rightarrow> NoResponse)"

section \<open>Path syntax\<close>

definition MAX_PATH_BYTES :: nat where
  "MAX_PATH_BYTES = 4096"

definition check_path :: "string \<Rightarrow> fs_api_exn + string" where
  "check_path path =
     (if \<not> prefix ''/'' path \<or> CHR 0x5C \<in> set path \<or> CHR 0x00 \<in> set path \<or>
         list_ex (\<lambda>seg. seg \<in> {'''', ''.'', ''..''}) (split_path (tl path))
      then Inl (FsJetty (JettyError INVALID_REQUEST path))
      else if MAX_PATH_BYTES < utf8_len path then Inl (FsJetty (JettyError INVALID_REQUEST path))
      else Inr path)"

section \<open>Construction\<close>

record fs_settings =
  fset_driver :: string
  fset_root :: string

definition FilesystemModule :: "fs_settings \<Rightarrow> file_system \<Rightarrow> py_exn + local_fs" where
  "FilesystemModule cfg fs =
     (if fset_driver cfg \<noteq> ''local'' then Inl ValueError else Inr (LocalFsDriver (fset_root cfg) fs))"

definition fs_startup :: "fs_settings \<Rightarrow> file_system \<Rightarrow> bool" where
  "fs_startup cfg fs = (case sys_stat fs (fset_root cfg) of Inr (Dir _) \<Rightarrow> True | _ \<Rightarrow> False)"

section \<open>Routes\<close>

definition fs_dispatch_exn :: "fs_exn \<Rightarrow> fs_api_exn" where
  "fs_dispatch_exn e =
     (case e of
        FileMissing p \<Rightarrow> FsJetty (JettyError NOT_FOUND p)
      | InvalidTarget p \<Rightarrow> FsJetty (JettyError INVALID_REQUEST p)
      | PermissionDenied p \<Rightarrow> FsApiError ''permission_denied'' p
      | FsOSError _ \<Rightarrow> FsJetty (JettyError UPSTREAM_UNAVAILABLE ''filesystem store failure'')
      | NamesTaken \<Rightarrow> FsHangs)"

definition fs_dispatch :: "(local_fs, fs_exn, 'a) opn \<Rightarrow> (local_fs, fs_api_exn, 'a) opn" where
  "fs_dispatch f s = (case f s of (Inl e, s') \<Rightarrow> (Inl (fs_dispatch_exn e), s') | (Inr x, s') \<Rightarrow> (Inr x, s'))"

record fs_env =
  fe_moment :: fs_moment
  fe_guess :: "string \<Rightarrow> string option"
  fe_iso :: "rat \<Rightarrow> py_exn + string"

definition media_type :: "fs_env \<Rightarrow> string \<Rightarrow> string" where
  "media_type E p = (case fe_guess E p of Some (c # cs) \<Rightarrow> c # cs | _ \<Rightarrow> ''application/octet-stream'')"

definition h_read_file :: "fs_env \<Rightarrow> string \<Rightarrow> (local_fs, fs_api_exn, fs_reply) opn" where
  "h_read_file E file_path =
     sbind (slift (check_path file_path)) (\<lambda>rel.
     sbind (fs_dispatch (fs_read (fe_moment E) rel)) (\<lambda>content.
       sret (RawReply content (media_type E rel))))"

definition h_head_file :: "fs_env \<Rightarrow> string \<Rightarrow> (local_fs, fs_api_exn, fs_reply) opn" where
  "h_head_file E file_path =
     sbind (slift (check_path file_path)) (\<lambda>rel.
     sbind (fs_dispatch (fs_stat (fe_moment E) rel)) (\<lambda>st.
       if sr_type st \<noteq> ''file'' then sraise (FsJetty (JettyError INVALID_REQUEST rel))
       else sret (HeadReply (media_type E rel) (sr_size st))))"

definition h_write_file :: "fs_env \<Rightarrow> string \<Rightarrow> string \<Rightarrow> (local_fs, fs_api_exn, fs_reply) opn" where
  "h_write_file E file_path raw =
     sbind (slift (check_path file_path)) (\<lambda>rel.
     sbind (fs_dispatch (fs_write (fe_moment E) rel raw)) (\<lambda>w.
       sret (JsonReply (PDict [(''size'', PInt (int (wr_size w))), (''created'', PBool (wr_created w))]))))"

definition h_delete_file :: "fs_env \<Rightarrow> string \<Rightarrow> (local_fs, fs_api_exn, fs_reply) opn" where
  "h_delete_file E file_path =
     sbind (slift (check_path file_path)) (\<lambda>rel.
     sbind (fs_dispatch (fs_delete (fe_moment E) rel)) (\<lambda>_.
       sret (JsonReply (PDict [(''deleted'', PBool True)]))))"

definition h_rename_file :: "fs_env \<Rightarrow> string \<Rightarrow> string \<Rightarrow> (local_fs, fs_api_exn, fs_reply) opn" where
  "h_rename_file E from to =
     sbind (slift (check_path from)) (\<lambda>src.
     sbind (slift (check_path to)) (\<lambda>dst.
     sbind (fs_dispatch (fs_rename (fe_moment E) src dst)) (\<lambda>created.
       sret (JsonReply (PDict [(''created'', PBool created)])))))"

definition h_copy_file :: "fs_env \<Rightarrow> string \<Rightarrow> string \<Rightarrow> (local_fs, fs_api_exn, fs_reply) opn" where
  "h_copy_file E from to =
     sbind (slift (check_path from)) (\<lambda>src.
     sbind (slift (check_path to)) (\<lambda>dst.
     sbind (fs_dispatch (fs_copy (fe_moment E) src dst)) (\<lambda>w.
       sret (JsonReply (PDict [(''size'', PInt (int (wr_size w))), (''created'', PBool (wr_created w))])))))"

definition h_tmpdir :: "fs_env \<Rightarrow> (local_fs, fs_api_exn, fs_reply) opn" where
  "h_tmpdir E =
     sbind (fs_dispatch (fs_mkdtemp (fe_moment E))) (\<lambda>path. sret (JsonReply (PDict [(''path'', PStr path)])))"

text \<open>The permission bits in octal, at least four digits.\<close>

fun oct_digits :: "nat \<Rightarrow> string" where
  "oct_digits n = (if n < 8 then [char_of (48 + n)] else oct_digits (n div 8) @ [char_of (48 + n mod 8)])"

declare oct_digits.simps [simp del]

definition mode_str :: "int \<Rightarrow> string" where
  "mode_str m = (let d = oct_digits (nat m) in replicate (4 - length d) (CHR ''0'') @ d)"

definition h_stat_path :: "fs_env \<Rightarrow> string \<Rightarrow> (local_fs, fs_api_exn, fs_reply) opn" where
  "h_stat_path E file_path =
     sbind (slift (check_path file_path)) (\<lambda>rel.
     sbind (fs_dispatch (fs_stat (fe_moment E) rel)) (\<lambda>st.
     sbind (slift (case fe_iso E (sr_mtime st) of Inl e \<Rightarrow> Inl (FsPy e) | Inr t \<Rightarrow> Inr t)) (\<lambda>t.
       sret (JsonReply (PDict [(''type'', PStr (sr_type st)), (''size'', PInt (int (sr_size st))),
         (''mode'', PStr (mode_str (sr_mode st))), (''mtime'', PStr t)])))))"

datatype fs_request =
  GetFile string | HeadFile string | PutFile string string | DeleteFile string | PostRename string string
| PostCopy string string | PostTmpdir | GetStat string

definition fs_handle :: "fs_env \<Rightarrow> fs_request \<Rightarrow> (local_fs, fs_api_exn, fs_reply) opn" where
  "fs_handle E req =
     (case req of
        GetFile p \<Rightarrow> h_read_file E p
      | HeadFile p \<Rightarrow> h_head_file E p
      | PutFile p raw \<Rightarrow> h_write_file E p raw
      | DeleteFile p \<Rightarrow> h_delete_file E p
      | PostRename p q \<Rightarrow> h_rename_file E p q
      | PostCopy p q \<Rightarrow> h_copy_file E p q
      | PostTmpdir \<Rightarrow> h_tmpdir E
      | GetStat p \<Rightarrow> h_stat_path E p)"

section \<open>Path syntax, exactly\<close>

lemma tl_path_str: "tl (path_str ns) = py_join ''/'' ns"
  by (simp add: path_str_root)

text \<open>
  The paths the surface accepts are exactly the absolute paths of proper names (so that none of the
  names is empty, a dot or two dots), without a backslash or a NUL, of at most 4096 bytes.
\<close>

theorem check_path_exact:
  "check_path p = Inr r \<longleftrightarrow>
     r = p \<and> (\<exists>ns. ns \<noteq> [] \<and> proper ns \<and> p = path_str ns) \<and>
     CHR 0x5C \<notin> set p \<and> CHR 0x00 \<notin> set p \<and> utf8_len p \<le> MAX_PATH_BYTES"
proof -
  have "(prefix ''/'' p \<and> \<not> list_ex (\<lambda>seg. seg \<in> {'''', ''.'', ''..''}) (split_path (tl p))) \<longleftrightarrow>
      (\<exists>ns. ns \<noteq> [] \<and> proper ns \<and> p = path_str ns)" (is "?L \<longleftrightarrow> ?R")
  proof
    assume L: ?L
    let ?ns = "split_path (tl p)"
    have "p = path_str ?ns" using L by (cases p) (simp_all add: path_str_root)
    moreover have "proper ?ns" using L split_ch_parts [of _ "CHR ''/''" "tl p"] by (auto simp: proper_def list_all_iff list_ex_iff)
    ultimately show ?R using split_ch_not_Nil by blast
  next
    assume ?R
    then obtain ns where ns: "ns \<noteq> []" "proper ns" "p = path_str ns" by blast
    then have "split_path (tl p) = ns"
      using split_join [of ns "CHR ''/''"] by (simp add: tl_path_str proper_def list_all_iff)
    with ns show ?L by (auto simp: path_str_root proper_def list_all_iff list_ex_iff)
  qed
  then show ?thesis unfolding check_path_def by auto
qed

section \<open>Refusals\<close>

definition quiet_fail :: "local_fs \<Rightarrow> ('e + 'a) \<times> local_fs \<Rightarrow> bool" where
  "quiet_fail s rs \<longleftrightarrow> (\<forall>e. fst rs = Inl e \<longrightarrow> (\<forall>p. dict_get (lf_fs (snd rs)) p = dict_get (lf_fs s) p))"

lemma quiet_same: "lf_fs s' = lf_fs s \<Longrightarrow> quiet_fail s (r, s')"
  by (simp add: quiet_fail_def)

lemma quiet_Inr: "quiet_fail s (Inr x, s')"
  by (simp add: quiet_fail_def)

lemma quiet_resolve:
  assumes "\<And>full. fs_resolve m path s = (Inr full, s) \<Longrightarrow> quiet_fail s (f full s)"
  shows "quiet_fail s (sbind (fs_resolve m path) f s)"
proof (cases "fs_resolve m path s")
  case (Pair r s1)
  show ?thesis
  proof (cases r)
    case (Inl e)
    then show ?thesis using Pair resolve_fs(1) [of m path s] by (simp add: sbind_unfold quiet_same)
  next
    case (Inr full)
    then have "s1 = s" using Pair fs_resolve_state by blast
    then show ?thesis using Pair Inr assms [of full] by (simp add: sbind_unfold)
  qed
qed

lemma quiet_reads: "quiet_fail s (fs_read m p s)" "quiet_fail s (fs_stat m p s)"
  unfolding fs_read_def fs_stat_def
  by (rule quiet_resolve, auto intro: quiet_same split: option.splits sum.splits node.splits)+

lemma quiet_delete: "quiet_fail s (fs_delete m p s)"
  unfolding fs_delete_def
  by (rule quiet_resolve) (auto intro: quiet_same quiet_Inr split: option.splits sum.splits node.splits)

lemma quiet_rename: "quiet_fail s (fs_rename m p q s)"
  unfolding fs_rename_def
  by (rule quiet_resolve, rule quiet_resolve) (auto intro: quiet_same quiet_Inr split: option.splits sum.splits)

lemma quiet_replace:
  assumes "fs_wf (lf_fs s)" and "hex_tokens m" and "no_stat_dst (fm_refused m) \<noteq> Some ENOENT" and "no_cleanup (fm_refused m) = None"
    and "loop_free (lf_fs s) p" and "fs_resolve m p s = (Inr full, s)"
  shows "quiet_fail s (fs_replace m full p' c mode s)"
proof -
  from fs_resolve_leads [OF assms(1,5,6)] obtain q where q: "full = path_str q" "proper q" "clean (lf_fs s) q" by metis
  obtain r s' where r: "fs_replace m full p' c mode s = (r, s')" by fastforce
  from fs_replace_effect [OF assms(1) q(2,3) assms(2,3) r [unfolded q(1)]] assms(4) show ?thesis
    by (cases r) (auto simp: r quiet_fail_def untouched_def)
qed

lemma quiet_writes:
  assumes "fs_wf (lf_fs s)" and "hex_tokens m" and "no_stat_dst (fm_refused m) \<noteq> Some ENOENT" and "no_cleanup (fm_refused m) = None"
    and "loop_free (lf_fs s) p"
  shows "quiet_fail s (fs_write m p c s)" and "quiet_fail s (fs_copy m src p s)"
proof -
  note put = quiet_replace [OF assms]
  show "quiet_fail s (fs_write m p c s)" unfolding fs_write_def by (rule quiet_resolve) (rule put)
  show "quiet_fail s (fs_copy m src p s)" unfolding fs_copy_def
    by (rule quiet_resolve, rule quiet_resolve) (auto intro: quiet_same put split: option.splits sum.splits)
qed

fun request_paths :: "fs_request \<Rightarrow> string list" where
  "request_paths (GetFile p) = [p]"
| "request_paths (HeadFile p) = [p]"
| "request_paths (PutFile p _) = [p]"
| "request_paths (DeleteFile p) = [p]"
| "request_paths (PostRename p q) = [p, q]"
| "request_paths (PostCopy p q) = [p, q]"
| "request_paths PostTmpdir = []"
| "request_paths (GetStat p) = [p]"

lemma quiet_check:
  assumes "quiet_fail s (f p s)"
  shows "quiet_fail s (sbind (slift (check_path p)) f s)"
proof (cases "check_path p")
  case (Inl e)
  then show ?thesis by (simp add: sbind_unfold slift_def quiet_same)
next
  case (Inr rel)
  then have "rel = p" by (auto simp: check_path_def split: if_splits)
  with Inr assms show ?thesis by (simp add: sbind_unfold slift_def)
qed

lemma quiet_dispatch:
  assumes "quiet_fail s (f s)" and "\<And>x t. f s = (Inr x, t) \<Longrightarrow> quiet_fail s (g x t)"
  shows "quiet_fail s (sbind (fs_dispatch f) g s)"
  using assms by (cases "f s"; cases "fst (f s)") (auto simp: sbind_unfold fs_dispatch_def quiet_fail_def)

lemma stat_keeps: "fs_stat m p s = (r, t) \<Longrightarrow> lf_fs t = lf_fs s"
proof -
  have "lf_fs (snd (fs_stat m p s)) = lf_fs s" unfolding fs_stat_def
    by (rule after_resolve) (auto split: option.splits sum.splits node.splits)
  then show "fs_stat m p s = (r, t) \<Longrightarrow> lf_fs t = lf_fs s" by simp
qed

lemma quiet_ret: "quiet_fail s (sret x t)"
  by (simp add: sret_def quiet_Inr)

lemma quiet_stat_then: "lf_fs t = lf_fs s \<Longrightarrow> lf_fs (snd (g t)) = lf_fs t \<Longrightarrow> quiet_fail s (g t)"
  by (cases "g t") (simp add: quiet_same)

text \<open>
  A request that is refused, whatever the reason, changes no file (a request for a scratch directory
  apart): the answer is an error and every entry of the file system is what it was.
\<close>

theorem fs_refused_changes_nothing:
  assumes "fs_wf (lf_fs s)" and "hex_tokens (fe_moment E)" and "no_stat_dst (fm_refused (fe_moment E)) \<noteq> Some ENOENT"
    and "no_cleanup (fm_refused (fe_moment E)) = None"
    and "\<forall>p \<in> set (request_paths req). loop_free (lf_fs s) p" and "req \<noteq> PostTmpdir"
    and "fs_handle E req s = (Inl e, s')"
  shows "\<forall>p. dict_get (lf_fs s') p = dict_get (lf_fs s) p"
proof -
  note wr = quiet_writes [OF assms(1-4)]
  have "quiet_fail s (fs_handle E req s)"
  proof (cases req)
    case (GetFile p)
    show ?thesis unfolding fs_handle_def GetFile fs_request.case h_read_file_def
      by (intro quiet_check quiet_dispatch quiet_reads quiet_ret)
  next
    case (HeadFile p)
    show ?thesis unfolding fs_handle_def HeadFile fs_request.case h_head_file_def
      by (intro quiet_check quiet_dispatch quiet_reads quiet_stat_then) (auto dest: stat_keeps simp: sret_def sraise_def)
  next
    case (PutFile p c)
    show ?thesis unfolding fs_handle_def PutFile fs_request.case h_write_file_def
      by (intro quiet_check quiet_dispatch wr quiet_ret) (use assms(5) PutFile in simp)
  next
    case (DeleteFile p)
    show ?thesis unfolding fs_handle_def DeleteFile fs_request.case h_delete_file_def
      by (intro quiet_check quiet_dispatch quiet_delete quiet_ret)
  next
    case (PostRename p q)
    show ?thesis unfolding fs_handle_def PostRename fs_request.case h_rename_file_def
      by (intro quiet_check quiet_dispatch quiet_rename quiet_ret)
  next
    case (PostCopy p q)
    show ?thesis unfolding fs_handle_def PostCopy fs_request.case h_copy_file_def
      by (intro quiet_check quiet_dispatch wr quiet_ret) (use assms(5) PostCopy in simp)
  next
    case (GetStat p)
    show ?thesis unfolding fs_handle_def GetStat fs_request.case h_stat_path_def
      by (intro quiet_check quiet_dispatch quiet_reads quiet_stat_then)
        (auto dest: stat_keeps simp: sbind_unfold slift_def sret_def split: sum.splits)
  qed (use assms(6) in simp)
  with assms(7) show ?thesis by (simp add: quiet_fail_def)
qed

definition calm_env :: fs_env where
  "calm_env = \<lparr>fe_moment = calm, fe_guess = (\<lambda>_. None), fe_iso = (\<lambda>_. Inr ''1970-01-01T00:00:00+00:00'')\<rparr>"

theorem fs_refused_changes_nothing_witness:
  "\<forall>p. dict_get (lf_fs (snd (fs_handle calm_env (PutFile ''/srv'' ''x'') served))) p = dict_get (lf_fs served) p"
proof -
  let ?req = "PutFile ''/srv'' ''x''"
  have "fst (fs_handle calm_env ?req served) = Inl (FsJetty (JettyError INVALID_REQUEST ''/srv''))" by code_simp
  then have h: "fs_handle calm_env ?req served = (Inl (FsJetty (JettyError INVALID_REQUEST ''/srv'')), snd (fs_handle calm_env ?req served))"
    by (simp add: prod_eq_iff)
  have "\<forall>p \<in> set (request_paths ?req). loop_free (lf_fs served) p" "hex_tokens (fe_moment calm_env)" by code_simp+
  moreover have "no_stat_dst (fm_refused (fe_moment calm_env)) \<noteq> Some ENOENT" "no_cleanup (fm_refused (fe_moment calm_env)) = None"
    by (simp_all add: calm_env_def calm_def)
  ultimately show ?thesis using fs_refused_changes_nothing [OF served_wf _ _ _ _ _ h] by simp
qed

end
