(* ===== verification/Sql_Dialect.thy ===== *)
theory Sql_Dialect
  imports Py_Prelude
begin

text \<open>
  \<^verbatim>\<open>src/jetty/modules/sql/dialect.py\<close>: the gate of the wire dialect. The parser \<open>sqlglot\<close> is not under
  \<open>src/\<close>: its parse function and what the gate asks of a tree (the class, the descendants of a class,
  names) are the fields of a record the gate takes as an argument.
\<close>

datatype exp_class =
  ExpPlaceholder | ExpOnConflict | ExpReturning | ExpParameter | ExpQuery | ExpInsert | ExpUpdate | ExpDelete

record 'tree sqlglot =
  sg_parse :: "string \<Rightarrow> string + 'tree option list"
  sg_isinstance :: "exp_class \<Rightarrow> 'tree \<Rightarrow> bool"
  sg_find_all :: "exp_class \<Rightarrow> 'tree \<Rightarrow> 'tree list"
  sg_name :: "'tree \<Rightarrow> string"
  sg_this :: "'tree \<Rightarrow> string"
  sg_alternative :: "'tree \<Rightarrow> string"
  sg_class :: "'tree \<Rightarrow> string"

datatype sql_kind = KIND_QUERY | KIND_DML

record classified =
  cl_kind :: sql_kind
  cl_params :: "string set"

definition is_dml :: "'tree sqlglot \<Rightarrow> 'tree \<Rightarrow> bool" where
  "is_dml G t \<longleftrightarrow> sg_isinstance G ExpInsert t \<or> sg_isinstance G ExpUpdate t \<or> sg_isinstance G ExpDelete t"

text \<open>The first objection to the tree, in the order of the code; \<open>Inl\<close> carries the text of the exception.\<close>

definition check_placeholders :: "'tree sqlglot \<Rightarrow> 'tree \<Rightarrow> string + unit" where
  "check_placeholders G tree =
     (case sg_find_all G ExpPlaceholder tree of
        [] \<Rightarrow> Inr ()
      | node # _ \<Rightarrow> Inl (''placeholder '' @ (if sg_name G node \<noteq> [] then '':'' @ sg_name G node else ''?'') @
                       '' is not GoogleSQL; parameters are @name''))"

definition check_markers :: "'tree sqlglot \<Rightarrow> 'tree \<Rightarrow> string + unit" where
  "check_markers G tree =
     (if sg_isinstance G ExpInsert tree \<and> sg_alternative G tree \<noteq> []
      then Inl (''INSERT OR '' @ sg_alternative G tree @ '' is not GoogleSQL'')
      else if sg_find_all G ExpOnConflict tree \<noteq> [] then Inl ''ON CONFLICT is not GoogleSQL''
      else if sg_find_all G ExpReturning tree \<noteq> [] then Inl ''RETURNING is not GoogleSQL''
      else Inr ())"

definition param_names :: "'tree sqlglot \<Rightarrow> 'tree \<Rightarrow> string set" where
  "param_names G tree =
     set (map (\<lambda>node. if sg_name G node \<noteq> [] then sg_name G node else sg_this G node) (sg_find_all G ExpParameter tree))"

definition statement_kind :: "'tree sqlglot \<Rightarrow> 'tree \<Rightarrow> string + sql_kind" where
  "statement_kind G tree =
     (if sg_isinstance G ExpQuery tree then Inr KIND_QUERY
      else if is_dml G tree then Inr KIND_DML
      else Inl (py_upper (sg_class G tree) @ '' is not accepted here: /query takes one SELECT, '' @
        ''/exec takes INSERT/UPDATE/DELETE, and schema changes go through /migrate''))"

definition classify :: "'tree sqlglot \<Rightarrow> string \<Rightarrow> string + classified" where
  "classify G sql =
     (case sg_parse G sql of
        Inl exc \<Rightarrow> Inl (''not GoogleSQL: '' @ exc)
      | Inr statements \<Rightarrow>
          (case List.map_filter (\<lambda>t. t) statements of
             [tree] \<Rightarrow>
               rbind (check_placeholders G tree) (\<lambda>_. rbind (check_markers G tree) (\<lambda>_.
               rbind (statement_kind G tree) (\<lambda>kind. Inr \<lparr>cl_kind = kind, cl_params = param_names G tree\<rparr>)))
           | trees \<Rightarrow> Inl (''exactly one statement per entry, got '' @ str_nat (length trees))))"

text \<open>
  The wire dialect as a predicate on the parsed text: one tree, a query or a data change, with no
  foreign placeholder and none of the markers only SQLite knows.
\<close>

definition in_dialect :: "'tree sqlglot \<Rightarrow> string \<Rightarrow> 'tree \<Rightarrow> bool" where
  "in_dialect G sql tree \<longleftrightarrow>
     (\<exists>statements. sg_parse G sql = Inr statements \<and> List.map_filter (\<lambda>t. t) statements = [tree]) \<and>
     sg_find_all G ExpPlaceholder tree = [] \<and> sg_find_all G ExpOnConflict tree = [] \<and> sg_find_all G ExpReturning tree = [] \<and>
     (sg_isinstance G ExpInsert tree \<longrightarrow> sg_alternative G tree = []) \<and>
     (sg_isinstance G ExpQuery tree \<or> is_dml G tree)"

lemma classify_Inr:
  "classify G sql = Inr c \<longleftrightarrow>
     (\<exists>tree. in_dialect G sql tree \<and> cl_params c = param_names G tree \<and>
       (cl_kind c = KIND_QUERY \<longleftrightarrow> sg_isinstance G ExpQuery tree))"
proof -
  have kind: "KIND_DML = cl_kind c \<longleftrightarrow> cl_kind c \<noteq> KIND_QUERY" by (cases "cl_kind c") simp_all
  have split: "\<lparr>cl_kind = k, cl_params = p\<rparr> = c \<longleftrightarrow> cl_kind c = k \<and> cl_params c = p" for k p
    by (cases c) auto
  show ?thesis
    unfolding classify_def in_dialect_def
    by (auto simp: result_simps check_placeholders_def check_markers_def statement_kind_def split kind
        split: sum.splits list.splits if_splits)
qed

end
