(* ===== verification/Sql_Sqlite.thy ===== *)
theory Sql_Sqlite
  imports Py_Prelude
begin

text \<open>
  \<^verbatim>\<open>src/jetty/modules/sql/driver.py\<close> and \<^verbatim>\<open>sqlite.py\<close>: the types and typed failures of the driver, and the
  driver over one SQLite file.

  The store is a parameter. A database is the rows of the ledger table (with its two unique columns) and
  the rest, of a type the model leaves open; what a client's statement does to it is a field of the record
  \<open>engine\<close>: the parameters it binds, what it reads or writes, that it controls a transaction, or that the
  store refuses it (and whether SQLite ended the transaction by itself, as it does for some errors). The
  field \<open>en_fault\<close> says when the store fails on one of the driver's own statements. The connection is
  modelled as \<^verbatim>\<open>sqlite3\<close> documents it with \<open>isolation_level=None\<close>: a statement outside a transaction commits
  at once, \<open>BEGIN\<close>, \<open>COMMIT\<close> and \<open>ROLLBACK\<close> do what they say, \<open>query_only\<close> refuses writes, and a Python integer
  outside 64 bits cannot be bound (\<open>OverflowError\<close>, which is not a \<open>sqlite3.Error\<close>).
\<close>

section \<open>Types of the driver interface\<close>

datatype sql_value = VNull | VBool bool | VInt int | VFloat pyfloat | VStr string

datatype db_value = DbWire sql_value | DbBytes string

record statement =
  st_sql :: string
  st_params :: "(string, sql_value) dict"

record result_set =
  rs_columns :: "string list"
  rs_rows :: "sql_value list list"

record migration =
  mg_name :: string
  mg_statements :: "string list"

record migrate_result =
  mr_applied :: "string list"
  mr_already_applied :: "string list"

datatype sqlite_class = IntegrityError | ProgrammingError | OtherSqliteError

record sqlite_exn =
  sx_class :: sqlite_class
  sx_errorname :: string
  sx_text :: string

datatype sql_exn =
  ConstraintViolation string | MigrationConflict string | StatementRejected string
| SqliteError sqlite_exn | DriverExn py_exn

section \<open>The store and the connection\<close>

record 'd store =
  db_ledger :: "(int \<times> string) list option"
  db_rest :: 'd

record db_result =
  dr_columns :: "string list"
  dr_rows :: "db_value list list"
  dr_rowcount :: int

datatype 'd stmt_effect =
  Reads "string list" "db_value list list" | Writes int "'d store" | TxBegin | TxCommit | TxRollback
| Refused sqlite_exn bool

record 'd engine =
  en_prepare :: "string \<Rightarrow> 'd store \<Rightarrow> sqlite_exn + string list"
  en_stmt :: "string \<Rightarrow> (string, sql_value) dict \<Rightarrow> 'd store \<Rightarrow> 'd stmt_effect"
  en_fault :: "string \<Rightarrow> 'd store \<Rightarrow> (sqlite_exn \<times> bool) option"

record 'd sqlite =
  sq_file :: "'d store"
  sq_open :: bool
  sq_tx :: "'d store option"
  sq_query_only :: bool

definition sq_view :: "'d sqlite \<Rightarrow> 'd store" where
  "sq_view s = (case sq_tx s of Some d \<Rightarrow> d | None \<Rightarrow> sq_file s)"

definition sq_put :: "'d store \<Rightarrow> 'd sqlite \<Rightarrow> 'd sqlite" where
  "sq_put d s = (case sq_tx s of Some _ \<Rightarrow> s\<lparr>sq_tx := Some d\<rparr> | None \<Rightarrow> s\<lparr>sq_file := d\<rparr>)"

definition sq_ended :: "bool \<Rightarrow> 'd sqlite \<Rightarrow> 'd sqlite" where
  "sq_ended ended s = (if ended then s\<lparr>sq_tx := None\<rparr> else s)"

definition sqlite_error :: "string \<Rightarrow> sqlite_exn" where
  "sqlite_error text = \<lparr>sx_class = OtherSqliteError, sx_errorname = ''SQLITE_ERROR'', sx_text = text\<rparr>"

definition nested_tx :: sqlite_exn where
  "nested_tx = sqlite_error ''cannot start a transaction within a transaction''"

definition no_tx :: "string \<Rightarrow> sqlite_exn" where
  "no_tx what = sqlite_error (''cannot '' @ what @ '' - no transaction is active'')"

definition tx_begin :: "'d engine \<Rightarrow> ('d sqlite, sql_exn, unit) opn" where
  "tx_begin en s =
     (case sq_tx s of
        Some _ \<Rightarrow> (Inl (SqliteError nested_tx), s)
      | None \<Rightarrow>
          (case en_fault en ''BEGIN IMMEDIATE'' (sq_file s) of
             Some (x, _) \<Rightarrow> (Inl (SqliteError x), s)
           | None \<Rightarrow> (Inr (), s\<lparr>sq_tx := Some (sq_file s)\<rparr>)))"

definition tx_commit :: "'d engine \<Rightarrow> ('d sqlite, sql_exn, unit) opn" where
  "tx_commit en s =
     (case sq_tx s of
        None \<Rightarrow> (Inl (SqliteError (no_tx ''commit'')), s)
      | Some d \<Rightarrow>
          (case en_fault en ''COMMIT'' d of
             Some (x, ended) \<Rightarrow> (Inl (SqliteError x), sq_ended ended s)
           | None \<Rightarrow> (Inr (), s\<lparr>sq_file := d, sq_tx := None\<rparr>)))"

definition tx_rollback :: "('d sqlite, sql_exn, unit) opn" where
  "tx_rollback s =
     (case sq_tx s of
        None \<Rightarrow> (Inl (SqliteError (no_tx ''rollback'')), s)
      | Some _ \<Rightarrow> (Inr (), s\<lparr>sq_tx := None\<rparr>))"

text \<open>
  \<open>conn.execute(sql, params)\<close>: prepare, bind every parameter of the prepared statement, run. The wording
  of a missing binding is abridged.
\<close>

definition fits_int64 :: "int \<Rightarrow> bool" where
  "fits_int64 i \<longleftrightarrow> - (2 ^ 63) \<le> i \<and> i < 2 ^ 63"

fun bind_params :: "(string, sql_value) dict \<Rightarrow> string list \<Rightarrow> sql_exn + (string, sql_value) dict" where
  "bind_params params [] = Inr []"
| "bind_params params (n # ns) =
     (case dict_get params n of
        None \<Rightarrow> Inl (SqliteError \<lparr>sx_class = ProgrammingError, sx_errorname = [], sx_text = ''no value for '' @ n\<rparr>)
      | Some v \<Rightarrow>
          (case v of
             VInt i \<Rightarrow> (if fits_int64 i then rbind (bind_params params ns) (\<lambda>b. Inr ((n, v) # b)) else Inl (DriverExn OverflowError))
           | _ \<Rightarrow> rbind (bind_params params ns) (\<lambda>b. Inr ((n, v) # b))))"

definition done_result :: "int \<Rightarrow> db_result" where
  "done_result n = \<lparr>dr_columns = [], dr_rows = [], dr_rowcount = n\<rparr>"

definition conn_execute :: "'d engine \<Rightarrow> string \<Rightarrow> (string, sql_value) dict \<Rightarrow> ('d sqlite, sql_exn, db_result) opn" where
  "conn_execute en sql params s =
     (case en_prepare en sql (sq_view s) of
        Inl x \<Rightarrow> (Inl (SqliteError x), s)
      | Inr names \<Rightarrow>
          (case bind_params params names of
             Inl e \<Rightarrow> (Inl e, s)
           | Inr bound \<Rightarrow>
               (case en_stmt en sql bound (sq_view s) of
                  Reads columns rows \<Rightarrow> (Inr \<lparr>dr_columns = columns, dr_rows = rows, dr_rowcount = -1\<rparr>, s)
                | Writes n d \<Rightarrow>
                    (if sq_query_only s
                     then (Inl (SqliteError \<lparr>sx_class = OtherSqliteError, sx_errorname = ''SQLITE_READONLY'',
                                             sx_text = ''attempt to write a readonly database''\<rparr>), s)
                     else (Inr (done_result n), sq_put d s))
                | TxBegin \<Rightarrow> sbind (tx_begin en) (\<lambda>_. sret (done_result (-1))) s
                | TxCommit \<Rightarrow> sbind (tx_commit en) (\<lambda>_. sret (done_result (-1))) s
                | TxRollback \<Rightarrow> sbind tx_rollback (\<lambda>_. sret (done_result (-1))) s
                | Refused x ended \<Rightarrow> (Inl (SqliteError x), sq_ended ended s))))"

section \<open>The driver\<close>

definition LEDGER :: string where
  "LEDGER = ''_jetty_sql_migrations''"

definition REJECTION_CODES :: "string set" where
  "REJECTION_CODES = {''SQLITE_ERROR'', ''SQLITE_RANGE'', ''SQLITE_MISMATCH''}"

definition translate :: "sqlite_exn \<Rightarrow> sql_exn option" where
  "translate exc =
     (if sx_class exc = IntegrityError then Some (ConstraintViolation (sx_text exc))
      else if sx_class exc = ProgrammingError then Some (StatementRejected (sx_text exc))
      else if sx_errorname exc \<in> REJECTION_CODES then Some (StatementRejected (sx_text exc))
      else None)"

definition translated :: "sql_exn \<Rightarrow> sql_exn" where
  "translated e = (case e of SqliteError x \<Rightarrow> (case translate x of Some t \<Rightarrow> t | None \<Rightarrow> e) | _ \<Rightarrow> e)"

text \<open>
  Opening a file: what \<open>sqlite3.connect\<close> and the first pragma do is the argument \<open>opened\<close>. Closing a
  connection ends its transaction without committing it.
\<close>

definition sql_open :: "sqlite_exn + 'd store \<Rightarrow> ('d sqlite, sql_exn, unit) opn" where
  "sql_open opened s =
     (case opened of
        Inl x \<Rightarrow> (Inl (SqliteError x), s)
      | Inr d \<Rightarrow> (Inr (), \<lparr>sq_file = d, sq_open = True, sq_tx = None, sq_query_only = False\<rparr>))"

definition sql_close :: "('d sqlite, sql_exn, unit) opn" where
  "sql_close s = (Inr (), if sq_open s then s\<lparr>sq_open := False, sq_tx := None\<rparr> else s)"

definition with_db :: "('d sqlite, sql_exn, 'a) opn \<Rightarrow> ('d sqlite, sql_exn, 'a) opn" where
  "with_db m s = (if sq_open s then m s else (Inl (DriverExn RuntimeError), s))"

definition sql_ping :: "'d engine \<Rightarrow> ('d sqlite, sql_exn, unit) opn" where
  "sql_ping en = with_db (\<lambda>s. (case en_fault en ''SELECT 1'' (sq_view s) of
      Some (x, ended) \<Rightarrow> (Inl (SqliteError x), sq_ended ended s) | None \<Rightarrow> (Inr (), s)))"

definition wire_value :: "db_value \<Rightarrow> sql_exn + sql_value" where
  "wire_value v =
     (case v of
        DbWire w \<Rightarrow> Inr w
      | DbBytes _ \<Rightarrow> Inl (StatementRejected (''result contains a bytes value, which is outside sql-v1's value set ('' @
                           [CHR 0xA7] @ ''4)'')))"

definition sql_query :: "'d engine \<Rightarrow> statement \<Rightarrow> ('d sqlite, sql_exn, result_set) opn" where
  "sql_query en stmt = with_db (\<lambda>s.
     (let (r, s') = conn_execute en (st_sql stmt) (st_params stmt) (s\<lparr>sq_query_only := True\<rparr>)
      in ((case r of
             Inl e \<Rightarrow> Inl (translated e)
           | Inr cur \<Rightarrow> rbind (rmap (rmap wire_value) (dr_rows cur))
               (\<lambda>rows. Inr \<lparr>rs_columns = dr_columns cur, rs_rows = rows\<rparr>)),
          s'\<lparr>sq_query_only := False\<rparr>)))"

fun run_batch :: "'d engine \<Rightarrow> statement list \<Rightarrow> ('d sqlite, sql_exn, int list) opn" where
  "run_batch en [] = sret []"
| "run_batch en (stmt # stmts) =
     sbind (conn_execute en (st_sql stmt) (st_params stmt)) (\<lambda>r.
     sbind (run_batch en stmts) (\<lambda>counts. sret (dr_rowcount r # counts)))"

text \<open>
  \<open>BEGIN IMMEDIATE\<close>, a body that ends in \<open>COMMIT\<close>, and the handler: only a \<open>sqlite3.Error\<close> of the body rolls
  back, and a rollback that fails replaces the error it handles.
\<close>

definition in_transaction :: "'d engine \<Rightarrow> (sql_exn \<Rightarrow> sql_exn) \<Rightarrow> ('d sqlite, sql_exn, 'a) opn \<Rightarrow> ('d sqlite, sql_exn, 'a) opn" where
  "in_transaction en handled body =
     sbind (tx_begin en) (\<lambda>_ s.
       (case sbind body (\<lambda>x. sbind (tx_commit en) (\<lambda>_. sret x)) s of
          (Inl (SqliteError exc), s') \<Rightarrow> sbind tx_rollback (\<lambda>_. sraise (handled (SqliteError exc))) s'
        | (r, s') \<Rightarrow> (r, s')))"

definition sql_execute :: "'d engine \<Rightarrow> statement list \<Rightarrow> ('d sqlite, sql_exn, int list) opn" where
  "sql_execute en stmts = with_db (in_transaction en translated (run_batch en stmts))"

subsection \<open>Migrations\<close>

definition check_history :: "string list \<Rightarrow> string list \<Rightarrow> sql_exn + unit" where
  "check_history applied names =
     (if length (remdups names) \<noteq> length names then
        (case find (\<lambda>n. 1 < count_list names n) names of
           Some dupe \<Rightarrow> Inl (MigrationConflict (''migration name '' @ py_repr dupe @ '' appears twice''))
         | None \<Rightarrow> Inl (DriverExn RuntimeError))
      else if length names < length applied then
        Inl (MigrationConflict (str_nat (length applied) @ '' migrations are applied but only '' @
          str_nat (length names) @ '' were submitted; migrations cannot be removed''))
      else
        (case find (\<lambda>(pos, have, want). have \<noteq> want) (enumerate 0 (zip applied names)) of
           None \<Rightarrow> Inr ()
         | Some (pos, have, want) \<Rightarrow>
             Inl (MigrationConflict (''position '' @ str_nat pos @ '' is applied as '' @ py_repr have @
               '' but submitted as '' @ py_repr want @ ''; applied history cannot be rewritten''))))"

text \<open>The driver's own statements on the ledger: \<open>CREATE TABLE IF NOT EXISTS\<close>, \<open>SELECT \<dots> ORDER BY pos\<close>, \<open>INSERT\<close>.\<close>

definition own_statement :: "'d engine \<Rightarrow> string \<Rightarrow> ('d store \<Rightarrow> sqlite_exn + 'a \<times> 'd store) \<Rightarrow> ('d sqlite, sql_exn, 'a) opn" where
  "own_statement en tag f s =
     (case en_fault en tag (sq_view s) of
        Some (x, ended) \<Rightarrow> (Inl (SqliteError x), sq_ended ended s)
      | None \<Rightarrow>
          (case f (sq_view s) of
             Inl x \<Rightarrow> (Inl (SqliteError x), s)
           | Inr (a, d) \<Rightarrow> (Inr a, sq_put d s)))"

definition ledger_rows :: "'d store \<Rightarrow> (int \<times> string) list" where
  "ledger_rows d = (case db_ledger d of Some rows \<Rightarrow> rows | None \<Rightarrow> [])"

definition ledger_create :: "'d engine \<Rightarrow> ('d sqlite, sql_exn, unit) opn" where
  "ledger_create en = own_statement en ''CREATE'' (\<lambda>d. Inr ((), d\<lparr>db_ledger := Some (ledger_rows d)\<rparr>))"

definition no_ledger :: sqlite_exn where
  "no_ledger = sqlite_error (''no such table: '' @ LEDGER)"

definition ledger_names :: "'d engine \<Rightarrow> ('d sqlite, sql_exn, string list) opn" where
  "ledger_names en = own_statement en ''SELECT'' (\<lambda>d.
     (case db_ledger d of Some rows \<Rightarrow> Inr (map snd (sort_key fst rows), d) | None \<Rightarrow> Inl no_ledger))"

definition ledger_insert :: "'d engine \<Rightarrow> nat \<Rightarrow> string \<Rightarrow> ('d sqlite, sql_exn, unit) opn" where
  "ledger_insert en pos name = own_statement en ''INSERT'' (\<lambda>d.
     (case db_ledger d of
        None \<Rightarrow> Inl no_ledger
      | Some rows \<Rightarrow>
          (if int pos \<in> fst ` set rows then
             Inl \<lparr>sx_class = IntegrityError, sx_errorname = ''SQLITE_CONSTRAINT_PRIMARYKEY'',
                  sx_text = ''UNIQUE constraint failed: '' @ LEDGER @ ''.pos''\<rparr>
           else if name \<in> snd ` set rows then
             Inl \<lparr>sx_class = IntegrityError, sx_errorname = ''SQLITE_CONSTRAINT_UNIQUE'',
                  sx_text = ''UNIQUE constraint failed: '' @ LEDGER @ ''.name''\<rparr>
           else Inr ((), d\<lparr>db_ledger := Some (rows @ [(int pos, name)])\<rparr>))))"

fun run_statements :: "'d engine \<Rightarrow> string list \<Rightarrow> ('d sqlite, sql_exn, unit) opn" where
  "run_statements en [] = sret ()"
| "run_statements en (sql # sqls) = sbind (conn_execute en sql []) (\<lambda>_. run_statements en sqls)"

definition exn_text :: "sql_exn \<Rightarrow> string" where
  "exn_text e = (case e of ConstraintViolation t \<Rightarrow> t | MigrationConflict t \<Rightarrow> t | StatementRejected t \<Rightarrow> t | _ \<Rightarrow> [])"

definition migration_error :: "string \<Rightarrow> sql_exn \<Rightarrow> sql_exn" where
  "migration_error name e =
     (case e of
        SqliteError x \<Rightarrow>
          (case translate x of
             Some t \<Rightarrow> StatementRejected (''migration '' @ py_repr name @ '': '' @ exn_text t)
           | None \<Rightarrow> e)
      | _ \<Rightarrow> e)"

definition apply_migration :: "'d engine \<Rightarrow> nat \<Rightarrow> migration \<Rightarrow> ('d sqlite, sql_exn, unit) opn" where
  "apply_migration en pos m =
     in_transaction en (migration_error (mg_name m))
       (sbind (run_statements en (mg_statements m)) (\<lambda>_. ledger_insert en pos (mg_name m)))"

fun apply_pending :: "'d engine \<Rightarrow> nat \<Rightarrow> nat \<Rightarrow> migration list \<Rightarrow> ('d sqlite, sql_exn, string list) opn" where
  "apply_pending en n pos [] = sret []"
| "apply_pending en n pos (m # ms) =
     (if pos < n then apply_pending en n (Suc pos) ms
      else sbind (apply_migration en pos m) (\<lambda>_.
           sbind (apply_pending en n (Suc pos) ms) (\<lambda>newly. sret (mg_name m # newly))))"

definition sql_migrate :: "'d engine \<Rightarrow> migration list \<Rightarrow> ('d sqlite, sql_exn, migrate_result) opn" where
  "sql_migrate en migrations = with_db (
     sbind (ledger_create en) (\<lambda>_.
     sbind (ledger_names en) (\<lambda>applied.
     sbind (slift (check_history applied (map mg_name migrations))) (\<lambda>_.
     sbind (apply_pending en (length applied) 0 migrations) (\<lambda>newly.
       sret \<lparr>mr_applied = newly, mr_already_applied = applied\<rparr>)))))"

end
