(* ===== verification/Sql_Surface.thy ===== *)
theory Sql_Surface
  imports Sql_Dialect Sql_Sqlite Server
begin

text \<open>
  \<^verbatim>\<open>src/jetty/modules/sql/module.py\<close>: the error table, the wire shapes (what pydantic accepts of a JSON
  body), the gate, the mapping of driver failures, the routes, construction and boot.
\<close>

section \<open>Errors\<close>

datatype sql_api_exn = SqlApiError string string | SqlJetty jetty_error | SqlInvalidBody

definition SQL_SEMANTICS :: "(string, int \<times> bool) dict" where
  "SQL_SEMANTICS =
     [(''unsupported_sql'', 400, False), (''sql_error'', 400, False),
      (''constraint_violation'', 409, False), (''migration_conflict'', 409, False)]"

definition sql_api_response :: "string \<Rightarrow> string \<Rightarrow> http_response" where
  "sql_api_response code message =
     (case dict_get SQL_SEMANTICS code of
        Some (status, retryable) \<Rightarrow>
          \<lparr>resp_status = status,
           resp_json = PDict [(''error'', PDict [(''code'', PStr code), (''message'', PStr message), (''retryable'', PBool retryable)])]\<rparr>
      | None \<Rightarrow> unhandled_error_handler KeyError)"

definition sql_route :: "sql_api_exn + pyval \<Rightarrow> http_response" where
  "sql_route r =
     (case r of
        Inr j \<Rightarrow> \<lparr>resp_status = 200, resp_json = j\<rparr>
      | Inl (SqlApiError code message) \<Rightarrow> sql_api_response code message
      | Inl (SqlJetty e) \<Rightarrow> jetty_error_handler e
      | Inl SqlInvalidBody \<Rightarrow> validation_response)"

section \<open>Configuration and boot\<close>

record sql_settings =
  sqs_driver :: string
  sqs_path :: string

definition SqlModule :: "sql_settings \<Rightarrow> py_exn + string" where
  "SqlModule cfg = (if sqs_driver cfg \<noteq> ''sqlite'' then Inl ValueError else Inr (sqs_path cfg))"

definition sql_startup :: "'d engine \<Rightarrow> sqlite_exn + 'd store \<Rightarrow> ('d sqlite, sql_exn, unit) opn" where
  "sql_startup en opened = sbind (sql_open opened) (\<lambda>_. sql_ping en)"

definition sql_shutdown :: "('d sqlite, sql_exn, unit) opn" where
  "sql_shutdown s = (Inr (), snd (sql_close s))"

section \<open>Wire shapes\<close>

definition only_keys :: "string list \<Rightarrow> (string \<times> pyval) list \<Rightarrow> bool" where
  "only_keys allowed d \<longleftrightarrow> list_all (\<lambda>(k, _). k \<in> set allowed) d"

definition sql_value_of :: "pyval \<Rightarrow> sql_api_exn + sql_value" where
  "sql_value_of v =
     (case v of
        PNone \<Rightarrow> Inr VNull | PBool b \<Rightarrow> Inr (VBool b) | PInt i \<Rightarrow> Inr (VInt i) | PFloat f \<Rightarrow> Inr (VFloat f)
      | PStr t \<Rightarrow> Inr (VStr t) | _ \<Rightarrow> Inl SqlInvalidBody)"

definition params_of :: "pyval option \<Rightarrow> sql_api_exn + (string, sql_value) dict" where
  "params_of p =
     (case p of
        None \<Rightarrow> Inr []
      | Some (PDict d) \<Rightarrow> rmap (\<lambda>(k, v). rbind (sql_value_of v) (\<lambda>w. Inr (k, w))) d
      | _ \<Rightarrow> Inl SqlInvalidBody)"

definition WireStatement :: "pyval \<Rightarrow> sql_api_exn + statement" where
  "WireStatement body =
     (case body of
        PDict d \<Rightarrow>
          (if \<not> only_keys [''sql'', ''params''] d then Inl SqlInvalidBody
           else case dict_get d ''sql'' of
             Some (PStr sql) \<Rightarrow> rbind (params_of (dict_get d ''params'')) (\<lambda>ps. Inr \<lparr>st_sql = sql, st_params = ps\<rparr>)
           | _ \<Rightarrow> Inl SqlInvalidBody)
      | _ \<Rightarrow> Inl SqlInvalidBody)"

definition ExecRequest :: "pyval \<Rightarrow> sql_api_exn + statement list" where
  "ExecRequest body =
     (case body of
        PDict d \<Rightarrow>
          (if \<not> only_keys [''statements''] d then Inl SqlInvalidBody
           else case dict_get d ''statements'' of
             Some (PList (x # xs)) \<Rightarrow> rmap WireStatement (x # xs)
           | _ \<Rightarrow> Inl SqlInvalidBody)
      | _ \<Rightarrow> Inl SqlInvalidBody)"

definition text_of :: "pyval \<Rightarrow> sql_api_exn + string" where
  "text_of v = (case v of PStr t \<Rightarrow> Inr t | _ \<Rightarrow> Inl SqlInvalidBody)"

definition WireMigration :: "pyval \<Rightarrow> sql_api_exn + migration" where
  "WireMigration body =
     (case body of
        PDict d \<Rightarrow>
          (if \<not> only_keys [''name'', ''statements''] d then Inl SqlInvalidBody
           else case (dict_get d ''name'', dict_get d ''statements'') of
             (Some (PStr (c # cs)), Some (PList xs)) \<Rightarrow>
               rbind (rmap text_of xs) (\<lambda>sqls. Inr \<lparr>mg_name = c # cs, mg_statements = sqls\<rparr>)
           | _ \<Rightarrow> Inl SqlInvalidBody)
      | _ \<Rightarrow> Inl SqlInvalidBody)"

definition MigrateRequest :: "pyval \<Rightarrow> sql_api_exn + migration list" where
  "MigrateRequest body =
     (case body of
        PDict d \<Rightarrow>
          (if \<not> only_keys [''migrations''] d then Inl SqlInvalidBody
           else case dict_get d ''migrations'' of
             None \<Rightarrow> Inr []
           | Some (PList xs) \<Rightarrow> rmap WireMigration xs
           | _ \<Rightarrow> Inl SqlInvalidBody)
      | _ \<Rightarrow> Inl SqlInvalidBody)"

section \<open>The gate\<close>

definition param_mismatch :: "string set \<Rightarrow> string set \<Rightarrow> string" where
  "param_mismatch wanted provided =
     (let missing = sorted_list_of_set (wanted - provided); unused = sorted_list_of_set (provided - wanted);
          parts = (if missing \<noteq> [] then [''missing: '' @ py_join '', '' missing] else []) @
                  (if unused \<noteq> [] then [''unused: '' @ py_join '', '' unused] else [])
      in ''parameter set does not match the statement ('' @ py_join ''; '' parts @ '')'')"

definition gate :: "'tree sqlglot \<Rightarrow> sql_kind \<Rightarrow> statement \<Rightarrow> sql_api_exn + statement" where
  "gate G expect wire =
     (case classify G (st_sql wire) of
        Inl exc \<Rightarrow> Inl (SqlApiError ''unsupported_sql'' exc)
      | Inr c \<Rightarrow>
          (if cl_kind c \<noteq> expect then
             Inl (SqlApiError ''unsupported_sql'' (''wrong statement kind: '' @
               (if expect = KIND_QUERY then ''/query takes one SELECT'' else ''/exec takes INSERT, UPDATE, or DELETE'')))
           else if set (dict_keys (st_params wire)) \<noteq> cl_params c then
             Inl (SqlJetty (JettyError INVALID_REQUEST (param_mismatch (cl_params c) (set (dict_keys (st_params wire))))))
           else Inr \<lparr>st_sql = st_sql wire, st_params = st_params wire\<rparr>))"

section \<open>Driver calls and routes\<close>

definition sql_drive_exn :: "sql_exn \<Rightarrow> sql_api_exn" where
  "sql_drive_exn e =
     (case e of
        ConstraintViolation t \<Rightarrow> SqlApiError ''constraint_violation'' t
      | MigrationConflict t \<Rightarrow> SqlApiError ''migration_conflict'' t
      | StatementRejected t \<Rightarrow> SqlApiError ''sql_error'' t
      | _ \<Rightarrow> SqlJetty (JettyError UPSTREAM_UNAVAILABLE ''backing store unavailable''))"

definition sql_drive :: "('d sqlite, sql_exn, 'a) opn \<Rightarrow> ('d sqlite, sql_api_exn, 'a) opn" where
  "sql_drive m s = (case m s of (Inl e, s') \<Rightarrow> (Inl (sql_drive_exn e), s') | (Inr x, s') \<Rightarrow> (Inr x, s'))"

definition value_json :: "sql_value \<Rightarrow> pyval" where
  "value_json v = (case v of VNull \<Rightarrow> PNone | VBool b \<Rightarrow> PBool b | VInt i \<Rightarrow> PInt i | VFloat f \<Rightarrow> PFloat f | VStr t \<Rightarrow> PStr t)"

definition h_sql_query :: "'tree sqlglot \<Rightarrow> 'd engine \<Rightarrow> pyval \<Rightarrow> ('d sqlite, sql_api_exn, pyval) opn" where
  "h_sql_query G en body =
     sbind (slift (WireStatement body)) (\<lambda>wire.
     sbind (slift (gate G KIND_QUERY wire)) (\<lambda>stmt.
     sbind (sql_drive (sql_query en stmt)) (\<lambda>result.
       sret (PDict [(''columns'', PList (map PStr (rs_columns result))),
                    (''rows'', PList (map (\<lambda>row. PList (map value_json row)) (rs_rows result)))]))))"

definition h_sql_exec :: "'tree sqlglot \<Rightarrow> 'd engine \<Rightarrow> pyval \<Rightarrow> ('d sqlite, sql_api_exn, pyval) opn" where
  "h_sql_exec G en body =
     sbind (slift (ExecRequest body)) (\<lambda>wires.
     sbind (slift (rmap (gate G KIND_DML) wires)) (\<lambda>stmts.
     sbind (sql_drive (sql_execute en stmts)) (\<lambda>counts.
       sret (PDict [(''rowcounts'', PList (map PInt counts))]))))"

definition h_sql_migrate :: "'d engine \<Rightarrow> pyval \<Rightarrow> ('d sqlite, sql_api_exn, pyval) opn" where
  "h_sql_migrate en body =
     sbind (slift (MigrateRequest body)) (\<lambda>migrations.
     sbind (sql_drive (sql_migrate en migrations)) (\<lambda>result.
       sret (PDict [(''applied'', PList (map PStr (mr_applied result))),
                    (''already_applied'', PList (map PStr (mr_already_applied result)))])))"

definition sql_dialect :: string where
  "sql_dialect = ''sqlite''"

definition h_sql_backend :: "('d sqlite, sql_api_exn, pyval) opn" where
  "h_sql_backend = sret (PDict [(''dialect'', PStr sql_dialect)])"

datatype sql_request = SqlQuery pyval | SqlExec pyval | SqlMigrate pyval | SqlBackend

primrec sql_handler :: "'tree sqlglot \<Rightarrow> 'd engine \<Rightarrow> sql_request \<Rightarrow> ('d sqlite, sql_api_exn, pyval) opn" where
  "sql_handler G en (SqlQuery body) = h_sql_query G en body"
| "sql_handler G en (SqlExec body) = h_sql_exec G en body"
| "sql_handler G en (SqlMigrate body) = h_sql_migrate en body"
| "sql_handler G en SqlBackend = h_sql_backend"

definition sql_serve :: "'tree sqlglot \<Rightarrow> 'd engine \<Rightarrow> sql_request \<Rightarrow> 'd sqlite \<Rightarrow> http_response \<times> 'd sqlite" where
  "sql_serve G en req s = (case sql_handler G en req s of (r, s') \<Rightarrow> (sql_route r, s'))"

section \<open>What the gate admits and how failures read\<close>

lemma gate_Inr:
  "gate G k wire = Inr stmt \<longleftrightarrow>
     (\<exists>tree. in_dialect G (st_sql wire) tree \<and> (k = KIND_QUERY \<longleftrightarrow> sg_isinstance G ExpQuery tree) \<and>
        set (dict_keys (st_params wire)) = param_names G tree \<and> stmt = wire)"
proof -
  have rec: "\<lparr>st_sql = st_sql wire, st_params = st_params wire\<rparr> = wire" by (cases wire) simp
  show ?thesis
  proof (cases "classify G (st_sql wire)")
    case (Inl e)
    moreover have "\<not> in_dialect G (st_sql wire) tree" for tree
    proof
      assume "in_dialect G (st_sql wire) tree"
      then have "classify G (st_sql wire) =
          Inr \<lparr>cl_kind = if sg_isinstance G ExpQuery tree then KIND_QUERY else KIND_DML, cl_params = param_names G tree\<rparr>"
        unfolding classify_Inr by (intro exI [of _ tree]) simp
      with Inl show False by simp
    qed
    ultimately show ?thesis by (simp add: gate_def)
  next
    case (Inr c)
    then obtain tree where t: "in_dialect G (st_sql wire) tree" "cl_params c = param_names G tree"
      "cl_kind c = KIND_QUERY \<longleftrightarrow> sg_isinstance G ExpQuery tree"
      unfolding classify_Inr by blast
    have uniq: "in_dialect G (st_sql wire) tree' \<Longrightarrow> tree' = tree" for tree'
      using t(1) by (auto simp: in_dialect_def)
    have "gate G k wire = Inr stmt \<longleftrightarrow> cl_kind c = k \<and> set (dict_keys (st_params wire)) = cl_params c \<and> stmt = wire"
      using Inr by (auto simp: gate_def rec)
    moreover have "cl_kind c = k \<longleftrightarrow> (k = KIND_QUERY \<longleftrightarrow> sg_isinstance G ExpQuery tree)"
      using t(3) by (cases "cl_kind c"; cases k) simp_all
    ultimately have "gate G k wire = Inr stmt \<longleftrightarrow>
        (k = KIND_QUERY \<longleftrightarrow> sg_isinstance G ExpQuery tree) \<and> set (dict_keys (st_params wire)) = param_names G tree \<and> stmt = wire"
      using t(2) by simp
    with t(1) uniq show ?thesis by blast
  qed
qed

lemma gated_same: "gate G k wire = Inr stmt \<Longrightarrow> stmt = wire"
  by (auto simp: gate_Inr)

lemma gate_all: "rmap (gate G k) wires = Inr stmts \<Longrightarrow> stmts = wires"
  unfolding rmap_Inr_iff by (induction rule: list_all2_induct) (auto dest: gated_same)

text \<open>Every exception a handler raises reads as an error.\<close>

definition reads_as_error :: "sql_api_exn \<Rightarrow> bool" where
  "reads_as_error e \<longleftrightarrow> 400 \<le> resp_status (sql_route (Inl e))"

lemma reads_as_error_simps [simp]:
  "reads_as_error (SqlApiError code m)" "reads_as_error (SqlJetty (JettyError c m))" "reads_as_error SqlInvalidBody"
proof -
  show "reads_as_error (SqlApiError code m)"
    by (auto simp: reads_as_error_def sql_route_def sql_api_response_def SQL_SEMANTICS_def unhandled_error_handler_def
        Let_def JettyError_def)
  show "reads_as_error (SqlJetty (JettyError c m))"
    using core_errors.status_error [of c] by (simp add: reads_as_error_def sql_route_def jetty_error_handler_def JettyError_def)
  show "reads_as_error SqlInvalidBody"
    by (simp add: reads_as_error_def sql_route_def validation_response_def jetty_error_handler_def JettyError_def)
qed

lemma WireStatement_error: "WireStatement b = Inl e \<Longrightarrow> e = SqlInvalidBody"
  by (auto simp: WireStatement_def params_of_def sql_value_of_def result_simps dest!: rmap_Inl
      split: pyval.splits if_splits option.splits)

lemma ExecRequest_error: "ExecRequest b = Inl e \<Longrightarrow> e = SqlInvalidBody"
  unfolding ExecRequest_def
  by (auto simp del: rmap.simps dest!: rmap_Inl WireStatement_error split: pyval.splits if_splits option.splits list.splits)

lemma MigrateRequest_error: "MigrateRequest b = Inl e \<Longrightarrow> e = SqlInvalidBody"
  by (auto simp: MigrateRequest_def WireMigration_def text_of_def result_simps dest!: rmap_Inl
      split: pyval.splits if_splits option.splits list.splits)

lemma gate_error: "gate G k w = Inl e \<Longrightarrow> reads_as_error e"
  by (auto simp: gate_def split: sum.splits if_splits)

lemma drive_error: "sql_drive m s = (Inl e, s') \<Longrightarrow> reads_as_error e"
  by (auto simp: sql_drive_def sql_drive_exn_def split: prod.splits sum.splits sql_exn.splits)

lemma sql_handler_error: "sql_handler G en req s = (Inl e, s') \<Longrightarrow> reads_as_error e"
  by (cases req)
    (auto simp: h_sql_query_def h_sql_exec_def h_sql_migrate_def h_sql_backend_def sbind_unfold
      dest: WireStatement_error ExecRequest_error MigrateRequest_error gate_error drive_error dest!: rmap_Inl
      split: prod.splits sum.splits)

lemma sql_serve_200:
  "resp_status (fst (sql_serve G en req s)) = 200 \<longleftrightarrow> \<not> isl (fst (sql_handler G en req s))"
proof (cases "sql_handler G en req s")
  case (Pair r s')
  show ?thesis
  proof (cases r)
    case (Inl e)
    then have "400 \<le> resp_status (sql_route (Inl e))"
      using sql_handler_error [of G en req s e s'] Pair by (simp add: reads_as_error_def)
    then show ?thesis by (simp add: sql_serve_def Pair Inl)
  next
    case (Inr j)
    then show ?thesis by (simp add: sql_serve_def sql_route_def Pair)
  qed
qed

end
