(* ===== verification/Sql_Service.thy ===== *)
theory Sql_Service
  imports Sql_Surface
begin

text \<open>
  The promises of the sql module: a batch is all or nothing, a query writes nothing, migrations extend the
  history one whole migration at a time. Each is stated against a reference that runs the statements on the
  store with no transaction at all. The last section shows where the promises end.
\<close>

section \<open>The reference\<close>

definition effect_on :: "'d engine \<Rightarrow> string \<Rightarrow> (string, sql_value) dict \<Rightarrow> 'd store \<Rightarrow> (db_result \<times> 'd store) option" where
  "effect_on en sql params d =
     (case en_prepare en sql d of
        Inl _ \<Rightarrow> None
      | Inr names \<Rightarrow>
          (case bind_params params names of
             Inl _ \<Rightarrow> None
           | Inr bound \<Rightarrow>
               (case en_stmt en sql bound d of
                  Reads columns rows \<Rightarrow> Some (\<lparr>dr_columns = columns, dr_rows = rows, dr_rowcount = -1\<rparr>, d)
                | Writes n d' \<Rightarrow> Some (done_result n, d')
                | _ \<Rightarrow> None)))"

definition then_on :: "('d store \<Rightarrow> ('a \<times> 'd store) option) \<Rightarrow> ('a \<Rightarrow> 'd store \<Rightarrow> ('b \<times> 'd store) option) \<Rightarrow>
    'd store \<Rightarrow> ('b \<times> 'd store) option" where
  "then_on g h d = (case g d of None \<Rightarrow> None | Some (x, d') \<Rightarrow> h x d')"

fun batch_effect :: "'d engine \<Rightarrow> statement list \<Rightarrow> 'd store \<Rightarrow> (int list \<times> 'd store) option" where
  "batch_effect en [] = (\<lambda>d. Some ([], d))"
| "batch_effect en (st # sts) =
     then_on (effect_on en (st_sql st) (st_params st)) (\<lambda>r.
     then_on (batch_effect en sts) (\<lambda>counts d. Some (dr_rowcount r # counts, d)))"

fun statements_effect :: "'d engine \<Rightarrow> string list \<Rightarrow> 'd store \<Rightarrow> (unit \<times> 'd store) option" where
  "statements_effect en [] = (\<lambda>d. Some ((), d))"
| "statements_effect en (sql # sqls) = then_on (effect_on en sql []) (\<lambda>_. statements_effect en sqls)"

text \<open>Recording a migration: the row goes to the end, unless position or name is taken.\<close>

definition ledger_put :: "'d engine \<Rightarrow> nat \<Rightarrow> string \<Rightarrow> 'd store \<Rightarrow> (unit \<times> 'd store) option" where
  "ledger_put en pos name d =
     (case (en_fault en ''INSERT'' d, db_ledger d) of
        (None, Some rows) \<Rightarrow>
          (if int pos \<in> fst ` set rows \<or> name \<in> snd ` set rows then None
           else Some ((), d\<lparr>db_ledger := Some (rows @ [(int pos, name)])\<rparr>))
      | _ \<Rightarrow> None)"

definition migration_effect :: "'d engine \<Rightarrow> nat \<Rightarrow> migration \<Rightarrow> 'd store \<Rightarrow> (unit \<times> 'd store) option" where
  "migration_effect en pos m = then_on (statements_effect en (mg_statements m)) (\<lambda>_. ledger_put en pos (mg_name m))"

fun migrations_effect :: "'d engine \<Rightarrow> nat \<Rightarrow> migration list \<Rightarrow> 'd store \<Rightarrow> (unit \<times> 'd store) option" where
  "migrations_effect en pos [] = (\<lambda>d. Some ((), d))"
| "migrations_effect en pos (m # ms) = then_on (migration_effect en pos m) (\<lambda>_. migrations_effect en (Suc pos) ms)"

text \<open>A parser and a store to try the statements on: one table that counts its rows.\<close>

definition try_glot :: "string sqlglot" where
  "try_glot =
     \<lparr>sg_parse = (\<lambda>sql. Inr [Some sql]),
      sg_isinstance = (\<lambda>c t. (c = ExpInsert \<and> prefix ''INSERT'' t) \<or> (c = ExpQuery \<and> prefix ''SELECT'' t)),
      sg_find_all = (\<lambda>c t. if c = ExpParameter \<and> prefix ''INSERT'' t then [''x''] else []),
      sg_name = (\<lambda>t. t), sg_this = (\<lambda>t. t), sg_alternative = (\<lambda>t. []), sg_class = (\<lambda>t. t)\<rparr>"

definition try_engine :: "int engine" where
  "try_engine =
     \<lparr>en_prepare = (\<lambda>sql d. Inr (if prefix ''INSERT'' sql then [''x''] else [])),
      en_stmt = (\<lambda>sql b d. if prefix ''INSERT'' sql then Writes 1 (d\<lparr>db_rest := db_rest d + 1\<rparr>)
                           else if prefix ''CREATE'' sql then Writes (-1) (d\<lparr>db_rest := 0\<rparr>)
                           else Reads [''n''] [[DbWire (VInt (db_rest d))]]),
      en_fault = (\<lambda>tag d. None)\<rparr>"

definition try_sqlite :: "int sqlite" where
  "try_sqlite = \<lparr>sq_file = \<lparr>db_ledger = None, db_rest = 0\<rparr>, sq_open = True, sq_tx = None, sq_query_only = False\<rparr>"

section \<open>Transactions\<close>

definition idle :: "'d sqlite \<Rightarrow> bool" where
  "idle s \<longleftrightarrow> sq_open s \<and> sq_tx s = None \<and> \<not> sq_query_only s"

text \<open>The statement is not transaction control: what the gate is for.\<close>

definition plain :: "'d engine \<Rightarrow> string \<Rightarrow> bool" where
  "plain en sql \<longleftrightarrow> (\<forall>bound d. en_stmt en sql bound d \<noteq> TxBegin \<and> en_stmt en sql bound d \<noteq> TxCommit \<and> en_stmt en sql bound d \<noteq> TxRollback)"

text \<open>Every integer among the parameters fits 64 bits.\<close>

definition ints_fit :: "(string, sql_value) dict \<Rightarrow> bool" where
  "ints_fit params \<longleftrightarrow> list_all (\<lambda>(_, v). case v of VInt i \<Rightarrow> fits_int64 i | _ \<Rightarrow> True) params"

text \<open>Inside a transaction, the operation does to the pending store what the reference does to a store.\<close>

definition runs_as :: "('d sqlite, sql_exn, 'a) opn \<Rightarrow> ('d store \<Rightarrow> ('a \<times> 'd store) option) \<Rightarrow> bool" where
  "runs_as body g \<longleftrightarrow>
     (\<forall>s d. sq_tx s = Some d \<longrightarrow> \<not> sq_query_only s \<longrightarrow>
        (case g d of
           Some (x, d') \<Rightarrow> body s = (Inr x, s\<lparr>sq_tx := Some d'\<rparr>)
         | None \<Rightarrow> \<exists>exc t. body s = (Inl (SqliteError exc), s\<lparr>sq_tx := t\<rparr>)))"

lemma runs_asD:
  assumes "runs_as body g" and "sq_tx s = Some d" and "\<not> sq_query_only s"
  shows "g d = Some (x, d') \<Longrightarrow> body s = (Inr x, s\<lparr>sq_tx := Some d'\<rparr>)"
    and "g d = None \<Longrightarrow> \<exists>exc t. body s = (Inl (SqliteError exc), s\<lparr>sq_tx := t\<rparr>)"
  using assms by (auto simp: runs_as_def dest!: spec [of _ s])

lemma runs_as_sret: "runs_as (sret x) (\<lambda>d. Some (x, d))"
proof -
  have "sq_tx s = Some d \<Longrightarrow> s\<lparr>sq_tx := Some d\<rparr> = s" for s :: "'a sqlite" and d by (cases s) simp
  then show ?thesis by (simp add: runs_as_def)
qed

lemma runs_as_sbind:
  assumes m: "runs_as m g" and f: "\<And>x. runs_as (f x) (h x)"
  shows "runs_as (sbind m f) (then_on g h)"
  unfolding runs_as_def
proof (intro allI impI)
  fix s :: "'a sqlite" and d
  assume s: "sq_tx s = Some d" "\<not> sq_query_only s"
  show "case then_on g h d of
          None \<Rightarrow> \<exists>exc t. sbind m f s = (Inl (SqliteError exc), s\<lparr>sq_tx := t\<rparr>)
        | Some (x, d') \<Rightarrow> sbind m f s = (Inr x, s\<lparr>sq_tx := Some d'\<rparr>)"
  proof (cases "g d")
    case None
    then show ?thesis using runs_asD(2) [OF m s] by (auto simp: then_on_def sbind_unfold)
  next
    case (Some xd)
    obtain x d' where xd: "xd = (x, d')" by (cases xd)
    have m': "m s = (Inr x, s\<lparr>sq_tx := Some d'\<rparr>)" using runs_asD(1) [OF m s] Some xd by simp
    have f': "case h x d' of None \<Rightarrow> \<exists>exc t. f x (s\<lparr>sq_tx := Some d'\<rparr>) = (Inl (SqliteError exc), s\<lparr>sq_tx := t\<rparr>)
        | Some (y, d'') \<Rightarrow> f x (s\<lparr>sq_tx := Some d'\<rparr>) = (Inr y, s\<lparr>sq_tx := Some d''\<rparr>)"
      using runs_asD [OF f, of "s\<lparr>sq_tx := Some d'\<rparr>" d' x] s by (auto split: option.splits)
    then show ?thesis by (auto simp: then_on_def Some xd m' split: option.splits)
  qed
qed

lemma bind_params_error:
  "bind_params params ns = Inl e \<Longrightarrow> ints_fit params \<Longrightarrow> \<exists>exc. e = SqliteError exc"
proof (induction ns)
  case (Cons n ns)
  have "dict_get params n = Some (VInt i) \<Longrightarrow> fits_int64 i" for i
    using Cons.prems(2) by (auto simp: ints_fit_def list_all_iff dest!: map_of_SomeD)
  with Cons show ?case by (auto simp: result_simps split: option.splits sql_value.splits if_splits)
qed simp

lemma conn_execute_runs_as:
  assumes "plain en sql" and "ints_fit params"
  shows "runs_as (conn_execute en sql params) (effect_on en sql params)"
proof -
  have id: "sq_tx s = Some d \<Longrightarrow> s\<lparr>sq_tx := Some d\<rparr> = s" for s :: "'a sqlite" and d by (cases s) simp
  have "bind_params params ns = Inl e \<Longrightarrow> \<exists>exc t. e = SqliteError exc \<and> s = s\<lparr>sq_tx := t\<rparr>" if "sq_tx s = Some d" for ns e d and s :: "'a sqlite"
    using bind_params_error assms(2) id [OF that] by metis
  moreover have "sq_tx s = Some d \<Longrightarrow> \<exists>t. s = s\<lparr>sq_tx := t\<rparr>" for s :: "'a sqlite" and d by (metis id)
  moreover have "sq_tx s = Some d \<Longrightarrow> \<exists>t. sq_ended b s = s\<lparr>sq_tx := t\<rparr>" for s :: "'a sqlite" and b d
    by (metis id sq_ended_def)
  ultimately show ?thesis
    using assms(1)
    by (auto simp: runs_as_def conn_execute_def effect_on_def plain_def sq_view_def sq_put_def id
        split: option.splits sum.splits stmt_effect.splits)
qed

lemma run_batch_runs_as:
  "\<forall>st \<in> set sts. plain en (st_sql st) \<and> ints_fit (st_params st) \<Longrightarrow> runs_as (run_batch en sts) (batch_effect en sts)"
  by (induction sts) (auto intro!: runs_as_sbind runs_as_sret conn_execute_runs_as)

lemma ints_fit_Nil: "ints_fit []"
  by (simp add: ints_fit_def)

lemma run_statements_runs_as:
  "\<forall>sql \<in> set sqls. plain en sql \<Longrightarrow> runs_as (run_statements en sqls) (statements_effect en sqls)"
  by (induction sqls) (auto intro!: runs_as_sbind runs_as_sret conn_execute_runs_as ints_fit_Nil)

lemma ledger_insert_runs_as: "runs_as (ledger_insert en pos name) (ledger_put en pos name)"
proof -
  have id: "sq_tx s = Some d \<Longrightarrow> s\<lparr>sq_tx := Some d\<rparr> = s" for s :: "'a sqlite" and d by (cases s) simp
  have "sq_tx s = Some d \<Longrightarrow> \<exists>t. s = s\<lparr>sq_tx := t\<rparr>" for s :: "'a sqlite" and d by (metis id)
  moreover have "sq_tx s = Some d \<Longrightarrow> \<exists>t. sq_ended b s = s\<lparr>sq_tx := t\<rparr>" for s :: "'a sqlite" and b d
    by (metis id sq_ended_def)
  ultimately show ?thesis
    by (auto simp: runs_as_def ledger_insert_def own_statement_def ledger_put_def sq_view_def sq_put_def
        split: option.splits)
qed

text \<open>All or nothing.\<close>

lemma in_transaction_atomic:
  assumes "idle s" and "runs_as body g"
  shows "in_transaction en handled body s = (r, s') \<Longrightarrow>
      (case r of Inl e \<Rightarrow> s' = s | Inr x \<Rightarrow> \<exists>d'. g (sq_file s) = Some (x, d') \<and> s' = s\<lparr>sq_file := d'\<rparr>)"
    and "\<lbrakk>g (sq_file s) = Some (x, d'); en_fault en ''BEGIN IMMEDIATE'' (sq_file s) = None; en_fault en ''COMMIT'' d' = None\<rbrakk> \<Longrightarrow>
      in_transaction en handled body s = (Inr x, s\<lparr>sq_file := d'\<rparr>)"
proof -
  from assms(1) have tx: "sq_tx s = None" and qo: "\<not> sq_query_only s" by (simp_all add: idle_def)
  have ended: "s\<lparr>sq_tx := None\<rparr> = s" using tx by (cases s) simp
  have fin: "s\<lparr>sq_file := d, sq_tx := None\<rparr> = s\<lparr>sq_file := d\<rparr>" for d using tx by (cases s) simp
  let ?s1 = "s\<lparr>sq_tx := Some (sq_file s)\<rparr>"
  have b1: "g (sq_file s) = Some (y, d) \<Longrightarrow> body ?s1 = (Inr y, s\<lparr>sq_tx := Some d\<rparr>)" for y d
    using runs_asD(1) [OF assms(2), of ?s1] qo by simp
  have b2: "g (sq_file s) = None \<Longrightarrow> \<exists>exc t. body ?s1 = (Inl (SqliteError exc), s\<lparr>sq_tx := t\<rparr>)"
    using runs_asD(2) [OF assms(2), of ?s1] qo by simp
  show "case r of Inl e \<Rightarrow> s' = s | Inr x \<Rightarrow> \<exists>d'. g (sq_file s) = Some (x, d') \<and> s' = s\<lparr>sq_file := d'\<rparr>"
    if run: "in_transaction en handled body s = (r, s')"
  proof (cases "en_fault en ''BEGIN IMMEDIATE'' (sq_file s)")
    case (Some x)
    then show ?thesis using run tx by (auto simp: in_transaction_def tx_begin_def sbind_unfold split: prod.splits)
  next
    case None
    then have beg: "tx_begin en s = (Inr (), ?s1)" by (simp add: tx_begin_def tx)
    show ?thesis
    proof (cases "g (sq_file s)")
      case None
      then show ?thesis using run b2 ended
        by (auto simp: in_transaction_def beg sbind_unfold tx_rollback_def split: option.splits)
    next
      case (Some yd)
      obtain y d where yd: "yd = (y, d)" by (cases yd)
      note b1' = b1 [of y d, OF Some [unfolded yd]]
      show ?thesis using run ended
        by (auto simp: in_transaction_def beg sbind_unfold b1' fin tx_commit_def tx_rollback_def sq_ended_def Some yd
            split: option.splits prod.splits if_splits)
    qed
  qed
  show "in_transaction en handled body s = (Inr x, s\<lparr>sq_file := d'\<rparr>)"
    if "g (sq_file s) = Some (x, d')" "en_fault en ''BEGIN IMMEDIATE'' (sq_file s) = None" "en_fault en ''COMMIT'' d' = None"
  proof -
    have "tx_begin en s = (Inr (), ?s1)" using that(2) by (simp add: tx_begin_def tx)
    then show ?thesis using b1 [OF that(1)] that(3)
      by (simp add: in_transaction_def sbind_unfold tx_commit_def fin)
  qed
qed

section \<open>Batches and queries\<close>

lemma sql_execute_atomic:
  assumes "idle s" and "\<forall>st \<in> set sts. plain en (st_sql st) \<and> ints_fit (st_params st)"
  shows "sql_execute en sts s = (r, s') \<Longrightarrow>
      (case r of Inl e \<Rightarrow> s' = s | Inr counts \<Rightarrow> \<exists>d'. batch_effect en sts (sq_file s) = Some (counts, d') \<and> s' = s\<lparr>sq_file := d'\<rparr>)"
    and "\<lbrakk>batch_effect en sts (sq_file s) = Some (counts, d'); en_fault en ''BEGIN IMMEDIATE'' (sq_file s) = None;
        en_fault en ''COMMIT'' d' = None\<rbrakk> \<Longrightarrow> sql_execute en sts s = (Inr counts, s\<lparr>sq_file := d'\<rparr>)"
proof -
  have open_s: "sq_open s" using assms(1) by (simp add: idle_def)
  note t = in_transaction_atomic [OF assms(1) run_batch_runs_as [OF assms(2)]]
  show "sql_execute en sts s = (r, s') \<Longrightarrow>
      (case r of Inl e \<Rightarrow> s' = s | Inr counts \<Rightarrow> \<exists>d'. batch_effect en sts (sq_file s) = Some (counts, d') \<and> s' = s\<lparr>sq_file := d'\<rparr>)"
    using t(1) [of en translated r s'] open_s by (simp add: sql_execute_def with_db_def)
  show "\<lbrakk>batch_effect en sts (sq_file s) = Some (counts, d'); en_fault en ''BEGIN IMMEDIATE'' (sq_file s) = None;
        en_fault en ''COMMIT'' d' = None\<rbrakk> \<Longrightarrow> sql_execute en sts s = (Inr counts, s\<lparr>sq_file := d'\<rparr>)"
    using t(2) [of counts d' en translated] open_s by (simp add: sql_execute_def with_db_def)
qed

text \<open>The gate admits the statement for a batch: a data change in the wire dialect with exactly its parameters.\<close>

definition admitted :: "'tree sqlglot \<Rightarrow> sql_kind \<Rightarrow> statement \<Rightarrow> bool" where
  "admitted G k st \<longleftrightarrow>
     (\<exists>tree. in_dialect G (st_sql st) tree \<and> (k = KIND_QUERY \<longleftrightarrow> sg_isinstance G ExpQuery tree) \<and>
        set (dict_keys (st_params st)) = param_names G tree)"

lemma gate_all_iff: "rmap (gate G k) wires = Inr stmts \<longleftrightarrow> stmts = wires \<and> list_all (admitted G k) wires"
proof -
  have "gate G k w = Inr st \<longleftrightarrow> st = w \<and> admitted G k w" for w st by (auto simp: gate_Inr admitted_def)
  then show ?thesis unfolding rmap_Inr_iff
    by (auto simp: list_all2_conv_all_nth list_all_length intro: nth_equalityI)
qed

lemma h_sql_exec_unfold:
  "h_sql_exec G en body s =
     (case ExecRequest body of
        Inl e \<Rightarrow> (Inl e, s)
      | Inr wires \<Rightarrow>
          (case rmap (gate G KIND_DML) wires of
             Inl e \<Rightarrow> (Inl e, s)
           | Inr stmts \<Rightarrow>
               (case sql_execute en stmts s of
                  (Inl e, s') \<Rightarrow> (Inl (sql_drive_exn e), s')
                | (Inr counts, s') \<Rightarrow> (Inr (PDict [(''rowcounts'', PList (map PInt counts))]), s'))))"
  by (auto simp: h_sql_exec_def sql_drive_def sbind_unfold split: sum.splits prod.splits)

lemma sql_serve_parts:
  assumes "sql_handler G en req s = (r, s')" and "sql_serve G en req s = (resp, t)"
  shows "t = s'" and "resp_status resp = 200 \<longleftrightarrow> \<not> isl r" and "r = Inr j \<Longrightarrow> resp_json resp = j"
  using sql_serve_200 [of G en req s] assms by (auto simp: sql_serve_def sql_route_def)

text \<open>
  C9: A write batch is all or nothing. On an idle connection, for a body whose statements are no transaction
  control and whose integers fit 64 bits: \<open>200\<close> means that the body is well formed, every statement is a data
  change of the wire dialect with exactly its parameters, the file afterwards is what running the statements
  in order on it gives, and the response lists their row counts; any other status means the file is
  untouched and the connection idle as before. An admitted batch the store can run is answered \<open>200\<close>.
\<close>

theorem exec_all_or_nothing:
  assumes "idle s"
    and "\<forall>wires st. ExecRequest body = Inr wires \<longrightarrow> st \<in> set wires \<longrightarrow> plain en (st_sql st) \<and> ints_fit (st_params st)"
    and "sql_serve G en (SqlExec body) s = (resp, s')"
  shows "(resp_status resp = 200 \<longrightarrow>
      (\<exists>wires counts d'. ExecRequest body = Inr wires \<and> list_all (admitted G KIND_DML) wires \<and>
         batch_effect en wires (sq_file s) = Some (counts, d') \<and> s' = s\<lparr>sq_file := d'\<rparr> \<and>
         resp_json resp = PDict [(''rowcounts'', PList (map PInt counts))])) \<and>
    (resp_status resp \<noteq> 200 \<longrightarrow> s' = s) \<and>
    (\<forall>wires counts d'. ExecRequest body = Inr wires \<longrightarrow> list_all (admitted G KIND_DML) wires \<longrightarrow>
       batch_effect en wires (sq_file s) = Some (counts, d') \<longrightarrow>
       en_fault en ''BEGIN IMMEDIATE'' (sq_file s) = None \<longrightarrow> en_fault en ''COMMIT'' d' = None \<longrightarrow> resp_status resp = 200)"
proof -
  obtain r t where h: "h_sql_exec G en body s = (r, t)" by (cases "h_sql_exec G en body s")
  note parts = sql_serve_parts [of G en "SqlExec body", unfolded sql_handler.simps, OF h assms(3)]
  have pre: "\<forall>st \<in> set wires. plain en (st_sql st) \<and> ints_fit (st_params st)" if "ExecRequest body = Inr wires" for wires
    using assms(2) that by blast
  note atomic = sql_execute_atomic [OF assms(1) pre]
  have "(\<exists>j wires counts d'. r = Inr j \<and> ExecRequest body = Inr wires \<and> list_all (admitted G KIND_DML) wires \<and>
        batch_effect en wires (sq_file s) = Some (counts, d') \<and> t = s\<lparr>sq_file := d'\<rparr> \<and>
        j = PDict [(''rowcounts'', PList (map PInt counts))]) \<or> isl r \<and> t = s"
    using h unfolding h_sql_exec_unfold
    by (auto simp: gate_all_iff dest!: atomic(1) split: sum.splits prod.splits) blast+
  moreover have "\<not> isl r" if "ExecRequest body = Inr wires" "list_all (admitted G KIND_DML) wires"
      "batch_effect en wires (sq_file s) = Some (counts, d')" "en_fault en ''BEGIN IMMEDIATE'' (sq_file s) = None"
      "en_fault en ''COMMIT'' d' = None" for wires counts d'
  proof -
    have "rmap (gate G KIND_DML) wires = Inr wires" using that(2) by (simp add: gate_all_iff)
    then show ?thesis using h atomic(2) [OF that(1,3,4,5)] by (auto simp: h_sql_exec_unfold that(1))
  qed
  ultimately show ?thesis using parts by auto
qed

theorem exec_all_or_nothing_witness:
  "resp_status (fst (sql_serve try_glot try_engine (SqlExec (PDict [(''statements'', PList [PDict [(''sql'', PStr ''INSERT''), (''params'', PDict [(''x'', PInt 7)])]])])) try_sqlite)) = 200"
proof -
  let ?body = "PDict [(''statements'', PList [PDict [(''sql'', PStr ''INSERT''), (''params'', PDict [(''x'', PInt 7)])]])]"
  let ?st = "\<lparr>st_sql = ''INSERT'', st_params = [(''x'', VInt 7)]\<rparr>"
  have body: "ExecRequest ?body = Inr [?st]"
    by (simp add: ExecRequest_def WireStatement_def only_keys_def params_of_def sql_value_of_def)
  have adm: "admitted try_glot KIND_DML ?st"
    by (auto simp: admitted_def in_dialect_def is_dml_def param_names_def try_glot_def List.map_filter_def)
  have pre: "\<forall>wires st. ExecRequest ?body = Inr wires \<longrightarrow> st \<in> set wires \<longrightarrow> plain try_engine (st_sql st) \<and> ints_fit (st_params st)"
    by (auto simp: body plain_def try_engine_def ints_fit_def fits_int64_def)
  have idle: "idle try_sqlite" by (simp add: idle_def try_sqlite_def)
  obtain resp s' where run: "sql_serve try_glot try_engine (SqlExec ?body) try_sqlite = (resp, s')"
    by (cases "sql_serve try_glot try_engine (SqlExec ?body) try_sqlite")
  have "batch_effect try_engine [?st] (sq_file try_sqlite) = Some ([1], \<lparr>db_ledger = None, db_rest = 1\<rparr>)"
    by (simp add: then_on_def effect_on_def try_engine_def try_sqlite_def fits_int64_def done_result_def)
  then show ?thesis
    using exec_all_or_nothing [OF idle pre run] body adm run by (simp add: try_engine_def)
qed

text \<open>What a statement reads, when it only reads.\<close>

definition reads_on :: "'d engine \<Rightarrow> string \<Rightarrow> (string, sql_value) dict \<Rightarrow> 'd store \<Rightarrow> (string list \<times> db_value list list) option" where
  "reads_on en sql params d =
     (case en_prepare en sql d of
        Inl _ \<Rightarrow> None
      | Inr names \<Rightarrow>
          (case bind_params params names of
             Inl _ \<Rightarrow> None
           | Inr bound \<Rightarrow> (case en_stmt en sql bound d of Reads columns rows \<Rightarrow> Some (columns, rows) | _ \<Rightarrow> None)))"

lemma rmap_inverse: "(\<And>x y. f x = Inr y \<longleftrightarrow> x = g y) \<Longrightarrow> rmap f xs = Inr ys \<longleftrightarrow> xs = map g ys"
  by (induction xs arbitrary: ys) (auto simp: result_simps Cons_eq_map_conv)

lemma wire_rows: "rmap (rmap wire_value) rows = Inr vss \<longleftrightarrow> rows = map (map DbWire) vss"
proof (rule rmap_inverse)
  fix row vs
  show "rmap wire_value row = Inr vs \<longleftrightarrow> row = map DbWire vs"
  proof (rule rmap_inverse)
    show "wire_value v = Inr w \<longleftrightarrow> v = DbWire w" for v w
      by (auto simp: wire_value_def split: db_value.splits)
  qed
qed

lemma sql_query_idle:
  assumes "idle s" and "plain en (st_sql st)" and "sql_query en st s = (r, s')"
  shows "s' = s" and "r = Inr rs \<longleftrightarrow> (\<exists>columns vss. rs = \<lparr>rs_columns = columns, rs_rows = vss\<rparr> \<and>
      reads_on en (st_sql st) (st_params st) (sq_file s) = Some (columns, map (map DbWire) vss))"
proof -
  from assms(1) have tx: "sq_open s" "sq_tx s = None" "\<not> sq_query_only s" by (simp_all add: idle_def)
  have same: "s\<lparr>sq_query_only := False\<rparr> = s" "s\<lparr>sq_query_only := False, sq_tx := None\<rparr> = s"
    "s\<lparr>sq_query_only := True, sq_tx := None\<rparr> = s\<lparr>sq_query_only := True\<rparr>"
    using tx by (cases s; simp)+
  show "s' = s"
    using assms(2,3) unfolding sql_query_def with_db_def conn_execute_def
    by (auto simp: tx same sq_view_def sq_ended_def plain_def Let_def
        split: sum.splits stmt_effect.splits prod.splits if_splits)
  have "fst (sql_query en st s) = Inr rs \<longleftrightarrow> (\<exists>columns vss. rs = \<lparr>rs_columns = columns, rs_rows = vss\<rparr> \<and>
      reads_on en (st_sql st) (st_params st) (sq_file s) = Some (columns, map (map DbWire) vss))"
    using assms(2) unfolding sql_query_def with_db_def conn_execute_def reads_on_def
    by (auto simp: tx sq_view_def plain_def Let_def rbind_Inr_iff wire_rows split: sum.splits stmt_effect.splits)
  then show "r = Inr rs \<longleftrightarrow> (\<exists>columns vss. rs = \<lparr>rs_columns = columns, rs_rows = vss\<rparr> \<and>
      reads_on en (st_sql st) (st_params st) (sq_file s) = Some (columns, map (map DbWire) vss))"
    using assms(3) by simp
qed



section \<open>Migrations\<close>

lemma check_history_Inr: "check_history applied names = Inr () \<longleftrightarrow> distinct names \<and> prefix applied names"
proof -
  have dist: "length (remdups names) = length names \<longleftrightarrow> distinct names"
    by (metis distinct_card distinct_remdups length_remdups_card_conv remdups_id_iff_distinct card_distinct)
  have pre: "prefix applied names \<longleftrightarrow> length applied \<le> length names \<and> (\<forall>(a, b) \<in> set (zip applied names). a = b)"
  proof (induction applied arbitrary: names)
    case (Cons a applied)
    then show ?case by (cases names) auto
  qed simp
  have "find (\<lambda>(pos, have, want). have \<noteq> want) (enumerate 0 (zip applied names)) = None \<longleftrightarrow>
      (\<forall>(a, b) \<in> set (zip applied names). a = b)"
  proof -
    have "set (zip applied names) = snd ` set (enumerate 0 (zip applied names))"
      by (metis list.set_map map_snd_enumerate)
    then show ?thesis by (auto simp: find_None_iff)
  qed
  then show ?thesis
    using dist pre by (auto simp: check_history_def not_less split: option.splits)
qed

text \<open>The ledger of a history: the names in order at the positions from zero.\<close>

definition ledger_of :: "string list \<Rightarrow> (int \<times> string) list" where
  "ledger_of names = map (\<lambda>(i, n). (int i, n)) (enumerate 0 names)"

definition history :: "'d store \<Rightarrow> string list" where
  "history d = map snd (ledger_rows d)"

definition wf_ledger :: "'d store \<Rightarrow> bool" where
  "wf_ledger d \<longleftrightarrow> ledger_rows d = ledger_of (history d) \<and> distinct (history d)"

lemma ledger_of_simps [simp]:
  "map snd (ledger_of names) = names"
  "fst ` set (ledger_of names) = int ` {..<length names}"
  "snd ` set (ledger_of names) = set names"
  "ledger_of (names @ [n]) = ledger_of names @ [(int (length names), n)]"
  "sort_key fst (ledger_of names) = ledger_of names"
proof -
  show s: "map snd (ledger_of names) = names"
    by (simp add: ledger_of_def o_def case_prod_beta)
  have split: "map fst (map (\<lambda>(i, n :: string). (int i, n)) xs) = map int (map fst xs)" for xs by (induction xs) auto
  have f: "map fst (ledger_of names) = map int [0..<length names]"
    using split [of "enumerate 0 names"] by (simp only: ledger_of_def map_fst_enumerate add_0)
  then show "fst ` set (ledger_of names) = int ` {..<length names}"
    by (metis atLeast_upt list.set_map)
  show "snd ` set (ledger_of names) = set names" using s by (metis list.set_map)
  show "ledger_of (names @ [n]) = ledger_of names @ [(int (length names), n)]"
    by (simp add: ledger_of_def enumerate_append_eq)
  show "sort_key fst (ledger_of names) = ledger_of names"
    by (rule sort_key_id_if_sorted) (simp add: f sorted_map sorted_wrt_mono_rel)
qed

text \<open>What a migration's statements may be: no transaction control, and they leave the ledger alone.\<close>

definition leaves_ledger :: "'d engine \<Rightarrow> string \<Rightarrow> bool" where
  "leaves_ledger en sql \<longleftrightarrow> (\<forall>bound d n d'. en_stmt en sql bound d = Writes n d' \<longrightarrow> db_ledger d' = db_ledger d)"

definition tame :: "'d engine \<Rightarrow> migration \<Rightarrow> bool" where
  "tame en m \<longleftrightarrow> (\<forall>sql \<in> set (mg_statements m). plain en sql \<and> leaves_ledger en sql)"

lemma statements_keep_ledger:
  "\<lbrakk>statements_effect en sqls d = Some (u, d'); \<forall>sql \<in> set sqls. leaves_ledger en sql\<rbrakk> \<Longrightarrow> db_ledger d' = db_ledger d"
proof (induction sqls arbitrary: d)
  case (Cons sql sqls)
  then obtain r d1 where e: "effect_on en sql [] d = Some (r, d1)" "statements_effect en sqls d1 = Some (u, d')"
    by (auto simp: then_on_def split: option.splits)
  have "db_ledger d1 = db_ledger d"
    using e(1) Cons.prems(2) by (auto simp: effect_on_def leaves_ledger_def split: sum.splits stmt_effect.splits)
  with Cons.IH [OF e(2)] Cons.prems(2) show ?case by simp
qed simp

lemma migration_extends_ledger:
  assumes "migration_effect en (length old) m d = Some (u, d')" and "tame en m" and "db_ledger d = Some (ledger_of old)"
  shows "db_ledger d' = Some (ledger_of (old @ [mg_name m])) \<and> mg_name m \<notin> set old"
proof -
  obtain d1 where d1: "statements_effect en (mg_statements m) d = Some ((), d1)" "ledger_put en (length old) (mg_name m) d1 = Some (u, d')"
    using assms(1) by (auto simp: migration_effect_def then_on_def split: option.splits)
  have "db_ledger d1 = Some (ledger_of old)"
    using statements_keep_ledger [OF d1(1)] assms(2,3) by (auto simp: tame_def)
  with d1(2) show ?thesis by (auto simp: ledger_put_def split: option.splits if_splits)
qed

lemma migrations_extend_ledger:
  "\<lbrakk>migrations_effect en (length old) ms d = Some (u, d'); \<forall>m \<in> set ms. tame en m; db_ledger d = Some (ledger_of old); distinct old\<rbrakk> \<Longrightarrow>
    db_ledger d' = Some (ledger_of (old @ map mg_name ms)) \<and> distinct (old @ map mg_name ms)"
proof (induction ms arbitrary: old d)
  case (Cons m ms)
  then obtain d1 where d1: "migration_effect en (length old) m d = Some ((), d1)" "migrations_effect en (Suc (length old)) ms d1 = Some (u, d')"
    by (auto simp: then_on_def split: option.splits)
  have "db_ledger d1 = Some (ledger_of (old @ [mg_name m])) \<and> mg_name m \<notin> set old"
    using migration_extends_ledger [OF d1(1)] Cons.prems by simp
  with Cons.IH [of "old @ [mg_name m]" d1] d1(2) Cons.prems show ?case by simp
qed simp

lemma apply_migration_atomic:
  assumes "idle s" and "tame en m" and "apply_migration en pos m s = (r, s')"
  shows "case r of Inl e \<Rightarrow> s' = s | Inr x \<Rightarrow> \<exists>d'. migration_effect en pos m (sq_file s) = Some (x, d') \<and> s' = s\<lparr>sq_file := d'\<rparr>"
proof -
  have "runs_as (sbind (run_statements en (mg_statements m)) (\<lambda>_. ledger_insert en pos (mg_name m))) (migration_effect en pos m)"
    unfolding migration_effect_def
    by (rule runs_as_sbind [OF run_statements_runs_as ledger_insert_runs_as]) (use assms(2) in \<open>auto simp: tame_def\<close>)
  from in_transaction_atomic(1) [OF assms(1) this assms(3) [unfolded apply_migration_def]] show ?thesis .
qed

lemma idle_put: "idle s \<Longrightarrow> idle (s\<lparr>sq_file := d\<rparr>)"
  by (simp add: idle_def)

lemma apply_pending_atomic:
  assumes "apply_pending en 0 pos ms s = (r, s')" and "idle s" and "\<forall>m \<in> set ms. tame en m"
  shows "case r of
      Inr newly \<Rightarrow> newly = map mg_name ms \<and> (\<exists>d. migrations_effect en pos ms (sq_file s) = Some ((), d) \<and> s' = s\<lparr>sq_file := d\<rparr>)
    | Inl e \<Rightarrow> \<exists>k < length ms. \<exists>d. migrations_effect en pos (take k ms) (sq_file s) = Some ((), d) \<and> s' = s\<lparr>sq_file := d\<rparr>"
  using assms
proof (induction ms arbitrary: pos s r)
  case Nil
  then show ?case by auto
next
  case (Cons m ms)
  obtain q s1 where q: "apply_migration en pos m s = (q, s1)" by (cases "apply_migration en pos m s")
  note step = apply_migration_atomic [OF Cons.prems(2) _ q]
  show ?case
  proof (cases q)
    case (Inl e)
    with Cons.prems q step show ?thesis by (intro sum.split [THEN iffD2]) auto
  next
    case (Inr x)
    then obtain d1 where d1: "migration_effect en pos m (sq_file s) = Some ((), d1)" "s1 = s\<lparr>sq_file := d1\<rparr>"
      using step Cons.prems by auto
    obtain r1 s2 where r1: "apply_pending en 0 (Suc pos) ms s1 = (r1, s2)" by (cases "apply_pending en 0 (Suc pos) ms s1")
    have r: "r = (case r1 of Inl e \<Rightarrow> Inl e | Inr newly \<Rightarrow> Inr (mg_name m # newly))" "s' = s2"
      using Cons.prems(1) q Inr r1 by (auto simp: sbind_unfold split: sum.splits)
    have IH: "case r1 of
        Inr newly \<Rightarrow> newly = map mg_name ms \<and> (\<exists>d. migrations_effect en (Suc pos) ms d1 = Some ((), d) \<and> s2 = s\<lparr>sq_file := d\<rparr>)
      | Inl e \<Rightarrow> \<exists>k < length ms. \<exists>d. migrations_effect en (Suc pos) (take k ms) d1 = Some ((), d) \<and> s2 = s\<lparr>sq_file := d\<rparr>"
      using Cons.IH [of "Suc pos" s1 r1] r1 Cons.prems idle_put [OF Cons.prems(2), of d1] d1(2) r(2)
      by (auto split: sum.splits)
    show ?thesis
    proof (cases r1)
      case (Inr newly)
      with IH r d1 show ?thesis by (auto simp: then_on_def)
    next
      case (Inl e)
      with IH obtain k d where k: "k < length ms" "migrations_effect en (Suc pos) (take k ms) d1 = Some ((), d)" "s2 = s\<lparr>sq_file := d\<rparr>"
        by auto
      then have "migrations_effect en pos (take (Suc k) (m # ms)) (sq_file s) = Some ((), d)"
        using d1(1) by (simp add: then_on_def)
      with k r Inl show ?thesis by (auto intro!: exI [of _ "Suc k"])
    qed
  qed
qed

lemma apply_pending_skips:
  "apply_pending en n pos ms = apply_pending en 0 (pos + (n - pos)) (drop (n - pos) ms)"
proof (induction ms arbitrary: pos)
  case (Cons m ms)
  show ?case
  proof (cases "pos < n")
    case True
    then have "n - pos = Suc (n - Suc pos)" by simp
    with True Cons.IH [of "Suc pos"] show ?thesis by simp
  next
    case False
    with Cons.IH [of "Suc pos"] show ?thesis by simp
  qed
qed simp

text \<open>The store once the ledger table exists.\<close>

definition with_ledger :: "'d store \<Rightarrow> 'd store" where
  "with_ledger d = d\<lparr>db_ledger := Some (ledger_rows d)\<rparr>"

lemma with_ledger_simps [simp]:
  "db_ledger (with_ledger d) = Some (ledger_rows d)" "ledger_rows (with_ledger d) = ledger_rows d"
  "history (with_ledger d) = history d"
  by (simp_all add: with_ledger_def ledger_rows_def history_def)

lemma ledger_create_idle:
  "idle s \<Longrightarrow> ledger_create en s =
     (case en_fault en ''CREATE'' (sq_file s) of
        Some (x, _) \<Rightarrow> (Inl (SqliteError x), s) | None \<Rightarrow> (Inr (), s\<lparr>sq_file := with_ledger (sq_file s)\<rparr>))"
  by (cases s) (auto simp: idle_def ledger_create_def own_statement_def sq_view_def sq_ended_def sq_put_def with_ledger_def
      split: option.splits)

lemma ledger_names_idle:
  assumes "idle s" and "wf_ledger (sq_file s)"
  shows "ledger_names en (s\<lparr>sq_file := with_ledger (sq_file s)\<rparr>) =
     (case en_fault en ''SELECT'' (with_ledger (sq_file s)) of
        Some (x, _) \<Rightarrow> (Inl (SqliteError x), s\<lparr>sq_file := with_ledger (sq_file s)\<rparr>)
      | None \<Rightarrow> (Inr (history (sq_file s)), s\<lparr>sq_file := with_ledger (sq_file s)\<rparr>))"
proof -
  have "map snd (sort_key fst (ledger_rows (sq_file s))) = history (sq_file s)"
    using assms(2) by (metis ledger_of_simps(1,5) wf_ledger_def)
  then show ?thesis using assms(1)
    by (cases s) (auto simp: idle_def ledger_names_def own_statement_def sq_view_def sq_ended_def sq_put_def split: option.splits)
qed

lemma sql_migrate_idle:
  assumes "idle s" and "wf_ledger (sq_file s)" and "\<forall>m \<in> set ms. tame en m" and "sql_migrate en ms s = (r, s')"
  defines "old \<equiv> history (sq_file s)" and "pending \<equiv> drop (length (history (sq_file s))) ms"
  shows "case r of
      Inr res \<Rightarrow> check_history old (map mg_name ms) = Inr () \<and> res = \<lparr>mr_applied = map mg_name pending, mr_already_applied = old\<rparr> \<and>
        (\<exists>d. migrations_effect en (length old) pending (with_ledger (sq_file s)) = Some ((), d) \<and> s' = s\<lparr>sq_file := d\<rparr>)
    | Inl e \<Rightarrow> s' = s \<or> (\<exists>k d. k \<le> length pending \<and>
        migrations_effect en (length old) (take k pending) (with_ledger (sq_file s)) = Some ((), d) \<and> s' = s\<lparr>sq_file := d\<rparr>)"
proof -
  let ?s0 = "s\<lparr>sq_file := with_ledger (sq_file s)\<rparr>"
  have created: "\<exists>k d. k \<le> length pending \<and>
      migrations_effect en (length old) (take k pending) (with_ledger (sq_file s)) = Some ((), d) \<and> ?s0 = s\<lparr>sq_file := d\<rparr>"
    by (intro exI [of _ 0] exI [of _ "with_ledger (sq_file s)"]) simp
  have skip: "apply_pending en (length old) 0 ms = apply_pending en 0 (length old) pending"
    using apply_pending_skips [of en "length old" 0 ms] by (simp add: pending_def old_def)
  have open_s: "sq_open s" using assms(1) by (simp add: idle_def)
  show ?thesis
  proof (cases "en_fault en ''CREATE'' (sq_file s)")
    case (Some x)
    then show ?thesis using assms(4) open_s
      by (auto simp: sql_migrate_def with_db_def sbind_unfold ledger_create_idle [OF assms(1)] split: prod.splits)
  next
    case None
    note create = None
    show ?thesis
    proof (cases "en_fault en ''SELECT'' (with_ledger (sq_file s))")
      case (Some x)
      then have "r = Inl (SqliteError (fst x)) \<and> s' = ?s0" using assms(4) open_s create
        by (auto simp: sql_migrate_def with_db_def sbind_unfold ledger_create_idle [OF assms(1)]
            ledger_names_idle [OF assms(1,2)] split: prod.splits)
      then have r: "r = Inl (SqliteError (fst x))" and t: "s' = ?s0" by simp_all
      show ?thesis unfolding r t sum.case by (rule disjI2) (rule created)
    next
      case None
      note run = assms(4) [unfolded sql_migrate_def with_db_def sbind_unfold] open_s create None
      obtain q t where q: "apply_pending en 0 (length old) pending ?s0 = (q, t)"
        by (cases "apply_pending en 0 (length old) pending ?s0")
      have tame: "\<forall>m \<in> set pending. tame en m" using assms(3) by (auto simp: pending_def dest: in_set_dropD)
      note ap = apply_pending_atomic [OF q idle_put [OF assms(1)] tame]
      show ?thesis
      proof (cases "check_history old (map mg_name ms)")
        case (Inl e)
        then have r: "r = Inl e" and t: "s' = ?s0" using run
          by (auto simp: ledger_create_idle [OF assms(1)] ledger_names_idle [OF assms(1,2)] old_def [symmetric])
        show ?thesis unfolding r t sum.case by (rule disjI2) (rule created)
      next
        case (Inr u)
        have "(r, s') = (case q of Inl e \<Rightarrow> (Inl e, t) | Inr newly \<Rightarrow> (Inr \<lparr>mr_applied = newly, mr_already_applied = old\<rparr>, t))"
          using run Inr q skip
          by (auto simp: ledger_create_idle [OF assms(1)] ledger_names_idle [OF assms(1,2)] old_def [symmetric] split: sum.splits)
        then show ?thesis using ap Inr by (auto split: sum.splits intro: less_imp_le)
      qed
    qed
  qed
qed

text \<open>Migrating again with the list that succeeded applies nothing and changes nothing.\<close>

lemma sql_migrate_again:
  assumes "idle s" and "db_ledger (sq_file s) = Some (ledger_of (map mg_name ms))" and "distinct (map mg_name ms)"
    and "en_fault en ''CREATE'' (sq_file s) = None" and "en_fault en ''SELECT'' (sq_file s) = None"
  shows "sql_migrate en ms s = (Inr \<lparr>mr_applied = [], mr_already_applied = map mg_name ms\<rparr>, s)"
proof -
  have rows: "ledger_rows (sq_file s) = ledger_of (map mg_name ms)" using assms(2) by (simp add: ledger_rows_def)
  then have h: "history (sq_file s) = map mg_name ms" by (simp add: history_def)
  have same: "with_ledger (sq_file s) = sq_file s" "s\<lparr>sq_file := sq_file s\<rparr> = s"
    using assms(2) rows by (simp_all add: with_ledger_def)
  have wf: "wf_ledger (sq_file s)" using rows h assms(3) by (simp add: wf_ledger_def)
  have c: "check_history (map mg_name ms) (map mg_name ms) = Inr ()" using assms(3) by (simp add: check_history_Inr)
  have "apply_pending en (length ms) 0 ms = sret []" using apply_pending_skips [of en "length ms" 0 ms] by simp
  then show ?thesis
    using ledger_names_idle [OF assms(1) wf, of en] assms(1,4,5) c
    by (simp add: sql_migrate_def with_db_def sbind_unfold ledger_create_idle same h idle_def)
qed

text \<open>
  C10: Migrations extend the history, one whole migration at a time. On an idle connection with a well-formed
  ledger, for migrations whose statements neither control transactions nor touch the ledger: afterwards the
  connection is idle and the ledger well formed again. \<open>200\<close> means that the submitted names are distinct, begin
  with the history and are the history afterwards, that the file is what the pending migrations give when run
  in order, and that the response lists them; sending the same list again applies nothing and changes
  nothing. Any other status means that the file is as it was or holds exactly the first few pending
  migrations, each of them whole and recorded, and that no name of the history was lost or reordered.
\<close>

theorem migrate_extends_history:
  assumes "idle s" and "wf_ledger (sq_file s)"
    and "\<forall>ms m. MigrateRequest body = Inr ms \<longrightarrow> m \<in> set ms \<longrightarrow> tame en m"
    and "sql_serve G en (SqlMigrate body) s = (resp, s')"
  defines "old \<equiv> history (sq_file s)"
  shows "idle s' \<and> wf_ledger (sq_file s') \<and>
    (resp_status resp = 200 \<longrightarrow>
      (\<exists>ms. MigrateRequest body = Inr ms \<and> distinct (map mg_name ms) \<and> prefix old (map mg_name ms) \<and>
         history (sq_file s') = map mg_name ms \<and>
         migrations_effect en (length old) (drop (length old) ms) (with_ledger (sq_file s)) = Some ((), sq_file s') \<and>
         resp_json resp = PDict [(''applied'', PList (map PStr (drop (length old) (map mg_name ms)))), (''already_applied'', PList (map PStr old))] \<and>
         (en_fault en ''CREATE'' (sq_file s') = None \<longrightarrow> en_fault en ''SELECT'' (sq_file s') = None \<longrightarrow>
          sql_serve G en (SqlMigrate body) s' =
            (\<lparr>resp_status = 200, resp_json = PDict [(''applied'', PList []), (''already_applied'', PList (map PStr (map mg_name ms)))]\<rparr>, s')))) \<and>
    (resp_status resp \<noteq> 200 \<longrightarrow> s' = s \<or>
      (\<exists>ms k. MigrateRequest body = Inr ms \<and>
         migrations_effect en (length old) (take k (drop (length old) ms)) (with_ledger (sq_file s)) = Some ((), sq_file s') \<and>
         history (sq_file s') = old @ map mg_name (take k (drop (length old) ms))))"
proof (cases "MigrateRequest body")
  case (Inl e)
  then have "sql_handler G en (SqlMigrate body) s = (Inl e, s)" by (simp add: h_sql_migrate_def sbind_unfold)
  from sql_serve_parts [OF this assms(4)] show ?thesis using assms(1,2) by simp
next
  case (Inr ms)
  obtain r t where m: "sql_migrate en ms s = (r, t)" by (cases "sql_migrate en ms s")
  let ?r = "case r of Inl e \<Rightarrow> Inl (sql_drive_exn e)
    | Inr res \<Rightarrow> Inr (PDict [(''applied'', PList (map PStr (mr_applied res))), (''already_applied'', PList (map PStr (mr_already_applied res)))])"
  have h: "h_sql_migrate en body u = (case sql_migrate en ms u of (r, t) \<Rightarrow>
      (case r of Inl e \<Rightarrow> (Inl (sql_drive_exn e), t)
       | Inr res \<Rightarrow> (Inr (PDict [(''applied'', PList (map PStr (mr_applied res))), (''already_applied'', PList (map PStr (mr_already_applied res)))]), t)))" for u
    using Inr by (auto simp: h_sql_migrate_def sql_drive_def sbind_unfold split: sum.splits prod.splits)
  have hs: "sql_handler G en (SqlMigrate body) s = (?r, t)" using m by (simp add: h split: sum.splits)
  note parts = sql_serve_parts [OF hs assms(4)]
  have tame: "\<forall>m \<in> set ms. tame en m" using assms(3) Inr by blast
  have tame_k: "\<forall>m \<in> set (take k (drop n ms)). tame en m" for k n
    using tame by (meson in_set_dropD in_set_takeD)
  note mig = sql_migrate_idle [OF assms(1,2) tame m, folded old_def]
  have led: "db_ledger (with_ledger (sq_file s)) = Some (ledger_of old)" "distinct old"
    using assms(2) by (simp_all add: wf_ledger_def old_def)
  have after: "db_ledger d = Some (ledger_of (old @ map mg_name (take k (drop (length old) ms)))) \<and> wf_ledger d \<and>
      history d = old @ map mg_name (take k (drop (length old) ms))"
    if "migrations_effect en (length old) (take k (drop (length old) ms)) (with_ledger (sq_file s)) = Some ((), d)" for k d
    using migrations_extend_ledger [OF that tame_k led] by (simp add: wf_ledger_def history_def ledger_rows_def)
  show ?thesis
  proof (cases r)
    case (Inl e)
    then have "s' = s \<or> (\<exists>k d. migrations_effect en (length old) (take k (drop (length old) ms)) (with_ledger (sq_file s)) = Some ((), d) \<and> s' = s\<lparr>sq_file := d\<rparr>)"
      and "resp_status resp \<noteq> 200"
      using mig parts by auto
    then show ?thesis using assms(1,2) after idle_put [OF assms(1)] Inr by fastforce
  next
    case (Inr res)
    then obtain d where d: "check_history old (map mg_name ms) = Inr ()" "migrations_effect en (length old) (drop (length old) ms) (with_ledger (sq_file s)) = Some ((), d)"
      "s' = s\<lparr>sq_file := d\<rparr>" and res: "res = \<lparr>mr_applied = map mg_name (drop (length old) ms), mr_already_applied = old\<rparr>"
      using mig parts(1) by auto
    have pre: "distinct (map mg_name ms)" "prefix old (map mg_name ms)" using d(1) by (simp_all add: check_history_Inr)
    have whole: "old @ map mg_name (drop (length old) ms) = map mg_name ms"
      using pre(2) by (auto simp: prefix_def drop_map [symmetric])
    have fin: "db_ledger d = Some (ledger_of (map mg_name ms))" "wf_ledger d" "history d = map mg_name ms"
      using after [of "length (drop (length old) ms)" d] d(2) whole by simp_all
    have again: "sql_serve G en (SqlMigrate body) s' =
          (\<lparr>resp_status = 200, resp_json = PDict [(''applied'', PList []), (''already_applied'', PList (map PStr (map mg_name ms)))]\<rparr>, s')"
      if "en_fault en ''CREATE'' (sq_file s') = None" "en_fault en ''SELECT'' (sq_file s') = None"
      using sql_migrate_again [of s' ms en] idle_put [OF assms(1), of d] fin(1) pre(1) that d(3)
      by (simp add: sql_serve_def h sql_route_def)
    show ?thesis
      using \<open>MigrateRequest body = Inr ms\<close> pre fin d(2,3) idle_put [OF assms(1), of d] parts Inr res again
      by (simp add: drop_map)
  qed
qed

theorem migrate_extends_history_witness:
  "history (sq_file (snd (sql_serve try_glot try_engine
     (SqlMigrate (PDict [(''migrations'', PList [PDict [(''name'', PStr ''one''), (''statements'', PList [PStr ''CREATE'']) ]])])) try_sqlite))) = [''one'']"
proof -
  let ?body = "PDict [(''migrations'', PList [PDict [(''name'', PStr ''one''), (''statements'', PList [PStr ''CREATE''])]])]"
  let ?m = "\<lparr>mg_name = ''one'', mg_statements = [''CREATE'']\<rparr>"
  have body: "MigrateRequest ?body = Inr [?m]"
    by (simp add: MigrateRequest_def WireMigration_def only_keys_def text_of_def)
  have pre: "\<forall>ms m. MigrateRequest ?body = Inr ms \<longrightarrow> m \<in> set ms \<longrightarrow> tame try_engine m"
    by (auto simp: body tame_def plain_def leaves_ledger_def try_engine_def split: if_splits)
  have idle: "idle try_sqlite" by (simp add: idle_def try_sqlite_def)
  have wf: "wf_ledger (sq_file try_sqlite)" by (simp add: wf_ledger_def history_def ledger_rows_def ledger_of_def try_sqlite_def)
  obtain resp s' where run: "sql_serve try_glot try_engine (SqlMigrate ?body) try_sqlite = (resp, s')"
    by (cases "sql_serve try_glot try_engine (SqlMigrate ?body) try_sqlite")
  have "resp_status resp = 200"
    using run by (auto simp: sql_serve_def h_sql_migrate_def sbind_unfold body sql_drive_def sql_migrate_def with_db_def
        ledger_create_def ledger_names_def own_statement_def ledger_rows_def check_history_def apply_migration_def in_transaction_def
        tx_begin_def tx_commit_def conn_execute_def ledger_insert_def sq_view_def sq_put_def try_engine_def try_sqlite_def sql_route_def)
  then show ?thesis using migrate_extends_history [OF idle wf pre run] body run by auto
qed

section \<open>Where the promises end\<close>

lemma run_batch_append:
  "run_batch en (xs @ ys) = sbind (run_batch en xs) (\<lambda>cs. sbind (run_batch en ys) (\<lambda>ds. sret (cs @ ds)))"
  by (induction xs) (auto simp: fun_eq_iff sbind_unfold split: prod.splits sum.splits)

lemma tx_begin_idle:
  "\<lbrakk>idle s; en_fault en ''BEGIN IMMEDIATE'' (sq_file s) = None\<rbrakk> \<Longrightarrow> tx_begin en s = (Inr (), s\<lparr>sq_tx := Some (sq_file s)\<rparr>)"
  by (simp add: idle_def tx_begin_def)

lemma overflow_opens:
  fixes bad :: statement
  assumes "idle s" and "en_fault en ''BEGIN IMMEDIATE'' (sq_file s) = None"
    and "\<forall>st \<in> set good. plain en (st_sql st) \<and> ints_fit (st_params st)" and "batch_effect en good (sq_file s) = Some (counts, d)"
    and "en_prepare en (st_sql bad) d = Inr names" and "bind_params (st_params bad) names = Inl (DriverExn OverflowError)"
  shows "sql_execute en (good @ bad # rest) s = (Inl (DriverExn OverflowError), s\<lparr>sq_tx := Some d\<rparr>)"
proof -
  let ?s0 = "s\<lparr>sq_tx := Some (sq_file s)\<rparr>"
  have "run_batch en good ?s0 = (Inr counts, s\<lparr>sq_tx := Some d\<rparr>)"
    using runs_asD(1) [OF run_batch_runs_as [OF assms(3)], of ?s0 "sq_file s" counts d] assms(1,4) by (simp add: idle_def)
  then have "run_batch en (good @ bad # rest) ?s0 = (Inl (DriverExn OverflowError), s\<lparr>sq_tx := Some d\<rparr>)"
    using assms(5,6) by (simp add: run_batch_append sbind_unfold conn_execute_def sq_view_def)
  then show ?thesis using assms(1) tx_begin_idle [OF assms(1,2)]
    by (simp add: sql_execute_def with_db_def in_transaction_def sbind_unfold idle_def)
qed

lemma open_transaction_blocks:
  assumes "sq_tx s = Some d"
  shows "resp_status (fst (sql_serve G en (SqlExec body) s)) \<noteq> 200" and "snd (sql_serve G en (SqlExec body) s) = s"
proof -
  have "isl (fst (h_sql_exec G en body s)) \<and> snd (h_sql_exec G en body s) = s"
    using assms by (auto simp: h_sql_exec_unfold sql_execute_def with_db_def in_transaction_def sbind_unfold tx_begin_def split: sum.splits)
  then show "resp_status (fst (sql_serve G en (SqlExec body) s)) \<noteq> 200" and "snd (sql_serve G en (SqlExec body) s) = s"
    by (auto simp: sql_serve_200) (auto simp: sql_serve_def split: prod.splits)
qed

lemma constraint_lost:
  fixes st :: statement
  assumes "idle s" and "en_fault en ''BEGIN IMMEDIATE'' (sq_file s) = None"
    and "en_prepare en (st_sql st) (sq_file s) = Inr names" "bind_params (st_params st) names = Inr bound"
    and "en_stmt en (st_sql st) bound (sq_file s) = Refused exc True"
  shows "sql_execute en [st] s = (Inl (SqliteError (no_tx ''rollback'')), s)"
proof -
  have "s\<lparr>sq_tx := None\<rparr> = s" using assms(1) by (cases s) (simp add: idle_def)
  with assms tx_begin_idle [OF assms(1,2)] show ?thesis
    by (simp add: sql_execute_def with_db_def in_transaction_def sbind_unfold conn_execute_def sq_view_def
        sq_ended_def tx_rollback_def idle_def)
qed

lemma commit_inside:
  fixes m :: migration
  assumes "idle s" and "\<forall>tag d. en_fault en tag d = None"
    and "mg_statements m = [commit]" "en_prepare en commit (sq_file s) = Inr []" "en_stmt en commit [] (sq_file s) = TxCommit"
    and "db_ledger (sq_file s) = Some rows" "int pos \<notin> fst ` set rows" "mg_name m \<notin> snd ` set rows"
  shows "apply_migration en pos m s = (Inl (SqliteError (no_tx ''rollback'')),
    s\<lparr>sq_file := (sq_file s)\<lparr>db_ledger := Some (rows @ [(int pos, mg_name m)])\<rparr>\<rparr>)"
proof -
  have "s\<lparr>sq_tx := None\<rparr> = s" "s\<lparr>sq_file := d, sq_tx := None\<rparr> = s\<lparr>sq_file := d\<rparr>" for d
    using assms(1) by (cases s; simp add: idle_def)+
  with assms tx_begin_idle [of s en] show ?thesis
    by (simp add: apply_migration_def in_transaction_def sbind_unfold conn_execute_def sq_view_def tx_commit_def
        ledger_insert_def own_statement_def sq_put_def tx_rollback_def idle_def)
qed

text \<open>
  C39: Three gaps. First, an integer outside 64 bits among the parameters raises an \<open>OverflowError\<close>, which
  no handler of the batch catches: the statements before it stay in an open transaction, later queries read
  them, and from then on every batch fails and changes nothing. Second, when the store itself ends the
  transaction on a violated constraint, the rollback of the handler fails and the constraint violation is
  reported as an unavailable store. Third, a migration that contains a \<open>COMMIT\<close> is answered as a failure
  although it is applied and recorded.
\<close>

theorem sql_gaps:
  assumes "idle s" and "en_fault en ''BEGIN IMMEDIATE'' (sq_file s) = None"
  shows "(\<forall>good bad rest counts d names.
      (\<forall>st \<in> set good. plain en (st_sql st) \<and> ints_fit (st_params st)) \<longrightarrow>
      batch_effect en good (sq_file s) = Some (counts, d) \<longrightarrow>
      en_prepare en (st_sql bad) d = Inr names \<longrightarrow> bind_params (st_params bad) names = Inl (DriverExn OverflowError) \<longrightarrow>
      (let s1 = s\<lparr>sq_tx := Some d\<rparr>
       in sql_execute en (good @ bad # rest) s = (Inl (DriverExn OverflowError), s1) \<and> sq_view s1 = d \<and>
          (\<forall>body. resp_status (fst (sql_serve G en (SqlExec body) s1)) \<noteq> 200 \<and> snd (sql_serve G en (SqlExec body) s1) = s1))) \<and>
    (\<forall>st names bound exc.
      en_prepare en (st_sql st) (sq_file s) = Inr names \<longrightarrow> bind_params (st_params st) names = Inr bound \<longrightarrow>
      en_stmt en (st_sql st) bound (sq_file s) = Refused exc True \<longrightarrow> sx_class exc = IntegrityError \<longrightarrow>
      (\<exists>e. sql_execute en [st] s = (Inl e, s) \<and> sql_drive_exn e = SqlJetty (JettyError UPSTREAM_UNAVAILABLE ''backing store unavailable''))) \<and>
    (\<forall>pos m commit rows.
      mg_statements m = [commit] \<longrightarrow> en_prepare en commit (sq_file s) = Inr [] \<longrightarrow> en_stmt en commit [] (sq_file s) = TxCommit \<longrightarrow>
      (\<forall>tag d. en_fault en tag d = None) \<longrightarrow> db_ledger (sq_file s) = Some rows \<longrightarrow> int pos \<notin> fst ` set rows \<longrightarrow> mg_name m \<notin> snd ` set rows \<longrightarrow>
      (\<exists>e. apply_migration en pos m s = (Inl e, s\<lparr>sq_file := (sq_file s)\<lparr>db_ledger := Some (rows @ [(int pos, mg_name m)])\<rparr>\<rparr>) \<and>
         sql_drive_exn e = SqlJetty (JettyError UPSTREAM_UNAVAILABLE ''backing store unavailable'')))"
proof -
  have un: "sql_drive_exn (SqliteError x) = SqlJetty (JettyError UPSTREAM_UNAVAILABLE ''backing store unavailable'')" for x
    by (simp add: sql_drive_exn_def)
  show ?thesis
  proof (intro conjI allI impI, goal_cases)
    case (1 good bad rest counts d names)
    then show ?case using overflow_opens [OF assms 1] open_transaction_blocks [of "s\<lparr>sq_tx := Some d\<rparr>" d G en]
      by (simp add: sq_view_def Let_def)
  next
    case (2 st names bound exc)
    then show ?case using constraint_lost [OF assms 2(1-3)] un by blast
  next
    case (3 pos m commit rows)
    then show ?case using commit_inside [OF assms(1) 3(4,1,2,3,5,6,7)] un by blast
  qed
qed

theorem sql_gaps_witness:
  "\<exists>s. sql_execute try_engine [\<lparr>st_sql = ''INSERT'', st_params = [(''x'', VInt 1)]\<rparr>, \<lparr>st_sql = ''INSERT'', st_params = [(''x'', VInt (2 ^ 63))]\<rparr>] try_sqlite =
     (Inl (DriverExn OverflowError), s) \<and> sq_view s = \<lparr>db_ledger = None, db_rest = 1\<rparr> \<and>
     (\<forall>body. resp_status (fst (sql_serve try_glot try_engine (SqlExec body) s)) \<noteq> 200)"
proof -
  let ?good = "[\<lparr>st_sql = ''INSERT'', st_params = [(''x'', VInt 1)]\<rparr>]"
  let ?bad = "\<lparr>st_sql = ''INSERT'', st_params = [(''x'', VInt (2 ^ 63))]\<rparr>"
  let ?d = "\<lparr>db_ledger = None, db_rest = 1 :: int\<rparr>"
  have idle: "idle try_sqlite" by (simp add: idle_def try_sqlite_def)
  have f: "en_fault try_engine ''BEGIN IMMEDIATE'' (sq_file try_sqlite) = None" by (simp add: try_engine_def)
  have 1: "\<forall>st \<in> set ?good. plain try_engine (st_sql st) \<and> ints_fit (st_params st)"
    by (auto simp: plain_def try_engine_def ints_fit_def fits_int64_def)
  have 2: "batch_effect try_engine ?good (sq_file try_sqlite) = Some ([1], ?d)"
    by (simp add: then_on_def effect_on_def try_engine_def try_sqlite_def fits_int64_def done_result_def)
  have 3: "en_prepare try_engine (st_sql ?bad) ?d = Inr [''x'']" by (simp add: try_engine_def)
  have 4: "bind_params (st_params ?bad) [''x''] = Inl (DriverExn OverflowError)" by (simp add: fits_int64_def)
  show ?thesis
    using sql_gaps [OF idle f, of try_glot, THEN conjunct1, THEN spec [of _ ?good], THEN spec [of _ ?bad], THEN spec [of _ "[]"],
        THEN spec [of _ "[1]"], THEN spec [of _ ?d], THEN spec [of _ "[''x'']"], THEN mp, OF 1, THEN mp, OF 2, THEN mp, OF 3, THEN mp, OF 4]
    by (auto simp: Let_def)
qed

end
