(* ===== verification/Fn_Exec.thy ===== *)
theory Fn_Exec
  imports Py_Float
begin

text \<open>
  \<^verbatim>\<open>src/jetty/modules/functions/driver.py\<close> and \<^verbatim>\<open>exec.py\<close>: the typed failures of a driver and the driver that
  runs one child process per call. The settings arrive as pydantic has read them. The host is a parameter:
  which files are executable, what is on the path, and what a child does with its input (it cannot be
  spawned, exits after some time with a status and output, or never exits). The state of a call is the trace
  of what it did; the text of the relayed stderr is kept as bytes.
\<close>

section \<open>Failures and events\<close>

datatype fn_exn = UnknownFunction string | FunctionFailed string | FnPy py_exn

datatype log_level = LogDebug | LogInfo | LogWarning

datatype fn_event =
  Spawned "string list" "(string, string) dict" string | Killed | Reaped | StderrLog log_level string string
| CallLog string nat nat | FailLog string

datatype child = SpawnFails | Exits rat int string string | Runs

record fn_host =
  fh_executable :: "string \<Rightarrow> bool"
  fh_which :: "string \<Rightarrow> bool"
  fh_environ :: "(string, string) dict"
  fh_child :: "string list \<Rightarrow> (string, string) dict \<Rightarrow> string \<Rightarrow> child"

section \<open>Configuration\<close>

definition fn_name_char :: "char \<Rightarrow> bool" where
  "fn_name_char c \<longleftrightarrow> is_lower_az c \<or> is_ascii_digit c \<or> c \<in> {CHR ''_'', CHR ''.'', CHR ''-''}"

definition fn_name_chars :: "string \<Rightarrow> bool" where
  "fn_name_chars s \<longleftrightarrow> 1 \<le> length s \<and> length s \<le> 128 \<and> list_all fn_name_char s"

text \<open>\<open>_NAME.match\<close>: the pattern ends in \<open>$\<close>.\<close>

definition fn_name_match :: "string \<Rightarrow> bool" where
  "fn_name_match = re_dollar fn_name_chars"

record exec_function_settings =
  xs_command :: "string list"
  xs_timeout :: pyfloat

type_synonym exec_settings = "(string, exec_function_settings) dict"

record exec_function =
  xf_name :: string
  xf_command :: "string list"
  xf_timeout :: pyfloat

definition resolve_executable :: "fn_host \<Rightarrow> string \<Rightarrow> py_exn + unit" where
  "resolve_executable H argv0 =
     (if CHR ''/'' \<in> set argv0 then (if fh_executable H argv0 then Inr () else Inl ValueError)
      else if fh_which H argv0 then Inr () else Inl ValueError)"

definition timeout_bad :: "pyfloat \<Rightarrow> bool" where
  "timeout_bad t = (case t of Fin q \<Rightarrow> q \<le> 0 | NegInf \<Rightarrow> True | _ \<Rightarrow> False)"

type_synonym exec_driver = "(string, exec_function) dict"

fun add_functions :: "fn_host \<Rightarrow> exec_function list \<Rightarrow> exec_driver \<Rightarrow> py_exn + exec_driver" where
  "add_functions H [] d = Inr d"
| "add_functions H (fn # fns) d =
     (case xf_command fn of
        [] \<Rightarrow> Inl ValueError
      | argv0 # _ \<Rightarrow>
          (if timeout_bad (xf_timeout fn) then Inl ValueError
           else rbind (resolve_executable H argv0) (\<lambda>_. add_functions H fns (dict_set (xf_name fn) fn d))))"

definition ExecFunctionDriver :: "fn_host \<Rightarrow> exec_function list \<Rightarrow> py_exn + exec_driver" where
  "ExecFunctionDriver H fns = add_functions H fns []"

definition build_exec :: "fn_host \<Rightarrow> exec_settings \<Rightarrow> py_exn + exec_driver" where
  "build_exec H cfg =
     (if list_ex (\<lambda>n. \<not> fn_name_match n) (dict_keys cfg) then Inl ValueError
      else ExecFunctionDriver H (map (\<lambda>(n, fn). \<lparr>xf_name = n, xf_command = xs_command fn, xf_timeout = xs_timeout fn\<rparr>) cfg))"

section \<open>Calls\<close>

definition exec_functions :: "exec_driver \<Rightarrow> string list" where
  "exec_functions d = sort (dict_keys d)"

text \<open>
  \<open>asyncio.wait_for\<close>: a timer at \<open>nan\<close> is due at once, one at infinity never.
\<close>

definition finishes_within :: "rat \<Rightarrow> pyfloat \<Rightarrow> bool" where
  "finishes_within t timeout = (case timeout of Fin q \<Rightarrow> t \<le> q | PosInf \<Rightarrow> True | _ \<Rightarrow> False)"

definition waits_forever :: "pyfloat \<Rightarrow> bool" where
  "waits_forever timeout \<longleftrightarrow> timeout = PosInf"

definition STDERR_LOG_BYTES :: nat where
  "STDERR_LOG_BYTES = 4096"

definition note_stderr :: "string \<Rightarrow> int \<Rightarrow> string \<Rightarrow> fn_event list" where
  "note_stderr name returncode stderr =
     (if stderr = [] then []
      else [StderrLog (if returncode \<noteq> 0 then LogWarning else LogDebug) name (take STDERR_LOG_BYTES stderr)])"

text \<open>A call that never returns is \<open>None\<close>.\<close>

definition exec_call :: "fn_host \<Rightarrow> exec_driver \<Rightarrow> string \<Rightarrow> string \<Rightarrow> ((fn_exn + string) \<times> fn_event list) option" where
  "exec_call H d name payload =
     (case dict_get d name of
        None \<Rightarrow> Some (Inl (UnknownFunction name), [])
      | Some fn \<Rightarrow>
          (let env = dict_set ''JETTY_FUNCTION'' name (fh_environ H)
           in case fh_child H (xf_command fn) env payload of
                SpawnFails \<Rightarrow> Some (Inl (FnPy OSError), [])
              | Runs \<Rightarrow>
                  (if waits_forever (xf_timeout fn) then None
                   else Some (Inl (FnPy OSError), [Spawned (xf_command fn) env payload, Killed, Reaped]))
              | Exits t returncode stdout stderr \<Rightarrow>
                  (if \<not> finishes_within t (xf_timeout fn)
                   then Some (Inl (FnPy OSError), [Spawned (xf_command fn) env payload, Killed, Reaped])
                   else Some (if returncode \<noteq> 0 then Inl (FunctionFailed name) else Inr stdout,
                     [Spawned (xf_command fn) env payload, Reaped] @ note_stderr name returncode stderr))))"

end
