(* ===== verification/Fn_Surface.thy ===== *)
theory Fn_Surface
  imports Fn_Exec Server
begin

text \<open>
  \<^verbatim>\<open>src/jetty/modules/functions/module.py\<close>: the driver registry, name syntax, the mapping of failures and the
  routes. A driver's factory, and what importing a module gives, are parameters of the registry. The locale
  \<open>function_driver\<close> is the contract of \<^verbatim>\<open>driver.py\<close>; the driver of \<open>Fn_Exec\<close> is its instance.
\<close>

section \<open>The driver registry\<close>

type_synonym ('c, 'd) factory = "'c \<Rightarrow> py_exn + 'd"

datatype ('c, 'd) imported = ImportFails | NotCallable | Callable "('c, 'd) factory"

definition register_driver :: "string \<Rightarrow> ('c, 'd) factory \<Rightarrow> ((string, ('c, 'd) factory) dict, py_exn, unit) opn" where
  "register_driver name f drivers =
     (if dict_in name drivers then (Inl ValueError, drivers) else (Inr (), dict_set name f drivers))"

definition resolve_driver :: "(string \<Rightarrow> string \<Rightarrow> ('c, 'd) imported) \<Rightarrow> (string, ('c, 'd) factory) dict \<Rightarrow> string \<Rightarrow> py_exn + ('c, 'd) factory" where
  "resolve_driver import drivers spec =
     (case dict_get drivers spec of
        Some f \<Rightarrow> Inr f
      | None \<Rightarrow>
          (case partition_ch (CHR '':'') spec of
             (_, False, _) \<Rightarrow> Inl ValueError
           | (module_name, True, attr) \<Rightarrow>
               (case import module_name attr of Callable f \<Rightarrow> Inr f | _ \<Rightarrow> Inl ValueError)))"

definition builtin_drivers :: "fn_host \<Rightarrow> (string, (exec_settings, exec_driver) factory) dict" where
  "builtin_drivers H = snd (register_driver ''exec'' (build_exec H) [])"

definition FunctionsModule :: "(string \<Rightarrow> string \<Rightarrow> ('c, 'd) imported) \<Rightarrow> (string, ('c, 'd) factory) dict \<Rightarrow> string \<Rightarrow> 'c \<Rightarrow> py_exn + 'd" where
  "FunctionsModule import drivers driver settings = rbind (resolve_driver import drivers driver) (\<lambda>f. f settings)"

section \<open>Errors and routes\<close>

datatype fn_api_exn = FnApiError string string | FnJetty jetty_error

definition FN_SEMANTICS :: "(string, int \<times> bool) dict" where
  "FN_SEMANTICS = [(''unknown_function'', 404, False)]"

definition fn_api_response :: "string \<Rightarrow> string \<Rightarrow> http_response" where
  "fn_api_response code message =
     (case dict_get FN_SEMANTICS code of
        Some (status, retryable) \<Rightarrow>
          \<lparr>resp_status = status,
           resp_json = PDict [(''error'', PDict [(''code'', PStr code), (''message'', PStr message), (''retryable'', PBool retryable)])]\<rparr>
      | None \<Rightarrow> unhandled_error_handler KeyError)"

datatype fn_response = FnBytes string | FnJson http_response

definition fn_route :: "fn_api_exn + fn_response \<Rightarrow> fn_response" where
  "fn_route r =
     (case r of Inr x \<Rightarrow> x | Inl (FnApiError code m) \<Rightarrow> FnJson (fn_api_response code m) | Inl (FnJetty e) \<Rightarrow> FnJson (jetty_error_handler e))"

definition fn_check_name :: "string \<Rightarrow> fn_api_exn + string" where
  "fn_check_name name =
     (if fn_name_match name then Inr name
      else Inl (FnJetty (JettyError INVALID_REQUEST (''invalid function name '' @ py_repr name))))"

definition h_fn_list :: "string list \<Rightarrow> fn_api_exn + fn_response" where
  "h_fn_list functions = Inr (FnJson \<lparr>resp_status = 200, resp_json = PDict [(''functions'', PList (map PStr (sort functions)))]\<rparr>)"

definition fn_failure :: "string \<Rightarrow> fn_exn \<Rightarrow> fn_api_exn \<times> fn_event list" where
  "fn_failure name e =
     (case e of
        UnknownFunction _ \<Rightarrow> (FnApiError ''unknown_function'' (''no function named '' @ py_repr name), [])
      | FunctionFailed _ \<Rightarrow> (FnJetty (JettyError UPSTREAM_ERROR (''function '' @ py_repr name @ '' failed'')), [FailLog name])
      | FnPy _ \<Rightarrow> (FnJetty (JettyError UPSTREAM_UNAVAILABLE (''function '' @ py_repr name @ '' could not be run'')), [FailLog name]))"

definition h_fn_call :: "(string \<Rightarrow> string \<Rightarrow> ((fn_exn + string) \<times> fn_event list) option) \<Rightarrow> string \<Rightarrow> string \<Rightarrow>
    ((fn_api_exn + fn_response) \<times> fn_event list) option" where
  "h_fn_call driver_call name payload =
     (case fn_check_name name of
        Inl e \<Rightarrow> Some (Inl e, [])
      | Inr fn_name \<Rightarrow>
          (case driver_call fn_name payload of
             None \<Rightarrow> None
           | Some (Inl e, evs) \<Rightarrow> Some (Inl (fst (fn_failure fn_name e)), evs @ snd (fn_failure fn_name e))
           | Some (Inr result, evs) \<Rightarrow> Some (Inr (FnBytes result), evs @ [CallLog fn_name (length payload) (length result)])))"

definition fn_call :: "(string \<Rightarrow> string \<Rightarrow> ((fn_exn + string) \<times> fn_event list) option) \<Rightarrow> string \<Rightarrow> string \<Rightarrow>
    (fn_response \<times> fn_event list) option" where
  "fn_call driver_call name payload = map_option (\<lambda>(r, evs). (fn_route r, evs)) (h_fn_call driver_call name payload)"

section \<open>The contract of a driver\<close>

text \<open>
  A driver says that a function is unknown exactly when it does not list it, and does nothing then. The
  surface lemma follows for every driver: what is not listed is answered \<open>404\<close> with no effect, and what is
  listed never is.
\<close>

definition fn_status :: "fn_response \<Rightarrow> int" where
  "fn_status r = (case r of FnBytes _ \<Rightarrow> 200 | FnJson j \<Rightarrow> resp_status j)"

lemma fn_status_failure:
  "fn_status (fn_route (Inl (fst (fn_failure n e)))) =
     (case e of UnknownFunction _ \<Rightarrow> 404 | FunctionFailed _ \<Rightarrow> 502 | FnPy _ \<Rightarrow> 503)"
  by (auto simp: fn_status_def fn_route_def fn_failure_def fn_api_response_def FN_SEMANTICS_def jetty_error_handler_def
      JettyError_def split: fn_exn.splits)

locale function_driver =
  fixes lists :: "'d \<Rightarrow> string list"
    and dcall :: "'d \<Rightarrow> string \<Rightarrow> string \<Rightarrow> ((fn_exn + string) \<times> fn_event list) option"
  assumes unlisted: "n \<notin> set (lists d) \<Longrightarrow> dcall d n p = Some (Inl (UnknownFunction n), [])"
    and listed: "n \<in> set (lists d) \<Longrightarrow> dcall d n p \<noteq> Some (Inl (UnknownFunction m), evs)"
begin

lemma not_found_iff_unlisted:
  assumes "fn_name_match n" and "fn_call (dcall d) n p = Some (resp, evs)"
  shows "fn_status resp = 404 \<longleftrightarrow> n \<notin> set (lists d)"
proof (cases "n \<in> set (lists d)")
  case True
  then have "fn_status resp \<noteq> 404"
    using assms listed [of n d p]
    by (auto simp: fn_call_def h_fn_call_def fn_check_name_def fn_status_failure split: option.splits sum.splits fn_exn.splits)
      (auto simp: fn_status_def fn_route_def)
  with True show ?thesis by simp
next
  case False
  then show ?thesis using assms unlisted [of n d p]
    by (auto simp: fn_call_def h_fn_call_def fn_check_name_def fn_status_failure)
qed

lemma unlisted_no_effect:
  "n \<notin> set (lists d) \<Longrightarrow> \<exists>resp. fn_call (dcall d) n p = Some (resp, [])"
  using unlisted [of n d p] by (auto simp: fn_call_def h_fn_call_def fn_check_name_def fn_failure_def)

end

interpretation exec: function_driver exec_functions "exec_call H"
proof
  show "n \<notin> set (exec_functions d) \<Longrightarrow> exec_call H d n p = Some (Inl (UnknownFunction n), [])" for n d p
    by (simp add: exec_functions_def exec_call_def map_of_eq_None_iff [THEN iffD2])
  show "n \<in> set (exec_functions d) \<Longrightarrow> exec_call H d n p \<noteq> Some (Inl (UnknownFunction m), evs)" for n d p m evs
    by (auto simp: exec_functions_def exec_call_def Let_def map_of_eq_None_iff split: option.splits child.splits if_splits)
qed

section \<open>The exec driver behind the surface\<close>

text \<open>What a configuration must be to boot.\<close>

definition fn_config_ok :: "fn_host \<Rightarrow> exec_settings \<Rightarrow> bool" where
  "fn_config_ok H cfg \<longleftrightarrow>
     (\<forall>(n, fn) \<in> set cfg. fn_name_match n \<and> \<not> timeout_bad (xs_timeout fn) \<and>
        (case xs_command fn of [] \<Rightarrow> False | a # _ \<Rightarrow> (if CHR ''/'' \<in> set a then fh_executable H a else fh_which H a)))"

lemma add_functions_Inr:
  assumes "distinct (dict_keys d @ map xf_name fns)"
  shows "add_functions H fns d = Inr d' \<longleftrightarrow>
    (\<forall>fn \<in> set fns. \<not> timeout_bad (xf_timeout fn) \<and>
      (case xf_command fn of [] \<Rightarrow> False | a # _ \<Rightarrow> (if CHR ''/'' \<in> set a then fh_executable H a else fh_which H a))) \<and>
    d' = d @ map (\<lambda>fn. (xf_name fn, fn)) fns"
  using assms
proof (induction fns arbitrary: d)
  case (Cons fn fns)
  have new: "dict_set (xf_name fn) fn d = d @ [(xf_name fn, fn)]"
    using Cons.prems by (intro dict_set_fresh) auto
  show ?case
    using Cons.IH [of "d @ [(xf_name fn, fn)]"] Cons.prems
    by (auto simp: resolve_executable_def new result_simps split: list.splits if_splits)
qed auto

definition exec_entry :: "string \<times> exec_function_settings \<Rightarrow> string \<times> exec_function" where
  "exec_entry e = (case e of (n, fn) \<Rightarrow> (n, \<lparr>xf_name = n, xf_command = xs_command fn, xf_timeout = xs_timeout fn\<rparr>))"

lemma build_exec_Inr:
  assumes "distinct (dict_keys cfg)"
  shows "build_exec H cfg = Inr d \<longleftrightarrow> fn_config_ok H cfg \<and> d = map exec_entry cfg"
proof -
  let ?fns = "map (\<lambda>(n, fn). \<lparr>xf_name = n, xf_command = xs_command fn, xf_timeout = xs_timeout fn\<rparr>) cfg"
  have names: "map xf_name ?fns = dict_keys cfg" by (induction cfg) auto
  have dist: "distinct (dict_keys ([] :: exec_driver) @ map xf_name ?fns)" unfolding names using assms by simp
  have entries: "map (\<lambda>fn. (xf_name fn, fn)) ?fns = map exec_entry cfg" by (induction cfg) (auto simp: exec_entry_def)
  show ?thesis
    unfolding build_exec_def ExecFunctionDriver_def add_functions_Inr [OF dist]
    by (auto simp: fn_config_ok_def entries list_ex_iff add_functions_Inr [OF dist] case_prod_beta exec_entry_def)
qed

lemma exec_entry_get: "dict_get (map exec_entry cfg) n =
    map_option (\<lambda>fn. \<lparr>xf_name = n, xf_command = xs_command fn, xf_timeout = xs_timeout fn\<rparr>) (dict_get cfg n)"
  by (induction cfg) (auto simp: exec_entry_def)

text \<open>What the child of a configured function does with a payload, and when that is a result.\<close>

definition fn_run :: "fn_host \<Rightarrow> exec_settings \<Rightarrow> string \<Rightarrow> string \<Rightarrow> (child \<times> pyfloat) option" where
  "fn_run H cfg name payload =
     map_option (\<lambda>fn. (fh_child H (xs_command fn) (dict_set ''JETTY_FUNCTION'' name (fh_environ H)) payload, xs_timeout fn)) (dict_get cfg name)"

definition fn_returns :: "(child \<times> pyfloat) option \<Rightarrow> int \<Rightarrow> string \<Rightarrow> bool" where
  "fn_returns r code out \<longleftrightarrow> (\<exists>t err timeout. r = Some (Exits t code out err, timeout) \<and> finishes_within t timeout)"

definition is_spawned :: "fn_event \<Rightarrow> bool" where
  "is_spawned e = (case e of Spawned _ _ _ \<Rightarrow> True | _ \<Rightarrow> False)"

text \<open>
  C12: Calling a function fails closed. For a configuration that boots: \<open>200\<close> is answered exactly when the
  child of a configured function exits with status zero in time, with its output as the body; \<open>404\<close> exactly
  for a well-formed name that is not configured, \<open>502\<close> exactly for a non-zero exit in time, \<open>400\<close> exactly for
  a malformed name, and everything else is \<open>503\<close>. At most one child is spawned and it has been reaped when
  the answer is given; the log carries at most 4096 bytes of its stderr. A call does not return only if the
  child never ends and the configured timeout is infinite.
\<close>

theorem functions_fail_closed:
  assumes "distinct (dict_keys cfg)" and "build_exec H cfg = Inr d"
  shows "(\<forall>resp evs. fn_call (exec_call H d) name payload = Some (resp, evs) \<longrightarrow>
      (fn_status resp = 200 \<longleftrightarrow> (\<exists>out. fn_returns (fn_run H cfg name payload) 0 out \<and> resp = FnBytes out)) \<and>
      (fn_status resp = 400 \<longleftrightarrow> \<not> fn_name_match name) \<and>
      (fn_status resp = 404 \<longleftrightarrow> fn_name_match name \<and> dict_get cfg name = None) \<and>
      (fn_status resp = 502 \<longleftrightarrow> (\<exists>code out. code \<noteq> 0 \<and> fn_returns (fn_run H cfg name payload) code out)) \<and>
      fn_status resp \<in> {200, 400, 404, 502, 503} \<and>
      length (filter is_spawned evs) = length (filter (\<lambda>e. e = Reaped) evs) \<and> length (filter is_spawned evs) \<le> 1 \<and>
      (\<forall>level n bytes. StderrLog level n bytes \<in> set evs \<longrightarrow> length bytes \<le> 4096)) \<and>
    (fn_call (exec_call H d) name payload = None \<longleftrightarrow> fn_run H cfg name payload = Some (Runs, PosInf))"
proof -
  have ok: "fn_config_ok H cfg" and d: "d = map exec_entry cfg" using assms by (simp_all add: build_exec_Inr)
  have named: "dict_get cfg name = Some fn \<Longrightarrow> fn_name_match name" for fn
    using ok by (auto simp: fn_config_ok_def dest!: map_of_SomeD)
  have bad: "fn_status (fn_route (Inl (FnJetty (JettyError INVALID_REQUEST m)))) = 400" for m
    by (simp add: fn_status_def fn_route_def jetty_error_handler_def JettyError_def)
  have ok200: "fn_status (fn_route (Inr (FnBytes out))) = 200" for out by (simp add: fn_status_def fn_route_def)
  note defs = fn_call_def h_fn_call_def fn_check_name_def exec_call_def d exec_entry_get fn_run_def fn_returns_def Let_def
  show ?thesis
  proof (cases "fn_name_match name \<and> dict_get cfg name \<noteq> None")
    case False
    then show ?thesis using named
      by (auto simp: defs bad fn_status_failure) (auto simp: fn_failure_def)
  next
    case True
    then obtain fn where fn: "dict_get cfg name = Some fn" "fn_name_match name" by auto
    have n503: "fn_status (fn_route (Inl (fst (fn_failure name (FnPy OSError))))) = 503"
      and n502: "fn_status (fn_route (Inl (fst (fn_failure name (FunctionFailed name))))) = 502"
      by (simp_all add: fn_status_failure)
    let ?child = "fh_child H (xs_command fn) (dict_set ''JETTY_FUNCTION'' name (fh_environ H)) payload"
    show ?thesis
    proof (cases ?child)
      case SpawnFails
      then show ?thesis using fn by (auto simp: defs n503) (auto simp: fn_failure_def is_spawned_def)
    next
      case Runs
      then show ?thesis using fn by (auto simp: defs n503 waits_forever_def is_spawned_def) (auto simp: fn_failure_def is_spawned_def)
    next
      case (Exits t code out err)
      have "fn_route (Inl e) = FnBytes x \<Longrightarrow> False" for e x by (cases e) (auto simp: fn_route_def)
      with Exits show ?thesis using fn
        by (auto simp: defs n503 n502 ok200 is_spawned_def note_stderr_def STDERR_LOG_BYTES_def)
          (auto simp: fn_failure_def fn_route_def fn_status_def is_spawned_def)
    qed
  qed
qed

definition try_fn_host :: fn_host where
  "try_fn_host =
     \<lparr>fh_executable = (\<lambda>p. False), fh_which = (\<lambda>p. p = ''cat''), fh_environ = [],
      fh_child = (\<lambda>cmd env payload. Exits 1 0 payload [])\<rparr>"

theorem functions_fail_closed_witness:
  "fn_call (exec_call try_fn_host (map exec_entry [(''echo'', \<lparr>xs_command = [''cat''], xs_timeout = Fin 30\<rparr>)])) ''echo'' ''abc'' =
     Some (FnBytes ''abc'', [Spawned [''cat''] [(''JETTY_FUNCTION'', ''echo'')] ''abc'', Reaped, CallLog ''echo'' 3 3])"
proof -
  let ?cfg = "[(''echo'', \<lparr>xs_command = [''cat''], xs_timeout = Fin 30\<rparr>)]"
  let ?d = "map exec_entry ?cfg"
  have name: "fn_name_match ''echo''"
    by (simp add: fn_name_match_def re_dollar_def fn_name_chars_def fn_name_char_def is_lower_az_def)
  have build: "build_exec try_fn_host ?cfg = Inr ?d"
    using name by (simp add: build_exec_Inr fn_config_ok_def timeout_bad_def try_fn_host_def)
  have run: "fn_call (exec_call try_fn_host ?d) ''echo'' ''abc'' =
     Some (FnBytes ''abc'', [Spawned [''cat''] [(''JETTY_FUNCTION'', ''echo'')] ''abc'', Reaped, CallLog ''echo'' 3 3])"
    using name by (simp add: fn_call_def h_fn_call_def fn_check_name_def exec_call_def exec_entry_def try_fn_host_def
        finishes_within_def note_stderr_def fn_route_def)
  show ?thesis using functions_fail_closed [of ?cfg try_fn_host ?d "''echo''" "''abc''"] build run by blast
qed

end
