(* ===== verification/Orc_Console.thy ===== *)
theory Orc_Console
  imports Py_Prelude
begin

text \<open>
  \<^verbatim>\<open>src/jetty/orchestrator/console.py\<close>: labels and the reassembly of lines. Decoding bytes with replacement
  leaves Latin-1, so the decoder is an argument; nothing here depends on what it does.
\<close>

section \<open>Labels\<close>

definition ESC :: string where "ESC = [CHR 0x1B]"

definition RESET :: string where "RESET = ESC @ ''[0m''"

definition COLORS :: "string list" where
  "COLORS = map (\<lambda>c. ESC @ c) [''[36m'', ''[33m'', ''[32m'', ''[35m'', ''[34m'', ''[91m'', ''[96m'', ''[93m'', ''[92m'', ''[95m'']"

definition want_color :: "bool \<Rightarrow> string option \<Rightarrow> bool" where
  "want_color isatty no_color \<longleftrightarrow> isatty \<and> (case no_color of Some (_ # _) \<Rightarrow> False | _ \<Rightarrow> True)"

definition py_ljust :: "string \<Rightarrow> nat \<Rightarrow> string" where
  "py_ljust s w = s @ replicate (w - length s) (CHR '' '')"

definition prefix_width :: "string list \<Rightarrow> nat" where
  "prefix_width names = (if names = [] then 0 else Max (set (map length names)))"

definition make_label :: "nat \<Rightarrow> bool \<Rightarrow> nat \<Rightarrow> string \<Rightarrow> string" where
  "make_label width color i name =
     (let label = ''['' @ py_ljust name width @ '']''
      in if color then COLORS ! (i mod length COLORS) @ label @ RESET else label)"

definition Prefixer :: "string list \<Rightarrow> bool \<Rightarrow> (string, string) dict" where
  "Prefixer names color =
     foldl (\<lambda>d (i, name). dict_set name (make_label (prefix_width names) color i name) d) [] (enumerate 0 names)"

definition prefix_label :: "(string, string) dict \<Rightarrow> string \<Rightarrow> string" where
  "prefix_label p name = dict_get_or p name (''['' @ name @ '']'')"

definition prefix_format :: "(string, string) dict \<Rightarrow> string \<Rightarrow> string \<Rightarrow> string" where
  "prefix_format p name line = prefix_label p name @ '' '' @ line"

section \<open>Lines\<close>

definition rstrip_cr :: "string \<Rightarrow> string" where
  "rstrip_cr s = rev (dropWhile (\<lambda>c. c = ch_return) (rev s))"

definition feed :: "(string \<Rightarrow> string) \<Rightarrow> string \<Rightarrow> string \<Rightarrow> string list \<times> string" where
  "feed decode chunk partial =
     (let lines = split_ch ch_newline (partial @ chunk)
      in (map (\<lambda>l. rstrip_cr (decode l)) (butlast lines), last lines))"

definition flush :: "(string \<Rightarrow> string) \<Rightarrow> string \<Rightarrow> string option \<times> string" where
  "flush decode partial = (if partial = [] then (None, []) else (Some (decode partial), []))"

text \<open>A stream: the chunks in order, then the flush.\<close>

fun feed_all :: "(string \<Rightarrow> string) \<Rightarrow> string list \<Rightarrow> string \<Rightarrow> string list \<times> string" where
  "feed_all decode [] partial = ([], partial)"
| "feed_all decode (chunk # chunks) partial =
     (let (lines, p) = feed decode chunk partial; (more, q) = feed_all decode chunks p in (lines @ more, q))"

lemma split_ch_join:
  "split_ch c (s @ t) = butlast (split_ch c s) @ split_ch c (last (split_ch c s) @ t)"
proof (induction s)
  case (Cons x s)
  obtain p ps where ps: "split_ch c s = p # ps" by (cases "split_ch c s") auto
  show ?case
  proof (cases "x = c")
    case True
    then show ?thesis using Cons by simp
  next
    case False
    show ?thesis
    proof (cases ps)
      case Nil
      with Cons ps False show ?thesis by simp
    next
      case (Cons q qs)
      with Cons.IH ps False show ?thesis by simp
    qed
  qed
qed simp

text \<open>
  The lines do not depend on how the stream was cut into chunks: feeding any chunks yields the lines of
  their concatenation, each decoded as a whole and without its carriage returns, and holds back exactly what
  follows the last newline, which the flush then gives.
\<close>

theorem lines_ignore_chunking:
  "feed_all decode chunks [] =
     (map (\<lambda>l. rstrip_cr (decode l)) (butlast (split_ch ch_newline (concat chunks))), last (split_ch ch_newline (concat chunks))) \<and>
   ch_newline \<notin> set (last (split_ch ch_newline (concat chunks))) \<and>
   fst (flush decode (last (split_ch ch_newline (concat chunks)))) =
     (if concat chunks = [] \<or> last (concat chunks) = ch_newline then None else Some (decode (last (split_ch ch_newline (concat chunks)))))"
proof -
  have gen: "feed_all decode chunks p =
     (map (\<lambda>l. rstrip_cr (decode l)) (butlast (split_ch ch_newline (p @ concat chunks))), last (split_ch ch_newline (p @ concat chunks)))"
    if "ch_newline \<notin> set p" for p
    using that
  proof (induction chunks arbitrary: p)
    case Nil
    then show ?case by (simp add: split_ch_none)
  next
    case (Cons chunk chunks)
    let ?q = "last (split_ch ch_newline (p @ chunk))"
    have "ch_newline \<notin> set ?q" by (metis last_in_set split_ch_not_Nil split_ch_parts)
    from Cons.IH [OF this] show ?case
      using split_ch_join [of ch_newline "p @ chunk" "concat chunks"]
      by (simp add: feed_def Let_def butlast_append)
  qed
  have "last (split_ch ch_newline s) = [] \<longleftrightarrow> s = [] \<or> last s = ch_newline" for s
  proof (induction s rule: rev_induct)
    case (snoc x s)
    let ?q = "last (split_ch ch_newline s)"
    have "ch_newline \<notin> set ?q" by (metis last_in_set split_ch_not_Nil split_ch_parts)
    then have "split_ch ch_newline (?q @ [x]) = (if x = ch_newline then [?q, []] else [?q @ [x]])"
      using split_ch_append [of ch_newline ?q "[]"] split_ch_none [of ch_newline "?q @ [x]"] by auto
    then show ?case using split_ch_join [of ch_newline s "[x]"] by auto
  qed simp
  then show ?thesis
    using gen [of "[]"] split_ch_parts [of _ ch_newline "concat chunks"]
    by (auto simp: flush_def)
qed

end
