(* ===== verification/Orc_Procfs.thy ===== *)
theory Orc_Procfs
  imports Py_Prelude
begin

text \<open>
  \<^verbatim>\<open>src/jetty/orchestrator/procfs.py\<close>: what is read from \<^verbatim>\<open>/proc\<close> and the cgroup files, and from
  \<^verbatim>\<open>registry.py\<close> the record files and the test that a supervisor is alive. The files are arguments: the text
  of a file, or \<open>None\<close> when reading it raises \<open>OSError\<close>. \<open>kproc\<close> is a process as the kernel knows it and
  \<open>stat_line\<close> the line it prints, so that what the parser reads can be compared with what is there.
\<close>

section \<open>Processes\<close>

record proc_host =
  ph_stat :: "int \<Rightarrow> string option"
  ph_cmdline :: "int \<Rightarrow> string option"
  ph_comm :: "int \<Rightarrow> string option"
  ph_statm :: "int \<Rightarrow> string option"
  ph_entries :: "string list"
  ph_page_size :: int
  ph_decode :: "string \<Rightarrow> string"

definition stat_fields :: "proc_host \<Rightarrow> int \<Rightarrow> py_exn + string list option" where
  "stat_fields H pid =
     (case ph_stat H pid of
        None \<Rightarrow> Inr None
      | Some raw \<Rightarrow>
          (case rpartition_ch (CHR '')'') raw of
             (_, True, rest) \<Rightarrow> Inr (Some (py_split rest))
           | (_, False, _) \<Rightarrow> Inl IndexError))"

definition int_field :: "nat \<Rightarrow> string list \<Rightarrow> py_exn + int" where
  "int_field i words =
     (if length words \<le> i then Inl IndexError
      else case py_int (words ! i) of Some n \<Rightarrow> Inr n | None \<Rightarrow> Inl ValueError)"

definition pid_alive :: "proc_host \<Rightarrow> int \<Rightarrow> py_exn + bool" where
  "pid_alive H pid = rbind (stat_fields H pid) (\<lambda>r.
     case r of None \<Rightarrow> Inr False | Some [] \<Rightarrow> Inl IndexError | Some (state # _) \<Rightarrow> Inr (state \<noteq> ''Z''))"

definition opt_field :: "proc_host \<Rightarrow> nat \<Rightarrow> int \<Rightarrow> py_exn + int option" where
  "opt_field H i pid = rbind (stat_fields H pid) (\<lambda>r.
     case r of Some (f # fs) \<Rightarrow> rbind (int_field i (f # fs)) (\<lambda>n. Inr (Some n)) | _ \<Rightarrow> Inr None)"

definition start_ticks :: "proc_host \<Rightarrow> int \<Rightarrow> py_exn + int option" where
  "start_ticks H = opt_field H 19"

definition session_id :: "proc_host \<Rightarrow> int \<Rightarrow> py_exn + int option" where
  "session_id H = opt_field H 3"

definition parent_pid :: "proc_host \<Rightarrow> int \<Rightarrow> py_exn + int option" where
  "parent_pid H = opt_field H 1"

definition identity_matches :: "proc_host \<Rightarrow> int \<Rightarrow> int option \<Rightarrow> py_exn + bool" where
  "identity_matches H pid ticks = rbind (pid_alive H pid) (\<lambda>a.
     if \<not> a then Inr False
     else case ticks of None \<Rightarrow> Inr True | Some t \<Rightarrow> rbind (start_ticks H pid) (\<lambda>now. Inr (now = Some t)))"

definition proc_cmdline :: "proc_host \<Rightarrow> int \<Rightarrow> string" where
  "proc_cmdline H pid =
     (case ph_cmdline H pid of
        None \<Rightarrow> []
      | Some raw \<Rightarrow>
          (case map (ph_decode H) (filter (\<lambda>a. a \<noteq> []) (split_ch (CHR 0x00) raw)) of
             [] \<Rightarrow> (case ph_comm H pid of Some comm \<Rightarrow> py_strip comm | None \<Rightarrow> [])
           | argv \<Rightarrow> py_join '' '' argv))"

definition all_pids :: "proc_host \<Rightarrow> py_exn + int list" where
  "all_pids H = rmap (\<lambda>e. case py_int e of Some n \<Rightarrow> Inr n | None \<Rightarrow> Inl ValueError) (filter py_isdigit (ph_entries H))"

definition session_members :: "proc_host \<Rightarrow> int set \<Rightarrow> py_exn + int list" where
  "session_members H sids =
     (if sids = {} then Inr []
      else rbind (all_pids H) (rfilter (\<lambda>pid. rbind (session_id H pid) (\<lambda>s. Inr (case s of Some n \<Rightarrow> n \<in> sids | None \<Rightarrow> False)))))"

definition rss_bytes :: "proc_host \<Rightarrow> int list \<Rightarrow> int" where
  "rss_bytes H pids =
     sum_list (map (\<lambda>pid. case ph_statm H pid of None \<Rightarrow> 0
        | Some t \<Rightarrow> (case int_field 1 (py_split t) of Inr resident \<Rightarrow> resident * ph_page_size H | Inl _ \<Rightarrow> 0)) pids)"

fun cpu_ticks :: "proc_host \<Rightarrow> int list \<Rightarrow> py_exn + int" where
  "cpu_ticks H [] = Inr 0"
| "cpu_ticks H (pid # pids) =
     rbind (stat_fields H pid) (\<lambda>r.
     rbind (case r of Some (f # fs) \<Rightarrow> rbind (int_field 11 (f # fs)) (\<lambda>u. rbind (int_field 12 (f # fs)) (\<lambda>s. Inr (u + s))) | _ \<Rightarrow> Inr 0) (\<lambda>n.
     rbind (cpu_ticks H pids) (\<lambda>total. Inr (n + total))))"

section \<open>Cgroups\<close>

text \<open>A cgroup directory: its files and, when it can be listed, its subdirectories.\<close>

datatype cgdir = CgDir (cg_files: "string \<Rightarrow> string option") (cg_subdirs: "cgdir list option")

definition cgroup_self_dir :: "string option \<Rightarrow> (string list \<Rightarrow> string) \<Rightarrow> (string \<Rightarrow> string list) \<Rightarrow> string option" where
  "cgroup_self_dir text join lines =
     (case text of
        None \<Rightarrow> None
      | Some t \<Rightarrow>
          (case find (prefix ''0::'') (lines t) of
             Some line \<Rightarrow> Some (join [''/sys/fs/cgroup'', dropWhile (\<lambda>c. c = CHR ''/'') (drop 3 line)])
           | None \<Rightarrow> None))"

definition cg_pids :: "cgdir \<Rightarrow> py_exn + int list option" where
  "cg_pids d =
     (case cg_files d ''cgroup.procs'' of
        None \<Rightarrow> Inr None
      | Some t \<Rightarrow> rbind (rmap (\<lambda>x. case py_int x of Some n \<Rightarrow> Inr n | None \<Rightarrow> Inl ValueError) (py_split t)) (\<lambda>ns. Inr (Some ns)))"

text \<open>How many directories are left to visit.\<close>

primrec cg_count :: "cgdir \<Rightarrow> nat" where
  "cg_count (CgDir fs ds) = Suc (case map_option (map cg_count) ds of None \<Rightarrow> 0 | Some ns \<Rightarrow> sum_list ns)"

text \<open>The work list, with the directory that is popped next in front.\<close>

function cg_walk :: "bool \<Rightarrow> cgdir list \<Rightarrow> py_exn + int list" where
  "cg_walk recursive [] = Inr []"
| "cg_walk recursive (d # dirs) =
     rbind (cg_pids d) (\<lambda>r.
       case r of
         None \<Rightarrow> cg_walk recursive dirs
       | Some ns \<Rightarrow>
           rbind (cg_walk recursive ((if recursive then (case cg_subdirs d of Some ds \<Rightarrow> rev ds | None \<Rightarrow> []) else []) @ dirs))
             (\<lambda>more. Inr (ns @ more)))"
  by pat_completeness auto

termination
proof (relation "measure (\<lambda>(_, ds). sum_list (map cg_count ds))", goal_cases)
  case (3 recursive d dirs r y)
  then show ?case by (cases d) (auto simp: rev_map [symmetric] split: option.splits)
next
  case (2 recursive d dirs r)
  then show ?case by (cases d) auto
qed auto

definition cgroup_procs :: "bool \<Rightarrow> cgdir \<Rightarrow> py_exn + int list" where
  "cgroup_procs recursive d = cg_walk recursive [d]"

definition cgroup_mem_bytes :: "cgdir \<Rightarrow> int option" where
  "cgroup_mem_bytes d = (case cg_files d ''memory.current'' of None \<Rightarrow> None | Some t \<Rightarrow> py_int t)"

definition cgroup_cpu_usec :: "(string \<Rightarrow> string list) \<Rightarrow> cgdir \<Rightarrow> py_exn + int option" where
  "cgroup_cpu_usec lines d =
     (case cg_files d ''cpu.stat'' of
        None \<Rightarrow> Inr None
      | Some t \<Rightarrow>
          (case find (prefix ''usage_usec '') (lines t) of
             Some line \<Rightarrow> rbind (int_field 1 (py_split line)) (\<lambda>n. Inr (Some n))
           | None \<Rightarrow> Inr None))"

section \<open>The registry of instances\<close>

text \<open>
  The directory of record files: a file's JSON value, or \<open>None\<close> when it cannot be read or parsed.
\<close>

type_synonym registry_dir = "(string, pyval option) dict"

definition record_path :: "string \<Rightarrow> string" where
  "record_path name = name @ ''.json''"

definition tmp_path :: "string \<Rightarrow> string" where
  "tmp_path name = name @ ''.tmp''"

definition registry_write :: "string \<Rightarrow> pyval \<Rightarrow> registry_dir \<Rightarrow> registry_dir" where
  "registry_write name rec dir =
     (let written = dict_set (tmp_path name) (Some rec) dir
      in dict_set (record_path name) (Some rec) (dict_del (tmp_path name) written))"

definition registry_remove :: "string \<Rightarrow> registry_dir \<Rightarrow> registry_dir" where
  "registry_remove name dir = dict_del (record_path name) dir"

definition registry_load :: "string \<Rightarrow> registry_dir \<Rightarrow> pyval option" where
  "registry_load name dir = (case dict_get dir (record_path name) of Some (Some r) \<Rightarrow> Some r | _ \<Rightarrow> None)"

definition registry_load_all :: "registry_dir \<Rightarrow> pyval list" where
  "registry_load_all dir =
     List.map_filter (\<lambda>f. case dict_get dir f of Some r \<Rightarrow> r | None \<Rightarrow> None) (sort (filter (suffix ''.json'') (dict_keys dir)))"

definition supervisor_alive :: "proc_host \<Rightarrow> int option \<Rightarrow> int option \<Rightarrow> py_exn + bool" where
  "supervisor_alive H pid ticks =
     (case pid of None \<Rightarrow> Inr False | Some p \<Rightarrow> if p = 0 then Inr False else identity_matches H p ticks)"

text \<open>\<open>new_run_logs_dir\<close>: the first free name; \<open>taken\<close> are the names in the log directory.\<close>

function free_from :: "string set \<Rightarrow> string \<Rightarrow> nat \<Rightarrow> string" where
  "free_from taken base n =
     (if finite taken \<and> base @ ''-'' @ str_nat n \<in> taken then free_from taken base (Suc n) else base @ ''-'' @ str_nat n)"
  by pat_completeness auto
termination
proof (relation "measure (\<lambda>(taken, base, n). card {m. n \<le> m \<and> base @ ''-'' @ str_nat m \<in> taken})", goal_cases)
  case (2 taken base n)
  have "finite {m. n \<le> m \<and> base @ ''-'' @ str_nat m \<in> taken}"
  proof (rule finite_subset [OF _ finite_vimageI [of taken "\<lambda>m. base @ ''-'' @ str_nat m"]])
    show "inj (\<lambda>m. base @ ''-'' @ str_nat m)" by (auto intro!: injI)
  qed (use 2 in auto)
  moreover have "{m. Suc n \<le> m \<and> base @ ''-'' @ str_nat m \<in> taken} \<subset> {m. n \<le> m \<and> base @ ''-'' @ str_nat m \<in> taken}"
  proof (rule psubsetI)
    have "n \<in> {m. n \<le> m \<and> base @ ''-'' @ str_nat m \<in> taken}" using 2 by simp
    then show "{m. Suc n \<le> m \<and> base @ ''-'' @ str_nat m \<in> taken} \<noteq> {m. n \<le> m \<and> base @ ''-'' @ str_nat m \<in> taken}"
      by (metis (mono_tags, lifting) mem_Collect_eq not_less_eq_eq order_refl)
  qed auto
  ultimately show ?case by (simp add: psubset_card_mono)
qed simp

declare free_from.simps [simp del]

definition new_run_logs_dir :: "string set \<Rightarrow> string \<Rightarrow> string \<Rightarrow> string" where
  "new_run_logs_dir taken instance_name stamp =
     (let candidate = instance_name @ ''-'' @ stamp in if candidate \<in> taken then free_from taken candidate 2 else candidate)"

lemma free_from_free: "finite taken \<Longrightarrow> free_from taken base n \<notin> taken"
proof (induction taken base n rule: free_from.induct)
  case (1 taken base n)
  then show ?case by (subst free_from.simps) auto
qed

text \<open>A run never gets the log directory of another run.\<close>

lemma new_run_logs_dir_fresh: "finite taken \<Longrightarrow> new_run_logs_dir taken name stamp \<notin> taken"
  by (simp add: new_run_logs_dir_def Let_def free_from_free)

text \<open>What is written is loaded back, whatever else is registered stays.\<close>

lemma registry_write_load:
  "registry_load n (registry_write name rec dir) = (if n = name then Some rec else registry_load n dir)"
proof -
  have "record_path n \<noteq> tmp_path m" for n m :: string
  proof
    assume "record_path n = tmp_path m"
    then have "last (record_path n) = last (tmp_path m)" by simp
    then show False by (simp add: record_path_def tmp_path_def)
  qed
  then show ?thesis by (auto simp: registry_load_def registry_write_def Let_def) (auto simp: record_path_def)
qed

lemma registry_remove_load: "registry_load n (registry_remove name dir) = (if n = name then None else registry_load n dir)"
  by (auto simp: registry_load_def registry_remove_def record_path_def)

section \<open>What the kernel prints\<close>

record kproc =
  kp_pid :: nat
  kp_comm :: string
  kp_state :: char
  kp_ppid :: nat
  kp_pgrp :: nat
  kp_session :: nat
  kp_early :: "nat list"
  kp_utime :: nat
  kp_stime :: nat
  kp_late :: "nat list"
  kp_start :: nat
  kp_tail :: "nat list"

definition stat_words :: "kproc \<Rightarrow> string list" where
  "stat_words p = [kp_state p] # map str_nat ([kp_ppid p, kp_pgrp p, kp_session p] @ kp_early p @
     [kp_utime p, kp_stime p] @ kp_late p @ [kp_start p] @ kp_tail p)"

definition stat_line :: "kproc \<Rightarrow> string" where
  "stat_line p = str_nat (kp_pid p) @ '' ('' @ kp_comm p @ '') '' @ py_join '' '' (stat_words p) @ [ch_newline]"

text \<open>Seven numbers before the times, six before the start, a state that is a letter, numbers of 64 bits.\<close>

definition kproc_ok :: "kproc \<Rightarrow> bool" where
  "kproc_ok p \<longleftrightarrow> length (kp_early p) = 7 \<and> length (kp_late p) = 6 \<and> (is_upper_az (kp_state p) \<or> is_lower_az (kp_state p)) \<and>
     list_all (\<lambda>n. n < 2 ^ 64) ([kp_pid p, kp_ppid p, kp_pgrp p, kp_session p, kp_utime p, kp_stime p, kp_start p])"

lemma split_words:
  "\<lbrakk>ws \<noteq> []; \<forall>w \<in> set ws. w \<noteq> [] \<and> list_all (\<lambda>c. \<not> is_space c) w\<rbrakk> \<Longrightarrow> py_split (py_join '' '' ws @ [ch_newline]) = ws"
proof (induction ws)
  case (Cons w ws)
  obtain c cs where w: "w = c # cs" using Cons.prems by (cases w) auto
  have ns: "\<not> is_space x" if "x \<in> set w" for x using Cons.prems that by (auto simp: list_all_iff)
  have step: "py_split (w @ r # rs) = w # py_split (r # rs)" if "is_space r" for r rs
  proof -
    have "dropWhile is_space (w @ r # rs) = w @ r # rs" using w ns [of c] by simp
    moreover have "takeWhile (\<lambda>c. \<not> is_space c) (w @ r # rs) = w" "dropWhile (\<lambda>c. \<not> is_space c) (w @ r # rs) = r # rs"
      using ns that by (simp_all add: takeWhile_append2 dropWhile_append2)
    ultimately show ?thesis using w by (subst py_split.simps) (simp add: Let_def)
  qed
  have blank: "py_split (CHR '' '' # s) = py_split s" for s
    by (subst (1 2) py_split.simps) (simp add: is_space_def)
  show ?case
  proof (cases "ws = []")
    case True
    have "py_split [ch_newline] = []" by (subst py_split.simps) (simp add: is_space_def)
    with True show ?thesis using step [of ch_newline "[]"] by (simp add: is_space_def)
  next
    case False
    then show ?thesis using Cons step [of "CHR '' ''" "py_join '' '' ws @ [ch_newline]"]
      by (simp add: py_join_Cons blank is_space_def)
  qed
qed simp

lemma stat_words_clean:
  assumes "kproc_ok p" and "w \<in> set (stat_words p)"
  shows "w \<noteq> []" and "list_all (\<lambda>c. \<not> is_space c) w" and "CHR '')'' \<notin> set w"
proof -
  have digits: "list_all (\<lambda>c. \<not> is_space c) (str_nat n) \<and> CHR '')'' \<notin> set (str_nat n)" for n
  proof -
    have d: "is_ascii_digit c" if "c \<in> set (str_nat n)" for c using str_nat_digits [of n] that by (simp add: list_all_iff)
    have "\<not> is_ascii_digit (CHR '')'')" by (simp add: is_ascii_digit_def)
    then show ?thesis using d digit_not_space by (auto simp: list_all_iff)
  qed
  have "\<not> is_space (kp_state p)" "kp_state p \<noteq> CHR '')''"
    using assms(1) by (auto simp: kproc_ok_def is_upper_az_def is_lower_az_def is_space_def Let_def)
  moreover have "w = [kp_state p] \<or> (\<exists>n. w = str_nat n)" using assms(2) by (auto simp: stat_words_def)
  ultimately show "w \<noteq> []" "list_all (\<lambda>c. \<not> is_space c) w" "CHR '')'' \<notin> set w"
    using digits by (auto simp: eq_commute [of "[]"])
qed

text \<open>Whatever a command calls itself, parentheses and blanks included, its fields are read back.\<close>

lemma stat_fields_read:
  assumes "kproc_ok p" and "ph_stat H pid = Some (stat_line p)"
  shows "stat_fields H pid = Inr (Some (stat_words p))"
proof -
  let ?rest = "'' '' @ py_join '' '' (stat_words p) @ [ch_newline]"
  have "c \<in> set (py_join '' '' ws) \<Longrightarrow> c = CHR '' '' \<or> (\<exists>w \<in> set ws. c \<in> set w)" for c ws
    by (induction "'' ''" ws rule: py_join.induct) auto
  then have no: "CHR '')'' \<notin> set ?rest" using stat_words_clean(3) [OF assms(1)] by auto
  have "c \<notin> set r \<Longrightarrow> takeWhile (\<lambda>x. x \<noteq> c) (rev r @ c # t) = rev r" for c :: char and r t
    by (subst takeWhile_append2) auto
  from this [OF no] have "takeWhile (\<lambda>x. x \<noteq> CHR '')'') (rev ?rest @ CHR '')'' # t) = rev ?rest" for t .
  moreover have "stat_line p = (str_nat (kp_pid p) @ '' ('' @ kp_comm p) @ CHR '')'' # ?rest"
    by (simp add: stat_line_def)
  ultimately have "rpartition_ch (CHR '')'') (stat_line p) =
      (rev (tl (dropWhile (\<lambda>x. x \<noteq> CHR '')'') (rev (stat_line p)))), True, ?rest)"
    by (simp add: rpartition_ch_def)
  moreover have "py_split ?rest = stat_words p"
  proof -
    have "py_split (CHR '' '' # s) = py_split s" for s
      by (subst (1 2) py_split.simps) (simp add: is_space_def)
    moreover have "stat_words p \<noteq> []" by (simp add: stat_words_def)
    ultimately show ?thesis using split_words [of "stat_words p"] stat_words_clean(1,2) [OF assms(1)] by simp
  qed
  ultimately show ?thesis using assms(2) by (simp add: stat_fields_def)
qed

lemma small_parses: "n < 2 ^ 64 \<Longrightarrow> py_int (str_nat n) = Some (int n)"
proof (rule py_int_str_nat)
  assume "n < 2 ^ 64"
  also have "(2 :: nat) ^ 64 \<le> 10 ^ 20" by simp
  also have "10 ^ 20 \<le> int_str_bound" by (rule int_str_bound_ge) (simp add: int_max_str_digits_def)
  finally show "n < int_str_bound" .
qed

lemma stat_words_nth:
  assumes "kproc_ok p"
  shows "stat_words p = [kp_state p] # tl (stat_words p)" "19 < length (stat_words p)"
    and "stat_words p ! 3 = str_nat (kp_session p)" and "stat_words p ! 19 = str_nat (kp_start p)"
  using assms by (simp_all add: stat_words_def kproc_ok_def nth_append)

lemma proc_read:
  assumes "kproc_ok p" and "ph_stat H pid = Some (stat_line p)"
  shows "session_id H pid = Inr (Some (int (kp_session p)))" and "start_ticks H pid = Inr (Some (int (kp_start p)))"
    and "pid_alive H pid = Inr (kp_state p \<noteq> CHR ''Z'')"
proof -
  note w = stat_words_nth [OF assms(1)] and r = stat_fields_read [OF assms]
  have small: "kp_session p < 2 ^ 64" "kp_start p < 2 ^ 64" using assms(1) by (simp_all add: kproc_ok_def)
  obtain f fs where ws: "stat_words p = f # fs" by (simp add: stat_words_def)
  show "session_id H pid = Inr (Some (int (kp_session p)))" "start_ticks H pid = Inr (Some (int (kp_start p)))"
    using w(2-4) small_parses [OF small(1)] small_parses [OF small(2)] ws
    by (simp_all add: session_id_def start_ticks_def opt_field_def r int_field_def)
  show "pid_alive H pid = Inr (kp_state p \<noteq> CHR ''Z'')"
    using w(1) by (cases "stat_words p") (simp_all add: pid_alive_def r)
qed

text \<open>
  A recorded supervisor counts as alive exactly when a process with its pid exists, is no zombie and started
  at the recorded tick: a reused pid is not mistaken for it.
\<close>

lemma identity_exact:
  assumes "case ph_stat H pid of None \<Rightarrow> True | Some t \<Rightarrow> \<exists>p. kproc_ok p \<and> t = stat_line p"
  shows "identity_matches H pid (Some ticks) =
    Inr (\<exists>p. kproc_ok p \<and> ph_stat H pid = Some (stat_line p) \<and> kp_state p \<noteq> CHR ''Z'' \<and> int (kp_start p) = ticks)"
proof (cases "ph_stat H pid")
  case None
  then show ?thesis by (simp add: identity_matches_def pid_alive_def stat_fields_def)
next
  case (Some t)
  with assms obtain p where p: "kproc_ok p" "ph_stat H pid = Some (stat_line p)" by auto
  have same: "kp_state q = kp_state p \<and> kp_start q = kp_start p" if "kproc_ok q" "stat_line q = stat_line p" for q
  proof -
    have ph: "ph_stat H pid = Some (stat_line q)" using p(2) that(2) by simp
    have "stat_words q = stat_words p" using stat_fields_read [OF that(1) ph] stat_fields_read [OF p] by simp
    then show ?thesis using proc_read(2) [OF that(1) ph] proc_read(2) [OF p] by (simp add: stat_words_def)
  qed
  have "(\<exists>q. kproc_ok q \<and> ph_stat H pid = Some (stat_line q) \<and> kp_state q \<noteq> CHR ''Z'' \<and> int (kp_start q) = ticks) \<longleftrightarrow>
      kp_state p \<noteq> CHR ''Z'' \<and> int (kp_start p) = ticks"
    using same p by (metis option.inject)
  then show ?thesis using proc_read [OF p] by (simp add: identity_matches_def)
qed

text \<open>The directories of a cgroup tree, and that walking it finds every process below.\<close>

datatype ktree = KTree (kt_pids: "nat list") (kt_subs: "ktree list")

primrec ktree_pids :: "ktree \<Rightarrow> nat list" where
  "ktree_pids (KTree ns ts) = ns @ concat (map ktree_pids ts)"

primrec cg_of :: "ktree \<Rightarrow> cgdir" where
  "cg_of (KTree ns ts) =
     CgDir (\<lambda>f. if f = ''cgroup.procs'' then Some (py_join '' '' (map str_nat ns) @ [ch_newline]) else None) (Some (map cg_of ts))"

lemma cg_pids_of: "list_all (\<lambda>n. n < 2 ^ 64) (ktree_pids t) \<Longrightarrow> cg_pids (cg_of t) = Inr (Some (map int (kt_pids t)))"
proof (cases t)
  case (KTree ns ts)
  assume a: "list_all (\<lambda>n. n < 2 ^ 64) (ktree_pids t)"
  have "py_split (py_join '' '' (map str_nat ns) @ [ch_newline]) = map str_nat ns"
  proof (cases "ns = []")
    case True
    then show ?thesis by (simp, subst py_split.simps) (simp add: is_space_def)
  next
    case False
    have "list_all (\<lambda>c. \<not> is_space c) (str_nat n)" for n
      using str_nat_digits [of n] digit_not_space by (auto simp: list_all_iff)
    then show ?thesis using False by (intro split_words) auto
  qed
  moreover have "rmap (\<lambda>x. case py_int x of Some n \<Rightarrow> Inr n | None \<Rightarrow> Inl ValueError) (map str_nat ns) = Inr (map int ns)"
  proof -
    have "list_all (\<lambda>n. n < 2 ^ 64) ns" using a KTree by simp
    then show ?thesis by (induction ns) (auto simp: small_parses)
  qed
  ultimately show "cg_pids (cg_of t) = Inr (Some (map int (kt_pids t)))" by (simp add: cg_pids_def KTree)
qed

lemma cg_walk_complete:
  "list_all (\<lambda>n. n < 2 ^ 64) (concat (map ktree_pids ts)) \<Longrightarrow>
    \<exists>ns. cg_walk True (map cg_of ts) = Inr (map int ns) \<and> mset ns = mset (concat (map ktree_pids ts))"
proof (induction "sum_list (map (cg_count \<circ> cg_of) ts)" arbitrary: ts rule: less_induct)
  case less
  show ?case
  proof (cases ts)
    case (Cons t us)
    obtain ms vs where t: "t = KTree ms vs" by (cases t)
    have "\<exists>ns. cg_walk True (map cg_of (rev vs @ us)) = Inr (map int ns) \<and> mset ns = mset (concat (map ktree_pids (rev vs @ us)))"
    proof (rule less.hyps)
      have "sum_list (map cg_count (map cg_of vs)) < cg_count (cg_of t)" by (simp add: t comp_def)
      then show "sum_list (map (cg_count \<circ> cg_of) (rev vs @ us)) < sum_list (map (cg_count \<circ> cg_of) ts)"
        by (simp add: Cons rev_map [symmetric] comp_def)
      show "list_all (\<lambda>n. n < 2 ^ 64) (concat (map ktree_pids (rev vs @ us)))"
        using less.prems Cons t by (auto simp: list_all_iff)
    qed
    then obtain ns where ns: "cg_walk True (map cg_of (rev vs @ us)) = Inr (map int ns)"
      "mset ns = mset (concat (map ktree_pids (rev vs @ us)))" by auto
    have "cg_pids (cg_of t) = Inr (Some (map int ms))" using cg_pids_of [of t] less.prems Cons t by simp
    moreover have "cg_subdirs (cg_of t) = Some (map cg_of vs)" by (simp add: t)
    ultimately have "cg_walk True (map cg_of ts) = Inr (map int (ms @ ns))"
      using ns(1) by (simp add: Cons rev_map)
    moreover have "mset (ms @ ns) = mset (concat (map ktree_pids ts))"
      using ns(2) by (simp add: Cons t mset_concat rev_map [symmetric])
    ultimately show ?thesis by blast
  qed simp
qed

end
