(* ===== verification/Orc_Contain.thy ===== *)
theory Orc_Contain
  imports Orc_Procfs
begin

text \<open>
  \<^verbatim>\<open>src/jetty/orchestrator/containment.py\<close>: the two backends and the choice between them. A \<open>world\<close> is what
  the backends act on: what is read of the processes and of a service's cgroup, the effect of a signal, and
  whether \<^verbatim>\<open>cgroup.kill\<close> can be written. A signal that cannot be delivered has no effect, as the code swallows
  the error. The kernel of the last section is a world: processes with sessions, groups and cgroups.
\<close>

section \<open>Worlds\<close>

definition SIGKILL :: int where "SIGKILL = 9"

datatype sent = KillPid int int | KillGroup int int

record 'k world =
  w_host :: "'k \<Rightarrow> proc_host"
  w_send :: "sent \<Rightarrow> 'k \<Rightarrow> 'k"
  w_cgroup :: "string \<Rightarrow> 'k \<Rightarrow> cgdir"
  w_cgkill :: "string \<Rightarrow> 'k \<Rightarrow> 'k option"

record service_stats =
  ss_mem :: "int option"
  ss_nprocs :: nat

definition send_all :: "'k world \<Rightarrow> int list \<Rightarrow> int \<Rightarrow> 'k \<Rightarrow> 'k" where
  "send_all W pids sig k = foldl (\<lambda>k pid. w_send W (KillPid pid sig) k) k pids"

section \<open>The cgroup backend\<close>

definition svc_dir :: "string \<Rightarrow> string \<Rightarrow> string" where
  "svc_dir root_dir service = root_dir @ ''/svc-'' @ service"

datatype cg_op = CgMkdir string | CgWrite string string | CgRmdir string

definition cg_controllers :: "string \<Rightarrow> string option \<Rightarrow> cg_op list" where
  "cg_controllers root_dir text =
     (let available = (case text of Some t \<Rightarrow> py_split t | None \<Rightarrow> [])
      in map (\<lambda>ctrl. CgWrite (root_dir @ ''/cgroup.subtree_control'') (''+'' @ ctrl))
           (filter (\<lambda>ctrl. ctrl \<in> set available) [''cpu'', ''memory'', ''pids'']))"

text \<open>
  What the setup does, in order; \<open>fails\<close> says which steps raise. Enabling a controller may fail silently,
  any other failure ends the setup.
\<close>

fun cg_run :: "(cg_op \<Rightarrow> bool) \<Rightarrow> cg_op list \<Rightarrow> py_exn + cg_op list" where
  "cg_run fails [] = Inr []"
| "cg_run fails (op # ops) = (if fails op then Inl OSError else rbind (cg_run fails ops) (\<lambda>done. Inr (op # done)))"

definition cg_setup :: "(cg_op \<Rightarrow> bool) \<Rightarrow> string \<Rightarrow> string option \<Rightarrow> string list \<Rightarrow> py_exn + cg_op list" where
  "cg_setup fails root_dir controllers services =
     rbind (cg_run fails [CgMkdir (root_dir @ ''/supervisor''), CgWrite (root_dir @ ''/supervisor/cgroup.procs'') ''0'']) (\<lambda>moved.
     rbind (cg_run fails (map (\<lambda>s. CgMkdir (svc_dir root_dir s)) services)) (\<lambda>leaves.
       Inr (moved @ filter (\<lambda>op. \<not> fails op) (cg_controllers root_dir controllers) @ leaves)))"

text \<open>Closing removes the leaves it can.\<close>

definition cg_close :: "(cg_op \<Rightarrow> bool) \<Rightarrow> string \<Rightarrow> string list \<Rightarrow> cg_op list" where
  "cg_close fails root_dir services = filter (\<lambda>op. \<not> fails op) (map (\<lambda>s. CgRmdir (svc_dir root_dir s)) services)"

definition cg_service_pids :: "'k world \<Rightarrow> string \<Rightarrow> string \<Rightarrow> 'k \<Rightarrow> py_exn + int list" where
  "cg_service_pids W root_dir service k = cgroup_procs True (w_cgroup W (svc_dir root_dir service) k)"

definition cg_sweep :: "'k world \<Rightarrow> string \<Rightarrow> string \<Rightarrow> int \<Rightarrow> ('k, py_exn, unit) opn" where
  "cg_sweep W root_dir service sig k =
     (case (if sig = SIGKILL then w_cgkill W (svc_dir root_dir service) k else None) of
        Some k' \<Rightarrow> (Inr (), k')
      | None \<Rightarrow>
          (case cg_service_pids W root_dir service k of
             Inl e \<Rightarrow> (Inl e, k)
           | Inr pids \<Rightarrow> (Inr (), send_all W pids sig k)))"

definition cg_stats :: "'k world \<Rightarrow> string \<Rightarrow> string \<Rightarrow> 'k \<Rightarrow> py_exn + service_stats" where
  "cg_stats W root_dir service k =
     rbind (cg_service_pids W root_dir service k) (\<lambda>pids.
       Inr \<lparr>ss_mem = cgroup_mem_bytes (w_cgroup W (svc_dir root_dir service) k), ss_nprocs = length pids\<rparr>)"

section \<open>The process-group backend\<close>

definition pg_register :: "string \<Rightarrow> int \<Rightarrow> (string, int) dict \<Rightarrow> (string, int) dict" where
  "pg_register service pid sids = dict_set service pid sids"

definition pg_sid :: "(string, int) dict \<Rightarrow> string \<Rightarrow> int option" where
  "pg_sid sids service = (case dict_get sids service of Some sid \<Rightarrow> if sid = 0 then None else Some sid | None \<Rightarrow> None)"

definition pg_pids :: "'k world \<Rightarrow> (string, int) dict \<Rightarrow> string \<Rightarrow> 'k \<Rightarrow> py_exn + int list" where
  "pg_pids W sids service k =
     (case pg_sid sids service of Some sid \<Rightarrow> session_members (w_host W k) {sid} | None \<Rightarrow> Inr [])"

definition pg_sweep :: "'k world \<Rightarrow> (string, int) dict \<Rightarrow> string \<Rightarrow> int \<Rightarrow> ('k, py_exn, unit) opn" where
  "pg_sweep W sids service sig k =
     (case pg_sid sids service of
        None \<Rightarrow> (Inr (), k)
      | Some sid \<Rightarrow>
          (let k1 = w_send W (KillGroup sid sig) k
           in case session_members (w_host W k1) {sid} of
                Inl e \<Rightarrow> (Inl e, k1)
              | Inr pids \<Rightarrow> (Inr (), send_all W pids sig k1)))"

definition pg_stats :: "'k world \<Rightarrow> (string, int) dict \<Rightarrow> string \<Rightarrow> 'k \<Rightarrow> py_exn + service_stats" where
  "pg_stats W sids service k =
     rbind (pg_pids W sids service k) (\<lambda>pids.
       Inr \<lparr>ss_mem = Some (if pids \<noteq> [] then rss_bytes (w_host W k) pids else 0), ss_nprocs = length pids\<rparr>)"

text \<open>\<open>kill_all\<close>: a sweep of every service, in order.\<close>

fun kill_all :: "(string \<Rightarrow> int \<Rightarrow> ('k, py_exn, unit) opn) \<Rightarrow> string list \<Rightarrow> ('k, py_exn, unit) opn" where
  "kill_all sweep [] = sret ()"
| "kill_all sweep (s # ss) = sbind (sweep s SIGKILL) (\<lambda>_. kill_all sweep ss)"

definition external_kill :: "'k world \<Rightarrow> string \<Rightarrow> string option \<Rightarrow> int list \<Rightarrow> ('k, py_exn, unit) opn" where
  "external_kill W kind root_dir service_pids k =
     (case (case root_dir of Some (c # cs) \<Rightarrow> (if kind = ''cgroup'' then w_cgkill W (c # cs) k else None) | _ \<Rightarrow> None) of
        Some k' \<Rightarrow> (Inr (), k')
      | None \<Rightarrow>
          (let sids = filter (\<lambda>pid. pid \<noteq> 0) (remdups service_pids)
           in case session_members (w_host W k) (set sids) of
                Inl e \<Rightarrow> (Inl e, k)
              | Inr pids \<Rightarrow> (Inr (), foldl (\<lambda>k sid. w_send W (KillGroup sid SIGKILL) k) (send_all W pids SIGKILL k) sids)))"

section \<open>Choosing a backend\<close>

text \<open>
  What is observed: the directory of our cgroup, whether it is writable, the processes in it, our pid and
  whether a subgroup could be made.
\<close>

record cg_probe =
  cp_self :: "string option"
  cp_writable :: bool
  cp_procs :: "int list"
  cp_pid :: int
  cp_subgroup :: bool

definition owned_cgroup :: "cg_probe \<Rightarrow> string option" where
  "owned_cgroup c =
     (case cp_self c of
        None \<Rightarrow> None
      | Some d \<Rightarrow>
          (if \<not> cp_writable c then None
           else if set (cp_procs c) - {cp_pid c} \<noteq> {} then None
           else if cp_subgroup c then Some d else None))"

definition systemd_user_available :: "bool \<Rightarrow> string \<Rightarrow> (string \<Rightarrow> bool) \<Rightarrow> bool" where
  "systemd_user_available which runtime exists \<longleftrightarrow> which \<and> runtime \<noteq> [] \<and> exists (runtime @ ''/systemd'')"

datatype acquired = UsePgroup bool | UseCgroup string | ReExec "string list" | ContainmentError

definition scope_argv :: "string \<Rightarrow> int \<Rightarrow> string list \<Rightarrow> string list" where
  "scope_argv instance_name pid self_argv =
     [''systemd-run'', ''--user'', ''--scope'', ''--quiet'', ''--collect'', ''-p'', ''Delegate=yes'', ''--unit'',
      ''jetty-orc-'' @ instance_name @ ''-'' @ str_int pid] @ self_argv"

definition acquire :: "string \<Rightarrow> string \<Rightarrow> string list \<Rightarrow> bool \<Rightarrow> cg_probe \<Rightarrow> bool \<Rightarrow> acquired" where
  "acquire mode instance_name self_argv scoped c systemd =
     (if mode = ''pgroup'' then UsePgroup False
      else case owned_cgroup c of
        Some d \<Rightarrow> UseCgroup d
      | None \<Rightarrow>
          (if mode = ''cgroup'' then ContainmentError
           else if scoped then (if mode = ''scope'' then ContainmentError else UsePgroup True)
           else if systemd then ReExec (scope_argv instance_name (cp_pid c) self_argv)
           else if mode = ''scope'' then ContainmentError else UsePgroup True))"

text \<open>
  The choice never loops (a process that was re-executed is not re-executed again), keeps to the mode it was
  given, and takes a cgroup only when no other process is in it.
\<close>

lemma acquire_sound:
  "scoped \<Longrightarrow> acquire mode i argv scoped c sd \<noteq> ReExec a"
  "acquire ''pgroup'' i argv scoped c sd = UsePgroup False"
  "acquire ''cgroup'' i argv scoped c sd \<in> {ContainmentError} \<union> range UseCgroup"
  "acquire ''scope'' i argv scoped c sd \<notin> range UsePgroup"
  "acquire mode i argv scoped c sd = UseCgroup d \<Longrightarrow> set (cp_procs c) \<subseteq> {cp_pid c} \<and> cp_writable c"
  by (auto simp: acquire_def owned_cgroup_def split: option.splits if_splits)

section \<open>A kernel\<close>

record cproc =
  cq_proc :: kproc
  cq_cgroup :: "string list"

text \<open>A signal 9 ends the processes it reaches; they stay in the table as zombies until they are reaped.\<close>

definition end_proc :: "cproc \<Rightarrow> cproc" where
  "end_proc q = q\<lparr>cq_proc := (cq_proc q)\<lparr>kp_state := CHR ''Z''\<rparr>\<rparr>"

definition ends :: "(cproc \<Rightarrow> bool) \<Rightarrow> cproc list \<Rightarrow> cproc list" where
  "ends hit ps = map (\<lambda>q. if hit q then end_proc q else q) ps"

primrec k_send :: "sent \<Rightarrow> cproc list \<Rightarrow> cproc list" where
  "k_send (KillPid pid sig) ps = (if sig = SIGKILL then ends (\<lambda>q. int (kp_pid (cq_proc q)) = pid) ps else ps)"
| "k_send (KillGroup pg sig) ps = (if sig = SIGKILL then ends (\<lambda>q. int (kp_pgrp (cq_proc q)) = pg) ps else ps)"

definition k_stat :: "cproc list \<Rightarrow> int \<Rightarrow> string option" where
  "k_stat ps pid = map_option (\<lambda>q. stat_line (cq_proc q)) (find (\<lambda>q. int (kp_pid (cq_proc q)) = pid) ps)"

definition k_host :: "cproc list \<Rightarrow> proc_host" where
  "k_host ps =
     \<lparr>ph_stat = k_stat ps, ph_cmdline = (\<lambda>_. None), ph_comm = (\<lambda>_. None), ph_statm = (\<lambda>_. None),
      ph_entries = [''acpi'', ''self''] @ map (\<lambda>q. str_nat (kp_pid (cq_proc q))) ps, ph_page_size = 4096, ph_decode = (\<lambda>s. s)\<rparr>"

definition is_live :: "cproc \<Rightarrow> bool" where
  "is_live q \<longleftrightarrow> kp_state (cq_proc q) \<noteq> CHR ''Z''"

text \<open>A process table: pids differ and every entry prints.\<close>

definition ktable :: "cproc list \<Rightarrow> bool" where
  "ktable ps \<longleftrightarrow> distinct (map (\<lambda>q. kp_pid (cq_proc q)) ps) \<and> list_all (\<lambda>q. kproc_ok (cq_proc q)) ps"

definition k_world :: "(string \<Rightarrow> cproc list \<Rightarrow> cgdir) \<Rightarrow> (string \<Rightarrow> cproc list \<Rightarrow> cproc list option) \<Rightarrow> (cproc list) world" where
  "k_world cg ck = \<lparr>w_host = k_host, w_send = k_send, w_cgroup = cg, w_cgkill = ck\<rparr>"

abbreviation q_pid :: "cproc \<Rightarrow> int" where "q_pid q \<equiv> int (kp_pid (cq_proc q))"
abbreviation q_session :: "cproc \<Rightarrow> int" where "q_session q \<equiv> int (kp_session (cq_proc q))"
abbreviation q_group :: "cproc \<Rightarrow> int" where "q_group q \<equiv> int (kp_pgrp (cq_proc q))"

lemma end_proc_simps [simp]:
  "kp_pid (cq_proc (end_proc q)) = kp_pid (cq_proc q)" "kp_session (cq_proc (end_proc q)) = kp_session (cq_proc q)"
  "kp_pgrp (cq_proc (end_proc q)) = kp_pgrp (cq_proc q)" "cq_cgroup (end_proc q) = cq_cgroup q"
  "\<not> is_live (end_proc q)" "end_proc (end_proc q) = end_proc q"
  by (simp_all add: end_proc_def is_live_def)

lemma kproc_ok_end [simp]: "kproc_ok (cq_proc q) \<Longrightarrow> kproc_ok (cq_proc (end_proc q))"
  by (simp add: end_proc_def kproc_ok_def is_upper_az_def)

lemma ends_ends: "(\<And>q. f (end_proc q) = f q) \<Longrightarrow> ends f (ends g ps) = ends (\<lambda>q. f q \<or> g q) ps"
  by (auto simp: ends_def)

lemma ktable_ends: "ktable ps \<Longrightarrow> ktable (ends hit ps)"
  by (auto simp: ktable_def ends_def list_all_iff comp_def if_distrib cong: if_cong)

lemma send_all_ends: "send_all (k_world cg ck) pids SIGKILL ps = ends (\<lambda>q. q_pid q \<in> set pids) ps"
proof (induction pids arbitrary: ps)
  case (Cons pid pids)
  have "send_all (k_world cg ck) (pid # pids) SIGKILL ps = ends (\<lambda>q. q_pid q \<in> set pids) (ends (\<lambda>q. q_pid q = pid) ps)"
    using Cons.IH [of "ends (\<lambda>q. q_pid q = pid) ps"] by (simp add: send_all_def k_world_def)
  also have "\<dots> = ends (\<lambda>q. q_pid q \<in> set pids \<or> q_pid q = pid) ps" by (rule ends_ends) simp
  finally show ?case by (simp add: disj_commute)
qed (simp add: send_all_def ends_def)

lemma find_pid:
  assumes "distinct (map q_pid ps)" and "q \<in> set ps"
  shows "find (\<lambda>r. q_pid r = q_pid q) ps = Some q"
  using assms by (induction ps) (force simp: image_iff)+

lemma all_pids_kernel: "ktable ps \<Longrightarrow> all_pids (k_host ps) = Inr (map q_pid ps)"
proof -
  assume t: "ktable ps"
  have "py_isdigit (str_nat n)" for n
    using str_nat_digits [of n] str_nat_not_Nil [of n]
    by (auto simp: py_isdigit_def list_all_iff is_digit_ch_def is_ascii_digit_def)
  then have "filter py_isdigit (ph_entries (k_host ps)) = map (\<lambda>q. str_nat (kp_pid (cq_proc q))) ps"
    by (simp add: k_host_def py_isdigit_def is_digit_ch_def is_ascii_digit_def comp_def)
  moreover have "kp_pid (cq_proc q) < 2 ^ 64" if "q \<in> set ps" for q
    using t that by (auto simp: ktable_def list_all_iff kproc_ok_def)
  then have "rmap (\<lambda>e. case py_int e of Some n \<Rightarrow> Inr n | None \<Rightarrow> Inl ValueError) (map (\<lambda>q. str_nat (kp_pid (cq_proc q))) ps) = Inr (map q_pid ps)"
    by (induction ps) (auto simp: small_parses)
  ultimately show ?thesis by (simp add: all_pids_def)
qed

lemma session_members_kernel:
  assumes "ktable ps" and "sids \<noteq> {}"
  shows "session_members (k_host ps) sids = Inr (map q_pid (filter (\<lambda>q. q_session q \<in> sids) ps))"
proof -
  have dist: "distinct (map q_pid ps)"
    using assms(1) by (auto simp: ktable_def distinct_map inj_on_def)
  have sess: "session_id (k_host ps) (q_pid q) = Inr (Some (q_session q))" if "q \<in> set ps" for q
  proof (rule proc_read(1))
    show "kproc_ok (cq_proc q)" using assms(1) that by (simp add: ktable_def list_all_iff)
    show "ph_stat (k_host ps) (q_pid q) = Some (stat_line (cq_proc q))"
      using find_pid [OF dist that] by (simp add: k_host_def k_stat_def)
  qed
  let ?in = "\<lambda>pid. \<exists>q \<in> set ps. q_pid q = pid \<and> q_session q \<in> sids"
  have "rfilter (\<lambda>pid. rbind (session_id (k_host ps) pid) (\<lambda>s. Inr (case s of Some n \<Rightarrow> n \<in> sids | None \<Rightarrow> False))) (map q_pid ps)
      = Inr (filter ?in (map q_pid ps))"
  proof (rule rfilter_total)
    fix pid assume "pid \<in> set (map q_pid ps)"
    then obtain q where q: "q \<in> set ps" "pid = q_pid q" by auto
    have "?in (q_pid q) \<longleftrightarrow> q_session q \<in> sids"
      using q(1) dist by (auto simp: distinct_map inj_on_def)
    then show "rbind (session_id (k_host ps) pid) (\<lambda>s. Inr (case s of Some n \<Rightarrow> n \<in> sids | None \<Rightarrow> False)) = Inr (?in pid)"
      using q sess [OF q(1)] by simp
  qed
  also have "filter ?in (map q_pid ps) = map q_pid (filter (\<lambda>q. q_session q \<in> sids) ps)"
    unfolding filter_map by (rule arg_cong [where f = "map q_pid"], rule filter_cong)
      (use dist in \<open>auto simp: distinct_map inj_on_def\<close>)
  finally show ?thesis using assms(2) by (simp add: session_members_def all_pids_kernel [OF assms(1)])
qed

text \<open>Below a cgroup directory.\<close>

definition below :: "string list \<Rightarrow> cproc \<Rightarrow> bool" where
  "below d q \<longleftrightarrow> prefix d (cq_cgroup q)"


definition try_proc :: "nat \<Rightarrow> nat \<Rightarrow> nat \<Rightarrow> cproc" where
  "try_proc pid pg sid =
     \<lparr>cq_proc = \<lparr>kp_pid = pid, kp_comm = ''sh (1) )'', kp_state = CHR ''S'', kp_ppid = 1, kp_pgrp = pg, kp_session = sid,
        kp_early = replicate 7 0, kp_utime = 5, kp_stime = 6, kp_late = replicate 6 0, kp_start = 77, kp_tail = []\<rparr>, cq_cgroup = []\<rparr>"


end
