(* ===== verification/Llm_Proxy.thy ===== *)
theory Llm_Proxy
  imports Listener_Config
begin

text \<open>
  \<^verbatim>\<open>src/jetty/modules/llmproxy/\<close>: the settings and counters of \<^verbatim>\<open>module.py\<close>, the forwarder of \<^verbatim>\<open>forward.py\<close> and
  the emulator of \<^verbatim>\<open>mock_gemini.py\<close>. The HTTP client is a parameter: what the provider answers to a request.
  So are the JSON reader and the digest of a request. Header names and query items arrive as the framework
  hands them out, a list in order.
\<close>

section \<open>Settings\<close>

datatype surface_mode = Passthrough | Mock

record surface_settings =
  sf_mode :: surface_mode
  sf_upstream :: string
  sf_api_key :: string

record llm_settings =
  ll_listener :: string
  ll_allow_remote :: bool
  ll_surfaces :: "(string, surface_settings) dict"

definition SHIPPED :: "(string, string) dict" where
  "SHIPPED = [(''gemini'', ''/genai'')]"

definition KNOWN_SURFACES :: "string list" where
  "KNOWN_SURFACES = [''gemini'', ''openai'', ''anthropic'']"

definition DEFAULT_UPSTREAM :: "(string, string) dict" where
  "DEFAULT_UPSTREAM =
     [(''gemini'', ''https://generativelanguage.googleapis.com''), (''openai'', ''https://api.openai.com''),
      (''anthropic'', ''https://api.anthropic.com'')]"

definition parse_bind :: "string \<Rightarrow> py_exn + string \<times> int" where
  "parse_bind listener =
     (case rpartition_ch (CHR '':'') listener of
        (host, sep, port) \<Rightarrow>
          (if \<not> sep \<or> \<not> py_isdigit port then Inl ValueError
           else case py_int port of
             None \<Rightarrow> Inl ValueError
           | Some n \<Rightarrow>
               (if 1 \<le> n \<and> n \<le> 65535
                then Inr (if strip_brackets host = [] then ''127.0.0.1'' else strip_brackets host, n)
                else Inl ValueError)))"

fun check_surfaces :: "(string, surface_settings) dict \<Rightarrow> py_exn + unit" where
  "check_surfaces [] = Inr ()"
| "check_surfaces ((name, surface) # rest) =
     (if name \<notin> set KNOWN_SURFACES then Inl ValueError
      else if \<not> dict_in name SHIPPED then Inl ValueError
      else if sf_mode surface = Passthrough \<and> sf_api_key surface = [] then Inl ValueError
      else check_surfaces rest)"

definition is_loopback :: "string \<Rightarrow> bool" where
  "is_loopback host \<longleftrightarrow> host = ''::1'' \<or> host = ''localhost'' \<or> prefix ''127.'' host"

definition check_settings :: "llm_settings \<Rightarrow> py_exn + llm_settings" where
  "check_settings cfg =
     (if ll_surfaces cfg = [] then Inl ValueError
      else rbind (check_surfaces (ll_surfaces cfg)) (\<lambda>_.
           rbind (parse_bind (ll_listener cfg)) (\<lambda>(host, _).
             if \<not> is_loopback host \<and> \<not> ll_allow_remote cfg then Inl ValueError else Inr cfg)))"

section \<open>Usage counters\<close>

record usage_row =
  us_requests :: int
  us_errors :: int
  us_input :: int
  us_output :: int

type_synonym usage = "(string, usage_row) dict"

definition zero_row :: usage_row where
  "zero_row = \<lparr>us_requests = 0, us_errors = 0, us_input = 0, us_output = 0\<rparr>"

definition record_usage :: "string \<Rightarrow> int \<Rightarrow> int \<Rightarrow> int \<Rightarrow> int \<Rightarrow> usage \<Rightarrow> usage" where
  "record_usage model requests errors input output u =
     (let row = dict_get_or u model zero_row
      in dict_set model \<lparr>us_requests = us_requests row + requests, us_errors = us_errors row + errors,
           us_input = us_input row + input, us_output = us_output row + output\<rparr> u)"

definition h_usage :: "usage \<Rightarrow> pyval" where
  "h_usage u =
     PDict [(''models'', PDict (map (\<lambda>(m, r). (m, PDict [(''requests'', PInt (us_requests r)), (''errors'', PInt (us_errors r)),
       (''input_tokens'', PInt (us_input r)), (''output_tokens'', PInt (us_output r))])) u))]"

section \<open>The forwarder\<close>

definition CREDENTIAL_HEADERS :: "string list" where
  "CREDENTIAL_HEADERS = [''authorization'', ''x-api-key'', ''x-goog-api-key'']"

definition CREDENTIAL_PARAMS :: "string list" where
  "CREDENTIAL_PARAMS = [''key'']"

definition HOP_HEADERS :: "string list" where
  "HOP_HEADERS = [''connection'', ''keep-alive'', ''proxy-authenticate'', ''proxy-authorization'', ''te'', ''trailer'',
     ''transfer-encoding'', ''upgrade'', ''host'', ''content-length'', ''accept-encoding'', ''expect'']"

definition AUTH_HEADER :: "(string, string) dict" where
  "AUTH_HEADER = [(''gemini'', ''x-goog-api-key'')]"

record forwarder =
  fw_surface :: string
  fw_upstream :: string
  fw_api_key :: string

definition Forwarder :: "string \<Rightarrow> string \<Rightarrow> string \<Rightarrow> forwarder" where
  "Forwarder surface upstream api_key =
     \<lparr>fw_surface = surface, fw_upstream = rev (dropWhile (\<lambda>c. c = CHR ''/'') (rev upstream)), fw_api_key = api_key\<rparr>"

text \<open>The forwarders of a module: one for every surface in passthrough mode.\<close>

definition forwarders :: "llm_settings \<Rightarrow> (string, forwarder) dict" where
  "forwarders cfg =
     map (\<lambda>(name, s). (name, Forwarder name (if sf_upstream s \<noteq> [] then sf_upstream s else dict_get_or DEFAULT_UPSTREAM name []) (sf_api_key s)))
       (filter (\<lambda>(_, s). sf_mode s = Passthrough) (ll_surfaces cfg))"

definition h_capabilities :: "llm_settings \<Rightarrow> string \<Rightarrow> pyval" where
  "h_capabilities cfg listener_url =
     PDict [(''listener'', PStr listener_url),
       (''surfaces'', PDict (map (\<lambda>(name, s). (name,
          case sf_mode s of
            Mock \<Rightarrow> PDict [(''mode'', PStr ''mock'')]
          | Passthrough \<Rightarrow> PDict [(''mode'', PStr ''passthrough''),
              (''upstream'', PStr (case dict_get (forwarders cfg) name of Some f \<Rightarrow> fw_upstream f | None \<Rightarrow> []))])) (ll_surfaces cfg)))]"

text \<open>\<open>re.search(r"/models/([^:/?]+)", s)\<close>: the group of the leftmost match.\<close>

definition model_ch :: "char \<Rightarrow> bool" where
  "model_ch c \<longleftrightarrow> c \<notin> {CHR '':'', CHR ''/'', CHR ''?''}"

fun model_search :: "string \<Rightarrow> string option" where
  "model_search [] = None"
| "model_search (c # cs) =
     (if prefix ''/models/'' (c # cs) \<and> takeWhile model_ch (drop 8 (c # cs)) \<noteq> []
      then Some (takeWhile model_ch (drop 8 (c # cs))) else model_search cs)"

definition fw_model :: "string \<Rightarrow> string" where
  "fw_model path = (case model_search (''/'' @ path) of Some m \<Rightarrow> m | None \<Rightarrow> ''-'')"

record llm_request =
  lr_method :: string
  lr_path :: string
  lr_headers :: "(string \<times> string) list"
  lr_query :: "(string \<times> string) list"
  lr_body :: string

text \<open>What is sent upstream: the headers are a \<open>dict\<close>.\<close>

definition keep_header :: "string \<Rightarrow> bool" where
  "keep_header k \<longleftrightarrow> py_lower k \<notin> set HOP_HEADERS \<and> py_lower k \<notin> set CREDENTIAL_HEADERS"

definition build_headers :: "string \<Rightarrow> string \<Rightarrow> (string \<times> string) list \<Rightarrow> (string, string) dict" where
  "build_headers auth api_key items =
     dict_set ''accept-encoding'' ''identity'' (dict_set auth api_key
       (foldl (\<lambda>d (k, v). dict_set k v d) [] (filter (\<lambda>(k, _). keep_header k) items)))"

definition build_request :: "forwarder \<Rightarrow> llm_request \<Rightarrow> py_exn + llm_request" where
  "build_request f r =
     (case dict_get AUTH_HEADER (fw_surface f) of
        None \<Rightarrow> Inl KeyError
      | Some auth \<Rightarrow> Inr \<lparr>lr_method = lr_method r, lr_path = ''/'' @ lr_path r, lr_headers = build_headers auth (fw_api_key f) (lr_headers r),
          lr_query = filter (\<lambda>(k, _). py_lower k \<notin> set CREDENTIAL_PARAMS) (lr_query r), lr_body = lr_body r\<rparr>)"

text \<open>The provider: unreachable, or a status, a content type, a cache policy, the chunks of its body and whether the body was completed.\<close>

datatype upstream = Unreachable | Answers int string "string option" "string list" bool

datatype llm_response =
  Relayed int string string | Streamed int string string "string list" bool | Synthesized int string pyval
| LlmJson int pyval | LlmCrash py_exn

definition synthesized :: "string \<Rightarrow> string \<Rightarrow> string \<Rightarrow> int \<Rightarrow> llm_response" where
  "synthesized surface reason message status =
     Synthesized status reason
       (PDict [(''error'', PDict [(''code'', PInt status), (''message'', PStr message), (''status'', PStr ''UNAVAILABLE'')])])"

text \<open>\<open>int(x)\<close> of a JSON value.\<close>

definition int_of_json :: "pyval \<Rightarrow> py_exn + int" where
  "int_of_json v =
     (case v of
        PInt i \<Rightarrow> Inr i | PBool b \<Rightarrow> Inr (if b then 1 else 0)
      | PFloat (Fin q) \<Rightarrow> Inr (if q < 0 then \<lceil>q\<rceil> else \<lfloor>q\<rfloor>) | PFloat NaN \<Rightarrow> Inl ValueError | PFloat _ \<Rightarrow> Inl OverflowError
      | PStr s \<Rightarrow> (case py_int s of Some i \<Rightarrow> Inr i | None \<Rightarrow> Inl ValueError)
      | _ \<Rightarrow> Inl TypeError)"

definition usage_of :: "(string \<Rightarrow> pyval option) \<Rightarrow> string \<Rightarrow> string \<Rightarrow> py_exn + (int \<times> int) option" where
  "usage_of loads content_type raw =
     (if \<not> prefix ''application/json'' content_type then Inr None
      else case loads raw of
        Some (PDict d) \<Rightarrow>
          (case pget d ''usageMetadata'' of
             PDict meta \<Rightarrow>
               rbind (int_of_json (dict_get_or meta ''promptTokenCount'' (PInt 0))) (\<lambda>i.
               rbind (int_of_json (dict_get_or meta ''candidatesTokenCount'' (PInt 0))) (\<lambda>out. Inr (Some (i, out))))
           | _ \<Rightarrow> Inr None)
      | _ \<Rightarrow> Inr None)"

definition fw_handle :: "(string \<Rightarrow> pyval option) \<Rightarrow> (llm_request \<Rightarrow> upstream) \<Rightarrow> forwarder \<Rightarrow> llm_request \<Rightarrow> usage \<Rightarrow> llm_response \<times> usage" where
  "fw_handle loads provider f r u =
     (let model = fw_model (lr_path r); u1 = record_usage model 1 0 0 0 u
      in case build_request f r of
           Inl e \<Rightarrow> (LlmCrash e, u1)
         | Inr req \<Rightarrow>
             (case provider req of
                Unreachable \<Rightarrow> (synthesized (fw_surface f) ''upstream_unreachable'' ''upstream unreachable'' 502, record_usage model 0 1 0 0 u1)
              | Answers status content_type cache chunks whole \<Rightarrow>
                  (if prefix ''text/event-stream'' content_type
                   then (Streamed status content_type (case cache of Some c \<Rightarrow> c | None \<Rightarrow> ''no-store'') chunks whole, u1)
                   else if \<not> whole
                   then (synthesized (fw_surface f) ''upstream_lost'' ''upstream connection lost mid-response'' 502, record_usage model 0 1 0 0 u1)
                   else if 400 \<le> status then (Relayed status content_type (concat chunks), record_usage model 0 1 0 0 u1)
                   else (case usage_of loads content_type (concat chunks) of
                           Inl e \<Rightarrow> (LlmCrash e, u1)
                         | Inr None \<Rightarrow> (Relayed status content_type (concat chunks), u1)
                         | Inr (Some (i, out)) \<Rightarrow> (Relayed status content_type (concat chunks), record_usage model 0 0 i out u1)))))"

section \<open>The emulator\<close>

definition MODELS :: "string list" where
  "MODELS = [''jetty-mock-large'', ''jetty-mock-small'']"

definition mock_error :: "int \<Rightarrow> string \<Rightarrow> string \<Rightarrow> llm_response" where
  "mock_error status google_status message =
     LlmJson status (PDict [(''error'', PDict [(''code'', PInt status), (''message'', PStr message), (''status'', PStr google_status)])])"

fun texts :: "pyval \<Rightarrow> string list" and text_items :: "(string \<times> pyval) list \<Rightarrow> string list" and text_list :: "pyval list \<Rightarrow> string list" where
  "texts (PDict d) = text_items d"
| "texts (PList xs) = text_list xs"
| "texts _ = []"
| "text_items [] = []"
| "text_items ((k, v) # d) = (case (k = ''text'', v) of (True, PStr s) \<Rightarrow> [s] | _ \<Rightarrow> texts v) @ text_items d"
| "text_list [] = []"
| "text_list (x # xs) = texts x @ text_list xs"

record llm_usage =
  lu_prompt :: nat
  lu_candidates :: nat

definition usage_json :: "llm_usage \<Rightarrow> pyval" where
  "usage_json u = PDict [(''promptTokenCount'', PInt (int (lu_prompt u))), (''candidatesTokenCount'', PInt (int (lu_candidates u))),
     (''totalTokenCount'', PInt (int (lu_prompt u + lu_candidates u)))]"

definition token_limit :: "(string \<times> pyval) list \<Rightarrow> py_exn + int option" where
  "token_limit body =
     (let config = pget body ''generationConfig''
      in if \<not> truthy config then Inr None
         else case config of
           PDict d \<Rightarrow> Inr (case pget d ''maxOutputTokens'' of PInt i \<Rightarrow> Some i | _ \<Rightarrow> None)
         | _ \<Rightarrow> Inl AttributeError)"

definition cut_words :: "int option \<Rightarrow> string list \<Rightarrow> string list \<times> string" where
  "cut_words limit words =
     (case limit of
        Some n \<Rightarrow> (if 0 < n \<and> n < int (length words) then (take (nat n) words, ''MAX_TOKENS'') else (words, ''STOP''))
      | None \<Rightarrow> (words, ''STOP''))"

definition mock_words :: "string \<Rightarrow> string \<Rightarrow> string list" where
  "mock_words model dg = (''mock('' @ model @ '')'') # map (\<lambda>i. take 8 (drop i dg)) [0, 8, 16, 24]"

definition completion :: "(string \<Rightarrow> pyval \<Rightarrow> string) \<Rightarrow> string \<Rightarrow> (string \<times> pyval) list \<Rightarrow> py_exn + string \<times> string \<times> llm_usage" where
  "completion digest model body =
     rbind (token_limit body) (\<lambda>limit.
       case cut_words limit (mock_words model (digest model (PDict body))) of
         (words, finish) \<Rightarrow>
           Inr (py_join '' '' words, finish,
             \<lparr>lu_prompt = sum_list (map (\<lambda>t. length (py_split t)) (texts (pget body ''contents''))), lu_candidates = length words\<rparr>))"

definition deltas :: "string \<Rightarrow> string list" where
  "deltas text =
     (let words = split_ch (CHR '' '') text; half = max 1 (length words div 2)
      in py_join '' '' (take half words) # (if drop half words \<noteq> [] then ['' '' @ py_join '' '' (drop half words)] else []))"

definition chunk_json :: "string \<Rightarrow> string \<Rightarrow> (string \<times> llm_usage) option \<Rightarrow> pyval" where
  "chunk_json model d fin =
     PDict ([(''candidates'', PList [PDict ([(''content'', PDict [(''parts'', PList [PDict [(''text'', PStr d)]]), (''role'', PStr ''model'')]), (''index'', PInt 0)] @
               (case fin of Some (finish, _) \<Rightarrow> [(''finishReason'', PStr finish)] | None \<Rightarrow> []))]),
             (''modelVersion'', PStr model)] @
            (case fin of Some (_, u) \<Rightarrow> [(''usageMetadata'', usage_json u)] | None \<Rightarrow> []))"

definition chunks_json :: "string \<Rightarrow> string \<Rightarrow> string \<Rightarrow> llm_usage \<Rightarrow> pyval list" where
  "chunks_json model text finish u =
     (let ds = deltas text in map (\<lambda>d. chunk_json model d None) (butlast ds) @ [chunk_json model (last ds) (Some (finish, u))])"

definition unary_json :: "string \<Rightarrow> string \<Rightarrow> string \<Rightarrow> llm_usage \<Rightarrow> pyval" where
  "unary_json model text finish u =
     PDict [(''candidates'', PList [PDict [(''content'', PDict [(''parts'', PList [PDict [(''text'', PStr text)]]), (''role'', PStr ''model'')]),
              (''finishReason'', PStr finish), (''index'', PInt 0)]]),
            (''usageMetadata'', usage_json u), (''modelVersion'', PStr model)]"

definition list_models :: llm_response where
  "list_models = LlmJson 200 (PDict [(''models'', PList (map (\<lambda>m. PDict [(''name'', PStr (''models/'' @ m)), (''displayName'', PStr m),
     (''supportedGenerationMethods'', PList [PStr ''generateContent'', PStr ''streamGenerateContent''])]) MODELS))])"

text \<open>With \<open>alt=sse\<close> the answer is one event per chunk; \<open>dumps\<close> prints a chunk.\<close>

definition model_call :: "(string \<Rightarrow> pyval option) \<Rightarrow> (pyval \<Rightarrow> string) \<Rightarrow> (string \<Rightarrow> pyval \<Rightarrow> string) \<Rightarrow> string \<Rightarrow> string option \<Rightarrow> string \<Rightarrow> usage \<Rightarrow> llm_response \<times> usage" where
  "model_call loads dumps digest call alt raw u =
     (case partition_ch (CHR '':'') call of
        (model, sep, action) \<Rightarrow>
          (if \<not> sep \<or> action \<notin> {''generateContent'', ''streamGenerateContent''}
           then (mock_error 404 ''NOT_FOUND'' (''unknown method for '' @ py_repr call), u)
           else let u1 = record_usage model 1 0 0 0 u
             in case loads raw of
                  None \<Rightarrow> (mock_error 400 ''INVALID_ARGUMENT'' ''request body is not valid JSON'', record_usage model 0 1 0 0 u1)
                | Some (PDict body) \<Rightarrow>
                    (if \<not> truthy (pget body ''contents'')
                     then (mock_error 400 ''INVALID_ARGUMENT'' ''contents is required'', record_usage model 0 1 0 0 u1)
                     else case completion digest model body of
                            Inl e \<Rightarrow> (LlmCrash e, u1)
                          | Inr (text, finish, lu) \<Rightarrow>
                              (if action = ''generateContent'' then LlmJson 200 (unary_json model text finish lu)
                               else if alt = Some ''sse'' then Streamed 200 ''text/event-stream'' ''no-store''
                                 [concat (map (\<lambda>c. ''data: '' @ dumps c @ [ch_return, ch_newline, ch_return, ch_newline]) (chunks_json model text finish lu))] True
                               else LlmJson 200 (PList (chunks_json model text finish lu)),
                               record_usage model 0 0 (int (lu_prompt lu)) (int (lu_candidates lu)) u1))
                | Some _ \<Rightarrow> (mock_error 400 ''INVALID_ARGUMENT'' ''contents is required'', record_usage model 0 1 0 0 u1)))"

end
