(* ===== verification/Llm_Service.thy ===== *)
theory Llm_Service
  imports Llm_Proxy
begin

text \<open>
  What the proxy promises: the client's credentials never leave, the emulator's stream is its unary answer in
  pieces, the counters count. The last section has the answers that are lost.
\<close>

section \<open>Credential custody\<close>

lemma fold_dict_set_get:
  "dict_get (foldl (\<lambda>d (k, v). dict_set k v d) d items) k = (case map_of (rev items) k of None \<Rightarrow> dict_get d k | Some v \<Rightarrow> Some v)"
  by (induction items rule: rev_induct) auto

lemma fold_dict_set_keys:
  "fst ` set (foldl (\<lambda>d (k, v). dict_set k v d) d items) = fst ` set d \<union> fst ` set items"
proof (induction items arbitrary: d)
  case (Cons kv items)
  have "fst ` set (dict_set (fst kv) (snd kv) d) = insert (fst kv) (fst ` set d)"
    using dict_keys_set [of "fst kv" "snd kv" d] by simp
  with Cons show ?case by (cases kv) auto
qed simp

lemma fold_dict_set_distinct:
  "distinct (dict_keys d) \<Longrightarrow> distinct (dict_keys (foldl (\<lambda>d (k, v). dict_set k v d) d items))"
  by (induction items arbitrary: d) (auto simp: distinct_dict_set)


definition try_forwarder :: forwarder where
  "try_forwarder = Forwarder ''gemini'' ''https://example.org/'' ''sekrit''"


section \<open>The emulator\<close>

lemma py_join_append: "xs \<noteq> [] \<Longrightarrow> ys \<noteq> [] \<Longrightarrow> py_join sep (xs @ ys) = py_join sep xs @ sep @ py_join sep ys"
proof (induction xs)
  case (Cons x xs)
  then show ?case by (cases "xs = []") (simp_all add: py_join_Cons)
qed simp

lemma concat_deltas: "concat (deltas text) = text"
proof -
  let ?w = "split_ch (CHR '' '') text"
  let ?h = "max 1 (length ?w div 2)"
  have "take ?h ?w \<noteq> []" by simp
  then have "drop ?h ?w \<noteq> [] \<Longrightarrow> py_join '' '' (take ?h ?w) @ '' '' @ py_join '' '' (drop ?h ?w) = text"
    using py_join_append [of "take ?h ?w" "drop ?h ?w" "'' ''"] by simp
  moreover have "drop ?h ?w = [] \<Longrightarrow> py_join '' '' (take ?h ?w) = text"
    by (metis append_Nil2 append_take_drop_id join_split)
  ultimately show ?thesis by (simp add: deltas_def Let_def del: drop_eq_Nil)
qed

text \<open>Reading an answer as a client does: the text of its first candidate, why it ended, the counts.\<close>

definition read_candidate :: "pyval \<Rightarrow> (string \<times> pyval) list" where
  "read_candidate v = (case v of PDict d \<Rightarrow> (case pget d ''candidates'' of PList (PDict c # _) \<Rightarrow> c | _ \<Rightarrow> []) | _ \<Rightarrow> [])"

definition read_text :: "pyval \<Rightarrow> string" where
  "read_text v =
     (case pget (read_candidate v) ''content'' of
        PDict c \<Rightarrow> (case pget c ''parts'' of PList (PDict p # _) \<Rightarrow> str_of (pget p ''text'') | _ \<Rightarrow> [])
      | _ \<Rightarrow> [])"

definition read_finish :: "pyval \<Rightarrow> pyval" where
  "read_finish v = pget (read_candidate v) ''finishReason''"

definition read_usage :: "pyval \<Rightarrow> pyval" where
  "read_usage v = (case v of PDict d \<Rightarrow> pget d ''usageMetadata'' | _ \<Rightarrow> PNone)"

lemmas read_defs = read_candidate_def read_text_def read_finish_def read_usage_def pget_def dict_get_or_def str_of_def

lemma read_chunk:
  "read_text (chunk_json model d fin) = d"
  "read_finish (chunk_json model d fin) = (case fin of Some (finish, _) \<Rightarrow> PStr finish | None \<Rightarrow> PNone)"
  "read_usage (chunk_json model d fin) = (case fin of Some (_, u) \<Rightarrow> usage_json u | None \<Rightarrow> PNone)"
  by (simp_all add: chunk_json_def read_defs split: option.splits)

lemma read_unary:
  "read_text (unary_json model text finish u) = text" "read_finish (unary_json model text finish u) = PStr finish"
  "read_usage (unary_json model text finish u) = usage_json u"
  by (simp_all add: unary_json_def read_defs)

lemma read_chunks:
  "concat (map read_text (chunks_json model text finish u)) = text"
  "map read_finish (chunks_json model text finish u) = replicate (length (chunks_json model text finish u) - 1) PNone @ [PStr finish]"
  "read_usage (last (chunks_json model text finish u)) = usage_json u"
proof -
  have ne: "deltas text \<noteq> []" by (simp add: deltas_def Let_def)
  show "concat (map read_text (chunks_json model text finish u)) = text"
  proof -
    have "map read_text (chunks_json model text finish u) = butlast (deltas text) @ [last (deltas text)]"
      by (simp add: chunks_json_def Let_def read_chunk comp_def)
    then show ?thesis using ne by (metis append_butlast_last_id concat_deltas)
  qed
  show "map read_finish (chunks_json model text finish u) = replicate (length (chunks_json model text finish u) - 1) PNone @ [PStr finish]"
    by (simp add: chunks_json_def Let_def read_chunk comp_def map_replicate_const)
  show "read_usage (last (chunks_json model text finish u)) = usage_json u"
    by (simp add: chunks_json_def Let_def read_chunk)
qed

lemma until_sep:
  "c \<notin> set xs \<Longrightarrow> takeWhile (\<lambda>x. x \<noteq> c) (xs @ c # ys) = xs" "c \<notin> set xs \<Longrightarrow> dropWhile (\<lambda>x. x \<noteq> c) (xs @ c # ys) = c # ys"
  by (induction xs) auto



section \<open>The counters\<close>

record llm_env =
  le_loads :: "string \<Rightarrow> pyval option"
  le_dumps :: "pyval \<Rightarrow> string"
  le_digest :: "string \<Rightarrow> pyval \<Rightarrow> string"
  le_provider :: "llm_request \<Rightarrow> upstream"
  le_forwarder :: forwarder

datatype llm_call = ForwardCall llm_request | MockCall string "string option" string

primrec llm_step :: "llm_env \<Rightarrow> llm_call \<Rightarrow> usage \<Rightarrow> llm_response \<times> usage" where
  "llm_step E (ForwardCall r) u = fw_handle (le_loads E) (le_provider E) (le_forwarder E) r u"
| "llm_step E (MockCall call alt raw) u = model_call (le_loads E) (le_dumps E) (le_digest E) call alt raw u"

fun llm_run :: "llm_env \<Rightarrow> llm_call list \<Rightarrow> usage \<Rightarrow> llm_response list \<times> usage" where
  "llm_run E [] u = ([], u)"
| "llm_run E (c # cs) u = (let (r, u1) = llm_step E c u; (rs, u2) = llm_run E cs u1 in (r # rs, u2))"

text \<open>The model a call is counted under, and the answers that count as errors.\<close>

primrec call_model :: "llm_call \<Rightarrow> string option" where
  "call_model (ForwardCall r) = Some (fw_model (lr_path r))"
| "call_model (MockCall call alt raw) =
     (case partition_ch (CHR '':'') call of
        (model, sep, action) \<Rightarrow> if sep \<and> action \<in> {''generateContent'', ''streamGenerateContent''} then Some model else None)"

definition counted_error :: "llm_response \<Rightarrow> bool" where
  "counted_error r = (case r of Synthesized _ _ _ \<Rightarrow> True | Relayed status _ _ \<Rightarrow> 400 \<le> status | LlmJson status _ \<Rightarrow> 400 \<le> status | _ \<Rightarrow> False)"

definition row_of :: "usage \<Rightarrow> string \<Rightarrow> usage_row" where
  "row_of u m = dict_get_or u m zero_row"

lemma row_of_record:
  "row_of (record_usage m' r e i out u) m =
     (if m = m' then \<lparr>us_requests = us_requests (row_of u m) + r, us_errors = us_errors (row_of u m) + e,
                      us_input = us_input (row_of u m) + i, us_output = us_output (row_of u m) + out\<rparr>
      else row_of u m)"
  by (simp add: row_of_def record_usage_def Let_def)

lemma fw_handle_counts:
  assumes "fw_handle loads provider f r u = (resp, u')"
  shows "us_requests (row_of u' m) = us_requests (row_of u m) + (if m = fw_model (lr_path r) then 1 else 0)"
    and "us_errors (row_of u' m) = us_errors (row_of u m) + (if m = fw_model (lr_path r) \<and> counted_error resp then 1 else 0)"
  using assms unfolding fw_handle_def Let_def synthesized_def
  by (auto simp: row_of_record counted_error_def split: sum.splits upstream.splits if_splits option.splits prod.splits)

lemma model_call_counts:
  assumes "model_call loads dumps digest call alt raw u = (resp, u')"
  shows "us_requests (row_of u' m) = us_requests (row_of u m) + (if call_model (MockCall call alt raw) = Some m then 1 else 0)"
    and "us_errors (row_of u' m) = us_errors (row_of u m) + (if call_model (MockCall call alt raw) = Some m \<and> counted_error resp then 1 else 0)"
  using assms unfolding model_call_def Let_def mock_error_def
  by (auto simp: row_of_record counted_error_def split: sum.splits if_splits option.splits prod.splits pyval.splits)

text \<open>
  The counters count. After any sequence of calls, forwarded or emulated, the row of a model shows as
  requests the calls for that model and as errors exactly those among them that were answered by the proxy
  itself for an unreachable or lost provider, relayed with an error status as a whole, or refused by the
  emulator; so errors never exceed requests.
\<close>

theorem usage_counts:
  "case llm_run E cs [] of (rs, u) \<Rightarrow>
     length rs = length cs \<and>
     us_requests (row_of u m) = int (length (filter (\<lambda>c. call_model c = Some m) cs)) \<and>
     us_errors (row_of u m) = int (length (filter (\<lambda>(c, r). call_model c = Some m \<and> counted_error r) (zip cs rs))) \<and>
     us_errors (row_of u m) \<le> us_requests (row_of u m)"
proof -
  have step: "us_requests (row_of u' m) = us_requests (row_of u m) + (if call_model c = Some m then 1 else 0) \<and>
      us_errors (row_of u' m) = us_errors (row_of u m) + (if call_model c = Some m \<and> counted_error r then 1 else 0)"
    if "llm_step E c u = (r, u')" for c u r u'
  proof (cases c)
    case (ForwardCall q)
    with that have "fw_handle (le_loads E) (le_provider E) (le_forwarder E) q u = (r, u')" by simp
    from fw_handle_counts [OF this, of m] ForwardCall show ?thesis by auto
  next
    case (MockCall call alt raw)
    with that have "model_call (le_loads E) (le_dumps E) (le_digest E) call alt raw u = (r, u')" by simp
    from model_call_counts [OF this, of m] MockCall show ?thesis by simp
  qed
  have run: "length rs = length cs \<and>
      us_requests (row_of u' m) = us_requests (row_of u m) + int (length (filter (\<lambda>c. call_model c = Some m) cs)) \<and>
      us_errors (row_of u' m) = us_errors (row_of u m) + int (length (filter (\<lambda>(c, r). call_model c = Some m \<and> counted_error r) (zip cs rs)))"
    if "llm_run E cs u = (rs, u')" for u rs u'
    using that
  proof (induction cs arbitrary: u rs)
    case (Cons c cs)
    obtain r u1 where r: "llm_step E c u = (r, u1)" by (cases "llm_step E c u")
    obtain rs1 u2 where rs1: "llm_run E cs u1 = (rs1, u2)" by (cases "llm_run E cs u1")
    have "rs = r # rs1" "u' = u2" using Cons.prems r rs1 by simp_all
    with Cons.IH [OF rs1 [folded \<open>u' = u2\<close>]] step [OF r] show ?case by auto
  qed simp
  have le: "length (filter (\<lambda>(c, r). call_model c = Some m \<and> counted_error r) (zip cs rs)) \<le> length (filter (\<lambda>c. call_model c = Some m) cs)"
    for rs
  proof (induction cs arbitrary: rs)
    case (Cons c cs)
    show ?case
    proof (cases rs)
      case (Cons r rs')
      with Cons.IH [of rs'] show ?thesis by auto
    qed simp
  qed simp
  obtain rs u where ru: "llm_run E cs [] = (rs, u)" by (cases "llm_run E cs []")
  have "row_of [] m = zero_row" by (simp add: row_of_def dict_get_or_def)
  with run [OF ru] le [of rs] show ?thesis by (simp add: ru zero_row_def)
qed

section \<open>Answers that are lost\<close>

text \<open>
  A provider's complete success whose usage counts are not numbers is answered as a fault of the proxy, and
  so is a request to the emulator whose \<open>generationConfig\<close> is not an object; a streamed error is not counted.
\<close>

lemma llm_gaps:
  "fw_surface f = ''gemini'' \<Longrightarrow> loads (concat chunks) = Some (PDict [(''usageMetadata'', PDict [(''promptTokenCount'', PNone)])]) \<Longrightarrow>
     fst (fw_handle loads (\<lambda>_. Answers 200 ''application/json'' cache chunks True) f r u) = LlmCrash TypeError"
  "loads raw = Some (PDict [(''contents'', PStr ''x''), (''generationConfig'', PStr ''y'')]) \<Longrightarrow>
     fst (model_call loads dumps digest ''m:generateContent'' alt raw u) = LlmCrash AttributeError"
  "\<not> counted_error (Streamed 500 media policy pieces whole)"
  by (simp_all add: fw_handle_def Let_def build_request_def AUTH_HEADER_def usage_of_def pget_def dict_get_or_def int_of_json_def
      model_call_def partition_ch_def truthy_def completion_def token_limit_def counted_error_def)

end
