(* ===== verification/Hg.thy ===== *)
theory Hg
  imports Posix_Fs Orc_Resolve Server
begin

text \<open>
  \<^verbatim>\<open>src/jetty/modules/hg/module.py\<close>: a read-only front end of the \<^verbatim>\<open>hg\<close> command. What the command answers, the
  JSON reader, decoding, the printing of a date and the guess of a media type are parameters (\<open>hg_host\<close>); the
  file system is the one of \<open>Posix_Fs\<close>. The state of a request is the list of the commands it ran, with
  their environment.
\<close>

section \<open>Settings and host\<close>

record hg_settings =
  hs_root :: string
  hs_bin :: string

datatype hg_child = NoExecutable | HgTimeout | HgFails py_exn | HgExit int string string

type_synonym hg_trace = "(string list \<times> (string, string) dict) list"

record hg_host =
  hh_fs :: file_system
  hh_environ :: "(string, string) dict"
  hh_run :: "hg_trace \<Rightarrow> string list \<Rightarrow> hg_child"
  hh_loads :: "string \<Rightarrow> pyval option"
  hh_decode :: "string \<Rightarrow> string"
  hh_decode_strict :: "string \<Rightarrow> string option"
  hh_iso :: "pyval \<Rightarrow> py_exn + string"
  hh_guess :: "string \<Rightarrow> string option"

datatype hg_exn = HgJetty jetty_error | HgPy py_exn | HgInvalidQuery

definition NULL_NODE :: pyval where
  "NULL_NODE = PStr (replicate 40 (CHR ''0''))"

definition hg_env :: "hg_host \<Rightarrow> (string, string) dict" where
  "hg_env H = dict_set ''HGRCPATH'' '''' (dict_set ''HGPLAIN'' ''1'' (hh_environ H))"

section \<open>Checks\<close>

definition rev_char :: "char \<Rightarrow> bool" where
  "rev_char c \<longleftrightarrow> is_lower_az c \<or> is_upper_az c \<or> is_ascii_digit c \<or> c \<in> {CHR ''.'', CHR ''_'', CHR ''/'', CHR ''-''}"

definition rev_chars :: "string \<Rightarrow> bool" where
  "rev_chars s \<longleftrightarrow> 1 \<le> length s \<and> length s \<le> 120 \<and> list_all rev_char s"

definition check_rev :: "string \<Rightarrow> hg_exn + string" where
  "check_rev rv =
     (if re_dollar rev_chars rv then Inr rv
      else Inl (HgJetty (JettyError INVALID_REQUEST (''invalid revision '' @ py_repr rv))))"

definition bad_path :: "string \<Rightarrow> bool" where
  "bad_path p \<longleftrightarrow> p = [] \<or> prefix ''/'' p \<or> CHR 0x5C \<in> set p \<or> list_ex (\<lambda>seg. seg \<in> {'''', ''.'', ''..''}) (split_path p)"

definition hg_check_path :: "string \<Rightarrow> hg_exn + string" where
  "hg_check_path path =
     (if bad_path path then Inl (HgJetty (JettyError INVALID_REQUEST (''invalid repository path '' @ py_repr path))) else Inr path)"

definition hg_startup :: "hg_settings \<Rightarrow> hg_host \<Rightarrow> bool" where
  "hg_startup cfg H \<longleftrightarrow>
     (case sys_stat (hh_fs H) (hs_root cfg) of Inr (Dir _) \<Rightarrow> True | _ \<Rightarrow> False) \<and>
     (case hh_run H [] [hs_bin cfg, ''--version''] of HgExit code _ _ \<Rightarrow> code = 0 | _ \<Rightarrow> False)"

text \<open>A null byte makes \<^verbatim>\<open>realpath\<close> raise.\<close>

definition hg_resolve :: "hg_settings \<Rightarrow> hg_host \<Rightarrow> string \<Rightarrow> hg_exn + string" where
  "hg_resolve cfg H repo =
     (if bad_path repo then Inl (HgJetty (JettyError INVALID_REQUEST (''invalid repository name '' @ py_repr repo)))
      else if CHR 0x00 \<in> set repo then Inl (HgPy ValueError)
      else let base = realpath (hh_fs H) (hs_root cfg); path = realpath (hh_fs H) (path_join base repo)
        in if path \<noteq> base \<and> \<not> prefix (base @ ''/'') path
           then Inl (HgJetty (JettyError INVALID_REQUEST (''repository '' @ py_repr repo @ '' resolves outside the configured root'')))
           else case sys_stat (hh_fs H) (path_join path ''.hg'') of
             Inr (Dir _) \<Rightarrow> Inr path
           | _ \<Rightarrow> Inl (HgJetty (JettyError NOT_FOUND (''unknown repository '' @ py_repr repo))))"

section \<open>Running hg\<close>

definition hg_failure :: "hg_host \<Rightarrow> string \<Rightarrow> jetty_error" where
  "hg_failure H stderr =
     (let stripped = py_strip (hh_decode H stderr); message = (if stripped = [] then ''hg failed'' else stripped);
          line = hd (py_splitlines message); lowered = py_lower line
      in if py_in ''unknown revision'' lowered \<or> py_in ''no such file in rev'' lowered then JettyError NOT_FOUND line
         else if py_in ''ambiguous'' lowered then JettyError INVALID_REQUEST line
         else JettyError UPSTREAM_ERROR line)"

text \<open>An argument with a null byte is refused by \<^verbatim>\<open>subprocess\<close> before anything runs.\<close>

definition run_hg :: "hg_settings \<Rightarrow> hg_host \<Rightarrow> string \<Rightarrow> string list \<Rightarrow> (hg_trace, hg_exn, string) opn" where
  "run_hg cfg H repo_path args tr =
     (let argv = [hs_bin cfg, ''-R'', repo_path, ''--noninteractive''] @ args
      in if list_ex (\<lambda>a. CHR 0x00 \<in> set a) argv then (Inl (HgPy ValueError), tr)
         else
           ((case hh_run H tr argv of
               NoExecutable \<Rightarrow> Inl (HgJetty (JettyError UPSTREAM_UNAVAILABLE (''hg executable '' @ py_repr (hs_bin cfg) @ '' not found'')))
             | HgTimeout \<Rightarrow> Inl (HgJetty (JettyError UPSTREAM_UNAVAILABLE ''hg timed out after 10s''))
             | HgFails e \<Rightarrow> Inl (HgPy e)
             | HgExit code out err \<Rightarrow> (if code \<noteq> 0 then Inl (HgJetty (hg_failure H err)) else Inr out)),
            tr @ [(argv, hg_env H)]))"

definition LOG_TEMPLATE :: string where
  "LOG_TEMPLATE = ''{dict(node, rev, branch, p1node, p2node, user, date, desc, phase, bookmarks, tags, extras)|json}'' @ [CHR 0x5C, CHR ''n'']"

definition hg_loads :: "hg_host \<Rightarrow> string \<Rightarrow> hg_exn + pyval" where
  "hg_loads H s = (case hh_loads H s of Some v \<Rightarrow> Inr v | None \<Rightarrow> Inl (HgPy ValueError))"

text \<open>\<open>e["k"]\<close>.\<close>

definition need :: "(string \<times> pyval) list \<Rightarrow> string \<Rightarrow> hg_exn + pyval" where
  "need d k = (case dict_get d k of Some v \<Rightarrow> Inr v | None \<Rightarrow> Inl (HgPy KeyError))"

definition log_entry :: "pyval \<Rightarrow> hg_exn + (string \<times> pyval) list" where
  "log_entry v =
     (case v of
        PDict e \<Rightarrow>
          (let parents = filter (\<lambda>n. n \<noteq> NULL_NODE) [dict_get_or e ''p1node'' NULL_NODE, dict_get_or e ''p2node'' NULL_NODE]
           in Inr (dict_set ''parents'' (PList parents) (dict_del ''p2node'' (dict_del ''p1node'' e))))
      | PList _ \<Rightarrow> Inl (HgPy TypeError)
      | _ \<Rightarrow> Inl (HgPy AttributeError))"

definition log_json :: "hg_settings \<Rightarrow> hg_host \<Rightarrow> string \<Rightarrow> string list \<Rightarrow> (hg_trace, hg_exn, (string \<times> pyval) list list) opn" where
  "log_json cfg H repo_path args =
     sbind (run_hg cfg H repo_path ([''log'', ''-T'', LOG_TEMPLATE] @ args)) (\<lambda>raw.
     slift (rbind (rmap (hg_loads H) (filter (\<lambda>l. py_strip l \<noteq> []) (py_splitlines (hh_decode H raw)))) (\<lambda>vs.
            rbind (rmap log_entry vs) (\<lambda>es.
              rfilter (\<lambda>e. rbind (need e ''node'') (\<lambda>n. Inr (n \<noteq> NULL_NODE))) es))))"

section \<open>Answers\<close>

definition changeset_json :: "hg_host \<Rightarrow> (string \<times> pyval) list \<Rightarrow> hg_exn + (string \<times> pyval) list" where
  "changeset_json H e =
     rbind (need e ''node'') (\<lambda>node. rbind (need e ''rev'') (\<lambda>rv. rbind (need e ''branch'') (\<lambda>branch.
     rbind (case dict_get_or e ''parents'' (PList []) of PList ps \<Rightarrow> Inr (filter (\<lambda>p. p \<noteq> NULL_NODE) ps) | _ \<Rightarrow> Inl (HgPy TypeError)) (\<lambda>parents.
     rbind (need e ''user'') (\<lambda>user. rbind (need e ''date'') (\<lambda>date.
     rbind (case hh_iso H date of Inr t \<Rightarrow> Inr t | Inl x \<Rightarrow> Inl (HgPy x)) (\<lambda>iso_date.
     rbind (need e ''desc'') (\<lambda>desc.
       Inr [(''node'', node), (''rev'', rv), (''branch'', branch), (''parents'', PList parents), (''user'', user), (''date'', PStr iso_date),
            (''desc'', desc), (''phase'', dict_get_or e ''phase'' (PStr ''public'')), (''extras'', dict_get_or e ''extras'' (PDict [])),
            (''label'', PNone)]))))))))"

definition status_item :: "pyval \<Rightarrow> hg_exn + pyval" where
  "status_item v =
     (case v of
        PDict e \<Rightarrow>
          rbind (need e ''path'') (\<lambda>p. rbind (need e ''status'') (\<lambda>s.
            Inr (PDict ([(''path'', p), (''status'', s)] @
              (if truthy (pget e ''source'') then [(''copy_source'', pget e ''source'')] else [])))))
      | _ \<Rightarrow> Inl (HgPy TypeError))"

text \<open>\<open>for entry in json.loads(raw)\<close>: a list, the keys of an object or the characters of a string.\<close>

fun json_items :: "pyval \<Rightarrow> hg_exn + pyval list" where
  "json_items (PList es) = Inr es"
| "json_items (PDict d) = Inr (map (\<lambda>(k, _). PStr k) d)"
| "json_items (PStr s) = Inr (map (\<lambda>c. PStr [c]) s)"
| "json_items _ = Inl (HgPy TypeError)"

definition status_files :: "hg_host \<Rightarrow> string \<Rightarrow> hg_exn + pyval" where
  "status_files H raw =
     rbind (hg_loads H raw) (\<lambda>v. rbind (json_items v) (\<lambda>es. rbind (rmap status_item es) (\<lambda>fs. Inr (PList fs))))"

text \<open>The page of a listing: as many entries as asked for, and the node of the one after them.\<close>

definition log_page :: "nat \<Rightarrow> 'e list \<Rightarrow> 'e list \<times> 'e option" where
  "log_page limit entries = (take limit entries, if limit < length entries then Some (entries ! limit) else None)"

datatype hg_reply = HgJson pyval | HgRaw string string

datatype hg_request =
  RepoSummary string
| Changesets string string "string option" "string option" int
| Changeset string string
| ChangesetDiff string string "string option"
| WdirDiff string "string option"
| Status string "string option" "string option"
| FileContent string string string

definition path_args :: "string option \<Rightarrow> hg_exn + string list" where
  "path_args path = (case path of None \<Rightarrow> Inr [] | Some p \<Rightarrow> rbind (hg_check_path p) (\<lambda>q. Inr [''--'', ''path:'' @ q]))"

definition dirty_status :: "pyval \<Rightarrow> hg_exn + bool" where
  "dirty_status v =
     (case v of PDict e \<Rightarrow> rbind (need e ''status'') (\<lambda>s. case s of PStr t \<Rightarrow> Inr (py_in t ''MAR!'') | _ \<Rightarrow> Inl (HgPy TypeError))
      | _ \<Rightarrow> Inl (HgPy TypeError))"

text \<open>\<open>any\<close> stops at the first that holds.\<close>

fun any_dirty :: "pyval list \<Rightarrow> hg_exn + bool" where
  "any_dirty [] = Inr False"
| "any_dirty (v # vs) = rbind (dirty_status v) (\<lambda>b. if b then Inr True else any_dirty vs)"

definition h_repo_summary :: "hg_settings \<Rightarrow> hg_host \<Rightarrow> string \<Rightarrow> (hg_trace, hg_exn, hg_reply) opn" where
  "h_repo_summary cfg H repo =
     sbind (slift (hg_resolve cfg H repo)) (\<lambda>target.
     sbind (log_json cfg H target [''-l'', ''1'']) (\<lambda>tip.
     sbind (log_json cfg H target [''-r'', ''parents()'']) (\<lambda>parents.
     sbind (run_hg cfg H target [''branch'']) (\<lambda>raw.
     sbind (slift (case hh_decode_strict H raw of Some t \<Rightarrow> Inr (py_strip t) | None \<Rightarrow> Inl (HgPy ValueError))) (\<lambda>branch.
     sbind (run_hg cfg H target [''status'', ''-T'', ''json'']) (\<lambda>changed.
     slift (rbind (hg_loads H changed) (\<lambda>v.
       rbind (case tip of [] \<Rightarrow> Inr PNone | e # _ \<Rightarrow> need e ''node'') (\<lambda>t.
       rbind (rmap (\<lambda>e. need e ''node'') parents) (\<lambda>ps.
       rbind (json_items v) (\<lambda>es.
       rbind (any_dirty es) (\<lambda>dirty.
         Inr (HgJson (PDict [(''root'', PStr target), (''tip'', t), (''wdir_parents'', PList ps), (''branch'', PStr branch), (''dirty'', PBool dirty)]))))))))))))))"

definition h_changesets :: "hg_settings \<Rightarrow> hg_host \<Rightarrow> string \<Rightarrow> string \<Rightarrow> string option \<Rightarrow> string option \<Rightarrow> int \<Rightarrow> (hg_trace, hg_exn, hg_reply) opn" where
  "h_changesets cfg H repo start path user limit =
     (if limit < 1 \<or> 200 < limit then sraise HgInvalidQuery
      else
        sbind (slift (hg_resolve cfg H repo)) (\<lambda>target.
        sbind (slift (check_rev start)) (\<lambda>_.
        sbind (slift (path_args path)) (\<lambda>pargs.
        sbind (log_json cfg H target ([''-r'', ''reverse(ancestors('' @ [CHR 0x27] @ start @ [CHR 0x27] @ ''))'', ''-l'', str_int (limit + 1)] @
             (case user of Some u \<Rightarrow> [''-u'', u] | None \<Rightarrow> []) @ pargs)) (\<lambda>entries.
        case log_page (nat limit) entries of
          (page, next) \<Rightarrow>
            slift (rbind (rmap (changeset_json H) page) (\<lambda>cs.
                   rbind (case next of Some e \<Rightarrow> need e ''node'' | None \<Rightarrow> Inr PNone) (\<lambda>n.
                     Inr (HgJson (PDict [(''changesets'', PList (map PDict cs)), (''next'', n)]))))))))))"

definition h_changeset :: "hg_settings \<Rightarrow> hg_host \<Rightarrow> string \<Rightarrow> string \<Rightarrow> (hg_trace, hg_exn, hg_reply) opn" where
  "h_changeset cfg H rv repo =
     sbind (slift (hg_resolve cfg H repo)) (\<lambda>target.
     sbind (slift (check_rev rv)) (\<lambda>r.
     sbind (log_json cfg H target [''-r'', r]) (\<lambda>entries.
       case entries of
         [] \<Rightarrow> sraise (HgJetty (JettyError NOT_FOUND (''unknown revision '' @ py_repr rv)))
       | e # _ \<Rightarrow>
           sbind (slift (changeset_json H e)) (\<lambda>result.
           sbind (slift (case dict_get result ''node'' of Some (PStr n) \<Rightarrow> Inr n | _ \<Rightarrow> Inl (HgPy TypeError))) (\<lambda>node.
           sbind (run_hg cfg H target [''status'', ''--change'', node, ''-C'', ''-T'', ''json'']) (\<lambda>raw.
           slift (rbind (status_files H raw) (\<lambda>files. Inr (HgJson (PDict (result @ [(''files'', files)])))))))))))"

definition h_changeset_diff :: "hg_settings \<Rightarrow> hg_host \<Rightarrow> string \<Rightarrow> string \<Rightarrow> string option \<Rightarrow> (hg_trace, hg_exn, hg_reply) opn" where
  "h_changeset_diff cfg H rv repo path =
     sbind (slift (hg_resolve cfg H repo)) (\<lambda>target.
     sbind (slift (check_rev rv)) (\<lambda>r.
     sbind (slift (path_args path)) (\<lambda>pargs.
     sbind (run_hg cfg H target ([''diff'', ''-c'', r, ''--git''] @ pargs)) (\<lambda>out. sret (HgRaw out ''text/x-diff'')))))"

definition h_wdir_diff :: "hg_settings \<Rightarrow> hg_host \<Rightarrow> string \<Rightarrow> string option \<Rightarrow> (hg_trace, hg_exn, hg_reply) opn" where
  "h_wdir_diff cfg H repo path =
     sbind (slift (hg_resolve cfg H repo)) (\<lambda>target.
     sbind (slift (path_args path)) (\<lambda>pargs.
     sbind (run_hg cfg H target ([''diff'', ''--git''] @ pargs)) (\<lambda>out. sret (HgRaw out ''text/x-diff''))))"

definition rev_args :: "string option \<Rightarrow> string option \<Rightarrow> hg_exn + string list" where
  "rev_args from_rev to_rev =
     (case (from_rev, case to_rev of Some t \<Rightarrow> (if t = ''wdir'' then None else Some t) | None \<Rightarrow> None) of
        (Some f, None) \<Rightarrow> rbind (check_rev f) (\<lambda>f. Inr [''--rev'', f])
      | (Some f, Some t) \<Rightarrow> rbind (check_rev f) (\<lambda>f. rbind (check_rev t) (\<lambda>t. Inr [''--rev'', f, ''--rev'', t]))
      | (None, Some t) \<Rightarrow> rbind (check_rev t) (\<lambda>t. Inr [''--change'', t])
      | (None, None) \<Rightarrow> Inr [])"

definition h_status :: "hg_settings \<Rightarrow> hg_host \<Rightarrow> string \<Rightarrow> string option \<Rightarrow> string option \<Rightarrow> (hg_trace, hg_exn, hg_reply) opn" where
  "h_status cfg H repo from_rev to_rev =
     sbind (slift (hg_resolve cfg H repo)) (\<lambda>target.
     sbind (slift (rev_args from_rev to_rev)) (\<lambda>args.
     sbind (run_hg cfg H target ([''status'', ''-C'', ''-T'', ''json''] @ args)) (\<lambda>raw.
     slift (rbind (status_files H raw) (\<lambda>files. Inr (HgJson (PDict [(''files'', files)])))))))"

definition h_file_content :: "hg_settings \<Rightarrow> hg_host \<Rightarrow> string \<Rightarrow> string \<Rightarrow> string \<Rightarrow> (hg_trace, hg_exn, hg_reply) opn" where
  "h_file_content cfg H rv file_path repo =
     sbind (slift (hg_resolve cfg H repo)) (\<lambda>target.
     sbind (slift (check_rev rv)) (\<lambda>r.
     sbind (slift (hg_check_path file_path)) (\<lambda>p.
     sbind (run_hg cfg H target [''cat'', ''-r'', r, ''--'', ''path:'' @ p]) (\<lambda>content.
       sret (HgRaw content (case hh_guess H file_path of Some (c # cs) \<Rightarrow> c # cs | _ \<Rightarrow> ''application/octet-stream''))))))"

primrec hg_handler :: "hg_settings \<Rightarrow> hg_host \<Rightarrow> hg_request \<Rightarrow> (hg_trace, hg_exn, hg_reply) opn" where
  "hg_handler cfg H (RepoSummary repo) = h_repo_summary cfg H repo"
| "hg_handler cfg H (Changesets repo start path user limit) = h_changesets cfg H repo start path user limit"
| "hg_handler cfg H (Changeset rv repo) = h_changeset cfg H rv repo"
| "hg_handler cfg H (ChangesetDiff rv repo path) = h_changeset_diff cfg H rv repo path"
| "hg_handler cfg H (WdirDiff repo path) = h_wdir_diff cfg H repo path"
| "hg_handler cfg H (Status repo from_rev to_rev) = h_status cfg H repo from_rev to_rev"
| "hg_handler cfg H (FileContent rv file_path repo) = h_file_content cfg H rv file_path repo"

end
