(* ===== verification/Hg_Service.thy ===== *)
theory Hg_Service
  imports Hg
begin

text \<open>
  What the \<^verbatim>\<open>hg\<close> module runs on behalf of a request, and what its pages of changesets cover. \<open>emits\<close> is the
  shared proof rule: a condition on every command that is added to the trace, and one on the value returned.
\<close>

section \<open>Commands of a request\<close>

definition emits :: "(string list \<times> (string, string) dict \<Rightarrow> bool) \<Rightarrow> ('a \<Rightarrow> bool) \<Rightarrow> (hg_trace, hg_exn, 'a) opn \<Rightarrow> bool" where
  "emits P Q m \<longleftrightarrow> (\<forall>tr. (\<exists>new. snd (m tr) = tr @ new \<and> list_all P new) \<and> (\<forall>v. fst (m tr) = Inr v \<longrightarrow> Q v))"

lemma emits_sbind:
  assumes "emits P Q m" and "\<And>v. Q v \<Longrightarrow> emits P R (f v)"
  shows "emits P R (sbind m f)"
  unfolding emits_def
proof
  fix tr
  obtain r tr' where m: "m tr = (r, tr')" by (cases "m tr")
  obtain new where new: "tr' = tr @ new" "list_all P new" and Q: "\<And>v. r = Inr v \<Longrightarrow> Q v"
    using assms(1) m unfolding emits_def by (metis fst_conv snd_conv)
  show "(\<exists>new. snd (sbind m f tr) = tr @ new \<and> list_all P new) \<and> (\<forall>v. fst (sbind m f tr) = Inr v \<longrightarrow> R v)"
  proof (cases r)
    case (Inl e)
    then show ?thesis using m new by simp
  next
    case (Inr v)
    then have "emits P R (f v)" using assms(2) Q by blast
    then obtain more' where "snd (f v tr') = tr' @ more'" "list_all P more'" "\<And>w. fst (f v tr') = Inr w \<Longrightarrow> R w"
      unfolding emits_def by meson
    then show ?thesis using m new Inr by auto
  qed
qed

lemma emits_slift: "(\<And>v. r = Inr v \<Longrightarrow> Q v) \<Longrightarrow> emits P Q (slift r)"
  by (auto simp: emits_def)

lemma emits_sret: "Q v \<Longrightarrow> emits P Q (sret v)"
  by (auto simp: emits_def)

lemma emits_sraise: "emits P Q (sraise e)"
  by (auto simp: emits_def)

lemma emits_run:
  assumes "P ([hs_bin cfg, ''-R'', path, ''--noninteractive''] @ args, hg_env H)"
  shows "emits P (\<lambda>_. True) (run_hg cfg H path args)"
  using assms by (auto simp: emits_def run_hg_def Let_def)

lemmas emits_any = emits_slift [where Q = "\<lambda>_. True", OF TrueI] emits_sret [where Q = "\<lambda>_. True", OF TrueI] emits_sraise

text \<open>A node that the command printed.\<close>

definition printed_node :: "hg_host \<Rightarrow> string \<Rightarrow> bool" where
  "printed_node H n \<longleftrightarrow> (\<exists>line e. hh_loads H line = Some (PDict e) \<and> dict_get e ''node'' = Some (PStr n))"

definition entry_printed :: "hg_host \<Rightarrow> (string \<times> pyval) list \<Rightarrow> bool" where
  "entry_printed H e \<longleftrightarrow> (\<forall>n. dict_get e ''node'' = Some (PStr n) \<longrightarrow> printed_node H n)"

lemma emits_log:
  assumes "P ([hs_bin cfg, ''-R'', path, ''--noninteractive'', ''log'', ''-T'', LOG_TEMPLATE] @ args, hg_env H)"
  shows "emits P (\<lambda>es. list_all (entry_printed H) es) (log_json cfg H path args)"
  unfolding log_json_def
proof (rule emits_sbind [OF emits_run], goal_cases)
  case 1
  show ?case using assms by simp
next
  case (2 raw)
  show ?case
  proof (rule emits_slift)
    fix es
    assume r: "rbind (rmap (hg_loads H) (filter (\<lambda>l. py_strip l \<noteq> []) (py_splitlines (hh_decode H raw)))) (\<lambda>vs.
        rbind (rmap log_entry vs) (\<lambda>es. rfilter (\<lambda>e. rbind (need e ''node'') (\<lambda>n. Inr (n \<noteq> NULL_NODE))) es)) = Inr es"
    then obtain ls vs es0 where vs: "rmap (hg_loads H) ls = Inr vs" and es0: "rmap log_entry vs = Inr es0"
      and es: "rfilter (\<lambda>e. rbind (need e ''node'') (\<lambda>n. Inr (n \<noteq> NULL_NODE))) es0 = Inr es"
      by (auto simp: rbind_Inr_iff)
    show "list_all (entry_printed H) es"
      unfolding list_all_iff
    proof
      fix e assume "e \<in> set es"
      then have "e \<in> set es0" using rfilter_Inr [OF es] by auto
      then obtain v where v: "v \<in> set vs" "log_entry v = Inr e" using rmap_Inr_set [OF es0] by blast
      then obtain l where "hg_loads H l = Inr v" using rmap_Inr_set [OF vs] by blast
      with v(2) obtain d where d: "hh_loads H l = Some (PDict d)" "dict_get e ''node'' = dict_get d ''node''"
        by (auto simp: hg_loads_def log_entry_def Let_def split: option.splits pyval.splits)
      then show "entry_printed H e"
        unfolding entry_printed_def printed_node_def by metis
    qed
  qed
qed

text \<open>What a request may put on the command line, option by option.\<close>

definition HG_COMMANDS :: "string list" where
  "HG_COMMANDS = [''log'', ''status'', ''diff'', ''cat'', ''branch'']"

definition HG_WORDS :: "string list" where
  "HG_WORDS = [''-T'', LOG_TEMPLATE, ''json'', ''-l'', ''1'', ''-r'', ''parents()'', ''-u'', ''--change'', ''-C'', ''-c'', ''--git'', ''--rev'']"

definition plain_rev :: "string \<Rightarrow> bool" where
  "plain_rev rv \<longleftrightarrow> rv \<noteq> [] \<and> (\<forall>c \<in> set rv. rev_char c \<or> c = ch_newline)"

definition word_ok :: "hg_host \<Rightarrow> hg_request \<Rightarrow> string \<Rightarrow> bool" where
  "word_ok H req a \<longleftrightarrow> a \<in> set HG_WORDS \<or> plain_rev a \<or>
     (\<exists>rv. plain_rev rv \<and> a = ''reverse(ancestors('' @ [CHR 0x27] @ rv @ [CHR 0x27] @ ''))'') \<or>
     (\<exists>l. 1 \<le> l \<and> l \<le> 200 \<and> a = str_int (l + 1)) \<or> printed_node H a \<or>
     (\<exists>repo start path limit. req = Changesets repo start path (Some a) limit)"

definition operand_ok :: "string list \<Rightarrow> bool" where
  "operand_ok rest \<longleftrightarrow> rest = [] \<or> (\<exists>p. \<not> bad_path p \<and> rest = [''--'', ''path:'' @ p])"

primrec req_repo :: "hg_request \<Rightarrow> string" where
  "req_repo (RepoSummary repo) = repo"
| "req_repo (Changesets repo start path user limit) = repo"
| "req_repo (Changeset rv repo) = repo"
| "req_repo (ChangesetDiff rv repo path) = repo"
| "req_repo (WdirDiff repo path) = repo"
| "req_repo (Status repo from_rev to_rev) = repo"
| "req_repo (FileContent rv file_path repo) = repo"

text \<open>The repository a command is pointed at: under the real root, reached by the name that was asked for.\<close>

definition repo_ok :: "hg_settings \<Rightarrow> hg_host \<Rightarrow> string \<Rightarrow> string \<Rightarrow> bool" where
  "repo_ok cfg H repo path \<longleftrightarrow>
     \<not> bad_path repo \<and> path = realpath (hh_fs H) (path_join (realpath (hh_fs H) (hs_root cfg)) repo) \<and>
     (path = realpath (hh_fs H) (hs_root cfg) \<or> prefix (realpath (hh_fs H) (hs_root cfg) @ ''/'') path) \<and>
     (\<exists>d. sys_stat (hh_fs H) (path_join path ''.hg'') = Inr (Dir d))"

definition hg_call_ok :: "hg_settings \<Rightarrow> hg_host \<Rightarrow> hg_request \<Rightarrow> string list \<times> (string, string) dict \<Rightarrow> bool" where
  "hg_call_ok cfg H req e \<longleftrightarrow>
     (\<exists>path cmd opts rest. fst e = [hs_bin cfg, ''-R'', path, ''--noninteractive'', cmd] @ opts @ rest \<and>
        repo_ok cfg H (req_repo req) path \<and> cmd \<in> set HG_COMMANDS \<and> list_all (word_ok H req) opts \<and> operand_ok rest) \<and>
     dict_get (snd e) ''HGPLAIN'' = Some ''1'' \<and> dict_get (snd e) ''HGRCPATH'' = Some []"

lemma hg_call_okI:
  assumes "repo_ok cfg H (req_repo req) path" and "cmd \<in> set HG_COMMANDS" and "list_all (word_ok H req) opts" and "operand_ok rest"
    and "argv = [hs_bin cfg, ''-R'', path, ''--noninteractive'', cmd] @ opts @ rest"
  shows "hg_call_ok cfg H req (argv, hg_env H)"
proof -
  have "dict_get (hg_env H) ''HGPLAIN'' = Some ''1''" "dict_get (hg_env H) ''HGRCPATH'' = Some []"
    by (simp_all add: hg_env_def)
  then show ?thesis using assms unfolding hg_call_ok_def fst_conv snd_conv by blast
qed

lemma resolve_repo_ok: "hg_resolve cfg H repo = Inr path \<Longrightarrow> repo_ok cfg H repo path"
  by (auto simp: hg_resolve_def repo_ok_def Let_def split: if_splits sum.splits node.splits)

lemma check_rev_plain: "check_rev rv = Inr r \<Longrightarrow> r = rv \<and> plain_rev rv"
proof -
  assume "check_rev rv = Inr r"
  then have r: "r = rv" and d: "re_dollar rev_chars rv" by (auto simp: check_rev_def split: if_splits)
  show ?thesis
  proof (cases "rev_chars rv")
    case True
    then show ?thesis using r by (auto simp: plain_rev_def rev_chars_def list_all_iff)
  next
    case False
    then have n: "rv \<noteq> []" "last rv = ch_newline" "rev_chars (butlast rv)"
      using d by (auto simp: re_dollar_def)
    have "\<forall>c \<in> set (butlast rv @ [last rv]). rev_char c \<or> c = ch_newline"
      using n(2,3) by (auto simp: rev_chars_def list_all_iff)
    then show ?thesis using r n(1) by (simp add: plain_rev_def)
  qed
qed

lemma path_args_operand: "path_args path = Inr rest \<Longrightarrow> operand_ok rest"
  by (auto simp: path_args_def hg_check_path_def operand_ok_def result_simps split: option.splits if_splits)

lemma word_okI:
  "a \<in> set HG_WORDS \<Longrightarrow> word_ok H req a"
  "plain_rev a \<Longrightarrow> word_ok H req a"
  "printed_node H a \<Longrightarrow> word_ok H req a"
  by (auto simp: word_ok_def)

lemma rev_args_words: "rev_args f t = Inr args \<Longrightarrow> list_all (word_ok H req) args"
  by (auto simp: rev_args_def result_simps word_okI HG_WORDS_def dest!: check_rev_plain split: option.splits if_splits)

text \<open>Every handler resolves the repository before it runs anything.\<close>

lemma emits_resolved:
  assumes "\<And>path. repo_ok cfg H repo path \<Longrightarrow> emits P Q (f path)"
  shows "emits P Q (sbind (slift (hg_resolve cfg H repo)) f)"
  by (rule emits_sbind [OF emits_slift [where Q = "repo_ok cfg H repo"]]) (use assms resolve_repo_ok in blast)+

lemma emits_checked:
  assumes "\<And>r. r = rv \<Longrightarrow> plain_rev rv \<Longrightarrow> emits P Q (f r)"
  shows "emits P Q (sbind (slift (check_rev rv)) f)"
  by (rule emits_sbind [OF emits_slift [where Q = "\<lambda>r. r = rv \<and> plain_rev rv"]]) (use assms check_rev_plain in blast)+

lemma emits_operand:
  assumes "\<And>rest. operand_ok rest \<Longrightarrow> emits P Q (f rest)"
  shows "emits P Q (sbind (slift (path_args path)) f)"
  by (rule emits_sbind [OF emits_slift [where Q = operand_ok]]) (use assms path_args_operand in blast)+

lemma emits_command:
  assumes "repo_ok cfg H (req_repo req) path" and "cmd \<in> set HG_COMMANDS" and "list_all (word_ok H req) opts" and "operand_ok rest"
    and "args = cmd # opts @ rest"
  shows "emits (hg_call_ok cfg H req) (\<lambda>_. True) (run_hg cfg H path args)"
  by (rule emits_run, rule hg_call_okI [OF assms(1-4)]) (simp add: assms(5))

lemma emits_log_command:
  assumes "repo_ok cfg H (req_repo req) path" and "list_all (word_ok H req) opts" and "operand_ok rest" and "args = opts @ rest"
  shows "emits (hg_call_ok cfg H req) (list_all (entry_printed H)) (log_json cfg H path args)"
proof (rule emits_log, rule hg_call_okI [OF assms(1)])
  show "list_all (word_ok H req) ([''-T'', LOG_TEMPLATE] @ opts)" using assms(2) by (simp add: word_okI HG_WORDS_def)
qed (use assms in \<open>auto simp: HG_COMMANDS_def\<close>)

lemma words_ok: "list_all (word_ok H req) opts"
  if "\<forall>a \<in> set opts. a \<in> set HG_WORDS"
  using that by (simp add: list_all_iff word_okI)

lemma operand_none [simp]: "operand_ok []"
  by (simp add: operand_ok_def)

lemma emits_sbind_any: "emits P (\<lambda>_. True) m \<Longrightarrow> (\<And>v. emits P R (f v)) \<Longrightarrow> emits P R (sbind m f)"
  by (rule emits_sbind)

abbreviation obeys :: "hg_settings \<Rightarrow> hg_host \<Rightarrow> hg_request \<Rightarrow> (hg_trace, hg_exn, 'a) opn \<Rightarrow> bool" where
  "obeys cfg H req m \<equiv> emits (hg_call_ok cfg H req) (\<lambda>_. True) m"

lemmas hg_words = word_okI HG_WORDS_def HG_COMMANDS_def

lemma obeys_summary: "obeys cfg H (RepoSummary repo) (h_repo_summary cfg H repo)"
  unfolding h_repo_summary_def
proof (rule emits_resolved, goal_cases)
  case (1 path)
  let ?P = "hg_call_ok cfg H (RepoSummary repo)"
  have logs: "emits ?P (list_all (entry_printed H)) (log_json cfg H path [''-l'', ''1''])"
    "emits ?P (list_all (entry_printed H)) (log_json cfg H path [''-r'', ''parents()''])"
    by (rule emits_log_command [where opts = "[_, _]" and rest = "[]"], use 1 in \<open>simp_all add: hg_words\<close>)+
  have runs: "emits ?P (\<lambda>_. True) (run_hg cfg H path [''branch''])"
    "emits ?P (\<lambda>_. True) (run_hg cfg H path [''status'', ''-T'', ''json''])"
    by (rule emits_command [where opts = "[]" and rest = "[]"] emits_command [where opts = "[_, _]" and rest = "[]"],
        use 1 in \<open>simp_all add: hg_words\<close>)+
  show ?case
    by (intro emits_sbind [OF logs(1)] emits_sbind [OF logs(2)] emits_sbind_any runs emits_any)
qed

lemma changesets_words:
  "plain_rev rv \<Longrightarrow> word_ok H req (''reverse(ancestors('' @ [CHR 0x27] @ rv @ [CHR 0x27] @ ''))'')"
  "1 \<le> l \<Longrightarrow> l \<le> 200 \<Longrightarrow> word_ok H req (str_int (l + 1))"
  "word_ok H (Changesets repo start path (Some u) limit) u"
  unfolding word_ok_def by blast+

lemma obeys_changesets: "obeys cfg H (Changesets repo start path user limit) (h_changesets cfg H repo start path user limit)"
proof (cases "limit < 1 \<or> 200 < limit")
  case True
  then show ?thesis by (simp add: h_changesets_def emits_any)
next
  case limit: False
  let ?req = "Changesets repo start path user limit"
  have log: "emits (hg_call_ok cfg H ?req) (list_all (entry_printed H))
      (log_json cfg H target ([''-r'', ''reverse(ancestors('' @ [CHR 0x27] @ start @ [CHR 0x27] @ ''))'', ''-l'', str_int (limit + 1)] @
         (case user of Some u \<Rightarrow> [''-u'', u] | None \<Rightarrow> []) @ rest))"
    if "repo_ok cfg H repo target" "plain_rev start" "operand_ok rest" for target rest
  proof (rule emits_log_command [where rest = rest])
    show "list_all (word_ok H ?req) ([''-r'', ''reverse(ancestors('' @ [CHR 0x27] @ start @ [CHR 0x27] @ ''))'', ''-l'', str_int (limit + 1)] @
        (case user of Some u \<Rightarrow> [''-u'', u] | None \<Rightarrow> []))"
      using limit changesets_words(1) [OF that(2)] by (auto simp: changesets_words(2,3) hg_words split: option.splits)
  qed (use that in simp_all)
  show ?thesis
    using limit unfolding h_changesets_def
    by (simp del: append.simps append_assoc add: split_beta)
      (intro emits_resolved emits_checked emits_operand emits_sbind [OF log] emits_any; assumption)
qed

lemma obeys_changeset: "obeys cfg H (Changeset rv repo) (h_changeset cfg H rv repo)"
  unfolding h_changeset_def
proof (intro emits_resolved emits_checked, goal_cases)
  case (1 target r)
  let ?P = "hg_call_ok cfg H (Changeset rv repo)"
  have log: "emits ?P (list_all (entry_printed H)) (log_json cfg H target [''-r'', r])"
    by (rule emits_log_command [where opts = "[_, _]" and rest = "[]"]) (use 1 in \<open>simp_all add: hg_words\<close>)
  have "emits ?P (\<lambda>_. True) (run_hg cfg H target [''status'', ''--change'', n, ''-C'', ''-T'', ''json''])" if "printed_node H n" for n
    by (rule emits_command [where opts = "[_, _, _, _, _]" and rest = "[]"]) (use 1 that in \<open>simp_all add: hg_words\<close>)
  note st = emits_sbind_any [OF this]
  have node: "emits ?P (printed_node H) (slift (case dict_get result ''node'' of Some (PStr n) \<Rightarrow> Inr n | _ \<Rightarrow> Inl (HgPy TypeError)))"
    if "entry_printed H e" "changeset_json H e = Inr result" for e result
    using that
    by (intro emits_slift)
      (auto simp: changeset_json_def need_def entry_printed_def result_simps split: option.splits pyval.splits)
  have cs: "emits ?P (\<lambda>result. changeset_json H e = Inr result) (slift (changeset_json H e))" for e
    by (rule emits_slift)
  show ?case
  proof (rule emits_sbind [OF log])
    fix entries assume es: "list_all (entry_printed H) entries"
    show "emits ?P (\<lambda>_. True) (case entries of
         [] \<Rightarrow> sraise (HgJetty (JettyError NOT_FOUND (''unknown revision '' @ py_repr rv)))
       | e # _ \<Rightarrow>
           sbind (slift (changeset_json H e)) (\<lambda>result.
           sbind (slift (case dict_get result ''node'' of Some (PStr n) \<Rightarrow> Inr n | _ \<Rightarrow> Inl (HgPy TypeError))) (\<lambda>node.
           sbind (run_hg cfg H target [''status'', ''--change'', node, ''-C'', ''-T'', ''json'']) (\<lambda>raw.
           slift (rbind (status_files H raw) (\<lambda>files. Inr (HgJson (PDict (result @ [(''files'', files)])))))))))"
      using es by (cases entries) (auto intro!: emits_any emits_sbind [OF cs] emits_sbind [OF node] st)
  qed
qed

lemma obeys_diffs:
  "obeys cfg H (ChangesetDiff rv repo path) (h_changeset_diff cfg H rv repo path)"
  "obeys cfg H (WdirDiff repo path) (h_wdir_diff cfg H repo path)"
  unfolding h_changeset_diff_def h_wdir_diff_def
  by (intro emits_resolved emits_checked emits_operand emits_sbind_any emits_any
      emits_command [where cmd = "''diff''" and opts = "[''-c'', rv, ''--git'']"] emits_command [where cmd = "''diff''" and opts = "[''--git'']"];
      simp add: hg_words)+

lemma obeys_status: "obeys cfg H (Status repo from_rev to_rev) (h_status cfg H repo from_rev to_rev)"
  unfolding h_status_def
proof (rule emits_resolved, goal_cases)
  case (1 target)
  have args: "emits (hg_call_ok cfg H (Status repo from_rev to_rev)) (list_all (word_ok H (Status repo from_rev to_rev)))
      (slift (rev_args from_rev to_rev))"
    by (rule emits_slift) (rule rev_args_words)
  show ?case
  proof (rule emits_sbind [OF args], rule emits_sbind_any, goal_cases)
    case (1 args)
    show ?case
      by (rule emits_command [where opts = "[''-C'', ''-T'', ''json''] @ args" and rest = "[]"])
        (use 1 \<open>repo_ok cfg H repo target\<close> in \<open>simp_all add: hg_words\<close>)
  qed (rule emits_any)
qed

lemma obeys_file: "obeys cfg H (FileContent rv file_path repo) (h_file_content cfg H rv file_path repo)"
  unfolding h_file_content_def
proof (intro emits_resolved emits_checked, goal_cases)
  case (1 target r)
  have path: "emits (hg_call_ok cfg H (FileContent rv file_path repo)) (\<lambda>p. \<not> bad_path p) (slift (hg_check_path file_path))"
    by (rule emits_slift) (auto simp: hg_check_path_def split: if_splits)
  show ?case
  proof (rule emits_sbind [OF path], rule emits_sbind_any, goal_cases)
    case (1 p)
    show ?case
      by (rule emits_command [where opts = "[''-r'', r]" and rest = "[''--'', ''path:'' @ p]"])
        (use 1 \<open>repo_ok cfg H repo target\<close> \<open>r = rv\<close> \<open>plain_rev rv\<close> in \<open>simp_all add: hg_words operand_ok_def\<close>)
  qed (rule emits_any)
qed

lemmas handlers_obey = obeys_summary obeys_changesets obeys_changeset obeys_diffs obeys_status obeys_file

lemma handler_obeys: "obeys cfg H req (hg_handler cfg H req)"
  by (cases req) (simp_all add: handlers_obey)

section \<open>Pages of changesets\<close>

text \<open>
  Mercurial numbers changesets so that parents come before children. \<open>parents ! n\<close> lists the parents of changeset
  \<open>n\<close>; \<open>reverse_ancestors\<close> is what the revset \<^verbatim>\<open>reverse(ancestors(n))\<close> is documented to select, the changeset and all it
  descends from, newest first. \<open>page_walk\<close> follows the cursor of \<open>log_page\<close> until there is none.
\<close>

primrec scan_down :: "nat list list \<Rightarrow> nat \<Rightarrow> nat set \<Rightarrow> nat list" where
  "scan_down parents 0 wanted = []"
| "scan_down parents (Suc n) wanted =
     (if n \<in> wanted then n # scan_down parents n (wanted \<union> set (parents ! n)) else scan_down parents n wanted)"

definition reverse_ancestors :: "nat list list \<Rightarrow> nat \<Rightarrow> nat list" where
  "reverse_ancestors parents n = scan_down parents (Suc n) {n}"

definition numbered :: "nat list list \<Rightarrow> bool" where
  "numbered parents \<longleftrightarrow> (\<forall>n < length parents. \<forall>p \<in> set (parents ! n). p < n)"

definition parent_of :: "nat list list \<Rightarrow> (nat \<times> nat) set" where
  "parent_of parents = {(n, p). n < length parents \<and> p \<in> set (parents ! n)}"

definition linear :: "nat list list \<Rightarrow> bool" where
  "linear parents \<longleftrightarrow> (\<forall>n < length parents. parents ! n = (if n = 0 then [] else [n - 1]))"

function page_walk :: "nat list list \<Rightarrow> nat \<Rightarrow> nat \<Rightarrow> nat list" where
  "page_walk parents limit start =
     (case log_page limit (reverse_ancestors parents start) of
        (page, Some n) \<Rightarrow> (if n < start then page @ page_walk parents limit n else page)
      | (page, None) \<Rightarrow> page)"
  by pat_completeness auto
termination
  by (relation "measure (\<lambda>(_, _, start). start)") auto

declare page_walk.simps [simp del]

lemma scan_down_bounds: "m \<in> set (scan_down parents n W) \<Longrightarrow> m < n"
  by (induction n arbitrary: W) (auto split: if_splits dest: less_SucI)

lemma scan_down_sorted: "sorted_wrt (>) (scan_down parents n W)"
  by (induction n arbitrary: W) (auto dest: scan_down_bounds)

text \<open>The scan is the closure under parents.\<close>

lemma parent_path_le: "(n, m) \<in> (parent_of parents)\<^sup>* \<Longrightarrow> numbered parents \<Longrightarrow> m \<le> n"
  by (induction rule: rtrancl_induct) (fastforce simp: parent_of_def numbered_def)+

lemma closed_on_path:
  assumes "(w, x) \<in> (parent_of parents)\<^sup>*" and "w \<in> W" and "n \<le> x" and "numbered parents"
    and "\<forall>w \<in> W. n < w \<longrightarrow> set (parents ! w) \<subseteq> W"
  shows "x \<in> W"
  using assms
proof (induction rule: rtrancl_induct)
  case (step x y)
  then have "y < x" "y \<in> set (parents ! x)" by (auto simp: parent_of_def numbered_def)
  then show ?case using step by (meson less_imp_le_nat order_le_less_trans subsetD)
qed simp

lemma set_scan_down:
  assumes "numbered parents" and "n \<le> length parents" and "\<forall>w \<in> W. n \<le> w \<longrightarrow> set (parents ! w) \<subseteq> W"
  shows "set (scan_down parents n W) = {m. m < n \<and> (\<exists>w \<in> W. (w, m) \<in> (parent_of parents)\<^sup>*)}"
  using assms(2,3)
proof (induction n arbitrary: W)
  case (Suc n)
  let ?W = "W \<union> set (parents ! n)"
  show ?case
  proof (cases "n \<in> W")
    case True
    have below: "\<forall>p \<in> set (parents ! n). p < n" using Suc.prems(1) assms(1) by (auto simp: numbered_def)
    have closed: "\<forall>w \<in> ?W. n \<le> w \<longrightarrow> set (parents ! w) \<subseteq> ?W"
    proof (intro ballI impI)
      fix w assume "w \<in> ?W" "n \<le> w"
      then have "w \<in> W" using below by auto
      then show "set (parents ! w) \<subseteq> ?W"
        using Suc.prems(2) \<open>n \<le> w\<close> by (cases "w = n") auto
    qed
    have up: "(n, m) \<in> (parent_of parents)\<^sup>*" if "p \<in> set (parents ! n)" "(p, m) \<in> (parent_of parents)\<^sup>*" for p m
      using that Suc.prems(1) by (intro converse_rtrancl_into_rtrancl [of n p]) (auto simp: parent_of_def)
    have "set (scan_down parents n ?W) = {m. m < n \<and> (\<exists>w \<in> ?W. (w, m) \<in> (parent_of parents)\<^sup>*)}"
      using Suc.IH [OF _ closed] Suc.prems(1) by simp
    also have "\<dots> = {m. m < n \<and> (\<exists>w \<in> W. (w, m) \<in> (parent_of parents)\<^sup>*)}"
      using True up by blast
    finally show ?thesis using True by (auto simp: less_Suc_eq)
  next
    case False
    have "(w, n) \<notin> (parent_of parents)\<^sup>*" if "w \<in> W" for w
      using closed_on_path [OF _ that, of n parents n] assms(1) Suc.prems(2) False by auto
    moreover have "\<forall>w \<in> W. n \<le> w \<longrightarrow> set (parents ! w) \<subseteq> W"
      using Suc.prems(2) False by (metis le_eq_less_or_eq less_eq_Suc_le)
    ultimately show ?thesis using Suc.IH [of W] Suc.prems(1) False by (auto simp: less_Suc_eq)
  qed
qed simp

lemma set_reverse_ancestors:
  assumes "numbered parents" and "n < length parents"
  shows "set (reverse_ancestors parents n) = {m. (n, m) \<in> (parent_of parents)\<^sup>*}"
  using set_scan_down [OF assms(1), of "Suc n" "{n}"] assms parent_path_le [OF _ assms(1)]
  by (auto simp: reverse_ancestors_def less_Suc_eq_le)

lemma reverse_ancestors_Cons: "\<exists>older. reverse_ancestors parents n = n # older \<and> (\<forall>m \<in> set older. m < n)"
  by (auto simp: reverse_ancestors_def dest: scan_down_bounds)

text \<open>One turn of the walk.\<close>

lemma page_walk_step:
  assumes "1 \<le> limit"
  obtains "page_walk parents limit start = reverse_ancestors parents start"
  | n where "n \<in> set (reverse_ancestors parents start)" "n < start" "\<forall>m \<in> set (take limit (reverse_ancestors parents start)). n < m"
      "reverse_ancestors parents start ! limit = n" "limit < length (reverse_ancestors parents start)"
      "page_walk parents limit start = take limit (reverse_ancestors parents start) @ page_walk parents limit n"
proof (cases "limit < length (reverse_ancestors parents start)")
  case False
  then have "page_walk parents limit start = reverse_ancestors parents start"
    by (subst page_walk.simps) (simp add: log_page_def)
  then show ?thesis by (rule that(1))
next
  case True
  let ?L = "reverse_ancestors parents start"
  let ?n = "?L ! limit"
  have sorted: "sorted_wrt (>) ?L" by (simp add: reverse_ancestors_def scan_down_sorted del: scan_down.simps)
  have lt: "?n < m" if "m \<in> set (take limit ?L)" for m
    using that True sorted by (auto simp: in_set_conv_nth sorted_wrt_iff_nth_less)
  obtain older where "?L = start # older" using reverse_ancestors_Cons by blast
  then have "start \<in> set (take limit ?L)" using assms by (cases limit) auto
  then have "?n < start" by (rule lt)
  then show ?thesis
    using True lt by (intro that(2) [of ?n]) (auto simp: page_walk.simps [of parents limit start] log_page_def)
qed

lemma page_walk_sound:
  assumes "numbered parents" and "start < length parents" and "1 \<le> limit"
  shows "set (page_walk parents limit start) \<subseteq> {m. (start, m) \<in> (parent_of parents)\<^sup>*} \<and> sorted_wrt (>) (page_walk parents limit start)"
  using assms(2)
proof (induction start rule: less_induct)
  case (less start)
  let ?L = "reverse_ancestors parents start"
  have sorted: "sorted_wrt (>) ?L" by (simp add: reverse_ancestors_def scan_down_sorted del: scan_down.simps)
  show ?case
  proof (rule page_walk_step [OF assms(3), of parents start])
    assume "page_walk parents limit start = ?L"
    then show ?thesis using sorted set_reverse_ancestors [OF assms(1) less.prems] by simp
  next
    fix n
    assume n: "n \<in> set ?L" "n < start" "\<forall>m \<in> set (take limit ?L). n < m"
      and walk: "page_walk parents limit start = take limit ?L @ page_walk parents limit n"
    have rest: "set (page_walk parents limit n) \<subseteq> {m. (n, m) \<in> (parent_of parents)\<^sup>*}" "sorted_wrt (>) (page_walk parents limit n)"
      using less.IH [OF n(2)] n(2) less.prems by auto
    have reach: "(start, n) \<in> (parent_of parents)\<^sup>*" using n(1) set_reverse_ancestors [OF assms(1) less.prems] by simp
    have "m \<le> n" if "m \<in> set (page_walk parents limit n)" for m
      using that rest(1) parent_path_le [OF _ assms(1)] by blast
    then have "sorted_wrt (>) (page_walk parents limit start)"
      unfolding walk sorted_wrt_append using n(3) rest(2) sorted sorted_wrt_take order_le_less_trans by blast
    moreover have "set (page_walk parents limit start) \<subseteq> {m. (start, m) \<in> (parent_of parents)\<^sup>*}"
      using walk rest(1) reach set_reverse_ancestors [OF assms(1) less.prems] by (auto dest: in_set_takeD intro: rtrancl_trans)
    ultimately show ?thesis by blast
  qed
qed

lemma linear_scan:
  assumes "linear parents" and "n < length parents" and "n \<in> W" and "\<forall>w \<in> W. w \<le> n \<longrightarrow> w = n"
  shows "scan_down parents (Suc n) W = rev [0..<Suc n]"
  using assms(2-4)
proof (induction n arbitrary: W)
  case (Suc n)
  have "parents ! Suc n = [n]" using assms(1) Suc.prems(1) by (simp add: linear_def)
  moreover have "scan_down parents (Suc n) (W \<union> {n}) = rev [0..<Suc n]"
    using Suc.prems by (intro Suc.IH) auto
  ultimately show ?case using Suc.prems(2) by (subst scan_down.simps(2)) simp
qed simp

lemma linear_ancestors: "linear parents \<Longrightarrow> n < length parents \<Longrightarrow> reverse_ancestors parents n = rev [0..<Suc n]"
  unfolding reverse_ancestors_def by (rule linear_scan) simp_all

lemma page_walk_linear:
  assumes "linear parents" and "start < length parents" and "1 \<le> limit"
  shows "page_walk parents limit start = rev [0..<Suc start]"
  using assms(2)
proof (induction start rule: less_induct)
  case (less start)
  have L: "reverse_ancestors parents start = rev [0..<Suc start]" by (rule linear_ancestors [OF assms(1) less.prems])
  show ?case
  proof (rule page_walk_step [OF assms(3), of parents start])
    fix n
    assume n: "n < start" "reverse_ancestors parents start ! limit = n" "limit < length (reverse_ancestors parents start)"
      and walk: "page_walk parents limit start = take limit (reverse_ancestors parents start) @ page_walk parents limit n"
    have lim: "limit \<le> start" using n(3) L by simp
    have "n = start - limit" using n(2) lim unfolding L by (subst (asm) rev_nth) (simp_all del: upt_Suc)
    then have "drop limit (rev [0..<Suc start]) = rev [0..<Suc n]"
      using lim by (simp add: drop_rev Suc_diff_le del: upt_Suc)
    then show ?thesis
      unfolding walk L using less.IH [OF n(1)] n(1) less.prems append_take_drop_id [of limit "rev [0..<Suc start]"] by (simp del: upt_Suc)
  qed (use L in simp)
qed

section \<open>A sample repository\<close>

text \<open>
  Two branches of one changeset each on top of changeset 0, and their merge 3, in \<^verbatim>\<open>/srv/hg/a\<close>. The command answers the
  log requests of \<open>h_changesets\<close> by the documented meaning of its revset and its limit, one digit per line.
\<close>

definition merge_history :: "nat list list" where
  "merge_history = [[], [0], [0], [1, 2]]"

definition sample_dir :: node where
  "sample_dir = Dir \<lparr>ino_dev = 1, ino_num = 1, ino_uid = 0, ino_mode = 493, ino_size = 0, ino_mtime = 0\<rparr>"

definition sample_revset :: "nat \<Rightarrow> string" where
  "sample_revset n = ''reverse(ancestors('' @ [CHR 0x27] @ str_nat n @ [CHR 0x27] @ ''))''"

definition sample_log :: "string \<Rightarrow> nat \<Rightarrow> string" where
  "sample_log revset limit =
     (case filter (\<lambda>n. sample_revset n = revset) [0, 1, 2, 3] of
        n # _ \<Rightarrow> concat (map (\<lambda>m. str_nat m @ [ch_newline]) (take limit (reverse_ancestors merge_history n)))
      | [] \<Rightarrow> [])"

definition sample_hg :: hg_host where
  "sample_hg =
     \<lparr>hh_fs = map (\<lambda>p. (p, sample_dir)) [[], [''srv''], [''srv'', ''hg''], [''srv'', ''hg'', ''a''], [''srv'', ''hg'', ''a'', ''.hg'']],
      hh_environ = [(''HGRCPATH'', ''/home/u/.hgrc'')],
      hh_run = (\<lambda>_ argv. HgExit 0 (case argv of [_, _, _, _, _, _, _, _, revset, _, [d]] \<Rightarrow> sample_log revset (nat (digit_val d)) | _ \<Rightarrow> []) []),
      hh_loads = (\<lambda>s. Some (PDict [(''node'', PStr s), (''rev'', PStr s), (''branch'', PStr ''default''), (''user'', PStr ''u''),
         (''date'', PNone), (''desc'', PStr [])])),
      hh_decode = (\<lambda>s. s), hh_decode_strict = Some, hh_iso = (\<lambda>_. Inr ''1970-01-01T00:00:00+00:00''), hh_guess = (\<lambda>_. None)\<rparr>"

definition sample_settings :: hg_settings where
  "sample_settings = \<lparr>hs_root = ''/srv/hg'', hs_bin = ''hg''\<rparr>"

text \<open>The nodes on a page and the cursor.\<close>

definition page_nodes :: "hg_exn + hg_reply \<Rightarrow> (pyval list \<times> pyval) option" where
  "page_nodes r =
     (case r of
        Inr (HgJson (PDict [(_, PList cs), (_, next)])) \<Rightarrow> Some (map (\<lambda>c. case c of PDict d \<Rightarrow> pget d ''node'' | _ \<Rightarrow> PNone) cs, next)
      | _ \<Rightarrow> None)"

section \<open>Properties\<close>


text \<open>
  Following the cursor from page to page ends, whatever the history; it shows changesets that are
  ancestors of the start, each at most once and newest first. On a history without merges and side branches
  it shows all of them.
\<close>

theorem changeset_pages_walk:
  assumes "numbered parents" and "start < length parents" and "1 \<le> limit"
  shows "set (page_walk parents limit start) \<subseteq> {m. (start, m) \<in> (parent_of parents)\<^sup>*}
    \<and> sorted_wrt (>) (page_walk parents limit start)
    \<and> (linear parents \<longrightarrow> set (page_walk parents limit start) = {m. (start, m) \<in> (parent_of parents)\<^sup>*})"
proof -
  have "set (page_walk parents limit start) = {m. (start, m) \<in> (parent_of parents)\<^sup>*}" if "linear parents"
    using page_walk_linear [OF that assms(2,3)] linear_ancestors [OF that assms(2)] set_reverse_ancestors [OF assms(1,2)] by simp
  then show ?thesis using page_walk_sound [OF assms] by blast
qed

theorem changeset_pages_walk_witness:
  "sorted_wrt (>) (page_walk merge_history 2 3) \<and> set (page_walk [[], [0], [1]] 2 2) = {m. (2, m) \<in> (parent_of [[], [0], [1]])\<^sup>*}"
proof -
  have "numbered merge_history" "numbered [[], [0], [1]]" "linear [[], [0], [1]]"
    by (auto simp: numbered_def linear_def merge_history_def nth_Cons less_Suc_eq split: nat.splits)
  then show ?thesis
    using changeset_pages_walk [of merge_history 3 2] changeset_pages_walk [of "[[], [0], [1]]" 2 2]
    by (simp add: merge_history_def)
qed


end
