(* ===== verification/Fs_Client.thy ===== *)
theory Fs_Client
  imports Fs_Surface Listener_Config
begin

text \<open>
  \<^verbatim>\<open>src/jetty/fsspec.py\<close>: the client of the filesystem module. The base class of \<^verbatim>\<open>fsspec\<close> (it strips the protocol
  from a path), the connection, JSON, the printing of a time and the calls of the operating system behind the local
  fallback are parameters (\<open>client_env\<close>), over a state \<open>'w\<close> of the world that they share. Bytes are characters;
  the text of an exception is reduced to the path, the status and the code it names.
\<close>

section \<open>Exceptions, calls and the environment\<close>

datatype cl_exn =
  NotFoundE string | PermissionE string | ExistsE string | LocalE errno | OSE string int pyval
| UnreachableE string | NoModuleE string | ValueE string | NotImplE | ClPy py_exn

text \<open>\<open>FileNotFoundError\<close>, \<open>PermissionError\<close> and \<open>FileExistsError\<close> are subclasses of \<open>OSError\<close>.\<close>

definition is_os_error :: "cl_exn \<Rightarrow> bool" where
  "is_os_error e =
     (case e of ValueE _ \<Rightarrow> False | NotImplE \<Rightarrow> False | ClPy x \<Rightarrow> x = OSError | _ \<Rightarrow> True)"

definition is_not_found :: "cl_exn \<Rightarrow> bool" where
  "is_not_found e = (case e of NotFoundE _ \<Rightarrow> True | LocalE ENOENT \<Rightarrow> True | _ \<Rightarrow> False)"

datatype address = Uds string | Tcp string int

datatype http_method = GET | PUT | DELETE | POST

record http_call =
  hc_method :: http_method
  hc_url :: string
  hc_body :: "string option"
  hc_content_type :: "string option"

record local_stat =
  ls_isreg :: bool
  ls_isdir :: bool
  ls_size :: nat
  ls_mode :: int
  ls_mtime :: rat

record 'w client_env =
  ce_strip :: "string \<Rightarrow> string"
  ce_send :: "address \<Rightarrow> http_call \<Rightarrow> ('w, cl_exn, int \<times> string) opn"
  ce_loads :: "string \<Rightarrow> pyval option"
  ce_dumps :: "pyval \<Rightarrow> string"
  ce_iso :: "rat \<Rightarrow> py_exn + string"
  ce_fromiso :: "pyval \<Rightarrow> py_exn + rat"
  lo_read :: "string \<Rightarrow> ('w, cl_exn, string) opn"
  lo_write :: "string \<Rightarrow> string \<Rightarrow> ('w, cl_exn, unit) opn"
  lo_isdir :: "string \<Rightarrow> 'w \<Rightarrow> bool"
  lo_rmdir :: "string \<Rightarrow> ('w, cl_exn, unit) opn"
  lo_remove :: "string \<Rightarrow> ('w, cl_exn, unit) opn"
  lo_replace :: "string \<Rightarrow> string \<Rightarrow> ('w, cl_exn, unit) opn"
  lo_copyfile :: "string \<Rightarrow> string \<Rightarrow> ('w, cl_exn, unit) opn"
  lo_mkdtemp :: "string \<Rightarrow> ('w, cl_exn, string) opn"
  lo_stat :: "string \<Rightarrow> ('w, cl_exn, local_stat) opn"
  lo_open :: "string \<Rightarrow> string \<Rightarrow> ('w, cl_exn, unit) opn"

record 'w client =
  cl_uds :: "string option"
  cl_tcp :: "string option"
  cl_local_fallback :: bool
  cl_remote :: "bool option"
  cl_world :: 'w

text \<open>An operation on the world alone.\<close>

definition on_world :: "('w, cl_exn, 'a) opn \<Rightarrow> ('w client, cl_exn, 'a) opn" where
  "on_world m c = (case m (cl_world c) of (r, w) \<Rightarrow> (r, c\<lparr>cl_world := w\<rparr>))"

section \<open>Construction and transport\<close>

definition DEFAULT_UDS :: string where
  "DEFAULT_UDS = ''/tmp/jetty/jetty.sock''"

definition MOUNT :: string where
  "MOUNT = ''/filesystem/v1''"

abbreviation (input) given :: "string option \<Rightarrow> bool" where
  "given s \<equiv> s \<noteq> None \<and> s \<noteq> Some []"

definition JettyFileSystem :: "string option \<Rightarrow> string option \<Rightarrow> bool \<Rightarrow> 'w \<Rightarrow> cl_exn + 'w client" where
  "JettyFileSystem uds tcp local_fallback w =
     (if given uds \<and> given tcp then Inl (ValueE ''configure uds or tcp, not both'')
      else Inr \<lparr>cl_uds = (if given uds then uds else if given tcp then None else Some DEFAULT_UDS),
                cl_tcp = tcp, cl_local_fallback = local_fallback, cl_remote = None, cl_world = w\<rparr>)"

definition fsspec_local :: "string \<Rightarrow> cl_exn + string" where
  "fsspec_local path = (if prefix ''/'' path then Inr path else Inl (ValueE path))"

definition connection :: "'w client \<Rightarrow> cl_exn + address" where
  "connection c =
     (case cl_uds c of
        Some (u # us) \<Rightarrow> Inr (Uds (u # us))
      | _ \<Rightarrow>
          (case cl_tcp c of
             None \<Rightarrow> Inl (ClPy AttributeError)
           | Some t \<Rightarrow>
               (case rpartition_ch (CHR '':'') t of
                  (host, _, port) \<Rightarrow>
                    (case py_int port of None \<Rightarrow> Inl (ClPy ValueError) | Some p \<Rightarrow> Inr (Tcp (strip_brackets host) p)))))"

definition fsspec_request :: "'w client_env \<Rightarrow> http_method \<Rightarrow> string \<Rightarrow> string option \<Rightarrow> string option \<Rightarrow>
    ('w client, cl_exn, int \<times> string) opn" where
  "fsspec_request E meth url body content_type c =
     (case connection c of
        Inl e \<Rightarrow> (Inl e, c)
      | Inr a \<Rightarrow> on_world (ce_send E a \<lparr>hc_method = meth, hc_url = url, hc_body = body, hc_content_type = content_type\<rparr>) c)"

section \<open>URLs\<close>

text \<open>\<open>urllib.parse.quote(path, safe="/")\<close>: the bytes of the UTF-8 encoding, escaped unless they are safe.\<close>

definition utf8_bytes :: "char \<Rightarrow> nat list" where
  "utf8_bytes c = (let n = of_char c in if n < 128 then [n] else [192 + n div 64, 128 + n mod 64])"

definition url_safe :: "nat \<Rightarrow> bool" where
  "url_safe b \<longleftrightarrow>
     b < 128 \<and> (let c = char_of b in is_lower_az c \<or> is_upper_az c \<or> is_ascii_digit c \<or> c \<in> set ''_.-~/'')"

definition HEX_DIGIT :: "nat \<Rightarrow> char" where
  "HEX_DIGIT n = (if n < 10 then char_of (48 + n) else char_of (55 + n))"

definition quote_byte :: "nat \<Rightarrow> string" where
  "quote_byte b = (if url_safe b then [char_of b] else [CHR 0x25, HEX_DIGIT (b div 16), HEX_DIGIT (b mod 16)])"

definition url_quote :: "string \<Rightarrow> string" where
  "url_quote s = concat (map quote_byte (concat (map utf8_bytes s)))"

definition file_url :: "string \<Rightarrow> string" where
  "file_url path = MOUNT @ ''/files/'' @ url_quote path"

section \<open>Errors and discovery\<close>

text \<open>\<open>json.loads(data)["k"]\<close>.\<close>

definition loads_item :: "'w client_env \<Rightarrow> string \<Rightarrow> string \<Rightarrow> py_exn + pyval" where
  "loads_item E data k =
     (case ce_loads E data of
        None \<Rightarrow> Inl ValueError
      | Some (PDict d) \<Rightarrow> (case dict_get d k of Some v \<Rightarrow> Inr v | None \<Rightarrow> Inl KeyError)
      | Some _ \<Rightarrow> Inl TypeError)"

definition STATUS_CODES :: "(int, string) dict" where
  "STATUS_CODES = [(400, ''invalid_request''), (403, ''permission_denied''), (404, ''not_found'')]"

text \<open>\<open>_raise\<close>: the code of the envelope, or the one of the status; an \<open>AttributeError\<close> is not caught.\<close>

definition fsspec_raise :: "'w client_env \<Rightarrow> int \<Rightarrow> string \<Rightarrow> string \<Rightarrow> cl_exn" where
  "fsspec_raise E status data path =
     (case (case loads_item E data ''error'' of
              Inl _ \<Rightarrow> Inr (PStr [])
            | Inr (PDict err) \<Rightarrow> Inr (dict_get_or err ''code'' (PStr []))
            | Inr _ \<Rightarrow> Inl AttributeError) of
        Inl e \<Rightarrow> ClPy e
      | Inr code0 \<Rightarrow>
          (let code = (if truthy code0 then code0 else PStr (dict_get_or STATUS_CODES status []))
           in if code = PStr ''not_found'' then NotFoundE path
              else if code = PStr ''permission_denied'' then PermissionE path
              else if code = PStr ''invalid_request'' then ValueE path
              else OSE path status code))"

definition checked :: "'w client_env \<Rightarrow> string \<Rightarrow> int \<times> string \<Rightarrow> cl_exn + string" where
  "checked E path r = (case r of (status, data) \<Rightarrow> if status \<noteq> 200 then Inl (fsspec_raise E status data path) else Inr data)"

text \<open>\<open>[m.get("name") for m in modules]\<close>; whatever goes wrong gives no names.\<close>

definition module_names :: "pyval \<Rightarrow> pyval list" where
  "module_names v =
     (case v of
        PList ms \<Rightarrow> (if list_all (\<lambda>m. case m of PDict _ \<Rightarrow> True | _ \<Rightarrow> False) ms
                     then map (\<lambda>m. case m of PDict d \<Rightarrow> pget d ''name'' | _ \<Rightarrow> PNone) ms else [])
      | _ \<Rightarrow> [])"

definition probe :: "'w client_env \<Rightarrow> ('w client, cl_exn, bool) opn" where
  "probe E c =
     (case fsspec_request E GET ''/v1/meta'' None None c of
        (Inl e, c') \<Rightarrow> (Inl (if is_os_error e then UnreachableE (case cl_uds c of Some (u # us) \<Rightarrow> u # us | _ \<Rightarrow> (case cl_tcp c of Some t \<Rightarrow> t | None \<Rightarrow> [])) else e), c')
      | (Inr (status, data), c') \<Rightarrow>
          (let names = (if status = 200 then (case loads_item E data ''modules'' of Inr v \<Rightarrow> module_names v | Inl _ \<Rightarrow> []) else []);
               remote = PStr ''filesystem'' \<in> set names
           in (Inr remote, c'\<lparr>cl_remote := Some remote\<rparr>)))"

definition is_remote :: "'w client_env \<Rightarrow> ('w client, cl_exn, bool) opn" where
  "is_remote E =
     sbind (\<lambda>c. case cl_remote c of None \<Rightarrow> probe E c | Some r \<Rightarrow> (Inr r, c)) (\<lambda>r c.
       if \<not> r \<and> \<not> cl_local_fallback c then (Inl (NoModuleE ''filesystem''), c) else (Inr r, c))"

section \<open>Whole-file operations\<close>

text \<open>\<open>data[start:end]\<close>.\<close>

definition slice_index :: "nat \<Rightarrow> int \<Rightarrow> nat" where
  "slice_index n i = nat (if i < 0 then max 0 (i + int n) else min i (int n))"

definition py_slice :: "int option \<Rightarrow> int option \<Rightarrow> 'a list \<Rightarrow> 'a list" where
  "py_slice start stop xs =
     (let lo = (case start of None \<Rightarrow> 0 | Some i \<Rightarrow> slice_index (length xs) i);
          hi = (case stop of None \<Rightarrow> length xs | Some i \<Rightarrow> slice_index (length xs) i)
      in drop lo (take hi xs))"

definition cat_file :: "'w client_env \<Rightarrow> string \<Rightarrow> int option \<Rightarrow> int option \<Rightarrow> ('w client, cl_exn, string) opn" where
  "cat_file E path0 start stop =
     (let path = ce_strip E path0 in
      sbind (is_remote E) (\<lambda>remote.
      sbind (if \<not> remote then sbind (slift (fsspec_local path)) (\<lambda>p. on_world (lo_read E p))
             else sbind (fsspec_request E GET (file_url path) None None) (\<lambda>r. slift (checked E path r))) (\<lambda>data.
        sret (if start \<noteq> None \<or> stop \<noteq> None then py_slice start stop data else data))))"

definition pipe_file :: "'w client_env \<Rightarrow> string \<Rightarrow> string \<Rightarrow> ('w client, cl_exn, unit) opn" where
  "pipe_file E path0 value =
     (let path = ce_strip E path0 in
      sbind (is_remote E) (\<lambda>remote.
        if \<not> remote then sbind (slift (fsspec_local path)) (\<lambda>p. on_world (lo_write E p value))
        else sbind (fsspec_request E PUT (file_url path) (Some value) (Some ''application/octet-stream'')) (\<lambda>r.
             sbind (slift (checked E path r)) (\<lambda>_. sret ()))))"

definition rm_file :: "'w client_env \<Rightarrow> string \<Rightarrow> ('w client, cl_exn, unit) opn" where
  "rm_file E path0 =
     (let path = ce_strip E path0 in
      sbind (is_remote E) (\<lambda>remote.
        if \<not> remote then
          sbind (slift (fsspec_local path)) (\<lambda>_.
          sbind (sget (\<lambda>c. lo_isdir E path (cl_world c))) (\<lambda>d.
            if d then on_world (lo_rmdir E path) else on_world (lo_remove E path)))
        else sbind (fsspec_request E DELETE (file_url path) None None) (\<lambda>r.
             sbind (slift (checked E path r)) (\<lambda>_. sret ()))))"

definition two_path :: "'w client_env \<Rightarrow> string \<Rightarrow> string \<Rightarrow> string \<Rightarrow> ('w client, cl_exn, unit) opn" where
  "two_path E operation path1 path2 =
     (let src = ce_strip E path1; dst = ce_strip E path2;
          body = ce_dumps E (PDict [(''from'', PStr src), (''to'', PStr dst)])
      in sbind (fsspec_request E POST (MOUNT @ ''/'' @ operation) (Some body) (Some ''application/json'')) (\<lambda>r.
         sbind (slift (checked E (src @ '' -> '' @ dst) r)) (\<lambda>_. sret ())))"

definition mv :: "'w client_env \<Rightarrow> string \<Rightarrow> string \<Rightarrow> ('w client, cl_exn, unit) opn" where
  "mv E path1 path2 =
     sbind (is_remote E) (\<lambda>remote.
       if \<not> remote then
         sbind (slift (fsspec_local (ce_strip E path1))) (\<lambda>p. sbind (slift (fsspec_local (ce_strip E path2))) (\<lambda>q. on_world (lo_replace E p q)))
       else two_path E ''rename'' path1 path2)"

definition cp_file :: "'w client_env \<Rightarrow> string \<Rightarrow> string \<Rightarrow> ('w client, cl_exn, unit) opn" where
  "cp_file E path1 path2 =
     sbind (is_remote E) (\<lambda>remote.
       if \<not> remote then
         sbind (slift (fsspec_local (ce_strip E path1))) (\<lambda>p. sbind (slift (fsspec_local (ce_strip E path2))) (\<lambda>q. on_world (lo_copyfile E p q)))
       else two_path E ''copy'' path1 path2)"

definition of_py :: "py_exn + 'a \<Rightarrow> cl_exn + 'a" where
  "of_py r = (case r of Inl e \<Rightarrow> Inl (ClPy e) | Inr x \<Rightarrow> Inr x)"

definition gettmpdir :: "'w client_env \<Rightarrow> ('w client, cl_exn, pyval) opn" where
  "gettmpdir E =
     sbind (is_remote E) (\<lambda>remote.
       if \<not> remote then sbind (on_world (lo_mkdtemp E ''jetty-'')) (\<lambda>p. sret (PStr p))
       else sbind (fsspec_request E POST (MOUNT @ ''/tmpdir'') None None) (\<lambda>r.
            sbind (slift (checked E ''tmpdir'' r)) (\<lambda>data. slift (of_py (loads_item E data ''path'')))))"

section \<open>Metadata\<close>

definition local_row :: "'w client_env \<Rightarrow> local_stat \<Rightarrow> py_exn + pyval" where
  "local_row E st =
     rbind (ce_iso E (ls_mtime st)) (\<lambda>t.
       Inr (PDict [(''size'', PInt (int (ls_size st))),
                   (''type'', PStr (if ls_isreg st then ''file'' else if ls_isdir st then ''directory'' else ''other'')),
                   (''mode'', PStr (mode_str (ls_mode st))), (''mtime'', PStr t)]))"

definition client_stat :: "'w client_env \<Rightarrow> string \<Rightarrow> ('w client, cl_exn, pyval) opn" where
  "client_stat E path =
     sbind (is_remote E) (\<lambda>remote.
       if \<not> remote then
         sbind (slift (fsspec_local path)) (\<lambda>p. sbind (on_world (lo_stat E p)) (\<lambda>st. slift (of_py (local_row E st))))
       else sbind (fsspec_request E GET (MOUNT @ ''/stat/'' @ url_quote path) None None) (\<lambda>r.
            sbind (slift (checked E path r)) (\<lambda>data.
              slift (case ce_loads E data of Some v \<Rightarrow> Inr v | None \<Rightarrow> Inl (ClPy ValueError)))))"

definition client_exists :: "'w client_env \<Rightarrow> string \<Rightarrow> ('w client, cl_exn, bool) opn" where
  "client_exists E path c =
     (case client_stat E (ce_strip E path) c of
        (Inl e, c') \<Rightarrow> (if is_not_found e then Inr False else Inl e, c')
      | (Inr _, c') \<Rightarrow> (Inr True, c'))"

definition row_item :: "pyval \<Rightarrow> string \<Rightarrow> py_exn + pyval" where
  "row_item v k =
     (case v of PDict d \<Rightarrow> (case dict_get d k of Some x \<Rightarrow> Inr x | None \<Rightarrow> Inl KeyError) | _ \<Rightarrow> Inl TypeError)"

definition client_info :: "'w client_env \<Rightarrow> string \<Rightarrow> ('w client, cl_exn, pyval) opn" where
  "client_info E path0 =
     (let path = ce_strip E path0 in
      sbind (client_stat E path) (\<lambda>row. slift (of_py (
        rbind (row_item row ''size'') (\<lambda>size. rbind (row_item row ''type'') (\<lambda>type.
        rbind (row_item row ''mode'') (\<lambda>mode. rbind (row_item row ''mtime'') (\<lambda>mtime.
          Inr (PDict [(''name'', PStr path), (''size'', size), (''type'', type), (''mode'', mode), (''mtime'', mtime)])))))))))"

definition client_modified :: "'w client_env \<Rightarrow> string \<Rightarrow> ('w client, cl_exn, rat) opn" where
  "client_modified E path =
     sbind (client_stat E (ce_strip E path)) (\<lambda>row. slift (of_py (rbind (row_item row ''mtime'') (ce_fromiso E))))"

definition client_ls :: "string \<Rightarrow> ('w client, cl_exn, pyval list) opn" where
  "client_ls path = sraise NotImplE"

section \<open>Open files\<close>

text \<open>A \<open>BytesIO\<close> with its position; a file of the local fallback is the operating system's.\<close>

record jetty_file =
  jf_path :: string
  jf_mode :: string
  jf_buffer :: string
  jf_pos :: nat
  jf_closed :: bool

datatype cl_file = RemoteFile jetty_file | LocalFile string string

definition JettyFile :: "string \<Rightarrow> string \<Rightarrow> string \<Rightarrow> jetty_file" where
  "JettyFile path mode initial = \<lparr>jf_path = path, jf_mode = mode, jf_buffer = initial, jf_pos = 0, jf_closed = False\<rparr>"

definition jf_write :: "string \<Rightarrow> jetty_file \<Rightarrow> jetty_file" where
  "jf_write data f =
     (let buf = jf_buffer f @ replicate (jf_pos f - length (jf_buffer f)) (CHR 0x00)
      in f\<lparr>jf_buffer := take (jf_pos f) buf @ data @ drop (jf_pos f + length data) buf, jf_pos := jf_pos f + length data\<rparr>)"

definition jf_close :: "'w client_env \<Rightarrow> jetty_file \<Rightarrow> 'w client \<Rightarrow> (cl_exn + unit) \<times> jetty_file \<times> 'w client" where
  "jf_close E f c =
     (if jf_closed f then (Inr (), f, c)
      else case (if jf_mode f \<in> {''wb'', ''ab'', ''xb''} then pipe_file E (jf_path f) (jf_buffer f) c else (Inr (), c)) of
             (r, c') \<Rightarrow> (r, f\<lparr>jf_closed := True\<rparr>, c'))"

definition client_open :: "'w client_env \<Rightarrow> string \<Rightarrow> string \<Rightarrow> ('w client, cl_exn, cl_file) opn" where
  "client_open E path0 mode =
     (let path = ce_strip E path0 in
      sbind (is_remote E) (\<lambda>remote.
        if \<not> remote then sbind (slift (fsspec_local path)) (\<lambda>p. sbind (on_world (lo_open E p mode)) (\<lambda>_. sret (LocalFile p mode)))
        else if mode = ''rb'' then sbind (cat_file E path None None) (\<lambda>d. sret (RemoteFile (JettyFile path mode d)))
        else if mode = ''wb'' then sret (RemoteFile (JettyFile path mode []))
        else if mode = ''xb'' then
          sbind (client_exists E path) (\<lambda>x. if x then sraise (ExistsE path) else sret (RemoteFile (JettyFile path mode [])))
        else if mode = ''ab'' then
          sbind (\<lambda>c. case cat_file E path None None c of
                   (Inl e, c') \<Rightarrow> (if is_not_found e then Inr [] else Inl e, c')
                 | r \<Rightarrow> r) (\<lambda>initial.
            sret (RemoteFile ((JettyFile path mode initial)\<lparr>jf_pos := length initial\<rparr>)))
        else sraise NotImplE))"

end
