(* ===== verification/Fs_Remote.thy ===== *)
theory Fs_Remote
  imports Fs_Client Server "HOL-Library.Countable"
begin

text \<open>
  The client of \<open>Fs_Client\<close> talking to the server of \<open>Fs_Surface\<close>. \<open>wire_send\<close> is the connection between them: the
  path of the URL is unquoted, the route is chosen, the handler runs in the surroundings of that moment, and its answer is put
  on the wire. A request in the middle of which nothing happens is answered by the handler; other requests
  may come in between two of them.
\<close>

section \<open>Percent escapes\<close>

definition hex_value :: "char \<Rightarrow> nat option" where
  "hex_value c =
     (let n = of_char c in
      if 48 \<le> n \<and> n < 58 then Some (n - 48) else if 65 \<le> n \<and> n < 71 then Some (n - 55)
      else if 97 \<le> n \<and> n < 103 then Some (n - 87) else None)"

fun pct_bytes :: "string \<Rightarrow> nat list" where
  "pct_bytes (c # a # b # rest) =
     (case (c = CHR 0x25, hex_value a, hex_value b) of
        (True, Some x, Some y) \<Rightarrow> (16 * x + y) # pct_bytes rest
      | _ \<Rightarrow> of_char c # pct_bytes (a # b # rest))"
| "pct_bytes (c # cs) = of_char c # pct_bytes cs"
| "pct_bytes [] = []"

text \<open>The part of UTF-8 that encodes the characters of the model.\<close>

fun utf8_chars :: "nat list \<Rightarrow> string option" where
  "utf8_chars [] = Some []"
| "utf8_chars (b # bs) =
     (if b < 128 then map_option ((#) (char_of b)) (utf8_chars bs)
      else case bs of
             b' # bs' \<Rightarrow> if b \<in> {194, 195} \<and> 128 \<le> b' \<and> b' < 192
                        then map_option ((#) (char_of (64 * (b - 192) + (b' - 128)))) (utf8_chars bs') else None
           | [] \<Rightarrow> None)"

definition unquote :: "string \<Rightarrow> string option" where
  "unquote u = utf8_chars (pct_bytes u)"

lemma pct_bytes_plain: "c \<noteq> CHR 0x25 \<Longrightarrow> pct_bytes (c # cs) = of_char c # pct_bytes cs"
  by (cases cs rule: remdups_adj.cases) (auto split: option.splits)

lemma hex_value_digit: "n < 16 \<Longrightarrow> hex_value (HEX_DIGIT n) = Some n"
  by (auto simp: hex_value_def HEX_DIGIT_def Let_def)

lemma of_char_byte: "(of_char c :: nat) < 256"
  using nat_of_char_less_256 by simp

lemma of_char_of_percent: "(of_char (CHR 0x25) :: nat) = 37" "b < 128 \<Longrightarrow> of_char (char_of (b :: nat)) = b"
  by simp_all

lemma pct_bytes_quoted: "b < 256 \<Longrightarrow> pct_bytes (quote_byte b @ rest) = b # pct_bytes rest"
proof (cases "url_safe b")
  case True
  then have "b < 128" by (simp add: url_safe_def)
  moreover have "\<not> url_safe 37" by code_simp
  then have "b \<noteq> 37" using True by blast
  ultimately have "char_of b \<noteq> CHR 0x25" by (metis of_char_of_percent(1,2))
  moreover have "b mod 256 = b" using \<open>b < 128\<close> by simp
  ultimately show ?thesis using True by (simp add: quote_byte_def pct_bytes_plain)
next
  case False
  moreover assume "b < 256"
  ultimately show ?thesis by (simp add: quote_byte_def hex_value_digit)
qed

lemma pct_bytes_concat: "list_all (\<lambda>b. b < 256) bs \<Longrightarrow> pct_bytes (concat (map quote_byte bs)) = bs"
  by (induction bs) (simp_all add: pct_bytes_quoted)

lemma utf8_bytes_range: "list_all (\<lambda>b. b < 256) (utf8_bytes c)"
proof -
  have "(of_char c :: nat) div 64 < 4" using of_char_byte [of c] by (simp add: less_mult_imp_div_less)
  moreover have "(of_char c :: nat) mod 64 < 128" by (rule less_trans [of _ 64]) simp_all
  ultimately show ?thesis by (simp add: utf8_bytes_def Let_def)
qed

lemma utf8_chars_two:
  assumes "128 \<le> n" and "n < 256"
  shows "utf8_chars ([192 + n div 64, 128 + n mod 64] @ bs) = map_option ((#) (char_of n)) (utf8_chars bs)"
proof -
  have "n div 64 < 4" "2 \<le> n div 64"
    using assms div_le_mono [of 128 n 64] by (simp_all add: less_mult_imp_div_less)
  then have "n div 64 = 2 \<or> n div 64 = 3" by linarith
  moreover have "64 * (n div 64) + n mod 64 = n" by simp
  ultimately show ?thesis by auto
qed

lemma utf8_chars_append: "utf8_chars (utf8_bytes c @ bs) = map_option ((#) c) (utf8_chars bs)"
proof (cases "(of_char c :: nat) < 128")
  case False
  then have "utf8_bytes c = [192 + of_char c div 64, 128 + of_char c mod 64]" by (simp add: utf8_bytes_def Let_def)
  then show ?thesis using utf8_chars_two [of "of_char c" bs] of_char_byte [of c] False by simp
qed (simp add: utf8_bytes_def Let_def)

lemma unquote_quote: "unquote (url_quote s) = Some s"
proof -
  have "list_all (\<lambda>b. b < 256) (concat (map utf8_bytes s))" using utf8_bytes_range by (auto simp: list_all_iff)
  then have "pct_bytes (url_quote s) = concat (map utf8_bytes s)" by (simp add: url_quote_def pct_bytes_concat)
  moreover have "utf8_chars (concat (map utf8_bytes s)) = Some s" by (induction s) (simp_all add: utf8_chars_append)
  ultimately show ?thesis by (simp add: unquote_def)
qed

lemma quote_append: "url_quote (s @ t) = url_quote s @ url_quote t"
  by (simp add: url_quote_def)

lemma quote_mount: "url_quote (MOUNT @ ''/files/'') = MOUNT @ ''/files/''" "url_quote (MOUNT @ ''/stat/'') = MOUNT @ ''/stat/''"
    "url_quote (MOUNT @ ''/rename'') = MOUNT @ ''/rename''" "url_quote (MOUNT @ ''/copy'') = MOUNT @ ''/copy''"
    "url_quote (MOUNT @ ''/tmpdir'') = MOUNT @ ''/tmpdir''"
  by code_simp+

lemma unquote_urls: "unquote (file_url p) = Some (MOUNT @ ''/files/'' @ p)" "unquote (MOUNT @ ''/stat/'' @ url_quote p) = Some (MOUNT @ ''/stat/'' @ p)"
    "unquote (MOUNT @ ''/rename'') = Some (MOUNT @ ''/rename'')" "unquote (MOUNT @ ''/copy'') = Some (MOUNT @ ''/copy'')"
    "unquote (MOUNT @ ''/tmpdir'') = Some (MOUNT @ ''/tmpdir'')"
  using unquote_quote [of "(MOUNT @ ''/files/'') @ p"] unquote_quote [of "(MOUNT @ ''/stat/'') @ p"] unquote_quote [of "MOUNT @ ''/rename''"]
    unquote_quote [of "MOUNT @ ''/copy''"] unquote_quote [of "MOUNT @ ''/tmpdir''"]
  unfolding quote_append [of "MOUNT @ ''/files/''"] quote_append [of "MOUNT @ ''/stat/''"] quote_mount file_url_def by simp_all

section \<open>The server behind the wire\<close>

definition after_prefix :: "string \<Rightarrow> string \<Rightarrow> string option" where
  "after_prefix pre u = (if prefix pre u then Some (drop (length pre) u) else None)"

text \<open>The body of a rename or copy: exactly the two paths.\<close>

definition two_paths :: "(string \<Rightarrow> pyval option) \<Rightarrow> string option \<Rightarrow> (string \<times> string) option" where
  "two_paths loads body =
     (case body of
        None \<Rightarrow> None
      | Some b \<Rightarrow>
          (case loads b of
             Some (PDict d) \<Rightarrow>
               (if unknown_keys [''from'', ''to''] d \<noteq> [] then None
                else case (dict_get d ''from'', dict_get d ''to'') of (Some (PStr p), Some (PStr q)) \<Rightarrow> Some (p, q) | _ \<Rightarrow> None)
           | _ \<Rightarrow> None))"

definition fs_route_of :: "(string \<Rightarrow> pyval option) \<Rightarrow> http_call \<Rightarrow> string \<Rightarrow> fs_request option" where
  "fs_route_of loads call u =
     (case hc_method call of
        GET \<Rightarrow> (case after_prefix (MOUNT @ ''/files/'') u of
                 Some p \<Rightarrow> Some (GetFile p) | None \<Rightarrow> map_option GetStat (after_prefix (MOUNT @ ''/stat/'') u))
      | PUT \<Rightarrow> map_option (\<lambda>p. PutFile p (case hc_body call of Some b \<Rightarrow> b | None \<Rightarrow> [])) (after_prefix (MOUNT @ ''/files/'') u)
      | DELETE \<Rightarrow> map_option DeleteFile (after_prefix (MOUNT @ ''/files/'') u)
      | POST \<Rightarrow>
          (if u = MOUNT @ ''/rename'' then map_option (\<lambda>(p, q). PostRename p q) (two_paths loads (hc_body call))
           else if u = MOUNT @ ''/copy'' then map_option (\<lambda>(p, q). PostCopy p q) (two_paths loads (hc_body call))
           else if u = MOUNT @ ''/tmpdir'' then Some PostTmpdir else None))"

record served_world =
  sw_state :: local_fs
  sw_moments :: "nat \<Rightarrow> fs_env"
  sw_count :: nat

definition TIMED_OUT :: cl_exn where
  "TIMED_OUT = LocalE (OtherErrno 110)"

definition answer :: "(pyval \<Rightarrow> string) \<Rightarrow> fs_response \<Rightarrow> cl_exn + int \<times> string" where
  "answer dumps r =
     (case r of
        RawResponse content _ \<Rightarrow> Inr (200, content)
      | HeadResponse _ _ \<Rightarrow> Inr (200, [])
      | JsonResponse j \<Rightarrow> Inr (resp_status j, dumps (resp_json j))
      | NoResponse \<Rightarrow> Inl TIMED_OUT)"

definition serve :: "fs_request \<Rightarrow> (served_world, fs_api_exn, fs_reply) opn" where
  "serve req w =
     (case fs_handle (sw_moments w (sw_count w)) req (sw_state w) of
        (r, s) \<Rightarrow> (r, w\<lparr>sw_state := s, sw_count := sw_count w + 1\<rparr>))"

definition wire_send :: "app_state \<Rightarrow> (string \<Rightarrow> pyval option) \<Rightarrow> (pyval \<Rightarrow> string) \<Rightarrow> address \<Rightarrow> http_call \<Rightarrow>
    (served_world, cl_exn, int \<times> string) opn" where
  "wire_send st loads dumps a call w =
     (if hc_method call = GET \<and> hc_url call = ''/v1/meta'' then (Inr (200, dumps (meta st)), w)
      else case Option.bind (unquote (hc_url call)) (fs_route_of loads call) of
             None \<Rightarrow> (Inr (404, dumps (error_body (JettyError NOT_FOUND (hc_url call)))), w)
           | Some req \<Rightarrow> (case serve req w of (r, w') \<Rightarrow> (answer dumps (fs_route r), w')))"

section \<open>The client's view of a failure\<close>

definition client_exn :: "string \<Rightarrow> fs_api_exn \<Rightarrow> cl_exn" where
  "client_exn path e =
     (case e of
        FsJetty j \<Rightarrow>
          (case err_code j of
             NOT_FOUND \<Rightarrow> NotFoundE path
           | INVALID_REQUEST \<Rightarrow> ValueE path
           | c \<Rightarrow> OSE path (err_status j) (PStr (error_code_str c)))
      | FsApiError code _ \<Rightarrow> (if code = ''permission_denied'' then PermissionE path else OSE path 500 (PStr ''internal_error''))
      | FsPy _ \<Rightarrow> OSE path 500 (PStr ''internal_error'')
      | FsHangs \<Rightarrow> TIMED_OUT)"

text \<open>What a handler can raise: the status of an error is the one of its code.\<close>

definition proper_exn :: "fs_api_exn \<Rightarrow> bool" where
  "proper_exn e \<longleftrightarrow> (case e of FsJetty j \<Rightarrow> \<exists>c m. j = JettyError c m | _ \<Rightarrow> True)"

definition payload :: "(pyval \<Rightarrow> string) \<Rightarrow> fs_reply \<Rightarrow> string" where
  "payload dumps r = (case r of RawReply content _ \<Rightarrow> content | HeadReply _ _ \<Rightarrow> [] | JsonReply j \<Rightarrow> dumps j)"

text \<open>JSON as the wire uses it: objects, strings, integers and Booleans are read back as they were written.\<close>

fun wire_json :: "pyval \<Rightarrow> bool" where
  "wire_json (PStr _) = True"
| "wire_json (PInt _) = True"
| "wire_json (PBool _) = True"
| "wire_json (PList vs) = list_all wire_json vs"
| "wire_json (PDict d) = (list_all (\<lambda>(k, v). wire_json v) d \<and> distinct (map fst d))"
| "wire_json _ = False"

definition json_codec :: "(string \<Rightarrow> pyval option) \<Rightarrow> (pyval \<Rightarrow> string) \<Rightarrow> bool" where
  "json_codec loads dumps \<longleftrightarrow> (\<forall>v. wire_json v \<longrightarrow> loads (dumps v) = Some v)"

lemma raise_envelope:
  assumes "json_codec (ce_loads E) dumps"
  shows "fsspec_raise E status (dumps (PDict [(''error'', PDict [(''code'', PStr code), (''message'', PStr m), (''retryable'', PBool b)])])) path =
    (let c = (if code \<noteq> [] then PStr code else PStr (dict_get_or STATUS_CODES status []))
     in if c = PStr ''not_found'' then NotFoundE path else if c = PStr ''permission_denied'' then PermissionE path
        else if c = PStr ''invalid_request'' then ValueE path else OSE path status c)"
  using assms by (simp add: json_codec_def fsspec_raise_def loads_item_def truthy_def dict_get_or_def)

lemma checked_answer:
  assumes codec: "json_codec (ce_loads E) dumps" and "\<And>e. r = Inl e \<Longrightarrow> proper_exn e"
  shows "rbind (answer dumps (fs_route r)) (checked E path) =
    (case r of Inl e \<Rightarrow> Inl (client_exn path e) | Inr rep \<Rightarrow> Inr (payload dumps rep))"
proof (cases r)
  case (Inr rep)
  then show ?thesis by (cases rep) (simp_all add: answer_def fs_route_def checked_def payload_def)
next
  case (Inl e)
  have env: "checked E path (err_status j, dumps (error_body j)) = Inl (client_exn path (FsJetty j))" if "j = JettyError c m" for j c m
    using that by (cases c) (simp_all add: checked_def error_body_def raise_envelope [OF codec] JettyError_def client_exn_def Let_def)
  have internal: "rbind (answer dumps (JsonResponse (unhandled_error_handler x))) (checked E path) = Inl (OSE path 500 (PStr ''internal_error''))" for x
    by (simp add: answer_def unhandled_error_handler_def Let_def JettyError_def error_body_def checked_def raise_envelope [OF codec])
  show ?thesis
  proof (cases e)
    case (FsJetty j)
    then obtain c m where "j = JettyError c m" using assms(2) Inl by (auto simp: proper_exn_def)
    then show ?thesis using env Inl FsJetty by (simp add: answer_def fs_route_def jetty_error_handler_def)
  next
    case (FsApiError code m)
    show ?thesis
    proof (cases "code = ''permission_denied''")
      case True
      then show ?thesis
        by (simp add: Inl FsApiError answer_def fs_route_def fs_api_response_def FS_SEMANTICS_def checked_def raise_envelope [OF codec]
            Let_def client_exn_def)
    next
      case False
      then show ?thesis using internal [of KeyError]
        by (simp add: Inl FsApiError fs_route_def fs_api_response_def FS_SEMANTICS_def client_exn_def)
    qed
  next
    case (FsPy x)
    then show ?thesis using internal [of x] by (simp add: Inl fs_route_def client_exn_def)
  qed (use Inl in \<open>simp add: answer_def fs_route_def client_exn_def\<close>)
qed

section \<open>Every operation is a request\<close>

lemma proper_exn_simps [simp]:
  "proper_exn (FsJetty (JettyError c m))" "proper_exn (FsApiError code m)" "proper_exn (FsPy x)" "proper_exn FsHangs"
  by (auto simp: proper_exn_def)

definition raises_proper :: "(local_fs, fs_api_exn, 'a) opn \<Rightarrow> bool" where
  "raises_proper m \<longleftrightarrow> (\<forall>s e s'. m s = (Inl e, s') \<longrightarrow> proper_exn e)"

lemma raises_sbind: "raises_proper m \<Longrightarrow> (\<And>x. raises_proper (f x)) \<Longrightarrow> raises_proper (sbind m f)"
  unfolding raises_proper_def by (auto simp: sbind_unfold split: prod.splits sum.splits)

lemma raises_basic:
  "raises_proper (slift (check_path p))" "raises_proper (fs_dispatch f)" "raises_proper (sret x)"
  "raises_proper (sraise (FsJetty (JettyError c m)))" "raises_proper (slift (case r of Inl e \<Rightarrow> Inl (FsPy e) | Inr t \<Rightarrow> Inr t))"
  by (auto simp: raises_proper_def check_path_def fs_dispatch_def fs_dispatch_exn_def slift_def sret_def sraise_def
      split: if_splits prod.splits sum.splits fs_exn.splits)

lemma raises_if: "raises_proper m \<Longrightarrow> raises_proper n \<Longrightarrow> raises_proper (if b then m else n)"
  by simp

lemma handle_proper: "fs_handle E req s = (Inl e, s') \<Longrightarrow> proper_exn e"
proof -
  have "raises_proper (fs_handle E req)"
    unfolding fs_handle_def h_read_file_def h_head_file_def h_write_file_def h_delete_file_def h_rename_file_def h_copy_file_def
      h_tmpdir_def h_stat_path_def
    by (cases req; simp only: fs_request.case; intro raises_sbind raises_basic raises_if)
  then show "fs_handle E req s = (Inl e, s') \<Longrightarrow> proper_exn e" by (auto simp: raises_proper_def)
qed

definition online :: "app_state \<Rightarrow> served_world client_env \<Rightarrow> served_world client \<Rightarrow> bool" where
  "online st E c \<longleftrightarrow> (\<exists>a. connection c = Inr a) \<and> cl_remote c = Some True \<and>
     ce_send E = wire_send st (ce_loads E) (ce_dumps E) \<and> json_codec (ce_loads E) (ce_dumps E)"

definition remotely :: "string \<Rightarrow> fs_request \<Rightarrow> (fs_reply \<Rightarrow> 'a) \<Rightarrow> (served_world client, cl_exn, 'a) opn" where
  "remotely path req f c =
     (case serve req (cl_world c) of
        (r, w) \<Rightarrow> ((case r of Inl e \<Rightarrow> Inl (client_exn path e) | Inr rep \<Rightarrow> Inr (f rep)), c\<lparr>cl_world := w\<rparr>))"

lemma online_remote: "online st E c \<Longrightarrow> sbind (is_remote E) f c = f True c"
  by (simp add: online_def is_remote_def sbind_unfold)

lemma request_served:
  assumes "online st E c" and "unquote url = Some u" and "meth \<noteq> GET \<or> url \<noteq> ''/v1/meta''"
    and "fs_route_of (ce_loads E) \<lparr>hc_method = meth, hc_url = url, hc_body = body, hc_content_type = ct\<rparr> u = Some req"
  shows "sbind (fsspec_request E meth url body ct) (\<lambda>r. sbind (slift (checked E path r)) f) c =
    sbind (remotely path req (payload (ce_dumps E))) f c"
proof -
  obtain a where a: "connection c = Inr a" and send: "ce_send E = wire_send st (ce_loads E) (ce_dumps E)"
    and codec: "json_codec (ce_loads E) (ce_dumps E)" using assms(1) by (auto simp: online_def)
  obtain r w where r: "serve req (cl_world c) = (r, w)" by fastforce
  have "\<And>e. r = Inl e \<Longrightarrow> proper_exn e" using r handle_proper by (auto simp: serve_def split: prod.splits)
  note ans = checked_answer [OF codec, of r path, OF this]
  have req: "fsspec_request E meth url body ct c = (answer (ce_dumps E) (fs_route r), c\<lparr>cl_world := w\<rparr>)"
    using assms(2,3,4) a r by (auto simp: fsspec_request_def on_world_def send wire_send_def)
  show ?thesis
    using ans by (cases "answer (ce_dumps E) (fs_route r)"; cases r) (auto simp: req sbind_unfold slift_def remotely_def r split: sum.splits)
qed

lemma route_files:
  "fs_route_of loads \<lparr>hc_method = GET, hc_url = url, hc_body = b, hc_content_type = ct\<rparr> (MOUNT @ ''/files/'' @ p) = Some (GetFile p)"
  "fs_route_of loads \<lparr>hc_method = PUT, hc_url = url, hc_body = Some v, hc_content_type = ct\<rparr> (MOUNT @ ''/files/'' @ p) = Some (PutFile p v)"
  "fs_route_of loads \<lparr>hc_method = DELETE, hc_url = url, hc_body = b, hc_content_type = ct\<rparr> (MOUNT @ ''/files/'' @ p) = Some (DeleteFile p)"
  "fs_route_of loads \<lparr>hc_method = GET, hc_url = url, hc_body = b, hc_content_type = ct\<rparr> (MOUNT @ ''/stat/'' @ p) = Some (GetStat p)"
  "fs_route_of loads \<lparr>hc_method = POST, hc_url = url, hc_body = b, hc_content_type = ct\<rparr> (MOUNT @ ''/tmpdir'') = Some PostTmpdir"
  by (simp_all add: fs_route_of_def after_prefix_def MOUNT_def)

lemma route_two_paths:
  assumes "json_codec loads dumps"
  shows "fs_route_of loads \<lparr>hc_method = POST, hc_url = url, hc_body = Some (dumps (PDict [(''from'', PStr p), (''to'', PStr q)])), hc_content_type = ct\<rparr>
      (MOUNT @ ''/rename'') = Some (PostRename p q)"
    and "fs_route_of loads \<lparr>hc_method = POST, hc_url = url, hc_body = Some (dumps (PDict [(''from'', PStr p), (''to'', PStr q)])), hc_content_type = ct\<rparr>
      (MOUNT @ ''/copy'') = Some (PostCopy p q)"
proof -
  have "loads (dumps (PDict [(''from'', PStr p), (''to'', PStr q)])) = Some (PDict [(''from'', PStr p), (''to'', PStr q)])"
    using assms by (simp add: json_codec_def)
  moreover have "unknown_keys [''from'', ''to''] [(''from'', PStr p), (''to'', PStr q)] = []" by (simp add: unknown_keys_def)
  ultimately show "fs_route_of loads \<lparr>hc_method = POST, hc_url = url, hc_body = Some (dumps (PDict [(''from'', PStr p), (''to'', PStr q)])), hc_content_type = ct\<rparr>
      (MOUNT @ ''/rename'') = Some (PostRename p q)"
    "fs_route_of loads \<lparr>hc_method = POST, hc_url = url, hc_body = Some (dumps (PDict [(''from'', PStr p), (''to'', PStr q)])), hc_content_type = ct\<rparr>
      (MOUNT @ ''/copy'') = Some (PostCopy p q)"
    by (simp_all add: fs_route_of_def two_paths_def MOUNT_def)
qed

lemma not_meta: "file_url p \<noteq> ''/v1/meta''" "MOUNT @ ''/stat/'' @ q \<noteq> ''/v1/meta''"
  by (simp_all add: file_url_def MOUNT_def)

lemma remotely_map: "sbind (remotely path req f) (\<lambda>x. sret (g x)) c = remotely path req (g \<circ> f) c"
  by (simp add: remotely_def sbind_unfold sret_def split: prod.splits sum.splits)

lemma sbind_nest: "sbind (sbind m f) g s = sbind m (\<lambda>x. sbind (f x) g) s"
  by (auto simp: sbind_unfold split: prod.splits sum.splits)

lemma slice_all: "py_slice None None xs = xs"
  by (simp add: py_slice_def)

lemma remote_cat:
  assumes "online st E c"
  shows "cat_file E p i j c = remotely (ce_strip E p) (GetFile (ce_strip E p)) (\<lambda>rep. py_slice i j (payload (ce_dumps E) rep)) c"
proof -
  have "(if i \<noteq> None \<or> j \<noteq> None then py_slice i j d else d) = py_slice i j d" for d :: string
    using slice_all [of d] by auto
  then show ?thesis
    unfolding cat_file_def Let_def online_remote [OF assms]
    by (simp only: not_True_eq_False if_False sbind_nest request_served [OF assms unquote_urls(1) disjI2 [OF not_meta(1)] route_files(1)]
        remotely_map comp_def)
qed

lemma remote_pipe:
  assumes "online st E c"
  shows "pipe_file E p v c = remotely (ce_strip E p) (PutFile (ce_strip E p) v) (\<lambda>_. ()) c"
  unfolding pipe_file_def Let_def online_remote [OF assms]
  by (simp add: request_served [OF assms unquote_urls(1) disjI1 route_files(2)] remotely_map comp_def)

lemma remote_rm:
  assumes "online st E c"
  shows "rm_file E p c = remotely (ce_strip E p) (DeleteFile (ce_strip E p)) (\<lambda>_. ()) c"
  unfolding rm_file_def Let_def online_remote [OF assms]
  by (simp add: request_served [OF assms unquote_urls(1) disjI1 route_files(3)] remotely_map comp_def)

lemma remote_two_path:
  assumes "online st E c"
  shows "mv E p q c = remotely (ce_strip E p @ '' -> '' @ ce_strip E q) (PostRename (ce_strip E p) (ce_strip E q)) (\<lambda>_. ()) c"
    and "cp_file E p q c = remotely (ce_strip E p @ '' -> '' @ ce_strip E q) (PostCopy (ce_strip E p) (ce_strip E q)) (\<lambda>_. ()) c"
proof -
  have codec: "json_codec (ce_loads E) (ce_dumps E)" using assms by (simp add: online_def)
  have urls: "MOUNT @ ''/'' @ ''rename'' = MOUNT @ ''/rename''" "MOUNT @ ''/'' @ ''copy'' = MOUNT @ ''/copy''" by simp_all
  show "mv E p q c = remotely (ce_strip E p @ '' -> '' @ ce_strip E q) (PostRename (ce_strip E p) (ce_strip E q)) (\<lambda>_. ()) c"
    unfolding mv_def two_path_def Let_def online_remote [OF assms] urls
    by (simp only: not_True_eq_False if_False request_served [OF assms unquote_urls(3) disjI1 route_two_paths(1) [OF codec]] http_method.distinct
        not_False_eq_True remotely_map comp_def)
  show "cp_file E p q c = remotely (ce_strip E p @ '' -> '' @ ce_strip E q) (PostCopy (ce_strip E p) (ce_strip E q)) (\<lambda>_. ()) c"
    unfolding cp_file_def two_path_def Let_def online_remote [OF assms] urls
    by (simp only: not_True_eq_False if_False request_served [OF assms unquote_urls(4) disjI1 route_two_paths(2) [OF codec]] http_method.distinct
        not_False_eq_True remotely_map comp_def)
qed

text \<open>The answers that are read back from JSON.\<close>

definition json_of :: "fs_reply \<Rightarrow> pyval" where
  "json_of r = (case r of JsonReply j \<Rightarrow> j | _ \<Rightarrow> PNone)"

lemma tmpdir_reply: "fs_handle V PostTmpdir s = (Inr rep, s') \<Longrightarrow> \<exists>p. rep = JsonReply (PDict [(''path'', PStr p)])"
  by (auto simp: fs_handle_def h_tmpdir_def sbind_unfold sret_def split: prod.splits sum.splits)

lemma stat_reply: "fs_handle V (GetStat p) s = (Inr rep, s') \<Longrightarrow> \<exists>j. rep = JsonReply j \<and> wire_json j"
  by (auto simp: fs_handle_def h_stat_path_def sbind_unfold slift_def sret_def split: prod.splits sum.splits)

lemma remote_json:
  assumes "online st E c"
  shows "client_stat E p c = remotely p (GetStat p) json_of c"
    and "gettmpdir E c = remotely ''tmpdir'' PostTmpdir (\<lambda>rep. case json_of rep of PDict d \<Rightarrow> pget d ''path'' | _ \<Rightarrow> PNone) c"
proof -
  have codec: "\<And>v. wire_json v \<Longrightarrow> ce_loads E (ce_dumps E v) = Some v" using assms by (simp add: online_def json_codec_def)
  show "client_stat E p c = remotely p (GetStat p) json_of c"
    unfolding client_stat_def online_remote [OF assms]
    by (simp only: not_True_eq_False if_False request_served [OF assms unquote_urls(2) disjI2 [OF not_meta(2)] route_files(4)])
      (auto simp: remotely_def serve_def sbind_unfold slift_def payload_def json_of_def codec dest!: stat_reply split: prod.splits sum.splits)
  show "gettmpdir E c = remotely ''tmpdir'' PostTmpdir (\<lambda>rep. case json_of rep of PDict d \<Rightarrow> pget d ''path'' | _ \<Rightarrow> PNone) c"
    unfolding gettmpdir_def online_remote [OF assms]
    by (simp only: not_True_eq_False if_False request_served [OF assms unquote_urls(5) disjI1 route_files(5)] http_method.distinct not_False_eq_True)
      (auto simp: remotely_def serve_def sbind_unfold slift_def payload_def json_of_def codec loads_item_def of_py_def pget_def dict_get_or_def
        dest!: tmpdir_reply split: prod.splits sum.splits)
qed

section \<open>Discovery\<close>

lemma wire_json_meta: "wire_json (meta st)"
  by (auto simp: meta_def module_meta_def list_all_iff)

lemma meta_module_names: "module_names (PList (map module_meta ms)) = map (\<lambda>m. PStr (mod_name m)) ms"
  by (simp add: module_names_def module_meta_def pget_def dict_get_or_def list_all_iff)

text \<open>The first operation asks the server what it offers; the answer is kept.\<close>

lemma discovery:
  assumes "connection c = Inr a" and "cl_remote c = None" and "ce_send E = wire_send st (ce_loads E) (ce_dumps E)"
    and "json_codec (ce_loads E) (ce_dumps E)"
  shows "is_remote E c =
    (let r = ''filesystem'' \<in> set (map mod_name (app_modules st))
     in (if \<not> r \<and> \<not> cl_local_fallback c then Inl (NoModuleE ''filesystem'') else Inr r, c\<lparr>cl_remote := Some r\<rparr>))"
proof -
  have "ce_loads E (ce_dumps E (meta st)) = Some (meta st)" using assms(4) wire_json_meta by (simp add: json_codec_def)
  then have item: "loads_item E (ce_dumps E (meta st)) ''modules'' = Inr (PList (map module_meta (app_modules st)))"
    by (simp add: loads_item_def meta_def)
  have req: "fsspec_request E GET ''/v1/meta'' None None c = (Inr (200, ce_dumps E (meta st)), c)"
    using assms(1) by (simp add: fsspec_request_def assms(3) on_world_def wire_send_def)
  have mem: "(PStr x \<in> (\<lambda>m. PStr (mod_name m)) ` set ms) = (x \<in> mod_name ` set ms)" for x ms by auto
  have "probe E c = (Inr (''filesystem'' \<in> set (map mod_name (app_modules st))),
      c\<lparr>cl_remote := Some (''filesystem'' \<in> set (map mod_name (app_modules st)))\<rparr>)"
    unfolding probe_def req prod.case sum.case item meta_module_names Let_def by (simp only: set_map mem if_True refl)
  then show ?thesis using assms(2) by (simp add: is_remote_def sbind_unfold Let_def)
qed

lemma connection_frame [simp]: "connection (c\<lparr>cl_world := w\<rparr>) = connection c" "connection (c\<lparr>cl_remote := r\<rparr>) = connection c"
  by (simp_all add: connection_def cong: option.case_cong list.case_cong)

text \<open>A client that has asked behaves as one that knew.\<close>

lemma discovered:
  assumes "connection c = Inr a" and "cl_remote c = None" and "ce_send E = wire_send st (ce_loads E) (ce_dumps E)"
    and "json_codec (ce_loads E) (ce_dumps E)" and "''filesystem'' \<in> set (map mod_name (app_modules st))"
  shows "online st E (c\<lparr>cl_remote := Some True\<rparr>)"
    and "sbind (is_remote E) f c = sbind (is_remote E) f (c\<lparr>cl_remote := Some True\<rparr>)"
proof -
  show on: "online st E (c\<lparr>cl_remote := Some True\<rparr>)" using assms(1,3,4) by (simp add: online_def)
  show "sbind (is_remote E) f c = sbind (is_remote E) f (c\<lparr>cl_remote := Some True\<rparr>)"
    unfolding online_remote [OF on] using discovery [OF assms(1-4)] assms(5) by simp
qed

lemma online_after: "online st E c \<Longrightarrow> online st E (c\<lparr>cl_world := w\<rparr>)"
  by (simp add: online_def)

section \<open>Writing and reading back\<close>

lemma remote_put_get:
  assumes "online st E c" and "fs_wf (lf_fs (sw_state (cl_world c)))" and "loop_free (lf_fs (sw_state (cl_world c))) (ce_strip E p)"
    and "hex_tokens m" and "no_stat_dst (fm_refused m) \<noteq> Some ENOENT" and "no_cleanup (fm_refused m) = None"
    and "m = fe_moment (sw_moments (cl_world c) (sw_count (cl_world c)))"
    and "m' = fe_moment (sw_moments (cl_world c) (sw_count (cl_world c) + 1))" and "unrefused m'" and "fm_euid m' = fm_euid m"
    and "pipe_file E p v c = (Inr (), c')"
  shows "online st E c' \<and> fst (cat_file E p i j c') = Inr (py_slice i j v)"
proof -
  let ?w = "cl_world c" and ?path = "ce_strip E p"
  let ?V = "sw_moments ?w (sw_count ?w)"
  obtain r s where h: "fs_handle ?V (PutFile ?path v) (sw_state ?w) = (r, s)" by fastforce
  have c': "c' = c\<lparr>cl_world := ?w\<lparr>sw_state := s, sw_count := sw_count ?w + 1\<rparr>\<rparr>" and ok: "\<exists>rep. r = Inr rep"
    using assms(11) h by (auto simp: remote_pipe [OF assms(1)] remotely_def serve_def split: sum.splits)
  from ok h obtain wr where path: "check_path ?path = Inr ?path" and wr: "fs_write m ?path v (sw_state ?w) = (Inr wr, s)"
    using assms(7)
    by (auto simp: fs_handle_def h_write_file_def sbind_unfold slift_def fs_dispatch_def sret_def check_path_def split: prod.splits sum.splits if_splits)
  from write_atomic [OF assms(2,3,4,5,6) wr] have rd: "fs_read m' ?path s = (Inr v, s)" using assms(9,10) by auto
  have on: "online st E c'" unfolding c' by (rule online_after [OF assms(1)])
  have "fs_handle (sw_moments ?w (sw_count ?w + 1)) (GetFile ?path) s =
      (Inr (RawReply v (media_type (sw_moments ?w (sw_count ?w + 1)) ?path)), s)"
    using rd path assms(8) by (simp add: fs_handle_def h_read_file_def sbind_unfold slift_def fs_dispatch_def sret_def)
  moreover have "cl_world c' = ?w\<lparr>sw_state := s, sw_count := sw_count ?w + 1\<rparr>" by (simp add: c')
  ultimately show ?thesis using on by (simp add: remote_cat [OF on] remotely_def serve_def payload_def)
qed

section \<open>A sample connection\<close>

text \<open>A reversible coding of values as digits stands for JSON.\<close>

instance pyfloat :: countable
  by countable_datatype

instance pyval :: countable
  by countable_datatype

definition digits_dumps :: "pyval \<Rightarrow> string" where
  "digits_dumps v = str_nat (to_nat v)"

definition digits_loads :: "string \<Rightarrow> pyval option" where
  "digits_loads s = Some (from_nat (nat (int_of_digits s)))"

lemma digits_codec: "json_codec digits_loads digits_dumps"
  by (simp add: json_codec_def digits_loads_def digits_dumps_def)

definition sample_app :: app_state where
  "sample_app = \<lparr>app_modules = [\<lparr>mod_name = ''filesystem'', mod_api_version = ''v1'', mod_foreign = False\<rparr>], app_started_at = 0\<rparr>"

definition no_local :: "('w, cl_exn, 'a) opn" where
  "no_local w = (Inl (LocalE ENOTDIR), w)"

definition sample_client_env :: "served_world client_env" where
  "sample_client_env =
     \<lparr>ce_strip = (\<lambda>p. if prefix ''jetty://'' p then drop 8 p else p), ce_send = wire_send sample_app digits_loads digits_dumps,
      ce_loads = digits_loads, ce_dumps = digits_dumps, ce_iso = (\<lambda>_. Inl ValueError), ce_fromiso = (\<lambda>_. Inl ValueError),
      lo_read = (\<lambda>_. no_local), lo_write = (\<lambda>_ _. no_local), lo_isdir = (\<lambda>_ _. False), lo_rmdir = (\<lambda>_. no_local), lo_remove = (\<lambda>_. no_local),
      lo_replace = (\<lambda>_ _. no_local), lo_copyfile = (\<lambda>_ _. no_local), lo_mkdtemp = (\<lambda>_. no_local), lo_stat = (\<lambda>_. no_local), lo_open = (\<lambda>_ _. no_local)\<rparr>"

definition sample_world :: served_world where
  "sample_world = \<lparr>sw_state = served, sw_moments = (\<lambda>_. calm_env), sw_count = 0\<rparr>"

definition sample_client :: "served_world client" where
  "sample_client = \<lparr>cl_uds = Some DEFAULT_UDS, cl_tcp = None, cl_local_fallback = True, cl_remote = None, cl_world = sample_world\<rparr>"

lemma sample_online: "online sample_app sample_client_env (sample_client\<lparr>cl_remote := Some True\<rparr>)"
  by (simp add: online_def sample_client_def sample_client_env_def digits_codec connection_def DEFAULT_UDS_def)

lemma fst_remotely:
  "fst (remotely path req f c) = (case fst (serve req (cl_world c)) of Inl e \<Rightarrow> Inl (client_exn path e) | Inr rep \<Rightarrow> Inr (f rep))"
  by (simp add: remotely_def split_beta)

lemma fst_serve_sample: "fst (serve req sample_world) = fst (fs_handle calm_env req served)"
  by (simp add: serve_def sample_world_def split_beta)

section \<open>Properties\<close>



text \<open>
  C8: A file written through the client is the file read through it. A client that has not asked yet finds the
  module on its own; when the write is accepted, the next read of the path returns the bytes that were written (or the
  part of them that was asked for), and opening the file to append starts behind them. This needs a connection, a
  file system in order, a path without a loop of links, and a next request that the kernel does not refuse.
\<close>

theorem remote_write_read:
  assumes "JettyFileSystem uds tcp fallback w = Inr c" and "connection c = Inr a"
    and "ce_send E = wire_send st (ce_loads E) (ce_dumps E)" and "json_codec (ce_loads E) (ce_dumps E)"
    and "''filesystem'' \<in> set (map mod_name (app_modules st))" and "ce_strip E (ce_strip E p) = ce_strip E p"
    and "fs_wf (lf_fs (sw_state w))" and "loop_free (lf_fs (sw_state w)) (ce_strip E p)"
    and "m = fe_moment (sw_moments w (sw_count w))" and "hex_tokens m" and "no_stat_dst (fm_refused m) \<noteq> Some ENOENT"
    and "no_cleanup (fm_refused m) = None" and "m' = fe_moment (sw_moments w (sw_count w + 1))" and "unrefused m'" and "fm_euid m' = fm_euid m"
    and "pipe_file E p v c = (Inr (), c')"
  shows "fst (cat_file E p i j c') = Inr (py_slice i j v)
    \<and> (\<exists>f. fst (client_open E p ''ab'' c') = Inr (RemoteFile f) \<and> (\<forall>x. jf_buffer (jf_write x f) = v @ x))"
proof -
  let ?c = "c\<lparr>cl_remote := Some True\<rparr>"
  have c: "cl_remote c = None" "cl_world c = w" using assms(1) by (auto simp: JettyFileSystem_def split: if_splits)
  note on = discovered [OF assms(2) c(1) assms(3,4,5)]
  have put: "pipe_file E p v ?c = (Inr (), c')" using assms(16) unfolding pipe_file_def Let_def on(2) .
  have get: "online st E c' \<and> fst (cat_file E q i j c') = Inr (py_slice i j v)" if "ce_strip E q = ce_strip E p" for q i j
  proof -
    have same: "cat_file E q i j = cat_file E p i j" using that by (simp add: cat_file_def)
    show ?thesis unfolding same
      by (rule remote_put_get [OF on(1) _ _ assms(10,11,12) _ _ assms(14,15) put]) (use assms c in simp_all)
  qed
  from get [OF refl] have on': "online st E c'" by blast
  obtain r c'' where r: "cat_file E (ce_strip E p) None None c' = (r, c'')" by fastforce
  with get [of "ce_strip E p" None None] assms(6) have "r = Inr v" by (simp add: slice_all)
  with r have "client_open E p ''ab'' c' = (Inr (RemoteFile ((JettyFile (ce_strip E p) ''ab'' v)\<lparr>jf_pos := length v\<rparr>)), c'')"
    unfolding client_open_def Let_def online_remote [OF on'] by (simp add: sbind_unfold sret_def)
  then show ?thesis using get [OF refl] by (auto simp: jf_write_def JettyFile_def Let_def)
qed

theorem remote_write_read_witness:
  "fst (cat_file sample_client_env ''jetty:///srv/a'' None None (snd (pipe_file sample_client_env ''jetty:///srv/a'' ''new'' sample_client))) = Inr ''new''"
proof -
  let ?E = sample_client_env and ?c = "sample_client\<lparr>cl_remote := Some True\<rparr>" and ?p = "''jetty:///srv/a''"
  have build: "JettyFileSystem None None True sample_world = Inr sample_client" by (simp add: JettyFileSystem_def sample_client_def)
  have conn: "connection sample_client = Inr (Uds DEFAULT_UDS)" by (simp add: connection_def sample_client_def DEFAULT_UDS_def)
  have wire: "ce_send ?E = wire_send sample_app (ce_loads ?E) (ce_dumps ?E)" "json_codec (ce_loads ?E) (ce_dumps ?E)"
    by (simp_all add: sample_client_env_def digits_codec)
  have offers: "''filesystem'' \<in> set (map mod_name (app_modules sample_app))" by (simp add: sample_app_def)
  have strip: "ce_strip ?E ?p = ''/srv/a''" by (simp add: sample_client_env_def)
  note known = discovered(2) [OF conn _ wire offers]
  have "pipe_file ?E ?p ''new'' sample_client = pipe_file ?E ?p ''new'' ?c"
    unfolding pipe_file_def Let_def by (rule known) (simp add: sample_client_def)
  moreover have "fst (fs_handle calm_env (PutFile ''/srv/a'' ''new'') served) =
      Inr (JsonReply (PDict [(''size'', PInt 3), (''created'', PBool False)]))" by code_simp
  moreover have "cl_world ?c = sample_world" by (simp add: sample_client_def)
  ultimately have "fst (pipe_file ?E ?p ''new'' sample_client) = Inr ()"
    by (simp add: remote_pipe [OF sample_online] fst_remotely fst_serve_sample strip)
  then have put: "pipe_file ?E ?p ''new'' sample_client = (Inr (), snd (pipe_file ?E ?p ''new'' sample_client))" by (simp add: prod_eq_iff)
  have world: "sw_state sample_world = served" "fe_moment (sw_moments sample_world k) = calm" for k
    by (simp_all add: sample_world_def calm_env_def)
  have fs: "fs_wf (lf_fs (sw_state sample_world))" "loop_free (lf_fs (sw_state sample_world)) (ce_strip ?E ?p)"
    unfolding world strip by (rule served_wf, code_simp)
  have again: "ce_strip ?E ''/srv/a'' = ''/srv/a''" by (simp add: sample_client_env_def)
  have calm_facts: "hex_tokens calm" "unrefused calm" "no_stat_dst (fm_refused calm) \<noteq> Some ENOENT" "no_cleanup (fm_refused calm) = None"
    by code_simp+
  show ?thesis
    using remote_write_read [OF build conn wire offers _ fs refl _ _ _ refl _ _ put, of None None] calm_facts
    by (simp add: world strip again slice_all)
qed

text \<open>
  Where the client and its fallback differ from what they say. An error body whose \<^verbatim>\<open>error\<close> is no object raises
  \<open>AttributeError\<close> instead of an \<open>OSError\<close>. The rule of absolute paths is not the only one the server enforces: the fallback takes
  a path with dots that the server refuses. And for a path below a regular file the server's answer makes \<open>exists\<close>
  false, while the fallback lets the operating system's \<open>ENOTDIR\<close> through.
\<close>

theorem client_gaps:
  "ce_loads E data = Some (PDict [(''error'', PStr m)]) \<Longrightarrow> fsspec_raise E status data path = ClPy AttributeError"
  "fsspec_local ''/a/../b'' = Inr ''/a/../b'' \<and> check_path ''/a/../b'' = Inl (FsJetty (JettyError INVALID_REQUEST ''/a/../b''))"
  "fst (client_exists sample_client_env ''/srv/a/b'' (sample_client\<lparr>cl_remote := Some False\<rparr>)) = Inl (LocalE ENOTDIR)"
  "fst (client_exists sample_client_env ''/srv/a/b'' (sample_client\<lparr>cl_remote := Some True\<rparr>)) = Inr False"
proof -
  show "ce_loads E data = Some (PDict [(''error'', PStr m)]) \<Longrightarrow> fsspec_raise E status data path = ClPy AttributeError"
    by (simp add: fsspec_raise_def loads_item_def)
  show "fsspec_local ''/a/../b'' = Inr ''/a/../b'' \<and> check_path ''/a/../b'' = Inl (FsJetty (JettyError INVALID_REQUEST ''/a/../b''))"
    by code_simp
  show "fst (client_exists sample_client_env ''/srv/a/b'' (sample_client\<lparr>cl_remote := Some False\<rparr>)) = Inl (LocalE ENOTDIR)"
    by (simp add: client_exists_def client_stat_def is_remote_def sbind_unfold slift_def fsspec_local_def on_world_def sample_client_env_def
        sample_client_def no_local_def is_not_found_def)
  have "fst (fs_handle calm_env (GetStat ''/srv/a/b'') served) = Inl (FsJetty (JettyError NOT_FOUND ''/srv/a/b''))" by code_simp
  moreover have "ce_strip sample_client_env ''/srv/a/b'' = ''/srv/a/b''" by (simp add: sample_client_env_def)
  moreover have "cl_world (sample_client\<lparr>cl_remote := Some True\<rparr>) = sample_world" by (simp add: sample_client_def)
  ultimately have "fst (client_stat sample_client_env (ce_strip sample_client_env ''/srv/a/b'') (sample_client\<lparr>cl_remote := Some True\<rparr>)) = Inl (NotFoundE ''/srv/a/b'')"
    by (simp add: remote_json(1) [OF sample_online] fst_remotely fst_serve_sample client_exn_def JettyError_def)
  then show "fst (client_exists sample_client_env ''/srv/a/b'' (sample_client\<lparr>cl_remote := Some True\<rparr>)) = Inr False"
    by (simp add: client_exists_def is_not_found_def split_beta)
qed

end
