(* ===== verification/Spec2Isabelle.thy ===== *)
theory Spec2Isabelle
  imports
    Headers
    Listener_Config
    Server
    Tracker_Listing
    Orc_Load
    Orc_Policy
    Orc_Ports
    Orc_Release
    Orc_Instance
    Orc_Template
    Mail_Restart
    Chat_Listing
    Fs_Surface
    Sql_Service
    Fn_Surface
    Orc_Console
    Orc_Contain
    Llm_Service
    Hg_Service
    Fs_Remote
begin

text \<open>
  \<^bold>\<open>A verification library for Jetty.\<close>

  Jetty is a sidecar: an HTTP server (\<^verbatim>\<open>src/jetty/server.py\<close>) that serves the modules enabled in its
  configuration, each an emulation of one corporate service behind a published protocol. Beside it stands
  \<^verbatim>\<open>jetty-orc\<close>, the orchestrator (\<^verbatim>\<open>src/jetty/orchestrator/\<close>), which runs a set of processes as one
  instance. The theories follow the source file by file. A theory with the name of a source file holds the
  definitions, in the order of the code; the theories after it hold what is proved of them.

  \<^bold>\<open>How the code is translated.\<close> A class becomes a \<open>record\<close>, its methods functions of the type
  \<open>('s, 'e, 'a) opn\<close> (the state in, a result or an error and the state out), its dictionaries association
  lists in insertion order (\<open>dict\<close>), its exceptions values of a sum type. A coroutine that waits becomes a
  machine: every point where it can be suspended is a value of a program counter, every resumption is an
  event, and interleavings are sequences of events. Integers are unbounded, as in Python. Strings are
  lists of characters below 256 (Latin-1), so that what the code does with other code points is not
  covered. Library code is modelled where the sources call it (\<open>Py_Prelude\<close>, \<open>Py_Text\<close>, \<open>Py_Format\<close>,
  \<open>Py_Time\<close>, \<open>Py_Iso\<close>, \<open>Py_Float\<close>); what lies outside of the program is a parameter: the clock, the hash,
  the outcome of a write, the kernel's sockets, the exit of a script, \<open>realpath\<close> and the environment, the
  spelling of a framework's validation error.

  \<^bold>\<open>The core\<close> (\<^verbatim>\<open>src/jetty/\<close>).
  \<^item> \<open>Errors\<close> (\<^verbatim>\<open>errors.py\<close>): the closed table of error codes, the error envelope, both handlers.
  \<^item> \<open>Headers\<close> (\<^verbatim>\<open>headers.py\<close>): the header collection; it survives the wire form, and a sole header is
    never picked among several.
  \<^item> \<open>Listener_Config\<close> (\<^verbatim>\<open>config.py\<close>): the listener's validator accepts exactly the safe configurations.
  \<^item> \<open>Module_Registry\<close> (\<^verbatim>\<open>modules/base.py\<close>, \<^verbatim>\<open>modules/registry.py\<close>): registration, and that exactly the
    enabled modules are built.
  \<^item> \<open>Server\<close> (\<^verbatim>\<open>server.py\<close>): the core routes, the handlers, the lifespan; exactly the modules that were
    started are shut down, in reverse order.

  \<^bold>\<open>The modules\<close> (\<^verbatim>\<open>src/jetty/modules/\<close>). \<open>Foreign_Surface\<close> is the contract the emulated surfaces share,
  a locale: requests keep the driver's invariant, the state only evolves, a refused request changes
  nothing that can be read. \<open>Pagination\<close> is the contract of page tokens, a locale: a client that follows
  the tokens sees every row once. Both are interpreted on the modules below.
  \<^item> The issue tracker (\<^verbatim>\<open>issuetracker/\<close>): \<open>Tracker_Driver\<close> (\<^verbatim>\<open>driver.py\<close>), \<open>Tracker_Mock\<close> (\<^verbatim>\<open>mock.py\<close>),
    \<open>Tracker_Surface\<close> (\<^verbatim>\<open>module.py\<close>). \<open>Tracker_Invariant\<close> has the invariant of the state and that every
    operation keeps it; \<open>Tracker_Service\<close> the properties of request sequences (the invariant, the
    visibility of changes, the specification of a modify, refusals); \<open>Tracker_Listing\<close> the walks.
  \<^item> Mail (\<^verbatim>\<open>mail/\<close>): \<open>Mail\<close> (\<^verbatim>\<open>driver.py\<close>, \<^verbatim>\<open>spool.py\<close>, \<^verbatim>\<open>module.py\<close>). \<open>Mail_Service\<close> has idempotency, what an
    acceptance and a refusal mean, rehearsals and limits; \<open>Mail_Restart\<close> the reconstruction of the
    idempotency store.
  \<^item> Chat (\<^verbatim>\<open>chat/\<close>): \<open>Chat_Mock\<close> (\<^verbatim>\<open>driver.py\<close>, \<^verbatim>\<open>mock.py\<close>), \<open>Chat_Surface\<close> (\<^verbatim>\<open>module.py\<close>). \<open>Chat_Invariant\<close> has
    the invariant; \<open>Chat_Service\<close> the refinement of an abstract message board; \<open>Chat_Listing\<close> walks, time
    filters and quotes.
  \<^item> Files (\<^verbatim>\<open>filesystem/\<close>): \<open>Posix_Fs\<close> is a file system with symbolic links, its calls and \<open>os.path.realpath\<close>;
    \<open>Fs_Local\<close> (\<^verbatim>\<open>driver.py\<close>, \<^verbatim>\<open>local.py\<close>), \<open>Fs_Surface\<close> (\<^verbatim>\<open>module.py\<close>). \<open>Fs_Paths\<close> shows that a resolved path has no
    link left on it, \<open>Fs_Effects\<close> what each call changes, \<open>Fs_Service\<close> containment, atomic writes, and the loop
    of links that leads out of the root. \<open>Fs_Client\<close> is the client (\<^verbatim>\<open>fsspec.py\<close>), and \<open>Fs_Remote\<close> puts it in front of the
    server: every operation is one request, and what is written is what is read back.

  \<^item> Storage (\<^verbatim>\<open>sql/\<close>): \<open>Sql_Dialect\<close> (\<^verbatim>\<open>dialect.py\<close>), \<open>Sql_Sqlite\<close> (\<^verbatim>\<open>driver.py\<close>, \<^verbatim>\<open>sqlite.py\<close>), \<open>Sql_Surface\<close>
    (\<^verbatim>\<open>module.py\<close>). The parser and what a client's statement does to the store are parameters. \<open>Sql_Service\<close> shows that a
    batch is all or nothing, that a query writes nothing and that migrations extend the history one at a time, against
    a reference without transactions, and where these promises end.

  \<^item> Functions (\<^verbatim>\<open>functions/\<close>): \<open>Fn_Exec\<close> (\<^verbatim>\<open>driver.py\<close>, \<^verbatim>\<open>exec.py\<close>) and \<open>Fn_Surface\<close> (\<^verbatim>\<open>module.py\<close>). What a child process
    does is a parameter; the locale \<open>function_driver\<close> is the contract of a driver. A call fails closed.

  \<^item> The model proxy (\<^verbatim>\<open>llmproxy/\<close>): \<open>Llm_Proxy\<close> has \<^verbatim>\<open>module.py\<close>, \<^verbatim>\<open>forward.py\<close> and \<^verbatim>\<open>mock_gemini.py\<close>, with the HTTP
    client as a parameter; \<open>Llm_Service\<close> shows credential custody, that the emulated stream is the unary answer in
    pieces, and that the counters count.

  \<^item> Mercurial (\<^verbatim>\<open>hg/\<close>): \<open>Hg\<close> has \<^verbatim>\<open>module.py\<close>, with the \<^verbatim>\<open>hg\<close> command as a parameter; its state is the list of the commands a
    request runs. \<open>Hg_Service\<close> bounds what can be on such a command line and follows the cursor of the changeset pages
    over a history, with the changesets it loses at a merge.

  \<^bold>\<open>The orchestrator\<close> (\<^verbatim>\<open>src/jetty/orchestrator/\<close>).
  \<^item> Configuration (\<^verbatim>\<open>config.py\<close>): \<open>Orc_Config\<close> (the tables), \<open>Orc_Order\<close> (the start order is a topological
    order, or a cycle is reported), \<open>Orc_Validate\<close> (the cross-checks accept exactly what a declarative
    specification describes), \<open>Orc_Schema\<close> (the parsers accept exactly the documents of a schema),
    \<open>Orc_Load\<close> (the \<open>extends\<close> chain, which always ends, and merging).
  \<^item> Rendering (\<^verbatim>\<open>render.py\<close>): \<open>Orc_Render\<close>; \<open>Orc_Template\<close> says what a template means and that what the check
    accepts renders at launch.
  \<^item> Ports (\<^verbatim>\<open>ports.py\<close>): \<open>Orc_Ports\<close>; allocated ports are distinct and no probe socket stays open.
  \<^item> Gates (\<^verbatim>\<open>gates.py\<close>): \<open>Orc_Gates\<close>; \<open>Orc_Watch\<close> has the watchers of \<^verbatim>\<open>service.py\<close> and that a gate closes
    exactly after so many consecutive failed runs, over the locale \<open>stamped_checks\<close> of a cache whose
    entries carry the time of their run.
  \<^item> One service (\<^verbatim>\<open>service.py\<close>): \<open>Orc_Service\<close> is the machine; \<open>Orc_Lifecycle\<close> its invariant; \<open>Orc_Policy\<close> that
    at most one process lives, that the restart budget is exact, that a stop ends the run.
  \<^item> Resolvers (\<^verbatim>\<open>resolvers.py\<close>): \<open>Orc_Resolve\<close>, with generations; \<open>Orc_Release\<close> has the parsing of a
    script's output and the copies of binaries.
  \<^item> The supervisor (\<^verbatim>\<open>supervisor.py\<close>): \<open>Orc_Supervisor\<close> has its decisions, and that a shutdown ends;
    \<open>Orc_Instance\<close> is the machine of all services of an instance together: dependencies run first, and
    services whose binaries are pinned together stay on one release when their spawns do not overlap.
  \<^item> Processes: \<open>Orc_Console\<close> (\<^verbatim>\<open>console.py\<close>), \<open>Orc_Procfs\<close> (\<^verbatim>\<open>procfs.py\<close>, \<^verbatim>\<open>registry.py\<close>), \<open>Orc_Contain\<close>
    (\<^verbatim>\<open>containment.py\<close>). The fields of a process are read back from what the kernel prints, and a killing sweep
    reaches every process of a service and no other.

  \<^bold>\<open>Bounds and fuel.\<close>
  \<^item> A client's walk over pages (\<open>walk_pages\<close>) has fuel; the number of rows is enough, and it is proved
    that the walk returns. \<open>load_raw\<close> has fuel; the number of files of the file system is enough, since
    a file that is seen twice is an error, and it is proved that it returns. \<open>stop_waves\<close> has as much fuel
    as there are services, and it is proved that it returns when there is a start order; running out
    stands for the loop that makes no progress. \<open>joinrealpath\<close> has as much fuel as the file system has
    entries, which is proved to be enough.
  \<^item> The broker tries 64 times (\<open>AUTO_ATTEMPTS\<close>), as the code does. Decimal integers of more than 4300
    digits are refused, as the interpreter does (\<open>int_str_bound\<close>).
  \<^item> Time stamps of the mock drivers are counted in units of $2^{-22}$ seconds, the spacing of doubles
    from 2004 to 2038; within these years the arithmetic is exact. The orchestrator's clocks are
    rationals, and every operation on them is rounded as a double is (\<open>Py_Float\<close>).

  \<^bold>\<open>Not modelled.\<close> The text of log lines and of most messages (an error is its kind and its arguments).
  The TOML and JSON readers, FastAPI's routing and pydantic's coercions, the event loop's scheduling
  (every order of events is allowed instead), processes, signals and sockets beyond their outcomes.
  In \<open>Posix_Fs\<close>, hard links and changes by other processes within one operation.

  The hook that runs in a child between fork and exec, and processes that are created while a sweep runs.

  Not modelled yet: the module \<^verbatim>\<open>reference\<close> and both command lines.
\<close>

end
